(* ===== verification/Prelude.thy ===== *)
theory Prelude
  imports Main "HOL-Library.Word"
begin

text \<open>
  Shared vocabulary of the development: the machine integers of the Rust sources as words, the
  outcome of a Rust call (value, error, panic, dropped future) as a datatype with its bind, slice
  indexing with its panic, little-endian byte lists, and the collections \<open>wire\<close> (rewriting of
  encoders and decoders) and \<open>total\<close> (facts that a decoder returns a value or an error on every
  input), which the component theories fill.
\<close>

named_theorems wire \<open>rewriting of encoders and decoders on encoded prefixes\<close>
named_theorems total \<open>decoders that return a value or an error\<close>

section \<open>Machine integers\<close>

type_synonym u8 = "8 word"
type_synonym u16 = "16 word"
type_synonym u32 = "32 word"
type_synonym u64 = "64 word"
type_synonym usize = nat
type_synonym bytes = "u8 list"

abbreviation u32_max :: nat where
  "u32_max \<equiv> 4294967295"

text \<open>
  A Rust \<open>String\<close> is a sequence of Unicode scalar values, here their numbers.
  \<open>str\<close> reads an ASCII literal.
\<close>

type_synonym rstr = "nat list"

definition str :: "string \<Rightarrow> rstr" where
  "str s = map of_char s"

definition is_scalar :: "nat \<Rightarrow> bool" where
  "is_scalar c \<longleftrightarrow> c < 0xD800 \<or> 0xE000 \<le> c \<and> c < 0x110000"

definition valid_str :: "rstr \<Rightarrow> bool" where
  "valid_str s \<longleftrightarrow> list_all is_scalar s"

lemma length_str [simp]: "length (str s) = length s"
  by (simp add: str_def)

lemma unat_less: "unat (w :: 'a::len word) < 2 ^ LENGTH('a)"
  by (rule unsigned_less)

lemma unat_ucast_up:
  fixes w :: "'a::len word"
  assumes "unat w < 2 ^ LENGTH('b)"
  shows "unat (ucast w :: 'b::len word) = unat w"
proof -
  have "ucast w = (word_of_nat (unat w) :: 'b word)" by simp
  then show ?thesis using assms by (simp only: unat_of_nat mod_less)
qed

lemma ucast_ucast_small:
  fixes w :: "'a::len word"
  assumes "LENGTH('a) \<le> LENGTH('b)"
  shows "ucast (ucast w :: 'b::len word) = w"
proof -
  have "unat w < 2 ^ LENGTH('b)"
    by (rule less_le_trans [OF unat_less]) (simp add: assms)
  then have "unat (ucast w :: 'b word) = unat w" by (rule unat_ucast_up)
  then have "unat (ucast (ucast w :: 'b word) :: 'a word) = unat w"
    by (subst unat_ucast_up) (simp_all add: unsigned_less)
  then show ?thesis by (simp only: word_unat_eq_iff)
qed

section \<open>Outcomes of a call\<close>

text \<open>
  \<open>Ok\<close> and \<open>Err\<close> are the two constructors of Rust's \<open>Result\<close>. \<open>Panic\<close> is an index or slice out of
  range. \<open>Dropped\<close> is an asynchronous call whose future is dropped while it waits: its code never
  resumes, only destructors run.
\<close>

datatype ('a, 'e) outcome = Ok 'a | Err 'e | Panic | Dropped

fun bind_ok :: "('a, 'e) outcome \<Rightarrow> ('a \<Rightarrow> ('b, 'e) outcome) \<Rightarrow> ('b, 'e) outcome" where
  "bind_ok (Ok x) f = f x"
| "bind_ok (Err e) f = Err e"
| "bind_ok Panic f = Panic"
| "bind_ok Dropped f = Dropped"

fun map_ok :: "('a \<Rightarrow> 'b) \<Rightarrow> ('a, 'e) outcome \<Rightarrow> ('b, 'e) outcome" where
  "map_ok f (Ok x) = Ok (f x)"
| "map_ok f (Err e) = Err e"
| "map_ok f Panic = Panic"
| "map_ok f Dropped = Dropped"

fun is_Ok :: "('a, 'e) outcome \<Rightarrow> bool" where
  "is_Ok (Ok x) = True"
| "is_Ok r = False"

text \<open>The call returns, and a returned value satisfies \<open>Q\<close>.\<close>

fun returns :: "('a, 'e) outcome \<Rightarrow> ('a \<Rightarrow> bool) \<Rightarrow> bool" where
  "returns (Ok x) Q = Q x"
| "returns (Err e) Q = True"
| "returns Panic Q = False"
| "returns Dropped Q = False"

lemma returns_bind [simp]:
  "returns (bind_ok m f) Q = returns m (\<lambda>x. returns (f x) Q)"
  by (cases m) auto

lemma returns_map_ok [simp]: "returns (map_ok f m) Q = returns m (\<lambda>x. Q (f x))"
  by (cases m) auto

lemma returns_mono: "returns m P \<Longrightarrow> (\<And>x. m = Ok x \<Longrightarrow> P x \<Longrightarrow> Q x) \<Longrightarrow> returns m Q"
  by (cases m) auto

lemma returns_ifI: "(P \<Longrightarrow> returns a Q) \<Longrightarrow> (\<not> P \<Longrightarrow> returns b Q) \<Longrightarrow> returns (if P then a else b) Q"
  by simp

lemma returns_bindI: "returns m (\<lambda>x. True) \<Longrightarrow> (\<And>x. returns (f x) Q) \<Longrightarrow> returns (bind_ok m f) Q"
  by (cases m) auto

lemma returns_not_Panic: "returns m Q \<Longrightarrow> m \<noteq> Panic \<and> m \<noteq> Dropped"
  by (cases m) auto

lemma returns_iff:
  "returns m Q \<longleftrightarrow> (\<exists>e. m = Err e) \<or> (\<exists>x. m = Ok x \<and> Q x)"
  by (cases m) auto

lemma bind_ok_eq_Ok [simp]:
  "bind_ok m f = Ok y \<longleftrightarrow> (\<exists>x. m = Ok x \<and> f x = Ok y)"
  by (cases m) auto

lemma map_ok_eq_Ok [simp]: "map_ok f m = Ok y \<longleftrightarrow> (\<exists>x. m = Ok x \<and> y = f x)"
  by (cases m) auto

lemma bind_ok_assoc: "bind_ok (bind_ok m f) g = bind_ok m (\<lambda>x. bind_ok (f x) g)"
  by (cases m) auto

lemma is_Ok_iff: "is_Ok m \<longleftrightarrow> (\<exists>x. m = Ok x)"
  by (cases m) auto

text \<open>
  A stateful call returns its outcome with the state it left. \<open>seq_ok\<close> is the \<open>?\<close> operator between two
  calls, \<open>seq_opt\<close> the same where the second one may never return (\<open>None\<close>).
\<close>

fun seq_ok :: "('a, 'e) outcome \<times> 's \<Rightarrow> ('a \<Rightarrow> 's \<Rightarrow> ('b, 'e) outcome \<times> 's) \<Rightarrow> ('b, 'e) outcome \<times> 's" where
  "seq_ok (Ok x, s) k = k x s"
| "seq_ok (Err e, s) k = (Err e, s)"
| "seq_ok (Panic, s) k = (Panic, s)"
| "seq_ok (Dropped, s) k = (Dropped, s)"

fun seq_opt ::
  "('a, 'e) outcome \<times> 's \<Rightarrow> ('a \<Rightarrow> 's \<Rightarrow> (('b, 'e) outcome \<times> 's) option) \<Rightarrow> (('b, 'e) outcome \<times> 's) option" where
  "seq_opt (Ok x, s) k = k x s"
| "seq_opt (Err e, s) k = Some (Err e, s)"
| "seq_opt (Panic, s) k = Some (Panic, s)"
| "seq_opt (Dropped, s) k = Some (Dropped, s)"

text \<open>The same after a call that may itself not return.\<close>

definition then_opt ::
  "(('a, 'e) outcome \<times> 's) option \<Rightarrow> ('a \<Rightarrow> 's \<Rightarrow> (('b, 'e) outcome \<times> 's) option) \<Rightarrow> (('b, 'e) outcome \<times> 's) option" where
  "then_opt m k = Option.bind m (\<lambda>p. seq_opt p k)"

lemma seq_ok_cong [fundef_cong]:
  "m = m' \<Longrightarrow> (\<And>x s. m' = (Ok x, s) \<Longrightarrow> k x s = k' x s) \<Longrightarrow> seq_ok m k = seq_ok m' k'"
  by (cases "(m, k)" rule: seq_ok.cases) auto

lemma seq_opt_cong [fundef_cong]:
  "m = m' \<Longrightarrow> (\<And>x s. m' = (Ok x, s) \<Longrightarrow> k x s = k' x s) \<Longrightarrow> seq_opt m k = seq_opt m' k'"
  by (cases "(m, k)" rule: seq_opt.cases) auto

lemma seq_opt_mono [partial_function_mono]:
  assumes "\<And>x s. mono_option (\<lambda>f. k f x s)"
  shows "mono_option (\<lambda>f. seq_opt m (k f))"
proof (cases m)
  case (Pair r s)
  then show ?thesis using assms by (cases r) (simp_all add: option.const_mono)
qed

lemma then_opt_mono [partial_function_mono]:
  assumes "mono_option m" "\<And>x s. mono_option (\<lambda>f. k f x s)"
  shows "mono_option (\<lambda>f. then_opt (m f) (k f))"
  unfolding then_opt_def by (intro bind_mono seq_opt_mono assms)

lemma seq_ok_Ok: "seq_ok m k = (Ok y, s') \<longleftrightarrow> (\<exists>x s. m = (Ok x, s) \<and> k x s = (Ok y, s'))"
  by (cases "(m, k)" rule: seq_ok.cases) auto

lemma seq_opt_Ok: "seq_opt m k = Some (Ok y, s') \<longleftrightarrow> (\<exists>x s. m = (Ok x, s) \<and> k x s = Some (Ok y, s'))"
  by (cases "(m, k)" rule: seq_opt.cases) auto

lemma seq_ok_cases:
  assumes "seq_ok m k = (r, s')"
  obtains (ok) x s1 where "m = (Ok x, s1)" "k x s1 = (r, s')"
  | (fail) r0 where "m = (r0, s')" "\<not> is_Ok r0" "\<not> is_Ok r"
proof (cases m)
  case (Pair r0 s1)
  with assms show thesis by (cases r0) (auto intro: ok fail [of r0])
qed

lemma seq_opt_Some: "seq_opt m (\<lambda>x s. Some (k x s)) = Some (seq_ok m k)"
  by (cases "(m, k)" rule: seq_ok.cases) auto

section \<open>Slices\<close>

text \<open>\<open>&buf[off..]\<close> and \<open>&buf[a..b]\<close> panic when the range leaves the buffer.\<close>

definition slice_from :: "'a list \<Rightarrow> nat \<Rightarrow> ('a list, 'e) outcome" where
  "slice_from buf off = (if off \<le> length buf then Ok (drop off buf) else Panic)"

definition slice :: "'a list \<Rightarrow> nat \<Rightarrow> nat \<Rightarrow> ('a list, 'e) outcome" where
  "slice buf a b = (if a \<le> b \<and> b \<le> length buf then Ok (take (b - a) (drop a buf)) else Panic)"

definition index :: "'a list \<Rightarrow> nat \<Rightarrow> ('a, 'e) outcome" where
  "index buf i = (if i < length buf then Ok (buf ! i) else Panic)"

lemma slice_from_0 [simp]: "slice_from buf 0 = Ok buf"
  by (simp add: slice_from_def)

lemma slice_from_append [wire]:
  "length xs \<le> n \<Longrightarrow> slice_from (xs @ ys) n = slice_from ys (n - length xs)"
  by (auto simp: slice_from_def)

lemma slice_from_append_length [simp]: "slice_from (xs @ ys) (length xs) = Ok ys"
  by (simp add: slice_from_def)

lemma slice_from_in: "off \<le> length buf \<Longrightarrow> slice_from buf off = Ok (drop off buf)"
  by (simp add: slice_from_def)

lemma slice_in: "a \<le> b \<Longrightarrow> b \<le> length buf \<Longrightarrow> slice buf a b = Ok (take (b - a) (drop a buf))"
  by (simp add: slice_def)

lemma slice_append: "b \<le> length xs \<Longrightarrow> slice (xs @ ys) a b = slice xs a b"
  by (simp add: slice_def)

section \<open>Little-endian bytes\<close>

fun le_bytes :: "nat \<Rightarrow> nat \<Rightarrow> bytes" where
  "le_bytes 0 k = []"
| "le_bytes (Suc n) k = word_of_nat k # le_bytes n (k div 256)"

fun le_nat :: "bytes \<Rightarrow> nat" where
  "le_nat [] = 0"
| "le_nat (b # bs) = unat b + 256 * le_nat bs"

text \<open>\<open>to_le_bytes\<close> and \<open>from_le_bytes\<close> of an \<open>n\<close>-byte integer.\<close>

definition to_le_bytes :: "nat \<Rightarrow> 'a::len word \<Rightarrow> bytes" where
  "to_le_bytes n w = le_bytes n (unat w)"

definition from_le_bytes :: "bytes \<Rightarrow> 'a::len word" where
  "from_le_bytes bs = word_of_nat (le_nat bs)"

lemma length_le_bytes [simp]: "length (le_bytes n k) = n"
  by (induction n arbitrary: k) auto

lemma le_nat_le_bytes: "le_nat (le_bytes n k) = k mod 256 ^ n"
proof (induction n arbitrary: k)
  case 0
  then show ?case by simp
next
  case (Suc n)
  have "unat (word_of_nat k :: u8) = k mod 256"
    by (simp add: unat_of_nat)
  with Suc show ?case by (simp add: mod_mult2_eq)
qed

lemma le_nat_less: "le_nat bs < 256 ^ length bs"
proof (induction bs)
  case Nil
  then show ?case by simp
next
  case (Cons b bs)
  have "unat b < 256" using unsigned_less [of b] by simp
  with Cons show ?case by simp
qed

lemma le_bytes_le_nat: "le_bytes (length bs) (le_nat bs) = bs"
proof (induction bs)
  case Nil
  then show ?case by simp
next
  case (Cons b bs)
  have b: "unat b < 256" using unsigned_less [of b] by simp
  have "(unat b + 256 * le_nat bs) div 256 = le_nat bs" using b by simp
  moreover have "(word_of_nat (unat b + 256 * le_nat bs) :: u8) = b"
  proof -
    have "unat (word_of_nat (unat b + 256 * le_nat bs) :: u8) = (unat b + 256 * le_nat bs) mod 256"
      by (simp only: unat_of_nat) simp
    also have "\<dots> = unat b" using b by simp
    finally show ?thesis by (simp only: word_unat_eq_iff)
  qed
  ultimately show ?case using Cons by simp
qed

lemma length_to_le_bytes [simp]: "length (to_le_bytes n w) = n"
  by (simp add: to_le_bytes_def)

lemma from_to_le_bytes:
  fixes w :: "'a::len word"
  assumes "LENGTH('a) = 8 * n"
  shows "from_le_bytes (to_le_bytes n w) = w"
proof -
  have "(256 :: nat) ^ n = 2 ^ LENGTH('a)"
    by (simp add: assms power_mult)
  then have "unat w mod 256 ^ n = unat w"
    using unsigned_less [of w] by simp
  then show ?thesis
    by (simp add: from_le_bytes_def to_le_bytes_def le_nat_le_bytes)
qed

lemma to_from_le_bytes:
  assumes "LENGTH('a) = 8 * length bs"
  shows "to_le_bytes (length bs) (from_le_bytes bs :: 'a::len word) = bs"
proof -
  have "le_nat bs < 2 ^ LENGTH('a)"
    using le_nat_less [of bs] by (simp add: assms power_mult)
  then have "unat (from_le_bytes bs :: 'a word) = le_nat bs"
    by (simp add: from_le_bytes_def unat_of_nat)
  then show ?thesis by (simp add: to_le_bytes_def le_bytes_le_nat)
qed

end
