(* ===== verification/Codes.thy ===== *)
theory Codes
  imports Prelude
begin

text \<open>
  The protocol's code spaces: operations, responses, events, object formats, object properties,
  property data types and device properties of \<open>ptp/codes.rs\<close>, and the storage enumerations of
  \<open>ptp/types/storage.rs\<close>. Every Rust enum is a datatype with the source's variants and a catch-all
  \<open>Unknown\<close>. Its \<open>_codes\<close> table lists the discriminants, \<open>_from\<close> is the conversion from \<open>u16\<close> that
  \<open>num_enum\<close> derives from them (the variant with that discriminant, else the catch-all) and \<open>_into\<close>
  the conversion back. The locale \<open>num_enum\<close> states what such a derivation promises, and is
  interpreted for each of the twelve enums.
\<close>

section \<open>The contract of a derived code conversion\<close>

locale num_enum =
  fixes codes :: "(u16 \<times> 'c) list"
    and unknown :: "u16 \<Rightarrow> 'c"
    and dec :: "u16 \<Rightarrow> 'c"
    and enc :: "'c \<Rightarrow> u16"
  assumes dec_eq: "dec x = (case map_of codes x of Some c \<Rightarrow> c | None \<Rightarrow> unknown x)"
    and enc_code: "(x, c) \<in> set codes \<Longrightarrow> enc c = x"
    and distinct_codes: "distinct (map fst codes)"
    and enc_unknown: "enc (unknown x) = x"
    and variants: "c \<in> snd ` set codes \<or> (\<exists>x. c = unknown x)"
begin

text \<open>No code number is lost on its way through the enum.\<close>

lemma enc_dec [simp]: "enc (dec x) = x"
  by (auto simp: dec_eq enc_unknown split: option.split dest: map_of_SomeD enc_code)

text \<open>
  A value comes back from its number exactly when it is not the catch-all carrying the number of a
  named variant.
\<close>

lemma dec_enc: "dec (enc c) = c \<longleftrightarrow> c \<notin> unknown ` fst ` set codes \<or> c \<in> snd ` set codes"
proof (cases "c \<in> snd ` set codes")
  case True
  then obtain x where x: "(x, c) \<in> set codes" by auto
  then have "map_of codes x = Some c" using distinct_codes by simp
  with x True show ?thesis by (simp add: dec_eq enc_code)
next
  case False
  then obtain x where c: "c = unknown x" using variants by blast
  then have inj: "unknown y = c \<Longrightarrow> y = x" for y using enc_unknown by metis
  show ?thesis
  proof (cases "map_of codes x")
    case None
    then have "x \<notin> fst ` set codes" by (simp add: map_of_eq_None_iff)
    with c inj None show ?thesis by (force simp: dec_eq enc_unknown)
  next
    case (Some c')
    then have "(x, c') \<in> set codes" by (rule map_of_SomeD)
    with False c Some show ?thesis by (force simp: dec_eq enc_unknown)
  qed
qed

lemma dec_inject: "dec x = dec y \<longleftrightarrow> x = y"
  by (metis enc_dec)

lemma dec_code: "(x, c) \<in> set codes \<Longrightarrow> dec x = c"
  using distinct_codes by (simp add: dec_eq)

end

lemma num_enumI:
  assumes "\<And>x. dec x = (case map_of codes x of Some c \<Rightarrow> c | None \<Rightarrow> unknown x)"
    and "list_all (\<lambda>(x, c). enc c = x) codes"
    and "distinct (map fst codes)"
    and "\<And>x. enc (unknown x) = x"
    and "\<And>c. c \<in> snd ` set codes \<or> (\<exists>x. c = unknown x)"
  shows "num_enum codes unknown dec enc"
  using assms by unfold_locales (auto simp: list_all_iff)

section \<open>Operation codes\<close>

datatype OperationCode =
    GetDeviceInfo
  | OpenSession
  | CloseSession
  | GetStorageIds
  | GetStorageInfo
  | GetNumObjects
  | GetObjectHandles
  | GetObjectInfo
  | GetObject
  | GetThumb
  | DeleteObject
  | SendObjectInfo
  | SendObject
  | InitiateCapture
  | FormatStore
  | ResetDevice
  | SelfTest
  | SetObjectProtection
  | PowerDown
  | GetDevicePropDesc
  | GetDevicePropValue
  | SetDevicePropValue
  | ResetDevicePropValue
  | TerminateOpenCapture
  | MoveObject
  | CopyObject
  | GetPartialObject
  | InitiateOpenCapture
  | GetObjectPropsSupported
  | GetObjectPropDesc
  | GetObjectPropValue
  | SetObjectPropValue
  | GetObjectPropList
  | SetObjectPropList
  | GetObjectReferences
  | SetObjectReferences
  | GetPartialObject64
  | Unknown u16

definition OperationCode_codes :: "(u16 \<times> OperationCode) list" where
  "OperationCode_codes =
    [(0x1001, OperationCode.GetDeviceInfo),
     (0x1002, OperationCode.OpenSession),
     (0x1003, OperationCode.CloseSession),
     (0x1004, OperationCode.GetStorageIds),
     (0x1005, OperationCode.GetStorageInfo),
     (0x1006, OperationCode.GetNumObjects),
     (0x1007, OperationCode.GetObjectHandles),
     (0x1008, OperationCode.GetObjectInfo),
     (0x1009, OperationCode.GetObject),
     (0x100A, OperationCode.GetThumb),
     (0x100B, OperationCode.DeleteObject),
     (0x100C, OperationCode.SendObjectInfo),
     (0x100D, OperationCode.SendObject),
     (0x100E, OperationCode.InitiateCapture),
     (0x100F, OperationCode.FormatStore),
     (0x1010, OperationCode.ResetDevice),
     (0x1011, OperationCode.SelfTest),
     (0x1012, OperationCode.SetObjectProtection),
     (0x1013, OperationCode.PowerDown),
     (0x1014, OperationCode.GetDevicePropDesc),
     (0x1015, OperationCode.GetDevicePropValue),
     (0x1016, OperationCode.SetDevicePropValue),
     (0x1017, OperationCode.ResetDevicePropValue),
     (0x1018, OperationCode.TerminateOpenCapture),
     (0x1019, OperationCode.MoveObject),
     (0x101A, OperationCode.CopyObject),
     (0x101B, OperationCode.GetPartialObject),
     (0x101C, OperationCode.InitiateOpenCapture),
     (0x9801, OperationCode.GetObjectPropsSupported),
     (0x9802, OperationCode.GetObjectPropDesc),
     (0x9803, OperationCode.GetObjectPropValue),
     (0x9804, OperationCode.SetObjectPropValue),
     (0x9805, OperationCode.GetObjectPropList),
     (0x9806, OperationCode.SetObjectPropList),
     (0x9810, OperationCode.GetObjectReferences),
     (0x9811, OperationCode.SetObjectReferences),
     (0x95C1, OperationCode.GetPartialObject64)]"

definition OperationCode_from :: "u16 \<Rightarrow> OperationCode" where
  "OperationCode_from x = (case map_of OperationCode_codes x of Some c \<Rightarrow> c | None \<Rightarrow> OperationCode.Unknown x)"

primrec OperationCode_into :: "OperationCode \<Rightarrow> u16" where
  "OperationCode_into OperationCode.GetDeviceInfo = 0x1001"
| "OperationCode_into OperationCode.OpenSession = 0x1002"
| "OperationCode_into OperationCode.CloseSession = 0x1003"
| "OperationCode_into OperationCode.GetStorageIds = 0x1004"
| "OperationCode_into OperationCode.GetStorageInfo = 0x1005"
| "OperationCode_into OperationCode.GetNumObjects = 0x1006"
| "OperationCode_into OperationCode.GetObjectHandles = 0x1007"
| "OperationCode_into OperationCode.GetObjectInfo = 0x1008"
| "OperationCode_into OperationCode.GetObject = 0x1009"
| "OperationCode_into OperationCode.GetThumb = 0x100A"
| "OperationCode_into OperationCode.DeleteObject = 0x100B"
| "OperationCode_into OperationCode.SendObjectInfo = 0x100C"
| "OperationCode_into OperationCode.SendObject = 0x100D"
| "OperationCode_into OperationCode.InitiateCapture = 0x100E"
| "OperationCode_into OperationCode.FormatStore = 0x100F"
| "OperationCode_into OperationCode.ResetDevice = 0x1010"
| "OperationCode_into OperationCode.SelfTest = 0x1011"
| "OperationCode_into OperationCode.SetObjectProtection = 0x1012"
| "OperationCode_into OperationCode.PowerDown = 0x1013"
| "OperationCode_into OperationCode.GetDevicePropDesc = 0x1014"
| "OperationCode_into OperationCode.GetDevicePropValue = 0x1015"
| "OperationCode_into OperationCode.SetDevicePropValue = 0x1016"
| "OperationCode_into OperationCode.ResetDevicePropValue = 0x1017"
| "OperationCode_into OperationCode.TerminateOpenCapture = 0x1018"
| "OperationCode_into OperationCode.MoveObject = 0x1019"
| "OperationCode_into OperationCode.CopyObject = 0x101A"
| "OperationCode_into OperationCode.GetPartialObject = 0x101B"
| "OperationCode_into OperationCode.InitiateOpenCapture = 0x101C"
| "OperationCode_into OperationCode.GetObjectPropsSupported = 0x9801"
| "OperationCode_into OperationCode.GetObjectPropDesc = 0x9802"
| "OperationCode_into OperationCode.GetObjectPropValue = 0x9803"
| "OperationCode_into OperationCode.SetObjectPropValue = 0x9804"
| "OperationCode_into OperationCode.GetObjectPropList = 0x9805"
| "OperationCode_into OperationCode.SetObjectPropList = 0x9806"
| "OperationCode_into OperationCode.GetObjectReferences = 0x9810"
| "OperationCode_into OperationCode.SetObjectReferences = 0x9811"
| "OperationCode_into OperationCode.GetPartialObject64 = 0x95C1"
| "OperationCode_into (OperationCode.Unknown x) = x"

interpretation operationCode: num_enum OperationCode_codes OperationCode.Unknown OperationCode_from OperationCode_into
proof (rule num_enumI)
  show "OperationCode_from x = (case map_of OperationCode_codes x of Some c \<Rightarrow> c | None \<Rightarrow> OperationCode.Unknown x)" for x
    by (simp add: OperationCode_from_def)
  show "list_all (\<lambda>(x, c). OperationCode_into c = x) OperationCode_codes" and "distinct (map fst OperationCode_codes)"
    by (simp_all add: OperationCode_codes_def)
  show "OperationCode_into (OperationCode.Unknown x) = x" for x by simp
  show "c \<in> snd ` set OperationCode_codes \<or> (\<exists>x. c = OperationCode.Unknown x)" for c
    by (cases c) (simp_all add: OperationCode_codes_def)
qed

section \<open>Response codes\<close>

datatype ResponseCode =
    OK
  | GeneralError
  | SessionNotOpen
  | InvalidTransactionId
  | OperationNotSupported
  | ParameterNotSupported
  | IncompleteTransfer
  | InvalidStorageId
  | InvalidObjectHandle
  | DevicePropNotSupported
  | InvalidObjectFormatCode
  | StoreFull
  | ObjectWriteProtected
  | StoreReadOnly
  | AccessDenied
  | NoThumbnailPresent
  | DeviceBusy
  | InvalidParentObject
  | InvalidDevicePropFormat
  | InvalidDevicePropValue
  | InvalidParameter
  | SessionAlreadyOpen
  | TransactionCancelled
  | ObjectTooLarge
  | Unknown u16

definition ResponseCode_codes :: "(u16 \<times> ResponseCode) list" where
  "ResponseCode_codes =
    [(0x2001, ResponseCode.OK),
     (0x2002, ResponseCode.GeneralError),
     (0x2003, ResponseCode.SessionNotOpen),
     (0x2004, ResponseCode.InvalidTransactionId),
     (0x2005, ResponseCode.OperationNotSupported),
     (0x2006, ResponseCode.ParameterNotSupported),
     (0x2007, ResponseCode.IncompleteTransfer),
     (0x2008, ResponseCode.InvalidStorageId),
     (0x2009, ResponseCode.InvalidObjectHandle),
     (0x200A, ResponseCode.DevicePropNotSupported),
     (0x200B, ResponseCode.InvalidObjectFormatCode),
     (0x200C, ResponseCode.StoreFull),
     (0x200D, ResponseCode.ObjectWriteProtected),
     (0x200E, ResponseCode.StoreReadOnly),
     (0x200F, ResponseCode.AccessDenied),
     (0x2010, ResponseCode.NoThumbnailPresent),
     (0x2019, ResponseCode.DeviceBusy),
     (0x201A, ResponseCode.InvalidParentObject),
     (0x201B, ResponseCode.InvalidDevicePropFormat),
     (0x201C, ResponseCode.InvalidDevicePropValue),
     (0x201D, ResponseCode.InvalidParameter),
     (0x201E, ResponseCode.SessionAlreadyOpen),
     (0x201F, ResponseCode.TransactionCancelled),
     (0xA809, ResponseCode.ObjectTooLarge)]"

definition ResponseCode_from :: "u16 \<Rightarrow> ResponseCode" where
  "ResponseCode_from x = (case map_of ResponseCode_codes x of Some c \<Rightarrow> c | None \<Rightarrow> ResponseCode.Unknown x)"

primrec ResponseCode_into :: "ResponseCode \<Rightarrow> u16" where
  "ResponseCode_into ResponseCode.OK = 0x2001"
| "ResponseCode_into ResponseCode.GeneralError = 0x2002"
| "ResponseCode_into ResponseCode.SessionNotOpen = 0x2003"
| "ResponseCode_into ResponseCode.InvalidTransactionId = 0x2004"
| "ResponseCode_into ResponseCode.OperationNotSupported = 0x2005"
| "ResponseCode_into ResponseCode.ParameterNotSupported = 0x2006"
| "ResponseCode_into ResponseCode.IncompleteTransfer = 0x2007"
| "ResponseCode_into ResponseCode.InvalidStorageId = 0x2008"
| "ResponseCode_into ResponseCode.InvalidObjectHandle = 0x2009"
| "ResponseCode_into ResponseCode.DevicePropNotSupported = 0x200A"
| "ResponseCode_into ResponseCode.InvalidObjectFormatCode = 0x200B"
| "ResponseCode_into ResponseCode.StoreFull = 0x200C"
| "ResponseCode_into ResponseCode.ObjectWriteProtected = 0x200D"
| "ResponseCode_into ResponseCode.StoreReadOnly = 0x200E"
| "ResponseCode_into ResponseCode.AccessDenied = 0x200F"
| "ResponseCode_into ResponseCode.NoThumbnailPresent = 0x2010"
| "ResponseCode_into ResponseCode.DeviceBusy = 0x2019"
| "ResponseCode_into ResponseCode.InvalidParentObject = 0x201A"
| "ResponseCode_into ResponseCode.InvalidDevicePropFormat = 0x201B"
| "ResponseCode_into ResponseCode.InvalidDevicePropValue = 0x201C"
| "ResponseCode_into ResponseCode.InvalidParameter = 0x201D"
| "ResponseCode_into ResponseCode.SessionAlreadyOpen = 0x201E"
| "ResponseCode_into ResponseCode.TransactionCancelled = 0x201F"
| "ResponseCode_into ResponseCode.ObjectTooLarge = 0xA809"
| "ResponseCode_into (ResponseCode.Unknown x) = x"

interpretation responseCode: num_enum ResponseCode_codes ResponseCode.Unknown ResponseCode_from ResponseCode_into
proof (rule num_enumI)
  show "ResponseCode_from x = (case map_of ResponseCode_codes x of Some c \<Rightarrow> c | None \<Rightarrow> ResponseCode.Unknown x)" for x
    by (simp add: ResponseCode_from_def)
  show "list_all (\<lambda>(x, c). ResponseCode_into c = x) ResponseCode_codes" and "distinct (map fst ResponseCode_codes)"
    by (simp_all add: ResponseCode_codes_def)
  show "ResponseCode_into (ResponseCode.Unknown x) = x" for x by simp
  show "c \<in> snd ` set ResponseCode_codes \<or> (\<exists>x. c = ResponseCode.Unknown x)" for c
    by (cases c) (simp_all add: ResponseCode_codes_def)
qed

section \<open>Event codes\<close>

datatype EventCode =
    CancelTransaction
  | ObjectAdded
  | ObjectRemoved
  | StoreAdded
  | StoreRemoved
  | DevicePropChanged
  | ObjectInfoChanged
  | DeviceInfoChanged
  | StorageInfoChanged
  | CaptureComplete
  | Unknown u16

definition EventCode_codes :: "(u16 \<times> EventCode) list" where
  "EventCode_codes =
    [(0x4001, EventCode.CancelTransaction),
     (0x4002, EventCode.ObjectAdded),
     (0x4003, EventCode.ObjectRemoved),
     (0x4004, EventCode.StoreAdded),
     (0x4005, EventCode.StoreRemoved),
     (0x4006, EventCode.DevicePropChanged),
     (0x4007, EventCode.ObjectInfoChanged),
     (0x4008, EventCode.DeviceInfoChanged),
     (0x400C, EventCode.StorageInfoChanged),
     (0x400D, EventCode.CaptureComplete)]"

definition EventCode_from :: "u16 \<Rightarrow> EventCode" where
  "EventCode_from x = (case map_of EventCode_codes x of Some c \<Rightarrow> c | None \<Rightarrow> EventCode.Unknown x)"

primrec EventCode_into :: "EventCode \<Rightarrow> u16" where
  "EventCode_into EventCode.CancelTransaction = 0x4001"
| "EventCode_into EventCode.ObjectAdded = 0x4002"
| "EventCode_into EventCode.ObjectRemoved = 0x4003"
| "EventCode_into EventCode.StoreAdded = 0x4004"
| "EventCode_into EventCode.StoreRemoved = 0x4005"
| "EventCode_into EventCode.DevicePropChanged = 0x4006"
| "EventCode_into EventCode.ObjectInfoChanged = 0x4007"
| "EventCode_into EventCode.DeviceInfoChanged = 0x4008"
| "EventCode_into EventCode.StorageInfoChanged = 0x400C"
| "EventCode_into EventCode.CaptureComplete = 0x400D"
| "EventCode_into (EventCode.Unknown x) = x"

interpretation eventCode: num_enum EventCode_codes EventCode.Unknown EventCode_from EventCode_into
proof (rule num_enumI)
  show "EventCode_from x = (case map_of EventCode_codes x of Some c \<Rightarrow> c | None \<Rightarrow> EventCode.Unknown x)" for x
    by (simp add: EventCode_from_def)
  show "list_all (\<lambda>(x, c). EventCode_into c = x) EventCode_codes" and "distinct (map fst EventCode_codes)"
    by (simp_all add: EventCode_codes_def)
  show "EventCode_into (EventCode.Unknown x) = x" for x by simp
  show "c \<in> snd ` set EventCode_codes \<or> (\<exists>x. c = EventCode.Unknown x)" for c
    by (cases c) (simp_all add: EventCode_codes_def)
qed

section \<open>Object formats\<close>

datatype ObjectFormatCode =
    Undefined
  | Association
  | Script
  | Executable
  | Text
  | Html
  | Dpof
  | Aiff
  | Wav
  | Mp3
  | Avi
  | Mpeg
  | Asf
  | Jpeg
  | Tiff
  | Gif
  | Bmp
  | Pict
  | Png
  | WmaAudio
  | OggAudio
  | AacAudio
  | FlacAudio
  | WmvVideo
  | Mp4Container
  | M4aAudio
  | Unknown u16

definition ObjectFormatCode_codes :: "(u16 \<times> ObjectFormatCode) list" where
  "ObjectFormatCode_codes =
    [(0x3000, ObjectFormatCode.Undefined),
     (0x3001, ObjectFormatCode.Association),
     (0x3002, ObjectFormatCode.Script),
     (0x3003, ObjectFormatCode.Executable),
     (0x3004, ObjectFormatCode.Text),
     (0x3005, ObjectFormatCode.Html),
     (0x3006, ObjectFormatCode.Dpof),
     (0x3007, ObjectFormatCode.Aiff),
     (0x3008, ObjectFormatCode.Wav),
     (0x3009, ObjectFormatCode.Mp3),
     (0x300A, ObjectFormatCode.Avi),
     (0x300B, ObjectFormatCode.Mpeg),
     (0x300C, ObjectFormatCode.Asf),
     (0x3801, ObjectFormatCode.Jpeg),
     (0x3804, ObjectFormatCode.Tiff),
     (0x3807, ObjectFormatCode.Gif),
     (0x3808, ObjectFormatCode.Bmp),
     (0x380A, ObjectFormatCode.Pict),
     (0x380B, ObjectFormatCode.Png),
     (0xB901, ObjectFormatCode.WmaAudio),
     (0xB902, ObjectFormatCode.OggAudio),
     (0xB903, ObjectFormatCode.AacAudio),
     (0xB906, ObjectFormatCode.FlacAudio),
     (0xB981, ObjectFormatCode.WmvVideo),
     (0xB982, ObjectFormatCode.Mp4Container),
     (0xB984, ObjectFormatCode.M4aAudio)]"

definition ObjectFormatCode_from :: "u16 \<Rightarrow> ObjectFormatCode" where
  "ObjectFormatCode_from x = (case map_of ObjectFormatCode_codes x of Some c \<Rightarrow> c | None \<Rightarrow> ObjectFormatCode.Unknown x)"

primrec ObjectFormatCode_into :: "ObjectFormatCode \<Rightarrow> u16" where
  "ObjectFormatCode_into ObjectFormatCode.Undefined = 0x3000"
| "ObjectFormatCode_into ObjectFormatCode.Association = 0x3001"
| "ObjectFormatCode_into ObjectFormatCode.Script = 0x3002"
| "ObjectFormatCode_into ObjectFormatCode.Executable = 0x3003"
| "ObjectFormatCode_into ObjectFormatCode.Text = 0x3004"
| "ObjectFormatCode_into ObjectFormatCode.Html = 0x3005"
| "ObjectFormatCode_into ObjectFormatCode.Dpof = 0x3006"
| "ObjectFormatCode_into ObjectFormatCode.Aiff = 0x3007"
| "ObjectFormatCode_into ObjectFormatCode.Wav = 0x3008"
| "ObjectFormatCode_into ObjectFormatCode.Mp3 = 0x3009"
| "ObjectFormatCode_into ObjectFormatCode.Avi = 0x300A"
| "ObjectFormatCode_into ObjectFormatCode.Mpeg = 0x300B"
| "ObjectFormatCode_into ObjectFormatCode.Asf = 0x300C"
| "ObjectFormatCode_into ObjectFormatCode.Jpeg = 0x3801"
| "ObjectFormatCode_into ObjectFormatCode.Tiff = 0x3804"
| "ObjectFormatCode_into ObjectFormatCode.Gif = 0x3807"
| "ObjectFormatCode_into ObjectFormatCode.Bmp = 0x3808"
| "ObjectFormatCode_into ObjectFormatCode.Pict = 0x380A"
| "ObjectFormatCode_into ObjectFormatCode.Png = 0x380B"
| "ObjectFormatCode_into ObjectFormatCode.WmaAudio = 0xB901"
| "ObjectFormatCode_into ObjectFormatCode.OggAudio = 0xB902"
| "ObjectFormatCode_into ObjectFormatCode.AacAudio = 0xB903"
| "ObjectFormatCode_into ObjectFormatCode.FlacAudio = 0xB906"
| "ObjectFormatCode_into ObjectFormatCode.WmvVideo = 0xB981"
| "ObjectFormatCode_into ObjectFormatCode.Mp4Container = 0xB982"
| "ObjectFormatCode_into ObjectFormatCode.M4aAudio = 0xB984"
| "ObjectFormatCode_into (ObjectFormatCode.Unknown x) = x"

interpretation objectFormatCode: num_enum ObjectFormatCode_codes ObjectFormatCode.Unknown ObjectFormatCode_from ObjectFormatCode_into
proof (rule num_enumI)
  show "ObjectFormatCode_from x = (case map_of ObjectFormatCode_codes x of Some c \<Rightarrow> c | None \<Rightarrow> ObjectFormatCode.Unknown x)" for x
    by (simp add: ObjectFormatCode_from_def)
  show "list_all (\<lambda>(x, c). ObjectFormatCode_into c = x) ObjectFormatCode_codes" and "distinct (map fst ObjectFormatCode_codes)"
    by (simp_all add: ObjectFormatCode_codes_def)
  show "ObjectFormatCode_into (ObjectFormatCode.Unknown x) = x" for x by simp
  show "c \<in> snd ` set ObjectFormatCode_codes \<or> (\<exists>x. c = ObjectFormatCode.Unknown x)" for c
    by (cases c) (simp_all add: ObjectFormatCode_codes_def)
qed

text \<open>
  \<open>to_lowercase\<close> is Unicode lowercasing. A character outside ASCII lowercases to a string with a
  character outside ASCII, the Kelvin sign (to \<open>k\<close>) apart, so the strings equal to an extension of
  the table after lowercasing are those the ASCII letters and the Kelvin sign decide.
\<close>

definition lower_char :: "nat \<Rightarrow> nat" where
  "lower_char c = (if 65 \<le> c \<and> c \<le> 90 then c + 32 else if c = 0x212A then 107 else c)"

definition to_lowercase :: "rstr \<Rightarrow> rstr" where
  "to_lowercase s = map lower_char s"

definition extensions :: "(string \<times> ObjectFormatCode) list" where
  "extensions =
    [(''txt'', ObjectFormatCode.Text),
     (''html'', ObjectFormatCode.Html),
     (''htm'', ObjectFormatCode.Html),
     (''dpof'', ObjectFormatCode.Dpof),
     (''aiff'', ObjectFormatCode.Aiff),
     (''aif'', ObjectFormatCode.Aiff),
     (''wav'', ObjectFormatCode.Wav),
     (''mp3'', ObjectFormatCode.Mp3),
     (''wma'', ObjectFormatCode.WmaAudio),
     (''ogg'', ObjectFormatCode.OggAudio),
     (''oga'', ObjectFormatCode.OggAudio),
     (''aac'', ObjectFormatCode.AacAudio),
     (''flac'', ObjectFormatCode.FlacAudio),
     (''m4a'', ObjectFormatCode.M4aAudio),
     (''avi'', ObjectFormatCode.Avi),
     (''mpg'', ObjectFormatCode.Mpeg),
     (''mpeg'', ObjectFormatCode.Mpeg),
     (''asf'', ObjectFormatCode.Asf),
     (''wmv'', ObjectFormatCode.WmvVideo),
     (''mp4'', ObjectFormatCode.Mp4Container),
     (''m4v'', ObjectFormatCode.Mp4Container),
     (''jpg'', ObjectFormatCode.Jpeg),
     (''jpeg'', ObjectFormatCode.Jpeg),
     (''tif'', ObjectFormatCode.Tiff),
     (''tiff'', ObjectFormatCode.Tiff),
     (''gif'', ObjectFormatCode.Gif),
     (''bmp'', ObjectFormatCode.Bmp),
     (''pict'', ObjectFormatCode.Pict),
     (''pct'', ObjectFormatCode.Pict),
     (''png'', ObjectFormatCode.Png),
     (''exe'', ObjectFormatCode.Executable),
     (''dll'', ObjectFormatCode.Executable),
     (''bin'', ObjectFormatCode.Executable),
     (''sh'', ObjectFormatCode.Script),
     (''bat'', ObjectFormatCode.Script),
     (''cmd'', ObjectFormatCode.Script),
     (''ps1'', ObjectFormatCode.Script)]"

definition from_extension :: "rstr \<Rightarrow> ObjectFormatCode" where
  "from_extension ext =
     (case map_of (map (\<lambda>(e, f). (str e, f)) extensions) (to_lowercase ext) of
        Some f \<Rightarrow> f | None \<Rightarrow> ObjectFormatCode.Undefined)"

definition is_audio :: "ObjectFormatCode \<Rightarrow> bool" where
  "is_audio f \<longleftrightarrow> f \<in>
     {ObjectFormatCode.Aiff,
      ObjectFormatCode.Wav,
      ObjectFormatCode.Mp3,
      ObjectFormatCode.WmaAudio,
      ObjectFormatCode.OggAudio,
      ObjectFormatCode.AacAudio,
      ObjectFormatCode.FlacAudio,
      ObjectFormatCode.M4aAudio}"

definition is_video :: "ObjectFormatCode \<Rightarrow> bool" where
  "is_video f \<longleftrightarrow> f \<in>
     {ObjectFormatCode.Avi,
      ObjectFormatCode.Mpeg,
      ObjectFormatCode.Asf,
      ObjectFormatCode.WmvVideo,
      ObjectFormatCode.Mp4Container}"

definition is_image :: "ObjectFormatCode \<Rightarrow> bool" where
  "is_image f \<longleftrightarrow> f \<in>
     {ObjectFormatCode.Jpeg,
      ObjectFormatCode.Tiff,
      ObjectFormatCode.Gif,
      ObjectFormatCode.Bmp,
      ObjectFormatCode.Pict,
      ObjectFormatCode.Png}"

section \<open>Object properties\<close>

datatype ObjectPropertyCode =
    StorageId
  | ObjectFormat
  | ProtectionStatus
  | ObjectSize
  | ObjectFileName
  | DateCreated
  | DateModified
  | ParentObject
  | Name
  | Unknown u16

definition ObjectPropertyCode_codes :: "(u16 \<times> ObjectPropertyCode) list" where
  "ObjectPropertyCode_codes =
    [(0xDC01, ObjectPropertyCode.StorageId),
     (0xDC02, ObjectPropertyCode.ObjectFormat),
     (0xDC03, ObjectPropertyCode.ProtectionStatus),
     (0xDC04, ObjectPropertyCode.ObjectSize),
     (0xDC07, ObjectPropertyCode.ObjectFileName),
     (0xDC08, ObjectPropertyCode.DateCreated),
     (0xDC09, ObjectPropertyCode.DateModified),
     (0xDC0B, ObjectPropertyCode.ParentObject),
     (0xDC44, ObjectPropertyCode.Name)]"

definition ObjectPropertyCode_from :: "u16 \<Rightarrow> ObjectPropertyCode" where
  "ObjectPropertyCode_from x = (case map_of ObjectPropertyCode_codes x of Some c \<Rightarrow> c | None \<Rightarrow> ObjectPropertyCode.Unknown x)"

primrec ObjectPropertyCode_into :: "ObjectPropertyCode \<Rightarrow> u16" where
  "ObjectPropertyCode_into ObjectPropertyCode.StorageId = 0xDC01"
| "ObjectPropertyCode_into ObjectPropertyCode.ObjectFormat = 0xDC02"
| "ObjectPropertyCode_into ObjectPropertyCode.ProtectionStatus = 0xDC03"
| "ObjectPropertyCode_into ObjectPropertyCode.ObjectSize = 0xDC04"
| "ObjectPropertyCode_into ObjectPropertyCode.ObjectFileName = 0xDC07"
| "ObjectPropertyCode_into ObjectPropertyCode.DateCreated = 0xDC08"
| "ObjectPropertyCode_into ObjectPropertyCode.DateModified = 0xDC09"
| "ObjectPropertyCode_into ObjectPropertyCode.ParentObject = 0xDC0B"
| "ObjectPropertyCode_into ObjectPropertyCode.Name = 0xDC44"
| "ObjectPropertyCode_into (ObjectPropertyCode.Unknown x) = x"

interpretation objectPropertyCode: num_enum ObjectPropertyCode_codes ObjectPropertyCode.Unknown ObjectPropertyCode_from ObjectPropertyCode_into
proof (rule num_enumI)
  show "ObjectPropertyCode_from x = (case map_of ObjectPropertyCode_codes x of Some c \<Rightarrow> c | None \<Rightarrow> ObjectPropertyCode.Unknown x)" for x
    by (simp add: ObjectPropertyCode_from_def)
  show "list_all (\<lambda>(x, c). ObjectPropertyCode_into c = x) ObjectPropertyCode_codes" and "distinct (map fst ObjectPropertyCode_codes)"
    by (simp_all add: ObjectPropertyCode_codes_def)
  show "ObjectPropertyCode_into (ObjectPropertyCode.Unknown x) = x" for x by simp
  show "c \<in> snd ` set ObjectPropertyCode_codes \<or> (\<exists>x. c = ObjectPropertyCode.Unknown x)" for c
    by (cases c) (simp_all add: ObjectPropertyCode_codes_def)
qed

section \<open>Property data types\<close>

datatype PropertyDataType =
    Undefined
  | Int8
  | Uint8
  | Int16
  | Uint16
  | Int32
  | Uint32
  | Int64
  | Uint64
  | Int128
  | Uint128
  | String
  | Unknown u16

definition PropertyDataType_codes :: "(u16 \<times> PropertyDataType) list" where
  "PropertyDataType_codes =
    [(0x0000, PropertyDataType.Undefined),
     (0x0001, PropertyDataType.Int8),
     (0x0002, PropertyDataType.Uint8),
     (0x0003, PropertyDataType.Int16),
     (0x0004, PropertyDataType.Uint16),
     (0x0005, PropertyDataType.Int32),
     (0x0006, PropertyDataType.Uint32),
     (0x0007, PropertyDataType.Int64),
     (0x0008, PropertyDataType.Uint64),
     (0x0009, PropertyDataType.Int128),
     (0x000A, PropertyDataType.Uint128),
     (0xFFFF, PropertyDataType.String)]"

definition PropertyDataType_from :: "u16 \<Rightarrow> PropertyDataType" where
  "PropertyDataType_from x = (case map_of PropertyDataType_codes x of Some c \<Rightarrow> c | None \<Rightarrow> PropertyDataType.Unknown x)"

primrec PropertyDataType_into :: "PropertyDataType \<Rightarrow> u16" where
  "PropertyDataType_into PropertyDataType.Undefined = 0x0000"
| "PropertyDataType_into PropertyDataType.Int8 = 0x0001"
| "PropertyDataType_into PropertyDataType.Uint8 = 0x0002"
| "PropertyDataType_into PropertyDataType.Int16 = 0x0003"
| "PropertyDataType_into PropertyDataType.Uint16 = 0x0004"
| "PropertyDataType_into PropertyDataType.Int32 = 0x0005"
| "PropertyDataType_into PropertyDataType.Uint32 = 0x0006"
| "PropertyDataType_into PropertyDataType.Int64 = 0x0007"
| "PropertyDataType_into PropertyDataType.Uint64 = 0x0008"
| "PropertyDataType_into PropertyDataType.Int128 = 0x0009"
| "PropertyDataType_into PropertyDataType.Uint128 = 0x000A"
| "PropertyDataType_into PropertyDataType.String = 0xFFFF"
| "PropertyDataType_into (PropertyDataType.Unknown x) = x"

interpretation propertyDataType: num_enum PropertyDataType_codes PropertyDataType.Unknown PropertyDataType_from PropertyDataType_into
proof (rule num_enumI)
  show "PropertyDataType_from x = (case map_of PropertyDataType_codes x of Some c \<Rightarrow> c | None \<Rightarrow> PropertyDataType.Unknown x)" for x
    by (simp add: PropertyDataType_from_def)
  show "list_all (\<lambda>(x, c). PropertyDataType_into c = x) PropertyDataType_codes" and "distinct (map fst PropertyDataType_codes)"
    by (simp_all add: PropertyDataType_codes_def)
  show "PropertyDataType_into (PropertyDataType.Unknown x) = x" for x by simp
  show "c \<in> snd ` set PropertyDataType_codes \<or> (\<exists>x. c = PropertyDataType.Unknown x)" for c
    by (cases c) (simp_all add: PropertyDataType_codes_def)
qed

fun byte_size :: "PropertyDataType \<Rightarrow> usize option" where
  "byte_size PropertyDataType.Int8 = Some 1"
| "byte_size PropertyDataType.Uint8 = Some 1"
| "byte_size PropertyDataType.Int16 = Some 2"
| "byte_size PropertyDataType.Uint16 = Some 2"
| "byte_size PropertyDataType.Int32 = Some 4"
| "byte_size PropertyDataType.Uint32 = Some 4"
| "byte_size PropertyDataType.Int64 = Some 8"
| "byte_size PropertyDataType.Uint64 = Some 8"
| "byte_size PropertyDataType.Int128 = Some 16"
| "byte_size PropertyDataType.Uint128 = Some 16"
| "byte_size PropertyDataType.String = None"
| "byte_size PropertyDataType.Undefined = None"
| "byte_size (PropertyDataType.Unknown x) = None"

section \<open>Device properties\<close>

datatype DevicePropertyCode =
    Undefined
  | BatteryLevel
  | FunctionalMode
  | ImageSize
  | CompressionSetting
  | WhiteBalance
  | RgbGain
  | FNumber
  | FocalLength
  | FocusDistance
  | FocusMode
  | ExposureMeteringMode
  | FlashMode
  | ExposureTime
  | ExposureProgramMode
  | ExposureIndex
  | ExposureBiasCompensation
  | DateTime
  | CaptureDelay
  | StillCaptureMode
  | Contrast
  | Sharpness
  | DigitalZoom
  | EffectMode
  | BurstNumber
  | BurstInterval
  | TimelapseNumber
  | TimelapseInterval
  | FocusMeteringMode
  | UploadUrl
  | Artist
  | CopyrightInfo
  | Unknown u16

definition DevicePropertyCode_codes :: "(u16 \<times> DevicePropertyCode) list" where
  "DevicePropertyCode_codes =
    [(0x5000, DevicePropertyCode.Undefined),
     (0x5001, DevicePropertyCode.BatteryLevel),
     (0x5002, DevicePropertyCode.FunctionalMode),
     (0x5003, DevicePropertyCode.ImageSize),
     (0x5004, DevicePropertyCode.CompressionSetting),
     (0x5005, DevicePropertyCode.WhiteBalance),
     (0x5006, DevicePropertyCode.RgbGain),
     (0x5007, DevicePropertyCode.FNumber),
     (0x5008, DevicePropertyCode.FocalLength),
     (0x5009, DevicePropertyCode.FocusDistance),
     (0x500A, DevicePropertyCode.FocusMode),
     (0x500B, DevicePropertyCode.ExposureMeteringMode),
     (0x500C, DevicePropertyCode.FlashMode),
     (0x500D, DevicePropertyCode.ExposureTime),
     (0x500E, DevicePropertyCode.ExposureProgramMode),
     (0x500F, DevicePropertyCode.ExposureIndex),
     (0x5010, DevicePropertyCode.ExposureBiasCompensation),
     (0x5011, DevicePropertyCode.DateTime),
     (0x5012, DevicePropertyCode.CaptureDelay),
     (0x5013, DevicePropertyCode.StillCaptureMode),
     (0x5014, DevicePropertyCode.Contrast),
     (0x5015, DevicePropertyCode.Sharpness),
     (0x5016, DevicePropertyCode.DigitalZoom),
     (0x5017, DevicePropertyCode.EffectMode),
     (0x5018, DevicePropertyCode.BurstNumber),
     (0x5019, DevicePropertyCode.BurstInterval),
     (0x501A, DevicePropertyCode.TimelapseNumber),
     (0x501B, DevicePropertyCode.TimelapseInterval),
     (0x501C, DevicePropertyCode.FocusMeteringMode),
     (0x501D, DevicePropertyCode.UploadUrl),
     (0x501E, DevicePropertyCode.Artist),
     (0x501F, DevicePropertyCode.CopyrightInfo)]"

definition DevicePropertyCode_from :: "u16 \<Rightarrow> DevicePropertyCode" where
  "DevicePropertyCode_from x = (case map_of DevicePropertyCode_codes x of Some c \<Rightarrow> c | None \<Rightarrow> DevicePropertyCode.Unknown x)"

primrec DevicePropertyCode_into :: "DevicePropertyCode \<Rightarrow> u16" where
  "DevicePropertyCode_into DevicePropertyCode.Undefined = 0x5000"
| "DevicePropertyCode_into DevicePropertyCode.BatteryLevel = 0x5001"
| "DevicePropertyCode_into DevicePropertyCode.FunctionalMode = 0x5002"
| "DevicePropertyCode_into DevicePropertyCode.ImageSize = 0x5003"
| "DevicePropertyCode_into DevicePropertyCode.CompressionSetting = 0x5004"
| "DevicePropertyCode_into DevicePropertyCode.WhiteBalance = 0x5005"
| "DevicePropertyCode_into DevicePropertyCode.RgbGain = 0x5006"
| "DevicePropertyCode_into DevicePropertyCode.FNumber = 0x5007"
| "DevicePropertyCode_into DevicePropertyCode.FocalLength = 0x5008"
| "DevicePropertyCode_into DevicePropertyCode.FocusDistance = 0x5009"
| "DevicePropertyCode_into DevicePropertyCode.FocusMode = 0x500A"
| "DevicePropertyCode_into DevicePropertyCode.ExposureMeteringMode = 0x500B"
| "DevicePropertyCode_into DevicePropertyCode.FlashMode = 0x500C"
| "DevicePropertyCode_into DevicePropertyCode.ExposureTime = 0x500D"
| "DevicePropertyCode_into DevicePropertyCode.ExposureProgramMode = 0x500E"
| "DevicePropertyCode_into DevicePropertyCode.ExposureIndex = 0x500F"
| "DevicePropertyCode_into DevicePropertyCode.ExposureBiasCompensation = 0x5010"
| "DevicePropertyCode_into DevicePropertyCode.DateTime = 0x5011"
| "DevicePropertyCode_into DevicePropertyCode.CaptureDelay = 0x5012"
| "DevicePropertyCode_into DevicePropertyCode.StillCaptureMode = 0x5013"
| "DevicePropertyCode_into DevicePropertyCode.Contrast = 0x5014"
| "DevicePropertyCode_into DevicePropertyCode.Sharpness = 0x5015"
| "DevicePropertyCode_into DevicePropertyCode.DigitalZoom = 0x5016"
| "DevicePropertyCode_into DevicePropertyCode.EffectMode = 0x5017"
| "DevicePropertyCode_into DevicePropertyCode.BurstNumber = 0x5018"
| "DevicePropertyCode_into DevicePropertyCode.BurstInterval = 0x5019"
| "DevicePropertyCode_into DevicePropertyCode.TimelapseNumber = 0x501A"
| "DevicePropertyCode_into DevicePropertyCode.TimelapseInterval = 0x501B"
| "DevicePropertyCode_into DevicePropertyCode.FocusMeteringMode = 0x501C"
| "DevicePropertyCode_into DevicePropertyCode.UploadUrl = 0x501D"
| "DevicePropertyCode_into DevicePropertyCode.Artist = 0x501E"
| "DevicePropertyCode_into DevicePropertyCode.CopyrightInfo = 0x501F"
| "DevicePropertyCode_into (DevicePropertyCode.Unknown x) = x"

interpretation devicePropertyCode: num_enum DevicePropertyCode_codes DevicePropertyCode.Unknown DevicePropertyCode_from DevicePropertyCode_into
proof (rule num_enumI)
  show "DevicePropertyCode_from x = (case map_of DevicePropertyCode_codes x of Some c \<Rightarrow> c | None \<Rightarrow> DevicePropertyCode.Unknown x)" for x
    by (simp add: DevicePropertyCode_from_def)
  show "list_all (\<lambda>(x, c). DevicePropertyCode_into c = x) DevicePropertyCode_codes" and "distinct (map fst DevicePropertyCode_codes)"
    by (simp_all add: DevicePropertyCode_codes_def)
  show "DevicePropertyCode_into (DevicePropertyCode.Unknown x) = x" for x by simp
  show "c \<in> snd ` set DevicePropertyCode_codes \<or> (\<exists>x. c = DevicePropertyCode.Unknown x)" for c
    by (cases c) (simp_all add: DevicePropertyCode_codes_def)
qed

section \<open>Storage enumerations\<close>

datatype StorageType =
    Undefined
  | FixedRom
  | RemovableRom
  | FixedRam
  | RemovableRam
  | Unknown u16

definition StorageType_codes :: "(u16 \<times> StorageType) list" where
  "StorageType_codes =
    [(0x0000, StorageType.Undefined),
     (0x0001, StorageType.FixedRom),
     (0x0002, StorageType.RemovableRom),
     (0x0003, StorageType.FixedRam),
     (0x0004, StorageType.RemovableRam)]"

definition StorageType_from :: "u16 \<Rightarrow> StorageType" where
  "StorageType_from x = (case map_of StorageType_codes x of Some c \<Rightarrow> c | None \<Rightarrow> StorageType.Unknown x)"

primrec StorageType_into :: "StorageType \<Rightarrow> u16" where
  "StorageType_into StorageType.Undefined = 0x0000"
| "StorageType_into StorageType.FixedRom = 0x0001"
| "StorageType_into StorageType.RemovableRom = 0x0002"
| "StorageType_into StorageType.FixedRam = 0x0003"
| "StorageType_into StorageType.RemovableRam = 0x0004"
| "StorageType_into (StorageType.Unknown x) = x"

interpretation storageType: num_enum StorageType_codes StorageType.Unknown StorageType_from StorageType_into
proof (rule num_enumI)
  show "StorageType_from x = (case map_of StorageType_codes x of Some c \<Rightarrow> c | None \<Rightarrow> StorageType.Unknown x)" for x
    by (simp add: StorageType_from_def)
  show "list_all (\<lambda>(x, c). StorageType_into c = x) StorageType_codes" and "distinct (map fst StorageType_codes)"
    by (simp_all add: StorageType_codes_def)
  show "StorageType_into (StorageType.Unknown x) = x" for x by simp
  show "c \<in> snd ` set StorageType_codes \<or> (\<exists>x. c = StorageType.Unknown x)" for c
    by (cases c) (simp_all add: StorageType_codes_def)
qed

datatype FilesystemType =
    Undefined
  | GenericFlat
  | GenericHierarchical
  | Dcf
  | Unknown u16

definition FilesystemType_codes :: "(u16 \<times> FilesystemType) list" where
  "FilesystemType_codes =
    [(0x0000, FilesystemType.Undefined),
     (0x0001, FilesystemType.GenericFlat),
     (0x0002, FilesystemType.GenericHierarchical),
     (0x0003, FilesystemType.Dcf)]"

definition FilesystemType_from :: "u16 \<Rightarrow> FilesystemType" where
  "FilesystemType_from x = (case map_of FilesystemType_codes x of Some c \<Rightarrow> c | None \<Rightarrow> FilesystemType.Unknown x)"

primrec FilesystemType_into :: "FilesystemType \<Rightarrow> u16" where
  "FilesystemType_into FilesystemType.Undefined = 0x0000"
| "FilesystemType_into FilesystemType.GenericFlat = 0x0001"
| "FilesystemType_into FilesystemType.GenericHierarchical = 0x0002"
| "FilesystemType_into FilesystemType.Dcf = 0x0003"
| "FilesystemType_into (FilesystemType.Unknown x) = x"

interpretation filesystemType: num_enum FilesystemType_codes FilesystemType.Unknown FilesystemType_from FilesystemType_into
proof (rule num_enumI)
  show "FilesystemType_from x = (case map_of FilesystemType_codes x of Some c \<Rightarrow> c | None \<Rightarrow> FilesystemType.Unknown x)" for x
    by (simp add: FilesystemType_from_def)
  show "list_all (\<lambda>(x, c). FilesystemType_into c = x) FilesystemType_codes" and "distinct (map fst FilesystemType_codes)"
    by (simp_all add: FilesystemType_codes_def)
  show "FilesystemType_into (FilesystemType.Unknown x) = x" for x by simp
  show "c \<in> snd ` set FilesystemType_codes \<or> (\<exists>x. c = FilesystemType.Unknown x)" for c
    by (cases c) (simp_all add: FilesystemType_codes_def)
qed

datatype AccessCapability =
    ReadWrite
  | ReadOnlyWithoutDeletion
  | ReadOnlyWithDeletion
  | Unknown u16

definition AccessCapability_codes :: "(u16 \<times> AccessCapability) list" where
  "AccessCapability_codes =
    [(0x0000, AccessCapability.ReadWrite),
     (0x0001, AccessCapability.ReadOnlyWithoutDeletion),
     (0x0002, AccessCapability.ReadOnlyWithDeletion)]"

definition AccessCapability_from :: "u16 \<Rightarrow> AccessCapability" where
  "AccessCapability_from x = (case map_of AccessCapability_codes x of Some c \<Rightarrow> c | None \<Rightarrow> AccessCapability.Unknown x)"

primrec AccessCapability_into :: "AccessCapability \<Rightarrow> u16" where
  "AccessCapability_into AccessCapability.ReadWrite = 0x0000"
| "AccessCapability_into AccessCapability.ReadOnlyWithoutDeletion = 0x0001"
| "AccessCapability_into AccessCapability.ReadOnlyWithDeletion = 0x0002"
| "AccessCapability_into (AccessCapability.Unknown x) = x"

interpretation accessCapability: num_enum AccessCapability_codes AccessCapability.Unknown AccessCapability_from AccessCapability_into
proof (rule num_enumI)
  show "AccessCapability_from x = (case map_of AccessCapability_codes x of Some c \<Rightarrow> c | None \<Rightarrow> AccessCapability.Unknown x)" for x
    by (simp add: AccessCapability_from_def)
  show "list_all (\<lambda>(x, c). AccessCapability_into c = x) AccessCapability_codes" and "distinct (map fst AccessCapability_codes)"
    by (simp_all add: AccessCapability_codes_def)
  show "AccessCapability_into (AccessCapability.Unknown x) = x" for x by simp
  show "c \<in> snd ` set AccessCapability_codes \<or> (\<exists>x. c = AccessCapability.Unknown x)" for c
    by (cases c) (simp_all add: AccessCapability_codes_def)
qed

datatype ProtectionStatus =
    NoProtection
  | ReadOnly
  | Unknown u16

definition ProtectionStatus_codes :: "(u16 \<times> ProtectionStatus) list" where
  "ProtectionStatus_codes =
    [(0x0000, ProtectionStatus.NoProtection),
     (0x0001, ProtectionStatus.ReadOnly)]"

definition ProtectionStatus_from :: "u16 \<Rightarrow> ProtectionStatus" where
  "ProtectionStatus_from x = (case map_of ProtectionStatus_codes x of Some c \<Rightarrow> c | None \<Rightarrow> ProtectionStatus.Unknown x)"

primrec ProtectionStatus_into :: "ProtectionStatus \<Rightarrow> u16" where
  "ProtectionStatus_into ProtectionStatus.NoProtection = 0x0000"
| "ProtectionStatus_into ProtectionStatus.ReadOnly = 0x0001"
| "ProtectionStatus_into (ProtectionStatus.Unknown x) = x"

interpretation protectionStatus: num_enum ProtectionStatus_codes ProtectionStatus.Unknown ProtectionStatus_from ProtectionStatus_into
proof (rule num_enumI)
  show "ProtectionStatus_from x = (case map_of ProtectionStatus_codes x of Some c \<Rightarrow> c | None \<Rightarrow> ProtectionStatus.Unknown x)" for x
    by (simp add: ProtectionStatus_from_def)
  show "list_all (\<lambda>(x, c). ProtectionStatus_into c = x) ProtectionStatus_codes" and "distinct (map fst ProtectionStatus_codes)"
    by (simp_all add: ProtectionStatus_codes_def)
  show "ProtectionStatus_into (ProtectionStatus.Unknown x) = x" for x by simp
  show "c \<in> snd ` set ProtectionStatus_codes \<or> (\<exists>x. c = ProtectionStatus.Unknown x)" for c
    by (cases c) (simp_all add: ProtectionStatus_codes_def)
qed

datatype AssociationType =
    NoAssociation
  | GenericFolder
  | Unknown u16

definition AssociationType_codes :: "(u16 \<times> AssociationType) list" where
  "AssociationType_codes =
    [(0x0000, AssociationType.NoAssociation),
     (0x0001, AssociationType.GenericFolder)]"

definition AssociationType_from :: "u16 \<Rightarrow> AssociationType" where
  "AssociationType_from x = (case map_of AssociationType_codes x of Some c \<Rightarrow> c | None \<Rightarrow> AssociationType.Unknown x)"

primrec AssociationType_into :: "AssociationType \<Rightarrow> u16" where
  "AssociationType_into AssociationType.NoAssociation = 0x0000"
| "AssociationType_into AssociationType.GenericFolder = 0x0001"
| "AssociationType_into (AssociationType.Unknown x) = x"

interpretation associationType: num_enum AssociationType_codes AssociationType.Unknown AssociationType_from AssociationType_into
proof (rule num_enumI)
  show "AssociationType_from x = (case map_of AssociationType_codes x of Some c \<Rightarrow> c | None \<Rightarrow> AssociationType.Unknown x)" for x
    by (simp add: AssociationType_from_def)
  show "list_all (\<lambda>(x, c). AssociationType_into c = x) AssociationType_codes" and "distinct (map fst AssociationType_codes)"
    by (simp_all add: AssociationType_codes_def)
  show "AssociationType_into (AssociationType.Unknown x) = x" for x by simp
  show "c \<in> snd ` set AssociationType_codes \<or> (\<exists>x. c = AssociationType.Unknown x)" for c
    by (cases c) (simp_all add: AssociationType_codes_def)
qed

section \<open>Properties\<close>

text \<open>
  No protocol code is lost. For every enumeration of 16-bit codes, converting a number to the enumeration and back returns the
  number, assigned or not; and a value of the operation and response codes comes back from its number unless it is the catch-all variant carrying an assigned number.
\<close>

theorem code_conversions:
  "OperationCode_into (OperationCode_from x) = x \<and> ResponseCode_into (ResponseCode_from x) = x
   \<and> EventCode_into (EventCode_from x) = x \<and> ObjectFormatCode_into (ObjectFormatCode_from x) = x
   \<and> ObjectPropertyCode_into (ObjectPropertyCode_from x) = x \<and> DevicePropertyCode_into (DevicePropertyCode_from x) = x
   \<and> PropertyDataType_into (PropertyDataType_from x) = x \<and> StorageType_into (StorageType_from x) = x
   \<and> FilesystemType_into (FilesystemType_from x) = x \<and> AccessCapability_into (AccessCapability_from x) = x
   \<and> ProtectionStatus_into (ProtectionStatus_from x) = x \<and> AssociationType_into (AssociationType_from x) = x
   \<and> (OperationCode_from (OperationCode_into operation) \<noteq> operation \<longleftrightarrow>
        operation \<in> OperationCode.Unknown ` fst ` set OperationCode_codes - snd ` set OperationCode_codes)
   \<and> (ResponseCode_from (ResponseCode_into response) \<noteq> response \<longleftrightarrow>
        response \<in> ResponseCode.Unknown ` fst ` set ResponseCode_codes - snd ` set ResponseCode_codes)"
  by (simp add: operationCode.dec_enc responseCode.dec_enc)

end
