(* ===== verification/Errors.thy ===== *)
theory Errors
  imports Codes
begin

text \<open>
  The low-level error type \<open>PtpError\<close> of \<open>error.rs\<close> and its predicates. A USB failure keeps the kind the
  USB library reports and its text, an I/O failure its kind and text. The message of invalid data is
  its format string with the numbers formatted into it.
\<close>

datatype UsbKind = Busy | PermissionDenied | Disconnected | NotFound | Unsupported | Other

datatype IoKind = PermissionDenied | Interrupted | Other

type_synonym message = "string \<times> nat list"

datatype PtpError =
    Usb UsbKind string
  | Protocol ResponseCode OperationCode
  | InvalidData message
  | Io IoKind string
  | Timeout
  | Disconnected
  | SessionNotOpen
  | NoDevice
  | Cancelled
  | StringTooLong usize
  | DeviceReset

type_synonym 'a res = "('a, PtpError) outcome"

definition usb_kind_means_exclusive_access :: "UsbKind \<Rightarrow> bool" where
  "usb_kind_means_exclusive_access kind \<longleftrightarrow> kind = UsbKind.Busy"

definition invalid_data :: "string \<Rightarrow> nat list \<Rightarrow> PtpError" where
  "invalid_data fmt args = PtpError.InvalidData (fmt, args)"

fun is_retryable :: "PtpError \<Rightarrow> bool" where
  "is_retryable (PtpError.Protocol code operation) = (code = ResponseCode.DeviceBusy)"
| "is_retryable PtpError.Timeout = True"
| "is_retryable e = False"

fun response_code :: "PtpError \<Rightarrow> ResponseCode option" where
  "response_code (PtpError.Protocol code operation) = Some code"
| "response_code e = None"

fun is_exclusive_access :: "PtpError \<Rightarrow> bool" where
  "is_exclusive_access (PtpError.Usb kind text) = usb_kind_means_exclusive_access kind"
| "is_exclusive_access e = False"

text \<open>Whether the error is the one invalid input data raises.\<close>

fun is_invalid_data :: "PtpError \<Rightarrow> bool" where
  "is_invalid_data (PtpError.InvalidData m) = True"
| "is_invalid_data e = False"

lemma is_invalid_data_invalid_data [simp]: "is_invalid_data (invalid_data fmt args)"
  by (simp add: invalid_data_def)

end
