(* ===== verification/Pack.thy ===== *)
theory Pack
  imports Errors
begin

text \<open>
  The wire primitives of \<open>ptp/pack/mod.rs\<close>: fixed-width integers, length-prefixed UTF-16 strings and
  counted arrays. Signed integers are words read in two's complement. \<open>usize\<close> is a natural number: the
  largest index formed here is four plus four times a 32-bit count, within a 64-bit \<open>usize\<close>.

  Two locales state what the datasets built on these primitives rely on: \<open>fixed_codec\<close> for a value of
  fixed width and \<open>var_codec\<close> for a value that reports how many bytes it took. The cursor readers
  \<open>read_at\<close> and \<open>read_var\<close> are the source's idiom \<open>unpack(&buf[offset..])?; offset += n\<close>.
\<close>

section \<open>Packing integers\<close>

definition pack_u8 :: "u8 \<Rightarrow> bytes" where
  "pack_u8 val = [val]"

definition pack_u16 :: "u16 \<Rightarrow> bytes" where
  "pack_u16 val = to_le_bytes 2 val"

definition pack_u32 :: "u32 \<Rightarrow> bytes" where
  "pack_u32 val = to_le_bytes 4 val"

definition pack_u64 :: "u64 \<Rightarrow> bytes" where
  "pack_u64 val = to_le_bytes 8 val"

definition pack_i8 :: "8 word \<Rightarrow> bytes" where
  "pack_i8 val = [val]"

definition pack_i16 :: "16 word \<Rightarrow> bytes" where
  "pack_i16 val = to_le_bytes 2 val"

definition pack_i32 :: "32 word \<Rightarrow> bytes" where
  "pack_i32 val = to_le_bytes 4 val"

definition pack_i64 :: "64 word \<Rightarrow> bytes" where
  "pack_i64 val = to_le_bytes 8 val"

section \<open>Unpacking integers\<close>

text \<open>An array literal of indexed reads, \<open>[buf[i], buf[j], ...]\<close>.\<close>

fun index_all :: "'a list \<Rightarrow> nat list \<Rightarrow> ('a list, 'e) outcome" where
  "index_all buf [] = Ok []"
| "index_all buf (i # js) =
     bind_ok (index buf i) (\<lambda>b. bind_ok (index_all buf js) (\<lambda>bs. Ok (b # bs)))"

definition unpack_u8 :: "bytes \<Rightarrow> u8 res" where
  "unpack_u8 buf =
     (if buf = [] then Err (invalid_data ''insufficient bytes for u8: need 1, have 0'' [])
      else index buf 0)"

definition unpack_u16 :: "bytes \<Rightarrow> u16 res" where
  "unpack_u16 buf =
     (if length buf < 2
      then Err (invalid_data ''insufficient bytes for u16: need 2, have {}'' [length buf])
      else map_ok from_le_bytes (index_all buf [0, 1]))"

definition unpack_u32 :: "bytes \<Rightarrow> u32 res" where
  "unpack_u32 buf =
     (if length buf < 4
      then Err (invalid_data ''insufficient bytes for u32: need 4, have {}'' [length buf])
      else map_ok from_le_bytes (index_all buf [0, 1, 2, 3]))"

definition unpack_u64 :: "bytes \<Rightarrow> u64 res" where
  "unpack_u64 buf =
     (if length buf < 8
      then Err (invalid_data ''insufficient bytes for u64: need 8, have {}'' [length buf])
      else map_ok from_le_bytes (index_all buf [0, 1, 2, 3, 4, 5, 6, 7]))"

definition unpack_i8 :: "bytes \<Rightarrow> 8 word res" where
  "unpack_i8 buf =
     (if buf = [] then Err (invalid_data ''insufficient bytes for i8: need 1, have 0'' [])
      else index buf 0)"

definition unpack_i16 :: "bytes \<Rightarrow> 16 word res" where
  "unpack_i16 buf =
     (if length buf < 2
      then Err (invalid_data ''insufficient bytes for i16: need 2, have {}'' [length buf])
      else map_ok from_le_bytes (index_all buf [0, 1]))"

definition unpack_i32 :: "bytes \<Rightarrow> 32 word res" where
  "unpack_i32 buf =
     (if length buf < 4
      then Err (invalid_data ''insufficient bytes for i32: need 4, have {}'' [length buf])
      else map_ok from_le_bytes (index_all buf [0, 1, 2, 3]))"

definition unpack_i64 :: "bytes \<Rightarrow> 64 word res" where
  "unpack_i64 buf =
     (if length buf < 8
      then Err (invalid_data ''insufficient bytes for i64: need 8, have {}'' [length buf])
      else map_ok from_le_bytes (index_all buf [0, 1, 2, 3, 4, 5, 6, 7]))"

section \<open>Strings\<close>

text \<open>\<open>str::encode_utf16\<close> and \<open>String::from_utf16_lossy\<close> of the standard library.\<close>

definition encode_utf16_char :: "nat \<Rightarrow> u16 list" where
  "encode_utf16_char c =
     (if c < 0x10000 then [word_of_nat c]
      else [word_of_nat (0xD800 + (c - 0x10000) div 1024), word_of_nat (0xDC00 + (c - 0x10000) mod 1024)])"

definition encode_utf16 :: "rstr \<Rightarrow> u16 list" where
  "encode_utf16 s = concat (map encode_utf16_char s)"

definition is_surrogate :: "u16 \<Rightarrow> bool" where
  "is_surrogate u \<longleftrightarrow> 0xD800 \<le> unat u \<and> unat u < 0xE000"

definition is_low_surrogate :: "u16 \<Rightarrow> bool" where
  "is_low_surrogate u \<longleftrightarrow> 0xDC00 \<le> unat u \<and> unat u < 0xE000"

definition replacement_char :: nat where
  "replacement_char = 0xFFFD"

fun from_utf16_lossy :: "u16 list \<Rightarrow> rstr" where
  "from_utf16_lossy [] = []"
| "from_utf16_lossy (u # us) =
     (if \<not> is_surrogate u then unat u # from_utf16_lossy us
      else if is_low_surrogate u then replacement_char # from_utf16_lossy us
      else case us of
          [] \<Rightarrow> [replacement_char]
        | u2 # us2 \<Rightarrow>
            if is_low_surrogate u2
            then (0x10000 + (unat u - 0xD800) * 1024 + (unat u2 - 0xDC00)) # from_utf16_lossy us2
            else replacement_char # from_utf16_lossy us)"

definition MAX_STRING_UNITS :: usize where
  "MAX_STRING_UNITS = 254"

definition pack_string :: "rstr \<Rightarrow> bytes res" where
  "pack_string s =
     (if s = [] then Ok [0x00]
      else let utf16 = encode_utf16 s in
        if length utf16 > MAX_STRING_UNITS then Err (PtpError.StringTooLong (length utf16))
        else let len = length utf16 + 1 in
          Ok (word_of_nat len # concat (map (to_le_bytes 2) utf16) @ [0x00, 0x00]))"

text \<open>The loop \<open>for i in 0..len\<close> of \<open>unpack_string\<close>, from \<open>i\<close> with \<open>n\<close> rounds left.\<close>

fun string_units :: "bytes \<Rightarrow> nat \<Rightarrow> nat \<Rightarrow> u16 list res" where
  "string_units buf i 0 = Ok []"
| "string_units buf i (Suc n) =
     bind_ok (index_all buf [1 + i * 2, 1 + i * 2 + 1]) (\<lambda>bs.
       let code_unit = from_le_bytes bs in
       if code_unit = 0 then Ok []
       else map_ok (Cons code_unit) (string_units buf (Suc i) n))"

definition unpack_string :: "bytes \<Rightarrow> (rstr \<times> usize) res" where
  "unpack_string buf =
     (if buf = [] then Err (invalid_data ''insufficient bytes for string length'' [])
      else bind_ok (index buf 0) (\<lambda>b.
        let len = unat b in
        if len = 0 then Ok ([], 1)
        else let required = 1 + len * 2 in
          if length buf < required
          then Err (invalid_data ''insufficient bytes for string: need {}, have {}'' [required, length buf])
          else bind_ok (string_units buf 0 len) (\<lambda>code_units.
            Ok (from_utf16_lossy code_units, required))))"

section \<open>Arrays\<close>

definition pack_u16_array :: "u16 list \<Rightarrow> bytes" where
  "pack_u16_array arr = pack_u32 (word_of_nat (length arr)) @ concat (map pack_u16 arr)"

definition pack_u32_array :: "u32 list \<Rightarrow> bytes" where
  "pack_u32_array arr = pack_u32 (word_of_nat (length arr)) @ concat (map pack_u32 arr)"

text \<open>
  The loop \<open>for i in 0..count { result.push(unpack(&buf[base + i * width..])?) }\<close>, from \<open>i\<close> with \<open>n\<close>
  rounds left.
\<close>

fun unpack_items :: "(bytes \<Rightarrow> 'a res) \<Rightarrow> nat \<Rightarrow> nat \<Rightarrow> bytes \<Rightarrow> nat \<Rightarrow> nat \<Rightarrow> 'a list res" where
  "unpack_items unpack base width buf i 0 = Ok []"
| "unpack_items unpack base width buf i (Suc n) =
     bind_ok (slice_from buf (base + i * width)) (\<lambda>b.
       bind_ok (unpack b) (\<lambda>v.
         map_ok (Cons v) (unpack_items unpack base width buf (Suc i) n)))"

definition unpack_u16_array :: "bytes \<Rightarrow> (u16 list \<times> usize) res" where
  "unpack_u16_array buf =
     (if length buf < 4
      then Err (invalid_data ''insufficient bytes for array count: need 4, have {}'' [length buf])
      else bind_ok (unpack_u32 buf) (\<lambda>c.
        let count = unat c; required = 4 + count * 2 in
        if length buf < required
        then Err (invalid_data ''insufficient bytes for u16 array: need {}, have {}'' [required, length buf])
        else bind_ok (unpack_items unpack_u16 4 2 buf 0 count) (\<lambda>result. Ok (result, required))))"

definition unpack_u32_array :: "bytes \<Rightarrow> (u32 list \<times> usize) res" where
  "unpack_u32_array buf =
     (if length buf < 4
      then Err (invalid_data ''insufficient bytes for array count: need 4, have {}'' [length buf])
      else bind_ok (unpack_u32 buf) (\<lambda>c.
        let count = unat c; required = 4 + count * 4 in
        if length buf < required
        then Err (invalid_data ''insufficient bytes for u32 array: need {}, have {}'' [required, length buf])
        else bind_ok (unpack_items unpack_u32 4 4 buf 0 count) (\<lambda>result. Ok (result, required))))"

section \<open>Cursor reads\<close>

definition read_at :: "(bytes \<Rightarrow> 'a res) \<Rightarrow> nat \<Rightarrow> bytes \<Rightarrow> nat \<Rightarrow> ('a \<times> nat) res" where
  "read_at unpack n buf offset =
     bind_ok (slice_from buf offset) (\<lambda>b. map_ok (\<lambda>v. (v, offset + n)) (unpack b))"

definition read_var :: "(bytes \<Rightarrow> ('a \<times> usize) res) \<Rightarrow> bytes \<Rightarrow> nat \<Rightarrow> ('a \<times> nat) res" where
  "read_var unpack buf offset =
     bind_ok (slice_from buf offset) (\<lambda>b. map_ok (\<lambda>(v, consumed). (v, offset + consumed)) (unpack b))"

section \<open>Contracts of the codecs\<close>

locale fixed_codec =
  fixes width :: nat
    and pack :: "'a \<Rightarrow> bytes"
    and unpack :: "bytes \<Rightarrow> 'a res"
  assumes length_pack: "length (pack v) = width"
    and unpack_pack: "unpack (pack v @ rest) = Ok v"
    and unpack_short: "length buf < width \<Longrightarrow> \<exists>e. unpack buf = Err e"
    and unpack_long: "width \<le> length buf \<Longrightarrow> \<exists>v. unpack buf = Ok v \<and> pack v = take width buf"
begin

lemma unpack_returns: "returns (unpack buf) (\<lambda>v. width \<le> length buf \<and> pack v = take width buf)"
  using unpack_short [of buf] unpack_long [of buf] by (cases "length buf < width") auto

lemma unpack_whole: "unpack (pack v) = Ok v"
  using unpack_pack [of v "[]"] by simp

lemma unpack_Ok: "unpack buf = Ok v \<Longrightarrow> width \<le> length buf \<and> pack v = take width buf"
  using unpack_returns [of buf] by simp

text \<open>The value is decided by the first \<open>width\<close> bytes alone.\<close>

lemma unpack_append: "width \<le> length buf \<Longrightarrow> unpack (buf @ rest) = unpack buf"
proof -
  assume long: "width \<le> length buf"
  then obtain v where v: "unpack buf = Ok v" "pack v = take width buf"
    using unpack_long by blast
  have "buf @ rest = pack v @ drop width buf @ rest"
    by (simp add: v(2))
  then show ?thesis using v(1) unpack_pack by metis
qed

lemma read_at_total:
  "offset \<le> length buf \<Longrightarrow> returns (read_at unpack width buf offset) (\<lambda>(v, off). off \<le> length buf)"
  unfolding read_at_def
  by (auto simp: slice_from_in intro!: returns_mono [OF unpack_returns])

lemma read_at_append:
  "read_at unpack width (pre @ pack v @ post) (length pre) = Ok (v, length pre + width)"
  by (simp add: read_at_def unpack_pack)

lemma unpack_items_concat:
  "unpack_items unpack base width (pre @ concat (map pack vs) @ post) i (length vs) = Ok vs"
  if "length pre = base + i * width" for pre
  using that
proof (induction vs arbitrary: i pre)
  case Nil
  then show ?case by simp
next
  case (Cons v vs)
  have "unpack_items unpack base width ((pre @ pack v) @ concat (map pack vs) @ post) (Suc i) (length vs) = Ok vs"
    using Cons.prems by (intro Cons.IH) (simp add: length_pack)
  then show ?case
    using Cons.prems by (simp add: slice_from_def unpack_pack)
qed

lemma unpack_items_total:
  "base + (i + n) * width \<le> length buf \<Longrightarrow>
    returns (unpack_items unpack base width buf i n) (\<lambda>vs. length vs = n)"
proof (induction n arbitrary: i)
  case 0
  then show ?case by simp
next
  case (Suc n)
  have "base + i * width \<le> length buf"
    using Suc.prems by (simp add: algebra_simps)
  moreover have "returns (unpack_items unpack base width buf (Suc i) n) (\<lambda>vs. length vs = n)"
    using Suc.prems by (intro Suc.IH) simp
  ultimately show ?case
    by (auto simp: slice_from_in intro!: returns_mono [OF unpack_returns])
qed

end

lemma read_at_Panic: "length buf < offset \<Longrightarrow> read_at unpack n buf offset = Panic"
  by (simp add: read_at_def slice_from_def)

locale var_codec =
  fixes encodable :: "'a \<Rightarrow> bool"
    and pack :: "'a \<Rightarrow> bytes res"
    and unpack :: "bytes \<Rightarrow> ('a \<times> usize) res"
  assumes unpack_pack: "encodable v \<Longrightarrow> pack v = Ok bs \<Longrightarrow> unpack (bs @ rest) = Ok (v, length bs)"
    and unpack_returns: "returns (unpack buf) (\<lambda>(v, consumed). consumed \<le> length buf)"
begin

lemma unpack_whole: "encodable v \<Longrightarrow> pack v = Ok bs \<Longrightarrow> unpack bs = Ok (v, length bs)"
  using unpack_pack [of v bs "[]"] by simp

lemma read_var_total:
  "offset \<le> length buf \<Longrightarrow> returns (read_var unpack buf offset) (\<lambda>(v, off). off \<le> length buf)"
  unfolding read_var_def
  by (auto simp: slice_from_in intro!: returns_mono [OF unpack_returns])

lemma read_var_append:
  "encodable v \<Longrightarrow> pack v = Ok bs \<Longrightarrow>
    read_var unpack (pre @ bs @ post) (length pre) = Ok (v, length pre + length bs)"
  by (simp add: read_var_def unpack_pack)

end

section \<open>The integer codecs\<close>

lemma index_all_upt: "n \<le> length buf \<Longrightarrow> index_all buf [k..<n] = Ok (take (n - k) (drop k buf))"
proof (induction "n - k" arbitrary: k)
  case 0
  then show ?case by simp
next
  case (Suc d)
  then have k: "k < n" "k < length buf" by auto
  then have "[k..<n] = k # [Suc k..<n]" by (simp add: upt_conv_Cons)
  moreover have "d = n - Suc k" using Suc.hyps(2) by arith
  note Suc.hyps(1) [OF this Suc.prems]
  moreover have "take (n - k) (drop k buf) = buf ! k # take (n - Suc k) (drop (Suc k) buf)"
    using k by (simp add: Cons_nth_drop_Suc [symmetric] take_Cons' Suc_diff_Suc)
  ultimately show ?case using k by (simp add: index_def)
qed

lemma unpack_word_codec:
  fixes unpack :: "bytes \<Rightarrow> 'a::len word res"
  assumes short: "\<And>buf. length buf < n \<Longrightarrow> \<exists>e. unpack buf = Err e"
    and long: "\<And>buf. n \<le> length buf \<Longrightarrow> unpack buf = map_ok from_le_bytes (index_all buf [0..<n])"
    and width: "LENGTH('a) = 8 * n"
  shows "fixed_codec n (to_le_bytes n) unpack"
proof
  fix v :: "'a word" and rest buf :: bytes
  show "length (to_le_bytes n v) = n" by simp
  show "unpack (to_le_bytes n v @ rest) = Ok v"
    using width by (simp add: long index_all_upt from_to_le_bytes)
  show "length buf < n \<Longrightarrow> \<exists>e. unpack buf = Err e" by (rule short)
  assume "n \<le> length buf"
  then show "\<exists>v. unpack buf = Ok v \<and> to_le_bytes n v = take n buf"
    using to_from_le_bytes [where 'a = 'a, of "take n buf"] width
    by (simp add: long index_all_upt min_def)
qed

lemmas upt_numerals = upt_conv_Cons eval_nat_numeral

interpretation u16: fixed_codec 2 pack_u16 unpack_u16
  unfolding pack_u16_def [abs_def]
  by (rule unpack_word_codec) (simp_all add: unpack_u16_def upt_numerals)

interpretation u32: fixed_codec 4 pack_u32 unpack_u32
  unfolding pack_u32_def [abs_def]
  by (rule unpack_word_codec) (simp_all add: unpack_u32_def upt_numerals)

interpretation u64: fixed_codec 8 pack_u64 unpack_u64
  unfolding pack_u64_def [abs_def]
  by (rule unpack_word_codec) (simp_all add: unpack_u64_def upt_numerals)

interpretation i16: fixed_codec 2 pack_i16 unpack_i16
  unfolding pack_i16_def [abs_def]
  by (rule unpack_word_codec) (simp_all add: unpack_i16_def upt_numerals)

interpretation i32: fixed_codec 4 pack_i32 unpack_i32
  unfolding pack_i32_def [abs_def]
  by (rule unpack_word_codec) (simp_all add: unpack_i32_def upt_numerals)

interpretation i64: fixed_codec 8 pack_i64 unpack_i64
  unfolding pack_i64_def [abs_def]
  by (rule unpack_word_codec) (simp_all add: unpack_i64_def upt_numerals)

interpretation u8: fixed_codec 1 pack_u8 unpack_u8
  by unfold_locales (auto simp: pack_u8_def unpack_u8_def index_def Suc_le_eq hd_conv_nth take_Suc)

interpretation i8: fixed_codec 1 pack_i8 unpack_i8
  by unfold_locales (auto simp: pack_i8_def unpack_i8_def index_def Suc_le_eq hd_conv_nth take_Suc)

section \<open>The string codec\<close>

lemma from_utf16_lossy_char:
  assumes "is_scalar c"
  shows "from_utf16_lossy (encode_utf16_char c @ us) = c # from_utf16_lossy us"
proof (cases "c < 0x10000")
  case True
  then have "unat (word_of_nat c :: u16) = c" by (simp add: unat_of_nat)
  with True assms show ?thesis
    by (auto simp: encode_utf16_char_def is_surrogate_def is_scalar_def)
next
  case False
  define d where "d = c - 0x10000"
  have c: "c = 0x10000 + d" using False by (simp add: d_def)
  have d: "d < 0x100000" using assms False by (simp add: is_scalar_def c)
  then have hi: "d div 1024 < 1024" by (simp add: div_less_iff_less_mult)
  have u1: "unat (word_of_nat (0xD800 + d div 1024) :: u16) = 0xD800 + d div 1024"
    using hi by (simp only: unat_of_nat) simp
  have u2: "unat (word_of_nat (0xDC00 + d mod 1024) :: u16) = 0xDC00 + d mod 1024"
    by (simp only: unat_of_nat) simp
  have "encode_utf16_char c = [word_of_nat (0xD800 + d div 1024), word_of_nat (0xDC00 + d mod 1024)]"
    by (simp add: encode_utf16_char_def c)
  moreover have "0x10000 + (d div 1024) * 1024 + d mod 1024 = c"
    by (simp add: c)
  ultimately show ?thesis
    using hi by (simp del: of_nat_add add: is_surrogate_def is_low_surrogate_def u1 u2)
qed

lemma from_utf16_lossy_encode: "valid_str s \<Longrightarrow> from_utf16_lossy (encode_utf16 s) = s"
  by (induction s) (simp_all add: valid_str_def encode_utf16_def from_utf16_lossy_char del: from_utf16_lossy.simps(2))

lemma encode_utf16_eq_Nil [simp]: "encode_utf16 s = [] \<longleftrightarrow> s = []"
  by (cases s) (auto simp: encode_utf16_def encode_utf16_char_def)

lemma encode_utf16_nonzero:
  assumes "valid_str s" and "0 \<notin> set s"
  shows "0 \<notin> set (encode_utf16 s)"
proof
  assume "0 \<in> set (encode_utf16 s)"
  then obtain c where c: "c \<in> set s" "0 \<in> set (encode_utf16_char c)"
    by (auto simp: encode_utf16_def)
  then have ub: "c < 0x110000" "c \<noteq> 0"
    using assms by (auto simp: valid_str_def list_all_iff is_scalar_def intro: gr0I)
  have z: "(word_of_nat k :: u16) \<noteq> 0" if "0 < k" "k < 65536" for k
  proof -
    have "unat (word_of_nat k :: u16) = k" using that by (simp add: unat_of_nat)
    with that(1) show ?thesis by (metis neq0_conv unat_0)
  qed
  show False
  proof (cases "c < 0x10000")
    case True
    with c(2) ub z [of c] show ?thesis by (simp add: encode_utf16_char_def)
  next
    case False
    have "(c - 0x10000) div 1024 < 1024" using ub by (simp add: div_less_iff_less_mult)
    then show ?thesis
      using c(2) False z [of "0xD800 + (c - 0x10000) div 1024"] z [of "0xDC00 + (c - 0x10000) mod 1024"]
      by (simp add: encode_utf16_char_def del: of_nat_add)
  qed
qed


lemma string_units_concat:
  assumes "length pre = 1 + i * 2" and "0 \<notin> set us"
  shows "string_units (pre @ concat (map (to_le_bytes 2) us) @ [0, 0] @ rest) i (Suc (length us)) = Ok us"
  using assms
proof (induction us arbitrary: i pre)
  case Nil
  then show ?case by (simp add: index_def nth_append from_le_bytes_def)
next
  case (Cons u us)
  obtain a b where ab: "to_le_bytes 2 u = [a, b]"
    by (simp add: to_le_bytes_def numeral_2_eq_2)
  then have u: "from_le_bytes [a, b] = u"
    using from_to_le_bytes [of 2 u] by simp
  have "string_units ((pre @ [a, b]) @ concat (map (to_le_bytes 2) us) @ [0, 0] @ rest) (Suc i) (Suc (length us)) = Ok us"
    using Cons.prems by (intro Cons.IH) simp_all
  then have "string_units (pre @ a # b # concat (map (to_le_bytes 2) us) @ 0 # 0 # rest) (Suc i) (Suc (length us)) = Ok us"
    by simp
  moreover have "(index_all (pre @ a # b # concat (map (to_le_bytes 2) us) @ 0 # 0 # rest)
      [1 + i * 2, 1 + i * 2 + 1] :: bytes res) = Ok [a, b]"
    using Cons.prems(1) by (simp add: index_def nth_append)
  ultimately show ?case
    using Cons.prems(2)
    by (simp add: ab u string_units.simps(2) [of _ i "Suc (length us)"] del: index_all.simps string_units.simps)
qed

lemma string_units_total:
  "1 + (i + n) * 2 \<le> length buf \<Longrightarrow> returns (string_units buf i n) (\<lambda>us. length us \<le> n)"
proof (induction n arbitrary: i)
  case 0
  then show ?case by simp
next
  case (Suc n)
  have "returns (string_units buf (Suc i) n) (\<lambda>us. length us \<le> n)"
    using Suc.prems by (intro Suc.IH) simp
  with Suc.prems show ?case
    by (auto simp: index_def Let_def intro: returns_mono)
qed

lemma length_concat_le2 [simp]: "length (concat (map (to_le_bytes 2) us)) = 2 * length us"
  by (induction us) auto

lemma unpack_pack_string:
  assumes s: "valid_str s" "0 \<notin> set s" and bs: "pack_string s = Ok bs"
  shows "unpack_string (bs @ rest) = Ok (s, length bs)"
proof (cases "s = []")
  case True
  with bs show ?thesis by (auto simp: pack_string_def unpack_string_def index_def)
next
  case False
  let ?u = "encode_utf16 s"
  from False bs have len: "length ?u \<le> 254"
    and bs_eq: "bs = word_of_nat (length ?u + 1) # concat (map (to_le_bytes 2) ?u) @ [0, 0]"
    by (auto simp: pack_string_def Let_def MAX_STRING_UNITS_def split: if_splits)
  have b: "unat (word_of_nat (length ?u + 1) :: u8) = Suc (length ?u)"
    using len by (simp add: unat_of_nat del: of_nat_Suc of_nat_add)
  have "string_units ([word_of_nat (length ?u + 1)] @ concat (map (to_le_bytes 2) ?u) @ [0, 0] @ rest) 0
      (Suc (length ?u)) = Ok ?u"
    by (rule string_units_concat) (use encode_utf16_nonzero [OF s] in auto)
  then show ?thesis
    using from_utf16_lossy_encode [OF s(1)] b
    by (simp add: unpack_string_def bs_eq index_def Let_def del: of_nat_Suc of_nat_add string_units.simps)
qed

lemma unpack_string_total: "returns (unpack_string buf) (\<lambda>(s, consumed). consumed \<le> length buf)"
  using string_units_total [of 0 "unat (buf ! 0)" buf]
  by (auto simp: unpack_string_def index_def Let_def Suc_le_eq intro: returns_mono)

interpretation string: var_codec "\<lambda>s. valid_str s \<and> 0 \<notin> set s" pack_string unpack_string
  by unfold_locales (auto simp: unpack_pack_string unpack_string_total)

section \<open>The array codecs\<close>

lemma length_concat_pack_u16 [simp]: "length (concat (map pack_u16 vs)) = length vs * 2"
  by (induction vs) (auto simp: u16.length_pack)

lemma length_concat_pack_u32 [simp]: "length (concat (map pack_u32 vs)) = length vs * 4"
  by (induction vs) (auto simp: u32.length_pack)

lemma unpack_pack_u16_array:
  assumes "length arr < 2 ^ 32"
  shows "unpack_u16_array (pack_u16_array arr @ rest) = Ok (arr, length (pack_u16_array arr))"
  using assms u16.unpack_items_concat [of "pack_u32 (word_of_nat (length arr))" 4 0 arr rest]
  by (simp add: unpack_u16_array_def pack_u16_array_def u32.unpack_pack u32.length_pack unat_of_nat)

lemma unpack_pack_u32_array:
  assumes "length arr < 2 ^ 32"
  shows "unpack_u32_array (pack_u32_array arr @ rest) = Ok (arr, length (pack_u32_array arr))"
  using assms u32.unpack_items_concat [of "pack_u32 (word_of_nat (length arr))" 4 0 arr rest]
  by (simp add: unpack_u32_array_def pack_u32_array_def u32.unpack_pack u32.length_pack unat_of_nat)

interpretation u16_array: var_codec "\<lambda>arr. length arr < 2 ^ 32" "\<lambda>arr. Ok (pack_u16_array arr)" unpack_u16_array
proof
  show "returns (unpack_u16_array buf) (\<lambda>(v, consumed). consumed \<le> length buf)" for buf
    unfolding unpack_u16_array_def
    by (auto simp: Let_def intro!: returns_mono [OF u32.unpack_returns]
        intro: returns_mono [OF u16.unpack_items_total])
qed (auto simp: unpack_pack_u16_array)

interpretation u32_array: var_codec "\<lambda>arr. length arr < 2 ^ 32" "\<lambda>arr. Ok (pack_u32_array arr)" unpack_u32_array
proof
  show "returns (unpack_u32_array buf) (\<lambda>(v, consumed). consumed \<le> length buf)" for buf
    unfolding unpack_u32_array_def
    by (auto simp: Let_def intro!: returns_mono [OF u32.unpack_returns]
        intro: returns_mono [OF u32.unpack_items_total])
qed (auto simp: unpack_pack_u32_array)

section \<open>Properties\<close>

text \<open>
  The string and array codecs are inverse to each other in front of any further bytes, and report the length they consumed. A string
  survives when its characters are Unicode scalar values other than null; arrays when their length fits the 32-bit count.
\<close>

theorem strings_and_arrays:
  assumes "valid_str s" "0 \<notin> set s" "length us < 2 ^ 32" "length ws < 2 ^ 32"
  shows "(pack_string s = Ok bs \<longrightarrow> unpack_string (bs @ rest) = Ok (s, length bs))
    \<and> unpack_u16_array (pack_u16_array us @ rest) = Ok (us, 4 + 2 * length us)
    \<and> unpack_u32_array (pack_u32_array ws @ rest) = Ok (ws, 4 + 4 * length ws)"
  using assms string.unpack_pack [of s bs rest] unpack_pack_u16_array [of us rest] unpack_pack_u32_array [of ws rest]
  by (simp add: pack_u16_array_def pack_u32_array_def u32.length_pack u16.length_pack)

text \<open>A string with a character outside the basic plane.\<close>

theorem strings_and_arrays_witness:
  "\<exists>bs. pack_string [97, 0x1F600] = Ok bs \<and> unpack_string bs = Ok ([97, 0x1F600], length bs)
     \<and> unpack_u16_array (pack_u16_array [7, 8]) = Ok ([7, 8], 8)"
proof -
  have "\<exists>bs. pack_string [97, 0x1F600] = Ok bs"
    by (simp add: pack_string_def encode_utf16_def encode_utf16_char_def MAX_STRING_UNITS_def)
  then obtain bs where "pack_string [97, 0x1F600] = Ok bs" by blast
  then show ?thesis
    using strings_and_arrays [of "[97, 0x1F600]" "[7, 8]" "[]" bs "[]"] by (simp add: valid_str_def is_scalar_def)
qed

end
