(* ===== verification/Container.thy ===== *)
theory Container
  imports Pack
begin

text \<open>
  The USB containers of \<open>ptp/container.rs\<close>: command, data, response and event, with the parsers'
  checks in the order of the source. The lemmas show that a parser inverts the wire form, that it
  accepts nothing but wire forms, and that no buffer makes it panic.
\<close>

section \<open>Container types\<close>

definition HEADER_SIZE :: usize where
  "HEADER_SIZE = 12"

datatype ContainerType = Command | Data | Response | Event

definition ContainerType_from_code :: "u16 \<Rightarrow> ContainerType option" where
  "ContainerType_from_code code =
     (if code = 1 then Some ContainerType.Command
      else if code = 2 then Some ContainerType.Data
      else if code = 3 then Some ContainerType.Response
      else if code = 4 then Some ContainerType.Event
      else None)"

fun ContainerType_to_code :: "ContainerType \<Rightarrow> u16" where
  "ContainerType_to_code ContainerType.Command = 1"
| "ContainerType_to_code ContainerType.Data = 2"
| "ContainerType_to_code ContainerType.Response = 3"
| "ContainerType_to_code ContainerType.Event = 4"

text \<open>\<open>unpack(&buf[a..b])?\<close>.\<close>

definition unpack_slice :: "(bytes \<Rightarrow> 'a res) \<Rightarrow> bytes \<Rightarrow> nat \<Rightarrow> nat \<Rightarrow> 'a res" where
  "unpack_slice unpack buf a b = bind_ok (slice buf a b) unpack"

definition container_type :: "bytes \<Rightarrow> ContainerType res" where
  "container_type buf =
     (if length buf < HEADER_SIZE
      then Err (invalid_data ''container too small: need at least {} bytes, have {}'' [HEADER_SIZE, length buf])
      else bind_ok (unpack_slice unpack_u16 buf 4 6) (\<lambda>type_code.
        case ContainerType_from_code type_code of
          Some ty \<Rightarrow> Ok ty
        | None \<Rightarrow> Err (invalid_data ''invalid container type: {}'' [unat type_code])))"

section \<open>Command containers\<close>

record CommandContainer =
  cc_code :: OperationCode
  cc_transaction_id :: u32
  cc_params :: "u32 list"

text \<open>The header every serializer writes.\<close>

definition pack_header :: "usize \<Rightarrow> ContainerType \<Rightarrow> u16 \<Rightarrow> u32 \<Rightarrow> bytes" where
  "pack_header total_len ty code tx =
     pack_u32 (word_of_nat total_len) @ pack_u16 (ContainerType_to_code ty) @ pack_u16 code @ pack_u32 tx"

definition CommandContainer_to_bytes :: "CommandContainer \<Rightarrow> bytes" where
  "CommandContainer_to_bytes c =
     (let param_bytes = length (cc_params c) * 4;
          total_len = HEADER_SIZE + param_bytes
      in pack_header total_len ContainerType.Command (OperationCode_into (cc_code c)) (cc_transaction_id c)
         @ concat (map pack_u32 (cc_params c)))"

section \<open>Data containers\<close>

record DataContainer =
  dc_code :: OperationCode
  dc_transaction_id :: u32
  dc_payload :: bytes

definition DataContainer_to_bytes :: "DataContainer \<Rightarrow> bytes" where
  "DataContainer_to_bytes c =
     (let total_len = HEADER_SIZE + length (dc_payload c)
      in pack_header total_len ContainerType.Data (OperationCode_into (dc_code c)) (dc_transaction_id c)
         @ dc_payload c)"

text \<open>The four header fields, read the same way by the three parsers.\<close>

definition unpack_header :: "bytes \<Rightarrow> (usize \<times> u16 \<times> u16 \<times> u32) res" where
  "unpack_header buf =
     bind_ok (unpack_slice unpack_u32 buf 0 4) (\<lambda>len.
     bind_ok (unpack_slice unpack_u16 buf 4 6) (\<lambda>type_code.
     bind_ok (unpack_slice unpack_u16 buf 6 8) (\<lambda>code.
     bind_ok (unpack_slice unpack_u32 buf 8 12) (\<lambda>tx.
       Ok (unat len, type_code, code, tx)))))"

definition DataContainer_from_bytes :: "bytes \<Rightarrow> DataContainer res" where
  "DataContainer_from_bytes buf =
     (if length buf < HEADER_SIZE
      then Err (invalid_data ''data container too small: need at least {} bytes, have {}'' [HEADER_SIZE, length buf])
      else bind_ok (unpack_header buf) (\<lambda>(len, type_code, code, tx).
        if type_code \<noteq> ContainerType_to_code ContainerType.Data
        then Err (invalid_data ''expected Data container type ({}), got {}'' [2, unat type_code])
        else if len < HEADER_SIZE
        then Err (invalid_data ''data container length too small: {} < header size {}'' [len, HEADER_SIZE])
        else if length buf < len
        then Err (invalid_data ''data container length mismatch: header says {}, have {}'' [len, length buf])
        else bind_ok (slice buf HEADER_SIZE len) (\<lambda>payload.
          Ok \<lparr>dc_code = OperationCode_from code, dc_transaction_id = tx, dc_payload = payload\<rparr>)))"

section \<open>Response containers\<close>

record ResponseContainer =
  rc_code :: ResponseCode
  rc_transaction_id :: u32
  rc_params :: "u32 list"

definition ResponseContainer_from_bytes :: "bytes \<Rightarrow> ResponseContainer res" where
  "ResponseContainer_from_bytes buf =
     (if length buf < HEADER_SIZE
      then Err (invalid_data ''response container too small: need at least {} bytes, have {}'' [HEADER_SIZE, length buf])
      else bind_ok (unpack_header buf) (\<lambda>(len, type_code, code, tx).
        if type_code \<noteq> ContainerType_to_code ContainerType.Response
        then Err (invalid_data ''expected Response container type ({}), got {}'' [3, unat type_code])
        else if len < HEADER_SIZE
        then Err (invalid_data ''response container length too small: {} < header size {}'' [len, HEADER_SIZE])
        else if length buf < len
        then Err (invalid_data ''response container length mismatch: header says {}, have {}'' [len, length buf])
        else let param_bytes = len - HEADER_SIZE in
          if \<not> 4 dvd param_bytes
          then Err (invalid_data ''response parameter bytes not aligned: {} bytes'' [param_bytes])
          else let param_count = param_bytes div 4 in
            bind_ok (unpack_items unpack_u32 HEADER_SIZE 4 buf 0 param_count) (\<lambda>ps.
              Ok \<lparr>rc_code = ResponseCode_from code, rc_transaction_id = tx, rc_params = ps\<rparr>)))"

definition response_is_ok :: "ResponseContainer \<Rightarrow> bool" where
  "response_is_ok r \<longleftrightarrow> rc_code r = ResponseCode.OK"

section \<open>Event containers\<close>

record EventContainer =
  ec_code :: EventCode
  ec_transaction_id :: u32
  ec_params :: "u32 \<times> u32 \<times> u32"

definition EventContainer_to_bytes :: "EventContainer \<Rightarrow> bytes" where
  "EventContainer_to_bytes e =
     (case ec_params e of (p1, p2, p3) \<Rightarrow>
       pack_header (HEADER_SIZE + 12) ContainerType.Event (EventCode_into (ec_code e)) (ec_transaction_id e)
       @ pack_u32 p1 @ pack_u32 p2 @ pack_u32 p3)"

definition EventContainer_from_bytes :: "bytes \<Rightarrow> EventContainer res" where
  "EventContainer_from_bytes buf =
     (let MAX_EVENT_SIZE = HEADER_SIZE + 12 in
      if length buf < HEADER_SIZE
      then Err (invalid_data ''event container too small: need at least {} bytes, have {}'' [HEADER_SIZE, length buf])
      else bind_ok (unpack_header buf) (\<lambda>(len, type_code, code, tx).
        if type_code \<noteq> ContainerType_to_code ContainerType.Event
        then Err (invalid_data ''expected Event container type ({}), got {}'' [4, unat type_code])
        else if \<not> (HEADER_SIZE \<le> len \<and> len \<le> MAX_EVENT_SIZE)
        then Err (invalid_data ''event container invalid size: expected 12-24, got {}'' [len])
        else let param_bytes = len - HEADER_SIZE in
          if \<not> 4 dvd param_bytes
          then Err (invalid_data ''event parameter bytes not aligned: {} bytes'' [param_bytes])
          else if length buf < len
          then Err (invalid_data ''event container buffer too small: need {}, have {}'' [len, length buf])
          else let param_count = param_bytes div 4 in
            bind_ok (if 1 \<le> param_count then unpack_slice unpack_u32 buf 12 16 else Ok 0) (\<lambda>param1.
            bind_ok (if 2 \<le> param_count then unpack_slice unpack_u32 buf 16 20 else Ok 0) (\<lambda>param2.
            bind_ok (if 3 \<le> param_count then unpack_slice unpack_u32 buf 20 24 else Ok 0) (\<lambda>param3.
              Ok \<lparr>ec_code = EventCode_from code, ec_transaction_id = tx, ec_params = (param1, param2, param3)\<rparr>)))))"

section \<open>Headers\<close>

lemma from_to_code [simp]: "ContainerType_from_code (ContainerType_to_code ty) = Some ty"
  by (cases ty) (simp_all add: ContainerType_from_code_def)

lemma from_code_Some: "ContainerType_from_code code = Some ty \<longleftrightarrow> code = ContainerType_to_code ty"
  by (cases ty) (auto simp: ContainerType_from_code_def split: if_splits)

lemma length_pack_header [simp]: "length (pack_header n ty code tx) = 12"
  by (simp add: pack_header_def u32.length_pack u16.length_pack)

context fixed_codec
begin

lemma unpack_slice_mid:
  "a = length pre \<Longrightarrow> b = length pre + width \<Longrightarrow> unpack_slice unpack (pre @ pack v @ post) a b = Ok v"
  by (simp add: unpack_slice_def slice_def length_pack unpack_whole)

lemma unpack_slice_in:
  "b = a + width \<Longrightarrow> b \<le> length buf \<Longrightarrow>
    \<exists>v. unpack_slice unpack buf a b = Ok v \<and> pack v = take width (drop a buf)"
  using unpack_long [of "take width (drop a buf)"] by (auto simp: unpack_slice_def slice_in)

lemma unpack_slice_total:
  "b = a + width \<Longrightarrow> b \<le> length buf \<Longrightarrow> returns (unpack_slice unpack buf a b) (\<lambda>v. True)"
  using unpack_slice_in by force

end

lemmas header_lengths = u32.length_pack u16.length_pack

lemma unpack_header_pack:
  assumes "n < 2 ^ 32"
  shows "unpack_header (pack_header n ty code tx @ rest) = Ok (n, ContainerType_to_code ty, code, tx)"
proof -
  let ?n = "pack_u32 (word_of_nat n)" and ?t = "pack_u16 (ContainerType_to_code ty)"
    and ?c = "pack_u16 code" and ?x = "pack_u32 tx"
  have "unpack_slice unpack_u32 ([] @ ?n @ ?t @ ?c @ ?x @ rest) 0 4 = Ok (word_of_nat n)"
    by (rule u32.unpack_slice_mid) simp_all
  moreover have "unpack_slice unpack_u16 (?n @ ?t @ ?c @ ?x @ rest) 4 6 = Ok (ContainerType_to_code ty)"
    by (rule u16.unpack_slice_mid) (simp_all add: header_lengths)
  moreover have "unpack_slice unpack_u16 ((?n @ ?t) @ ?c @ ?x @ rest) 6 8 = Ok code"
    by (rule u16.unpack_slice_mid) (simp_all add: header_lengths)
  moreover have "unpack_slice unpack_u32 ((?n @ ?t @ ?c) @ ?x @ rest) 8 12 = Ok tx"
    by (rule u32.unpack_slice_mid) (simp_all add: header_lengths)
  ultimately show ?thesis
    using assms by (simp add: unpack_header_def pack_header_def unat_of_nat)
qed

text \<open>Twelve bytes always read as a header, and the header read is the one they spell.\<close>

lemma unpack_header_in:
  assumes "12 \<le> length buf"
  obtains len ty code tx where "unpack_header buf = Ok (unat len, ty, code, tx)"
    and "take 12 buf = pack_u32 len @ pack_u16 ty @ pack_u16 code @ pack_u32 tx"
proof -
  from assms obtain len ty code tx where
    parts: "unpack_slice unpack_u32 buf 0 4 = Ok len" "pack_u32 len = take 4 (drop 0 buf)"
      "unpack_slice unpack_u16 buf 4 6 = Ok ty" "pack_u16 ty = take 2 (drop 4 buf)"
      "unpack_slice unpack_u16 buf 6 8 = Ok code" "pack_u16 code = take 2 (drop 6 buf)"
      "unpack_slice unpack_u32 buf 8 12 = Ok tx" "pack_u32 tx = take 4 (drop 8 buf)"
    using u32.unpack_slice_in [of 4 0 buf] u16.unpack_slice_in [of 6 4 buf] u16.unpack_slice_in [of 8 6 buf]
      u32.unpack_slice_in [of 12 8 buf] by auto
  have "take 12 buf = take 4 buf @ take 2 (drop 4 buf) @ take 2 (drop 6 buf) @ take 4 (drop 8 buf)"
    using take_add [of 4 8 buf] take_add [of 2 6 "drop 4 buf"] take_add [of 2 4 "drop 6 buf"] by simp
  with parts show thesis by (intro that [of len ty code tx]) (simp_all add: unpack_header_def)
qed

lemma unpack_slice_append: "b \<le> length xs \<Longrightarrow> unpack_slice unpack (xs @ ys) a b = unpack_slice unpack xs a b"
  by (simp add: unpack_slice_def slice_append)

lemma container_type_append: "HEADER_SIZE \<le> length xs \<Longrightarrow> container_type (xs @ ys) = container_type xs"
  by (simp add: container_type_def HEADER_SIZE_def unpack_slice_def slice_append)

lemma pack_header_not_Nil [simp]: "pack_header n ty code tx \<noteq> []"
  by (metis length_pack_header list.size(3) zero_neq_numeral)

section \<open>Parsers against wire forms\<close>

text \<open>The wire form of a response, as a device sends it.\<close>

definition response_wire :: "ResponseContainer \<Rightarrow> bytes" where
  "response_wire r =
     pack_header (HEADER_SIZE + length (rc_params r) * 4) ContainerType.Response
       (ResponseCode_into (rc_code r)) (rc_transaction_id r)
     @ concat (map pack_u32 (rc_params r))"

lemma container_type_header [simp]:
  "container_type (pack_header n ty code tx @ rest) = Ok ty"
proof -
  have "unpack_slice unpack_u16 (pack_u32 (word_of_nat n) @ pack_u16 (ContainerType_to_code ty)
      @ pack_u16 code @ pack_u32 tx @ rest) 4 6 = Ok (ContainerType_to_code ty)"
    by (rule u16.unpack_slice_mid) (simp_all add: header_lengths)
  then show ?thesis by (simp add: container_type_def HEADER_SIZE_def) (simp add: pack_header_def)
qed

lemma DataContainer_unpack_pack:
  assumes "OperationCode_from (OperationCode_into (dc_code c)) = dc_code c"
    and "HEADER_SIZE + length (dc_payload c) < 2 ^ 32"
  shows "DataContainer_from_bytes (DataContainer_to_bytes c @ rest) = Ok c"
  using assms
  by (simp add: DataContainer_from_bytes_def DataContainer_to_bytes_def unpack_header_pack HEADER_SIZE_def
      slice_def Let_def)

lemma ResponseContainer_unpack_wire:
  assumes "ResponseCode_from (ResponseCode_into (rc_code r)) = rc_code r"
    and "length (rc_params r) < 2 ^ 29"
  shows "ResponseContainer_from_bytes (response_wire r @ rest) = Ok r"
  using assms
    u32.unpack_items_concat [of "pack_header (12 + length (rc_params r) * 4) ContainerType.Response
      (ResponseCode_into (rc_code r)) (rc_transaction_id r)" 12 0 "rc_params r" rest]
  by (simp add: ResponseContainer_from_bytes_def response_wire_def unpack_header_pack HEADER_SIZE_def Let_def)

lemma EventContainer_unpack_pack:
  assumes "EventCode_from (EventCode_into (ec_code e)) = ec_code e"
  shows "EventContainer_from_bytes (EventContainer_to_bytes e @ rest) = Ok e"
proof -
  obtain p1 p2 p3 where p: "ec_params e = (p1, p2, p3)" by (cases "ec_params e")
  let ?h = "pack_header 24 ContainerType.Event (EventCode_into (ec_code e)) (ec_transaction_id e)"
  have "unpack_slice unpack_u32 (?h @ pack_u32 p1 @ pack_u32 p2 @ pack_u32 p3 @ rest) 12 16 = Ok p1"
    by (rule u32.unpack_slice_mid) simp_all
  moreover have "unpack_slice unpack_u32 ((?h @ pack_u32 p1) @ pack_u32 p2 @ pack_u32 p3 @ rest) 16 20 = Ok p2"
    by (rule u32.unpack_slice_mid) (simp_all add: u32.length_pack)
  moreover have "unpack_slice unpack_u32 ((?h @ pack_u32 p1 @ pack_u32 p2) @ pack_u32 p3 @ rest) 20 24 = Ok p3"
    by (rule u32.unpack_slice_mid) (simp_all add: u32.length_pack)
  ultimately show ?thesis
    using assms p
    by (simp add: EventContainer_from_bytes_def EventContainer_to_bytes_def unpack_header_pack HEADER_SIZE_def
        u32.length_pack Let_def)
qed

lemma unpack_items_u32_Ok:
  "unpack_items unpack_u32 base 4 buf i n = Ok vs \<Longrightarrow> base + (i + n) * 4 \<le> length buf \<Longrightarrow>
    length vs = n \<and> concat (map pack_u32 vs) = take (n * 4) (drop (base + i * 4) buf)"
proof (induction n arbitrary: i vs)
  case 0
  then show ?case by simp
next
  case (Suc n)
  from Suc.prems obtain v vs' where v: "unpack_u32 (drop (base + i * 4) buf) = Ok v"
    and vs': "unpack_items unpack_u32 base 4 buf (Suc i) n = Ok vs'" and vs: "vs = v # vs'"
    by (auto simp: slice_from_in)
  have "concat (map pack_u32 vs') = take (n * 4) (drop 4 (drop (base + i * 4) buf)) \<and> length vs' = n"
    using Suc.IH [OF vs'] Suc.prems(2) by (simp add: add.commute add.left_commute)
  moreover have "pack_u32 v = take 4 (drop (base + i * 4) buf)"
    using u32.unpack_Ok [OF v] by simp
  ultimately show ?case by (simp add: vs take_add)
qed

text \<open>A response is accepted only from its own wire form, possibly followed by more bytes.\<close>

lemma ResponseContainer_from_bytes_wire:
  assumes "ResponseContainer_from_bytes buf = Ok r"
  shows "\<exists>rest. buf = response_wire r @ rest"
proof -
  from assms have "12 \<le> length buf"
    by (auto simp: ResponseContainer_from_bytes_def HEADER_SIZE_def split: if_splits)
  from unpack_header_in [OF this] obtain len ty code tx
    where hdr: "unpack_header buf = Ok (unat len, ty, code, tx)"
      and h12: "take 12 buf = pack_u32 len @ pack_u16 ty @ pack_u16 code @ pack_u32 tx" .
  define n where "n = (unat len - 12) div 4"
  from assms \<open>12 \<le> length buf\<close> hdr obtain ps where ty: "ty = 3" and len: "12 \<le> unat len" "unat len \<le> length buf" "4 dvd unat len - 12"
    and ps: "unpack_items unpack_u32 12 4 buf 0 n = Ok ps"
    and r: "r = \<lparr>rc_code = ResponseCode_from code, rc_transaction_id = tx, rc_params = ps\<rparr>"
    by (auto simp: ResponseContainer_from_bytes_def HEADER_SIZE_def Let_def n_def split: if_splits)
  have n: "12 + n * 4 = unat len" using len(1,3) by (simp add: n_def)
  from unpack_items_u32_Ok [OF ps] n len have "length ps = n" "concat (map pack_u32 ps) = take (n * 4) (drop 12 buf)"
    by simp_all
  moreover have "word_of_nat (12 + n * 4) = len" unfolding n by simp
  ultimately have "response_wire r = take 12 buf @ take (n * 4) (drop 12 buf)"
    by (simp only: r response_wire_def pack_header_def HEADER_SIZE_def h12) (simp add: ty)
  also have "\<dots> = take (unat len) buf" using take_add [of 12 "n * 4" buf] n by simp
  finally have "buf = response_wire r @ drop (unat len) buf" by simp
  then show ?thesis ..
qed

lemma DataContainer_from_bytes_wire:
  assumes "DataContainer_from_bytes buf = Ok c"
  shows "\<exists>rest. buf = DataContainer_to_bytes c @ rest"
proof -
  from assms have "12 \<le> length buf"
    by (auto simp: DataContainer_from_bytes_def HEADER_SIZE_def split: if_splits)
  from unpack_header_in [OF this] obtain len ty code tx
    where hdr: "unpack_header buf = Ok (unat len, ty, code, tx)"
      and h12: "take 12 buf = pack_u32 len @ pack_u16 ty @ pack_u16 code @ pack_u32 tx" .
  from assms \<open>12 \<le> length buf\<close> hdr have ty: "ty = 2" and len: "12 \<le> unat len" "unat len \<le> length buf"
    and c: "c = \<lparr>dc_code = OperationCode_from code, dc_transaction_id = tx, dc_payload = take (unat len - 12) (drop 12 buf)\<rparr>"
    by (auto simp: DataContainer_from_bytes_def HEADER_SIZE_def slice_def split: if_splits)
  have "DataContainer_to_bytes c = take 12 buf @ take (unat len - 12) (drop 12 buf)"
    using len by (simp add: c DataContainer_to_bytes_def pack_header_def HEADER_SIZE_def h12 ty)
  also have "\<dots> = take (unat len) buf" using take_add [of 12 "unat len - 12" buf] len by simp
  finally have "buf = DataContainer_to_bytes c @ drop (unat len) buf" by simp
  then show ?thesis ..
qed

lemma unpack_header_total: "12 \<le> length buf \<Longrightarrow> returns (unpack_header buf) (\<lambda>h. True)"
  by (erule unpack_header_in [where buf = buf]) simp

lemma container_type_total [total]: "returns (container_type buf) (\<lambda>ty. True)"
  using u16.unpack_slice_in [of 6 4 buf]
  by (auto simp: container_type_def HEADER_SIZE_def split: option.splits)

lemma DataContainer_from_bytes_total [total]: "returns (DataContainer_from_bytes buf) (\<lambda>c. True)"
  by (auto simp: DataContainer_from_bytes_def HEADER_SIZE_def slice_def
      intro!: returns_mono [OF unpack_header_total])

lemma ResponseContainer_from_bytes_total [total]: "returns (ResponseContainer_from_bytes buf) (\<lambda>r. True)"
  by (auto simp: ResponseContainer_from_bytes_def HEADER_SIZE_def Let_def
      intro!: returns_mono [OF unpack_header_total] returns_mono [OF u32.unpack_items_total])

lemma EventContainer_from_bytes_total [total]: "returns (EventContainer_from_bytes buf) (\<lambda>e. True)"
proof (cases "12 \<le> length buf")
  case True
  then obtain len :: u32 and ty code tx where hdr: "unpack_header buf = Ok (unat len, ty, code, tx)"
    by (rule unpack_header_in)
  show ?thesis
    unfolding EventContainer_from_bytes_def Let_def HEADER_SIZE_def hdr bind_ok.simps prod.case
    by (intro returns_ifI returns_bindI u32.unpack_slice_total) (use True in auto)
qed (simp add: EventContainer_from_bytes_def HEADER_SIZE_def)

section \<open>Properties\<close>

text \<open>
  Containers survive the wire: data containers of fewer than 2^32 bytes and event containers are returned by their parsers as they were written, in front of any further
  bytes, and so is the wire form of a response with fewer than 2^29 parameters, provided their codes are canonical (an assigned number is not held by
  the catch-all variant); and, without any proviso, the response and data parsers accept nothing but a wire form of what they return.
\<close>

theorem containers_roundtrip:
  "(OperationCode_from (OperationCode_into (dc_code c)) = dc_code c \<longrightarrow> HEADER_SIZE + length (dc_payload c) < 2 ^ 32 \<longrightarrow>
      DataContainer_from_bytes (DataContainer_to_bytes c @ rest) = Ok c)
   \<and> (EventCode_from (EventCode_into (ec_code e)) = ec_code e \<longrightarrow>
      EventContainer_from_bytes (EventContainer_to_bytes e @ rest) = Ok e)
   \<and> (ResponseCode_from (ResponseCode_into (rc_code r)) = rc_code r \<longrightarrow> length (rc_params r) < 2 ^ 29 \<longrightarrow>
      ResponseContainer_from_bytes (response_wire r @ rest) = Ok r)
   \<and> (DataContainer_from_bytes buf = Ok c \<longrightarrow> (\<exists>junk. buf = DataContainer_to_bytes c @ junk))
   \<and> (ResponseContainer_from_bytes buf = Ok r \<longrightarrow> (\<exists>junk. buf = response_wire r @ junk))"
  using DataContainer_unpack_pack [of c rest] EventContainer_unpack_pack [of e rest] ResponseContainer_unpack_wire [of r rest]
    DataContainer_from_bytes_wire [of buf c] ResponseContainer_from_bytes_wire [of buf r] by blast

theorem containers_roundtrip_witness:
  "DataContainer_from_bytes (DataContainer_to_bytes
     \<lparr>dc_code = OperationCode.GetObject, dc_transaction_id = 9, dc_payload = [1, 2, 3]\<rparr> @ [4]) =
     Ok \<lparr>dc_code = OperationCode.GetObject, dc_transaction_id = 9, dc_payload = [1, 2, 3]\<rparr>"
proof -
  have "OperationCode_from (OperationCode_into OperationCode.GetObject) = OperationCode.GetObject"
    by (rule operationCode.dec_enc [THEN iffD2]) (simp add: OperationCode_codes_def)
  then show ?thesis
    using containers_roundtrip [of "\<lparr>dc_code = OperationCode.GetObject, dc_transaction_id = 9, dc_payload = [1, 2, 3]\<rparr>" "[4]"]
    by (simp add: HEADER_SIZE_def)
qed

end
