(* ===== verification/Transport.thy ===== *)
theory Transport
  imports Errors
begin

text \<open>
  The transport interface of \<open>transport/mod.rs\<close> and the mock of \<open>transport/mock.rs\<close>. The trait object
  \<open>dyn Transport\<close> is a record of operations over a transport state \<open>'t\<close>, so everything above it is
  stated for every transport. A call returns its outcome and the state it leaves; \<open>Dropped\<close> is the
  caller's future dropped while the operation waits. Durations are milliseconds.
\<close>

section \<open>The transport trait\<close>

text \<open>An item of a bulk stream is a chunk or the I/O error of its producer.\<close>

type_synonym chunk_result = "(bytes, IoKind \<times> string) outcome"

record 't transport_ops =
  send_bulk :: "bytes \<Rightarrow> 't \<Rightarrow> unit res \<times> 't"
  send_bulk_streaming :: "chunk_result list \<Rightarrow> 't \<Rightarrow> unit res \<times> 't"
  receive_bulk :: "usize \<Rightarrow> 't \<Rightarrow> bytes res \<times> 't"
  receive_interrupt :: "'t \<Rightarrow> bytes res \<times> 't"
  cancel_transfer :: "u32 \<Rightarrow> nat \<Rightarrow> 't \<Rightarrow> unit res \<times> 't"
  set_drain_on_cancel :: "bool \<Rightarrow> 't \<Rightarrow> 't"
  drain_bulk_in :: "nat \<Rightarrow> nat \<Rightarrow> 't \<Rightarrow> usize res \<times> 't"
  reset_device :: "'t \<Rightarrow> unit res \<times> 't"

text \<open>
  The chunks of a stream up to its first error; \<open>map_err(PtpError::Io)\<close> turns the error into one of
  this crate.
\<close>

fun collect_chunks :: "chunk_result list \<Rightarrow> bytes res" where
  "collect_chunks [] = Ok []"
| "collect_chunks (Ok chunk # rest) = map_ok (\<lambda>bs. chunk @ bs) (collect_chunks rest)"
| "collect_chunks (Err (kind, text) # rest) = Err (PtpError.Io kind text)"
| "collect_chunks (Panic # rest) = Panic"
| "collect_chunks (Dropped # rest) = Dropped"

definition default_send_bulk_streaming ::
  "(bytes \<Rightarrow> 't \<Rightarrow> unit res \<times> 't) \<Rightarrow> chunk_result list \<Rightarrow> 't \<Rightarrow> unit res \<times> 't" where
  "default_send_bulk_streaming send chunks t = seq_ok (collect_chunks chunks, t) (\<lambda>buffer t. send buffer t)"

definition default_set_drain_on_cancel :: "bool \<Rightarrow> 't \<Rightarrow> 't" where
  "default_set_drain_on_cancel enabled t = t"

definition default_drain_bulk_in :: "nat \<Rightarrow> nat \<Rightarrow> 't \<Rightarrow> usize res \<times> 't" where
  "default_drain_bulk_in idle_timeout max_duration t = (Ok 0, t)"

definition default_reset_device :: "'t \<Rightarrow> unit res \<times> 't" where
  "default_reset_device t = (Ok (), t)"

section \<open>The mock transport\<close>

record MockTransport =
  expected_sends :: "bytes list"
  queued_responses :: "bytes list"
  queued_interrupts :: "bytes list"
  actual_sends :: "bytes list"
  cancel_calls :: "u32 list"
  cancel_results :: "PtpError option list"
  responses_after_drain :: "bytes list"
  drain_calls :: nat
  block_receive :: bool
  drain_on_cancel :: bool

definition MockTransport_new :: MockTransport where
  "MockTransport_new = \<lparr>expected_sends = [], queued_responses = [], queued_interrupts = [], actual_sends = [],
     cancel_calls = [], cancel_results = [], responses_after_drain = [], drain_calls = 0,
     block_receive = False, drain_on_cancel = False\<rparr>"

definition mock_queue_response :: "bytes \<Rightarrow> MockTransport \<Rightarrow> MockTransport" where
  "mock_queue_response data m = m\<lparr>queued_responses := queued_responses m @ [data]\<rparr>"

definition mock_queue_response_after_drain :: "bytes \<Rightarrow> MockTransport \<Rightarrow> MockTransport" where
  "mock_queue_response_after_drain data m = m\<lparr>responses_after_drain := responses_after_drain m @ [data]\<rparr>"

definition mock_expect_send :: "bytes \<Rightarrow> MockTransport \<Rightarrow> MockTransport" where
  "mock_expect_send data m = m\<lparr>expected_sends := expected_sends m @ [data]\<rparr>"

definition mock_queue_interrupt :: "bytes \<Rightarrow> MockTransport \<Rightarrow> MockTransport" where
  "mock_queue_interrupt data m = m\<lparr>queued_interrupts := queued_interrupts m @ [data]\<rparr>"

text \<open>A queued cancel result is a \<open>Result<(), PtpError>\<close>: \<open>None\<close> is \<open>Ok(())\<close>.\<close>

definition mock_queue_cancel_result :: "PtpError option \<Rightarrow> MockTransport \<Rightarrow> MockTransport" where
  "mock_queue_cancel_result result m = m\<lparr>cancel_results := cancel_results m @ [result]\<rparr>"

definition mock_block_receive :: "bool \<Rightarrow> MockTransport \<Rightarrow> MockTransport" where
  "mock_block_receive b m = m\<lparr>block_receive := b\<rparr>"

text \<open>\<open>verify\<close> succeeds when nothing expected or queued is left over.\<close>

definition mock_verify :: "MockTransport \<Rightarrow> bool" where
  "mock_verify m \<longleftrightarrow>
     expected_sends m = [] \<and> queued_responses m = [] \<and> queued_interrupts m = [] \<and> cancel_results m = []"

definition mock_reset :: "MockTransport \<Rightarrow> MockTransport" where
  "mock_reset m = m\<lparr>expected_sends := [], queued_responses := [], queued_interrupts := [], actual_sends := [],
     cancel_calls := [], cancel_results := [], responses_after_drain := []\<rparr>"

definition mock_send_bulk :: "bytes \<Rightarrow> MockTransport \<Rightarrow> unit res \<times> MockTransport" where
  "mock_send_bulk data m =
     (let m = m\<lparr>actual_sends := actual_sends m @ [data]\<rparr> in
      case expected_sends m of
        [] \<Rightarrow> (Ok (), m)
      | expected_data # rest \<Rightarrow>
          let m = m\<lparr>expected_sends := rest\<rparr> in
          if data \<noteq> expected_data
          then (Err (invalid_data ''send mismatch: expected {:?}, got {:?}'' [le_nat expected_data, le_nat data]), m)
          else (Ok (), m))"

text \<open>A blocked read never resolves: the only way out is that the caller's future is dropped.\<close>

definition mock_receive_bulk :: "usize \<Rightarrow> MockTransport \<Rightarrow> bytes res \<times> MockTransport" where
  "mock_receive_bulk max_size m =
     (if block_receive m then (Dropped, m)
      else case queued_responses m of
          [] \<Rightarrow> (Err PtpError.NoDevice, m)
        | data # rest \<Rightarrow> (Ok data, m\<lparr>queued_responses := rest\<rparr>))"

definition mock_receive_interrupt :: "MockTransport \<Rightarrow> bytes res \<times> MockTransport" where
  "mock_receive_interrupt m =
     (case queued_interrupts m of
        [] \<Rightarrow> (Err PtpError.NoDevice, m)
      | data # rest \<Rightarrow> (Ok data, m\<lparr>queued_interrupts := rest\<rparr>))"

definition mock_cancel_transfer :: "u32 \<Rightarrow> nat \<Rightarrow> MockTransport \<Rightarrow> unit res \<times> MockTransport" where
  "mock_cancel_transfer tx idle_timeout m =
     (let m = m\<lparr>cancel_calls := cancel_calls m @ [tx], queued_responses := [], queued_interrupts := []\<rparr> in
      case cancel_results m of
        [] \<Rightarrow> (Ok (), m)
      | None # rest \<Rightarrow> (Ok (), m\<lparr>cancel_results := rest\<rparr>)
      | Some e # rest \<Rightarrow> (Err e, m\<lparr>cancel_results := rest\<rparr>))"

definition mock_drain_bulk_in :: "nat \<Rightarrow> nat \<Rightarrow> MockTransport \<Rightarrow> usize res \<times> MockTransport" where
  "mock_drain_bulk_in idle_timeout max_duration m =
     (let drained = sum_list (map length (queued_responses m)) in
      (Ok drained,
       m\<lparr>drain_calls := drain_calls m + 1, queued_responses := responses_after_drain m,
         responses_after_drain := []\<rparr>))"

definition mock_set_drain_on_cancel :: "bool \<Rightarrow> MockTransport \<Rightarrow> MockTransport" where
  "mock_set_drain_on_cancel enabled m = m\<lparr>drain_on_cancel := enabled\<rparr>"

definition mock_ops :: "MockTransport transport_ops" where
  "mock_ops = \<lparr>send_bulk = mock_send_bulk,
     send_bulk_streaming = default_send_bulk_streaming mock_send_bulk,
     receive_bulk = mock_receive_bulk, receive_interrupt = mock_receive_interrupt,
     cancel_transfer = mock_cancel_transfer, set_drain_on_cancel = mock_set_drain_on_cancel,
     drain_bulk_in = mock_drain_bulk_in, reset_device = default_reset_device\<rparr>"

section \<open>Recording what a transport is asked\<close>

text \<open>
  \<open>traced\<close> wraps a transport so that its state also lists the calls made on it. It changes no result, so
  a statement about the list holds of every transport.
\<close>

datatype call =
    Sent bytes
  | SentStream "chunk_result list"
  | Received
  | Interrupted
  | CancelledTx u32
  | DrainMode bool
  | Drained
  | Reset

definition traced :: "'t transport_ops \<Rightarrow> ('t \<times> call list) transport_ops" where
  "traced ops =
     \<lparr>send_bulk = (\<lambda>data (t, tr). case send_bulk ops data t of (r, t') \<Rightarrow> (r, (t', tr @ [Sent data]))),
       send_bulk_streaming =
         (\<lambda>chunks (t, tr). case send_bulk_streaming ops chunks t of (r, t') \<Rightarrow> (r, (t', tr @ [SentStream chunks]))),
       receive_bulk = (\<lambda>n (t, tr). case receive_bulk ops n t of (r, t') \<Rightarrow> (r, (t', tr @ [Received]))),
       receive_interrupt = (\<lambda>(t, tr). case receive_interrupt ops t of (r, t') \<Rightarrow> (r, (t', tr @ [Interrupted]))),
       cancel_transfer =
         (\<lambda>tx d (t, tr). case cancel_transfer ops tx d t of (r, t') \<Rightarrow> (r, (t', tr @ [CancelledTx tx]))),
       set_drain_on_cancel = (\<lambda>b (t, tr). (set_drain_on_cancel ops b t, tr @ [DrainMode b])),
       drain_bulk_in = (\<lambda>i m (t, tr). case drain_bulk_in ops i m t of (r, t') \<Rightarrow> (r, (t', tr @ [Drained]))),
       reset_device = (\<lambda>(t, tr). case reset_device ops t of (r, t') \<Rightarrow> (r, (t', tr @ [Reset])))\<rparr>"

section \<open>Contract of the bulk pipe\<close>

text \<open>
  What the session relies on: a read takes the oldest transfer waiting in the bulk IN pipe, and a
  cancel that succeeds leaves the pipe empty.
\<close>

locale bulk_pipe =
  fixes ops :: "'t transport_ops"
    and pipe :: "'t \<Rightarrow> bytes list"
    and readable :: "'t \<Rightarrow> bool"
  assumes receive_pops: "readable t \<Longrightarrow> pipe t = b # bs \<Longrightarrow>
      \<exists>t'. receive_bulk ops n t = (Ok b, t') \<and> pipe t' = bs \<and> readable t'"
    and cancel_empties: "cancel_transfer ops tx d t = (Ok (), t') \<Longrightarrow> pipe t' = []"

interpretation mock: bulk_pipe mock_ops queued_responses "\<lambda>m. \<not> block_receive m \<and> expected_sends m = []"
  by unfold_locales
    (auto simp: mock_ops_def mock_receive_bulk_def mock_cancel_transfer_def Let_def split: list.splits option.splits)

lemma mock_ops_simps [simp]:
  "send_bulk mock_ops = mock_send_bulk" "receive_bulk mock_ops = mock_receive_bulk"
  "send_bulk_streaming mock_ops = default_send_bulk_streaming mock_send_bulk"
  "receive_interrupt mock_ops = mock_receive_interrupt" "cancel_transfer mock_ops = mock_cancel_transfer"
  "set_drain_on_cancel mock_ops = mock_set_drain_on_cancel" "drain_bulk_in mock_ops = mock_drain_bulk_in"
  "reset_device mock_ops = default_reset_device"
  by (simp_all add: mock_ops_def)

lemma traced_simps [simp]:
  "send_bulk (traced ops) data (t, tr) = (case send_bulk ops data t of (r, t') \<Rightarrow> (r, (t', tr @ [Sent data])))"
  "send_bulk_streaming (traced ops) chunks (t, tr) =
     (case send_bulk_streaming ops chunks t of (r, t') \<Rightarrow> (r, (t', tr @ [SentStream chunks])))"
  "receive_bulk (traced ops) n (t, tr) = (case receive_bulk ops n t of (r, t') \<Rightarrow> (r, (t', tr @ [Received])))"
  "receive_interrupt (traced ops) (t, tr) =
     (case receive_interrupt ops t of (r, t') \<Rightarrow> (r, (t', tr @ [Interrupted])))"
  "cancel_transfer (traced ops) tx d (t, tr) =
     (case cancel_transfer ops tx d t of (r, t') \<Rightarrow> (r, (t', tr @ [CancelledTx tx])))"
  "set_drain_on_cancel (traced ops) b (t, tr) = (set_drain_on_cancel ops b t, tr @ [DrainMode b])"
  "drain_bulk_in (traced ops) i m (t, tr) = (case drain_bulk_in ops i m t of (r, t') \<Rightarrow> (r, (t', tr @ [Drained])))"
  "reset_device (traced ops) (t, tr) = (case reset_device ops t of (r, t') \<Rightarrow> (r, (t', tr @ [Reset])))"
  by (simp_all add: traced_def)

text \<open>A stream collected from chunks is their concatenation.\<close>

lemma collect_chunks_Ok: "collect_chunks (map Ok chunks) = Ok (concat chunks)"
  by (induction chunks) auto

end
