(* ===== verification/Session.thy ===== *)
theory Session
  imports Container Transport
begin

text \<open>
  The PTP session of \<open>ptp/session/mod.rs\<close>: transaction identifiers, stale replies, desync recovery and
  the three ways an operation runs. The session is a record passed through every call. The operation
  lock is held for the length of a call, or by a receiving stream; a call that finds it taken waits, and
  in a run where nobody releases it the only way on is that its future is dropped. A transaction scope
  is its destructor: \<open>scoped\<close> flags the session unless the body returned \<open>Ok\<close>, which is where the source
  disarms it.
\<close>

section \<open>Transaction identifiers\<close>

type_synonym SessionId = u32
type_synonym TransactionId = u32

definition FIRST :: TransactionId where
  "FIRST = 0x00000001"

definition SESSION_LESS :: TransactionId where
  "SESSION_LESS = 0x00000000"

definition TransactionId_next :: "TransactionId \<Rightarrow> TransactionId" where
  "TransactionId_next tx =
     (let next = tx + 1 in if next = 0 \<or> next = 0xFFFFFFFF then 0x00000001 else next)"

section \<open>Stale replies\<close>

definition RECOVERY_DRAIN_TIMEOUT :: nat where
  "RECOVERY_DRAIN_TIMEOUT = 300"

definition OPEN_DRAIN_IDLE_TIMEOUT :: nat where
  "OPEN_DRAIN_IDLE_TIMEOUT = RECOVERY_DRAIN_TIMEOUT"

definition OPEN_DRAIN_MAX_DURATION :: nat where
  "OPEN_DRAIN_MAX_DURATION = 30 * 1000"

definition MAX_STALE_REPLIES :: nat where
  "MAX_STALE_REPLIES = 4"

definition is_stale_reply :: "u32 \<Rightarrow> u32 \<Rightarrow> bool" where
  "is_stale_reply got expected \<longleftrightarrow>
     (let behind = expected - got in behind \<noteq> 0 \<and> behind < 0x80000000)"

definition may_skip_stale_reply :: "OperationCode \<Rightarrow> nat \<Rightarrow> bool" where
  "may_skip_stale_reply operation skipped \<longleftrightarrow>
     operation \<noteq> OperationCode.CloseSession \<and> skipped < MAX_STALE_REPLIES"

definition transaction_mismatch :: "u32 \<Rightarrow> u32 \<Rightarrow> PtpError" where
  "transaction_mismatch expected got =
     invalid_data ''Transaction ID mismatch: expected {expected}, got {got}'' [unat expected, unat got]"

section \<open>Session state\<close>

record RecoveryState =
  needed :: bool
  poisoned_tx_id :: u32

definition recovery_default :: RecoveryState where
  "recovery_default = \<lparr>needed = False, poisoned_tx_id = 0\<rparr>"

definition recovery_flag :: "u32 \<Rightarrow> RecoveryState \<Rightarrow> RecoveryState" where
  "recovery_flag tx r = r\<lparr>poisoned_tx_id := tx, needed := True\<rparr>"

definition recovery_take :: "RecoveryState \<Rightarrow> u32 option \<times> RecoveryState" where
  "recovery_take r =
     (if needed r then (Some (poisoned_tx_id r), r\<lparr>needed := False\<rparr>) else (None, r\<lparr>needed := False\<rparr>))"

record 't PtpSession =
  transport :: 't
  session_id :: SessionId
  transaction_id :: TransactionId
  operation_lock :: bool
  split_header_data :: bool
  recovery :: RecoveryState

definition PtpSession_new :: "'t \<Rightarrow> SessionId \<Rightarrow> 't PtpSession" where
  "PtpSession_new t sid = \<lparr>transport = t, session_id = sid, transaction_id = FIRST, operation_lock = False,
     split_header_data = False, recovery = recovery_default\<rparr>"

definition needs_recovery :: "'t PtpSession \<Rightarrow> bool" where
  "needs_recovery s \<longleftrightarrow> needed (recovery s)"

definition set_split_header_data :: "bool \<Rightarrow> 't PtpSession \<Rightarrow> 't PtpSession" where
  "set_split_header_data split s = s\<lparr>split_header_data := split\<rparr>"

definition flag_session :: "u32 \<Rightarrow> 't PtpSession \<Rightarrow> 't PtpSession" where
  "flag_session tx s = s\<lparr>recovery := recovery_flag tx (recovery s)\<rparr>"

text \<open>A call on the session's transport.\<close>

definition on_transport :: "('t \<Rightarrow> 'a \<times> 't) \<Rightarrow> 't PtpSession \<Rightarrow> 'a \<times> 't PtpSession" where
  "on_transport f s = (case f (transport s) of (r, t) \<Rightarrow> (r, s\<lparr>transport := t\<rparr>))"

text \<open>The destructor of a transaction scope.\<close>

definition scoped :: "u32 \<Rightarrow> ('t PtpSession \<Rightarrow> 'a res \<times> 't PtpSession) \<Rightarrow> 't PtpSession \<Rightarrow> 'a res \<times> 't PtpSession" where
  "scoped tx body s = (case body s of (r, s') \<Rightarrow> (r, if is_Ok r then s' else flag_session tx s'))"

definition under_lock :: "('t PtpSession \<Rightarrow> 'a res \<times> 't PtpSession) \<Rightarrow> 't PtpSession \<Rightarrow> 'a res \<times> 't PtpSession" where
  "under_lock body s =
     (if operation_lock s then (Dropped, s)
      else case body (s\<lparr>operation_lock := True\<rparr>) of (r, s') \<Rightarrow> (r, s'\<lparr>operation_lock := False\<rparr>))"

section \<open>Running operations\<close>

text \<open>
  The compare-and-exchange loop hands out the current identifier and moves the counter on; run alone it
  succeeds in its first round.
\<close>

definition next_transaction_id :: "'t PtpSession \<Rightarrow> u32 \<times> 't PtpSession" where
  "next_transaction_id s =
     (let current = transaction_id s in (current, s\<lparr>transaction_id := TransactionId_next current\<rparr>))"

definition recover_if_needed :: "'t transport_ops \<Rightarrow> 't PtpSession \<Rightarrow> unit res \<times> 't PtpSession" where
  "recover_if_needed ops s =
     (case recovery_take (recovery s) of
        (None, r) \<Rightarrow> (Ok (), s\<lparr>recovery := r\<rparr>)
      | (Some tx, r) \<Rightarrow>
          (case on_transport (cancel_transfer ops tx RECOVERY_DRAIN_TIMEOUT) (s\<lparr>recovery := r\<rparr>) of
             (Err e, s') \<Rightarrow> (Err e, flag_session tx s')
           | (r, s') \<Rightarrow> (r, s')))"

function receive_response ::
  "'t transport_ops \<Rightarrow> u32 \<Rightarrow> OperationCode \<Rightarrow> nat \<Rightarrow> 't PtpSession \<Rightarrow> ResponseContainer res \<times> 't PtpSession" where
  "receive_response ops tx_id operation skipped s =
     seq_ok (on_transport (receive_bulk ops 512) s) (\<lambda>response_bytes s.
     seq_ok (ResponseContainer_from_bytes response_bytes, s) (\<lambda>response s.
       if rc_transaction_id response = tx_id then (Ok response, s)
       else if \<not> (is_stale_reply (rc_transaction_id response) tx_id \<and> may_skip_stale_reply operation skipped)
       then (Err (transaction_mismatch tx_id (rc_transaction_id response)), s)
       else receive_response ops tx_id operation (skipped + 1) s))"
  by pat_completeness auto
termination
  by (relation "measure (\<lambda>(ops, tx_id, operation, skipped, s). MAX_STALE_REPLIES - skipped)")
    (auto simp: may_skip_stale_reply_def)

definition command :: "OperationCode \<Rightarrow> u32 \<Rightarrow> u32 list \<Rightarrow> bytes" where
  "command operation tx ps =
     CommandContainer_to_bytes \<lparr>cc_code = operation, cc_transaction_id = tx, cc_params = ps\<rparr>"

text \<open>The opening every operation shares: lock, recover, take an identifier, arm the scope.\<close>

definition transaction ::
  "'t transport_ops \<Rightarrow> (u32 \<Rightarrow> 't PtpSession \<Rightarrow> 'a res \<times> 't PtpSession) \<Rightarrow> 't PtpSession \<Rightarrow> 'a res \<times> 't PtpSession" where
  "transaction ops body =
     under_lock (\<lambda>s. seq_ok (recover_if_needed ops s) (\<lambda>_ s.
       let (tx_id, s) = next_transaction_id s in scoped tx_id (body tx_id) s))"

definition execute ::
  "'t transport_ops \<Rightarrow> OperationCode \<Rightarrow> u32 list \<Rightarrow> 't PtpSession \<Rightarrow> ResponseContainer res \<times> 't PtpSession" where
  "execute ops operation ps = transaction ops (\<lambda>tx_id s.
     seq_ok (on_transport (send_bulk ops (command operation tx_id ps)) s) (\<lambda>_ s.
       receive_response ops tx_id operation 0 s))"

text \<open>The data phase of \<open>execute_with_send\<close>.\<close>

definition send_data :: "'t transport_ops \<Rightarrow> OperationCode \<Rightarrow> u32 \<Rightarrow> bytes \<Rightarrow> 't PtpSession \<Rightarrow> unit res \<times> 't PtpSession" where
  "send_data ops operation tx_id data s =
     (if split_header_data s
      then
        let header = pack_header (HEADER_SIZE + length data) ContainerType.Data (OperationCode_into operation) tx_id in
        seq_ok (on_transport (send_bulk ops header) s) (\<lambda>_ s.
          if data \<noteq> [] then on_transport (send_bulk ops data) s else (Ok (), s))
      else
        on_transport (send_bulk ops (DataContainer_to_bytes
          \<lparr>dc_code = operation, dc_transaction_id = tx_id, dc_payload = data\<rparr>)) s)"

definition execute_with_send ::
  "'t transport_ops \<Rightarrow> OperationCode \<Rightarrow> u32 list \<Rightarrow> bytes \<Rightarrow> 't PtpSession \<Rightarrow> ResponseContainer res \<times> 't PtpSession" where
  "execute_with_send ops operation ps data = transaction ops (\<lambda>tx_id s.
     seq_ok (on_transport (send_bulk ops (command operation tx_id ps)) s) (\<lambda>_ s.
     seq_ok (send_data ops operation tx_id data s) (\<lambda>_ s.
       receive_response ops tx_id operation 0 s)))"

text \<open>The inner loop that completes a data container spread over several transfers.\<close>

function complete_container :: "'t transport_ops \<Rightarrow> nat \<Rightarrow> bytes \<Rightarrow> 't \<Rightarrow> bytes res \<times> 't" where
  "complete_container ops total_length bs t =
     (if length bs < total_length
      then seq_ok (receive_bulk ops (64 * 1024) t) (\<lambda>more t.
        if more = []
        then (Err (invalid_data ''Incomplete data container: device stopped sending'' []), t)
        else complete_container ops total_length (bs @ more) t)
      else (Ok bs, t))"
  by pat_completeness auto
termination
  by (relation "measure (\<lambda>(ops, total_length, bs, t). total_length - length bs)") (auto simp: diff_less_mono2)

definition whole_container :: "'t transport_ops \<Rightarrow> bytes \<Rightarrow> 't \<Rightarrow> bytes res \<times> 't" where
  "whole_container ops bs t =
     (if 4 \<le> length bs
      then seq_ok (unpack_slice unpack_u32 bs 0 4, t) (\<lambda>total_length t.
        complete_container ops (unat total_length) bs t)
      else (Ok bs, t))"

text \<open>
  The loop over containers. A device that keeps sending data containers keeps it running, so it may not
  return.
\<close>

partial_function (option) receive_loop ::
  "'t transport_ops \<Rightarrow> OperationCode \<Rightarrow> u32 \<Rightarrow> bytes \<Rightarrow> nat \<Rightarrow> 't PtpSession \<Rightarrow>
     ((ResponseContainer \<times> bytes) res \<times> 't PtpSession) option" where
  "receive_loop ops operation tx_id data skipped s =
     seq_opt (on_transport (receive_bulk ops (64 * 1024)) s) (\<lambda>bs s.
     if bs = [] then Some (Err (invalid_data ''Empty response'' []), s)
     else seq_opt (container_type bs, s) (\<lambda>ct s.
     if ct = ContainerType.Data
     then
       seq_opt (on_transport (whole_container ops bs) s) (\<lambda>bs s.
       seq_opt (DataContainer_from_bytes bs, s) (\<lambda>container s.
         receive_loop ops operation tx_id (data @ dc_payload container) skipped s))
     else if ct = ContainerType.Response
     then
       seq_opt (ResponseContainer_from_bytes bs, s) (\<lambda>response s.
         if rc_transaction_id response \<noteq> tx_id
         then
           if data = [] \<and> is_stale_reply (rc_transaction_id response) tx_id \<and> may_skip_stale_reply operation skipped
           then receive_loop ops operation tx_id data (skipped + 1) s
           else Some (Err (transaction_mismatch tx_id (rc_transaction_id response)), s)
         else Some (Ok (response, data), s))
     else Some (Err (invalid_data ''Unexpected container type: {:?}'' [unat (ContainerType_to_code ct)]), s)))"

text \<open>The scope, the lock and the opening around a body that may not return.\<close>

definition scoped_opt ::
  "u32 \<Rightarrow> ('t PtpSession \<Rightarrow> ('a res \<times> 't PtpSession) option) \<Rightarrow> 't PtpSession \<Rightarrow> ('a res \<times> 't PtpSession) option" where
  "scoped_opt tx body s = map_option (\<lambda>(r, s'). (r, if is_Ok r then s' else flag_session tx s')) (body s)"

definition under_lock_opt ::
  "('t PtpSession \<Rightarrow> ('a res \<times> 't PtpSession) option) \<Rightarrow> 't PtpSession \<Rightarrow> ('a res \<times> 't PtpSession) option" where
  "under_lock_opt body s =
     (if operation_lock s then Some (Dropped, s)
      else map_option (\<lambda>(r, s'). (r, s'\<lparr>operation_lock := False\<rparr>)) (body (s\<lparr>operation_lock := True\<rparr>)))"

definition transaction_opt ::
  "'t transport_ops \<Rightarrow> (u32 \<Rightarrow> 't PtpSession \<Rightarrow> ('a res \<times> 't PtpSession) option) \<Rightarrow>
     't PtpSession \<Rightarrow> ('a res \<times> 't PtpSession) option" where
  "transaction_opt ops body =
     under_lock_opt (\<lambda>s. seq_opt (recover_if_needed ops s) (\<lambda>_ s.
       let (tx_id, s) = next_transaction_id s in scoped_opt tx_id (body tx_id) s))"

definition execute_with_receive ::
  "'t transport_ops \<Rightarrow> OperationCode \<Rightarrow> u32 list \<Rightarrow> 't PtpSession \<Rightarrow>
     ((ResponseContainer \<times> bytes) res \<times> 't PtpSession) option" where
  "execute_with_receive ops operation ps = transaction_opt ops (\<lambda>tx_id s.
     seq_opt (on_transport (send_bulk ops (command operation tx_id ps)) s) (\<lambda>_ s.
       receive_loop ops operation tx_id [] 0 s))"

definition check_response :: "ResponseContainer \<Rightarrow> OperationCode \<Rightarrow> unit res" where
  "check_response response operation =
     (if rc_code response = ResponseCode.OK then Ok ()
      else Err (PtpError.Protocol (rc_code response) operation))"

section \<open>Opening and closing\<close>

definition send_open_session_once :: "'t transport_ops \<Rightarrow> u32 \<Rightarrow> 't \<Rightarrow> ResponseContainer res \<times> 't" where
  "send_open_session_once ops sid t =
     seq_ok (send_bulk ops (command OperationCode.OpenSession SESSION_LESS [sid]) t) (\<lambda>_ t.
     seq_ok (receive_bulk ops 512 t) (\<lambda>response_bytes t.
       (ResponseContainer_from_bytes response_bytes, t)))"

definition send_open_session :: "'t transport_ops \<Rightarrow> u32 \<Rightarrow> 't \<Rightarrow> ResponseContainer res \<times> 't" where
  "send_open_session ops sid t =
     (case send_open_session_once ops sid t of
        (Err (PtpError.InvalidData message), t) \<Rightarrow>
          seq_ok (drain_bulk_in ops OPEN_DRAIN_IDLE_TIMEOUT OPEN_DRAIN_MAX_DURATION t) (\<lambda>drained t.
            send_open_session_once ops sid t)
      | other \<Rightarrow> other)"

text \<open>\<open>Arc\<close> keeps the transport alive when opening fails, so its state is returned in every case.\<close>

definition open_with_reuse :: "'t transport_ops \<Rightarrow> u32 \<Rightarrow> bool \<Rightarrow> 't \<Rightarrow> 't PtpSession res \<times> 't" where
  "open_with_reuse ops sid reuse_existing t =
     seq_ok (send_open_session ops sid t) (\<lambda>response t.
       let session = PtpSession_new t sid in
       if rc_code response = ResponseCode.OK then (Ok session, t)
       else if rc_code response = ResponseCode.SessionAlreadyOpen
       then
         if reuse_existing then (Ok session, t)
         else
           (case execute ops OperationCode.CloseSession [] session of
              (Dropped, s) \<Rightarrow> (Dropped, transport s)
            | (Panic, s) \<Rightarrow> (Panic, transport s)
            | (_, s) \<Rightarrow>
                seq_ok (send_open_session ops sid (transport s)) (\<lambda>retry_response t.
                  if rc_code retry_response \<noteq> ResponseCode.OK
                  then (Err (PtpError.Protocol (rc_code retry_response) OperationCode.OpenSession), t)
                  else (Ok (PtpSession_new t sid), t)))
       else (Err (PtpError.Protocol (rc_code response) OperationCode.OpenSession), t))"

definition session_open :: "'t transport_ops \<Rightarrow> u32 \<Rightarrow> 't \<Rightarrow> 't PtpSession res \<times> 't" where
  "session_open ops sid t = open_with_reuse ops sid False t"

definition open_reusing_existing :: "'t transport_ops \<Rightarrow> u32 \<Rightarrow> 't \<Rightarrow> 't PtpSession res \<times> 't" where
  "open_reusing_existing ops sid t = open_with_reuse ops sid True t"

text \<open>An error of the closing operation is ignored; only a drop or a panic stops it.\<close>

definition session_close :: "'t transport_ops \<Rightarrow> 't PtpSession \<Rightarrow> unit res \<times> 't PtpSession" where
  "session_close ops s =
     (case execute ops OperationCode.CloseSession [] s of
        (Dropped, s) \<Rightarrow> (Dropped, s)
      | (Panic, s) \<Rightarrow> (Panic, s)
      | (_, s) \<Rightarrow> (Ok (), s))"

section \<open>Transaction identifiers\<close>

definition valid_tx :: "u32 \<Rightarrow> bool" where
  "valid_tx tx \<longleftrightarrow> tx \<noteq> 0 \<and> tx \<noteq> 0xFFFFFFFF"

lemma valid_tx_next [simp]: "valid_tx (TransactionId_next tx)"
  by (simp add: valid_tx_def TransactionId_next_def Let_def)

lemma unat_next:
  "valid_tx tx \<Longrightarrow> unat (TransactionId_next tx) = (if unat tx = 0xFFFFFFFE then 1 else unat tx + 1)"
proof -
  assume valid: "valid_tx tx"
  have less: "unat tx < 2 ^ 32" using unat_less [of tx] by simp
  have "unat tx \<noteq> 0xFFFFFFFF" using valid by (auto simp: valid_tx_def word_unat_eq_iff)
  with less have suc: "unat (tx + 1) = unat tx + 1"
    by (simp add: unat_word_ariths)
  have "tx + 1 = 0xFFFFFFFF \<longleftrightarrow> unat tx = 0xFFFFFFFE" by (simp add: word_unat_eq_iff suc)
  moreover have "tx + 1 \<noteq> 0" using suc by auto
  ultimately show ?thesis by (simp add: TransactionId_next_def Let_def suc)
qed

text \<open>The identifier of the \<open>n\<close>-th transaction of a session, counted from zero.\<close>

definition tx_of :: "nat \<Rightarrow> u32" where
  "tx_of n = (TransactionId_next ^^ n) FIRST"

lemma valid_tx_of [simp]: "valid_tx (tx_of n)"
  by (cases n) (simp_all add: tx_of_def valid_tx_def FIRST_def valid_tx_next [unfolded valid_tx_def])

lemma unat_tx_of: "unat (tx_of n) = 1 + n mod 4294967294"
proof (induction n)
  case 0
  then show ?case by (simp add: tx_of_def FIRST_def)
next
  case (Suc n)
  have "tx_of (Suc n) = TransactionId_next (tx_of n)" by (simp add: tx_of_def)
  then have "unat (tx_of (Suc n)) = (if unat (tx_of n) = 0xFFFFFFFE then 1 else unat (tx_of n) + 1)"
    by (simp add: unat_next)
  then show ?case unfolding Suc.IH by (simp add: mod_Suc)
qed

lemma tx_of_distance:
  assumes "k < 4294967294"
  shows "unat (tx_of (n + k) - tx_of n) =
    (if n mod 4294967294 + k < 4294967294 then k else k + 2)"
proof -
  let ?M = "4294967294 :: nat"
  define a where "a = n mod ?M"
  have a: "a < ?M" by (simp add: a_def)
  have u: "unat (tx_of n) = 1 + a" by (simp add: unat_tx_of a_def)
  have nk: "(n + k) mod ?M = (a + k) mod ?M" by (simp add: a_def mod_add_left_eq)
  show ?thesis
  proof (cases "a + k < ?M")
    case True
    then have v: "unat (tx_of (n + k)) = 1 + a + k" using nk by (simp add: unat_tx_of)
    then have "tx_of n \<le> tx_of (n + k)" by (simp add: word_le_nat_alt u)
    then have "unat (tx_of (n + k) - tx_of n) = k" by (simp add: unat_sub u v)
    with True show ?thesis by (simp add: a_def)
  next
    case False
    then have "(a + k) mod ?M = a + k - ?M" using a assms by (simp add: mod_if)
    then have v: "unat (tx_of (n + k)) = 1 + (a + k - ?M)" using nk by (simp add: unat_tx_of)
    have "\<not> unat (tx_of n) \<le> unat (tx_of (n + k))" using False a assms by (simp add: u v)
    then have "unat (tx_of (n + k) - tx_of n) = unat (tx_of (n + k)) + 2 ^ 32 - unat (tx_of n)"
      by (simp add: unat_sub_if')
    also have "\<dots> = k + 2" using False a assms by (simp add: u v)
    finally show ?thesis using False by (simp add: a_def)
  qed
qed

text \<open>
  A reply to one of the last two billion transactions is recognised as late, across the wrap of the
  counter too, and a reply to a later transaction never is.
\<close>

lemma is_stale_reply_iff: "is_stale_reply got expected \<longleftrightarrow> 0 < unat (expected - got) \<and> unat (expected - got) < 2 ^ 31"
  by (auto simp: is_stale_reply_def Let_def word_less_nat_alt unat_gt_0)

lemma stale_earlier:
  assumes "0 < k" "k \<le> 2147483645"
  shows "is_stale_reply (tx_of n) (tx_of (n + k))"
  using assms tx_of_distance [of k n] by (simp add: is_stale_reply_iff)

lemma stale_asym: "is_stale_reply got expected \<Longrightarrow> \<not> is_stale_reply expected got"
proof
  assume "is_stale_reply got expected" "is_stale_reply expected got"
  then have lt: "0 < unat (expected - got)" "unat (expected - got) < 2 ^ 31" "unat (got - expected) < 2 ^ 31"
    by (auto simp: is_stale_reply_iff)
  have "got - expected = 0 - (expected - got)" by simp
  moreover have "unat (0 - (expected - got)) = 2 ^ 32 - unat (expected - got)"
    using lt(1) by (subst unat_sub_if') simp
  ultimately show False using lt by simp
qed

declare receive_response.simps [simp del] and complete_container.simps [simp del]

section \<open>What a call leaves alone\<close>

text \<open>Calls on the transport change nothing else of the session.\<close>

definition same_but_transport :: "'t PtpSession \<Rightarrow> 't PtpSession \<Rightarrow> bool" where
  "same_but_transport s s' \<longleftrightarrow> s' = s\<lparr>transport := transport s'\<rparr>"

lemma same_but_transport_refl [simp]: "same_but_transport s s"
  by (simp add: same_but_transport_def)

lemma same_but_transport_trans:
  "same_but_transport a b \<Longrightarrow> same_but_transport b c \<Longrightarrow> same_but_transport a c"
  unfolding same_but_transport_def by (metis PtpSession.surjective PtpSession.update_convs(1))

lemma same_but_transport_fields:
  assumes "same_but_transport s s'"
  shows "session_id s' = session_id s" "transaction_id s' = transaction_id s" "operation_lock s' = operation_lock s"
    "split_header_data s' = split_header_data s" "recovery s' = recovery s"
proof -
  have "s' = s\<lparr>transport := transport s'\<rparr>" using assms by (simp add: same_but_transport_def)
  then obtain t where "s' = s\<lparr>transport := t\<rparr>" by blast
  then show "session_id s' = session_id s" "transaction_id s' = transaction_id s" "operation_lock s' = operation_lock s"
    "split_header_data s' = split_header_data s" "recovery s' = recovery s" by simp_all
qed

lemma same_on_transport: "on_transport f s = (r, s') \<Longrightarrow> same_but_transport s s'"
  by (auto simp: on_transport_def same_but_transport_def split: prod.splits)

lemma same_seq_ok:
  assumes "seq_ok m k = (r, s')" "\<And>r' s1. m = (r', s1) \<Longrightarrow> same_but_transport s s1"
    "\<And>x s1. m = (Ok x, s1) \<Longrightarrow> k x s1 = (r, s') \<Longrightarrow> same_but_transport s1 s'"
  shows "same_but_transport s s'"
proof (cases m)
  case (Pair r1 s1)
  with assms show ?thesis by (cases r1) (auto intro: same_but_transport_trans)
qed

lemma same_receive_response:
  "receive_response ops tx operation skipped s = (r, s') \<Longrightarrow> same_but_transport s s'"
proof (induction ops tx operation skipped s arbitrary: r s' rule: receive_response.induct)
  case (1 ops tx operation skipped s)
  from "1.prems" show ?case
    unfolding receive_response.simps [of ops tx operation skipped s]
    by (elim same_seq_ok) (auto intro: same_on_transport "1.IH" split: if_splits)
qed

lemma receive_response_tx:
  "receive_response ops tx operation skipped s = (Ok response, s') \<Longrightarrow> rc_transaction_id response = tx"
proof (induction ops tx operation skipped s arbitrary: s' rule: receive_response.induct)
  case (1 ops tx operation skipped s)
  from "1.prems" show ?case
    unfolding receive_response.simps [of ops tx operation skipped s]
    by (auto simp: seq_ok_Ok split: if_splits dest: "1.IH")
qed

section \<open>Recovery and the transaction bracket\<close>

lemma recover_idle: "\<not> needs_recovery s \<Longrightarrow> recover_if_needed ops s = (Ok (), s)"
  by (simp add: recover_if_needed_def recovery_take_def needs_recovery_def)

text \<open>A pending recovery is exactly one cancel of the poisoned transaction.\<close>

lemma recover_pending:
  assumes "needs_recovery s"
  shows "recover_if_needed ops s =
    (case cancel_transfer ops (poisoned_tx_id (recovery s)) 300 (transport s) of
       (r, t) \<Rightarrow> (r, s\<lparr>transport := t, recovery := (recovery s)\<lparr>needed := (\<exists>e. r = Err e)\<rparr>\<rparr>))"
proof -
  obtain r t where c: "cancel_transfer ops (poisoned_tx_id (recovery s)) 300 (transport s) = (r, t)"
    by (cases "cancel_transfer ops (poisoned_tx_id (recovery s)) 300 (transport s)")
  with assms show ?thesis
    by (cases r) (simp_all add: recover_if_needed_def recovery_take_def needs_recovery_def on_transport_def
        RECOVERY_DRAIN_TIMEOUT_def flag_session_def recovery_flag_def)
qed

lemma recover_fields:
  assumes "recover_if_needed ops s = (r, s')"
  shows "transaction_id s' = transaction_id s" "operation_lock s' = operation_lock s"
    "session_id s' = session_id s" "split_header_data s' = split_header_data s"
    "is_Ok r \<Longrightarrow> \<not> needs_recovery s'"
    "r = Err e \<Longrightarrow> needs_recovery s' \<and> poisoned_tx_id (recovery s') = poisoned_tx_id (recovery s)"
    "\<not> is_Ok r \<Longrightarrow> needs_recovery s"
  using assms
  by (cases "needs_recovery s"; auto simp: recover_idle recover_pending needs_recovery_def split: prod.splits)+

lemma transaction_opt_total: "transaction_opt ops (\<lambda>tx s. Some (body tx s)) s = Some (transaction ops body s)"
proof -
  have "scoped_opt tx (\<lambda>s. Some (body tx s)) s1 = Some (scoped tx (body tx) s1)" for tx s1
    by (simp add: scoped_opt_def scoped_def split: prod.splits)
  then show ?thesis
    by (simp add: transaction_opt_def transaction_def under_lock_opt_def under_lock_def Let_def
        split_beta seq_opt_Some)
qed

text \<open>
  An unlocked transaction either fails to recover, and then its body never runs, or runs its body with
  the next identifier and flags the session unless the body succeeds.
\<close>

lemma transaction_cases:
  assumes "transaction_opt ops body s = Some (r, s')"
  obtains (locked) "operation_lock s" "r = Dropped" "s' = s"
  | (unrecovered) r0 s1 where "\<not> operation_lock s" "recover_if_needed ops (s\<lparr>operation_lock := True\<rparr>) = (r0, s1)"
      "\<not> is_Ok r0" "\<not> is_Ok r" "\<And>e. r = Err e \<longleftrightarrow> r0 = Err e" "s' = s1\<lparr>operation_lock := False\<rparr>"
  | (ran) s1 s2 where "\<not> operation_lock s" "recover_if_needed ops (s\<lparr>operation_lock := True\<rparr>) = (Ok (), s1)"
      "body (transaction_id s) (s1\<lparr>transaction_id := TransactionId_next (transaction_id s)\<rparr>) = Some (r, s2)"
      "s' = (if is_Ok r then s2 else flag_session (transaction_id s) s2)\<lparr>operation_lock := False\<rparr>"
proof (cases "operation_lock s")
  case True
  with assms show thesis by (intro locked) (simp_all add: transaction_opt_def under_lock_opt_def)
next
  case False
  obtain r0 s1 where rec: "recover_if_needed ops (s\<lparr>operation_lock := True\<rparr>) = (r0, s1)"
    by (cases "recover_if_needed ops (s\<lparr>operation_lock := True\<rparr>)")
  have tx: "transaction_id s1 = transaction_id s" using recover_fields(1) [OF rec] by simp
  show thesis
  proof (cases "r0 = Ok ()")
    case True
    with assms False rec tx obtain s2
      where "body (transaction_id s) (s1\<lparr>transaction_id := TransactionId_next (transaction_id s)\<rparr>) = Some (r, s2)"
        "s' = (if is_Ok r then s2 else flag_session (transaction_id s) s2)\<lparr>operation_lock := False\<rparr>"
      by (auto simp: transaction_opt_def under_lock_opt_def next_transaction_id_def Let_def scoped_opt_def)
    with False rec True show thesis by (intro ran [of s1 s2]) simp_all
  next
    case fail: False
    have "r = (case r0 of Err e \<Rightarrow> Err e | Panic \<Rightarrow> Panic | _ \<Rightarrow> Dropped)" "s' = s1\<lparr>operation_lock := False\<rparr>"
      using assms False rec fail by (cases r0; auto simp: transaction_opt_def under_lock_opt_def)+
    with False rec fail show thesis by (intro unrecovered [of r0 s1]) (cases r0; auto)+
  qed
qed

text \<open>A body that only talks to the transport.\<close>

definition transport_body ::
  "(u32 \<Rightarrow> 't PtpSession \<Rightarrow> ('a res \<times> 't PtpSession) option) \<Rightarrow> bool" where
  "transport_body body \<longleftrightarrow> (\<forall>tx s r s'. body tx s = Some (r, s') \<longrightarrow> same_but_transport s s')"

lemma transaction_Ok:
  assumes "transport_body body" "transaction_opt ops body s = Some (Ok x, s')"
  shows "\<not> operation_lock s \<and> \<not> operation_lock s' \<and> \<not> needs_recovery s'
    \<and> transaction_id s' = TransactionId_next (transaction_id s)"
  using assms(2)
proof (cases rule: transaction_cases)
  case (ran s1 s2)
  have same: "same_but_transport (s1\<lparr>transaction_id := TransactionId_next (transaction_id s)\<rparr>) s2"
    using assms(1) ran(3) by (auto simp: transport_body_def)
  show ?thesis
    using ran same_but_transport_fields [OF same] recover_fields [OF ran(2)] by (simp add: needs_recovery_def)
qed simp_all

text \<open>Once an identifier is taken, every way of failing flags the session with it.\<close>

lemma transaction_failed:
  assumes "transport_body body" "transaction_opt ops body s = Some (r, s')" "\<not> is_Ok r"
  shows "operation_lock s' = operation_lock s"
    and "transaction_id s' \<noteq> transaction_id s \<Longrightarrow> needs_recovery s' \<and> poisoned_tx_id (recovery s') = transaction_id s"
    and "transaction_id s' = transaction_id s \<Longrightarrow> \<not> operation_lock s \<Longrightarrow> r = Err e \<Longrightarrow>
      needs_recovery s' \<and> poisoned_tx_id (recovery s') = poisoned_tx_id (recovery s)"
proof -
  have next_neq: "TransactionId_next x \<noteq> x" for x by (auto simp: TransactionId_next_def Let_def)
  from assms(2) show "operation_lock s' = operation_lock s"
  proof (cases rule: transaction_cases)
    case (ran s1 s2)
    then show ?thesis by (simp add: flag_session_def)
  qed simp_all
  from assms(2) show "transaction_id s' \<noteq> transaction_id s \<Longrightarrow> needs_recovery s' \<and> poisoned_tx_id (recovery s') = transaction_id s"
  proof (cases rule: transaction_cases)
    case (unrecovered r0 s1)
    assume "transaction_id s' \<noteq> transaction_id s"
    with unrecovered recover_fields(1) [OF unrecovered(2)] show ?thesis by simp
  next
    case (ran s1 s2)
    with assms(3) show ?thesis by (simp add: flag_session_def recovery_flag_def needs_recovery_def)
  qed simp
  from assms(2) show "transaction_id s' = transaction_id s \<Longrightarrow> \<not> operation_lock s \<Longrightarrow> r = Err e \<Longrightarrow>
      needs_recovery s' \<and> poisoned_tx_id (recovery s') = poisoned_tx_id (recovery s)"
  proof (cases rule: transaction_cases)
    case (unrecovered r0 s1)
    assume "r = Err e"
    with unrecovered(5) [of e] have "r0 = Err e" by simp
    with unrecovered recover_fields(6) [OF unrecovered(2)] show ?thesis by (simp add: needs_recovery_def)
  next
    case (ran s1 s2)
    have same: "same_but_transport (s1\<lparr>transaction_id := TransactionId_next (transaction_id s)\<rparr>) s2"
      using assms(1) ran(3) by (auto simp: transport_body_def)
    assume "transaction_id s' = transaction_id s"
    with ran same_but_transport_fields [OF same] next_neq show ?thesis
      by (simp add: flag_session_def split: if_splits)
  qed simp
qed

lemma transport_bodyI:
  "(\<And>tx s r s'. body tx s = (r, s') \<Longrightarrow> same_but_transport s s') \<Longrightarrow> transport_body (\<lambda>tx s. Some (body tx s))"
  by (simp add: transport_body_def)

lemma execute_opt:
  "Some (execute ops operation ps s) = transaction_opt ops (\<lambda>tx s. Some (
     seq_ok (on_transport (send_bulk ops (command operation tx ps)) s) (\<lambda>_ s.
       receive_response ops tx operation 0 s))) s"
  by (simp add: execute_def transaction_opt_total)

lemma execute_body:
  "transport_body (\<lambda>tx s. Some (seq_ok (on_transport (send_bulk ops (command operation tx ps)) s)
     (\<lambda>_ s. receive_response ops tx operation 0 s)))"
  by (rule transport_bodyI) (erule same_seq_ok; auto intro: same_on_transport same_receive_response)

lemma same_send_data: "send_data ops operation tx data s = (r, s') \<Longrightarrow> same_but_transport s s'"
  by (auto simp: send_data_def Let_def intro: same_on_transport elim!: same_seq_ok split: if_splits)

lemma execute_with_send_opt:
  "Some (execute_with_send ops operation ps data s) = transaction_opt ops (\<lambda>tx s. Some (
     seq_ok (on_transport (send_bulk ops (command operation tx ps)) s) (\<lambda>_ s.
     seq_ok (send_data ops operation tx data s) (\<lambda>_ s.
       receive_response ops tx operation 0 s)))) s"
  by (simp add: execute_with_send_def transaction_opt_total)

lemma execute_with_send_body:
  "transport_body (\<lambda>tx s. Some (seq_ok (on_transport (send_bulk ops (command operation tx ps)) s)
     (\<lambda>_ s. seq_ok (send_data ops operation tx data s) (\<lambda>_ s. receive_response ops tx operation 0 s))))"
  by (rule transport_bodyI)
    (erule same_seq_ok; (auto intro: same_on_transport same_receive_response same_send_data elim!: same_seq_ok)?)

lemma same_seq_opt:
  assumes "seq_opt m k = Some (r, s')" "\<And>r' s1. m = (r', s1) \<Longrightarrow> same_but_transport s s1"
    "\<And>x s1. m = (Ok x, s1) \<Longrightarrow> k x s1 = Some (r, s') \<Longrightarrow> same_but_transport s1 s'"
  shows "same_but_transport s s'"
proof (cases m)
  case (Pair r1 s1)
  with assms show ?thesis by (cases r1) (auto intro: same_but_transport_trans)
qed

text \<open>What every returning run of the receive loop guarantees.\<close>

definition loop_post :: "u32 \<Rightarrow> bytes \<Rightarrow> 't PtpSession \<Rightarrow> (ResponseContainer \<times> bytes) res \<times> 't PtpSession \<Rightarrow> bool" where
  "loop_post tx data s y \<longleftrightarrow>
     same_but_transport s (snd y) \<and>
     (case fst y of Ok (response, payload) \<Rightarrow> rc_transaction_id response = tx \<and> take (length data) payload = data
      | _ \<Rightarrow> True)"

lemma loop_post_seq_opt:
  assumes "seq_opt m k = Some y" "\<And>r' s1. m = (r', s1) \<Longrightarrow> same_but_transport s s1"
    "\<And>x s1. m = (Ok x, s1) \<Longrightarrow> k x s1 = Some y \<Longrightarrow> loop_post tx data s1 y"
  shows "loop_post tx data s y"
proof (cases m)
  case (Pair r1 s1)
  with assms show ?thesis
    by (cases r1) (auto simp: loop_post_def intro: same_but_transport_trans)
qed

lemma loop_post_more: "loop_post tx (data @ rest) s y \<Longrightarrow> loop_post tx data s y"
proof -
  have "take (length (data @ rest)) p = data @ rest \<Longrightarrow> take (length data) p = data" for p :: bytes
    by (metis append_eq_conv_conj append_take_drop_id append.assoc)
  then show "loop_post tx (data @ rest) s y \<Longrightarrow> loop_post tx data s y"
    by (auto simp: loop_post_def split: outcome.splits prod.splits simp del: length_append)
qed

lemma receive_loop_post:
  "receive_loop ops operation tx data skipped s = Some y \<Longrightarrow> loop_post tx data s y"
proof (erule receive_loop.raw_induct [rotated], goal_cases)
  case (1 loop ops operation tx data skipped s y)
  from 1(2) show ?case
    by (elim loop_post_seq_opt)
      (auto split: if_splits elim!: loop_post_seq_opt intro: same_on_transport simp: loop_post_def [of _ _ _ "(_, _)"],
        (erule same_on_transport | erule loop_post_more [OF 1(1)] | erule 1(1))+)
qed

lemma execute_with_receive_body:
  "transport_body (\<lambda>tx s. seq_opt (on_transport (send_bulk ops (command operation tx ps)) s)
     (\<lambda>_ s. receive_loop ops operation tx [] 0 s))"
  by (auto simp: transport_body_def elim!: same_seq_opt intro: same_on_transport dest!: receive_loop_post simp: loop_post_def)

section \<open>Reading from the bulk pipe\<close>

text \<open>Responses and data containers as they cross the wire.\<close>

definition response_ok :: "ResponseContainer \<Rightarrow> bool" where
  "response_ok r \<longleftrightarrow>
     ResponseCode_from (ResponseCode_into (rc_code r)) = rc_code r \<and> length (rc_params r) < 2 ^ 29"

text \<open>The transfers a data container arrives in: the first holds the header, none is empty.\<close>

definition transfers_of :: "DataContainer \<Rightarrow> bytes list \<Rightarrow> bool" where
  "transfers_of c chunks \<longleftrightarrow>
     concat chunks = DataContainer_to_bytes c \<and> chunks \<noteq> [] \<and> HEADER_SIZE \<le> length (hd chunks)
     \<and> [] \<notin> set chunks \<and> OperationCode_from (OperationCode_into (dc_code c)) = dc_code c
     \<and> HEADER_SIZE + length (dc_payload c) < 2 ^ 32"

lemma transfers_first:
  assumes "transfers_of c (b # bs)"
  shows "container_type b = Ok ContainerType.Data" "b \<noteq> []"
    "unpack_slice unpack_u32 b 0 4 = Ok (word_of_nat (HEADER_SIZE + length (dc_payload c)))"
    "4 \<le> length b" "[] \<notin> set bs" "b @ concat bs = DataContainer_to_bytes c"
proof -
  let ?h = "pack_header (HEADER_SIZE + length (dc_payload c)) ContainerType.Data
    (OperationCode_into (dc_code c)) (dc_transaction_id c)"
  from assms show len: "4 \<le> length b" and "b \<noteq> []" "[] \<notin> set bs"
    and whole: "b @ concat bs = DataContainer_to_bytes c"
    by (auto simp: transfers_of_def HEADER_SIZE_def)
  have "b @ concat bs = ?h @ dc_payload c"
    by (simp add: whole DataContainer_to_bytes_def Let_def)
  then have "container_type (b @ concat bs) = Ok ContainerType.Data" by simp
  with assms show "container_type b = Ok ContainerType.Data"
    using container_type_append [of b "concat bs"] by (simp add: transfers_of_def)
  have "unpack_slice unpack_u32 b 0 4 = unpack_slice unpack_u32 (?h @ dc_payload c) 0 4"
    using len unpack_slice_append [of 4 b unpack_u32 "concat bs" 0] \<open>b @ concat bs = ?h @ dc_payload c\<close> by simp
  also have "\<dots> = Ok (word_of_nat (HEADER_SIZE + length (dc_payload c)))"
    using u32.unpack_slice_mid [of 0 "[]" 4] by (simp add: pack_header_def)
  finally show "unpack_slice unpack_u32 b 0 4 = Ok (word_of_nat (HEADER_SIZE + length (dc_payload c)))" .
qed

context bulk_pipe
begin

lemma recover_empties:
  assumes "needs_recovery s" "recover_if_needed ops s = (Ok (), s')"
  shows "pipe (transport s') = []"
  using assms cancel_empties by (auto simp: recover_pending split: prod.splits)

lemma read_one:
  assumes "readable (transport s)" "pipe (transport s) = b # bs"
  obtains s' where "on_transport (receive_bulk ops n) s = (Ok b, s')" "pipe (transport s') = bs"
    "readable (transport s')" "same_but_transport s s'"
proof -
  from receive_pops [OF assms] obtain t' where "receive_bulk ops n (transport s) = (Ok b, t')"
    "pipe t' = bs" "readable t'" by blast
  then show thesis by (intro that [of "s\<lparr>transport := t'\<rparr>"]) (simp_all add: on_transport_def same_but_transport_def)
qed

text \<open>Late replies in front of the awaited one are skipped, up to the limit.\<close>

lemma receive_response_skips:
  assumes "readable (transport s)" "pipe (transport s) = map response_wire stale @ response_wire own # rest"
    and "list_all (\<lambda>r. response_ok r \<and> is_stale_reply (rc_transaction_id r) tx) stale"
    and "response_ok own" "rc_transaction_id own = tx" "operation \<noteq> OperationCode.CloseSession"
    and "skipped + length stale \<le> MAX_STALE_REPLIES"
  shows "\<exists>s'. receive_response ops tx operation skipped s = (Ok own, s')
    \<and> pipe (transport s') = rest \<and> readable (transport s')"
  using assms
proof (induction stale arbitrary: skipped s)
  case Nil
  from read_one [of s "response_wire own" rest 512] Nil.prems obtain s' where
    "on_transport (receive_bulk ops 512) s = (Ok (response_wire own), s')" "pipe (transport s') = rest"
    "readable (transport s')" by auto
  with Nil.prems ResponseContainer_unpack_wire [of own "[]"] show ?case
    by (simp add: receive_response.simps [of ops] response_ok_def)
next
  case (Cons r stale)
  from read_one [of s "response_wire r" "map response_wire stale @ response_wire own # rest" 512] Cons.prems
  obtain s' where s': "on_transport (receive_bulk ops 512) s = (Ok (response_wire r), s')"
    "pipe (transport s') = map response_wire stale @ response_wire own # rest" "readable (transport s')" by auto
  have "rc_transaction_id r \<noteq> tx" "is_stale_reply (rc_transaction_id r) tx" "response_ok r"
    using Cons.prems by (auto simp: is_stale_reply_iff)
  moreover have "may_skip_stale_reply operation skipped"
    using Cons.prems by (simp add: may_skip_stale_reply_def)
  ultimately have "receive_response ops tx operation skipped s = receive_response ops tx operation (skipped + 1) s'"
    using ResponseContainer_unpack_wire [of r "[]"] s'(1)
    by (subst receive_response.simps) (simp add: response_ok_def)
  with Cons.IH [of s' "skipped + 1"] s' Cons.prems show ?case by simp
qed

lemma complete_container_reads:
  assumes "readable t" "pipe t = chunks @ rest" "[] \<notin> set chunks" "n = length (bs @ concat chunks)"
  shows "\<exists>t'. complete_container ops n bs t = (Ok (bs @ concat chunks), t') \<and> pipe t' = rest \<and> readable t'"
  using assms
proof (induction chunks arbitrary: bs t)
  case Nil
  then show ?case by (simp add: complete_container.simps [of ops])
next
  case (Cons c chunks)
  from receive_pops [of t c "chunks @ rest" "64 * 1024"] Cons.prems obtain t' where
    t': "receive_bulk ops (64 * 1024) t = (Ok c, t')" "pipe t' = chunks @ rest" "readable t'" by auto
  have "c \<noteq> []" using Cons.prems by auto
  then have "length bs < n" using Cons.prems(4) by (cases c) auto
  with \<open>c \<noteq> []\<close> t' have "complete_container ops n bs t = complete_container ops n (bs @ c) t'"
    by (subst complete_container.simps) simp
  with Cons.IH [of t' "bs @ c"] t' Cons.prems show ?case by auto
qed

lemma whole_container_reads:
  assumes "readable t" "pipe t = bs @ rest" "transfers_of c (b # bs)"
  shows "\<exists>t'. whole_container ops b t = (Ok (DataContainer_to_bytes c), t') \<and> pipe t' = rest \<and> readable t'"
proof -
  note first = transfers_first [OF assms(3)]
  let ?n = "HEADER_SIZE + length (dc_payload c)"
  have "?n < 2 ^ 32" using assms(3) by (auto simp: transfers_of_def)
  then have "unat (word_of_nat ?n :: u32) = ?n" by (simp add: unat_of_nat del: of_nat_add)
  moreover have "?n = length (b @ concat bs)"
    using first(6) by (simp add: DataContainer_to_bytes_def Let_def HEADER_SIZE_def)
  ultimately show ?thesis
    using complete_container_reads [OF assms(1,2) first(5), of ?n b] first(3,4,6) by (simp add: whole_container_def)
qed

lemma receive_loop_data:
  assumes "readable (transport s)" "pipe (transport s) = chunks @ rest" "transfers_of c chunks"
  shows "\<exists>s'. receive_loop ops operation tx data skipped s =
      receive_loop ops operation tx (data @ dc_payload c) skipped s'
    \<and> pipe (transport s') = rest \<and> readable (transport s')"
proof (cases chunks)
  case Nil
  with assms(3) show ?thesis by (simp add: transfers_of_def)
next
  case (Cons b bs)
  note first = transfers_first [OF assms(3) [unfolded Cons]]
  from read_one [of s b "bs @ rest" "64 * 1024"] assms Cons obtain s1 where
    s1: "on_transport (receive_bulk ops (64 * 1024)) s = (Ok b, s1)" "pipe (transport s1) = bs @ rest"
    "readable (transport s1)" by auto
  have n: "HEADER_SIZE + length (dc_payload c) < 2 ^ 32"
    and code: "OperationCode_from (OperationCode_into (dc_code c)) = dc_code c"
    using assms(3) by (auto simp: transfers_of_def)
  from whole_container_reads [OF s1(3,2) assms(3) [unfolded Cons]] obtain t2 where
    t2: "whole_container ops b (transport s1) = (Ok (DataContainer_to_bytes c), t2)" "pipe t2 = rest" "readable t2"
    by blast
  with s1 first(1,2) DataContainer_unpack_pack [OF code n, of "[]"]
  have "receive_loop ops operation tx data skipped s =
      receive_loop ops operation tx (data @ dc_payload c) skipped (s1\<lparr>transport := t2\<rparr>)"
    by (subst receive_loop.simps) (simp add: on_transport_def [of "whole_container ops b"])
  with t2 show ?thesis by (intro exI [of _ "s1\<lparr>transport := t2\<rparr>"]) simp
qed

text \<open>
  Data containers in any number of transfers, followed by the response: the operation returns, with the
  payloads in order.
\<close>

lemma receive_loop_returns:
  assumes "readable (transport s)" "list_all2 transfers_of cs chunkss"
    "pipe (transport s) = concat chunkss @ response_wire own # rest"
    "response_ok own" "rc_transaction_id own = tx"
  shows "\<exists>s'. receive_loop ops operation tx data skipped s = Some (Ok (own, data @ concat (map dc_payload cs)), s')
    \<and> pipe (transport s') = rest \<and> readable (transport s')"
  using assms(2,1,3)
proof (induction cs chunkss arbitrary: data s rule: list_all2_induct)
  case Nil
  from read_one [of s "response_wire own" rest "64 * 1024"] Nil obtain s' where
    s': "on_transport (receive_bulk ops (64 * 1024)) s = (Ok (response_wire own), s')" "pipe (transport s') = rest"
    "readable (transport s')" by auto
  moreover have "response_wire own \<noteq> []" by (simp add: response_wire_def)
  moreover have "container_type (response_wire own) = Ok ContainerType.Response"
    by (simp add: response_wire_def)
  ultimately show ?case
    using assms(4,5) ResponseContainer_unpack_wire [of own "[]"]
    by (subst receive_loop.simps) (simp add: response_ok_def)
next
  case (Cons c cs chunks chunkss)
  from receive_loop_data [of s chunks "concat chunkss @ response_wire own # rest" c operation tx data skipped]
    Cons obtain s' where
    "receive_loop ops operation tx data skipped s = receive_loop ops operation tx (data @ dc_payload c) skipped s'"
    "pipe (transport s') = concat chunkss @ response_wire own # rest" "readable (transport s')" by auto
  with Cons.IH [of s' "data @ dc_payload c"] show ?case by simp
qed

end

section \<open>The calls a session makes\<close>

abbreviation calls :: "('t \<times> call list) PtpSession \<Rightarrow> call list" where
  "calls s \<equiv> snd (transport s)"

lemma traced_receive:
  "on_transport (receive_bulk (traced ops) n) s = (r, s') \<Longrightarrow> calls s' = calls s @ [Received]"
  by (cases "transport s") (auto simp: on_transport_def split: prod.splits)

lemma traced_send:
  "on_transport (send_bulk (traced ops) data) s = (r, s') \<Longrightarrow> calls s' = calls s @ [Sent data]"
  by (cases "transport s") (auto simp: on_transport_def split: prod.splits)

text \<open>Waiting for a response is one read more than the late replies skipped.\<close>

lemma receive_response_reads:
  "receive_response (traced ops) tx operation skipped s = (r, s') \<Longrightarrow> skipped \<le> MAX_STALE_REPLIES \<Longrightarrow>
    \<exists>n. 1 \<le> n \<and> n \<le> Suc (MAX_STALE_REPLIES - skipped) \<and> calls s' = calls s @ replicate n Received"
proof (induction "traced ops" tx operation skipped s arbitrary: r s' rule: receive_response.induct)
  case (1 tx operation skipped s)
  from "1.prems"(1) [unfolded receive_response.simps [of "traced ops" tx operation skipped s]]
  show ?case
  proof (cases rule: seq_ok_cases)
    case (fail r0)
    then have "calls s' = calls s @ replicate 1 Received" using traced_receive by fastforce
    then show ?thesis by (intro exI [of _ 1]) simp
  next
    case (ok bs s1)
    then have s1: "calls s1 = calls s @ [Received]" using traced_receive by blast
    show ?thesis
    proof (cases "s' = s1")
      case True
      with s1 show ?thesis by (intro exI [of _ 1]) simp
    next
      case False
      with ok(2) obtain response where resp: "ResponseContainer_from_bytes bs = Ok response"
        "rc_transaction_id response \<noteq> tx" "is_stale_reply (rc_transaction_id response) tx"
        "may_skip_stale_reply operation skipped"
        and rec: "receive_response (traced ops) tx operation (skipped + 1) s1 = (r, s')"
        by (cases "ResponseContainer_from_bytes bs") (auto split: if_splits)
      from resp(4) have "skipped < MAX_STALE_REPLIES" by (simp add: may_skip_stale_reply_def)
      moreover from "1.hyps" [OF ok(1) _ _ _ rec] resp calculation obtain n where
        "1 \<le> n" "n \<le> Suc (MAX_STALE_REPLIES - (skipped + 1))" "calls s' = calls s1 @ replicate n Received"
        by auto
      ultimately show ?thesis using s1 by (intro exI [of _ "Suc n"]) auto
    qed
  qed
qed

lemma send_data_transfers:
  assumes "send_data (traced ops) operation tx data s = (Ok u, s')"
  shows "\<exists>transfers. calls s' = calls s @ map Sent transfers
    \<and> concat transfers = DataContainer_to_bytes \<lparr>dc_code = operation, dc_transaction_id = tx, dc_payload = data\<rparr>
    \<and> length transfers = (if split_header_data s \<and> data \<noteq> [] then 2 else 1)
    \<and> (split_header_data s \<longrightarrow> length (hd transfers) = HEADER_SIZE)"
proof -
  let ?h = "pack_header (HEADER_SIZE + length data) ContainerType.Data (OperationCode_into operation) tx"
  have whole: "DataContainer_to_bytes \<lparr>dc_code = operation, dc_transaction_id = tx, dc_payload = data\<rparr> = ?h @ data"
    by (simp add: DataContainer_to_bytes_def)
  consider "split_header_data s" "data \<noteq> []" | "split_header_data s" "data = []" | "\<not> split_header_data s" by blast
  then show ?thesis
  proof cases
    case 1
    with assms have "calls s' = calls s @ map Sent [?h, data]"
      by (auto simp: send_data_def seq_ok_Ok Let_def dest!: traced_send)
    with 1 show ?thesis by (intro exI [of _ "[?h, data]"]) (simp add: whole HEADER_SIZE_def)
  next
    case 2
    with assms have "calls s' = calls s @ map Sent [?h]"
      by (auto simp: send_data_def seq_ok_Ok Let_def dest!: traced_send)
    with 2 show ?thesis by (intro exI [of _ "[?h]"]) (simp add: whole [unfolded 2] HEADER_SIZE_def)
  next
    case 3
    with assms have "calls s' = calls s @ map Sent [?h @ data]"
      by (auto simp: send_data_def whole dest!: traced_send)
    with 3 show ?thesis by (intro exI [of _ "[?h @ data]"]) (simp add: whole)
  qed
qed

definition opening_calls :: "u32 \<Rightarrow> call list \<Rightarrow> bool" where
  "opening_calls sid tr \<longleftrightarrow>
     set tr \<subseteq> {Sent (command OperationCode.OpenSession 0 [sid]), Received, Drained}
     \<and> count_list tr (Sent (command OperationCode.OpenSession 0 [sid])) \<le> 1 + count_list tr Drained
     \<and> count_list tr Drained \<le> 1"

lemma send_open_session_once_calls:
  assumes "send_open_session_once (traced ops) sid (t, tr) = (r, (t', tr'))"
  shows "tr' = tr @ [Sent (command OperationCode.OpenSession 0 [sid])]
    \<or> tr' = tr @ [Sent (command OperationCode.OpenSession 0 [sid]), Received]"
  using assms unfolding send_open_session_once_def SESSION_LESS_def
  by (elim seq_ok_cases) (auto split: prod.splits elim!: seq_ok_cases)

lemma send_open_session_calls:
  assumes "send_open_session (traced ops) sid (t, tr) = (r, (t', tr'))"
  shows "\<exists>new. tr' = tr @ new \<and> opening_calls sid new"
proof -
  obtain r1 t1 tr1 where once: "send_open_session_once (traced ops) sid (t, tr) = (r1, (t1, tr1))"
    by (metis surj_pair)
  note first = send_open_session_once_calls [OF once]
  show ?thesis
  proof (cases "\<exists>m. r1 = Err (PtpError.InvalidData m)")
    case False
    then have "(r1, (t1, tr1)) = (r, (t', tr'))"
      using assms once by (auto simp: send_open_session_def split: outcome.splits PtpError.splits)
    with first show ?thesis by (auto simp: opening_calls_def)
  next
    case True
    then obtain m where "r1 = Err (PtpError.InvalidData m)" by blast
    with assms once have "seq_ok (drain_bulk_in (traced ops) OPEN_DRAIN_IDLE_TIMEOUT OPEN_DRAIN_MAX_DURATION (t1, tr1))
        (\<lambda>drained t. send_open_session_once (traced ops) sid t) = (r, (t', tr'))"
      by (simp add: send_open_session_def)
    then show ?thesis
    proof (cases rule: seq_ok_cases)
      case (ok x ts)
      then obtain t2 where "ts = (t2, tr1 @ [Drained])" by (auto split: prod.splits)
      with ok(2) send_open_session_once_calls [of ops sid t2 "tr1 @ [Drained]" r t' tr'] first
      show ?thesis by (auto simp: opening_calls_def)
    next
      case (fail r0)
      then have "tr' = tr1 @ [Drained]" by (auto split: prod.splits)
      with first show ?thesis by (auto simp: opening_calls_def)
    qed
  qed
qed

lemma traced_recover:
  assumes "recover_if_needed (traced ops) s = (r, s')"
  shows "calls s' = calls s @ (if needs_recovery s then [CancelledTx (poisoned_tx_id (recovery s))] else [])"
  using assms
  by (cases "needs_recovery s"; cases "transport s")
    (auto simp: recover_idle recover_pending split: prod.splits)

section \<open>Properties\<close>

definition completed :: "'t PtpSession \<Rightarrow> 't PtpSession \<Rightarrow> bool" where
  "completed s s' \<longleftrightarrow> \<not> operation_lock s' \<and> \<not> needs_recovery s'
     \<and> transaction_id s' = TransactionId_next (transaction_id s)"

text \<open>
  C27: The transaction identifiers of a session start at one and never take the reserved values 0 and
  0xFFFFFFFF. They repeat with period 2^32 - 2: two transactions fewer than that many apart never share
  an identifier.
\<close>

theorem transaction_ids:
  "unat ((TransactionId_next ^^ n) FIRST) = 1 + n mod (2 ^ 32 - 2)
   \<and> (TransactionId_next ^^ n) FIRST \<notin> {0, 0xFFFFFFFF}
   \<and> ((TransactionId_next ^^ m) FIRST = (TransactionId_next ^^ n) FIRST \<longleftrightarrow> m mod (2 ^ 32 - 2) = n mod (2 ^ 32 - 2))"
proof -
  have "(TransactionId_next ^^ m) FIRST = (TransactionId_next ^^ n) FIRST \<longleftrightarrow> unat (tx_of m) = unat (tx_of n)"
    by (simp add: tx_of_def word_unat_eq_iff)
  with valid_tx_of [of n] show ?thesis by (simp add: valid_tx_def unat_tx_of flip: tx_of_def)
qed

text \<open>
  A reply to any of the last 2^31 - 3 transactions counts as stale, across the wrap of the counter
  as well, while the reply to a transaction that is not yet sent never does.
\<close>

theorem stale_replies:
  assumes "0 < k" "k \<le> 2 ^ 31 - 3"
  shows "is_stale_reply ((TransactionId_next ^^ n) FIRST) ((TransactionId_next ^^ (n + k)) FIRST)
    \<and> \<not> is_stale_reply ((TransactionId_next ^^ (n + k)) FIRST) ((TransactionId_next ^^ n) FIRST)"
  using assms stale_earlier [of k n] stale_asym by (simp add: tx_of_def)

theorem stale_replies_witness:
  "is_stale_reply 118 119 \<and> \<not> is_stale_reply 119 118"
proof -
  have tx: "(TransactionId_next ^^ 117) FIRST = 118" "(TransactionId_next ^^ 118) FIRST = 119"
    by (simp_all add: word_unat_eq_iff unat_tx_of [unfolded tx_of_def])
  show ?thesis using stale_replies [of 1 117] by (simp add: tx del: funpow.simps)
qed

text \<open>
  C2: When an operation succeeds, in any of its three forms and over any transport, its response carries
  the identifier the operation was sent with, the counter has moved on by one, the lock is free again and
  no recovery is pending.
\<close>

theorem operation_succeeds:
  "(execute ops operation ps s = (Ok r, s') \<longrightarrow> rc_transaction_id r = transaction_id s \<and> completed s s')
   \<and> (execute_with_send ops operation ps data s = (Ok r, s') \<longrightarrow> rc_transaction_id r = transaction_id s \<and> completed s s')
   \<and> (execute_with_receive ops operation ps s = Some (Ok (r, payload), s') \<longrightarrow>
        rc_transaction_id r = transaction_id s \<and> completed s s')"
proof (intro conjI impI)
  assume "execute ops operation ps s = (Ok r, s')"
  note run = execute_opt [of ops operation ps s, unfolded this, symmetric]
  show "completed s s'" using transaction_Ok [OF execute_body run] by (simp add: completed_def)
  from run show "rc_transaction_id r = transaction_id s"
    by (cases rule: transaction_cases) (auto simp: seq_ok_Ok dest: receive_response_tx)
next
  assume "execute_with_send ops operation ps data s = (Ok r, s')"
  note run = execute_with_send_opt [of ops operation ps data s, unfolded this, symmetric]
  show "completed s s'" using transaction_Ok [OF execute_with_send_body run] by (simp add: completed_def)
  from run show "rc_transaction_id r = transaction_id s"
    by (cases rule: transaction_cases) (auto simp: seq_ok_Ok dest: receive_response_tx)
next
  assume run: "execute_with_receive ops operation ps s = Some (Ok (r, payload), s')"
  then have run: "transaction_opt ops (\<lambda>tx s. seq_opt (on_transport (send_bulk ops (command operation tx ps)) s)
      (\<lambda>_ s. receive_loop ops operation tx [] 0 s)) s = Some (Ok (r, payload), s')"
    by (simp add: execute_with_receive_def)
  show "completed s s'" using transaction_Ok [OF execute_with_receive_body run] by (simp add: completed_def)
  from run show "rc_transaction_id r = transaction_id s"
  proof (cases rule: transaction_cases)
    case (ran s1 s2)
    then show ?thesis by (auto simp: seq_opt_Ok dest!: receive_loop_post simp: loop_post_def)
  qed simp_all
qed

definition ok_reply :: "u32 \<Rightarrow> bytes" where
  "ok_reply tx = response_wire \<lparr>rc_code = ResponseCode.OK, rc_transaction_id = tx, rc_params = []\<rparr>"

definition mock_session :: "bytes list \<Rightarrow> MockTransport PtpSession" where
  "mock_session replies = PtpSession_new (MockTransport_new\<lparr>queued_responses := replies\<rparr>) 1"

lemma ok_reply_parsed [simp]:
  "ResponseContainer_from_bytes (ok_reply tx) = Ok \<lparr>rc_code = ResponseCode.OK, rc_transaction_id = tx, rc_params = []\<rparr>"
  using ResponseContainer_unpack_wire [of "\<lparr>rc_code = ResponseCode.OK, rc_transaction_id = tx, rc_params = []\<rparr>" "[]"]
    responseCode.dec_code [of "0x2001" ResponseCode.OK]
  by (simp add: ok_reply_def ResponseCode_codes_def)

text \<open>Rules that run an operation on the mock.\<close>

lemmas run_mock = mock_session_def PtpSession_new_def MockTransport_new_def recovery_default_def FIRST_def
  mock_send_bulk_def mock_receive_bulk_def mock_cancel_transfer_def on_transport_def
  transaction_def under_lock_def scoped_def next_transaction_id_def recover_if_needed_def recovery_take_def
  flag_session_def recovery_flag_def receive_response.simps [of mock_ops] TransactionId_next_def Let_def

theorem operation_succeeds_witness:
  "\<exists>r s'. execute mock_ops OperationCode.DeleteObject [7, 0] (mock_session [ok_reply 1]) = (Ok r, s')
     \<and> rc_transaction_id r = 1 \<and> completed (mock_session [ok_reply 1]) s'"
proof -
  have "\<exists>r s'. execute mock_ops OperationCode.DeleteObject [7, 0] (mock_session [ok_reply 1]) = (Ok r, s')"
    by (simp add: execute_def run_mock)
  then obtain r s' where "execute mock_ops OperationCode.DeleteObject [7, 0] (mock_session [ok_reply 1]) = (Ok r, s')"
    by blast
  with operation_succeeds [of mock_ops OperationCode.DeleteObject "[7, 0]" "mock_session [ok_reply 1]" r s']
  show ?thesis by (simp add: mock_session_def PtpSession_new_def FIRST_def)
qed

text \<open>
  C1: When an operation fails after it took an identifier (an error, a panic, or its future dropped at any
  await), the session is flagged for recovery with exactly that identifier, and the lock is free again.
  When it fails to recover, no identifier is used up and an error keeps the earlier flag.
\<close>

theorem operation_fails:
  assumes "execute ops operation ps s = (r, s') \<or> execute_with_send ops operation ps data s = (r, s')
      \<or> (\<exists>r2. execute_with_receive ops operation ps s = Some (r2, s') \<and> r = map_ok fst r2)"
    and "\<not> is_Ok r" "\<not> operation_lock s"
  shows "\<not> operation_lock s'
    \<and> (transaction_id s' \<noteq> transaction_id s \<longrightarrow> needs_recovery s' \<and> poisoned_tx_id (recovery s') = transaction_id s)
    \<and> (transaction_id s' = transaction_id s \<longrightarrow> (\<forall>e. r = Err e \<longrightarrow>
         needs_recovery s' \<and> poisoned_tx_id (recovery s') = poisoned_tx_id (recovery s)))"
  using assms(1)
proof (elim disjE exE conjE)
  assume "execute ops operation ps s = (r, s')"
  note run = execute_opt [of ops operation ps s, unfolded this, symmetric]
  show ?thesis using transaction_failed [OF execute_body run assms(2)] assms(3) by auto
next
  assume "execute_with_send ops operation ps data s = (r, s')"
  note run = execute_with_send_opt [of ops operation ps data s, unfolded this, symmetric]
  show ?thesis using transaction_failed [OF execute_with_send_body run assms(2)] assms(3) by auto
next
  fix r2
  assume run: "execute_with_receive ops operation ps s = Some (r2, s')" and r: "r = map_ok fst r2"
  have fail: "\<not> is_Ok r2" "\<And>e. r = Err e \<Longrightarrow> r2 = Err e" using assms(2) r by (cases r2; auto)+
  show ?thesis
    using transaction_failed [OF execute_with_receive_body run [unfolded execute_with_receive_def] fail(1)]
      assms(3) fail(2) by auto
qed

theorem operation_fails_witness:
  "\<exists>s'. execute mock_ops OperationCode.DeleteObject [7, 0] (mock_session []) = (Err PtpError.NoDevice, s')
     \<and> needs_recovery s' \<and> poisoned_tx_id (recovery s') = 1"
proof -
  have "\<exists>s'. execute mock_ops OperationCode.DeleteObject [7, 0] (mock_session []) = (Err PtpError.NoDevice, s')
      \<and> transaction_id s' = 2"
    by (simp add: execute_def run_mock)
  then obtain s' where "execute mock_ops OperationCode.DeleteObject [7, 0] (mock_session []) = (Err PtpError.NoDevice, s')"
    "transaction_id s' = 2" by blast
  with operation_fails [of mock_ops OperationCode.DeleteObject "[7, 0]" "mock_session []" "Err PtpError.NoDevice" s']
  show ?thesis by (simp add: mock_session_def PtpSession_new_def FIRST_def)
qed

text \<open>
  What \<open>execute\<close> asks of the transport, whatever the transport answers: first the cancel of the poisoned
  transaction if one is pending, then, unless that failed, exactly one send, the operation's own command,
  and then between zero and five reads. Nothing is sent before the recovery succeeded.
\<close>

theorem execute_calls:
  assumes "execute (traced ops) operation ps s = (r, s')" "\<not> operation_lock s"
  defines "cancel \<equiv> if needs_recovery s then [CancelledTx (poisoned_tx_id (recovery s))] else []"
  shows "(needs_recovery s \<and> \<not> is_Ok r \<and> transaction_id s' = transaction_id s \<and> calls s' = calls s @ cancel)
    \<or> (\<exists>n. n \<le> 5 \<and>
         calls s' = calls s @ cancel @ Sent (command operation (transaction_id s) ps) # replicate n Received)"
proof -
  note run = execute_opt [of "traced ops" operation ps s, unfolded assms(1), symmetric]
  from run show ?thesis
  proof (cases rule: transaction_cases)
    case locked
    with assms(2) show ?thesis by simp
  next
    case (unrecovered r0 s1)
    with traced_recover [OF unrecovered(2)] recover_fields [OF unrecovered(2)] show ?thesis
      by (simp add: cancel_def needs_recovery_def)
  next
    case (ran s1 s2)
    let ?s1 = "s1\<lparr>transaction_id := TransactionId_next (transaction_id s)\<rparr>"
    have s1: "calls s1 = calls s @ cancel" using traced_recover [OF ran(2)] by (simp add: cancel_def needs_recovery_def)
    have s': "calls s' = calls s2" using ran(4) by (simp add: flag_session_def)
    from ran(3) have "seq_ok (on_transport (send_bulk (traced ops) (command operation (transaction_id s) ps)) ?s1)
        (\<lambda>_ s2. receive_response (traced ops) (transaction_id s) operation 0 s2) = (r, s2)" by simp
    then show ?thesis
    proof (cases rule: seq_ok_cases)
      case (ok x s3)
      then have "calls s3 = calls s1 @ [Sent (command operation (transaction_id s) ps)]"
        using traced_send by fastforce
      with receive_response_reads [OF ok(2)] s1 s' show ?thesis by (auto simp: MAX_STALE_REPLIES_def)
    next
      case (fail r0)
      then have "calls s2 = calls s1 @ [Sent (command operation (transaction_id s) ps)]"
        using traced_send by fastforce
      with s1 s' show ?thesis by (intro disjI2 exI [of _ 0]) simp
    qed
  qed
qed

theorem execute_calls_witness:
  "\<exists>r s'. execute (traced mock_ops) OperationCode.DeleteObject [7, 0]
        (PtpSession_new (MockTransport_new\<lparr>queued_responses := [ok_reply 1]\<rparr>, []) 1) = (r, s')
     \<and> (\<exists>n. n \<le> 5 \<and> calls s' = Sent (command OperationCode.DeleteObject 1 [7, 0]) # replicate n Received)"
proof -
  let ?s = "PtpSession_new (MockTransport_new\<lparr>queued_responses := [ok_reply 1]\<rparr>, [] :: call list) 1"
  have s: "\<not> operation_lock ?s" "\<not> needs_recovery ?s" "transaction_id ?s = 1" "calls ?s = []"
    by (simp_all add: PtpSession_new_def needs_recovery_def recovery_default_def FIRST_def)
  obtain r s' where "execute (traced mock_ops) OperationCode.DeleteObject [7, 0] ?s = (r, s')" by fastforce
  with execute_calls [OF this s(1)] s show ?thesis by auto
qed

text \<open>The opening of an operation on a flagged session: the cancel fails the operation, or the operation runs on the healed session.\<close>

lemma transaction_opt_flagged:
  assumes "needs_recovery s" "\<not> operation_lock s"
    and "cancel_transfer ops (poisoned_tx_id (recovery s)) RECOVERY_DRAIN_TIMEOUT (transport s) = (r, t)"
    and "healed = s\<lparr>transport := t, recovery := (recovery s)\<lparr>needed := False\<rparr>\<rparr>"
  shows "r = Ok () \<Longrightarrow> transaction_opt ops body s = transaction_opt ops body healed"
    and "r = Err e \<Longrightarrow> transaction_opt ops body s = Some (Err e, s\<lparr>transport := t\<rparr>)"
proof -
  have rec: "recover_if_needed ops (s\<lparr>operation_lock := True\<rparr>) =
      (r, s\<lparr>operation_lock := True, transport := t, recovery := (recovery s)\<lparr>needed := (\<exists>e. r = Err e)\<rparr>\<rparr>)"
    using assms(1,3) by (simp add: recover_pending needs_recovery_def RECOVERY_DRAIN_TIMEOUT_def)
  have idle: "recover_if_needed ops (healed\<lparr>operation_lock := True\<rparr>) = (Ok (), healed\<lparr>operation_lock := True\<rparr>)"
    by (rule recover_idle) (simp add: assms(4) needs_recovery_def)
  have lock: "s\<lparr>operation_lock := True, transport := t, recovery := (recovery s)\<lparr>needed := False\<rparr>\<rparr> = healed\<lparr>operation_lock := True\<rparr>"
    by (simp add: assms(4))
  have unlocked: "\<not> operation_lock healed" using assms(2,4) by simp
  show "transaction_opt ops body s = transaction_opt ops body healed" if "r = Ok ()"
    using that rec idle unlocked assms(2) by (simp add: transaction_opt_def under_lock_opt_def lock)
  show "transaction_opt ops body s = Some (Err e, s\<lparr>transport := t\<rparr>)" if "r = Err e"
    using that assms(1,2) rec by (simp add: transaction_opt_def under_lock_opt_def needs_recovery_def)
qed

lemma transaction_flagged:
  assumes "needs_recovery s" "\<not> operation_lock s"
    and "cancel_transfer ops (poisoned_tx_id (recovery s)) RECOVERY_DRAIN_TIMEOUT (transport s) = (r, t)"
    and "healed = s\<lparr>transport := t, recovery := (recovery s)\<lparr>needed := False\<rparr>\<rparr>"
  shows "r = Ok () \<Longrightarrow> transaction ops body s = transaction ops body healed"
    and "r = Err e \<Longrightarrow> transaction ops body s = (Err e, s\<lparr>transport := t\<rparr>)"
  using transaction_opt_flagged [OF assms, where body = "\<lambda>tx s. Some (body tx s)"] by (simp_all add: transaction_opt_total)

text \<open>
  C30: Recovery heals the session. An operation of any of the three forms on a flagged session first cancels the flagged transaction.
  When the cancel fails, the operation fails with its error, nothing is sent and the session stays flagged with that transaction; when it succeeds, the
  operation does exactly what it does on the healed session: the flag gone, the identifier unchanged, and the pipe empty, so that it
  cannot read an earlier transaction's reply. That a successful cancel leaves the bulk pipe empty is assumed of the
  transport (it is proved of the mock and of the virtual device, and not of USB).
\<close>

theorem recovery_heals:
  assumes "bulk_pipe ops pipe readable" "needs_recovery s" "\<not> operation_lock s"
    and "cancel_transfer ops (poisoned_tx_id (recovery s)) RECOVERY_DRAIN_TIMEOUT (transport s) = (r, t)"
    and "healed = s\<lparr>transport := t, recovery := (recovery s)\<lparr>needed := False\<rparr>\<rparr>"
  shows "(r = Ok () \<longrightarrow> pipe (transport healed) = [] \<and> \<not> needs_recovery healed
      \<and> execute ops operation ps s = execute ops operation ps healed
      \<and> execute_with_send ops operation ps data s = execute_with_send ops operation ps data healed
      \<and> execute_with_receive ops operation ps s = execute_with_receive ops operation ps healed)
    \<and> (\<forall>e. r = Err e \<longrightarrow>
        execute ops operation ps s = (Err e, s\<lparr>transport := t\<rparr>)
      \<and> execute_with_send ops operation ps data s = (Err e, s\<lparr>transport := t\<rparr>)
      \<and> execute_with_receive ops operation ps s = Some (Err e, s\<lparr>transport := t\<rparr>))"
proof -
  have "r = Ok () \<Longrightarrow> pipe (transport healed) = []"
    using bulk_pipe.cancel_empties [OF assms(1)] assms(4,5) by simp
  moreover have "\<not> needs_recovery healed" by (simp add: assms(5) needs_recovery_def)
  ultimately show ?thesis
    unfolding execute_def execute_with_send_def execute_with_receive_def
    using transaction_flagged [OF assms(2-5)] transaction_opt_flagged [OF assms(2-5)] by blast
qed

theorem recovery_heals_witness:
  "execute mock_ops OperationCode.DeleteObject [7, 0] ((mock_session [ok_reply 8, ok_reply 9])\<lparr>recovery := \<lparr>needed = True, poisoned_tx_id = 8\<rparr>\<rparr>)
     = execute mock_ops OperationCode.DeleteObject [7, 0]
         ((mock_session [])\<lparr>transport := snd (mock_cancel_transfer 8 300 (transport (mock_session [ok_reply 8, ok_reply 9]))),
            recovery := \<lparr>needed = False, poisoned_tx_id = 8\<rparr>\<rparr>)"
proof -
  let ?s = "(mock_session [ok_reply 8, ok_reply 9])\<lparr>recovery := \<lparr>needed = True, poisoned_tx_id = 8\<rparr>\<rparr>"
  let ?t = "snd (mock_cancel_transfer 8 300 (transport (mock_session [ok_reply 8, ok_reply 9])))"
  have "cancel_transfer mock_ops (poisoned_tx_id (recovery ?s)) RECOVERY_DRAIN_TIMEOUT (transport ?s) = (Ok (), ?t)"
    by (simp add: run_mock RECOVERY_DRAIN_TIMEOUT_def)
  moreover have "needs_recovery ?s" "\<not> operation_lock ?s" by (simp_all add: needs_recovery_def mock_session_def PtpSession_new_def)
  ultimately show ?thesis
    using recovery_heals [OF mock.bulk_pipe_axioms, where s = ?s and r = "Ok ()" and t = ?t and operation = OperationCode.DeleteObject
        and ps = "[7, 0]" and healed = "?s\<lparr>transport := ?t, recovery := (recovery ?s)\<lparr>needed := False\<rparr>\<rparr>"]
    by (simp add: mock_session_def PtpSession_new_def)
qed

text \<open>
  C31: Recovery itself is not safe against a dropped future. If the future of an operation is dropped while it
  waits for the cancel that recovery runs, the flag that was taken before the wait is not put back: the
  session forgets that the pipe may still hold the abandoned transaction's data.
\<close>

theorem recovery_lost_when_dropped:
  assumes "\<not> operation_lock s" "needs_recovery s"
    and "cancel_transfer ops (poisoned_tx_id (recovery s)) RECOVERY_DRAIN_TIMEOUT (transport s) = (Dropped, t')"
  shows "\<exists>s'. execute ops operation ps s = (Dropped, s') \<and> \<not> needs_recovery s' \<and> transport s' = t'
    \<and> transaction_id s' = transaction_id s"
proof -
  have "recover_if_needed ops (s\<lparr>operation_lock := True\<rparr>) =
      (Dropped, s\<lparr>operation_lock := True, transport := t', recovery := (recovery s)\<lparr>needed := False\<rparr>\<rparr>)"
    using assms(2,3) by (simp add: recover_pending needs_recovery_def RECOVERY_DRAIN_TIMEOUT_def)
  then show ?thesis using assms(1) by (simp add: execute_def transaction_def under_lock_def needs_recovery_def)
qed

theorem recovery_lost_when_dropped_witness:
  "\<exists>s'. execute (mock_ops\<lparr>cancel_transfer := \<lambda>tx d m. (Dropped, m)\<rparr>) OperationCode.DeleteObject [7, 0]
      ((mock_session [ok_reply 8])\<lparr>recovery := \<lparr>needed = True, poisoned_tx_id = 8\<rparr>\<rparr>) = (Dropped, s')
     \<and> \<not> needs_recovery s' \<and> queued_responses (transport s') = [ok_reply 8]"
  using recovery_lost_when_dropped
    [of "(mock_session [ok_reply 8])\<lparr>recovery := \<lparr>needed = True, poisoned_tx_id = 8\<rparr>\<rparr>"
      "mock_ops\<lparr>cancel_transfer := \<lambda>tx d m. (Dropped, m)\<rparr>" "transport (mock_session [ok_reply 8])"
      OperationCode.DeleteObject "[7, 0]"]
  by (auto simp: needs_recovery_def mock_session_def PtpSession_new_def)

text \<open>
  C28: Late replies of earlier transactions in front of an awaited response are skipped. While any operation but CloseSession
  waits for its response (nothing is ever skipped there), and up to four
  replies of earlier transactions come first, the wait returns the operation's own response and reads exactly these transfers.
\<close>

theorem late_replies_skipped:
  assumes "bulk_pipe ops pipe readable" "readable (transport s)"
    and "pipe (transport s) = map response_wire stale @ response_wire own # rest"
    and "list_all (\<lambda>r. response_ok r \<and> is_stale_reply (rc_transaction_id r) tx) stale"
    and "response_ok own" "rc_transaction_id own = tx" "operation \<noteq> OperationCode.CloseSession"
    and "length stale \<le> 4"
  shows "\<exists>s'. receive_response ops tx operation 0 s = (Ok own, s') \<and> pipe (transport s') = rest"
  using bulk_pipe.receive_response_skips [OF assms(1-7), of 0] assms(8) by (auto simp: MAX_STALE_REPLIES_def)

lemma ok_reply_ok: "response_ok \<lparr>rc_code = ResponseCode.OK, rc_transaction_id = tx, rc_params = []\<rparr>"
  using responseCode.dec_code [of "0x2001" ResponseCode.OK] by (simp add: response_ok_def ResponseCode_codes_def)

theorem late_replies_skipped_witness:
  "\<exists>r s'. receive_response mock_ops 119 OperationCode.GetObjectHandles 0 (mock_session [ok_reply 117, ok_reply 118, ok_reply 119])
      = (Ok r, s') \<and> rc_transaction_id r = 119 \<and> queued_responses (transport s') = []"
proof -
  let ?r = "\<lambda>tx. \<lparr>rc_code = ResponseCode.OK, rc_transaction_id = tx, rc_params = []\<rparr>"
  have "is_stale_reply 117 119" "is_stale_reply 118 119" by (simp_all add: is_stale_reply_def)
  then show ?thesis
    using late_replies_skipped [OF mock.bulk_pipe_axioms,
        of "mock_session [ok_reply 117, ok_reply 118, ok_reply 119]" "[?r 117, ?r 118]" "?r 119" "[]" 119
          OperationCode.GetObjectHandles]
    by (auto simp: mock_session_def PtpSession_new_def MockTransport_new_def ok_reply_def ok_reply_ok)
qed

text \<open>
  C3: A data phase arrives whole. Data containers, each of fewer than 2^32 bytes, may be spread over transfers in any way (each transfer
  nonempty, the first one of a container holding its header); when the response follows them, the receive loop of
  \<open>execute_with_receive\<close> returns, and its payload is the containers' payloads in order.
\<close>

theorem data_phase_complete:
  assumes "bulk_pipe ops pipe readable" "readable (transport s)" "list_all2 transfers_of containers chunkss"
    and "pipe (transport s) = concat chunkss @ response_wire own # rest"
    and "response_ok own" "rc_transaction_id own = tx"
  shows "\<exists>s'. receive_loop ops operation tx [] 0 s = Some (Ok (own, concat (map dc_payload containers)), s')
    \<and> pipe (transport s') = rest"
  using bulk_pipe.receive_loop_returns [OF assms, of operation "[]" 0] by auto

theorem data_phase_complete_witness:
  "\<exists>r s'. receive_loop mock_ops OperationCode.GetObject 1 [] 0
     (mock_session [take 13 (DataContainer_to_bytes \<lparr>dc_code = OperationCode.GetObject, dc_transaction_id = 1, dc_payload = [1, 2, 3]\<rparr>),
        [2, 3], ok_reply 1]) = Some (Ok (r, [1, 2, 3]), s')"
proof -
  let ?c = "\<lparr>dc_code = OperationCode.GetObject, dc_transaction_id = 1, dc_payload = [1, 2, 3]\<rparr>"
  have code: "OperationCode_from (OperationCode_into OperationCode.GetObject) = OperationCode.GetObject"
    using operationCode.dec_code [of "0x1009" OperationCode.GetObject] by (simp add: OperationCode_codes_def)
  have "take 13 (DataContainer_to_bytes ?c) @ [2, 3] = DataContainer_to_bytes ?c"
    by (simp add: DataContainer_to_bytes_def HEADER_SIZE_def Let_def)
  moreover have "length (take 13 (DataContainer_to_bytes ?c)) = 13"
    by (simp add: DataContainer_to_bytes_def HEADER_SIZE_def Let_def)
  ultimately have "transfers_of ?c [take 13 (DataContainer_to_bytes ?c), [2, 3]]"
    using code by (auto simp: transfers_of_def HEADER_SIZE_def)
  then show ?thesis
    using data_phase_complete [OF mock.bulk_pipe_axioms,
        of "mock_session [take 13 (DataContainer_to_bytes ?c), [2, 3], ok_reply 1]" "[?c]"
          "[[take 13 (DataContainer_to_bytes ?c), [2, 3]]]"
          "\<lparr>rc_code = ResponseCode.OK, rc_transaction_id = 1, rc_params = []\<rparr>" "[]" 1 OperationCode.GetObject]
    by (auto simp: mock_session_def PtpSession_new_def MockTransport_new_def ok_reply_def ok_reply_ok)
qed

text \<open>
  Split and combined mode put the same bytes on the wire. When the data phase of an upload succeeds, the
  transfers it sent are one or two sends whose concatenation is the data container; in split mode the header
  travels alone and an empty payload is not sent at all.
\<close>

theorem send_modes_agree:
  assumes "execute_with_send (traced ops) operation ps data s = (Ok r, s')" "\<not> needs_recovery s"
  shows "\<exists>transfers n. calls s' = calls s @ Sent (command operation (transaction_id s) ps) # map Sent transfers
        @ replicate n Received
    \<and> concat transfers = DataContainer_to_bytes
        \<lparr>dc_code = operation, dc_transaction_id = transaction_id s, dc_payload = data\<rparr>
    \<and> length transfers = (if split_header_data s \<and> data \<noteq> [] then 2 else 1)
    \<and> (split_header_data s \<longrightarrow> length (hd transfers) = HEADER_SIZE)"
proof -
  note run = execute_with_send_opt [of "traced ops" operation ps data s, unfolded assms(1), symmetric]
  from run show ?thesis
  proof (cases rule: transaction_cases)
    case (ran s1 s2)
    let ?tx = "transaction_id s" and ?s1 = "s1\<lparr>transaction_id := TransactionId_next (transaction_id s)\<rparr>"
    have s1: "s1 = s\<lparr>operation_lock := True\<rparr>"
      using ran(2) assms(2) by (simp add: recover_idle needs_recovery_def)
    from ran(3) obtain u1 s3 u2 s4 where
      send: "on_transport (send_bulk (traced ops) (command operation ?tx ps)) ?s1 = (Ok u1, s3)"
      and data: "send_data (traced ops) operation ?tx data s3 = (Ok u2, s4)"
      and recv: "receive_response (traced ops) ?tx operation 0 s4 = (Ok r, s2)"
      by (auto simp: seq_ok_Ok)
    have split: "split_header_data s3 = split_header_data s"
      using same_but_transport_fields [OF same_on_transport [OF send]] by (simp add: s1)
    have c3: "calls s3 = calls s @ [Sent (command operation ?tx ps)]" using traced_send [OF send] by (simp add: s1)
    from receive_response_reads [OF recv] obtain n where "calls s2 = calls s4 @ replicate n Received" by auto
    moreover have "calls s' = calls s2" using ran(4) by simp
    moreover obtain transfers where "calls s4 = calls s3 @ map Sent transfers"
        "concat transfers = DataContainer_to_bytes \<lparr>dc_code = operation, dc_transaction_id = ?tx, dc_payload = data\<rparr>"
        "length transfers = (if split_header_data s \<and> data \<noteq> [] then 2 else 1)"
        "split_header_data s \<longrightarrow> length (hd transfers) = HEADER_SIZE"
      using send_data_transfers [OF data] unfolding split by blast
    ultimately show ?thesis using c3 by (intro exI [of _ transfers] exI [of _ n]) simp
  qed simp_all
qed

theorem send_modes_agree_witness:
  "\<exists>r s' transfers n. execute_with_send (traced mock_ops) OperationCode.SendObject [] [1, 2]
        ((PtpSession_new (MockTransport_new\<lparr>queued_responses := [ok_reply 1]\<rparr>, []) 1)\<lparr>split_header_data := True\<rparr>) = (Ok r, s')
     \<and> calls s' = Sent (command OperationCode.SendObject 1 []) # map Sent transfers @ replicate n Received
     \<and> length transfers = 2"
proof -
  let ?s = "(PtpSession_new (MockTransport_new\<lparr>queued_responses := [ok_reply 1]\<rparr>, [] :: call list) 1)\<lparr>split_header_data := True\<rparr>"
  have s: "\<not> needs_recovery ?s" "transaction_id ?s = 1" "calls ?s = []" "split_header_data ?s"
    by (simp_all add: PtpSession_new_def needs_recovery_def recovery_default_def FIRST_def)
  have "\<exists>r s'. execute_with_send (traced mock_ops) OperationCode.SendObject [] [1, 2] ?s = (Ok r, s')"
    by (simp add: execute_with_send_def send_data_def run_mock receive_response.simps [of "traced mock_ops"])
  then obtain r s' where "execute_with_send (traced mock_ops) OperationCode.SendObject [] [1, 2] ?s = (Ok r, s')" by blast
  with send_modes_agree [OF this s(1)] s show ?thesis by auto
qed

text \<open>
  Opening a session either fails or yields a fresh session on the transport it leaves: first identifier,
  free lock, nothing to recover. An existing session that is to be reused is never closed: the only command
  sent is the session-less \<open>OpenSession\<close>, at most twice, and the second time only after a drain.
\<close>

theorem open_session_fresh:
  "(session_open ops sid t = (Ok s, t') \<longrightarrow> s = PtpSession_new t' sid)
   \<and> (open_reusing_existing (traced ops) sid (t, []) = (r, (t2, tr)) \<longrightarrow>
        set tr \<subseteq> {Sent (command OperationCode.OpenSession 0 [sid]), Received, Drained}
        \<and> count_list tr (Sent (command OperationCode.OpenSession 0 [sid])) \<le> 1 + count_list tr Drained
        \<and> count_list tr Drained \<le> 1)"
proof (intro conjI impI)
  show "session_open ops sid t = (Ok s, t') \<Longrightarrow> s = PtpSession_new t' sid"
    by (auto simp: session_open_def open_with_reuse_def seq_ok_Ok Let_def split: if_splits prod.splits outcome.splits)
next
  assume "open_reusing_existing (traced ops) sid (t, []) = (r, (t2, tr))"
  then have "\<exists>r2. send_open_session (traced ops) sid (t, []) = (r2, (t2, tr))"
    unfolding open_reusing_existing_def open_with_reuse_def
    by (elim seq_ok_cases) (auto simp: Let_def split: if_splits)
  then have "opening_calls sid tr" using send_open_session_calls [of ops sid t "[]"] by fastforce
  then show "set tr \<subseteq> {Sent (command OperationCode.OpenSession 0 [sid]), Received, Drained}"
    "count_list tr (Sent (command OperationCode.OpenSession 0 [sid])) \<le> 1 + count_list tr Drained"
    "count_list tr Drained \<le> 1"
    by (auto simp: opening_calls_def)
qed

theorem open_session_fresh_witness:
  "\<exists>s t'. session_open mock_ops 1 (MockTransport_new\<lparr>queued_responses := [ok_reply 0]\<rparr>) = (Ok s, t')
     \<and> s = PtpSession_new t' 1"
proof -
  have "\<exists>s t'. session_open mock_ops 1 (MockTransport_new\<lparr>queued_responses := [ok_reply 0]\<rparr>) = (Ok s, t')"
    by (simp add: session_open_def open_with_reuse_def send_open_session_def send_open_session_once_def run_mock)
  then show ?thesis using open_session_fresh [of mock_ops 1] by blast
qed

end
