(* ===== verification/Civil_Time.thy ===== *)
theory Civil_Time
  imports Pack "HOL-Library.Signed_Division" "HOL-Library.Monad_Syntax"
begin

text \<open>
  Dates and times of \<open>ptp/pack/datetime.rs\<close>: the UTC offset, the validated date-time, its parser and
  formatter, the conversions with Unix seconds and the wire codec. \<open>i64\<close> and \<open>i16\<close> values are
  integers; the one addition that can leave the range of \<open>i64\<close> is the checked one the source
  writes. Rust's \<open>/\<close> and \<open>%\<close> on signed integers truncate, so they are \<open>sdiv\<close> and \<open>smod\<close>, and \<open>div_euclid\<close>
  and \<open>rem_euclid\<close> by a positive number are \<open>div\<close> and \<open>mod\<close>.
\<close>

section \<open>Bytes of a string\<close>

text \<open>\<open>str::as_bytes\<close>: the UTF-8 encoding.\<close>

definition utf8_char :: "nat \<Rightarrow> bytes" where
  "utf8_char c =
     (if c < 0x80 then [word_of_nat c]
      else if c < 0x800 then [word_of_nat (0xC0 + c div 64), word_of_nat (0x80 + c mod 64)]
      else if c < 0x10000
        then [word_of_nat (0xE0 + c div 4096), word_of_nat (0x80 + c div 64 mod 64), word_of_nat (0x80 + c mod 64)]
      else [word_of_nat (0xF0 + c div 262144), word_of_nat (0x80 + c div 4096 mod 64),
            word_of_nat (0x80 + c div 64 mod 64), word_of_nat (0x80 + c mod 64)])"

definition as_bytes :: "rstr \<Rightarrow> bytes" where
  "as_bytes s = concat (map utf8_char s)"

section \<open>UTC offsets\<close>

record UtcOffset =
  minutes :: int

definition UTC :: UtcOffset where
  "UTC = \<lparr>minutes = 0\<rparr>"

definition from_minutes :: "int \<Rightarrow> UtcOffset option" where
  "from_minutes m = (if m > -24 * 60 \<and> m < 24 * 60 then Some \<lparr>minutes = m\<rparr> else None)"

definition seconds :: "UtcOffset \<Rightarrow> int" where
  "seconds ofs = minutes ofs * 60"

section \<open>Date and time\<close>

record DateTime =
  dt_year :: u16
  dt_month :: u8
  dt_day :: u8
  dt_hour :: u8
  dt_minute :: u8
  dt_second :: u8
  dt_offset :: "UtcOffset option"

definition MIN_UNIX_SECONDS :: int where
  "MIN_UNIX_SECONDS = -62167219200"

definition MAX_UNIX_SECONDS :: int where
  "MAX_UNIX_SECONDS = 253402300799"

definition SECONDS_PER_DAY :: int where
  "SECONDS_PER_DAY = 86400"

definition is_leap_year :: "u16 \<Rightarrow> bool" where
  "is_leap_year year \<longleftrightarrow>
     (4 dvd unat year \<and> \<not> 100 dvd unat year) \<or> 400 dvd unat year"

definition days_in_month :: "u16 \<Rightarrow> u8 \<Rightarrow> u8" where
  "days_in_month year month =
     (if month \<in> {1, 3, 5, 7, 8, 10, 12} then 31
      else if month \<in> {4, 6, 9, 11} then 30
      else if month = 2 \<and> is_leap_year year then 29
      else if month = 2 then 28
      else 0)"

definition days_from_civil :: "int \<Rightarrow> int \<Rightarrow> int \<Rightarrow> int" where
  "days_from_civil year month day =
     (let y = (if month \<le> 2 then year - 1 else year);
          era = y div 400;
          yoe = y - era * 400;
          mp = (month + 9) smod 12;
          doy = (153 * mp + 2) sdiv 5 + day - 1;
          doe = yoe * 365 + yoe sdiv 4 - yoe sdiv 100 + doy
      in era * 146097 + doe - 719468)"

definition civil_from_days :: "int \<Rightarrow> int \<times> int \<times> int" where
  "civil_from_days days =
     (let z = days + 719468;
          era = z div 146097;
          doe = z - era * 146097;
          yoe = (doe - doe sdiv 1460 + doe sdiv 36524 - doe sdiv 146096) sdiv 365;
          doy = doe - (365 * yoe + yoe sdiv 4 - yoe sdiv 100);
          mp = (5 * doy + 2) sdiv 153;
          day = doy - (153 * mp + 2) sdiv 5 + 1;
          month = (if mp < 10 then mp + 3 else mp - 9);
          year = yoe + era * 400 + (if month \<le> 2 then 1 else 0)
      in (year, month, day))"

section \<open>Parsing\<close>

definition is_ascii_digit :: "u8 \<Rightarrow> bool" where
  "is_ascii_digit b \<longleftrightarrow> 48 \<le> b \<and> b \<le> 57"

definition parse_digits :: "nat \<Rightarrow> bytes \<Rightarrow> u16 option" where
  "parse_digits n bs =
     (if length bs \<noteq> n \<or> \<not> list_all is_ascii_digit bs then None
      else Some (fold (\<lambda>b acc. acc * 10 + ucast (b - 48)) bs 0))"

text \<open>
  A Rust function that returns an \<open>Option\<close> and slices its input has three ends: \<open>Ok\<close> is \<open>Some\<close>, \<open>Err ()\<close> is
  \<open>None\<close>, and \<open>Panic\<close> is an index or slice out of range. \<open>or_none\<close> is \<open>?\<close> on an option in such a function.
\<close>

type_synonym 'a opt_call = "('a, unit) outcome"

definition or_none :: "'a option \<Rightarrow> 'a opt_call" where
  "or_none v = (case v of Some x \<Rightarrow> Ok x | None \<Rightarrow> Err ())"

lemma or_none_simps [simp]: "or_none (Some x) = Ok x" "or_none None = Err ()"
  by (simp_all add: or_none_def)

lemma returns_or_none [simp]: "returns (or_none v) (\<lambda>_. True)"
  by (cases v) simp_all

text \<open>The part of \<open>parse_suffix\<close> that drops the tenths of a second: \<open>rest[digits..]\<close> may panic.\<close>

definition strip_tenths :: "bytes \<Rightarrow> bytes opt_call" where
  "strip_tenths tail =
     (case tail of
        [] \<Rightarrow> Ok []
      | b # rest \<Rightarrow>
          if b = 0x2E
          then let digits = length (takeWhile is_ascii_digit rest) in
            if digits = 0 then Err () else slice_from rest digits
          else Ok tail)"

definition parse_suffix :: "bytes \<Rightarrow> UtcOffset option opt_call" where
  "parse_suffix tail =
     bind_ok (strip_tenths tail) (\<lambda>tail.
       case tail of
         [] \<Rightarrow> Ok None
       | sign # hhmm \<Rightarrow>
           if sign = 0x5A \<and> hhmm = [] then Ok (Some UTC)
           else if sign = 0x2B \<or> sign = 0x2D
           then
             bind_ok (if 2 \<le> length hhmm then Ok (take 2 hhmm) else Err ()) (\<lambda>hh.
             bind_ok (or_none (parse_digits 2 hh)) (\<lambda>hours.
             bind_ok (if 2 \<le> length hhmm then Ok (drop 2 hhmm) else Err ()) (\<lambda>mm.
             bind_ok (or_none (parse_digits 2 mm)) (\<lambda>mins.
               if hours > 23 \<or> mins > 59 then Err ()
               else let total = uint (hours * 60 + mins) in
                 map_ok Some (or_none (from_minutes (if sign = 0x2D then - total else total)))))))
           else Err ())"

definition is_valid :: "DateTime \<Rightarrow> bool" where
  "is_valid dt \<longleftrightarrow>
     dt_year dt \<le> 9999
     \<and> (1 \<le> dt_day dt \<and> dt_day dt \<le> days_in_month (dt_year dt) (dt_month dt))
     \<and> dt_hour dt \<le> 23
     \<and> dt_minute dt \<le> 59
     \<and> dt_second dt \<le> 59"

definition DateTime_new :: "u16 \<Rightarrow> u8 \<Rightarrow> u8 \<Rightarrow> u8 \<Rightarrow> u8 \<Rightarrow> u8 \<Rightarrow> DateTime option" where
  "DateTime_new year month day hour minute second =
     (let dt = \<lparr>dt_year = year, dt_month = month, dt_day = day, dt_hour = hour, dt_minute = minute,
                dt_second = second, dt_offset = None\<rparr>
      in if is_valid dt then Some dt else None)"

definition with_offset :: "DateTime \<Rightarrow> UtcOffset \<Rightarrow> DateTime" where
  "with_offset dt ofs = dt\<lparr>dt_offset := Some ofs\<rparr>"

definition narrow :: "u16 \<Rightarrow> u8 option" where
  "narrow v = (if v \<le> 255 then Some (ucast v) else None)"

text \<open>A two-digit field \<open>narrow(parse_digits::<2>(&b[i..j])?)?\<close>.\<close>

definition parse_field :: "bytes \<Rightarrow> nat \<Rightarrow> nat \<Rightarrow> u8 opt_call" where
  "parse_field b i j =
     bind_ok (slice b i j) (\<lambda>bs. bind_ok (or_none (parse_digits 2 bs)) (\<lambda>v. or_none (narrow v)))"

definition parse_bytes :: "bytes \<Rightarrow> DateTime opt_call" where
  "parse_bytes b =
     (if length b < 15 then Err ()
      else bind_ok (index b 8) (\<lambda>b8.
        if b8 \<noteq> 0x54 then Err ()
        else
          bind_ok (slice b 0 4) (\<lambda>yyyy.
          bind_ok (or_none (parse_digits 4 yyyy)) (\<lambda>year.
          bind_ok (parse_field b 4 6) (\<lambda>month.
          bind_ok (parse_field b 6 8) (\<lambda>day.
          bind_ok (parse_field b 9 11) (\<lambda>hour.
          bind_ok (parse_field b 11 13) (\<lambda>minute.
          bind_ok (parse_field b 13 15) (\<lambda>second.
          bind_ok (or_none (DateTime_new year month day hour minute second)) (\<lambda>dt.
          bind_ok (slice_from b 15) (\<lambda>tail.
          bind_ok (parse_suffix tail) (\<lambda>ofs.
            Ok (dt\<lparr>dt_offset := ofs\<rparr>)))))))))))))"

text \<open>
  Where the callers need no outcome, \<open>parse\<close> is the plain option. It reads a panic as \<open>None\<close>, which loses nothing:
  \<open>parse_bytes_returns\<close> below shows that the length test keeps every index and slice inside the text.
\<close>

definition parse :: "rstr \<Rightarrow> DateTime option" where
  "parse s = (case parse_bytes (as_bytes s) of Ok dt \<Rightarrow> Some dt | _ \<Rightarrow> None)"

lemma strip_tenths_returns [simp]: "returns (strip_tenths tail) (\<lambda>_. True)"
  by (auto simp: strip_tenths_def Let_def slice_from_def length_takeWhile_le split: list.split)

lemma parse_suffix_returns [simp]: "returns (parse_suffix tail) (\<lambda>_. True)"
  unfolding parse_suffix_def
  by (rule returns_bindI [OF strip_tenths_returns])
    (auto simp: Let_def intro!: returns_bindI split: list.split)

lemma parse_field_returns: "i \<le> j \<Longrightarrow> j \<le> length b \<Longrightarrow> returns (parse_field b i j) (\<lambda>_. True)"
  by (simp add: parse_field_def slice_in returns_mono [OF returns_or_none])

lemma parse_bytes_returns: "returns (parse_bytes b) (\<lambda>_. True)"
proof (cases "length b < 15 \<or> b ! 8 \<noteq> 0x54")
  case True
  then show ?thesis by (auto simp: parse_bytes_def index_def)
next
  case False
  then have len: "15 \<le> length b" and T: "index b 8 = (Ok 0x54 :: u8 opt_call)" by (auto simp: index_def)
  then show ?thesis
    unfolding parse_bytes_def
    by (simp add: T slice_in slice_from_in del: returns_bind)
      (intro returns_bindI returns_or_none parse_field_returns parse_suffix_returns, auto)
qed

section \<open>Unix seconds\<close>

definition in_i64 :: "int \<Rightarrow> bool" where
  "in_i64 x \<longleftrightarrow> - (2 ^ 63) \<le> x \<and> x < 2 ^ 63"

definition checked_add_i64 :: "int \<Rightarrow> int \<Rightarrow> int option" where
  "checked_add_i64 a b = (if in_i64 (a + b) then Some (a + b) else None)"

definition from_unix_seconds :: "int \<Rightarrow> UtcOffset \<Rightarrow> DateTime option" where
  "from_unix_seconds secs ofs = do {
     local \<leftarrow> checked_add_i64 secs (seconds ofs);
     (if \<not> (MIN_UNIX_SECONDS \<le> local \<and> local \<le> MAX_UNIX_SECONDS) then None
      else
        let (year, month, day) = civil_from_days (local div SECONDS_PER_DAY);
            time = local mod SECONDS_PER_DAY
        in Some \<lparr>dt_year = word_of_int year, dt_month = word_of_int month, dt_day = word_of_int day,
                 dt_hour = word_of_int (time sdiv 3600),
                 dt_minute = word_of_int (time sdiv 60 smod 60),
                 dt_second = word_of_int (time smod 60),
                 dt_offset = Some ofs\<rparr>)
   }"

definition to_unix_seconds_with_fallback :: "DateTime \<Rightarrow> UtcOffset \<Rightarrow> int option" where
  "to_unix_seconds_with_fallback dt fallback =
     (if \<not> is_valid dt then None
      else
        let days = days_from_civil (uint (dt_year dt)) (uint (dt_month dt)) (uint (dt_day dt));
            time = uint (dt_hour dt) * 3600 + uint (dt_minute dt) * 60 + uint (dt_second dt)
        in Some (days * SECONDS_PER_DAY + time
                 - seconds (case dt_offset dt of Some ofs \<Rightarrow> ofs | None \<Rightarrow> fallback)))"

definition to_unix_seconds :: "DateTime \<Rightarrow> int option" where
  "to_unix_seconds dt = dt_offset dt \<bind> (\<lambda>ofs. to_unix_seconds_with_fallback dt ofs)"

section \<open>Formatting\<close>

text \<open>\<open>format!("{:0w}")\<close> of an unsigned number: its decimal digits, padded with zeros to \<open>w\<close> characters.\<close>

fun decimal :: "nat \<Rightarrow> rstr" where
  "decimal n = (if n < 10 then [48 + n] else decimal (n div 10) @ [48 + n mod 10])"

definition fmt_width :: "nat \<Rightarrow> nat \<Rightarrow> rstr" where
  "fmt_width w n = (let ds = decimal n in replicate (w - length ds) 48 @ ds)"

definition format_offset :: "UtcOffset option \<Rightarrow> rstr" where
  "format_offset off =
     (case off of
        None \<Rightarrow> []
      | Some ofs \<Rightarrow>
          if ofs = UTC then str ''Z''
          else let sign = (if minutes ofs < 0 then str ''-'' else str ''+'');
                   abs = nat \<bar>minutes ofs\<bar>
            in sign @ fmt_width 2 (abs div 60) @ fmt_width 2 (abs mod 60))"

definition format :: "DateTime \<Rightarrow> rstr option" where
  "format dt =
     (if \<not> is_valid dt then None
      else Some (fmt_width 4 (unat (dt_year dt)) @ fmt_width 2 (unat (dt_month dt))
        @ fmt_width 2 (unat (dt_day dt)) @ str ''T'' @ fmt_width 2 (unat (dt_hour dt))
        @ fmt_width 2 (unat (dt_minute dt)) @ fmt_width 2 (unat (dt_second dt))
        @ format_offset (dt_offset dt)))"

section \<open>The wire form\<close>

definition pack_datetime :: "DateTime \<Rightarrow> bytes res" where
  "pack_datetime dt =
     (case format dt of
        None \<Rightarrow> Err (invalid_data
          ''invalid DateTime: year={}, month={}, day={}, hour={}, minute={}, second={}''
          [unat (dt_year dt), unat (dt_month dt), unat (dt_day dt), unat (dt_hour dt),
           unat (dt_minute dt), unat (dt_second dt)])
      | Some formatted \<Rightarrow> pack_string formatted)"

text \<open>\<open>DateTime::parse\<close> where a panic must not be lost: its \<open>Option\<close> is the value.\<close>

definition as_option :: "'a opt_call \<Rightarrow> 'a option res" where
  "as_option m = (case m of Ok x \<Rightarrow> Ok (Some x) | Err u \<Rightarrow> Ok None | Panic \<Rightarrow> Panic | Dropped \<Rightarrow> Dropped)"

definition unpack_datetime :: "bytes \<Rightarrow> (DateTime option \<times> usize) res" where
  "unpack_datetime buf =
     bind_ok (unpack_string buf) (\<lambda>(s, consumed).
     bind_ok (as_option (parse_bytes (as_bytes s))) (\<lambda>dt. Ok (dt, consumed)))"

lemma as_option_parse: "as_option (parse_bytes (as_bytes s)) = Ok (parse s)"
  using parse_bytes_returns [of "as_bytes s"]
  by (auto simp: as_option_def parse_def returns_iff)

lemma unpack_datetime_parse: "unpack_datetime buf = bind_ok (unpack_string buf) (\<lambda>(s, consumed). Ok (parse s, consumed))"
  by (simp add: unpack_datetime_def as_option_parse)

section \<open>The calendar algorithms\<close>

lemma sdiv_nonneg [simp]: "0 \<le> a \<Longrightarrow> 0 < b \<Longrightarrow> a sdiv b = a div (b :: int)"
  by (cases "a = 0") (auto simp: signed_divide_int_def sgn_if)

lemma smod_nonneg [simp]: "0 \<le> a \<Longrightarrow> 0 < b \<Longrightarrow> a smod b = a mod (b :: int)"
  by (cases "a = 0") (auto simp: signed_modulo_int_def minus_div_mult_eq_mod)

text \<open>
  The year of era, the day of year and the shifted month (March is 0), as both algorithms use them.
\<close>

definition year_start :: "int \<Rightarrow> int" where
  "year_start yoe = yoe * 365 + yoe div 4 - yoe div 100"

definition year_of_doe :: "int \<Rightarrow> int" where
  "year_of_doe doe = (doe - doe div 1460 + doe div 36524 - doe div 146096) div 365"

definition month_start :: "int \<Rightarrow> int" where
  "month_start mp = (153 * mp + 2) div 5"

definition month_of_doy :: "int \<Rightarrow> int" where
  "month_of_doy doy = (5 * doy + 2) div 153"

lemma year_of_doe_mono:
  assumes "0 \<le> a" "a \<le> b" "b < 146097"
  shows "year_of_doe a \<le> year_of_doe b"
proof -
  have "a - a div 1460 \<le> b - b div 1460" using assms(2) by linarith
  moreover have "a div 36524 \<le> b div 36524" using assms(2) by (simp add: zdiv_mono1)
  moreover have "a - a div 1460 + a div 36524 - a div 146096 \<le> b - b div 1460 + b div 36524 - b div 146096"
  proof (cases "b = 146096")
    case True
    have "a - a div 1460 + a div 36524 - a div 146096 \<le> 145999" if "a < 146096" for a :: int
      using that by linarith
    with True assms show ?thesis by (cases "a = b") auto
  next
    case False
    then have "b div 146096 = 0" "a div 146096 = 0" using assms by auto
    with calculation show ?thesis by linarith
  qed
  ultimately show ?thesis by (simp add: year_of_doe_def zdiv_mono1)
qed

lemma year_ends_table:
  "list_all (\<lambda>y. year_of_doe (year_start y) = y \<and>
     year_of_doe (year_start (y + 1) - 1 + (if y = 399 then 1 else 0)) = y) [0..399]"
  by code_simp

lemma month_table:
  "list_all (\<lambda>mp. month_of_doy (month_start mp) = mp \<and> month_of_doy (month_start (mp + 1) - 1) = mp) [0..11]"
  by code_simp

lemma year_ends:
  assumes "0 \<le> y" "y \<le> 399"
  shows "year_of_doe (year_start y) = y"
    and "year_of_doe (year_start (y + 1) - 1 + (if y = 399 then 1 else 0)) = y"
  using year_ends_table assms by (auto simp: list_all_iff)

lemma month_ends:
  assumes "0 \<le> mp" "mp \<le> 11"
  shows "month_of_doy (month_start mp) = mp" and "month_of_doy (month_start (mp + 1) - 1) = mp"
  using month_table assms by (auto simp: list_all_iff)

lemma month_of_doy_mono: "a \<le> b \<Longrightarrow> month_of_doy a \<le> month_of_doy b"
  by (simp add: month_of_doy_def zdiv_mono1)

text \<open>The last day of a year of the era, counted from the era's start: the last year has a leap day.\<close>

definition year_end :: "int \<Rightarrow> int" where
  "year_end yoe = year_start (yoe + 1) - 1 + (if yoe = 399 then 1 else 0)"

lemma year_of_doe_eq:
  assumes "0 \<le> y" "y \<le> 399" "year_start y \<le> doe" "doe \<le> year_end y"
  shows "year_of_doe doe = y"
proof -
  have "0 \<le> year_start y" using assms(1) by (simp add: year_start_def)
  moreover have "year_end y < 146097"
  proof (cases "y = 399")
    case False
    with assms(1,2) have "(y + 1) div 4 \<le> 99" "0 \<le> (y + 1) div 100" by auto
    with False assms(2) show ?thesis by (simp add: year_end_def year_start_def)
  qed (simp add: year_end_def year_start_def)
  ultimately have "year_of_doe (year_start y) \<le> year_of_doe doe" "year_of_doe doe \<le> year_of_doe (year_end y)"
    using assms(3,4) by (auto intro!: year_of_doe_mono)
  with year_ends [OF assms(1,2)] show ?thesis by (simp add: year_end_def)
qed

lemma year_of_doe_bounds:
  assumes "0 \<le> doe" "doe < 146097"
  defines "y \<equiv> year_of_doe doe"
  shows "0 \<le> y" "y \<le> 399" "year_start y \<le> doe" "doe \<le> year_end y"
proof -
  have "year_of_doe 0 \<le> y" "y \<le> year_of_doe 146096"
    using assms by (auto intro!: year_of_doe_mono)
  then show y: "0 \<le> y" "y \<le> 399" by (simp_all add: year_of_doe_def)
  show "year_start y \<le> doe"
  proof (rule ccontr)
    assume less: "\<not> year_start y \<le> doe"
    then have "y \<noteq> 0" using assms(1) by (auto simp: year_start_def)
    then have pos: "1 \<le> y" using y by simp
    have "year_of_doe doe \<le> year_of_doe (year_start (y - 1 + 1) - 1)"
      using less y assms by (intro year_of_doe_mono) (auto simp: year_start_def)
    also have "\<dots> = y - 1" using year_ends(2) [of "y - 1"] pos y by simp
    finally show False by (simp add: y_def)
  qed
  show "doe \<le> year_end y"
  proof (rule ccontr)
    assume gt: "\<not> doe \<le> year_end y"
    then have "y \<noteq> 399" using assms(2) by (auto simp: year_end_def year_start_def)
    then have lt: "y + 1 \<le> 399" using y by simp
    have "year_of_doe (year_start (y + 1)) \<le> year_of_doe doe"
      using gt y assms by (intro year_of_doe_mono) (auto simp: year_end_def year_start_def split: if_splits)
    then show False using year_ends(1) [of "y + 1"] lt y by (simp add: y_def)
  qed
qed

lemma month_of_doy_eq:
  assumes "0 \<le> mp" "mp \<le> 11" "month_start mp \<le> doy" "doy < month_start (mp + 1)"
  shows "month_of_doy doy = mp"
  using month_of_doy_mono [of "month_start mp" doy] month_of_doy_mono [of doy "month_start (mp + 1) - 1"]
    month_ends [OF assms(1,2)] assms(3,4) by simp

lemma month_of_doy_bounds:
  assumes "0 \<le> doy" "doy \<le> 365"
  defines "mp \<equiv> month_of_doy doy"
  shows "0 \<le> mp" "mp \<le> 11" "month_start mp \<le> doy" "doy < month_start (mp + 1)"
  using assms by (auto simp: mp_def month_of_doy_def month_start_def)

text \<open>The calendar itself: leap years, month lengths and the day after a date.\<close>

definition leap :: "int \<Rightarrow> bool" where
  "leap y \<longleftrightarrow> (4 dvd y \<and> \<not> 100 dvd y) \<or> 400 dvd y"

definition month_len :: "int \<Rightarrow> int \<Rightarrow> int" where
  "month_len y m =
     (if m = 2 then if leap y then 29 else 28 else if m \<in> {4, 6, 9, 11} then 30 else 31)"

definition civil_date :: "int \<Rightarrow> int \<Rightarrow> int \<Rightarrow> bool" where
  "civil_date y m d \<longleftrightarrow> 1 \<le> m \<and> m \<le> 12 \<and> 1 \<le> d \<and> d \<le> month_len y m"

fun next_date :: "int \<times> int \<times> int \<Rightarrow> int \<times> int \<times> int" where
  "next_date (y, m, d) =
     (if d < month_len y m then (y, m, d + 1) else if m < 12 then (y, m + 1, 1) else (y + 1, 1, 1))"

text \<open>Days before the first of March of year \<open>y\<close>, from the first of March of year 0.\<close>

definition march_days :: "int \<Rightarrow> int" where
  "march_days y = 365 * y + y div 4 - y div 100 + y div 400"

lemma march_days_era: "march_days y = y div 400 * 146097 + year_start (y mod 400)"
proof -
  define e r where "e = y div 400" and "r = y mod 400"
  have y: "y = 400 * e + r" by (simp add: e_def r_def)
  have "y div 4 = 100 * e + r div 4" "y div 100 = 4 * e + r div 100" unfolding y by simp_all
  then show ?thesis
    by (simp add: march_days_def year_start_def e_def [symmetric] r_def [symmetric]) (simp add: y)
qed

lemma div_add_1:
  assumes "0 < k"
  shows "(y + 1) div k = y div k + (if k dvd (y + 1) then 1 else 0 :: int)"
proof -
  define q r where "q = y div k" and "r = y mod k"
  have y: "y + 1 = (r + 1) + q * k" and r: "0 \<le> r" "r < k"
    using assms by (simp_all add: q_def r_def)
  have "(y + 1) div k = q + (r + 1) div k" and "k dvd (y + 1) \<longleftrightarrow> k dvd (r + 1)"
    unfolding y using assms by simp_all
  moreover have "k dvd (r + 1) \<longleftrightarrow> r + 1 = k" using r by (auto dest: zdvd_imp_le)
  moreover have "(r + 1) div k = (if r + 1 = k then 1 else 0)" using r by simp
  ultimately show ?thesis by (simp add: q_def)
qed

lemma march_days_Suc: "march_days (y + 1) = march_days y + (if leap (y + 1) then 366 else 365)"
proof -
  define z where "z = y + 1"
  have q: "z div 4 = y div 4 + (if 4 dvd z then 1 else 0)"
    "z div 100 = y div 100 + (if 100 dvd z then 1 else 0)"
    "z div 400 = y div 400 + (if 400 dvd z then 1 else 0)"
    unfolding z_def by (rule div_add_1; simp)+
  have "400 dvd z \<Longrightarrow> 100 dvd z" "100 dvd z \<Longrightarrow> 4 dvd z"
    by (erule dvd_trans [rotated], simp)+
  then have "march_days z = march_days y + (if leap z then 366 else 365)"
    unfolding march_days_def q leap_def
    by (cases "4 dvd z"; cases "100 dvd z"; cases "400 dvd z") (simp_all add: z_def)
  then show ?thesis by (simp add: z_def)
qed

lemma days_from_civil_march:
  assumes "1 \<le> m" "m \<le> 12"
  shows "days_from_civil y m d =
    march_days (if m \<le> 2 then y - 1 else y) + month_start ((m + 9) mod 12) + d - 719469"
proof -
  define y' where "y' = (if m \<le> 2 then y - 1 else y)"
  have "y' - y' div 400 * 400 = y' mod 400" by (simp add: minus_div_mult_eq_mod)
  then show ?thesis
    using assms by (simp add: days_from_civil_def Let_def y'_def [symmetric] march_days_era month_start_def year_start_def)
qed

lemma month_cases:
  assumes "1 \<le> m" "m \<le> (12 :: int)"
  shows "m = 1 \<or> m = 2 \<or> m = 3 \<or> m = 4 \<or> m = 5 \<or> m = 6 \<or> m = 7 \<or> m = 8 \<or> m = 9 \<or> m = 10 \<or> m = 11 \<or> m = 12"
  using assms by presburger

text \<open>
  Counting days agrees with the calendar: the count of the day after a date is one more.
\<close>

lemma days_from_civil_next:
  assumes "civil_date y m d"
  shows "civil_date (fst (next_date (y, m, d))) (fst (snd (next_date (y, m, d)))) (snd (snd (next_date (y, m, d))))"
    and "(case next_date (y, m, d) of (y', m', d') \<Rightarrow> days_from_civil y' m' d') = days_from_civil y m d + 1"
proof -
  from assms have m: "1 \<le> m" "m \<le> 12" and d: "1 \<le> d" "d \<le> month_len y m"
    by (auto simp: civil_date_def)
  have len: "1 \<le> month_len y k" for y k by (simp add: month_len_def)
  show "civil_date (fst (next_date (y, m, d))) (fst (snd (next_date (y, m, d)))) (snd (snd (next_date (y, m, d))))"
    using m d len [of y "m + 1"] len [of "y + 1" 1] by (auto simp: civil_date_def)
  show "(case next_date (y, m, d) of (y', m', d') \<Rightarrow> days_from_civil y' m' d') = days_from_civil y m d + 1"
  proof (cases "d < month_len y m")
    case True
    with m show ?thesis by (simp add: days_from_civil_march)
  next
    case False
    with d have d: "d = month_len y m" by simp
    have feb: "march_days y = march_days (y - 1) + (if leap y then 366 else 365)"
      using march_days_Suc [of "y - 1"] by simp
    from month_cases [OF m] show ?thesis
      by (elim disjE) (simp_all add: d days_from_civil_march month_len_def month_start_def feb)
  qed
qed

lemma year_end_eq:
  assumes "0 \<le> yoe" "yoe \<le> 399"
  shows "year_end yoe = year_start yoe + (if leap (yoe + 1) then 365 else 364)"
proof -
  have "march_days (yoe + 1) = year_end yoe + 1"
    using assms by (cases "yoe = 399") (simp_all add: march_days_def year_end_def year_start_def)
  moreover have "march_days yoe = year_start yoe"
    using assms by (simp add: march_days_def year_start_def)
  ultimately show ?thesis using march_days_Suc [of yoe] by (simp split: if_splits)
qed

lemma leap_add_era: "leap (e * 400 + y) = leap y"
proof -
  have "k dvd e * 400 + y \<longleftrightarrow> k dvd y" if "k dvd (400 :: int)" for k
    by (rule dvd_add_right_iff) (rule dvd_mult [OF that])
  then show ?thesis by (simp add: leap_def)
qed

text \<open>The two conversions are inverse to each other.\<close>

lemma civil_days_eqs:
  fixes n :: int
  defines "z \<equiv> n + 719468"
  defines "doe \<equiv> z mod 146097"
  defines "yoe \<equiv> year_of_doe doe"
  defines "doy \<equiv> doe - year_start yoe"
  defines "mp \<equiv> month_of_doy doy"
  shows "civil_from_days n =
      (let m = (if mp < 10 then mp + 3 else mp - 9)
       in (yoe + z div 146097 * 400 + (if m \<le> 2 then 1 else 0), m, doy - month_start mp + 1))"
    and "0 \<le> yoe" "yoe \<le> 399" "0 \<le> doy" "doy \<le> (if leap (yoe + 1) then 365 else 364)"
    and "0 \<le> mp" "mp \<le> 11" "month_start mp \<le> doy" "doy < month_start (mp + 1)"
proof -
  have doe: "0 \<le> doe" "doe < 146097" by (simp_all add: doe_def)
  note y = year_of_doe_bounds [OF doe, folded yoe_def]
  show yoe: "0 \<le> yoe" "yoe \<le> 399" by (fact y)+
  show doy: "0 \<le> doy" "doy \<le> (if leap (yoe + 1) then 365 else 364)"
    using y by (simp_all add: doy_def year_end_eq)
  have "doy \<le> 365" using doy(2) by (simp split: if_splits)
  note m = month_of_doy_bounds [OF doy(1) this, folded mp_def]
  show mp: "0 \<le> mp" "mp \<le> 11" "month_start mp \<le> doy" "doy < month_start (mp + 1)" by (fact m)+
  have doe_eq: "z - z div 146097 * 146097 = doe" by (simp add: doe_def minus_div_mult_eq_mod)
  have yoe_eq: "(doe - doe sdiv 1460 + doe sdiv 36524 - doe sdiv 146096) sdiv 365 = yoe"
  proof -
    have "0 \<le> doe - doe div 1460 + doe div 36524 - doe div 146096" using doe by linarith
    then show ?thesis using doe by (simp add: yoe_def year_of_doe_def)
  qed
  have doy_eq: "doe - (365 * yoe + yoe sdiv 4 - yoe sdiv 100) = doy"
    using yoe by (simp add: doy_def year_start_def)
  have mp_eq: "(5 * doy + 2) sdiv 153 = mp" "(153 * mp + 2) sdiv 5 = month_start mp"
    using doy mp by (simp_all add: mp_def month_of_doy_def month_start_def)
  show "civil_from_days n =
      (let m = (if mp < 10 then mp + 3 else mp - 9)
       in (yoe + z div 146097 * 400 + (if m \<le> 2 then 1 else 0), m, doy - month_start mp + 1))"
    by (simp only: civil_from_days_def Let_def z_def [symmetric] doe_eq yoe_eq doy_eq mp_eq)
qed

lemma days_of_civil_of_days:
  "civil_from_days n = (y, m, d) \<Longrightarrow> civil_date y m d \<and> days_from_civil y m d = n"
proof -
  assume civil: "civil_from_days n = (y, m, d)"
  define z where "z = n + 719468"
  define doe where "doe = z mod 146097"
  define yoe where "yoe = year_of_doe doe"
  define doy where "doy = doe - year_start yoe"
  define mp where "mp = month_of_doy doy"
  note eqs = civil_days_eqs [of n, folded z_def, folded doe_def, folded yoe_def, folded doy_def, folded mp_def]
  from civil eqs(1) have m: "m = (if mp < 10 then mp + 3 else mp - 9)"
    and y: "y = yoe + z div 146097 * 400 + (if m \<le> 2 then 1 else 0)"
    and d: "d = doy - month_start mp + 1"
    by (auto simp: Let_def)
  have mr: "1 \<le> m" "m \<le> 12" "(m + 9) mod 12 = mp"
    using eqs(6,7) by (auto simp: m)
  have y': "(if m \<le> 2 then y - 1 else y) = z div 146097 * 400 + yoe" by (simp add: y)
  have "days_from_civil y m d = march_days (z div 146097 * 400 + yoe) + month_start mp + d - 719469"
    using mr by (simp add: days_from_civil_march y')
  also have "march_days (z div 146097 * 400 + yoe) = z div 146097 * 146097 + year_start yoe"
    using eqs(2,3) by (simp add: march_days_era)
  finally have "days_from_civil y m d = z div 146097 * 146097 + doe - 719468"
    by (simp add: d doy_def)
  then have n: "days_from_civil y m d = n" by (simp add: doe_def z_def)
  have "d \<le> month_len y m"
  proof (cases "m = 2")
    case True
    then have "mp = 11" using eqs(6,7) by (auto simp: m split: if_splits)
    moreover have "leap y = leap (yoe + 1)"
      using leap_add_era [of "z div 146097" "yoe + 1"] True by (simp add: y algebra_simps)
    ultimately show ?thesis using True eqs(5) by (simp add: d month_len_def month_start_def split: if_splits)
  next
    case False
    have "mp = 0 \<or> mp = 1 \<or> mp = 2 \<or> mp = 3 \<or> mp = 4 \<or> mp = 5 \<or> mp = 6 \<or> mp = 7 \<or> mp = 8 \<or> mp = 9 \<or> mp = 10"
    proof -
      have "mp \<noteq> 11" using False by (auto simp: m)
      with eqs(6,7) show ?thesis by presburger
    qed
    then show ?thesis using eqs(9) by (elim disjE) (simp_all add: d m month_len_def month_start_def)
  qed
  with mr eqs(8) n show ?thesis by (simp add: civil_date_def d)
qed

lemma civil_of_days_of_civil:
  assumes "civil_date y m d"
  shows "civil_from_days (days_from_civil y m d) = (y, m, d)"
proof -
  from assms have m: "1 \<le> m" "m \<le> 12" and d: "1 \<le> d" "d \<le> month_len y m"
    by (auto simp: civil_date_def)
  define y' where "y' = (if m \<le> 2 then y - 1 else y)"
  define mp where "mp = (m + 9) mod 12"
  define doy where "doy = month_start mp + d - 1"
  define n where "n = days_from_civil y m d"
  define yoe where "yoe = y' mod 400"
  have mp: "0 \<le> mp" "mp \<le> 11" by (simp_all add: mp_def)
  have leap_y: "leap (y' + 1) = leap (yoe + 1)"
    using leap_add_era [of "y' div 400" "yoe + 1"] by (simp add: yoe_def algebra_simps)
  have doy: "0 \<le> doy" "doy < month_start (mp + 1)" "doy \<le> (if leap (yoe + 1) then 365 else 364)"
    unfolding leap_y [symmetric]
    using month_cases [OF m] d
    by (elim disjE; simp add: doy_def mp_def month_len_def month_start_def y'_def split: if_splits)+
  have yoe: "0 \<le> yoe" "yoe \<le> 399" by (simp_all add: yoe_def)
  define doe where "doe = year_start yoe + doy"
  have ye: "doe \<le> year_end yoe" and ys: "year_start yoe \<le> doe"
    using doy by (simp_all add: doe_def year_end_eq [OF yoe])
  have y_eq: "year_of_doe doe = yoe" by (rule year_of_doe_eq [OF yoe ys ye])
  have doe: "0 \<le> doe" "doe < 146097"
  proof -
    have "0 \<le> year_start yoe" using yoe by (simp add: year_start_def)
    with ys show "0 \<le> doe" by simp
    have "year_start 400 + 1 = 146097" by (simp add: year_start_def)
    moreover have "year_end yoe \<le> year_start 400"
      using yoe by (auto simp: year_end_def year_start_def)
    ultimately show "doe < 146097" using ye by simp
  qed
  have z: "n + 719468 = y' div 400 * 146097 + doe"
    using m by (simp add: n_def days_from_civil_march march_days_era doe_def doy_def y'_def [symmetric]
        mp_def [symmetric] yoe_def [symmetric])
  then have "(n + 719468) mod 146097 = doe" "(n + 719468) div 146097 = y' div 400"
    using doe by simp_all
  moreover have "month_of_doy doy = mp"
    using mp doy d by (intro month_of_doy_eq) (simp_all add: doy_def)
  ultimately have "civil_from_days n =
      (let m = (if mp < 10 then mp + 3 else mp - 9)
       in (yoe + y' div 400 * 400 + (if m \<le> 2 then 1 else 0), m, doy - month_start mp + 1))"
    using civil_days_eqs(1) [of n] y_eq by (simp add: doe_def)
  moreover have "(if mp < 10 then mp + 3 else mp - 9) = m"
    using month_cases [OF m] by (elim disjE) (simp_all add: mp_def)
  moreover have "yoe + y' div 400 * 400 = y'" by (simp add: yoe_def)
  ultimately show ?thesis by (auto simp: n_def doy_def y'_def Let_def)
qed

lemma march_days_mono: "a \<le> b \<Longrightarrow> march_days a \<le> march_days b"
  by (induction rule: int_ge_induct) (auto simp: march_days_Suc)

lemma days_from_civil_in_year:
  assumes "civil_date y m d"
  shows "days_from_civil y 1 1 \<le> days_from_civil y m d" "days_from_civil y m d < days_from_civil (y + 1) 1 1"
proof -
  from assms have m: "1 \<le> m" "m \<le> 12" and d: "1 \<le> d" "d \<le> month_len y m"
    by (auto simp: civil_date_def)
  have feb: "march_days y = march_days (y - 1) + (if leap y then 366 else 365)"
    using march_days_Suc [of "y - 1"] by simp
  show "days_from_civil y 1 1 \<le> days_from_civil y m d" "days_from_civil y m d < days_from_civil (y + 1) 1 1"
    using month_cases [OF m] d feb
    by (elim disjE; simp add: days_from_civil_march month_len_def month_start_def split: if_splits)+
qed

lemma civil_year_range:
  assumes "civil_date y m d"
  shows "0 \<le> y \<and> y \<le> 9999 \<longleftrightarrow> - 719528 \<le> days_from_civil y m d \<and> days_from_civil y m d \<le> 2932896"
proof -
  have jan: "days_from_civil 0 1 1 = - 719528" "days_from_civil 10000 1 1 = 2932897"
    by (simp_all add: days_from_civil_march march_days_def month_start_def)
  have mono: "a \<le> b \<Longrightarrow> days_from_civil a 1 1 \<le> days_from_civil b 1 1" for a b
    using march_days_mono [of "a - 1" "b - 1"] by (simp add: days_from_civil_march)
  note yr = days_from_civil_in_year [OF assms]
  show ?thesis
  proof (intro iffI conjI; elim conjE)
    assume "0 \<le> y" "y \<le> 9999"
    then show "- 719528 \<le> days_from_civil y m d" "days_from_civil y m d \<le> 2932896"
      using mono [of 0 y] mono [of "y + 1" 10000] yr jan by auto
  next
    assume r: "- 719528 \<le> days_from_civil y m d" "days_from_civil y m d \<le> 2932896"
    show "0 \<le> y" using mono [of "y + 1" 0] yr jan r by (cases "0 \<le> y") auto
    show "y \<le> 9999" using mono [of 10000 y] yr jan r by (cases "y \<le> 9999") auto
  qed
qed

section \<open>Conversions with Unix seconds\<close>

lemma is_leap_year_leap: "is_leap_year y \<longleftrightarrow> leap (uint y)"
proof -
  have "numeral k dvd uint y \<longleftrightarrow> numeral k dvd unat y" for k
    using int_dvd_int_iff [of "numeral k" "unat y"] by simp
  then show ?thesis by (simp add: is_leap_year_def leap_def)
qed

lemma word_month_cases:
  fixes w :: u8
  shows "1 \<le> uint w \<and> uint w \<le> 12 \<longleftrightarrow> w \<in> {1, 2, 3, 4, 5, 6, 7, 8, 9, 10, 11, 12}" (is "?l \<longleftrightarrow> ?r")
proof
  assume ?l
  then have "uint w = 1 \<or> uint w = 2 \<or> uint w = 3 \<or> uint w = 4 \<or> uint w = 5 \<or> uint w = 6 \<or> uint w = 7
    \<or> uint w = 8 \<or> uint w = 9 \<or> uint w = 10 \<or> uint w = 11 \<or> uint w = 12"
    using month_cases by blast
  then show ?r by (simp add: word_uint_eq_iff)
qed auto

text \<open>A date-time is valid exactly when it names a day of the years 0 to 9999 and a time of day.\<close>

lemma is_valid_iff:
  "is_valid dt \<longleftrightarrow>
     civil_date (uint (dt_year dt)) (uint (dt_month dt)) (uint (dt_day dt)) \<and> uint (dt_year dt) \<le> 9999
     \<and> uint (dt_hour dt) \<le> 23 \<and> uint (dt_minute dt) \<le> 59 \<and> uint (dt_second dt) \<le> 59"
proof -
  let ?y = "dt_year dt" and ?m = "dt_month dt" and ?d = "dt_day dt"
  have "(1 \<le> ?d \<and> ?d \<le> days_in_month ?y ?m) \<longleftrightarrow> civil_date (uint ?y) (uint ?m) (uint ?d)"
  proof (cases "1 \<le> uint ?m \<and> uint ?m \<le> 12")
    case True
    then have "?m \<in> {1, 2, 3, 4, 5, 6, 7, 8, 9, 10, 11, 12}" by (simp only: word_month_cases)
    then show ?thesis
      by (auto simp: civil_date_def days_in_month_def month_len_def is_leap_year_leap word_le_def)
  next
    case False
    then have "days_in_month ?y ?m = 0"
      using word_month_cases [of ?m] by (auto simp: days_in_month_def)
    with False show ?thesis by (auto simp: civil_date_def)
  qed
  then show ?thesis by (auto simp: is_valid_def word_le_def)
qed

definition offset_ok :: "UtcOffset \<Rightarrow> bool" where
  "offset_ok ofs \<longleftrightarrow> -1440 < minutes ofs \<and> minutes ofs < 1440"

lemma offset_ok_from_minutes: "from_minutes m = Some ofs \<longleftrightarrow> offset_ok ofs \<and> m = minutes ofs"
  by (auto simp: from_minutes_def offset_ok_def)

lemma uint_word_of_int_small:
  "0 \<le> k \<Longrightarrow> k < 2 ^ LENGTH('a) \<Longrightarrow> uint (word_of_int k :: 'a::len word) = k"
  by (simp add: uint_word_of_int)

text \<open>The local day and second of day a count of local seconds falls on.\<close>

lemma from_unix_seconds_Some:
  assumes ofs: "from_unix_seconds secs ofs = Some dt"
  shows "is_valid dt" "dt_offset dt = Some ofs" "to_unix_seconds dt = Some secs"
proof -
  define loc where "loc = secs + seconds ofs"
  define n where "n = loc div 86400"
  define t where "t = loc mod 86400"
  obtain y m d where ymd: "civil_from_days n = (y, m, d)" by (cases "civil_from_days n")
  then have date: "civil_date y m d" and days: "days_from_civil y m d = n"
    using days_of_civil_of_days by auto
  from ofs have range: "-62167219200 \<le> loc" "loc \<le> 253402300799"
    and dt: "dt = \<lparr>dt_year = word_of_int y, dt_month = word_of_int m, dt_day = word_of_int d,
                 dt_hour = word_of_int (t sdiv 3600), dt_minute = word_of_int (t sdiv 60 smod 60),
                 dt_second = word_of_int (t smod 60), dt_offset = Some ofs\<rparr>"
    using ymd by (auto simp: from_unix_seconds_def checked_add_i64_def loc_def n_def t_def SECONDS_PER_DAY_def
        MIN_UNIX_SECONDS_def MAX_UNIX_SECONDS_def bind_eq_Some_conv Let_def split: if_splits)
  have "- 719528 \<le> n" "n \<le> 2932896" using range by (auto simp: n_def)
  then have y: "0 \<le> y" "y \<le> 9999" using civil_year_range [OF date] by (auto simp: days)
  have t: "0 \<le> t" "t < 86400" by (simp_all add: t_def)
  then have hms: "t div 3600 \<le> 23" "0 \<le> t div 3600" by auto
  have ms: "t div 60 mod 60 \<le> 59" "t mod 60 \<le> 59" by linarith+
  have md: "1 \<le> m" "m \<le> 12" "1 \<le> d" "d \<le> 31"
    using date by (auto simp: civil_date_def month_len_def split: if_splits)
  note u = uint_word_of_int_small
  have fields: "uint (dt_year dt) = y" "uint (dt_month dt) = m" "uint (dt_day dt) = d"
    "uint (dt_hour dt) = t div 3600" "uint (dt_minute dt) = t div 60 mod 60" "uint (dt_second dt) = t mod 60"
    using y md t hms by (simp_all add: dt u order.strict_trans1 [OF pos_mod_bound [THEN less_imp_le]])
  show valid: "is_valid dt" using date y hms ms by (simp add: is_valid_iff fields)
  show dt_ofs: "dt_offset dt = Some ofs" by (simp add: dt)
  have "t div 3600 * 3600 + t div 60 mod 60 * 60 + t mod 60 = t"
  proof -
    define q where "q = t div 60"
    have "t div 3600 = q div 60" by (simp add: q_def flip: zdiv_zmult2_eq)
    moreover have "q div 60 * 60 + q mod 60 = q" "q * 60 + t mod 60 = t" by (simp_all add: q_def)
    ultimately show ?thesis unfolding q_def [symmetric] by linarith
  qed
  moreover have "n * 86400 + t = loc" by (simp add: n_def t_def)
  ultimately show "to_unix_seconds dt = Some secs"
    using valid
    by (simp add: to_unix_seconds_def to_unix_seconds_with_fallback_def fields days SECONDS_PER_DAY_def Let_def
        dt_ofs loc_def)
qed

lemma from_unix_seconds_defined:
  "from_unix_seconds secs ofs \<noteq> None \<longleftrightarrow>
     MIN_UNIX_SECONDS \<le> secs + seconds ofs \<and> secs + seconds ofs \<le> MAX_UNIX_SECONDS"
  by (auto simp: from_unix_seconds_def checked_add_i64_def in_i64_def MIN_UNIX_SECONDS_def
      MAX_UNIX_SECONDS_def Let_def split: prod.splits)

lemma to_unix_seconds_local:
  assumes "is_valid dt" "dt_offset dt = Some ofs" "to_unix_seconds dt = Some secs"
  shows "(secs + seconds ofs) div 86400 = days_from_civil (uint (dt_year dt)) (uint (dt_month dt)) (uint (dt_day dt))"
    and "(secs + seconds ofs) mod 86400
       = uint (dt_hour dt) * 3600 + uint (dt_minute dt) * 60 + uint (dt_second dt)"
proof -
  define n where "n = days_from_civil (uint (dt_year dt)) (uint (dt_month dt)) (uint (dt_day dt))"
  define t where "t = uint (dt_hour dt) * 3600 + uint (dt_minute dt) * 60 + uint (dt_second dt)"
  have "secs + seconds ofs = t + n * 86400"
    using assms by (auto simp: to_unix_seconds_def to_unix_seconds_with_fallback_def SECONDS_PER_DAY_def Let_def
        n_def t_def)
  moreover have "0 \<le> t" "t < 86400"
    using assms(1) uint_ge_0 [of "dt_hour dt"] uint_ge_0 [of "dt_minute dt"] uint_ge_0 [of "dt_second dt"]
    unfolding is_valid_iff t_def by linarith+
  ultimately show "(secs + seconds ofs) div 86400 = n" "(secs + seconds ofs) mod 86400 = t"
    by simp_all
qed

lemma hms_parts:
  fixes h m s :: int
  assumes "0 \<le> h" "0 \<le> m" "0 \<le> s" "m \<le> 59" "s \<le> 59"
  defines "t \<equiv> h * 3600 + m * 60 + s"
  shows "t div 3600 = h" "t div 60 mod 60 = m" "t mod 60 = s" "0 \<le> t" "0 \<le> t div 60"
proof -
  define v where "v = m + h * 60"
  have t: "t = s + v * 60" by (simp add: t_def v_def)
  have "t div 60 = v" and "t mod 60 = s"
    unfolding t using assms(3,5) by simp_all
  then have d: "t div 60 = m + h * 60" and "t mod 60 = s" by (simp_all add: v_def)
  then show "t div 60 mod 60 = m" "t mod 60 = s" "0 \<le> t div 60" "0 \<le> t"
    using assms by simp_all
  show "t div 3600 = h"
    using zdiv_zmult2_eq [of 60 t 60] assms(2,4) by (simp add: d)
qed

lemma from_to_unix_seconds:
  assumes "is_valid dt" "dt_offset dt = Some ofs"
  shows "\<exists>secs. to_unix_seconds dt = Some secs \<and> from_unix_seconds secs ofs = Some dt"
proof -
  from assms obtain secs where secs: "to_unix_seconds dt = Some secs"
    by (auto simp: to_unix_seconds_def to_unix_seconds_with_fallback_def Let_def)
  note loc = to_unix_seconds_local [OF assms secs]
  define l where "l = secs + seconds ofs"
  from assms(1) have date: "civil_date (uint (dt_year dt)) (uint (dt_month dt)) (uint (dt_day dt))"
    and year: "uint (dt_year dt) \<le> 9999" and time: "uint (dt_hour dt) \<le> 23" "uint (dt_minute dt) \<le> 59" "uint (dt_second dt) \<le> 59"
    by (auto simp: is_valid_iff)
  have "- 719528 \<le> l div 86400" "l div 86400 \<le> 2932896"
    using civil_year_range [OF date] year by (auto simp: loc [folded l_def])
  then have range: "-62167219200 \<le> l" "l \<le> 253402300799" by auto
  have civil: "civil_from_days (l div 86400) = (uint (dt_year dt), uint (dt_month dt), uint (dt_day dt))"
    by (simp add: loc [folded l_def] civil_of_days_of_civil [OF date])
  define h m s where "h = uint (dt_hour dt)" and "m = uint (dt_minute dt)" and "s = uint (dt_second dt)"
  have "0 \<le> h" "0 \<le> m" "0 \<le> s" "m \<le> 59" "s \<le> 59" using time by (simp_all add: h_def m_def s_def)
  note parts = hms_parts [OF this]
  have "from_unix_seconds secs ofs = Some dt"
    using range civil parts assms(2)
    by (simp add: from_unix_seconds_def checked_add_i64_def in_i64_def MIN_UNIX_SECONDS_def MAX_UNIX_SECONDS_def
        SECONDS_PER_DAY_def Let_def l_def [symmetric] loc(2) [folded l_def h_def m_def s_def])
      (simp add: h_def m_def s_def)
  with secs show ?thesis by blast
qed

section \<open>Formatting and parsing\<close>

declare decimal.simps [simp del]

lemma decimal_10 [simp]: "n < 10 \<Longrightarrow> decimal n = [48 + n]"
  by (simp add: decimal.simps)

lemma decimal_step: "10 \<le> n \<Longrightarrow> decimal n = decimal (n div 10) @ [48 + n mod 10]"
  by (simp add: decimal.simps [of n])

lemma fmt_width_2:
  assumes "n < 100"
  shows "fmt_width 2 n = [48 + n div 10, 48 + n mod 10]"
  using assms by (cases "n < 10") (simp_all add: fmt_width_def decimal_step)

lemma replicate_small: "replicate 2 x = [x, x]" "replicate 3 x = [x, x, x]"
  by (simp_all add: eval_nat_numeral)

lemma fmt_width_4:
  assumes "n < 10000"
  shows "fmt_width 4 n = [48 + n div 1000, 48 + n div 100 mod 10, 48 + n div 10 mod 10, 48 + n mod 10]"
proof -
  have div: "n div 10 div 10 = n div 100" "n div 10 div 10 div 10 = n div 1000" "n div 100 div 10 = n div 1000"
    by (simp_all flip: div_mult2_eq)
  consider "n < 10" | "10 \<le> n" "n < 100" | "100 \<le> n" "n < 1000" | "1000 \<le> n" by linarith
  then show ?thesis
  proof cases
    case 4
    then have "n div 1000 < 10" "10 \<le> n div 10" "10 \<le> n div 100" using assms by auto
    with 4 show ?thesis by (simp add: fmt_width_def decimal_step div)
  next
    case 3
    then have "n div 100 < 10" "10 \<le> n div 10" by auto
    with 3 show ?thesis by (simp add: fmt_width_def decimal_step div)
  qed (simp_all add: fmt_width_def decimal_step replicate_small)
qed

lemma as_bytes_ascii: "list_all (\<lambda>c. c < 128) s \<Longrightarrow> as_bytes s = map word_of_nat s"
  by (induction s) (auto simp: as_bytes_def utf8_char_def)

abbreviation digit :: "nat \<Rightarrow> u8" where
  "digit d \<equiv> word_of_nat (48 + d)"

lemma unat_digit: "d < 10 \<Longrightarrow> unat (digit d) = 48 + d"
  by (simp add: unat_of_nat del: of_nat_add)

lemma digit_is_digit: "d < 10 \<Longrightarrow> is_ascii_digit (digit d)"
  by (simp add: is_ascii_digit_def word_le_nat_alt unat_digit del: of_nat_add)

lemma digit_value: "d < 10 \<Longrightarrow> (ucast (digit d - 48) :: u16) = word_of_nat d"
proof -
  assume "d < 10"
  have "digit d - 48 = word_of_nat d" by simp
  moreover have "unat (ucast (word_of_nat d :: u8) :: u16) = unat (word_of_nat d :: u16)"
    using \<open>d < 10\<close> by (simp add: unsigned_ucast_eq unat_of_nat take_bit_eq_mod)
  ultimately show ?thesis by (simp add: word_unat_eq_iff)
qed

lemma parse_digits_2: "a < 10 \<Longrightarrow> b < 10 \<Longrightarrow> parse_digits 2 [digit a, digit b] = Some (word_of_nat (10 * a + b))"
  by (simp add: parse_digits_def digit_is_digit digit_value del: of_nat_add) simp

lemma parse_digits_4:
  "a < 10 \<Longrightarrow> b < 10 \<Longrightarrow> c < 10 \<Longrightarrow> d < 10 \<Longrightarrow>
    parse_digits 4 [digit a, digit b, digit c, digit d] = Some (word_of_nat (1000 * a + 100 * b + 10 * c + d))"
  by (simp add: parse_digits_def digit_is_digit digit_value del: of_nat_add) (simp add: algebra_simps)

lemma parse_fmt_2:
  assumes "n < 100"
  shows "parse_digits 2 (map word_of_nat (fmt_width 2 n)) = Some (word_of_nat n)"
proof -
  have "n div 10 < 10" "10 * (n div 10) + n mod 10 = n" using assms by auto
  with parse_digits_2 [of "n div 10" "n mod 10"] show ?thesis
    by (simp only: fmt_width_2 [OF assms] list.map)
qed

lemma parse_fmt_4:
  assumes "n < 10000"
  shows "parse_digits 4 (map word_of_nat (fmt_width 4 n)) = Some (word_of_nat n)"
proof -
  have "n div 1000 < 10" using assms by simp
  moreover have "1000 * (n div 1000) + 100 * (n div 100 mod 10) + 10 * (n div 10 mod 10) + n mod 10 = n"
  proof -
    define a b where "a = n div 10" and "b = a div 10"
    have "n div 100 = b" "n div 1000 = b div 10" by (simp_all add: a_def b_def flip: div_mult2_eq)
    moreover have "n = 10 * a + n mod 10" "a = 10 * b + a mod 10" "b = 10 * (b div 10) + b mod 10"
      by (simp_all add: a_def b_def)
    ultimately show ?thesis by (simp only: a_def [symmetric])
  qed
  ultimately show ?thesis
    using parse_digits_4 [of "n div 1000" "n div 100 mod 10" "n div 10 mod 10" "n mod 10"]
    by (simp only: fmt_width_4 [OF assms] list.map)
qed

lemma length_fmt_2 [simp]: "n < 100 \<Longrightarrow> length (fmt_width 2 n) = 2"
  by (simp add: fmt_width_2)

lemma length_fmt_4 [simp]: "n < 10000 \<Longrightarrow> length (fmt_width 4 n) = 4"
  by (simp add: fmt_width_4)

lemma fmt_ascii: "n < 100 \<Longrightarrow> list_all (\<lambda>c. 0 < c \<and> c < 128) (fmt_width 2 n)" "k < 10000 \<Longrightarrow> list_all (\<lambda>c. 0 < c \<and> c < 128) (fmt_width 4 k)"
  by (auto simp: fmt_width_2 fmt_width_4)

lemma narrow_small: "n < 256 \<Longrightarrow> narrow (word_of_nat n) = Some (word_of_nat n)"
  by (auto simp: narrow_def word_le_nat_alt unat_of_nat word_unat_eq_iff unsigned_ucast_eq take_bit_eq_mod)

lemma narrow_ucast [simp]: "narrow (ucast (w :: u8)) = Some w"
  using narrow_small [of "unat w"] unsigned_less [of w] by simp

lemma parse_suffix_format_offset:
  assumes "\<And>x. ofs = Some x \<Longrightarrow> offset_ok x"
  shows "parse_suffix (map word_of_nat (format_offset ofs)) = Ok ofs"
proof (cases ofs)
  case None
  then show ?thesis by (simp add: format_offset_def parse_suffix_def strip_tenths_def)
next
  case (Some x)
  show ?thesis
  proof (cases "x = UTC")
    case True
    with Some show ?thesis
      by (simp add: format_offset_def parse_suffix_def strip_tenths_def str_def of_char_def)
  next
    case False
    define a where "a = nat \<bar>minutes x\<bar>"
    have ok: "offset_ok x" using assms Some by simp
    then have a: "a div 60 \<le> 23" "a mod 60 \<le> 59" "a < 1440" by (auto simp: a_def offset_ok_def)
    have n0: "minutes x \<noteq> 0" using False by (auto simp: UTC_def)
    let ?h = "map word_of_nat (fmt_width 2 (a div 60)) :: bytes" and ?m = "map word_of_nat (fmt_width 2 (a mod 60)) :: bytes"
    have len: "length ?h = 2" using a by simp
    have digs: "parse_digits 2 ?h = Some (word_of_nat (a div 60))" "parse_digits 2 ?m = Some (word_of_nat (a mod 60))"
      using a by (auto intro!: parse_fmt_2)
    have total: "uint ((word_of_nat (a div 60) :: u16) * 60 + word_of_nat (a mod 60)) = int a"
    proof -
      have "(word_of_nat (a div 60) :: u16) * 60 + word_of_nat (a mod 60) = word_of_nat (a div 60 * 60 + a mod 60)"
        by (simp only: of_nat_add of_nat_mult) simp
      also have "\<dots> = word_of_nat a" by simp
      finally show ?thesis using a(3) by (simp add: unsigned_of_nat take_bit_eq_mod)
    qed
    have le: "\<not> (23 < (word_of_nat (a div 60) :: u16) \<or> 59 < (word_of_nat (a mod 60) :: u16))"
      using a by (simp add: word_less_nat_alt unat_of_nat)
    have fm: "from_minutes (if minutes x < 0 then - int a else int a) = Some x"
      using ok by (auto simp: offset_ok_from_minutes a_def)
    have sgn: "parse_suffix (s # ?h @ ?m) = map_ok Some (or_none (from_minutes (if s = 0x2D then - int a else int a)))"
      if "s = 0x2B \<or> s = 0x2D" for s
      using that len digs le by (auto simp: parse_suffix_def strip_tenths_def total Let_def)
    show ?thesis
      using fm False n0 sgn [of 43] sgn [of 45]
      by (simp add: Some format_offset_def a_def [symmetric] Let_def str_def of_char_def split: if_splits)
  qed
qed

lemma format_offset_ascii:
  assumes "\<And>x. ofs = Some x \<Longrightarrow> offset_ok x"
  shows "list_all (\<lambda>c. 0 < c \<and> c < 128) (format_offset ofs)"
  using assms
  by (auto simp: format_offset_def str_def of_char_def Let_def offset_ok_def split: option.splits intro!: fmt_ascii)

lemma length_format_offset:
  assumes "\<And>x. ofs = Some x \<Longrightarrow> offset_ok x"
  shows "length (format_offset ofs) \<le> 5"
proof (cases ofs)
  case (Some x)
  then have "nat \<bar>minutes x\<bar> div 60 < 100" using assms by (auto simp: offset_ok_def)
  with Some show ?thesis by (simp add: format_offset_def Let_def)
qed (simp add: format_offset_def)

lemma parse_format:
  assumes "format dt = Some s" and "\<And>x. dt_offset dt = Some x \<Longrightarrow> offset_ok x"
  shows "parse s = Some dt" "list_all (\<lambda>c. 0 < c \<and> c < 128) s" "length s \<le> 20"
proof -
  from assms(1) have valid: "is_valid dt" by (auto simp: format_def split: if_splits)
  let ?y = "unat (dt_year dt)" and ?mo = "unat (dt_month dt)" and ?d = "unat (dt_day dt)"
    and ?h = "unat (dt_hour dt)" and ?mi = "unat (dt_minute dt)" and ?s = "unat (dt_second dt)"
    and ?w = "map word_of_nat :: rstr \<Rightarrow> bytes"
  have "uint (dt_year dt) < 10000" "uint (dt_month dt) < 100" "uint (dt_day dt) < 100" "uint (dt_hour dt) < 100"
    "uint (dt_minute dt) < 100" "uint (dt_second dt) < 100"
    using valid by (auto simp: is_valid_iff civil_date_def month_len_def split: if_splits)
  then have b: "?y < 10000" "?mo < 100" "?d < 100" "?h < 100" "?mi < 100" "?s < 100"
    unfolding unat_eq_nat_uint by linarith+
  have s: "s = fmt_width 4 ?y @ fmt_width 2 ?mo @ fmt_width 2 ?d @ [84] @ fmt_width 2 ?h @ fmt_width 2 ?mi
      @ fmt_width 2 ?s @ format_offset (dt_offset dt)"
    using assms(1) valid by (simp add: format_def str_def of_char_def)
  show ascii: "list_all (\<lambda>c. 0 < c \<and> c < 128) s"
    using b format_offset_ascii [OF assms(2)] by (simp add: s fmt_ascii)
  show "length s \<le> 20" using b length_format_offset [OF assms(2)] by (simp add: s)
  have "list_all (\<lambda>c. c < 128) s" using ascii by (auto simp: list_all_iff)
  then have bytes: "as_bytes s = ?w (fmt_width 4 ?y) @ ?w (fmt_width 2 ?mo) @ ?w (fmt_width 2 ?d) @ [0x54]
      @ ?w (fmt_width 2 ?h) @ ?w (fmt_width 2 ?mi) @ ?w (fmt_width 2 ?s) @ ?w (format_offset (dt_offset dt))"
    by (simp add: as_bytes_ascii) (simp add: s)
  have nth8: "index (as_bytes s) 8 = Ok (0x54 :: u8)" unfolding bytes using b by (simp add: index_def nth_append)
  have len: "\<not> length (as_bytes s) < 15" unfolding bytes using b by simp
  have fields: "slice (as_bytes s) 0 4 = Ok (?w (fmt_width 4 ?y))" "parse_field (as_bytes s) 4 6 = Ok (dt_month dt)"
    "parse_field (as_bytes s) 6 8 = Ok (dt_day dt)" "parse_field (as_bytes s) 9 11 = Ok (dt_hour dt)"
    "parse_field (as_bytes s) 11 13 = Ok (dt_minute dt)" "parse_field (as_bytes s) 13 15 = Ok (dt_second dt)"
    "slice_from (as_bytes s) 15 = Ok (?w (format_offset (dt_offset dt)))"
    unfolding bytes parse_field_def using b by (simp_all add: slice_def slice_from_def parse_fmt_2 narrow_small)
  have new: "DateTime_new (dt_year dt) (dt_month dt) (dt_day dt) (dt_hour dt) (dt_minute dt) (dt_second dt)
      = Some (dt\<lparr>dt_offset := None\<rparr>)"
    using valid by (simp add: DateTime_new_def is_valid_def Let_def)
  have suffix: "parse_suffix (?w (format_offset (dt_offset dt))) = Ok (dt_offset dt)"
    by (rule parse_suffix_format_offset) (rule assms(2))
  have "parse_bytes (as_bytes s) = Ok dt"
    using b new suffix
    unfolding parse_bytes_def if_not_P [OF len] nth8
    by (simp add: fields parse_fmt_4)
  then show "parse s = Some dt" by (simp add: parse_def)
qed

text \<open>The wire form.\<close>

lemma encode_utf16_ascii: "list_all (\<lambda>c. 0 < c \<and> c < 128) s \<Longrightarrow> encode_utf16 s = map word_of_nat s"
  by (induction s) (auto simp: encode_utf16_def encode_utf16_char_def)

lemma ascii_string: "list_all (\<lambda>c. 0 < c \<and> c < 128) s \<Longrightarrow> valid_str s \<and> 0 \<notin> set s"
  by (auto simp: valid_str_def list_all_iff is_scalar_def)

definition datetime_ok :: "DateTime \<Rightarrow> bool" where
  "datetime_ok dt \<longleftrightarrow> is_valid dt \<and> (case dt_offset dt of Some ofs \<Rightarrow> offset_ok ofs | None \<Rightarrow> True)"

lemma pack_datetime_Ok:
  assumes "datetime_ok dt"
  obtains bs where "pack_datetime dt = Ok bs" and "\<And>rest. unpack_datetime (bs @ rest) = Ok (Some dt, length bs)"
proof -
  from assms obtain s where s: "format dt = Some s" and ofs: "\<And>x. dt_offset dt = Some x \<Longrightarrow> offset_ok x"
    by (auto simp: datetime_ok_def format_def split: option.splits)
  note p = parse_format [OF s ofs]
  from p(2) have str: "valid_str s" "0 \<notin> set s" using ascii_string by auto
  have "length (encode_utf16 s) \<le> 254" using p(2,3) by (simp add: encode_utf16_ascii)
  then obtain bs where bs: "pack_string s = Ok bs"
    by (cases "s = []") (auto simp: pack_string_def Let_def MAX_STRING_UNITS_def)
  show thesis
  proof (rule that)
    show "pack_datetime dt = Ok bs" by (simp add: pack_datetime_def s bs)
    show "unpack_datetime (bs @ rest) = Ok (Some dt, length bs)" for rest
      using string.unpack_pack [of s bs rest] str bs p(1) by (simp add: unpack_datetime_parse)
  qed
qed

text \<open>The codec of an optional date-time in a dataset: an absent one is the empty string.\<close>

definition pack_opt_datetime :: "DateTime option \<Rightarrow> bytes res" where
  "pack_opt_datetime od = (case od of Some dt \<Rightarrow> pack_datetime dt | None \<Rightarrow> pack_string [])"

interpretation datetime: var_codec "\<lambda>od. case od of Some dt \<Rightarrow> datetime_ok dt | None \<Rightarrow> True"
  pack_opt_datetime unpack_datetime
proof
  show "unpack_datetime (bs @ rest) = Ok (od, length bs)"
    if "case od of Some dt \<Rightarrow> datetime_ok dt | None \<Rightarrow> True" "pack_opt_datetime od = Ok bs" for od bs rest
  proof (cases od)
    case None
    with that(2) have "pack_string [] = Ok bs" by (simp add: pack_opt_datetime_def)
    from string.unpack_pack [OF _ this, of rest] None show ?thesis
      by (simp add: unpack_datetime_parse valid_str_def parse_def as_bytes_def parse_bytes_def)
  next
    case (Some dt)
    with that(1) have "datetime_ok dt" by simp
    from pack_datetime_Ok [OF this] that(2) Some show ?thesis
      by (auto simp: pack_opt_datetime_def)
  qed
  show "returns (unpack_datetime buf) (\<lambda>(v, consumed). consumed \<le> length buf)" for buf
    using string.unpack_returns [of buf] by (auto simp: unpack_datetime_parse elim: returns_mono)
qed

section \<open>Properties\<close>

text \<open>
  C35: The calendar conversion is the proleptic Gregorian calendar. Day 0 is the first of January 1970, the day after a date has the next
  number, for every date of every year, and the two conversions are inverse to each other.
\<close>

theorem calendar_correct:
  "days_from_civil 1970 1 1 = 0
   \<and> (civil_date y m d \<longrightarrow>
        (case next_date (y, m, d) of (y', m', d') \<Rightarrow> days_from_civil y' m' d') = days_from_civil y m d + 1
        \<and> civil_from_days (days_from_civil y m d) = (y, m, d))
   \<and> (case civil_from_days n of (y', m', d') \<Rightarrow> civil_date y' m' d' \<and> days_from_civil y' m' d' = n)"
proof -
  have "days_from_civil 1970 1 1 = 0" by (simp add: days_from_civil_march march_days_def month_start_def)
  then show ?thesis
    using days_from_civil_next(2) [of y m d] civil_of_days_of_civil [of y m d] days_of_civil_of_days [of n] by (auto split: prod.splits)
qed

text \<open>The last day of February 2000 is followed by the first of March.\<close>

theorem calendar_correct_witness:
  "days_from_civil 2000 3 1 = days_from_civil 2000 2 29 + 1 \<and> civil_from_days (days_from_civil 2000 2 29) = (2000, 2, 29)"
  using calendar_correct [of 2000 2 29 0] by (simp add: civil_date_def month_len_def leap_def)

text \<open>
  C36: Unix time and calendar time convert both ways. A valid date with an offset has a Unix time, and converting that back with the offset
  returns the date; a Unix time has a date exactly when its local time falls in the years 0 to 9999, and then the date is valid and converts back.
\<close>

theorem unix_time_roundtrip:
  "(is_valid dt \<longrightarrow> dt_offset dt = Some ofs \<longrightarrow>
      (\<exists>secs. to_unix_seconds dt = Some secs \<and> from_unix_seconds secs ofs = Some dt))
   \<and> (case from_unix_seconds t ofs of
        Some dt' \<Rightarrow> is_valid dt' \<and> dt_offset dt' = Some ofs \<and> to_unix_seconds dt' = Some t
      | None \<Rightarrow> t + seconds ofs < MIN_UNIX_SECONDS \<or> MAX_UNIX_SECONDS < t + seconds ofs)"
  using from_to_unix_seconds [of dt ofs] from_unix_seconds_Some [of t ofs] from_unix_seconds_defined [of t ofs]
  by (auto split: option.split)

theorem unix_time_roundtrip_witness:
  "\<exists>dt secs. from_unix_seconds 951782400 \<lparr>minutes = 330\<rparr> = Some dt \<and> to_unix_seconds dt = Some secs
     \<and> from_unix_seconds secs \<lparr>minutes = 330\<rparr> = Some dt"
proof -
  have "from_unix_seconds 951782400 \<lparr>minutes = 330\<rparr> \<noteq> None"
    unfolding from_unix_seconds_defined by (simp add: seconds_def MIN_UNIX_SECONDS_def MAX_UNIX_SECONDS_def)
  then obtain dt where dt: "from_unix_seconds 951782400 \<lparr>minutes = 330\<rparr> = Some dt" by blast
  with from_unix_seconds_Some [OF dt] unix_time_roundtrip [of dt "\<lparr>minutes = 330\<rparr>" 0] show ?thesis by blast
qed

text \<open>
  C37: Dates survive their text and wire forms. Formatting a valid date whose offset is at most a day always succeeds, parsing the text
  returns the date, and so does unpacking its packed string in front of any further bytes.
\<close>

theorem date_text_roundtrip:
  assumes "datetime_ok dt"
  shows "\<exists>s bs. format dt = Some s \<and> parse s = Some dt \<and> length s \<le> 20
    \<and> pack_datetime dt = Ok bs \<and> unpack_datetime (bs @ rest) = Ok (Some dt, length bs)"
proof -
  from assms obtain s where s: "format dt = Some s" by (auto simp: datetime_ok_def format_def)
  from assms have ofs: "dt_offset dt = Some x \<Longrightarrow> offset_ok x" for x by (auto simp: datetime_ok_def)
  from pack_datetime_Ok [OF assms] obtain bs where "pack_datetime dt = Ok bs"
    "unpack_datetime (bs @ rest) = Ok (Some dt, length bs)" by metis
  with s parse_format [OF s ofs] show ?thesis by auto
qed

theorem date_text_roundtrip_witness:
  "\<exists>s. format \<lparr>dt_year = 2024, dt_month = 2, dt_day = 29, dt_hour = 23, dt_minute = 59, dt_second = 59, dt_offset = Some \<lparr>minutes = -210\<rparr>\<rparr>
     = Some s \<and> parse s = Some \<lparr>dt_year = 2024, dt_month = 2, dt_day = 29, dt_hour = 23, dt_minute = 59, dt_second = 59,
       dt_offset = Some \<lparr>minutes = -210\<rparr>\<rparr>"
proof -
  let ?dt = "\<lparr>dt_year = 2024, dt_month = 2, dt_day = 29, dt_hour = 23, dt_minute = 59, dt_second = 59, dt_offset = Some \<lparr>minutes = -210\<rparr>\<rparr>"
  have "datetime_ok ?dt" by (simp add: datetime_ok_def is_valid_iff civil_date_def month_len_def leap_def offset_ok_def)
  from date_text_roundtrip [OF this] show ?thesis by blast
qed

end
