(* ===== verification/Properties.thy ===== *)
theory Properties
  imports Civil_Time
begin

text \<open>
  The property values and descriptors of \<open>ptp/types/properties.rs\<close>. A value is read for a declared
  data type; the codec laws are stated once for every type in the locale interpretation \<open>prop_value\<close>.
\<close>

section \<open>Property values\<close>

datatype PropertyValue =
    Int8 "8 word"
  | Uint8 u8
  | Int16 "16 word"
  | Uint16 u16
  | Int32 "32 word"
  | Uint32 u32
  | Int64 "64 word"
  | Uint64 u64
  | String rstr

primrec PropertyValue_to_bytes :: "PropertyValue \<Rightarrow> bytes res" where
  "PropertyValue_to_bytes (PropertyValue.Int8 v) = Ok (pack_i8 v)"
| "PropertyValue_to_bytes (PropertyValue.Uint8 v) = Ok (pack_u8 v)"
| "PropertyValue_to_bytes (PropertyValue.Int16 v) = Ok (pack_i16 v)"
| "PropertyValue_to_bytes (PropertyValue.Uint16 v) = Ok (pack_u16 v)"
| "PropertyValue_to_bytes (PropertyValue.Int32 v) = Ok (pack_i32 v)"
| "PropertyValue_to_bytes (PropertyValue.Uint32 v) = Ok (pack_u32 v)"
| "PropertyValue_to_bytes (PropertyValue.Int64 v) = Ok (pack_i64 v)"
| "PropertyValue_to_bytes (PropertyValue.Uint64 v) = Ok (pack_u64 v)"
| "PropertyValue_to_bytes (PropertyValue.String v) = pack_string v"

definition unsupported_type :: "PropertyDataType \<Rightarrow> PtpError" where
  "unsupported_type data_type = invalid_data ''unsupported property data type: {:?}'' [unat (PropertyDataType_into data_type)]"

fun PropertyValue_from_bytes :: "PropertyDataType \<Rightarrow> bytes \<Rightarrow> (PropertyValue \<times> usize) res" where
  "PropertyValue_from_bytes PropertyDataType.Int8 buf = map_ok (\<lambda>val. (PropertyValue.Int8 val, 1)) (unpack_i8 buf)"
| "PropertyValue_from_bytes PropertyDataType.Uint8 buf = map_ok (\<lambda>val. (PropertyValue.Uint8 val, 1)) (unpack_u8 buf)"
| "PropertyValue_from_bytes PropertyDataType.Int16 buf = map_ok (\<lambda>val. (PropertyValue.Int16 val, 2)) (unpack_i16 buf)"
| "PropertyValue_from_bytes PropertyDataType.Uint16 buf = map_ok (\<lambda>val. (PropertyValue.Uint16 val, 2)) (unpack_u16 buf)"
| "PropertyValue_from_bytes PropertyDataType.Int32 buf = map_ok (\<lambda>val. (PropertyValue.Int32 val, 4)) (unpack_i32 buf)"
| "PropertyValue_from_bytes PropertyDataType.Uint32 buf = map_ok (\<lambda>val. (PropertyValue.Uint32 val, 4)) (unpack_u32 buf)"
| "PropertyValue_from_bytes PropertyDataType.Int64 buf = map_ok (\<lambda>val. (PropertyValue.Int64 val, 8)) (unpack_i64 buf)"
| "PropertyValue_from_bytes PropertyDataType.Uint64 buf = map_ok (\<lambda>val. (PropertyValue.Uint64 val, 8)) (unpack_u64 buf)"
| "PropertyValue_from_bytes PropertyDataType.String buf =
     map_ok (\<lambda>(val, consumed). (PropertyValue.String val, consumed)) (unpack_string buf)"
| "PropertyValue_from_bytes data_type buf = Err (unsupported_type data_type)"

primrec data_type :: "PropertyValue \<Rightarrow> PropertyDataType" where
  "data_type (PropertyValue.Int8 v) = PropertyDataType.Int8"
| "data_type (PropertyValue.Uint8 v) = PropertyDataType.Uint8"
| "data_type (PropertyValue.Int16 v) = PropertyDataType.Int16"
| "data_type (PropertyValue.Uint16 v) = PropertyDataType.Uint16"
| "data_type (PropertyValue.Int32 v) = PropertyDataType.Int32"
| "data_type (PropertyValue.Uint32 v) = PropertyDataType.Uint32"
| "data_type (PropertyValue.Int64 v) = PropertyDataType.Int64"
| "data_type (PropertyValue.Uint64 v) = PropertyDataType.Uint64"
| "data_type (PropertyValue.String v) = PropertyDataType.String"

section \<open>Forms and ranges\<close>

datatype PropertyFormType = NoForm | Range | Enumeration | Unknown u8

definition PropertyFormType_from_code :: "u8 \<Rightarrow> PropertyFormType" where
  "PropertyFormType_from_code code =
     (if code = 0x00 then PropertyFormType.NoForm
      else if code = 0x01 then PropertyFormType.Range
      else if code = 0x02 then PropertyFormType.Enumeration
      else PropertyFormType.Unknown code)"

primrec PropertyFormType_to_code :: "PropertyFormType \<Rightarrow> u8" where
  "PropertyFormType_to_code PropertyFormType.NoForm = 0x00"
| "PropertyFormType_to_code PropertyFormType.Range = 0x01"
| "PropertyFormType_to_code PropertyFormType.Enumeration = 0x02"
| "PropertyFormType_to_code (PropertyFormType.Unknown code) = code"

record PropertyRange =
  range_min :: PropertyValue
  range_max :: PropertyValue
  range_step :: PropertyValue

definition PropertyRange_from_bytes :: "PropertyDataType \<Rightarrow> bytes \<Rightarrow> (PropertyRange \<times> usize) res" where
  "PropertyRange_from_bytes dtype buf =
     bind_ok (read_var (PropertyValue_from_bytes dtype) buf 0) (\<lambda>(mn, off).
     bind_ok (read_var (PropertyValue_from_bytes dtype) buf off) (\<lambda>(mx, off).
     bind_ok (read_var (PropertyValue_from_bytes dtype) buf off) (\<lambda>(st, off).
       Ok (\<lparr>range_min = mn, range_max = mx, range_step = st\<rparr>, off))))"

definition PropertyRange_to_bytes :: "PropertyRange \<Rightarrow> bytes res" where
  "PropertyRange_to_bytes r =
     bind_ok (PropertyValue_to_bytes (range_min r)) (\<lambda>mn.
     bind_ok (PropertyValue_to_bytes (range_max r)) (\<lambda>mx.
     bind_ok (PropertyValue_to_bytes (range_step r)) (\<lambda>st. Ok (mn @ mx @ st))))"

section \<open>Descriptors\<close>

record DevicePropDesc =
  pd_property_code :: DevicePropertyCode
  pd_data_type :: PropertyDataType
  pd_writable :: bool
  pd_default_value :: PropertyValue
  pd_current_value :: PropertyValue
  pd_form_type :: PropertyFormType
  pd_enum_values :: "PropertyValue list option"
  pd_range :: "PropertyRange option"

text \<open>The loop \<open>for _ in 0..count\<close> over enumerated values.\<close>

fun read_values :: "PropertyDataType \<Rightarrow> bytes \<Rightarrow> nat \<Rightarrow> nat \<Rightarrow> PropertyValue list res" where
  "read_values dtype buf offset 0 = Ok []"
| "read_values dtype buf offset (Suc n) =
     bind_ok (read_var (PropertyValue_from_bytes dtype) buf offset) (\<lambda>(val, offset).
       map_ok (Cons val) (read_values dtype buf offset n))"

definition read_form ::
  "PropertyFormType \<Rightarrow> PropertyDataType \<Rightarrow> bytes \<Rightarrow> nat \<Rightarrow> (PropertyValue list option \<times> PropertyRange option) res" where
  "read_form form_type dtype buf offset =
     (case form_type of
        PropertyFormType.NoForm \<Rightarrow> Ok (None, None)
      | PropertyFormType.Unknown code \<Rightarrow> Ok (None, None)
      | PropertyFormType.Range \<Rightarrow>
          bind_ok (slice_from buf offset) (\<lambda>rest.
          bind_ok (PropertyRange_from_bytes dtype rest) (\<lambda>(range, consumed). Ok (None, Some range)))
      | PropertyFormType.Enumeration \<Rightarrow>
          bind_ok (read_at unpack_u16 2 buf offset) (\<lambda>(count, offset).
          bind_ok (read_values dtype buf offset (unat count)) (\<lambda>values. Ok (Some values, None))))"

definition DevicePropDesc_from_bytes :: "bytes \<Rightarrow> DevicePropDesc res" where
  "DevicePropDesc_from_bytes buf =
     bind_ok (read_at unpack_u16 2 buf 0) (\<lambda>(property_code, offset).
     bind_ok (read_at unpack_u16 2 buf offset) (\<lambda>(dtype_code, offset).
     let dtype = PropertyDataType_from dtype_code in
     if length buf \<le> offset
     then Err (invalid_data ''DevicePropDesc: insufficient bytes for GetSet'' [])
     else bind_ok (index buf offset) (\<lambda>get_set.
     bind_ok (read_var (PropertyValue_from_bytes dtype) buf (offset + 1)) (\<lambda>(default_value, offset).
     bind_ok (read_var (PropertyValue_from_bytes dtype) buf offset) (\<lambda>(current_value, offset).
     if length buf \<le> offset
     then Err (invalid_data ''DevicePropDesc: insufficient bytes for FormFlag'' [])
     else bind_ok (index buf offset) (\<lambda>form_code.
     let form_type = PropertyFormType_from_code form_code in
     bind_ok (read_form form_type dtype buf (offset + 1)) (\<lambda>(enum_values, range).
       Ok \<lparr>pd_property_code = DevicePropertyCode_from property_code, pd_data_type = dtype,
           pd_writable = (get_set \<noteq> 0x00), pd_default_value = default_value, pd_current_value = current_value,
           pd_form_type = form_type, pd_enum_values = enum_values, pd_range = range\<rparr>)))))))"

section \<open>The codec of a property value\<close>

definition value_ok :: "PropertyDataType \<Rightarrow> PropertyValue \<Rightarrow> bool" where
  "value_ok dtype v \<longleftrightarrow>
     data_type v = dtype \<and> (case v of PropertyValue.String s \<Rightarrow> valid_str s \<and> 0 \<notin> set s | _ \<Rightarrow> True)"

lemmas int_codecs_length = u8.length_pack i8.length_pack u16.length_pack i16.length_pack u32.length_pack
  i32.length_pack u64.length_pack i64.length_pack

lemmas int_codecs_unpack_pack = u8.unpack_pack i8.unpack_pack u16.unpack_pack i16.unpack_pack u32.unpack_pack
  i32.unpack_pack u64.unpack_pack i64.unpack_pack

lemma PropertyValue_unpack_pack:
  "PropertyValue_to_bytes v = Ok bs \<Longrightarrow> value_ok dtype v \<Longrightarrow>
    PropertyValue_from_bytes dtype (bs @ rest) = Ok (v, length bs)"
  by (cases v) (auto simp: value_ok_def int_codecs_length int_codecs_unpack_pack
      dest: string.unpack_pack [rotated, where rest = rest])

lemma PropertyValue_from_bytes_total:
  "returns (PropertyValue_from_bytes dtype buf) (\<lambda>(v, consumed). consumed \<le> length buf \<and> data_type v = dtype)"
  by (cases dtype)
    (auto intro: returns_mono [OF u8.unpack_returns] returns_mono [OF i8.unpack_returns]
      returns_mono [OF u16.unpack_returns] returns_mono [OF i16.unpack_returns]
      returns_mono [OF u32.unpack_returns] returns_mono [OF i32.unpack_returns]
      returns_mono [OF u64.unpack_returns] returns_mono [OF i64.unpack_returns]
      returns_mono [OF string.unpack_returns])

interpretation prop_value: var_codec "value_ok dtype" PropertyValue_to_bytes "PropertyValue_from_bytes dtype" for dtype
proof
  show "returns (PropertyValue_from_bytes dtype buf) (\<lambda>(v, consumed). consumed \<le> length buf)" for buf
    by (rule returns_mono [OF PropertyValue_from_bytes_total]) auto
qed (auto intro: PropertyValue_unpack_pack)

definition range_ok :: "PropertyDataType \<Rightarrow> PropertyRange \<Rightarrow> bool" where
  "range_ok dtype r \<longleftrightarrow>
     value_ok dtype (range_min r) \<and> value_ok dtype (range_max r) \<and> value_ok dtype (range_step r)"

interpretation prop_range: var_codec "range_ok dtype" PropertyRange_to_bytes "PropertyRange_from_bytes dtype" for dtype
proof
  show "PropertyRange_from_bytes dtype (bs @ rest) = Ok (r, length bs)"
    if "range_ok dtype r" "PropertyRange_to_bytes r = Ok bs" for r bs rest
  proof -
    from that obtain a b c where bs: "bs = a @ b @ c" and abc: "PropertyValue_to_bytes (range_min r) = Ok a"
        "PropertyValue_to_bytes (range_max r) = Ok b" "PropertyValue_to_bytes (range_step r) = Ok c"
      by (auto simp: PropertyRange_to_bytes_def)
    with that(1) show ?thesis
      using prop_value.read_var_append [of dtype "range_min r" a "[]" "b @ c @ rest"]
        prop_value.read_var_append [of dtype "range_max r" b a "c @ rest"]
        prop_value.read_var_append [of dtype "range_step r" c "a @ b" rest]
      by (simp add: PropertyRange_from_bytes_def range_ok_def)
  qed
  show "returns (PropertyRange_from_bytes dtype buf) (\<lambda>(v, consumed). consumed \<le> length buf)" for buf
    unfolding PropertyRange_from_bytes_def
    by (auto intro!: returns_mono [OF prop_value.read_var_total])
qed

section \<open>The codec of a descriptor\<close>

lemma read_values_total:
  "offset \<le> length buf \<Longrightarrow> returns (read_values dtype buf offset n) (\<lambda>vs. length vs = n)"
proof (induction n arbitrary: offset)
  case 0
  then show ?case by simp
next
  case (Suc n)
  show ?case
    using Suc.IH by (auto intro!: returns_mono [OF prop_value.read_var_total [OF Suc.prems]] intro: returns_mono)
qed

fun pack_values :: "PropertyValue list \<Rightarrow> bytes res" where
  "pack_values [] = Ok []"
| "pack_values (v # vs) =
     bind_ok (PropertyValue_to_bytes v) (\<lambda>b. map_ok (\<lambda>bs. b @ bs) (pack_values vs))"

lemma read_values_pack:
  "list_all (value_ok dtype) vs \<Longrightarrow> pack_values vs = Ok bs \<Longrightarrow>
    read_values dtype (pre @ bs @ rest) (length pre) (length vs) = Ok vs"
proof (induction vs arbitrary: pre bs)
  case Nil
  then show ?case by simp
next
  case (Cons v vs)
  then obtain b bs' where b: "PropertyValue_to_bytes v = Ok b" "pack_values vs = Ok bs'" "bs = b @ bs'" by auto
  with Cons.prems have "read_var (PropertyValue_from_bytes dtype) (pre @ b @ bs' @ rest) (length pre)
      = Ok (v, length pre + length b)"
    by (intro prop_value.read_var_append) simp_all
  with Cons.IH [of bs' "pre @ b"] Cons.prems b show ?case by simp
qed

text \<open>The wire form of a descriptor, and the descriptors that have one.\<close>

definition form_wire :: "DevicePropDesc \<Rightarrow> bytes res" where
  "form_wire d =
     (case pd_form_type d of
        PropertyFormType.Range \<Rightarrow> (case pd_range d of Some r \<Rightarrow> PropertyRange_to_bytes r | None \<Rightarrow> Ok [])
      | PropertyFormType.Enumeration \<Rightarrow>
          (case pd_enum_values d of
             Some vs \<Rightarrow> map_ok (\<lambda>bs. pack_u16 (word_of_nat (length vs)) @ bs) (pack_values vs)
           | None \<Rightarrow> Ok [])
      | _ \<Rightarrow> Ok [])"

definition desc_wire :: "DevicePropDesc \<Rightarrow> bytes res" where
  "desc_wire d =
     bind_ok (PropertyValue_to_bytes (pd_default_value d)) (\<lambda>dv.
     bind_ok (PropertyValue_to_bytes (pd_current_value d)) (\<lambda>cv.
     bind_ok (form_wire d) (\<lambda>fm.
       Ok (pack_u16 (DevicePropertyCode_into (pd_property_code d)) @ pack_u16 (PropertyDataType_into (pd_data_type d))
           @ [if pd_writable d then 1 else 0] @ dv @ cv @ [PropertyFormType_to_code (pd_form_type d)] @ fm))))"

definition form_ok :: "DevicePropDesc \<Rightarrow> bool" where
  "form_ok d \<longleftrightarrow>
     PropertyFormType_from_code (PropertyFormType_to_code (pd_form_type d)) = pd_form_type d \<and>
     (case pd_form_type d of
        PropertyFormType.Range \<Rightarrow>
          (\<exists>r. pd_range d = Some r \<and> range_ok (pd_data_type d) r) \<and> pd_enum_values d = None
      | PropertyFormType.Enumeration \<Rightarrow> pd_range d = None \<and>
          (\<exists>vs. pd_enum_values d = Some vs \<and> length vs < 2 ^ 16 \<and> list_all (value_ok (pd_data_type d)) vs)
      | _ \<Rightarrow> pd_range d = None \<and> pd_enum_values d = None)"

definition desc_ok :: "DevicePropDesc \<Rightarrow> bool" where
  "desc_ok d \<longleftrightarrow>
     DevicePropertyCode_from (DevicePropertyCode_into (pd_property_code d)) = pd_property_code d
     \<and> PropertyDataType_from (PropertyDataType_into (pd_data_type d)) = pd_data_type d
     \<and> value_ok (pd_data_type d) (pd_default_value d) \<and> value_ok (pd_data_type d) (pd_current_value d)
     \<and> form_ok d"

lemma read_form_wire:
  assumes "form_ok d" "form_wire d = Ok fm"
  shows "read_form (pd_form_type d) (pd_data_type d) (pre @ fm @ rest) (length pre)
    = Ok (pd_enum_values d, pd_range d)"
proof (cases "pd_form_type d")
  case Range
  with assms show ?thesis
    by (auto simp: form_ok_def form_wire_def read_form_def prop_range.unpack_pack)
next
  case Enumeration
  with assms obtain vs bs where vs: "pd_enum_values d = Some vs" "length vs < 2 ^ 16"
      "list_all (value_ok (pd_data_type d)) vs" "pd_range d = None"
    and bs: "pack_values vs = Ok bs" "fm = pack_u16 (word_of_nat (length vs)) @ bs"
    by (auto simp: form_ok_def form_wire_def)
  have "read_at unpack_u16 2 (pre @ pack_u16 (word_of_nat (length vs)) @ bs @ rest) (length pre)
      = Ok (word_of_nat (length vs), length pre + 2)"
    by (rule u16.read_at_append)
  moreover have "read_values (pd_data_type d) ((pre @ pack_u16 (word_of_nat (length vs))) @ bs @ rest)
      (length (pre @ pack_u16 (word_of_nat (length vs)))) (length vs) = Ok vs"
    by (rule read_values_pack) (use vs bs in auto)
  moreover have "unat (word_of_nat (length vs) :: u16) = length vs" using vs(2) by (simp add: unat_of_nat)
  ultimately show ?thesis using Enumeration vs bs by (simp add: read_form_def u16.length_pack)
qed (use assms in \<open>auto simp: form_ok_def form_wire_def read_form_def\<close>)

lemma DevicePropDesc_unpack_wire:
  assumes "desc_ok d" "desc_wire d = Ok bs"
  shows "DevicePropDesc_from_bytes (bs @ rest) = Ok d"
proof -
  let ?c = "pack_u16 (DevicePropertyCode_into (pd_property_code d))"
    and ?t = "pack_u16 (PropertyDataType_into (pd_data_type d))"
    and ?w = "[if pd_writable d then 1 else 0 :: u8]" and ?f = "[PropertyFormType_to_code (pd_form_type d)]"
  from assms(2) obtain dv cv fm where dv: "PropertyValue_to_bytes (pd_default_value d) = Ok dv"
    and cv: "PropertyValue_to_bytes (pd_current_value d) = Ok cv" and fm: "form_wire d = Ok fm"
    and bs: "bs = ?c @ ?t @ ?w @ dv @ cv @ ?f @ fm"
    by (auto simp: desc_wire_def)
  let ?buf = "bs @ rest"
  have buf: "?buf = [] @ ?c @ ?t @ ?w @ dv @ cv @ ?f @ fm @ rest" "?buf = ?c @ ?t @ ?w @ dv @ cv @ ?f @ fm @ rest"
    "?buf = (?c @ ?t @ ?w) @ dv @ cv @ ?f @ fm @ rest" "?buf = (?c @ ?t @ ?w @ dv) @ cv @ ?f @ fm @ rest"
    "?buf = (?c @ ?t @ ?w @ dv @ cv @ ?f) @ fm @ rest"
    by (simp_all add: bs)
  have ok: "value_ok (pd_data_type d) (pd_default_value d)" "value_ok (pd_data_type d) (pd_current_value d)" "form_ok d"
    using assms(1) by (auto simp: desc_ok_def)
  have r1: "read_at unpack_u16 2 ?buf 0 = Ok (DevicePropertyCode_into (pd_property_code d), 2)"
    unfolding buf(1) using u16.read_at_append [of "[]"] by simp
  have r2: "read_at unpack_u16 2 ?buf 2 = Ok (PropertyDataType_into (pd_data_type d), 4)"
    unfolding buf(2) using u16.read_at_append [of ?c] by (simp add: u16.length_pack)
  have i1: "(index ?buf 4 :: u8 res) = Ok (if pd_writable d then 1 else 0)"
    unfolding buf(2) by (simp add: index_def nth_append u16.length_pack)
  have lens: "length (?c @ ?t @ ?w) = 5" "length (?c @ ?t @ ?w @ dv) = 5 + length dv"
    "length (?c @ ?t @ ?w @ dv @ cv @ ?f) = Suc (5 + length dv + length cv)"
    by (simp_all add: u16.length_pack)
  have r3: "read_var (PropertyValue_from_bytes (pd_data_type d)) ?buf 5 = Ok (pd_default_value d, 5 + length dv)"
    unfolding buf(3) using prop_value.read_var_append [OF ok(1) dv, of "?c @ ?t @ ?w"] by (simp only: lens)
  have r4: "read_var (PropertyValue_from_bytes (pd_data_type d)) ?buf (5 + length dv)
      = Ok (pd_current_value d, 5 + length dv + length cv)"
    unfolding buf(4) using prop_value.read_var_append [OF ok(2) cv, of "?c @ ?t @ ?w @ dv"] by (simp only: lens)
  have i2: "(index ?buf (5 + length dv + length cv) :: u8 res) = Ok (PropertyFormType_to_code (pd_form_type d))"
    unfolding buf(2) by (simp add: index_def nth_append u16.length_pack)
  have r5: "read_form (pd_form_type d) (pd_data_type d) ?buf (Suc (5 + length dv + length cv))
      = Ok (pd_enum_values d, pd_range d)"
    unfolding buf(5) using read_form_wire [OF ok(3) fm, of "?c @ ?t @ ?w @ dv @ cv @ ?f"] by (simp only: lens)
  have len: "\<not> length ?buf \<le> 4" "\<not> length ?buf \<le> 5 + length dv + length cv"
    unfolding bs by (simp_all add: u16.length_pack)
  have codes: "DevicePropertyCode_from (DevicePropertyCode_into (pd_property_code d)) = pd_property_code d"
    "PropertyDataType_from (PropertyDataType_into (pd_data_type d)) = pd_data_type d"
    "PropertyFormType_from_code (PropertyFormType_to_code (pd_form_type d)) = pd_form_type d"
    using assms(1) ok(3) by (auto simp: desc_ok_def form_ok_def)
  have five: "(4 :: nat) + 1 = 5" "5 + length dv + length cv + 1 = Suc (5 + length dv + length cv)"
    by simp_all
  show ?thesis
    unfolding DevicePropDesc_from_bytes_def
    by (simp only: r1 r2 r3 r4 r5 i1 i2 codes five len bind_ok.simps prod.case Let_def if_False) simp
qed

lemma read_form_total: "offset \<le> length buf \<Longrightarrow> returns (read_form form_type dtype buf offset) (\<lambda>f. True)"
  by (cases form_type)
    (auto simp: read_form_def slice_from_in intro!: returns_mono [OF prop_range.unpack_returns]
      returns_mono [OF u16.read_at_total] intro: returns_mono [OF read_values_total])

lemma DevicePropDesc_from_bytes_total [total]: "returns (DevicePropDesc_from_bytes buf) (\<lambda>d. True)"
  unfolding DevicePropDesc_from_bytes_def
  by (auto simp: Let_def index_def intro!: returns_mono [OF u16.read_at_total]
      returns_mono [OF prop_value.read_var_total] returns_mono [OF read_form_total])

section \<open>Properties of the dataset\<close>

text \<open>
  A property descriptor is read back as the device wrote it, with its default and current values and its range or its enumeration of
  values, in front of any further bytes; and no byte string makes its parser panic.
\<close>

theorem property_descriptor_roundtrip:
  "(desc_ok d \<longrightarrow> desc_wire d = Ok bs \<longrightarrow> DevicePropDesc_from_bytes (bs @ rest) = Ok d)
   \<and> DevicePropDesc_from_bytes buf \<noteq> Panic"
  using DevicePropDesc_unpack_wire [of d bs rest] returns_not_Panic [OF DevicePropDesc_from_bytes_total [of buf]] by blast

theorem property_descriptor_roundtrip_witness:
  "\<exists>bs. desc_wire \<lparr>pd_property_code = DevicePropertyCode.BatteryLevel, pd_data_type = PropertyDataType.Uint8, pd_writable = False,
      pd_default_value = PropertyValue.Uint8 50, pd_current_value = PropertyValue.Uint8 80, pd_form_type = PropertyFormType.Range,
      pd_enum_values = None, pd_range = Some \<lparr>range_min = PropertyValue.Uint8 0, range_max = PropertyValue.Uint8 100,
        range_step = PropertyValue.Uint8 1\<rparr>\<rparr> = Ok bs
    \<and> (\<exists>d. DevicePropDesc_from_bytes bs = Ok d \<and> pd_current_value d = PropertyValue.Uint8 80)"
proof -
  let ?d = "\<lparr>pd_property_code = DevicePropertyCode.BatteryLevel, pd_data_type = PropertyDataType.Uint8, pd_writable = False,
      pd_default_value = PropertyValue.Uint8 50, pd_current_value = PropertyValue.Uint8 80, pd_form_type = PropertyFormType.Range,
      pd_enum_values = None, pd_range = Some \<lparr>range_min = PropertyValue.Uint8 0, range_max = PropertyValue.Uint8 100,
        range_step = PropertyValue.Uint8 1\<rparr>\<rparr>"
  have "DevicePropertyCode_from (DevicePropertyCode_into DevicePropertyCode.BatteryLevel) = DevicePropertyCode.BatteryLevel"
    by (rule devicePropertyCode.dec_enc [THEN iffD2]) (simp add: DevicePropertyCode_codes_def)
  moreover have "PropertyDataType_from (PropertyDataType_into PropertyDataType.Uint8) = PropertyDataType.Uint8"
    by (rule propertyDataType.dec_enc [THEN iffD2]) (simp add: PropertyDataType_codes_def)
  ultimately have ok: "desc_ok ?d"
    by (simp add: desc_ok_def form_ok_def value_ok_def range_ok_def PropertyFormType_from_code_def)
  obtain bs where bs: "desc_wire ?d = Ok bs" by (simp add: desc_wire_def form_wire_def PropertyRange_to_bytes_def)
  with property_descriptor_roundtrip [of ?d bs "[]"] ok show ?thesis by auto
qed

end
