(* ===== verification/Datasets.thy ===== *)
theory Datasets
  imports Properties
begin

text \<open>
  The datasets of \<open>ptp/types/device.rs\<close> and \<open>ptp/types/objects.rs\<close>: device, storage and object
  information, and the property list. A parser is the source's chain of cursor reads. The lemmas show
  that each parser inverts its wire form and that no device can make it panic.
\<close>

section \<open>Device information\<close>

record DeviceInfo =
  di_standard_version :: u16
  di_vendor_extension_id :: u32
  di_vendor_extension_version :: u16
  di_vendor_extension_desc :: rstr
  di_functional_mode :: u16
  di_operations_supported :: "OperationCode list"
  di_events_supported :: "EventCode list"
  di_device_properties_supported :: "u16 list"
  di_capture_formats :: "ObjectFormatCode list"
  di_playback_formats :: "ObjectFormatCode list"
  di_manufacturer :: rstr
  di_model :: rstr
  di_device_version :: rstr
  di_serial_number :: rstr

text \<open>\<open>str::to_ascii_lowercase\<close> and \<open>str::contains\<close>.\<close>

definition to_ascii_lowercase :: "rstr \<Rightarrow> rstr" where
  "to_ascii_lowercase s = map (\<lambda>c. if 65 \<le> c \<and> c \<le> 90 then c + 32 else c) s"

fun str_contains :: "rstr \<Rightarrow> rstr \<Rightarrow> bool" where
  "str_contains [] pat = (pat = [])"
| "str_contains (c # s) pat = (take (length pat) (c # s) = pat \<or> str_contains s pat)"

definition runs_android_mtp_server :: "DeviceInfo \<Rightarrow> bool" where
  "runs_android_mtp_server d \<longleftrightarrow>
     str_contains (to_ascii_lowercase (di_vendor_extension_desc d)) (str ''android.com'')
     \<or> list_all (\<lambda>code. list_ex (\<lambda>op. OperationCode_into op = code) (di_operations_supported d))
         [0x95C3, 0x95C4, 0x95C5]"

definition DeviceInfo_from_bytes :: "bytes \<Rightarrow> DeviceInfo res" where
  "DeviceInfo_from_bytes buf =
     bind_ok (read_at unpack_u16 2 buf 0) (\<lambda>(standard_version, offset).
     bind_ok (read_at unpack_u32 4 buf offset) (\<lambda>(vendor_extension_id, offset).
     bind_ok (read_at unpack_u16 2 buf offset) (\<lambda>(vendor_extension_version, offset).
     bind_ok (read_var unpack_string buf offset) (\<lambda>(vendor_extension_desc, offset).
     bind_ok (read_at unpack_u16 2 buf offset) (\<lambda>(functional_mode, offset).
     bind_ok (read_var unpack_u16_array buf offset) (\<lambda>(ops_raw, offset).
     bind_ok (read_var unpack_u16_array buf offset) (\<lambda>(events_raw, offset).
     bind_ok (read_var unpack_u16_array buf offset) (\<lambda>(device_properties_supported, offset).
     bind_ok (read_var unpack_u16_array buf offset) (\<lambda>(capture_raw, offset).
     bind_ok (read_var unpack_u16_array buf offset) (\<lambda>(playback_raw, offset).
     bind_ok (read_var unpack_string buf offset) (\<lambda>(manufacturer, offset).
     bind_ok (read_var unpack_string buf offset) (\<lambda>(model, offset).
     bind_ok (read_var unpack_string buf offset) (\<lambda>(device_version, offset).
     bind_ok (read_var unpack_string buf offset) (\<lambda>(serial_number, offset).
       Ok \<lparr>di_standard_version = standard_version,
           di_vendor_extension_id = vendor_extension_id,
           di_vendor_extension_version = vendor_extension_version,
           di_vendor_extension_desc = vendor_extension_desc,
           di_functional_mode = functional_mode,
           di_operations_supported = map OperationCode_from ops_raw,
           di_events_supported = map EventCode_from events_raw,
           di_device_properties_supported = device_properties_supported,
           di_capture_formats = map ObjectFormatCode_from capture_raw,
           di_playback_formats = map ObjectFormatCode_from playback_raw,
           di_manufacturer = manufacturer, di_model = model,
           di_device_version = device_version, di_serial_number = serial_number\<rparr>))))))))))))))"

definition supports_operation :: "DeviceInfo \<Rightarrow> OperationCode \<Rightarrow> bool" where
  "supports_operation d operation \<longleftrightarrow> operation \<in> set (di_operations_supported d)"

definition supports_rename :: "DeviceInfo \<Rightarrow> bool" where
  "supports_rename d \<longleftrightarrow> supports_operation d OperationCode.SetObjectPropValue"

definition supports_upload :: "DeviceInfo \<Rightarrow> bool" where
  "supports_upload d \<longleftrightarrow>
     supports_operation d OperationCode.SendObjectInfo \<and> supports_operation d OperationCode.SendObject"

section \<open>Storage information\<close>

record StorageInfo =
  si_storage_type :: StorageType
  si_filesystem_type :: FilesystemType
  si_access_capability :: AccessCapability
  si_max_capacity :: u64
  si_free_space_bytes :: u64
  si_free_space_objects :: u32
  si_description :: rstr
  si_volume_identifier :: rstr

definition StorageInfo_from_bytes :: "bytes \<Rightarrow> StorageInfo res" where
  "StorageInfo_from_bytes buf =
     bind_ok (read_at unpack_u16 2 buf 0) (\<lambda>(storage_type, offset).
     bind_ok (read_at unpack_u16 2 buf offset) (\<lambda>(filesystem_type, offset).
     bind_ok (read_at unpack_u16 2 buf offset) (\<lambda>(access_capability, offset).
     bind_ok (read_at unpack_u64 8 buf offset) (\<lambda>(max_capacity, offset).
     bind_ok (read_at unpack_u64 8 buf offset) (\<lambda>(free_space_bytes, offset).
     bind_ok (read_at unpack_u32 4 buf offset) (\<lambda>(free_space_objects, offset).
     bind_ok (read_var unpack_string buf offset) (\<lambda>(description, offset).
     bind_ok (read_var unpack_string buf offset) (\<lambda>(volume_identifier, offset).
       Ok \<lparr>si_storage_type = StorageType_from storage_type,
           si_filesystem_type = FilesystemType_from filesystem_type,
           si_access_capability = AccessCapability_from access_capability,
           si_max_capacity = max_capacity, si_free_space_bytes = free_space_bytes,
           si_free_space_objects = free_space_objects, si_description = description,
           si_volume_identifier = volume_identifier\<rparr>))))))))"

section \<open>Object information\<close>

type_synonym ObjectHandle = u32
type_synonym StorageId = u32

definition ROOT :: ObjectHandle where
  "ROOT = 0x00000000"

definition ALL_OBJECTS :: ObjectHandle where
  "ALL_OBJECTS = 0xFFFFFFFF"

definition SEND_ROOT :: ObjectHandle where
  "SEND_ROOT = 0xFFFFFFFF"

definition StorageId_ALL :: StorageId where
  "StorageId_ALL = 0xFFFFFFFF"

record ObjectInfo =
  oi_handle :: ObjectHandle
  oi_storage_id :: StorageId
  oi_format :: ObjectFormatCode
  oi_protection_status :: ProtectionStatus
  oi_size :: u64
  oi_thumb_format :: ObjectFormatCode
  oi_thumb_size :: u32
  oi_thumb_width :: u32
  oi_thumb_height :: u32
  oi_image_width :: u32
  oi_image_height :: u32
  oi_image_bit_depth :: u32
  oi_parent :: ObjectHandle
  oi_association_type :: AssociationType
  oi_association_desc :: u32
  oi_sequence_number :: u32
  oi_filename :: rstr
  oi_created :: "DateTime option"
  oi_modified :: "DateTime option"
  oi_keywords :: rstr

definition ObjectInfo_from_bytes :: "bytes \<Rightarrow> ObjectInfo res" where
  "ObjectInfo_from_bytes buf =
     bind_ok (read_at unpack_u32 4 buf 0) (\<lambda>(storage_id, offset).
     bind_ok (read_at unpack_u16 2 buf offset) (\<lambda>(fmt, offset).
     bind_ok (read_at unpack_u16 2 buf offset) (\<lambda>(protection_status, offset).
     bind_ok (read_at unpack_u32 4 buf offset) (\<lambda>(size, offset).
     bind_ok (read_at unpack_u16 2 buf offset) (\<lambda>(thumb_format, offset).
     bind_ok (read_at unpack_u32 4 buf offset) (\<lambda>(thumb_size, offset).
     bind_ok (read_at unpack_u32 4 buf offset) (\<lambda>(thumb_width, offset).
     bind_ok (read_at unpack_u32 4 buf offset) (\<lambda>(thumb_height, offset).
     bind_ok (read_at unpack_u32 4 buf offset) (\<lambda>(image_width, offset).
     bind_ok (read_at unpack_u32 4 buf offset) (\<lambda>(image_height, offset).
     bind_ok (read_at unpack_u32 4 buf offset) (\<lambda>(image_bit_depth, offset).
     bind_ok (read_at unpack_u32 4 buf offset) (\<lambda>(parent, offset).
     bind_ok (read_at unpack_u16 2 buf offset) (\<lambda>(association_type, offset).
     bind_ok (read_at unpack_u32 4 buf offset) (\<lambda>(association_desc, offset).
     bind_ok (read_at unpack_u32 4 buf offset) (\<lambda>(sequence_number, offset).
     bind_ok (read_var unpack_string buf offset) (\<lambda>(filename, offset).
     bind_ok (read_var unpack_datetime buf offset) (\<lambda>(created, offset).
     bind_ok (read_var unpack_datetime buf offset) (\<lambda>(modified, offset).
     bind_ok (read_var unpack_string buf offset) (\<lambda>(keywords, offset).
       Ok \<lparr>oi_handle = 0, oi_storage_id = storage_id,
           oi_format = ObjectFormatCode_from fmt,
           oi_protection_status = ProtectionStatus_from protection_status,
           oi_size = ucast size, oi_thumb_format = ObjectFormatCode_from thumb_format,
           oi_thumb_size = thumb_size, oi_thumb_width = thumb_width, oi_thumb_height = thumb_height,
           oi_image_width = image_width, oi_image_height = image_height,
           oi_image_bit_depth = image_bit_depth, oi_parent = parent,
           oi_association_type = AssociationType_from association_type,
           oi_association_desc = association_desc, oi_sequence_number = sequence_number,
           oi_filename = filename, oi_created = created, oi_modified = modified,
           oi_keywords = keywords\<rparr>)))))))))))))))))))"

definition ObjectInfo_default :: ObjectInfo where
  "ObjectInfo_default = \<lparr>oi_handle = 0, oi_storage_id = 0, oi_format = ObjectFormatCode.Undefined,
     oi_protection_status = ProtectionStatus.NoProtection, oi_size = 0, oi_thumb_format = ObjectFormatCode.Undefined,
     oi_thumb_size = 0, oi_thumb_width = 0, oi_thumb_height = 0, oi_image_width = 0, oi_image_height = 0,
     oi_image_bit_depth = 0, oi_parent = 0, oi_association_type = AssociationType.NoAssociation,
     oi_association_desc = 0, oi_sequence_number = 0, oi_filename = [], oi_created = None,
     oi_modified = None, oi_keywords = []\<rparr>"

definition size_u32 :: "u64 \<Rightarrow> u32" where
  "size_u32 sz = (if sz > 0xFFFFFFFF then 0xFFFFFFFF else ucast sz)"

text \<open>The date fields: an absent date is the byte of the empty string.\<close>

definition pack_date_field :: "DateTime option \<Rightarrow> bytes res" where
  "pack_date_field date = (case date of Some dt \<Rightarrow> pack_datetime dt | None \<Rightarrow> Ok [0x00])"

definition ObjectInfo_to_bytes :: "ObjectInfo \<Rightarrow> bytes res" where
  "ObjectInfo_to_bytes info =
     (let fixed =
        pack_u32 (oi_storage_id info)
        @ pack_u16 (ObjectFormatCode_into (oi_format info))
        @ pack_u16 (ProtectionStatus_into (oi_protection_status info))
        @ pack_u32 (size_u32 (oi_size info))
        @ pack_u16 (ObjectFormatCode_into (oi_thumb_format info))
        @ pack_u32 (oi_thumb_size info)
        @ pack_u32 (oi_thumb_width info)
        @ pack_u32 (oi_thumb_height info)
        @ pack_u32 (oi_image_width info)
        @ pack_u32 (oi_image_height info)
        @ pack_u32 (oi_image_bit_depth info)
        @ pack_u32 (oi_parent info)
        @ pack_u16 (AssociationType_into (oi_association_type info))
        @ pack_u32 (oi_association_desc info)
        @ pack_u32 (oi_sequence_number info)
      in
        bind_ok (pack_string (oi_filename info)) (\<lambda>filename.
        bind_ok (pack_date_field (oi_created info)) (\<lambda>created.
        bind_ok (pack_date_field (oi_modified info)) (\<lambda>modified.
        bind_ok (pack_string (oi_keywords info)) (\<lambda>keywords.
          Ok (fixed @ filename @ created @ modified @ keywords))))))"

text \<open>The unsigned integer a property value carries.\<close>

fun value_u64 :: "PropertyValue \<Rightarrow> u64 option" where
  "value_u64 (PropertyValue.Uint8 n) = Some (ucast n)"
| "value_u64 (PropertyValue.Uint16 n) = Some (ucast n)"
| "value_u64 (PropertyValue.Uint32 n) = Some (ucast n)"
| "value_u64 (PropertyValue.Uint64 n) = Some n"
| "value_u64 v = None"

definition set_string_property :: "ObjectInfo \<Rightarrow> ObjectPropertyCode \<Rightarrow> rstr \<Rightarrow> ObjectInfo \<times> bool" where
  "set_string_property info property s =
     (case property of
        ObjectPropertyCode.ObjectFileName \<Rightarrow> (info\<lparr>oi_filename := s\<rparr>, True)
      | ObjectPropertyCode.DateCreated \<Rightarrow> (info\<lparr>oi_created := parse s\<rparr>, True)
      | ObjectPropertyCode.DateModified \<Rightarrow> (info\<lparr>oi_modified := parse s\<rparr>, True)
      | _ \<Rightarrow> (info, False))"

definition set_number_property :: "ObjectInfo \<Rightarrow> ObjectPropertyCode \<Rightarrow> u64 \<Rightarrow> ObjectInfo \<times> bool" where
  "set_number_property info property n =
     (if property = ObjectPropertyCode.ObjectSize then (info\<lparr>oi_size := n\<rparr>, True)
      else if property = ObjectPropertyCode.StorageId \<and> n \<le> 0xFFFFFFFF then (info\<lparr>oi_storage_id := ucast n\<rparr>, True)
      else if property = ObjectPropertyCode.ParentObject \<and> n \<le> 0xFFFFFFFF then (info\<lparr>oi_parent := ucast n\<rparr>, True)
      else if property = ObjectPropertyCode.ObjectFormat \<and> n \<le> 0xFFFF
        then (info\<lparr>oi_format := ObjectFormatCode_from (ucast n)\<rparr>, True)
      else if property = ObjectPropertyCode.ProtectionStatus \<and> n \<le> 0xFFFF
        then (info\<lparr>oi_protection_status := ProtectionStatus_from (ucast n)\<rparr>, True)
      else (info, False))"

definition set_property :: "ObjectInfo \<Rightarrow> ObjectPropertyCode \<Rightarrow> PropertyValue \<Rightarrow> ObjectInfo \<times> bool" where
  "set_property info property value =
     (case value of
        PropertyValue.String s \<Rightarrow> set_string_property info property s
      | _ \<Rightarrow> (case value_u64 value of
          Some n \<Rightarrow> set_number_property info property n
        | None \<Rightarrow> (info, False)))"

definition is_folder :: "ObjectInfo \<Rightarrow> bool" where
  "is_folder info \<longleftrightarrow>
     oi_format info = ObjectFormatCode.Association \<or> oi_association_type info = AssociationType.GenericFolder"

definition is_file :: "ObjectInfo \<Rightarrow> bool" where
  "is_file info \<longleftrightarrow> \<not> is_folder info"

section \<open>Property lists\<close>

record ObjectPropListElement =
  pl_handle :: ObjectHandle
  pl_property :: ObjectPropertyCode
  pl_data_type :: PropertyDataType
  pl_value :: "PropertyValue option"

text \<open>\<open>buf.get(n..).unwrap_or_default()\<close>, \<open>checked_mul\<close> and \<open>checked_add\<close> of a 64-bit \<open>usize\<close>.\<close>

definition get_from :: "bytes \<Rightarrow> nat \<Rightarrow> bytes" where
  "get_from buf n = (if n \<le> length buf then drop n buf else [])"

definition checked_usize :: "nat \<Rightarrow> usize option" where
  "checked_usize n = (if n < 2 ^ 64 then Some n else None)"

definition array_len :: "bytes \<Rightarrow> u16 \<Rightarrow> usize res" where
  "array_len rest type_code =
     (case byte_size (PropertyDataType_from (and type_code 0x00FF)) of
        None \<Rightarrow> Err (invalid_data ''unsupported array type {:#06x}'' [unat type_code])
      | Some sz \<Rightarrow>
          bind_ok (unpack_u32 rest) (\<lambda>n.
            case Option.bind (checked_usize (unat n * sz)) (\<lambda>m. checked_usize (m + 4)) of
              None \<Rightarrow> Err (invalid_data ''array property too long'' [])
            | Some len \<Rightarrow> Ok len))"

definition element_value :: "bytes \<Rightarrow> u16 \<Rightarrow> (PropertyValue option \<times> usize) res" where
  "element_value rest type_code =
     (let dtype = PropertyDataType_from type_code in
      if 0x4001 \<le> type_code \<and> type_code \<le> 0x400A
      then map_ok (\<lambda>len. (None, len)) (array_len rest type_code)
      else if dtype = PropertyDataType.Int128 \<or> dtype = PropertyDataType.Uint128 then Ok (None, 16)
      else if dtype = PropertyDataType.Undefined then Ok (None, 0)
      else map_ok (\<lambda>(value, consumed). (Some value, consumed)) (PropertyValue_from_bytes dtype rest))"

text \<open>One round of the loop: the element at \<open>offset\<close> and the offset after it.\<close>

definition list_element :: "bytes \<Rightarrow> nat \<Rightarrow> (ObjectPropListElement \<times> nat) res" where
  "list_element buf offset =
     (let rest = get_from buf offset in
      bind_ok (unpack_u32 rest) (\<lambda>handle.
      bind_ok (unpack_u16 (get_from rest 4)) (\<lambda>property.
      bind_ok (unpack_u16 (get_from rest 6)) (\<lambda>type_code.
      let offset = offset + 8; rest = get_from buf offset in
      bind_ok (element_value rest type_code) (\<lambda>(value, consumed).
        if length rest < consumed
        then Err (invalid_data ''truncated {data_type:?} property {property:?}'' [unat type_code, unat property])
        else Ok (\<lparr>pl_handle = handle, pl_property = ObjectPropertyCode_from property,
                  pl_data_type = PropertyDataType_from type_code, pl_value = value\<rparr>, offset + consumed))))))"

fun list_elements :: "bytes \<Rightarrow> nat \<Rightarrow> nat \<Rightarrow> ObjectPropListElement list res" where
  "list_elements buf offset 0 = Ok []"
| "list_elements buf offset (Suc n) =
     bind_ok (list_element buf offset) (\<lambda>(el, offset). map_ok (Cons el) (list_elements buf offset n))"

definition list_from_bytes :: "bytes \<Rightarrow> ObjectPropListElement list res" where
  "list_from_bytes buf = bind_ok (unpack_u32 buf) (\<lambda>count. list_elements buf 4 (unat count))"

section \<open>Parsers against wire forms\<close>

lemmas cursor = read_at_def read_var_def slice_from_append slice_from_0 int_codecs_length int_codecs_unpack_pack

abbreviation plain_str :: "rstr \<Rightarrow> bool" where
  "plain_str s \<equiv> valid_str s \<and> 0 \<notin> set s"

lemma pack_date_field_eq: "pack_date_field date = pack_opt_datetime date"
  by (cases date) (simp_all add: pack_date_field_def pack_opt_datetime_def pack_string_def)

definition date_ok :: "DateTime option \<Rightarrow> bool" where
  "date_ok date \<longleftrightarrow> (case date of Some dt \<Rightarrow> datetime_ok dt | None \<Rightarrow> True)"

text \<open>
  An object's information survives the wire when its enumerations are in canonical form, its strings
  hold no null and its dates are valid. The handle is not part of the dataset, and the size is capped.
\<close>

definition info_ok :: "ObjectInfo \<Rightarrow> bool" where
  "info_ok info \<longleftrightarrow>
     ObjectFormatCode_from (ObjectFormatCode_into (oi_format info)) = oi_format info
     \<and> ObjectFormatCode_from (ObjectFormatCode_into (oi_thumb_format info)) = oi_thumb_format info
     \<and> ProtectionStatus_from (ProtectionStatus_into (oi_protection_status info)) = oi_protection_status info
     \<and> AssociationType_from (AssociationType_into (oi_association_type info)) = oi_association_type info
     \<and> plain_str (oi_filename info) \<and> plain_str (oi_keywords info)
     \<and> date_ok (oi_created info) \<and> date_ok (oi_modified info)"

lemma ObjectInfo_unpack_pack:
  assumes "info_ok info" and bs: "ObjectInfo_to_bytes info = Ok bs"
  shows "ObjectInfo_from_bytes (bs @ rest) = Ok (info\<lparr>oi_handle := 0, oi_size := ucast (size_u32 (oi_size info))\<rparr>)"
proof -
  from bs obtain fn cr md kw where f: "pack_string (oi_filename info) = Ok fn" "pack_opt_datetime (oi_created info) = Ok cr"
      "pack_opt_datetime (oi_modified info) = Ok md" "pack_string (oi_keywords info) = Ok kw"
    by (auto simp: ObjectInfo_to_bytes_def Let_def pack_date_field_eq)
  have u: "unpack_string (fn @ r) = Ok (oi_filename info, length fn)"
    "unpack_datetime (cr @ r) = Ok (oi_created info, length cr)"
    "unpack_datetime (md @ r) = Ok (oi_modified info, length md)"
    "unpack_string (kw @ r) = Ok (oi_keywords info, length kw)" for r
    using assms(1) f by (auto simp: info_ok_def date_ok_def intro!: string.unpack_pack datetime.unpack_pack)
  show ?thesis
    using assms(1) bs f
    by (auto simp: ObjectInfo_from_bytes_def ObjectInfo_to_bytes_def Let_def pack_date_field_eq cursor u info_ok_def)
qed

lemma size_u32_small: "sz \<le> 0xFFFFFFFF \<Longrightarrow> ucast (size_u32 sz) = sz"
proof -
  assume le: "sz \<le> 0xFFFFFFFF"
  then have "unat sz < 2 ^ 32" by (simp add: word_le_nat_alt)
  then have "unat (ucast (ucast sz :: u32) :: u64) = unat sz"
    by (simp add: unsigned_ucast_eq take_bit_eq_mod unat_mod)
  moreover have "\<not> sz > 0xFFFFFFFF" using le by (simp add: not_less)
  ultimately show ?thesis by (simp add: size_u32_def word_unat_eq_iff)
qed

lemma size_u32_large: "sz > 0xFFFFFFFF \<Longrightarrow> ucast (size_u32 sz) = (0xFFFFFFFF :: u64)"
  by (simp add: size_u32_def)

definition storage_info_wire :: "StorageInfo \<Rightarrow> bytes res" where
  "storage_info_wire s =
     bind_ok (pack_string (si_description s)) (\<lambda>d.
     bind_ok (pack_string (si_volume_identifier s)) (\<lambda>v.
       Ok (pack_u16 (StorageType_into (si_storage_type s)) @ pack_u16 (FilesystemType_into (si_filesystem_type s))
           @ pack_u16 (AccessCapability_into (si_access_capability s)) @ pack_u64 (si_max_capacity s)
           @ pack_u64 (si_free_space_bytes s) @ pack_u32 (si_free_space_objects s) @ d @ v)))"

definition storage_info_ok :: "StorageInfo \<Rightarrow> bool" where
  "storage_info_ok s \<longleftrightarrow>
     StorageType_from (StorageType_into (si_storage_type s)) = si_storage_type s
     \<and> FilesystemType_from (FilesystemType_into (si_filesystem_type s)) = si_filesystem_type s
     \<and> AccessCapability_from (AccessCapability_into (si_access_capability s)) = si_access_capability s
     \<and> plain_str (si_description s) \<and> plain_str (si_volume_identifier s)"

lemma StorageInfo_unpack_wire:
  assumes ok: "storage_info_ok s" and bs: "storage_info_wire s = Ok bs"
  shows "StorageInfo_from_bytes (bs @ rest) = Ok s"
proof -
  from bs obtain d v where f: "pack_string (si_description s) = Ok d" "pack_string (si_volume_identifier s) = Ok v"
    by (auto simp: storage_info_wire_def)
  have u: "unpack_string (d @ r) = Ok (si_description s, length d)"
    "unpack_string (v @ r) = Ok (si_volume_identifier s, length v)" for r
    using ok f by (auto simp: storage_info_ok_def intro!: string.unpack_pack)
  show ?thesis
    using ok bs f by (auto simp: StorageInfo_from_bytes_def storage_info_wire_def cursor u storage_info_ok_def)
qed

definition device_info_wire :: "DeviceInfo \<Rightarrow> bytes res" where
  "device_info_wire d =
     bind_ok (pack_string (di_vendor_extension_desc d)) (\<lambda>ext.
     bind_ok (pack_string (di_manufacturer d)) (\<lambda>manu.
     bind_ok (pack_string (di_model d)) (\<lambda>mdl.
     bind_ok (pack_string (di_device_version d)) (\<lambda>ver.
     bind_ok (pack_string (di_serial_number d)) (\<lambda>ser.
       Ok (pack_u16 (di_standard_version d) @ pack_u32 (di_vendor_extension_id d)
           @ pack_u16 (di_vendor_extension_version d) @ ext @ pack_u16 (di_functional_mode d)
           @ pack_u16_array (map OperationCode_into (di_operations_supported d))
           @ pack_u16_array (map EventCode_into (di_events_supported d))
           @ pack_u16_array (di_device_properties_supported d)
           @ pack_u16_array (map ObjectFormatCode_into (di_capture_formats d))
           @ pack_u16_array (map ObjectFormatCode_into (di_playback_formats d))
           @ manu @ mdl @ ver @ ser))))))"

definition canonical :: "(u16 \<Rightarrow> 'c) \<Rightarrow> ('c \<Rightarrow> u16) \<Rightarrow> 'c list \<Rightarrow> bool" where
  "canonical dec enc cs \<longleftrightarrow> length cs < 2 ^ 32 \<and> map (dec \<circ> enc) cs = cs"

definition device_info_ok :: "DeviceInfo \<Rightarrow> bool" where
  "device_info_ok d \<longleftrightarrow>
     canonical OperationCode_from OperationCode_into (di_operations_supported d)
     \<and> canonical EventCode_from EventCode_into (di_events_supported d)
     \<and> length (di_device_properties_supported d) < 2 ^ 32
     \<and> canonical ObjectFormatCode_from ObjectFormatCode_into (di_capture_formats d)
     \<and> canonical ObjectFormatCode_from ObjectFormatCode_into (di_playback_formats d)
     \<and> plain_str (di_vendor_extension_desc d) \<and> plain_str (di_manufacturer d) \<and> plain_str (di_model d)
     \<and> plain_str (di_device_version d) \<and> plain_str (di_serial_number d)"

lemma DeviceInfo_unpack_wire:
  assumes ok: "device_info_ok d" and bs: "device_info_wire d = Ok bs"
  shows "DeviceInfo_from_bytes (bs @ rest) = Ok d"
proof -
  from bs obtain ext manu mdl ver ser where f: "pack_string (di_vendor_extension_desc d) = Ok ext"
      "pack_string (di_manufacturer d) = Ok manu" "pack_string (di_model d) = Ok mdl"
      "pack_string (di_device_version d) = Ok ver" "pack_string (di_serial_number d) = Ok ser"
    by (auto simp: device_info_wire_def)
  have u: "unpack_string (ext @ r) = Ok (di_vendor_extension_desc d, length ext)"
    "unpack_string (manu @ r) = Ok (di_manufacturer d, length manu)"
    "unpack_string (mdl @ r) = Ok (di_model d, length mdl)"
    "unpack_string (ver @ r) = Ok (di_device_version d, length ver)"
    "unpack_string (ser @ r) = Ok (di_serial_number d, length ser)" for r
    using ok f by (auto simp: device_info_ok_def intro!: string.unpack_pack)
  show ?thesis
    using ok bs f
    by (auto simp: DeviceInfo_from_bytes_def device_info_wire_def cursor u device_info_ok_def canonical_def
        unpack_pack_u16_array)
qed

section \<open>No dataset makes a parser panic\<close>

lemmas cursor_total = u8.read_at_total u16.read_at_total u32.read_at_total u64.read_at_total
  string.read_var_total datetime.read_var_total u16_array.read_var_total prop_value.read_var_total

lemma ObjectInfo_from_bytes_total [total]: "returns (ObjectInfo_from_bytes buf) (\<lambda>info. oi_handle info = 0)"
  unfolding ObjectInfo_from_bytes_def
  by (auto intro!: returns_mono [OF u16.read_at_total] returns_mono [OF u32.read_at_total]
      returns_mono [OF string.read_var_total] returns_mono [OF datetime.read_var_total])

lemma StorageInfo_from_bytes_total [total]: "returns (StorageInfo_from_bytes buf) (\<lambda>s. True)"
  unfolding StorageInfo_from_bytes_def
  by (auto intro!: returns_mono [OF u16.read_at_total] returns_mono [OF u32.read_at_total]
      returns_mono [OF u64.read_at_total] returns_mono [OF string.read_var_total])

lemma DeviceInfo_from_bytes_total [total]: "returns (DeviceInfo_from_bytes buf) (\<lambda>d. True)"
  unfolding DeviceInfo_from_bytes_def
  by (auto intro!: returns_mono [OF u16.read_at_total] returns_mono [OF u32.read_at_total]
      returns_mono [OF string.read_var_total] returns_mono [OF u16_array.read_var_total])

lemma array_len_total: "returns (array_len rest type_code) (\<lambda>len. True)"
  by (auto simp: array_len_def split: option.splits intro!: returns_mono [OF u32.unpack_returns])

lemma element_value_total: "returns (element_value rest type_code) (\<lambda>v. True)"
  by (auto simp: element_value_def Let_def intro: returns_mono [OF array_len_total]
      returns_mono [OF PropertyValue_from_bytes_total])

lemma list_element_total: "returns (list_element buf offset) (\<lambda>(el, off). True)"
  by (auto simp: list_element_def Let_def intro!: returns_mono [OF u32.unpack_returns]
      returns_mono [OF u16.unpack_returns] returns_mono [OF element_value_total])

lemma list_elements_total: "returns (list_elements buf offset n) (\<lambda>els. length els = n)"
proof (induction n arbitrary: offset)
  case (Suc n)
  then show ?case by (auto intro!: returns_mono [OF list_element_total] intro: returns_mono)
qed simp

lemma list_from_bytes_total [total]: "returns (list_from_bytes buf) (\<lambda>els. True)"
  by (auto simp: list_from_bytes_def intro!: returns_mono [OF u32.unpack_returns]
      intro: returns_mono [OF list_elements_total])

section \<open>Property lists on the wire\<close>

text \<open>
  The value bytes of an element whose value is not decoded: nothing for an undefined type, sixteen
  bytes for a 128-bit integer, a count and that many items for an array.
\<close>

definition opaque_value :: "PropertyDataType \<Rightarrow> bytes \<Rightarrow> bool" where
  "opaque_value dtype vb \<longleftrightarrow>
     (let code = PropertyDataType_into dtype in
      if 0x4001 \<le> code \<and> code \<le> 0x400A
      then \<exists>sz n raw. byte_size (PropertyDataType_from (and code 0x00FF)) = Some sz
             \<and> vb = pack_u32 n @ raw \<and> length raw = unat n * sz
      else if dtype = PropertyDataType.Undefined then vb = []
      else (dtype = PropertyDataType.Int128 \<or> dtype = PropertyDataType.Uint128) \<and> length vb = 16)"

definition element_wire :: "ObjectPropListElement \<Rightarrow> bytes \<Rightarrow> bool" where
  "element_wire el bs \<longleftrightarrow>
     ObjectPropertyCode_from (ObjectPropertyCode_into (pl_property el)) = pl_property el
     \<and> PropertyDataType_from (PropertyDataType_into (pl_data_type el)) = pl_data_type el
     \<and> (\<exists>vb. bs = pack_u32 (pl_handle el) @ pack_u16 (ObjectPropertyCode_into (pl_property el))
               @ pack_u16 (PropertyDataType_into (pl_data_type el)) @ vb
           \<and> (case pl_value el of
                 Some v \<Rightarrow> value_ok (pl_data_type el) v \<and> PropertyValue_to_bytes v = Ok vb
               | None \<Rightarrow> opaque_value (pl_data_type el) vb))"

lemma byte_size_le: "byte_size dtype = Some sz \<Longrightarrow> sz \<le> 16"
  by (cases dtype) auto

lemma array_len_wire:
  assumes "byte_size (PropertyDataType_from (and code 0x00FF)) = Some sz"
  shows "array_len (pack_u32 n @ raw) code = Ok (4 + unat n * sz)"
proof -
  have "unat n < 2 ^ 32" using unsigned_less [of n] by simp
  then have "unat n * sz \<le> 2 ^ 32 * 16" using byte_size_le [OF assms] by (intro mult_le_mono) simp_all
  with assms show ?thesis by (simp add: array_len_def u32.unpack_pack checked_usize_def)
qed

lemma element_value_wire:
  assumes "PropertyDataType_from (PropertyDataType_into dtype) = dtype"
    and "case ov of Some v \<Rightarrow> value_ok dtype v \<and> PropertyValue_to_bytes v = Ok vb | None \<Rightarrow> opaque_value dtype vb"
  shows "element_value (vb @ rest) (PropertyDataType_into dtype) = Ok (ov, length vb)"
proof (cases ov)
  case None
  with assms show ?thesis
    by (auto simp: element_value_def opaque_value_def Let_def array_len_wire u32.length_pack split: if_splits)
next
  case (Some v)
  with assms have "value_ok dtype v" "PropertyValue_to_bytes v = Ok vb" by auto
  from PropertyValue_unpack_pack [OF this(2,1)] this(1) Some assms(1) show ?thesis
    by (cases v) (auto simp: element_value_def Let_def value_ok_def word_le_nat_alt)
qed

lemma get_from_append: "get_from (xs @ ys) (length xs + n) = get_from ys n"
  by (simp add: get_from_def)

lemma get_from_whole [simp]: "get_from (xs @ ys) (length xs) = ys" "get_from ys 0 = ys"
  by (simp_all add: get_from_def)

lemma list_element_wire:
  assumes "element_wire el bs"
  shows "list_element (pre @ bs @ rest) (length pre) = Ok (el, length pre + length bs)"
proof -
  let ?h = "pack_u32 (pl_handle el)" and ?p = "pack_u16 (ObjectPropertyCode_into (pl_property el))"
    and ?t = "pack_u16 (PropertyDataType_into (pl_data_type el))"
  from assms obtain vb where bs: "bs = ?h @ ?p @ ?t @ vb"
    and codes: "ObjectPropertyCode_from (ObjectPropertyCode_into (pl_property el)) = pl_property el"
      "PropertyDataType_from (PropertyDataType_into (pl_data_type el)) = pl_data_type el"
    and val: "element_value (vb @ rest) (PropertyDataType_into (pl_data_type el)) = Ok (pl_value el, length vb)"
    by (auto simp: element_wire_def intro!: element_value_wire)
  have g: "get_from (?h @ ?p @ ?t @ vb @ rest) 4 = ?p @ ?t @ vb @ rest"
    "get_from (?h @ ?p @ ?t @ vb @ rest) 6 = ?t @ vb @ rest"
    "get_from (pre @ ?h @ ?p @ ?t @ vb @ rest) (length pre + 8) = vb @ rest"
    by (simp_all add: get_from_def int_codecs_length)
  have len: "length bs = 8 + length vb" by (simp add: bs int_codecs_length)
  show ?thesis
    by (simp add: list_element_def bs Let_def g u32.unpack_pack u16.unpack_pack codes val)
      (simp add: int_codecs_length)
qed

lemma list_elements_wire:
  "list_all2 element_wire els bss \<Longrightarrow>
    list_elements (pre @ concat bss @ rest) (length pre) (length els) = Ok els"
proof (induction els bss arbitrary: pre rule: list_all2_induct)
  case Nil
  then show ?case by simp
next
  case (Cons el els bs bss)
  from list_element_wire [OF Cons(1), of pre "concat bss @ rest"] Cons(3) [of "pre @ bs"]
  show ?case by simp
qed

lemma list_from_bytes_wire:
  assumes "list_all2 element_wire els bss" "length els < 2 ^ 32"
  shows "list_from_bytes (pack_u32 (word_of_nat (length els)) @ concat bss @ rest) = Ok els"
  using list_elements_wire [OF assms(1), of "pack_u32 (word_of_nat (length els))" rest] assms(2)
  by (simp add: list_from_bytes_def u32.unpack_pack u32.length_pack unat_of_nat)

section \<open>Setting properties\<close>

text \<open>The value a property has in an object's information, as the device would send it.\<close>

fun get_property :: "ObjectInfo \<Rightarrow> ObjectPropertyCode \<Rightarrow> PropertyValue option" where
  "get_property info ObjectPropertyCode.ObjectFileName = Some (PropertyValue.String (oi_filename info))"
| "get_property info ObjectPropertyCode.DateCreated =
     map_option PropertyValue.String (case oi_created info of Some dt \<Rightarrow> format dt | None \<Rightarrow> Some [])"
| "get_property info ObjectPropertyCode.DateModified =
     map_option PropertyValue.String (case oi_modified info of Some dt \<Rightarrow> format dt | None \<Rightarrow> Some [])"
| "get_property info ObjectPropertyCode.ObjectSize = Some (PropertyValue.Uint64 (oi_size info))"
| "get_property info ObjectPropertyCode.StorageId = Some (PropertyValue.Uint32 (oi_storage_id info))"
| "get_property info ObjectPropertyCode.ParentObject = Some (PropertyValue.Uint32 (oi_parent info))"
| "get_property info ObjectPropertyCode.ObjectFormat =
     Some (PropertyValue.Uint16 (ObjectFormatCode_into (oi_format info)))"
| "get_property info ObjectPropertyCode.ProtectionStatus =
     Some (PropertyValue.Uint16 (ProtectionStatus_into (oi_protection_status info)))"
| "get_property info property = None"

lemma set_property_refused: "set_property info property v = (info', False) \<Longrightarrow> info' = info"
  by (auto simp: set_property_def set_string_property_def set_number_property_def
      split: PropertyValue.splits option.splits ObjectPropertyCode.splits if_splits)

text \<open>A set field holds the value, and the other properties are left alone.\<close>

lemma set_property_frame:
  assumes "set_property info property v = (info', True)" "property' \<noteq> property"
  shows "get_property info' property' = get_property info property'"
proof -
  have "(\<exists>s. v = PropertyValue.String s \<and> set_string_property info property s = (info', True))
      \<or> (\<exists>n. value_u64 v = Some n \<and> set_number_property info property n = (info', True))"
    using assms(1) by (auto simp: set_property_def split: PropertyValue.splits option.splits)
  with assms(2) show ?thesis
    by (cases property'; cases property) (auto simp: set_string_property_def set_number_property_def split: if_splits)
qed

lemma format_nonempty: "format dt \<noteq> Some []"
  by (simp add: format_def str_def)

text \<open>Setting every property from what another object reports makes the two agree on it.\<close>

lemma set_property_get:
  assumes "get_property src property = Some v" "info_ok src"
  shows "\<exists>info'. set_property info property v = (info', True) \<and> get_property info' property = Some v"
proof -
  have le32: "(ucast (w :: u32) :: u64) \<le> 0xFFFFFFFF" for w
    using unat_less [of w] by (simp add: word_le_nat_alt unat_ucast_up)
  have le16: "(ucast (w :: u16) :: u64) \<le> 0xFFFF" for w
    using unat_less [of w] by (simp add: word_le_nat_alt unat_ucast_up)
  have date: "map_option PropertyValue.String (case parse s of Some dt \<Rightarrow> format dt | None \<Rightarrow> Some []) = Some (PropertyValue.String s)"
    if "(case d of Some dt \<Rightarrow> format dt | None \<Rightarrow> Some []) = Some s" "date_ok d" for d s
  proof (cases d)
    case None
    with that show ?thesis by (simp add: parse_def as_bytes_def parse_bytes_def)
  next
    case (Some dt)
    with that have "parse s = Some dt" by (intro parse_format) (auto simp: date_ok_def datetime_ok_def)
    with Some that show ?thesis by simp
  qed
  note defs = set_property_def set_string_property_def set_number_property_def
  show ?thesis
  proof (cases property)
    case DateCreated
    with assms obtain s where "v = PropertyValue.String s"
        "(case oi_created src of Some dt \<Rightarrow> format dt | None \<Rightarrow> Some []) = Some s" "date_ok (oi_created src)"
      by (auto simp: info_ok_def)
    with date DateCreated show ?thesis by (simp add: defs)
  next
    case DateModified
    with assms obtain s where "v = PropertyValue.String s"
        "(case oi_modified src of Some dt \<Rightarrow> format dt | None \<Rightarrow> Some []) = Some s" "date_ok (oi_modified src)"
      by (auto simp: info_ok_def)
    with date DateModified show ?thesis by (simp add: defs)
  qed (use assms(1) in \<open>auto simp: defs le32 le16 ucast_ucast_small\<close>)
qed

section \<open>Properties of the datasets\<close>

text \<open>Samples: a photo, a device, a storage and the wire form of two properties.\<close>

definition sample_info :: ObjectInfo where
  "sample_info = ObjectInfo_default\<lparr>oi_handle := 9, oi_storage_id := 0x10001, oi_format := ObjectFormatCode.Association,
     oi_size := 5000000000, oi_filename := str ''a'',
     oi_modified := Some \<lparr>dt_year = 2024, dt_month = 2, dt_day = 29, dt_hour = 23, dt_minute = 59, dt_second = 59, dt_offset = None\<rparr>\<rparr>"

definition sample_device :: DeviceInfo where
  "sample_device = \<lparr>di_standard_version = 100, di_vendor_extension_id = 6, di_vendor_extension_version = 100,
     di_vendor_extension_desc = [], di_functional_mode = 0,
     di_operations_supported = [OperationCode.GetDeviceInfo, OperationCode.SendObject], di_events_supported = [EventCode.ObjectAdded],
     di_device_properties_supported = [0xD402], di_capture_formats = [], di_playback_formats = [ObjectFormatCode.Association],
     di_manufacturer = str ''m'', di_model = str ''p'', di_device_version = str ''1'', di_serial_number = str ''s''\<rparr>"

definition sample_storage :: StorageInfo where
  "sample_storage = \<lparr>si_storage_type = StorageType.FixedRam, si_filesystem_type = FilesystemType.GenericHierarchical,
     si_access_capability = AccessCapability.ReadWrite, si_max_capacity = 64000000000, si_free_space_bytes = 5, si_free_space_objects = 0,
     si_description = str ''Internal'', si_volume_identifier = []\<rparr>"

definition sample_elements :: "ObjectPropListElement list" where
  "sample_elements =
     [\<lparr>pl_handle = 1, pl_property = ObjectPropertyCode.ObjectSize, pl_data_type = PropertyDataType.Uint128, pl_value = None\<rparr>,
      \<lparr>pl_handle = 1, pl_property = ObjectPropertyCode.StorageId, pl_data_type = PropertyDataType.Uint32,
       pl_value = Some (PropertyValue.Uint32 7)\<rparr>]"

lemma sample_codes:
  "ObjectFormatCode_from (ObjectFormatCode_into ObjectFormatCode.Undefined) = ObjectFormatCode.Undefined"
  "ObjectFormatCode_from (ObjectFormatCode_into ObjectFormatCode.Association) = ObjectFormatCode.Association"
  "ProtectionStatus_from (ProtectionStatus_into ProtectionStatus.NoProtection) = ProtectionStatus.NoProtection"
  "AssociationType_from (AssociationType_into AssociationType.NoAssociation) = AssociationType.NoAssociation"
  "StorageType_from (StorageType_into StorageType.FixedRam) = StorageType.FixedRam"
  "FilesystemType_from (FilesystemType_into FilesystemType.GenericHierarchical) = FilesystemType.GenericHierarchical"
  "AccessCapability_from (AccessCapability_into AccessCapability.ReadWrite) = AccessCapability.ReadWrite"
  "OperationCode_from (OperationCode_into OperationCode.GetDeviceInfo) = OperationCode.GetDeviceInfo"
  "OperationCode_from (OperationCode_into OperationCode.SendObject) = OperationCode.SendObject"
  "EventCode_from (EventCode_into EventCode.ObjectAdded) = EventCode.ObjectAdded"
  "ObjectPropertyCode_from (ObjectPropertyCode_into ObjectPropertyCode.ObjectSize) = ObjectPropertyCode.ObjectSize"
  "ObjectPropertyCode_from (ObjectPropertyCode_into ObjectPropertyCode.StorageId) = ObjectPropertyCode.StorageId"
  "PropertyDataType_from (PropertyDataType_into PropertyDataType.Uint128) = PropertyDataType.Uint128"
  "PropertyDataType_from (PropertyDataType_into PropertyDataType.Uint32) = PropertyDataType.Uint32"
  by code_simp+

lemma sample_ok: "info_ok sample_info" "storage_info_ok sample_storage" "device_info_ok sample_device"
  by (simp_all add: info_ok_def sample_info_def ObjectInfo_default_def storage_info_ok_def sample_storage_def device_info_ok_def
      sample_device_def canonical_def sample_codes [simplified] date_ok_def datetime_ok_def is_valid_iff civil_date_def month_len_def leap_def
      str_def of_char_def valid_str_def is_scalar_def)

lemma sample_date:
  "\<exists>bs. pack_datetime \<lparr>dt_year = 2024, dt_month = 2, dt_day = 29, dt_hour = 23, dt_minute = 59, dt_second = 59, dt_offset = None\<rparr> = Ok bs" (is "\<exists>bs. pack_datetime ?dt = Ok bs")
proof -
  have "datetime_ok ?dt" by (simp add: datetime_ok_def is_valid_iff civil_date_def month_len_def leap_def)
  from pack_datetime_Ok [OF this] show ?thesis by metis
qed

lemma sample_wires:
  "is_Ok (ObjectInfo_to_bytes sample_info)" "is_Ok (storage_info_wire sample_storage)" "is_Ok (device_info_wire sample_device)"
  by (simp_all add: is_Ok_iff ObjectInfo_to_bytes_def storage_info_wire_def device_info_wire_def sample_info_def ObjectInfo_default_def
      sample_storage_def sample_device_def Let_def pack_string_def str_def encode_utf16_def encode_utf16_char_def MAX_STRING_UNITS_def
      pack_date_field_def sample_date)

lemma sample_elements_wire:
  "list_all2 element_wire sample_elements
     [pack_u32 1 @ pack_u16 0xDC04 @ pack_u16 0x000A @ replicate 16 0, pack_u32 1 @ pack_u16 0xDC01 @ pack_u16 0x0006 @ pack_u32 7]"
proof -
  have "ObjectPropertyCode_into ObjectPropertyCode.ObjectSize = 0xDC04" "ObjectPropertyCode_into ObjectPropertyCode.StorageId = 0xDC01"
    "PropertyDataType_into PropertyDataType.Uint128 = 0x000A" "PropertyDataType_into PropertyDataType.Uint32 = 0x0006"
    by code_simp+
  then show ?thesis
    by (simp add: sample_elements_def element_wire_def sample_codes [simplified] opaque_value_def value_ok_def)
qed

text \<open>
  C38: Datasets survive the wire, in front of any further bytes. An object's information comes back with its handle cleared and its size
  capped at 2^32 - 1, and a device's and a storage's information come back unchanged, provided their codes are canonical (an assigned
  number is not held by the catch-all variant), their strings are valid, hold no NUL and are short enough to be written, their dates are
  valid with an offset of less than a day, and their code lists have fewer than 2^32 entries. A list of fewer than 2^32 object properties with canonical codes comes back element
  by element, its arrays and 128-bit values skipped by their length.
\<close>

theorem datasets_roundtrip:
  "(info_ok info \<longrightarrow> ObjectInfo_to_bytes info = Ok bs \<longrightarrow>
      ObjectInfo_from_bytes (bs @ rest) = Ok (info\<lparr>oi_handle := 0, oi_size := min (oi_size info) 0xFFFFFFFF\<rparr>))
   \<and> (storage_info_ok si \<longrightarrow> storage_info_wire si = Ok bs \<longrightarrow> StorageInfo_from_bytes (bs @ rest) = Ok si)
   \<and> (device_info_ok di \<longrightarrow> device_info_wire di = Ok bs \<longrightarrow> DeviceInfo_from_bytes (bs @ rest) = Ok di)
   \<and> (list_all2 element_wire els bss \<longrightarrow> length els < 2 ^ 32 \<longrightarrow>
      list_from_bytes (pack_u32 (word_of_nat (length els)) @ concat bss @ rest) = Ok els)"
proof -
  have "ucast (size_u32 (oi_size info)) = min (oi_size info) 0xFFFFFFFF"
    using size_u32_small [of "oi_size info"] size_u32_large [of "oi_size info"] by (auto simp: min_def)
  then show ?thesis
    using ObjectInfo_unpack_pack [of info bs rest] StorageInfo_unpack_wire [of si bs rest] DeviceInfo_unpack_wire [of di bs rest]
      list_from_bytes_wire [of els bss rest] by simp
qed

theorem datasets_roundtrip_witness:
  "\<exists>bs1 bs2 bs3. ObjectInfo_to_bytes sample_info = Ok bs1
     \<and> ObjectInfo_from_bytes (bs1 @ [7]) = Ok (sample_info\<lparr>oi_handle := 0, oi_size := 0xFFFFFFFF\<rparr>)
     \<and> storage_info_wire sample_storage = Ok bs2 \<and> StorageInfo_from_bytes bs2 = Ok sample_storage
     \<and> device_info_wire sample_device = Ok bs3 \<and> DeviceInfo_from_bytes bs3 = Ok sample_device
     \<and> list_from_bytes (pack_u32 2 @ pack_u32 1 @ pack_u16 0xDC04 @ pack_u16 0x000A @ replicate 16 0
          @ pack_u32 1 @ pack_u16 0xDC01 @ pack_u16 0x0006 @ pack_u32 7) = Ok sample_elements"
proof -
  obtain bs1 bs2 bs3 where bs: "ObjectInfo_to_bytes sample_info = Ok bs1" "storage_info_wire sample_storage = Ok bs2"
      "device_info_wire sample_device = Ok bs3"
    using sample_wires by (auto simp: is_Ok_iff)
  have sz: "min (oi_size sample_info) 0xFFFFFFFF = 0xFFFFFFFF" by (simp add: sample_info_def)
  have "length sample_elements = 2" by (simp add: sample_elements_def)
  then have "list_from_bytes (pack_u32 2 @ pack_u32 1 @ pack_u16 0xDC04 @ pack_u16 0x000A @ replicate 16 0
      @ pack_u32 1 @ pack_u16 0xDC01 @ pack_u16 0x0006 @ pack_u32 7) = Ok sample_elements"
    using datasets_roundtrip [of undefined undefined "[]", THEN conjunct2, THEN conjunct2, THEN conjunct2, rule_format, OF sample_elements_wire]
    by simp
  with bs sz sample_ok show ?thesis
    using datasets_roundtrip [of sample_info bs1 "[7]"] datasets_roundtrip [of _ bs2 "[]" sample_storage]
      datasets_roundtrip [of _ bs3 "[]" _ sample_device]
    by auto
qed

text \<open>
  Setting a property is a map update on the properties an object reports. A property that is refused changes nothing; a property that is set leaves every other one as it was; and
  setting what another well-formed object reports for it makes the object report the same.
\<close>

theorem set_property_update:
  "(set_property info property v = (info', False) \<longrightarrow> info' = info)
   \<and> (set_property info property v = (info', True) \<longrightarrow> property' \<noteq> property \<longrightarrow>
        get_property info' property' = get_property info property')
   \<and> (get_property src property = Some v \<longrightarrow> info_ok src \<longrightarrow>
        (\<exists>info'. set_property info property v = (info', True) \<and> get_property info' property = Some v))"
  using set_property_refused [of info property v info'] set_property_frame [of info property v info' property']
    set_property_get [of src property v info] by blast

theorem set_property_update_witness:
  "\<exists>info'. set_property (ObjectInfo_default\<lparr>oi_size := 7\<rparr>) ObjectPropertyCode.ObjectFileName (PropertyValue.String (str ''b'')) = (info', True)
     \<and> get_property info' ObjectPropertyCode.ObjectSize = get_property (ObjectInfo_default\<lparr>oi_size := 7\<rparr>) ObjectPropertyCode.ObjectSize"
proof -
  have "\<exists>info'. set_property (ObjectInfo_default\<lparr>oi_size := 7\<rparr>) ObjectPropertyCode.ObjectFileName (PropertyValue.String (str ''b'')) = (info', True)"
    by (simp add: set_property_def set_string_property_def)
  with set_property_update [of "ObjectInfo_default\<lparr>oi_size := 7\<rparr>" ObjectPropertyCode.ObjectFileName "PropertyValue.String (str ''b'')"]
  show ?thesis by blast
qed

end
