(* ===== verification/Operations.thy ===== *)
theory Operations
  imports Session Datasets
begin

text \<open>
  The operations of \<open>ptp/session/operations.rs\<close> and \<open>ptp/session/properties.rs\<close>, the session-less device
  of \<open>ptp/device.rs\<close> and the cancellation token of \<open>cancel.rs\<close>. Each operation is its source's command, the
  check of the response and the decoding of the data. Operations with a data phase from the device may not
  return, so they are \<open>option\<close> valued.
\<close>

section \<open>Shared shapes\<close>

text \<open>\<open>execute_with_receive(..).await?\<close> and \<open>check_response(..)?\<close>, then the rest of the operation on the data.\<close>

definition receive_checked ::
  "'t transport_ops \<Rightarrow> OperationCode \<Rightarrow> u32 list \<Rightarrow> (bytes \<Rightarrow> 't PtpSession \<Rightarrow> 'a res \<times> 't PtpSession) \<Rightarrow>
     't PtpSession \<Rightarrow> ('a res \<times> 't PtpSession) option" where
  "receive_checked ops operation ps k s =
     then_opt (execute_with_receive ops operation ps s) (\<lambda>(response, data) s.
     seq_opt (check_response response operation, s) (\<lambda>_ s. Some (k data s)))"

text \<open>\<open>execute(..).await?\<close> or \<open>execute_with_send(..).await?\<close>, then the check.\<close>

definition checked ::
  "OperationCode \<Rightarrow> (ResponseContainer \<Rightarrow> 'a res) \<Rightarrow> ResponseContainer res \<times> 't PtpSession \<Rightarrow> 'a res \<times> 't PtpSession" where
  "checked operation k m =
     seq_ok m (\<lambda>response s. seq_ok (check_response response operation, s) (\<lambda>_ s. (k response, s)))"

abbreviation returning :: "(bytes \<Rightarrow> 'a res) \<Rightarrow> bytes \<Rightarrow> 't PtpSession \<Rightarrow> 'a res \<times> 't PtpSession" where
  "returning decode \<equiv> (\<lambda>data s. (decode data, s))"

section \<open>Operations\<close>

definition get_device_info :: "'t transport_ops \<Rightarrow> 't PtpSession \<Rightarrow> (DeviceInfo res \<times> 't PtpSession) option" where
  "get_device_info ops = receive_checked ops OperationCode.GetDeviceInfo [] (\<lambda>data s.
     seq_ok (DeviceInfo_from_bytes data, s) (\<lambda>info s.
       (Ok info, s\<lparr>transport := set_drain_on_cancel ops (runs_android_mtp_server info) (transport s)\<rparr>)))"

definition get_storage_ids :: "'t transport_ops \<Rightarrow> 't PtpSession \<Rightarrow> (StorageId list res \<times> 't PtpSession) option" where
  "get_storage_ids ops = receive_checked ops OperationCode.GetStorageIds [] (returning (\<lambda>data.
     map_ok fst (unpack_u32_array data)))"

definition get_storage_info ::
  "'t transport_ops \<Rightarrow> StorageId \<Rightarrow> 't PtpSession \<Rightarrow> (StorageInfo res \<times> 't PtpSession) option" where
  "get_storage_info ops storage_id =
     receive_checked ops OperationCode.GetStorageInfo [storage_id] (returning StorageInfo_from_bytes)"

definition format_code :: "ObjectFormatCode option \<Rightarrow> u32" where
  "format_code fmt = (case fmt of Some f \<Rightarrow> ucast (ObjectFormatCode_into f) | None \<Rightarrow> 0)"

definition get_object_handles ::
  "'t transport_ops \<Rightarrow> StorageId \<Rightarrow> ObjectFormatCode option \<Rightarrow> ObjectHandle option \<Rightarrow>
     't PtpSession \<Rightarrow> (ObjectHandle list res \<times> 't PtpSession) option" where
  "get_object_handles ops storage_id fmt parent =
     (let parent_handle = (case parent of Some p \<Rightarrow> p | None \<Rightarrow> 0) in
      receive_checked ops OperationCode.GetObjectHandles [storage_id, format_code fmt, parent_handle]
        (returning (\<lambda>data. map_ok fst (unpack_u32_array data))))"

definition get_object_info ::
  "'t transport_ops \<Rightarrow> ObjectHandle \<Rightarrow> 't PtpSession \<Rightarrow> (ObjectInfo res \<times> 't PtpSession) option" where
  "get_object_info ops handle =
     receive_checked ops OperationCode.GetObjectInfo [handle] (returning ObjectInfo_from_bytes)"

definition get_object_prop_value ::
  "'t transport_ops \<Rightarrow> ObjectHandle \<Rightarrow> ObjectPropertyCode \<Rightarrow> 't PtpSession \<Rightarrow> (bytes res \<times> 't PtpSession) option" where
  "get_object_prop_value ops handle property =
     receive_checked ops OperationCode.GetObjectPropValue [handle, ucast (ObjectPropertyCode_into property)] (returning Ok)"

text \<open>Every error of the follow-up is swallowed; a drop or a panic is not an error.\<close>

definition get_object_info_full ::
  "'t transport_ops \<Rightarrow> ObjectHandle \<Rightarrow> 't PtpSession \<Rightarrow> (ObjectInfo res \<times> 't PtpSession) option" where
  "get_object_info_full ops handle s =
     then_opt (get_object_info ops handle s) (\<lambda>info s.
       if oi_size info = 0xFFFFFFFF
       then
         (case get_object_prop_value ops handle ObjectPropertyCode.ObjectSize s of
            None \<Rightarrow> None
          | Some (Ok bs, s) \<Rightarrow>
              (case unpack_u64 bs of
                 Ok real_size \<Rightarrow> Some (Ok (info\<lparr>oi_size := real_size\<rparr>), s)
               | Err e \<Rightarrow> Some (Ok info, s)
               | Panic \<Rightarrow> Some (Panic, s)
               | Dropped \<Rightarrow> Some (Dropped, s))
          | Some (Err e, s) \<Rightarrow> Some (Ok info, s)
          | Some (Panic, s) \<Rightarrow> Some (Panic, s)
          | Some (Dropped, s) \<Rightarrow> Some (Dropped, s))
       else Some (Ok info, s))"

definition get_object :: "'t transport_ops \<Rightarrow> ObjectHandle \<Rightarrow> 't PtpSession \<Rightarrow> (bytes res \<times> 't PtpSession) option" where
  "get_object ops handle = receive_checked ops OperationCode.GetObject [handle] (returning Ok)"

definition get_partial_object ::
  "'t transport_ops \<Rightarrow> ObjectHandle \<Rightarrow> u64 \<Rightarrow> u32 \<Rightarrow> 't PtpSession \<Rightarrow> (bytes res \<times> 't PtpSession) option" where
  "get_partial_object ops handle offset max_bytes =
     receive_checked ops OperationCode.GetPartialObject [handle, ucast offset, max_bytes] (returning Ok)"

definition offset_params :: "u64 \<Rightarrow> u32 \<times> u32" where
  "offset_params offset = (let offset_lo = ucast offset; offset_hi = ucast (drop_bit 32 offset) in (offset_lo, offset_hi))"

definition get_partial_object_64 ::
  "'t transport_ops \<Rightarrow> ObjectHandle \<Rightarrow> u64 \<Rightarrow> u32 \<Rightarrow> 't PtpSession \<Rightarrow> (bytes res \<times> 't PtpSession) option" where
  "get_partial_object_64 ops handle offset max_bytes =
     (case offset_params offset of (offset_lo, offset_hi) \<Rightarrow>
       receive_checked ops OperationCode.GetPartialObject64 [handle, offset_lo, offset_hi, max_bytes] (returning Ok))"

definition get_thumb :: "'t transport_ops \<Rightarrow> ObjectHandle \<Rightarrow> 't PtpSession \<Rightarrow> (bytes res \<times> 't PtpSession) option" where
  "get_thumb ops handle = receive_checked ops OperationCode.GetThumb [handle] (returning Ok)"

definition send_object_info ::
  "'t transport_ops \<Rightarrow> StorageId \<Rightarrow> ObjectHandle \<Rightarrow> ObjectInfo \<Rightarrow> 't PtpSession \<Rightarrow>
     (StorageId \<times> ObjectHandle \<times> ObjectHandle) res \<times> 't PtpSession" where
  "send_object_info ops storage_id parent info s =
     seq_ok (ObjectInfo_to_bytes info, s) (\<lambda>data s.
     checked OperationCode.SendObjectInfo (\<lambda>response.
       if length (rc_params response) < 3
       then Err (invalid_data ''SendObjectInfo response missing params'' [])
       else
         bind_ok (index (rc_params response) 0) (\<lambda>p0.
         bind_ok (index (rc_params response) 1) (\<lambda>p1.
         bind_ok (index (rc_params response) 2) (\<lambda>p2. Ok (p0, p1, p2)))))
       (execute_with_send ops OperationCode.SendObjectInfo [storage_id, parent] data s))"

definition send_object :: "'t transport_ops \<Rightarrow> bytes \<Rightarrow> 't PtpSession \<Rightarrow> unit res \<times> 't PtpSession" where
  "send_object ops data s =
     checked OperationCode.SendObject (\<lambda>_. Ok ()) (execute_with_send ops OperationCode.SendObject [] data s)"

definition delete_object :: "'t transport_ops \<Rightarrow> ObjectHandle \<Rightarrow> 't PtpSession \<Rightarrow> unit res \<times> 't PtpSession" where
  "delete_object ops handle s =
     checked OperationCode.DeleteObject (\<lambda>_. Ok ()) (execute ops OperationCode.DeleteObject [handle, 0] s)"

definition move_object ::
  "'t transport_ops \<Rightarrow> ObjectHandle \<Rightarrow> StorageId \<Rightarrow> ObjectHandle \<Rightarrow> 't PtpSession \<Rightarrow> unit res \<times> 't PtpSession" where
  "move_object ops handle storage_id parent s =
     checked OperationCode.MoveObject (\<lambda>_. Ok ()) (execute ops OperationCode.MoveObject [handle, storage_id, parent] s)"

definition copy_object ::
  "'t transport_ops \<Rightarrow> ObjectHandle \<Rightarrow> StorageId \<Rightarrow> ObjectHandle \<Rightarrow> 't PtpSession \<Rightarrow> ObjectHandle res \<times> 't PtpSession" where
  "copy_object ops handle storage_id parent s =
     checked OperationCode.CopyObject (\<lambda>response.
       if rc_params response = [] then Err (invalid_data ''CopyObject response missing handle'' [])
       else index (rc_params response) 0)
       (execute ops OperationCode.CopyObject [handle, storage_id, parent] s)"

definition get_object_prop_list ::
  "'t transport_ops \<Rightarrow> ObjectHandle \<Rightarrow> ObjectFormatCode option \<Rightarrow> ObjectPropertyCode option \<Rightarrow> u32 \<Rightarrow> u32 \<Rightarrow>
     't PtpSession \<Rightarrow> (bytes res \<times> 't PtpSession) option" where
  "get_object_prop_list ops handle fmt property grp depth =
     (let property_code = (case property of Some p \<Rightarrow> ucast (ObjectPropertyCode_into p) | None \<Rightarrow> 0xFFFFFFFF) in
      receive_checked ops OperationCode.GetObjectPropList
        [handle, format_code fmt, property_code, grp, depth] (returning Ok))"

definition set_object_prop_value ::
  "'t transport_ops \<Rightarrow> ObjectHandle \<Rightarrow> ObjectPropertyCode \<Rightarrow> bytes \<Rightarrow> 't PtpSession \<Rightarrow> unit res \<times> 't PtpSession" where
  "set_object_prop_value ops handle property val s =
     checked OperationCode.SetObjectPropValue (\<lambda>_. Ok ())
       (execute_with_send ops OperationCode.SetObjectPropValue [handle, ucast (ObjectPropertyCode_into property)] val s)"

definition rename_object :: "'t transport_ops \<Rightarrow> ObjectHandle \<Rightarrow> rstr \<Rightarrow> 't PtpSession \<Rightarrow> unit res \<times> 't PtpSession" where
  "rename_object ops handle new_name s =
     seq_ok (pack_string new_name, s) (\<lambda>name_bytes s.
       set_object_prop_value ops handle ObjectPropertyCode.ObjectFileName name_bytes s)"

definition initiate_capture ::
  "'t transport_ops \<Rightarrow> StorageId \<Rightarrow> ObjectFormatCode \<Rightarrow> 't PtpSession \<Rightarrow> unit res \<times> 't PtpSession" where
  "initiate_capture ops storage_id fmt s =
     (let code = (if fmt = ObjectFormatCode.Undefined then 0 else ucast (ObjectFormatCode_into fmt)) in
      checked OperationCode.InitiateCapture (\<lambda>_. Ok ())
        (execute ops OperationCode.InitiateCapture [storage_id, code] s))"

definition poll_event :: "'t transport_ops \<Rightarrow> 't PtpSession \<Rightarrow> EventContainer option res \<times> 't PtpSession" where
  "poll_event ops s =
     (case on_transport (receive_interrupt ops) s of
        (Ok bs, s) \<Rightarrow> (map_ok Some (EventContainer_from_bytes bs), s)
      | (Err PtpError.Timeout, s) \<Rightarrow> (Ok None, s)
      | (Err e, s) \<Rightarrow> (Err e, s)
      | (Panic, s) \<Rightarrow> (Panic, s)
      | (Dropped, s) \<Rightarrow> (Dropped, s))"

section \<open>Device properties\<close>

definition property_param :: "DevicePropertyCode \<Rightarrow> u32" where
  "property_param property = ucast (DevicePropertyCode_into property)"

definition get_device_prop_desc ::
  "'t transport_ops \<Rightarrow> DevicePropertyCode \<Rightarrow> 't PtpSession \<Rightarrow> (DevicePropDesc res \<times> 't PtpSession) option" where
  "get_device_prop_desc ops property =
     receive_checked ops OperationCode.GetDevicePropDesc [property_param property] (returning DevicePropDesc_from_bytes)"

definition get_device_prop_value ::
  "'t transport_ops \<Rightarrow> DevicePropertyCode \<Rightarrow> 't PtpSession \<Rightarrow> (bytes res \<times> 't PtpSession) option" where
  "get_device_prop_value ops property =
     receive_checked ops OperationCode.GetDevicePropValue [property_param property] (returning Ok)"

definition get_device_prop_value_typed ::
  "'t transport_ops \<Rightarrow> DevicePropertyCode \<Rightarrow> PropertyDataType \<Rightarrow> 't PtpSession \<Rightarrow> (PropertyValue res \<times> 't PtpSession) option" where
  "get_device_prop_value_typed ops property dtype s =
     then_opt (get_device_prop_value ops property s) (\<lambda>data s.
       Some (map_ok fst (PropertyValue_from_bytes dtype data), s))"

definition set_device_prop_value ::
  "'t transport_ops \<Rightarrow> DevicePropertyCode \<Rightarrow> bytes \<Rightarrow> 't PtpSession \<Rightarrow> unit res \<times> 't PtpSession" where
  "set_device_prop_value ops property val s =
     checked OperationCode.SetDevicePropValue (\<lambda>_. Ok ())
       (execute_with_send ops OperationCode.SetDevicePropValue [property_param property] val s)"

definition set_device_prop_value_typed ::
  "'t transport_ops \<Rightarrow> DevicePropertyCode \<Rightarrow> PropertyValue \<Rightarrow> 't PtpSession \<Rightarrow> unit res \<times> 't PtpSession" where
  "set_device_prop_value_typed ops property val s =
     seq_ok (PropertyValue_to_bytes val, s) (\<lambda>data s. set_device_prop_value ops property data s)"

definition reset_device_prop_value ::
  "'t transport_ops \<Rightarrow> DevicePropertyCode \<Rightarrow> 't PtpSession \<Rightarrow> unit res \<times> 't PtpSession" where
  "reset_device_prop_value ops property s =
     checked OperationCode.ResetDevicePropValue (\<lambda>_. Ok ())
       (execute ops OperationCode.ResetDevicePropValue [property_param property] s)"

section \<open>The device without a session\<close>

partial_function (option) device_info_loop :: "'t transport_ops \<Rightarrow> bytes \<Rightarrow> 't \<Rightarrow> (bytes res \<times> 't) option" where
  "device_info_loop ops data_payload t =
     seq_opt (receive_bulk ops (64 * 1024) t) (\<lambda>bs t.
     if bs = [] then Some (Err (invalid_data ''Empty response'' []), t)
     else seq_opt (container_type bs, t) (\<lambda>ct t.
     if ct = ContainerType.Data
     then
       seq_opt (whole_container ops bs t) (\<lambda>bs t.
       seq_opt (DataContainer_from_bytes bs, t) (\<lambda>container t.
         device_info_loop ops (data_payload @ dc_payload container) t))
     else if ct = ContainerType.Response
     then
       seq_opt (ResponseContainer_from_bytes bs, t) (\<lambda>response t.
         if rc_code response \<noteq> ResponseCode.OK
         then Some (Err (PtpError.Protocol (rc_code response) OperationCode.GetDeviceInfo), t)
         else Some (Ok data_payload, t))
     else Some (Err (invalid_data ''Unexpected container type: {:?}'' [unat (ContainerType_to_code ct)]), t)))"

definition PtpDevice_get_device_info :: "'t transport_ops \<Rightarrow> 't \<Rightarrow> (DeviceInfo res \<times> 't) option" where
  "PtpDevice_get_device_info ops t =
     seq_opt (send_bulk ops (command OperationCode.GetDeviceInfo 0 []) t) (\<lambda>_ t.
     then_opt (device_info_loop ops [] t) (\<lambda>data_payload t.
     seq_opt (DeviceInfo_from_bytes data_payload, t) (\<lambda>info t.
       Some (Ok info, set_drain_on_cancel ops (runs_android_mtp_server info) t))))"

definition PtpDevice_reset_device :: "'t transport_ops \<Rightarrow> 't \<Rightarrow> unit res \<times> 't" where
  "PtpDevice_reset_device ops t = reset_device ops t"

definition open_session_with_id :: "'t transport_ops \<Rightarrow> u32 \<Rightarrow> 't \<Rightarrow> 't PtpSession res \<times> 't" where
  "open_session_with_id ops sid t = session_open ops sid t"

definition open_session :: "'t transport_ops \<Rightarrow> 't \<Rightarrow> 't PtpSession res \<times> 't" where
  "open_session ops t = open_session_with_id ops 1 t"

section \<open>Cancellation tokens\<close>

record CancelToken =
  cancelled :: bool

definition CancelToken_new :: CancelToken where
  "CancelToken_new = \<lparr>cancelled = False\<rparr>"

definition CancelToken_cancel :: "CancelToken \<Rightarrow> CancelToken" where
  "CancelToken_cancel tok = tok\<lparr>cancelled := True\<rparr>"

definition bail_if_cancelled :: "CancelToken option \<Rightarrow> unit res" where
  "bail_if_cancelled token =
     (case token of
        Some tok \<Rightarrow> if cancelled tok then Err PtpError.Cancelled else Ok ()
      | None \<Rightarrow> Ok ())"

section \<open>No reply makes an operation panic\<close>

definition panic_free :: "'t transport_ops \<Rightarrow> bool" where
  "panic_free ops \<longleftrightarrow>
     (\<forall>data t. fst (send_bulk ops data t) \<noteq> Panic) \<and> (\<forall>n t. fst (receive_bulk ops n t) \<noteq> Panic)
     \<and> (\<forall>t. fst (receive_interrupt ops t) \<noteq> Panic) \<and> (\<forall>tx d t. fst (cancel_transfer ops tx d t) \<noteq> Panic)
     \<and> (\<forall>i m t. fst (drain_bulk_in ops i m t) \<noteq> Panic)"

definition calm :: "'a res \<times> 's \<Rightarrow> bool" where
  "calm m \<longleftrightarrow> fst m \<noteq> Panic"

definition calm_opt :: "('a res \<times> 's) option \<Rightarrow> bool" where
  "calm_opt m \<longleftrightarrow> (\<forall>r s. m = Some (r, s) \<longrightarrow> r \<noteq> Panic)"

lemma calm_pair [simp]: "calm (Ok x, s)" "calm (Err e, s)" "calm (Dropped, s)"
  by (simp_all add: calm_def)

lemma calm_opt_simps [simp]: "calm_opt (Some m) = calm m" "calm_opt None"
  by (cases m; simp add: calm_opt_def calm_def)+

lemma calm_seq_ok: "calm m \<Longrightarrow> (\<And>x s. m = (Ok x, s) \<Longrightarrow> calm (k x s)) \<Longrightarrow> calm (seq_ok m k)"
  by (cases "(m, k)" rule: seq_ok.cases) (auto simp: calm_def)

lemma calm_seq_opt: "calm m \<Longrightarrow> (\<And>x s. m = (Ok x, s) \<Longrightarrow> calm_opt (k x s)) \<Longrightarrow> calm_opt (seq_opt m k)"
  by (cases "(m, k)" rule: seq_opt.cases) (auto simp: calm_def)

lemma calm_then_opt: "calm_opt m \<Longrightarrow> (\<And>x s. calm_opt (k x s)) \<Longrightarrow> calm_opt (then_opt m k)"
  by (cases m) (simp_all add: then_opt_def calm_seq_opt)

lemma calm_if: "(P \<Longrightarrow> calm a) \<Longrightarrow> (\<not> P \<Longrightarrow> calm b) \<Longrightarrow> calm (if P then a else b)"
  "(P \<Longrightarrow> calm_opt c) \<Longrightarrow> (\<not> P \<Longrightarrow> calm_opt d) \<Longrightarrow> calm_opt (if P then c else d)"
  by simp_all

lemma calm_returns: "returns r Q \<Longrightarrow> calm (r, s)"
  by (cases r) auto

lemma calm_on_transport: "(\<And>t. calm (f t)) \<Longrightarrow> calm (on_transport f s)"
  by (simp add: on_transport_def calm_def split: prod.splits) (metis fst_conv)

lemmas calm_parsers = calm_returns [OF ResponseContainer_from_bytes_total] calm_returns [OF DataContainer_from_bytes_total]
  calm_returns [OF container_type_total] calm_returns [OF EventContainer_from_bytes_total]
  calm_returns [OF ObjectInfo_from_bytes_total] calm_returns [OF StorageInfo_from_bytes_total]
  calm_returns [OF DeviceInfo_from_bytes_total] calm_returns [OF DevicePropDesc_from_bytes_total]

lemma panic_free_calls:
  assumes "panic_free ops"
  shows "calm (on_transport (send_bulk ops data) s)" "calm (on_transport (receive_bulk ops n) s)"
    "calm (send_bulk ops data t)" "calm (receive_bulk ops n t)" "calm (on_transport (cancel_transfer ops tx d) s)"
    "calm (on_transport (receive_interrupt ops) s)" "calm (drain_bulk_in ops i j t)"
proof -
  have calls: "calm (send_bulk ops data t)" "calm (receive_bulk ops n t)" "calm (cancel_transfer ops tx d t)"
    "calm (receive_interrupt ops t)" "calm (drain_bulk_in ops i j t)" for data n tx d i j t
    using assms by (auto simp: panic_free_def calm_def)
  then show "calm (on_transport (send_bulk ops data) s)" "calm (on_transport (receive_bulk ops n) s)"
    "calm (send_bulk ops data t)" "calm (receive_bulk ops n t)" "calm (on_transport (cancel_transfer ops tx d) s)"
    "calm (on_transport (receive_interrupt ops) s)" "calm (drain_bulk_in ops i j t)"
    by (auto intro!: calm_on_transport)
qed

lemmas calm_intros = calm_seq_ok calm_seq_opt calm_if calm_parsers panic_free_calls calm_pair

lemma calm_receive_response: "panic_free ops \<Longrightarrow> calm (receive_response ops tx operation skipped s)"
proof (induction ops tx operation skipped s rule: receive_response.induct)
  case (1 ops tx operation skipped s)
  show ?case
    by (subst receive_response.simps) (intro calm_intros "1.prems"; auto intro!: "1.IH" [simplified] "1.prems")
qed

lemma calm_complete_container: "panic_free ops \<Longrightarrow> calm (complete_container ops n bs t)"
proof (induction ops n bs t rule: complete_container.induct)
  case (1 ops n bs t)
  show ?case
    by (subst complete_container.simps) (intro calm_intros "1.prems"; auto intro!: "1.IH" [simplified] "1.prems")
qed

lemma calm_whole_container: "panic_free ops \<Longrightarrow> calm (whole_container ops bs t)"
  unfolding whole_container_def
  by (auto intro!: calm_seq_ok calm_complete_container calm_returns [OF u32.unpack_slice_total])

lemma calm_receive_loop: "panic_free ops \<Longrightarrow> calm_opt (receive_loop ops operation tx data skipped s)"
proof -
  have "receive_loop ops operation tx data skipped s = Some y \<Longrightarrow> panic_free ops \<longrightarrow> calm y" for y
  proof (erule receive_loop.raw_induct [rotated], goal_cases)
    case (1 loop ops operation tx data skipped s y)
    have "\<And>ops operation tx data skipped s. panic_free ops \<Longrightarrow> calm_opt (loop ops operation tx data skipped s)"
      using 1(1) by (force simp: calm_opt_def calm_def)
    then have "panic_free ops \<Longrightarrow> calm_opt (Some y)"
      unfolding 1(2) [symmetric]
      by (intro calm_intros calm_on_transport calm_whole_container; simp?)
    then show ?case by simp
  qed
  then show "panic_free ops \<Longrightarrow> calm_opt (receive_loop ops operation tx data skipped s)"
    by (cases "receive_loop ops operation tx data skipped s") auto
qed

lemma calm_recover:
  assumes "panic_free ops"
  shows "calm (recover_if_needed ops s)"
proof (cases "needs_recovery s")
  case True
  have "fst (cancel_transfer ops (poisoned_tx_id (recovery s)) 300 (transport s)) \<noteq> Panic"
    using assms by (simp add: panic_free_def)
  with True show ?thesis by (simp add: recover_pending calm_def split_beta)
qed (simp add: recover_idle)

lemma calm_transaction_opt:
  assumes "panic_free ops" "\<And>tx s. calm_opt (body tx s)"
  shows "calm_opt (transaction_opt ops body s)"
proof -
  have scope: "calm_opt (scoped_opt tx (body tx) s1)" for tx s1
    using assms(2) [of tx s1] by (auto simp: scoped_opt_def calm_opt_def)
  have "calm_opt (seq_opt (recover_if_needed ops s1) (\<lambda>_ s. let (tx_id, s) = next_transaction_id s in scoped_opt tx_id (body tx_id) s))" for s1
    by (intro calm_seq_opt calm_recover assms(1)) (simp add: next_transaction_id_def Let_def scope)
  then show ?thesis by (auto simp: transaction_opt_def under_lock_opt_def calm_opt_def)
qed

lemma calm_execute: "panic_free ops \<Longrightarrow> calm (execute ops operation ps s)"
  unfolding calm_opt_simps(1) [symmetric] execute_opt
  by (intro calm_transaction_opt) (simp_all add: calm_seq_ok calm_receive_response panic_free_calls)

lemma calm_send_data: "panic_free ops \<Longrightarrow> calm (send_data ops operation tx data s)"
  unfolding send_data_def Let_def by (intro calm_intros; assumption?)

lemma calm_execute_with_send: "panic_free ops \<Longrightarrow> calm (execute_with_send ops operation ps data s)"
  unfolding calm_opt_simps(1) [symmetric] execute_with_send_opt
  by (intro calm_transaction_opt) (simp_all add: calm_seq_ok calm_send_data calm_receive_response panic_free_calls)

lemma calm_execute_with_receive: "panic_free ops \<Longrightarrow> calm_opt (execute_with_receive ops operation ps s)"
  unfolding execute_with_receive_def
  by (intro calm_transaction_opt calm_seq_opt calm_receive_loop panic_free_calls; assumption?)

lemma calm_check_response: "calm (check_response response operation, s)"
  by (simp add: check_response_def)

lemma calm_receive_checked:
  "panic_free ops \<Longrightarrow> (\<And>data s. calm (k data s)) \<Longrightarrow> calm_opt (receive_checked ops operation ps k s)"
  unfolding receive_checked_def
  by (intro calm_then_opt calm_execute_with_receive) (auto intro!: calm_seq_opt calm_check_response)

lemma calm_checked: "calm m \<Longrightarrow> (\<And>response. k response \<noteq> Panic) \<Longrightarrow> calm (checked operation k m)"
  unfolding checked_def by (intro calm_seq_ok calm_check_response) (auto simp: calm_def)

lemma calm_pack_string: "calm (pack_string s, st)"
  by (simp add: pack_string_def Let_def)

lemma calm_pack_date_field: "calm (pack_date_field d, st)"
  by (auto simp: pack_date_field_def pack_datetime_def calm_pack_string split: option.splits)

lemma calm_bind: "calm (m, st) \<Longrightarrow> (\<And>x. calm (f x, st)) \<Longrightarrow> calm (bind_ok m f, st)"
  by (cases m) (auto simp: calm_def)

lemma calm_ObjectInfo_to_bytes: "calm (ObjectInfo_to_bytes info, st)"
  unfolding ObjectInfo_to_bytes_def Let_def by (intro calm_bind calm_pack_string calm_pack_date_field calm_pair)

section \<open>Operations over the mock\<close>

lemma panic_free_mock: "panic_free mock_ops"
  by (auto simp: panic_free_def mock_send_bulk_def mock_receive_bulk_def mock_receive_interrupt_def
      mock_cancel_transfer_def mock_drain_bulk_in_def Let_def split: list.splits option.splits)

text \<open>A session on the mock that is ready for its next operation.\<close>

definition ready :: "MockTransport PtpSession \<Rightarrow> bool" where
  "ready s \<longleftrightarrow> \<not> operation_lock s \<and> \<not> needs_recovery s \<and> expected_sends (transport s) = []
     \<and> \<not> block_receive (transport s)"

lemma execute_with_receive_mock:
  assumes "ready s" "list_all2 transfers_of containers chunkss"
    and "queued_responses (transport s) = concat chunkss @ response_wire own # rest"
    and "response_ok own" "rc_transaction_id own = transaction_id s"
  shows "\<exists>s'. execute_with_receive mock_ops operation ps s =
      Some (Ok (own, concat (map dc_payload containers)), s')
    \<and> queued_responses (transport s') = rest \<and> ready s' \<and> transaction_id s' = TransactionId_next (transaction_id s)"
proof -
  let ?tx = "transaction_id s"
  let ?m = "(transport s)\<lparr>actual_sends := actual_sends (transport s) @ [command operation ?tx ps]\<rparr>"
  let ?s = "s\<lparr>operation_lock := True, transaction_id := TransactionId_next ?tx, transport := ?m\<rparr>"
  have send: "on_transport (send_bulk mock_ops (command operation ?tx ps))
      (s\<lparr>operation_lock := True, transaction_id := TransactionId_next ?tx\<rparr>) = (Ok (), ?s)"
    using assms(1) by (simp add: on_transport_def mock_send_bulk_def ready_def Let_def)
  from mock.receive_loop_returns [of ?s containers chunkss own rest ?tx operation "[]" 0] assms
  obtain s' where loop: "receive_loop mock_ops operation ?tx [] 0 ?s =
      Some (Ok (own, concat (map dc_payload containers)), s')" and q: "queued_responses (transport s') = rest"
      "\<not> block_receive (transport s')" "expected_sends (transport s') = []"
    by (auto simp: ready_def)
  have same: "same_but_transport ?s s'" using receive_loop_post [OF loop] by (simp add: loop_post_def)
  have idle: "\<not> needs_recovery (s\<lparr>operation_lock := True\<rparr>)" "\<not> operation_lock s"
    using assms(1) by (auto simp: ready_def needs_recovery_def)
  have "execute_with_receive mock_ops operation ps s =
      Some (Ok (own, concat (map dc_payload containers)), s'\<lparr>operation_lock := False\<rparr>)"
    using send loop idle
    by (simp add: execute_with_receive_def transaction_opt_def under_lock_opt_def recover_idle
        next_transaction_id_def scoped_opt_def Let_def)
  moreover have "ready (s'\<lparr>operation_lock := False\<rparr>)" "transaction_id s' = TransactionId_next ?tx"
    using same_but_transport_fields [OF same] assms(1) q by (simp_all add: needs_recovery_def ready_def)
  ultimately show ?thesis using q by (intro exI [of _ "s'\<lparr>operation_lock := False\<rparr>"]) simp
qed

lemma receive_checked_mock:
  assumes "ready s" "transfers_of \<lparr>dc_code = operation, dc_transaction_id = transaction_id s, dc_payload = payload\<rparr> chunks"
    and "queued_responses (transport s) = chunks @ ok_reply (transaction_id s) # rest"
  shows "\<exists>s'. receive_checked mock_ops operation ps (returning decode) s = Some (decode payload, s')
    \<and> queued_responses (transport s') = rest \<and> ready s' \<and> transaction_id s' = TransactionId_next (transaction_id s)"
proof -
  let ?own = "\<lparr>rc_code = ResponseCode.OK, rc_transaction_id = transaction_id s, rc_params = []\<rparr>"
  from execute_with_receive_mock [OF assms(1), of "[\<lparr>dc_code = operation, dc_transaction_id = transaction_id s, dc_payload = payload\<rparr>]"
      "[chunks]" ?own rest operation ps] assms(2,3)
  obtain s' where "execute_with_receive mock_ops operation ps s = Some (Ok (?own, payload), s')"
    "queued_responses (transport s') = rest" "ready s'" "transaction_id s' = TransactionId_next (transaction_id s)"
    by (auto simp: ok_reply_ok ok_reply_def)
  then show ?thesis
    by (intro exI [of _ s']) (simp add: receive_checked_def then_opt_def check_response_def)
qed

text \<open>An object of five gigabytes on a mock that answers both requests.\<close>

definition big_info :: ObjectInfo where
  "big_info = \<lparr>oi_handle = 0, oi_storage_id = 0x10001, oi_format = ObjectFormatCode.Undefined,
     oi_protection_status = ProtectionStatus.NoProtection, oi_size = 0xFFFFFFFF, oi_thumb_format = ObjectFormatCode.Undefined,
     oi_thumb_size = 0, oi_thumb_width = 0, oi_thumb_height = 0, oi_image_width = 0, oi_image_height = 0,
     oi_image_bit_depth = 0, oi_parent = 0, oi_association_type = AssociationType.NoAssociation,
     oi_association_desc = 0, oi_sequence_number = 0, oi_filename = str ''a'', oi_created = None,
     oi_modified = None, oi_keywords = []\<rparr>"

lemma big_info_bytes: "\<exists>bs. ObjectInfo_to_bytes big_info = Ok bs \<and> length bs < 100"
  by (simp add: ObjectInfo_to_bytes_def big_info_def Let_def pack_string_def str_def encode_utf16_def
      encode_utf16_char_def MAX_STRING_UNITS_def pack_date_field_def int_codecs_length)

lemma big_info_ok: "info_ok big_info"
proof -
  have "ObjectFormatCode_from (ObjectFormatCode_into ObjectFormatCode.Undefined) = ObjectFormatCode.Undefined"
    by (rule objectFormatCode.dec_enc [THEN iffD2]) (simp add: ObjectFormatCode_codes_def)
  moreover have "ProtectionStatus_from (ProtectionStatus_into ProtectionStatus.NoProtection) = ProtectionStatus.NoProtection"
    by (rule protectionStatus.dec_enc [THEN iffD2]) (simp add: ProtectionStatus_codes_def)
  moreover have "AssociationType_from (AssociationType_into AssociationType.NoAssociation) = AssociationType.NoAssociation"
    by (rule associationType.dec_enc [THEN iffD2]) (simp add: AssociationType_codes_def)
  ultimately show ?thesis
    by (simp add: info_ok_def big_info_def date_ok_def str_def of_char_def valid_str_def is_scalar_def)
qed

section \<open>Properties\<close>

lemma calm_PropertyValue_to_bytes: "calm (PropertyValue_to_bytes v, s)"
  by (cases v) (simp_all add: calm_pack_string)

lemma calm_unpack_u32_array: "calm (map_ok fst (unpack_u32_array data), s)"
  by (rule calm_returns [where Q = "\<lambda>_. True"]) (auto intro: returns_mono [OF u32_array.unpack_returns])

lemma calm_PropertyValue_from_bytes: "calm (map_ok fst (PropertyValue_from_bytes dtype data), s)"
  by (rule calm_returns [where Q = "\<lambda>_. True"]) (auto intro: returns_mono [OF PropertyValue_from_bytes_total])

text \<open>The operations whose data come from the device.\<close>

lemma calm_receiving:
  assumes "panic_free ops"
  shows "calm_opt (get_device_info ops s)" "calm_opt (get_storage_ids ops s)" "calm_opt (get_storage_info ops sid s)"
    "calm_opt (get_object_handles ops sid fmt parent s)" "calm_opt (get_object_info ops handle s)"
    "calm_opt (get_object ops handle s)" "calm_opt (get_partial_object ops handle offset n s)"
    "calm_opt (get_partial_object_64 ops handle offset n s)" "calm_opt (get_thumb ops handle s)"
    "calm_opt (get_object_prop_value ops handle p s)" "calm_opt (get_object_prop_list ops handle fmt op grp depth s)"
    "calm_opt (get_device_prop_desc ops property s)" "calm_opt (get_device_prop_value ops property s)"
    "calm_opt (get_device_prop_value_typed ops property dtype s)"
proof -
  note rc = calm_receive_checked [OF assms]
  show "calm_opt (get_device_info ops s)"
    unfolding get_device_info_def by (intro rc calm_seq_ok calm_parsers) simp
  show "calm_opt (get_storage_ids ops s)" "calm_opt (get_object_handles ops sid fmt parent s)"
    by (simp_all add: get_storage_ids_def get_object_handles_def Let_def rc calm_unpack_u32_array)
  show "calm_opt (get_storage_info ops sid s)" "calm_opt (get_device_prop_desc ops property s)" "calm_opt (get_object_info ops handle s)"
    unfolding get_storage_info_def get_device_prop_desc_def get_object_info_def by (intro rc calm_parsers)+
  show "calm_opt (get_partial_object_64 ops handle offset n s)"
    by (simp add: get_partial_object_64_def rc split: prod.split)
  show "calm_opt (get_object ops handle s)" "calm_opt (get_partial_object ops handle offset n s)" "calm_opt (get_thumb ops handle s)"
    "calm_opt (get_object_prop_value ops handle p s)" "calm_opt (get_object_prop_list ops handle fmt op grp depth s)"
    and prop_value: "calm_opt (get_device_prop_value ops property s)"
    by (simp_all add: get_object_def get_partial_object_def get_thumb_def get_object_prop_value_def get_object_prop_list_def
        get_device_prop_value_def Let_def rc)
  show "calm_opt (get_device_prop_value_typed ops property dtype s)"
    unfolding get_device_prop_value_typed_def by (intro calm_then_opt prop_value) (simp add: calm_PropertyValue_from_bytes)
qed

lemma calm_get_object_info_full:
  assumes "panic_free ops"
  shows "calm_opt (get_object_info_full ops handle s)"
proof -
  have u64: "unpack_u64 bs \<noteq> Panic" for bs using u64.unpack_returns [of bs] by auto
  show ?thesis
    unfolding get_object_info_full_def
    using calm_receiving(10) [OF assms, of handle] u64
    by (intro calm_then_opt calm_receiving(5) assms) (auto simp: calm_opt_def split: if_splits option.splits outcome.splits)
qed

text \<open>The operations that send data, and those without a data phase.\<close>

lemma calm_sending:
  assumes "panic_free ops"
  shows "calm (send_object_info ops sid handle info s)" "calm (send_object ops data s)"
    "calm (set_object_prop_value ops handle p data s)" "calm (rename_object ops handle name s)"
    "calm (set_device_prop_value ops property data s)" "calm (set_device_prop_value_typed ops property v s)"
proof -
  show "calm (send_object_info ops sid handle info s)"
    unfolding send_object_info_def
    by (intro calm_seq_ok calm_ObjectInfo_to_bytes calm_checked calm_execute_with_send assms) (auto simp: index_def)
  have props: "calm (set_object_prop_value ops handle p data s)" "calm (set_device_prop_value ops property data s)" for data s p
    unfolding set_object_prop_value_def set_device_prop_value_def
    by (intro calm_checked calm_execute_with_send assms; simp)+
  then show "calm (set_object_prop_value ops handle p data s)" "calm (set_device_prop_value ops property data s)" by auto
  show "calm (send_object ops data s)"
    unfolding send_object_def by (intro calm_checked calm_execute_with_send assms; simp)
  show "calm (rename_object ops handle name s)"
    unfolding rename_object_def by (intro calm_seq_ok calm_pack_string props)
  show "calm (set_device_prop_value_typed ops property v s)"
    unfolding set_device_prop_value_typed_def by (intro calm_seq_ok calm_PropertyValue_to_bytes props)
qed

lemma calm_commanding:
  assumes "panic_free ops"
  shows "calm (delete_object ops handle s)" "calm (move_object ops handle sid parent s)" "calm (copy_object ops handle sid parent s)"
    "calm (initiate_capture ops sid fmt2 s)" "calm (reset_device_prop_value ops property s)"
  unfolding delete_object_def move_object_def copy_object_def initiate_capture_def reset_device_prop_value_def Let_def
  by (intro calm_checked calm_execute assms; auto simp: index_def)+

lemma calm_poll_event:
  assumes "panic_free ops"
  shows "calm (poll_event ops s)"
proof -
  have "calm (map_ok Some (EventContainer_from_bytes bs), s)" for bs and s :: "'a PtpSession"
    by (rule calm_returns [where Q = "\<lambda>_. True"]) (use EventContainer_from_bytes_total [of bs] in simp)
  with panic_free_calls(6) [OF assms, of s] show ?thesis
    by (auto simp: poll_event_def calm_def split: prod.splits outcome.splits PtpError.splits)
qed

text \<open>
  C34: No device can make the session layer panic. Over any transport whose own calls do not panic, none of
  the operations and device property operations of a session does, whatever bytes come back: not one of the fifteen that read data from
  the device, of the six that send data to it, of the five without a data phase, and not the polling of an event.
\<close>

theorem operations_never_panic:
  assumes "panic_free ops"
  shows "calm_opt (get_device_info ops s) \<and> calm (poll_event ops s)
    \<and> calm_opt (get_storage_ids ops s) \<and> calm_opt (get_storage_info ops sid s)
    \<and> calm_opt (get_object_handles ops sid fmt parent s) \<and> calm_opt (get_object_info ops handle s)
    \<and> calm_opt (get_object_info_full ops handle s) \<and> calm_opt (get_object ops handle s)
    \<and> calm_opt (get_partial_object ops handle offset n s) \<and> calm_opt (get_partial_object_64 ops handle offset n s)
    \<and> calm_opt (get_thumb ops handle s) \<and> calm_opt (get_object_prop_value ops handle p s)
    \<and> calm_opt (get_object_prop_list ops handle fmt op grp depth s)
    \<and> calm_opt (get_device_prop_desc ops property s) \<and> calm_opt (get_device_prop_value ops property s)
    \<and> calm_opt (get_device_prop_value_typed ops property dtype s)
    \<and> calm (send_object_info ops sid parent2 info s) \<and> calm (send_object ops data s)
    \<and> calm (set_object_prop_value ops handle p data s) \<and> calm (rename_object ops handle name s)
    \<and> calm (set_device_prop_value ops property data s) \<and> calm (set_device_prop_value_typed ops property v s)
    \<and> calm (delete_object ops handle s) \<and> calm (move_object ops handle sid parent2 s)
    \<and> calm (copy_object ops handle sid parent2 s) \<and> calm (initiate_capture ops sid fmt2 s)
    \<and> calm (reset_device_prop_value ops property s)"
  by (intro conjI calm_receiving calm_get_object_info_full calm_sending calm_commanding calm_poll_event assms)

theorem operations_never_panic_witness:
  "calm_opt (get_device_info mock_ops (mock_session [[1, 2, 3]])) \<and> calm (poll_event mock_ops (mock_session []))"
  by (intro conjI operations_never_panic [OF panic_free_mock, THEN conjunct1]
      operations_never_panic [OF panic_free_mock, THEN conjunct2, THEN conjunct1])

text \<open>
  A listing returns exactly the handles the device sends: when the handle array arrives in one data
  container, spread over transfers in any way, and the OK response of the transaction follows, the operation
  returns these handles in order, reads nothing else and leaves the session ready for the next operation. Likewise the information
  of an object comes back as it was encoded, with the size capped at 2^32 - 1.
\<close>

theorem listing_end_to_end:
  assumes "ready s"
  shows "(transfers_of \<lparr>dc_code = OperationCode.GetObjectHandles, dc_transaction_id = transaction_id s,
            dc_payload = pack_u32_array handles\<rparr> chunks \<longrightarrow>
          queued_responses (transport s) = chunks @ ok_reply (transaction_id s) # rest \<longrightarrow>
          (\<exists>s'. get_object_handles mock_ops storage_id fmt parent s = Some (Ok handles, s')
             \<and> queued_responses (transport s') = rest \<and> ready s'))
    \<and> (transfers_of \<lparr>dc_code = OperationCode.GetObjectInfo, dc_transaction_id = transaction_id s, dc_payload = bs\<rparr> chunks \<longrightarrow>
          queued_responses (transport s) = chunks @ ok_reply (transaction_id s) # rest \<longrightarrow>
          ObjectInfo_to_bytes info = Ok bs \<longrightarrow> info_ok info \<longrightarrow>
          (\<exists>s'. get_object_info mock_ops handle s =
               Some (Ok (info\<lparr>oi_handle := 0, oi_size := min (oi_size info) 0xFFFFFFFF\<rparr>), s')
             \<and> queued_responses (transport s') = rest \<and> ready s'))"
proof (intro conjI impI)
  assume t: "transfers_of \<lparr>dc_code = OperationCode.GetObjectHandles, dc_transaction_id = transaction_id s,
      dc_payload = pack_u32_array handles\<rparr> chunks"
    and q: "queued_responses (transport s) = chunks @ ok_reply (transaction_id s) # rest"
  have "length handles < 2 ^ 32"
    using t by (simp add: transfers_of_def pack_u32_array_def u32.length_pack)
  then have "map_ok fst (unpack_u32_array (pack_u32_array handles)) = Ok handles"
    using unpack_pack_u32_array [of handles "[]"] by simp
  with receive_checked_mock [OF assms t q, of "[storage_id, format_code fmt, case parent of None \<Rightarrow> 0 | Some p \<Rightarrow> p]"
      "\<lambda>data. map_ok fst (unpack_u32_array data)"]
  show "\<exists>s'. get_object_handles mock_ops storage_id fmt parent s = Some (Ok handles, s')
      \<and> queued_responses (transport s') = rest \<and> ready s'"
    by (auto simp: get_object_handles_def Let_def)
next
  assume t: "transfers_of \<lparr>dc_code = OperationCode.GetObjectInfo, dc_transaction_id = transaction_id s, dc_payload = bs\<rparr> chunks"
    and q: "queued_responses (transport s) = chunks @ ok_reply (transaction_id s) # rest"
    and bs: "ObjectInfo_to_bytes info = Ok bs" "info_ok info"
  have "ucast (size_u32 (oi_size info)) = min (oi_size info) 0xFFFFFFFF"
    by (cases "oi_size info \<le> 0xFFFFFFFF") (simp_all add: size_u32_small size_u32_large min_absorb1 min_absorb2 not_le less_imp_le)
  then have "ObjectInfo_from_bytes bs = Ok (info\<lparr>oi_handle := 0, oi_size := min (oi_size info) 0xFFFFFFFF\<rparr>)"
    using ObjectInfo_unpack_pack [OF bs(2,1), of "[]"] by simp
  with receive_checked_mock [OF assms t q, of "[handle]" ObjectInfo_from_bytes]
  show "\<exists>s'. get_object_info mock_ops handle s = Some (Ok (info\<lparr>oi_handle := 0, oi_size := min (oi_size info) 0xFFFFFFFF\<rparr>), s')
      \<and> queued_responses (transport s') = rest \<and> ready s'"
    by (auto simp: get_object_info_def)
qed

theorem listing_end_to_end_witness:
  "\<exists>s'. get_object_handles mock_ops 0x10001 None None
      (mock_session [DataContainer_to_bytes \<lparr>dc_code = OperationCode.GetObjectHandles, dc_transaction_id = 1,
         dc_payload = pack_u32_array [3, 5]\<rparr>, ok_reply 1]) = Some (Ok [3, 5], s')"
proof -
  let ?c = "\<lparr>dc_code = OperationCode.GetObjectHandles, dc_transaction_id = 1, dc_payload = pack_u32_array [3, 5]\<rparr>"
  let ?s = "mock_session [DataContainer_to_bytes ?c, ok_reply 1]"
  have "OperationCode_from (OperationCode_into OperationCode.GetObjectHandles) = OperationCode.GetObjectHandles"
    using operationCode.dec_code [of "0x1007" OperationCode.GetObjectHandles] by (simp add: OperationCode_codes_def)
  then have "transfers_of ?c [DataContainer_to_bytes ?c]"
    by (auto simp: transfers_of_def HEADER_SIZE_def DataContainer_to_bytes_def pack_u32_array_def u32.length_pack)
  moreover have "ready ?s" "transaction_id ?s = 1" "queued_responses (transport ?s) = [DataContainer_to_bytes ?c, ok_reply 1]"
    by (simp_all add: ready_def needs_recovery_def mock_session_def PtpSession_new_def MockTransport_new_def
        recovery_default_def FIRST_def)
  ultimately show ?thesis
    using conjunct1 [OF listing_end_to_end [of ?s "[3, 5]" "[DataContainer_to_bytes ?c]" "[]" "0x10001" None None]] by auto
qed

text \<open>
  The full object information resolves a saturated size. When the dataset says 2^32 - 1 and the device
  answers the size property with a 64-bit number, that number is returned; when the property request fails
  the saturated size is; and a smaller size is returned as it is, with no further request.
\<close>

theorem full_size_resolved:
  assumes "get_object_info ops handle s = Some (Ok info, s1)"
  shows "(oi_size info = 0xFFFFFFFF \<longrightarrow>
            get_object_prop_value ops handle ObjectPropertyCode.ObjectSize s1 = Some (Ok (pack_u64 n @ rest), s2) \<longrightarrow>
            get_object_info_full ops handle s = Some (Ok (info\<lparr>oi_size := n\<rparr>), s2))
    \<and> (oi_size info = 0xFFFFFFFF \<longrightarrow>
            get_object_prop_value ops handle ObjectPropertyCode.ObjectSize s1 = Some (Err e, s2) \<longrightarrow>
            get_object_info_full ops handle s = Some (Ok info, s2))
    \<and> (oi_size info \<noteq> 0xFFFFFFFF \<longrightarrow> get_object_info_full ops handle s = Some (Ok info, s1))"
  using assms by (simp add: get_object_info_full_def then_opt_def u64.unpack_pack)

theorem full_size_resolved_witness:
  "\<exists>s s2. get_object_info_full mock_ops 7 s = Some (Ok (big_info\<lparr>oi_size := 5000000000\<rparr>), s2)"
proof -
  obtain bs where bs: "ObjectInfo_to_bytes big_info = Ok bs" "length bs < 100" using big_info_bytes by blast
  let ?c1 = "\<lparr>dc_code = OperationCode.GetObjectInfo, dc_transaction_id = 1, dc_payload = bs\<rparr>"
  let ?c2 = "\<lparr>dc_code = OperationCode.GetObjectPropValue, dc_transaction_id = 2, dc_payload = pack_u64 5000000000\<rparr>"
  let ?s = "mock_session [DataContainer_to_bytes ?c1, ok_reply 1, DataContainer_to_bytes ?c2, ok_reply 2]"
  have codes: "OperationCode_from (OperationCode_into OperationCode.GetObjectInfo) = OperationCode.GetObjectInfo"
    "OperationCode_from (OperationCode_into OperationCode.GetObjectPropValue) = OperationCode.GetObjectPropValue"
    by (rule operationCode.dec_enc [THEN iffD2]; simp add: OperationCode_codes_def)+
  have t1: "transfers_of ?c1 [DataContainer_to_bytes ?c1]" and t2: "transfers_of ?c2 [DataContainer_to_bytes ?c2]"
    using bs codes by (auto simp: transfers_of_def HEADER_SIZE_def DataContainer_to_bytes_def u64.length_pack)
  have s: "ready ?s" "transaction_id ?s = 1" "queued_responses (transport ?s)
      = [DataContainer_to_bytes ?c1] @ ok_reply 1 # [DataContainer_to_bytes ?c2, ok_reply 2]"
    by (simp_all add: ready_def needs_recovery_def mock_session_def PtpSession_new_def MockTransport_new_def
        recovery_default_def FIRST_def)
  from receive_checked_mock [of ?s OperationCode.GetObjectInfo bs "[DataContainer_to_bytes ?c1]"
      "[DataContainer_to_bytes ?c2, ok_reply 2]" "[7]" ObjectInfo_from_bytes] s t1
  obtain s1 where s1: "get_object_info mock_ops 7 ?s = Some (ObjectInfo_from_bytes bs, s1)" "ready s1"
    "transaction_id s1 = 2" "queued_responses (transport s1) = [DataContainer_to_bytes ?c2] @ ok_reply 2 # []"
    by (auto simp: get_object_info_def TransactionId_next_def Let_def)
  from receive_checked_mock [of s1 OperationCode.GetObjectPropValue "pack_u64 5000000000" "[DataContainer_to_bytes ?c2]"
      "[]" "[7, ucast (ObjectPropertyCode_into ObjectPropertyCode.ObjectSize)]" Ok] s1 t2
  obtain s2 where "get_object_prop_value mock_ops 7 ObjectPropertyCode.ObjectSize s1 = Some (Ok (pack_u64 5000000000 @ []), s2)"
    by (auto simp: get_object_prop_value_def)
  moreover have "ObjectInfo_from_bytes bs = Ok big_info"
    using ObjectInfo_unpack_pack [OF big_info_ok bs(1), of "[]"] by (simp add: big_info_def size_u32_def)
  ultimately show ?thesis
    using full_size_resolved [of mock_ops 7 ?s big_info s1 5000000000 "[]" s2] s1(1)
    by (auto simp: big_info_def)
qed

text \<open>
  C33: A 64-bit offset reaches the device whole: the low and high parameters of \<open>GetPartialObject64\<close> determine
  it, for every offset, while the single parameter of \<open>GetPartialObject\<close> is the offset modulo 2^32.
\<close>

theorem partial_object_offset:
  "(case offset_params offset of (lo, hi) \<Rightarrow> unat hi * 2 ^ 32 + unat lo = unat offset \<and> unat lo = unat offset mod 2 ^ 32)
   \<and> get_partial_object_64 ops handle offset n s =
       receive_checked ops OperationCode.GetPartialObject64
         [handle, fst (offset_params offset), snd (offset_params offset), n] (returning Ok) s
   \<and> get_partial_object ops handle offset n s =
       receive_checked ops OperationCode.GetPartialObject [handle, fst (offset_params offset), n] (returning Ok) s"
proof -
  have lo: "unat (ucast offset :: u32) = unat offset mod 2 ^ 32"
    by (simp add: unsigned_ucast_eq take_bit_eq_mod unat_mod)
  have hi: "unat (ucast (drop_bit 32 offset) :: u32) = unat offset div 2 ^ 32"
  proof -
    have "unat (drop_bit 32 offset) = unat offset div 2 ^ 32" by (simp add: drop_bit_eq_div unat_div)
    moreover have "unat offset < 2 ^ 64" using unat_less [of offset] by simp
    ultimately show ?thesis by (subst unat_ucast_up) (simp_all add: div_less_iff_less_mult)
  qed
  show ?thesis
    by (simp add: offset_params_def Let_def lo hi get_partial_object_64_def get_partial_object_def)
qed

end
