(* ===== verification/Streaming.thy ===== *)
theory Streaming
  imports Operations
begin

text \<open>
  The streaming transfers of \<open>ptp/session/streaming.rs\<close>: a download as a stream of chunks and an upload
  from one. A receiving stream is a record beside the session it borrows: it holds the operation lock
  (\<open>rs_guard\<close>) and shares the transport and the recovery state. Byte counts are natural numbers; none of
  them exceeds the 64 bits of the source.
\<close>

section \<open>Streams\<close>

datatype Header = Data | Done | SkippedStaleReply

definition RECEIVE_CHUNK :: usize where
  "RECEIVE_CHUNK = 64 * 1024"

definition LARGE_OBJECT_LENGTH_SENTINEL :: u32 where
  "LARGE_OBJECT_LENGTH_SENTINEL = 0xFFFFFFFF"

record ReceiveStream =
  rs_guard :: bool
  rs_transaction_id :: u32
  rs_operation :: OperationCode
  rs_buffer :: bytes
  rs_expected_payload_len :: "nat option"
  rs_payload_remaining :: "nat option"
  rs_payload_yielded :: nat
  rs_large_object :: bool
  rs_in_payload :: bool
  rs_short_read :: bool
  rs_expect_zero_length_packet :: bool
  rs_stale_replies_skipped :: nat
  rs_saw_data_container :: bool
  rs_done :: bool

definition ReceiveStream_new :: "u32 \<Rightarrow> OperationCode \<Rightarrow> nat option \<Rightarrow> ReceiveStream" where
  "ReceiveStream_new tx operation expected_payload_len =
     \<lparr>rs_guard = True, rs_transaction_id = tx, rs_operation = operation, rs_buffer = [],
      rs_expected_payload_len = expected_payload_len, rs_payload_remaining = None, rs_payload_yielded = 0,
      rs_large_object = False, rs_in_payload = False, rs_short_read = False,
      rs_expect_zero_length_packet = False, rs_stale_replies_skipped = 0, rs_saw_data_container = False,
      rs_done = False\<rparr>"

text \<open>Starting a download leaves the lock with the stream; a failure gives it back.\<close>

definition start_receive_stream ::
  "'t transport_ops \<Rightarrow> OperationCode \<Rightarrow> u32 list \<Rightarrow> nat option \<Rightarrow> 't PtpSession \<Rightarrow> ReceiveStream res \<times> 't PtpSession" where
  "start_receive_stream ops operation ps expected_payload_len s =
     (if operation_lock s then (Dropped, s)
      else
        (case seq_ok (recover_if_needed ops (s\<lparr>operation_lock := True\<rparr>)) (\<lambda>_ s.
                let (tx_id, s) = next_transaction_id s in
                scoped tx_id (\<lambda>s. seq_ok (on_transport (send_bulk ops (command operation tx_id ps)) s) (\<lambda>_ s.
                  (Ok (ReceiveStream_new tx_id operation expected_payload_len), s))) s) of
           (Ok st, s') \<Rightarrow> (Ok st, s')
         | (r, s') \<Rightarrow> (r, s'\<lparr>operation_lock := False\<rparr>)))"

definition execute_with_receive_stream ::
  "'t transport_ops \<Rightarrow> OperationCode \<Rightarrow> u32 list \<Rightarrow> 't PtpSession \<Rightarrow> ReceiveStream res \<times> 't PtpSession" where
  "execute_with_receive_stream ops operation ps = start_receive_stream ops operation ps None"

definition execute_with_receive_stream_sized ::
  "'t transport_ops \<Rightarrow> OperationCode \<Rightarrow> u32 list \<Rightarrow> u64 \<Rightarrow> 't PtpSession \<Rightarrow> ReceiveStream res \<times> 't PtpSession" where
  "execute_with_receive_stream_sized ops operation ps expected_payload_len =
     start_receive_stream ops operation ps (Some (unat expected_payload_len))"

definition get_object_stream ::
  "'t transport_ops \<Rightarrow> ObjectHandle \<Rightarrow> 't PtpSession \<Rightarrow> ReceiveStream res \<times> 't PtpSession" where
  "get_object_stream ops handle = execute_with_receive_stream ops OperationCode.GetObject [handle]"

section \<open>Receiving\<close>

definition stream_finish :: "bool \<Rightarrow> ReceiveStream \<Rightarrow> 't PtpSession \<Rightarrow> ReceiveStream \<times> 't PtpSession" where
  "stream_finish pipe_in_doubt st s =
     (let s = (if pipe_in_doubt then flag_session (rs_transaction_id st) s else s);
          s = (if rs_guard st then s\<lparr>operation_lock := False\<rparr> else s)
      in (st\<lparr>rs_done := True, rs_guard := False\<rparr>, s))"

definition end_container :: "ReceiveStream \<Rightarrow> ReceiveStream" where
  "end_container st = st\<lparr>rs_expect_zero_length_packet := True, rs_in_payload := False,
     rs_payload_remaining := None, rs_payload_yielded := 0, rs_large_object := False\<rparr>"

text \<open>The two branches of \<open>consume_container_header\<close>.\<close>

definition consume_data_header :: "ReceiveStream \<Rightarrow> Header res \<times> ReceiveStream" where
  "consume_data_header st =
     seq_ok (unpack_slice unpack_u32 (rs_buffer st) 0 4, st) (\<lambda>len st.
       let st = st\<lparr>rs_buffer := drop HEADER_SIZE (rs_buffer st),
                   rs_large_object := (len = LARGE_OBJECT_LENGTH_SENTINEL)\<rparr> in
       if \<not> rs_large_object st \<and> unat len < HEADER_SIZE
       then (Err (invalid_data ''Data container length {length} is shorter than its {HEADER_SIZE}-byte header''
               [unat len, HEADER_SIZE]), st)
       else
         (Ok Header.Data,
          st\<lparr>rs_payload_remaining :=
               (if rs_large_object st then rs_expected_payload_len st else Some (unat len - HEADER_SIZE)),
             rs_payload_yielded := 0, rs_in_payload := True, rs_saw_data_container := True\<rparr>))"

text \<open>\<open>Ord::clamp\<close> panics when the bounds are the wrong way round.\<close>

definition clamp :: "nat \<Rightarrow> nat \<Rightarrow> nat \<Rightarrow> nat res" where
  "clamp lo hi x = (if hi < lo then Panic else Ok (min (max x lo) hi))"

definition consume_response_header :: "ReceiveStream \<Rightarrow> Header res \<times> ReceiveStream" where
  "consume_response_header st =
     seq_ok (ResponseContainer_from_bytes (rs_buffer st), st) (\<lambda>response st.
       if rc_transaction_id response \<noteq> rs_transaction_id st
       then
         if \<not> rs_saw_data_container st
           \<and> is_stale_reply (rc_transaction_id response) (rs_transaction_id st)
           \<and> may_skip_stale_reply (rs_operation st) (rs_stale_replies_skipped st)
         then
           let st = st\<lparr>rs_stale_replies_skipped := rs_stale_replies_skipped st + 1\<rparr> in
           seq_ok (unpack_slice unpack_u32 (rs_buffer st) 0 4, st) (\<lambda>len st.
           seq_ok (clamp HEADER_SIZE (length (rs_buffer st)) (unat len), st) (\<lambda>len st.
             (Ok Header.SkippedStaleReply, st\<lparr>rs_buffer := drop len (rs_buffer st)\<rparr>)))
         else (Err (transaction_mismatch (rs_transaction_id st) (rc_transaction_id response)), st)
       else if rc_code response \<noteq> ResponseCode.OK
       then (Err (PtpError.Protocol (rc_code response) (rs_operation st)), st)
       else (Ok Header.Done, st))"

definition consume_container_header :: "ReceiveStream \<Rightarrow> Header res \<times> ReceiveStream" where
  "consume_container_header st =
     seq_ok (container_type (rs_buffer st), st) (\<lambda>ct st.
       case ct of
         ContainerType.Data \<Rightarrow> consume_data_header st
       | ContainerType.Response \<Rightarrow> consume_response_header st
       | other \<Rightarrow> (Err (invalid_data ''Unexpected container type: {other:?}'' [unat (ContainerType_to_code other)]), st))"

text \<open>What \<open>next_chunk\<close> returns: the end of the stream, or an item.\<close>

datatype next_item = End | Item "bytes res"

fun is_protocol_error :: "PtpError \<Rightarrow> bool" where
  "is_protocol_error (PtpError.Protocol code operation) = True"
| "is_protocol_error e = False"

text \<open>
  The parts of one round of the loop: the header between containers, the end of a container larger than
  4 GiB at a short packet, the payload, and the read.
\<close>

definition header_phase ::
  "ReceiveStream \<Rightarrow> 't PtpSession \<Rightarrow> (next_item \<times> ReceiveStream \<times> 't PtpSession) + ReceiveStream" where
  "header_phase st s =
     (if \<not> rs_in_payload st \<and> HEADER_SIZE \<le> length (rs_buffer st)
      then
        (case consume_container_header st of
           (Ok Header.Done, st) \<Rightarrow> Inl (End, stream_finish False st s)
         | (Ok _, st) \<Rightarrow> Inr st
         | (Err e, st) \<Rightarrow> Inl (Item (Err e), stream_finish (\<not> is_protocol_error e) st s)
         | (Panic, st) \<Rightarrow> Inl (Item Panic, st, s)
         | (Dropped, st) \<Rightarrow> Inl (Item Dropped, st, s))
      else Inr st)"

definition bound_large :: "ReceiveStream \<Rightarrow> ReceiveStream" where
  "bound_large st =
     (if rs_in_payload st \<and> rs_large_object st \<and> rs_short_read st \<and> 0 < rs_payload_yielded st
      then
        let buffered = length (rs_buffer st) in
        st\<lparr>rs_payload_remaining :=
             Some (case rs_payload_remaining st of None \<Rightarrow> buffered | Some left \<Rightarrow> min left buffered)\<rparr>
      else st)"

datatype payload_step = Yield bytes ReceiveStream | Again ReceiveStream | NeedMore

definition payload_phase :: "ReceiveStream \<Rightarrow> payload_step" where
  "payload_phase st =
     (if rs_in_payload st
      then
        let available = length (rs_buffer st);
            tk = (case rs_payload_remaining st of None \<Rightarrow> available | Some left \<Rightarrow> min left available)
        in
        if 0 < tk
        then
          let chunk = take tk (rs_buffer st);
              st = st\<lparr>rs_buffer := drop tk (rs_buffer st), rs_payload_yielded := rs_payload_yielded st + tk,
                      rs_payload_remaining := map_option (\<lambda>left. left - tk) (rs_payload_remaining st)\<rparr>
          in Yield chunk (if rs_payload_remaining st = Some 0 then end_container st else st)
        else if rs_payload_remaining st = Some 0 then Again (end_container st)
        else NeedMore
      else NeedMore)"

definition after_read :: "bytes \<Rightarrow> ReceiveStream \<Rightarrow> ReceiveStream option" where
  "after_read bs st =
     (if bs = []
      then
        if rs_in_payload st \<and> rs_large_object st then Some (st\<lparr>rs_short_read := True\<rparr>)
        else if rs_expect_zero_length_packet st then Some (st\<lparr>rs_expect_zero_length_packet := False\<rparr>)
        else None
      else
        Some (st\<lparr>rs_expect_zero_length_packet := False, rs_short_read := (length bs < RECEIVE_CHUNK),
                rs_buffer := rs_buffer st @ bs\<rparr>))"

partial_function (option) next_loop ::
  "'t transport_ops \<Rightarrow> ReceiveStream \<Rightarrow> 't PtpSession \<Rightarrow> (next_item \<times> ReceiveStream \<times> 't PtpSession) option" where
  "next_loop ops st s =
     (case header_phase st s of
        Inl result \<Rightarrow> Some result
      | Inr st \<Rightarrow>
          let st = bound_large st in
          (case payload_phase st of
             Yield chunk st \<Rightarrow> Some (Item (Ok chunk), st, s)
           | Again st \<Rightarrow> next_loop ops st s
           | NeedMore \<Rightarrow>
               let st = st\<lparr>rs_short_read := False\<rparr> in
               (case on_transport (receive_bulk ops RECEIVE_CHUNK) s of
                  (r, s) \<Rightarrow>
                    (case r of
                       Ok bs \<Rightarrow>
                         (case after_read bs st of
                            Some st \<Rightarrow> next_loop ops st s
                          | None \<Rightarrow> Some (Item (Err (invalid_data ''Empty response from device'' [])), st, s))
                     | Err e \<Rightarrow> Some (Item (Err e), stream_finish (e \<noteq> PtpError.DeviceReset) st s)
                     | Panic \<Rightarrow> Some (Item Panic, st, s)
                     | Dropped \<Rightarrow> Some (Item Dropped, st, s)))))"

definition next_chunk ::
  "'t transport_ops \<Rightarrow> ReceiveStream \<Rightarrow> 't PtpSession \<Rightarrow> (next_item \<times> ReceiveStream \<times> 't PtpSession) option" where
  "next_chunk ops st s = (if rs_done st then Some (End, st, s) else next_loop ops st s)"

definition stream_cancel ::
  "'t transport_ops \<Rightarrow> nat \<Rightarrow> ReceiveStream \<Rightarrow> 't PtpSession \<Rightarrow> unit res \<times> ReceiveStream \<times> 't PtpSession" where
  "stream_cancel ops idle_timeout st s =
     (if rs_done st then (Ok (), st, s)
      else
        (case on_transport (cancel_transfer ops (rs_transaction_id st) idle_timeout) s of
           (Ok u, s) \<Rightarrow> (Ok u, stream_finish False st s)
         | (Err e, s) \<Rightarrow> (Err e, stream_finish (e \<noteq> PtpError.DeviceReset) st s)
         | (Panic, s) \<Rightarrow> (Panic, st, s)
         | (Dropped, s) \<Rightarrow> (Dropped, st, s)))"

text \<open>The destructor, and then the guard it held.\<close>

definition stream_drop :: "ReceiveStream \<Rightarrow> 't PtpSession \<Rightarrow> 't PtpSession" where
  "stream_drop st s =
     (let s = (if \<not> rs_done st then flag_session (rs_transaction_id st) s else s)
      in if rs_guard st then s\<lparr>operation_lock := False\<rparr> else s)"

partial_function (option) collect_loop ::
  "'t transport_ops \<Rightarrow> bytes \<Rightarrow> ReceiveStream \<Rightarrow> 't PtpSession \<Rightarrow> (bytes res \<times> 't PtpSession) option" where
  "collect_loop ops data st s =
     Option.bind (next_chunk ops st s) (\<lambda>(item, st, s).
       case item of
         End \<Rightarrow> Some (Ok data, stream_drop st s)
       | Item r \<Rightarrow>
           (case r of
              Ok chunk \<Rightarrow> collect_loop ops (data @ chunk) st s
            | Err e \<Rightarrow> Some (Err e, stream_drop st s)
            | Panic \<Rightarrow> Some (Panic, stream_drop st s)
            | Dropped \<Rightarrow> Some (Dropped, stream_drop st s)))"

definition stream_collect :: "'t transport_ops \<Rightarrow> ReceiveStream \<Rightarrow> 't PtpSession \<Rightarrow> (bytes res \<times> 't PtpSession) option" where
  "stream_collect ops st s = collect_loop ops [] st s"

section \<open>Sending\<close>

text \<open>Split mode sends each chunk as a transfer of its own, up to the first error of the producer.\<close>

fun send_chunks :: "'t transport_ops \<Rightarrow> chunk_result list \<Rightarrow> 't PtpSession \<Rightarrow> unit res \<times> 't PtpSession" where
  "send_chunks ops [] s = (Ok (), s)"
| "send_chunks ops (Ok chunk # rest) s =
     (if chunk \<noteq> [] then seq_ok (on_transport (send_bulk ops chunk) s) (\<lambda>_ s. send_chunks ops rest s)
      else send_chunks ops rest s)"
| "send_chunks ops (Err (kind, text) # rest) s = (Err (PtpError.Io kind text), s)"
| "send_chunks ops (Panic # rest) s = (Panic, s)"
| "send_chunks ops (Dropped # rest) s = (Dropped, s)"

definition stream_header :: "u64 \<Rightarrow> OperationCode \<Rightarrow> u32 \<Rightarrow> bytes" where
  "stream_header total_size operation tx_id =
     (let container_length = word_of_nat HEADER_SIZE + total_size :: u64 in
      (if container_length \<le> 0xFFFFFFFF then pack_u32 (ucast container_length) else pack_u32 0xFFFFFFFF)
      @ pack_u16 (ContainerType_to_code ContainerType.Data) @ pack_u16 (OperationCode_into operation) @ pack_u32 tx_id)"

definition execute_with_send_stream ::
  "'t transport_ops \<Rightarrow> OperationCode \<Rightarrow> u32 list \<Rightarrow> u64 \<Rightarrow> chunk_result list \<Rightarrow> 't PtpSession \<Rightarrow>
     ResponseContainer res \<times> 't PtpSession" where
  "execute_with_send_stream ops operation ps total_size data = transaction ops (\<lambda>tx_id s.
     seq_ok (on_transport (send_bulk ops (command operation tx_id ps)) s) (\<lambda>_ s.
     let header = stream_header total_size operation tx_id in
     seq_ok
       (if split_header_data s
        then seq_ok (on_transport (send_bulk ops header) s) (\<lambda>_ s. send_chunks ops data s)
        else on_transport (send_bulk_streaming ops (Ok header # data)) s) (\<lambda>_ s.
       receive_response ops tx_id operation 0 s)))"

definition send_object_stream ::
  "'t transport_ops \<Rightarrow> u64 \<Rightarrow> chunk_result list \<Rightarrow> 't PtpSession \<Rightarrow> unit res \<times> 't PtpSession" where
  "send_object_stream ops total_size data s =
     checked OperationCode.SendObject (\<lambda>_. Ok ())
       (execute_with_send_stream ops OperationCode.SendObject [] total_size data s)"

section \<open>Collecting a stream\<close>

lemma collect_loop_live:
  assumes "\<not> rs_done st" "\<not> rs_done st'" "next_loop ops st s = next_loop ops st' s'"
  shows "collect_loop ops data st s = collect_loop ops data st' s'"
  using assms by (simp add: collect_loop.simps [of ops] next_chunk_def)

text \<open>A stream that has not ended, outside a container larger than 4 GiB.\<close>

definition streaming :: "ReceiveStream \<Rightarrow> bool" where
  "streaming st \<longleftrightarrow> \<not> rs_done st \<and> \<not> rs_large_object st"

lemma bound_large_small [simp]: "\<not> rs_large_object st \<Longrightarrow> bound_large st = st"
  by (simp add: bound_large_def)

lemma header_phase_payload [simp]: "rs_in_payload st \<Longrightarrow> header_phase st s = Inr st"
  by (simp add: header_phase_def)

lemma collect_yield:
  assumes "streaming st" "rs_in_payload st" "rs_payload_remaining st = Some k" "tk = min k (length (rs_buffer st))" "0 < tk"
  shows "collect_loop ops data st s = collect_loop ops (data @ take tk (rs_buffer st))
    (let st = st\<lparr>rs_buffer := drop tk (rs_buffer st), rs_payload_yielded := rs_payload_yielded st + tk,
               rs_payload_remaining := Some (k - tk)\<rparr> in if k = tk then end_container st else st) s"
proof -
  from assms have "payload_phase st = Yield (take tk (rs_buffer st))
    (let st = st\<lparr>rs_buffer := drop tk (rs_buffer st), rs_payload_yielded := rs_payload_yielded st + tk,
               rs_payload_remaining := Some (k - tk)\<rparr> in if k = tk then end_container st else st)"
    by (auto simp: payload_phase_def Let_def)
  with assms show ?thesis
    by (subst collect_loop.simps) (simp add: next_chunk_def streaming_def next_loop.simps [of ops])
qed

lemma collect_container_end:
  assumes "streaming st" "rs_in_payload st" "rs_payload_remaining st = Some 0"
  shows "collect_loop ops data st s = collect_loop ops data (end_container st) s"
  using assms
  by (intro collect_loop_live)
    (simp_all add: streaming_def end_container_def next_loop.simps [of ops st] payload_phase_def)

definition after_data_header :: "nat \<Rightarrow> ReceiveStream \<Rightarrow> ReceiveStream" where
  "after_data_header n st = st\<lparr>rs_buffer := drop HEADER_SIZE (rs_buffer st), rs_large_object := False,
     rs_payload_remaining := Some n, rs_payload_yielded := 0, rs_in_payload := True, rs_saw_data_container := True\<rparr>"

lemma collect_header:
  assumes "streaming st" "\<not> rs_in_payload st"
    "rs_buffer st = pack_header (HEADER_SIZE + n) ContainerType.Data code tx @ rest" "HEADER_SIZE + n < 2 ^ 32 - 1"
  shows "collect_loop ops data st s = collect_loop ops data (after_data_header n st) s"
proof -
  have len: "unpack_slice unpack_u32 (rs_buffer st) 0 4 = Ok (word_of_nat (HEADER_SIZE + n))"
    using u32.unpack_slice_mid [of 0 "[]" 4] by (simp add: assms(3) pack_header_def)
  have n: "unat (word_of_nat (HEADER_SIZE + n) :: u32) = HEADER_SIZE + n"
    using assms(4) by (simp add: unat_of_nat HEADER_SIZE_def del: of_nat_add)
  then have "(word_of_nat (HEADER_SIZE + n) :: u32) \<noteq> LARGE_OBJECT_LENGTH_SENTINEL"
    using assms(4) by (auto simp: LARGE_OBJECT_LENGTH_SENTINEL_def simp del: of_nat_add)
  with assms(3) len n have "consume_container_header st = (Ok Header.Data, after_data_header n st)"
    by (simp add: consume_container_header_def consume_data_header_def after_data_header_def Let_def del: of_nat_add)
  moreover have "HEADER_SIZE \<le> length (rs_buffer st)" by (simp add: assms(3) HEADER_SIZE_def)
  ultimately have "header_phase st s = Inr (after_data_header n st)"
    using assms(2) by (simp add: header_phase_def)
  with assms(1) show ?thesis
    by (intro collect_loop_live)
      (simp_all add: streaming_def after_data_header_def next_loop.simps [of ops])
qed

lemma collect_response:
  assumes "streaming st" "\<not> rs_in_payload st" "rs_buffer st = ok_reply (rs_transaction_id st)"
  shows "collect_loop ops data st s = Some (Ok data, if rs_guard st then s\<lparr>operation_lock := False\<rparr> else s)"
proof -
  have "container_type (rs_buffer st) = Ok ContainerType.Response" "HEADER_SIZE \<le> length (rs_buffer st)"
    using assms(3) container_type_header [of _ _ _ _ "[]"] by (simp_all add: ok_reply_def response_wire_def HEADER_SIZE_def)
  with assms have "header_phase st s = Inl (End, stream_finish False st s)"
    by (simp add: header_phase_def consume_container_header_def consume_response_header_def)
  with assms(1) show ?thesis
    by (simp add: collect_loop.simps [of ops] next_chunk_def streaming_def next_loop.simps [of ops]
        stream_finish_def stream_drop_def Let_def)
qed

text \<open>The state after a read of \<open>b\<close>, which is not empty.\<close>

definition filled :: "bytes \<Rightarrow> ReceiveStream \<Rightarrow> ReceiveStream" where
  "filled b st = st\<lparr>rs_expect_zero_length_packet := False, rs_short_read := (length b < RECEIVE_CHUNK),
     rs_buffer := rs_buffer st @ b\<rparr>"

text \<open>When the buffer cannot be used, the stream reads.\<close>

definition starved :: "ReceiveStream \<Rightarrow> bool" where
  "starved st \<longleftrightarrow>
     (if rs_in_payload st then rs_buffer st = [] \<and> rs_payload_remaining st \<noteq> Some 0
      else length (rs_buffer st) < HEADER_SIZE)"

context bulk_pipe
begin

lemma collect_read:
  assumes "streaming st" "starved st" "readable (transport s)" "pipe (transport s) = b # bs" "b \<noteq> []"
  shows "\<exists>s'. collect_loop ops data st s = collect_loop ops data (filled b st) s'
    \<and> pipe (transport s') = bs \<and> readable (transport s') \<and> same_but_transport s s'"
proof -
  from read_one [OF assms(3,4), of RECEIVE_CHUNK] obtain s' where
    s': "on_transport (receive_bulk ops RECEIVE_CHUNK) s = (Ok b, s')" "pipe (transport s') = bs"
    "readable (transport s')" "same_but_transport s s'" by blast
  have "header_phase st s = Inr st" using assms(2) by (auto simp: header_phase_def starved_def split: if_splits)
  moreover have "payload_phase st = NeedMore"
    using assms(2) by (auto simp: payload_phase_def starved_def Let_def split: option.splits if_splits)
  moreover have "after_read b (st\<lparr>rs_short_read := False\<rparr>) = Some (filled b st)"
    using assms(5) by (simp add: after_read_def filled_def)
  ultimately have "next_loop ops st s = next_loop ops (filled b st) s'"
    using assms(1) s'(1) by (subst next_loop.simps) (simp add: streaming_def)
  then have "collect_loop ops data st s = collect_loop ops data (filled b st) s'"
    using assms(1) by (intro collect_loop_live) (simp_all add: streaming_def filled_def)
  with s' show ?thesis by blast
qed

end

text \<open>
  What the stream still has to see: the rest of the container it is in, further containers and the
  response, spread over the buffer and the transfers still in the pipe.
\<close>

definition still_to_come :: "ReceiveStream \<Rightarrow> bytes list \<Rightarrow> bytes \<Rightarrow> DataContainer list \<Rightarrow> bool" where
  "still_to_come st chunks p containers \<longleftrightarrow>
     streaming st \<and> [] \<notin> set chunks
     \<and> rs_buffer st @ concat chunks =
         p @ concat (map DataContainer_to_bytes containers) @ ok_reply (rs_transaction_id st)
     \<and> (if rs_in_payload st then rs_payload_remaining st = Some (length p) else p = [])
     \<and> list_all (\<lambda>c. HEADER_SIZE + length (dc_payload c) < 2 ^ 32 - 1) containers"

definition work_left :: "ReceiveStream \<Rightarrow> bytes list \<Rightarrow> nat" where
  "work_left st chunks =
     length (rs_buffer st) + length (concat chunks) + length chunks + (if rs_in_payload st then 1 else 0)"

lemma length_ok_reply: "length (ok_reply tx) = HEADER_SIZE"
  by (simp add: ok_reply_def response_wire_def HEADER_SIZE_def)

lemma still_to_come_read:
  assumes "still_to_come st (b # chunks) p containers"
  shows "still_to_come (filled b st) chunks p containers" "b \<noteq> []"
    "work_left (filled b st) chunks < work_left st (b # chunks)"
  using assms by (auto simp: still_to_come_def filled_def work_left_def streaming_def)

lemma still_to_come_starved:
  assumes "still_to_come st chunks p containers" "starved st"
  shows "chunks \<noteq> []"
  using assms length_ok_reply [of "rs_transaction_id st"]
  by (auto simp: still_to_come_def starved_def HEADER_SIZE_def split: if_splits dest: arg_cong [where f = length])

lemma still_to_come_payload:
  assumes "still_to_come st chunks p containers" "rs_in_payload st" "p \<noteq> []" "rs_buffer st \<noteq> []"
    and tk: "tk = min (length p) (length (rs_buffer st))"
    and st': "st' = (let st = st\<lparr>rs_buffer := drop tk (rs_buffer st), rs_payload_yielded := rs_payload_yielded st + tk,
               rs_payload_remaining := Some (length p - tk)\<rparr> in if length p = tk then end_container st else st)"
  shows "still_to_come st' chunks (drop tk p) containers" "take tk (rs_buffer st) = take tk p"
    "work_left st' chunks < work_left st chunks" "rs_guard st' = rs_guard st" "0 < tk"
proof -
  have split: "rs_buffer st @ concat chunks =
      p @ concat (map DataContainer_to_bytes containers) @ ok_reply (rs_transaction_id st)" (is "_ = p @ ?after")
    using assms(1) by (simp add: still_to_come_def)
  have "take tk (rs_buffer st @ concat chunks) = take tk (p @ ?after)"
    "drop tk (rs_buffer st @ concat chunks) = drop tk (p @ ?after)" by (simp_all add: split)
  then have *: "take tk (rs_buffer st) = take tk p" "drop tk (rs_buffer st) @ concat chunks = drop tk p @ ?after"
    by (simp_all add: tk)
  show "0 < tk" using assms(3,4) by (simp add: tk)
  with * assms(1,2) show "still_to_come st' chunks (drop tk p) containers" "take tk (rs_buffer st) = take tk p"
    "work_left st' chunks < work_left st chunks" "rs_guard st' = rs_guard st"
    by (auto simp: still_to_come_def st' end_container_def streaming_def work_left_def tk Let_def)
qed

lemma still_to_come_header:
  assumes "still_to_come st chunks p (c # containers)" "\<not> rs_in_payload st" "HEADER_SIZE \<le> length (rs_buffer st)"
  obtains q where "rs_buffer st = pack_header (HEADER_SIZE + length (dc_payload c)) ContainerType.Data
      (OperationCode_into (dc_code c)) (dc_transaction_id c) @ q"
    "HEADER_SIZE + length (dc_payload c) < 2 ^ 32 - 1" "p = []"
    "still_to_come (after_data_header (length (dc_payload c)) st) chunks (dc_payload c) containers"
    "work_left (after_data_header (length (dc_payload c)) st) chunks < work_left st chunks"
proof -
  let ?h = "pack_header (HEADER_SIZE + length (dc_payload c)) ContainerType.Data
      (OperationCode_into (dc_code c)) (dc_transaction_id c)"
  have len: "length ?h = HEADER_SIZE" by (simp add: HEADER_SIZE_def)
  have split: "rs_buffer st @ concat chunks =
      ?h @ dc_payload c @ concat (map DataContainer_to_bytes containers) @ ok_reply (rs_transaction_id st)"
    using assms(1,2) by (simp add: still_to_come_def DataContainer_to_bytes_def Let_def)
  have "take HEADER_SIZE (rs_buffer st) = ?h"
    using arg_cong [OF split, of "take HEADER_SIZE"] assms(3) len by simp
  then have buffer: "rs_buffer st = ?h @ drop HEADER_SIZE (rs_buffer st)" by (metis append_take_drop_id)
  have rest: "drop HEADER_SIZE (rs_buffer st) @ concat chunks =
      dc_payload c @ concat (map DataContainer_to_bytes containers) @ ok_reply (rs_transaction_id st)"
    using arg_cong [OF split, of "drop HEADER_SIZE"] assms(3) len by simp
  show thesis
  proof (rule that [OF buffer])
    show "HEADER_SIZE + length (dc_payload c) < 2 ^ 32 - 1" "p = []"
      using assms(1,2) by (simp_all add: still_to_come_def)
    show "still_to_come (after_data_header (length (dc_payload c)) st) chunks (dc_payload c) containers"
      using rest assms(1) by (simp add: still_to_come_def after_data_header_def streaming_def)
    show "work_left (after_data_header (length (dc_payload c)) st) chunks < work_left st chunks"
      using assms(2,3) by (simp add: work_left_def after_data_header_def HEADER_SIZE_def)
  qed
qed

lemma still_to_come_response:
  assumes "still_to_come st chunks p []" "\<not> rs_in_payload st" "HEADER_SIZE \<le> length (rs_buffer st)"
  shows "rs_buffer st = ok_reply (rs_transaction_id st)" "chunks = []" "p = []"
proof -
  have split: "rs_buffer st @ concat chunks = ok_reply (rs_transaction_id st)" "p = []"
    using assms(1,2) by (simp_all add: still_to_come_def)
  then have "length (rs_buffer st) + length (concat chunks) = HEADER_SIZE"
    by (metis length_append length_ok_reply)
  with assms(3) have "concat chunks = []" by (cases "concat chunks") simp_all
  moreover have "[] \<notin> set chunks" using assms(1) by (simp add: still_to_come_def)
  ultimately show "rs_buffer st = ok_reply (rs_transaction_id st)" "chunks = []" "p = []"
    using split by (cases chunks; auto)+
qed

lemma same_unlock:
  "same_but_transport s s' \<Longrightarrow> same_but_transport (s\<lparr>operation_lock := b\<rparr>) (s'\<lparr>operation_lock := b\<rparr>)"
  by (cases s; cases s') (simp add: same_but_transport_def)

context bulk_pipe
begin

lemma collect_rest:
  assumes "still_to_come st chunks p containers" "readable (transport s)" "pipe (transport s) = chunks @ rest"
  shows "\<exists>s'. collect_loop ops data st s = Some (Ok (data @ p @ concat (map dc_payload containers)), s')
    \<and> pipe (transport s') = rest \<and> readable (transport s')
    \<and> same_but_transport (if rs_guard st then s\<lparr>operation_lock := False\<rparr> else s) s'"
  using assms
proof (induction "work_left st chunks" arbitrary: st chunks p containers s data rule: less_induct)
  case less
  note todo = less.prems(1) and readable = less.prems(2) and pipe = less.prems(3)
  have live: "streaming st" using todo by (simp add: still_to_come_def)
  consider (read) "starved st" | (container_end) "rs_in_payload st" "p = []"
    | (payload) "rs_in_payload st" "p \<noteq> []" "rs_buffer st \<noteq> []" | (header) "\<not> rs_in_payload st" "HEADER_SIZE \<le> length (rs_buffer st)"
    using todo by (auto simp: starved_def still_to_come_def linorder_not_le [symmetric] split: if_splits)
  then show ?case
  proof cases
    case read
    from still_to_come_starved [OF todo read] obtain b bs where chunks: "chunks = b # bs" by (cases chunks) auto
    note step = still_to_come_read [OF todo [unfolded chunks]]
    from collect_read [OF live read readable _ step(2), of "bs @ rest" data] pipe chunks obtain s1 where
      s1: "collect_loop ops data st s = collect_loop ops data (filled b st) s1"
      "pipe (transport s1) = bs @ rest" "readable (transport s1)" "same_but_transport s s1" by auto
    from less.hyps [OF step(3) [folded chunks] step(1) s1(3,2), of data] s1 show ?thesis
      by (auto simp: filled_def intro: same_but_transport_trans same_unlock [THEN same_but_transport_trans])
  next
    case container_end
    then show ?thesis
      using todo less.hyps [of "end_container st" chunks "[]" containers s data] readable pipe collect_container_end [OF live, of ops data s]
      by (simp add: still_to_come_def end_container_def streaming_def work_left_def)
  next
    case payload
    have "rs_payload_remaining st = Some (length p)" using todo payload(1) by (simp add: still_to_come_def)
    note step = still_to_come_payload [OF todo payload refl refl] and yield = collect_yield [OF live payload(1) this refl]
    let ?tk = "min (length p) (length (rs_buffer st))"
    have "(data @ take ?tk p) @ drop ?tk p @ concat (map dc_payload containers) = data @ p @ concat (map dc_payload containers)"
      by (metis append.assoc append_take_drop_id)
    with less.hyps [OF step(3,1) readable pipe, of "data @ take ?tk p"] show ?thesis
      unfolding yield [OF step(5)] step(2,4) by (simp only:)
  next
    case header
    show ?thesis
    proof (cases containers)
      case Nil
      note last = still_to_come_response [OF todo [unfolded Nil] header]
      show ?thesis
        using collect_response [OF live header(1) last(1), of ops data s] Nil last(2,3) readable pipe by simp
    next
      case (Cons c cs)
      from still_to_come_header [OF todo [unfolded Cons] header] obtain q where
        q: "rs_buffer st = pack_header (HEADER_SIZE + length (dc_payload c)) ContainerType.Data
          (OperationCode_into (dc_code c)) (dc_transaction_id c) @ q"
        and step: "HEADER_SIZE + length (dc_payload c) < 2 ^ 32 - 1" "p = []"
          "still_to_come (after_data_header (length (dc_payload c)) st) chunks (dc_payload c) cs"
          "work_left (after_data_header (length (dc_payload c)) st) chunks < work_left st chunks" by blast
      from less.hyps [OF step(4,3) readable pipe, of data] show ?thesis
        unfolding collect_header [OF live header(1) q step(1)] using step(2) Cons by (simp add: after_data_header_def)
    qed
  qed
qed

end

section \<open>The life of a stream\<close>

text \<open>A stream holds the operation lock until it is done.\<close>

definition stream_inv :: "ReceiveStream \<Rightarrow> 't PtpSession \<Rightarrow> bool" where
  "stream_inv st s \<longleftrightarrow> rs_guard st = (\<not> rs_done st) \<and> (rs_guard st \<longrightarrow> operation_lock s)"

lemma started_stream:
  assumes "start_receive_stream ops operation ps n s = (Ok st, s')"
  shows "\<not> operation_lock s" "st = ReceiveStream_new (transaction_id s) operation n"
    "operation_lock s'" "\<not> needs_recovery s'" "transaction_id s' = TransactionId_next (transaction_id s)"
proof -
  show "\<not> operation_lock s" using assms by (auto simp: start_receive_stream_def)
  then obtain s1 s2 where
    s1: "recover_if_needed ops (s\<lparr>operation_lock := True\<rparr>) = (Ok (), s1)"
    and s2: "on_transport (send_bulk ops (command operation (transaction_id s1) ps))
        (s1\<lparr>transaction_id := TransactionId_next (transaction_id s1)\<rparr>) = (Ok (), s2)"
    and "st = ReceiveStream_new (transaction_id s1) operation n" "s' = s2"
    using assms
    by (cases "recover_if_needed ops (s\<lparr>operation_lock := True\<rparr>)" rule: prod.exhaust,
        rename_tac r s1, case_tac r)
      (auto simp: start_receive_stream_def scoped_def next_transaction_id_def Let_def seq_ok_Ok
        split: outcome.splits prod.splits if_splits)
  with recover_fields [OF s1] same_but_transport_fields [OF same_on_transport [OF s2]]
  show "st = ReceiveStream_new (transaction_id s) operation n" "operation_lock s'" "\<not> needs_recovery s'"
    "transaction_id s' = TransactionId_next (transaction_id s)"
    by (simp_all add: needs_recovery_def)
qed

text \<open>The state of a session whose stream has ended.\<close>

definition ended :: "bool \<Rightarrow> ReceiveStream \<Rightarrow> 't PtpSession \<Rightarrow> 't PtpSession" where
  "ended in_doubt st s = snd (stream_finish in_doubt st s)"

definition next_post :: "ReceiveStream \<Rightarrow> 't PtpSession \<Rightarrow> next_item \<times> ReceiveStream \<times> 't PtpSession \<Rightarrow> bool" where
  "next_post st s y \<longleftrightarrow>
     (case y of (item, st', s') \<Rightarrow>
        rs_transaction_id st' = rs_transaction_id st
        \<and> (let going_on = (rs_done st' = rs_done st \<and> rs_guard st' = rs_guard st \<and> same_but_transport s s');
               over = (\<lambda>in_doubt. rs_done st' \<and> \<not> rs_guard st' \<and> same_but_transport (ended in_doubt st s) s')
           in case item of
                End \<Rightarrow> over False
              | Item r \<Rightarrow>
                  (case r of
                     Ok chunk \<Rightarrow> chunk \<noteq> [] \<and> going_on
                   | Err e \<Rightarrow> (e = invalid_data ''Empty response from device'' [] \<and> going_on) \<or> over True
                        \<or> ((is_protocol_error e \<or> e = PtpError.DeviceReset) \<and> over False)
                   | _ \<Rightarrow> going_on)))"

text \<open>What a round changes of a stream besides its end: only the bookkeeping of the transfer.\<close>

definition same_stream :: "ReceiveStream \<Rightarrow> ReceiveStream \<Rightarrow> bool" where
  "same_stream st st' \<longleftrightarrow> rs_transaction_id st' = rs_transaction_id st \<and> rs_done st' = rs_done st \<and> rs_guard st' = rs_guard st"

lemma same_stream_refl [simp]: "same_stream st st"
  by (simp add: same_stream_def)

lemma same_stream_trans: "same_stream a b \<Longrightarrow> same_stream b c \<Longrightarrow> same_stream a c"
  by (simp add: same_stream_def)

lemma same_stream_header: "consume_container_header st = (r, st') \<Longrightarrow> same_stream st st'"
  by (auto simp: consume_container_header_def consume_data_header_def consume_response_header_def same_stream_def Let_def
      split: if_splits ContainerType.splits elim!: seq_ok_cases)

lemma same_stream_steps:
  "same_stream st (bound_large st)" "same_stream st (end_container st)" "same_stream st (st\<lparr>rs_short_read := b\<rparr>)"
  "payload_phase st = Yield chunk st' \<Longrightarrow> same_stream st st' \<and> chunk \<noteq> []"
  "payload_phase st = Again st' \<Longrightarrow> same_stream st st'"
  "after_read bs st = Some st' \<Longrightarrow> same_stream st st'"
  by (auto simp: same_stream_def bound_large_def end_container_def payload_phase_def after_read_def Let_def
      split: if_splits option.splits)

lemma same_stream_header_phase: "header_phase st s = Inr st' \<Longrightarrow> same_stream st st'"
  by (auto simp: header_phase_def split: if_splits prod.splits outcome.splits Header.splits dest: same_stream_header)

lemma returns_seq_ok: "returns m (\<lambda>x. returns (fst (k x s)) Q) \<Longrightarrow> returns (fst (seq_ok (m, s) k)) Q"
  by (cases m) auto

lemma header_total:
  assumes "HEADER_SIZE \<le> length (rs_buffer st)"
  shows "returns (fst (consume_container_header st)) (\<lambda>_. True)"
proof -
  have len: "returns (unpack_slice unpack_u32 (rs_buffer st) 0 4) (\<lambda>_. True)"
    using assms by (intro u32.unpack_slice_total) (auto simp: HEADER_SIZE_def)
  have "returns (fst (consume_data_header st)) (\<lambda>_. True)"
    unfolding consume_data_header_def by (intro returns_seq_ok returns_mono [OF len]) (simp add: Let_def)
  moreover have "returns (fst (consume_response_header st)) (\<lambda>_. True)"
    unfolding consume_response_header_def
    by (intro returns_seq_ok returns_mono [OF ResponseContainer_from_bytes_total])
      (use assms in \<open>auto simp: Let_def clamp_def intro!: returns_seq_ok returns_mono [OF len]\<close>)
  ultimately show ?thesis
    unfolding consume_container_header_def
    by (intro returns_seq_ok returns_mono [OF container_type_total]) (simp split: ContainerType.split)
qed

lemma header_phase_over:
  assumes "header_phase st s = Inl (item, st', s')"
  shows "next_post st s (item, st', s')"
proof -
  obtain r st1 where c: "consume_container_header st = (r, st1)" by fastforce
  with assms have len: "HEADER_SIZE \<le> length (rs_buffer st)" by (auto simp: header_phase_def split: if_splits)
  from same_stream_header [OF c] have st1: "rs_transaction_id st1 = rs_transaction_id st" "rs_done st1 = rs_done st" "rs_guard st1 = rs_guard st"
    by (simp_all add: same_stream_def)
  have "is_Ok r \<or> (\<exists>e. r = Err e)" using header_total [OF len] c by (cases r) auto
  with assms c st1 show ?thesis
    by (auto simp: header_phase_def next_post_def ended_def stream_finish_def Let_def
        split: if_splits outcome.splits Header.splits)
qed

lemma next_post_seq:
  assumes "next_post st1 s1 y" "same_stream st st1" "same_but_transport s s1"
  shows "next_post st s y"
proof -
  have "same_but_transport (ended b st s) (ended b st1 s1)" for b
    using assms(2,3)
    by (cases s; cases s1) (auto simp: ended_def stream_finish_def same_stream_def flag_session_def same_but_transport_def Let_def)
  then have over: "same_but_transport (ended b st1 s1) s' \<Longrightarrow> same_but_transport (ended b st s) s'" for b s'
    using same_but_transport_trans by blast
  have going: "same_but_transport s1 s' \<Longrightarrow> same_but_transport s s'" for s'
    using assms(3) same_but_transport_trans by blast
  obtain item st' s' where y: "y = (item, st', s')" by (cases y) auto
  have same: "rs_transaction_id st1 = rs_transaction_id st" "rs_done st1 = rs_done st" "rs_guard st1 = rs_guard st"
    using assms(2) by (simp_all add: same_stream_def)
  show ?thesis
  proof (cases item)
    case End
    with assms(1) over [of False] same show ?thesis by (simp add: y next_post_def Let_def)
  next
    case (Item r)
    with assms(1) over [of False] over [of True] going same show ?thesis
      by (cases r) (auto simp: y next_post_def Let_def)
  qed
qed

lemma next_loop_post: "next_loop ops st s = Some y \<Longrightarrow> next_post st s y"
proof (erule next_loop.raw_induct [rotated], goal_cases)
  case (1 loop ops st s y)
  show ?case
  proof (cases "header_phase st s")
    case (Inl result)
    with 1(2) show ?thesis by (cases result) (auto dest: header_phase_over)
  next
    case (Inr st1)
    let ?st = "bound_large st1"
    have st: "same_stream st ?st"
      using same_stream_header_phase [OF Inr] same_stream_steps(1) same_stream_trans by blast
    show ?thesis
    proof (cases "payload_phase ?st")
      case (Yield chunk st2)
      with 1(2) Inr st same_stream_steps(4) [OF Yield] show ?thesis by (auto simp: next_post_def same_stream_def)
    next
      case (Again st2)
      with 1(2) Inr have "loop ops st2 s = Some y" by simp
      from 1(1) [OF this] show ?thesis
        by (rule next_post_seq [OF _ same_stream_trans [OF st same_stream_steps(5) [OF Again]]]) simp
    next
      case NeedMore
      obtain r s1 where read: "on_transport (receive_bulk ops RECEIVE_CHUNK) s = (r, s1)" by fastforce
      let ?st' = "?st\<lparr>rs_short_read := False\<rparr>"
      have st': "same_stream st ?st'" using same_stream_trans [OF st same_stream_steps(3)] .
      have "next_post ?st' s1 y"
      proof (cases r)
        case (Ok bs)
        show ?thesis
        proof (cases "after_read bs ?st'")
          case None
          with 1(2) Inr NeedMore read Ok show ?thesis by (auto simp: next_post_def)
        next
          case (Some st2)
          with 1(2) Inr NeedMore read Ok have "loop ops st2 s1 = Some y" by simp
          from 1(1) [OF this] show ?thesis by (rule next_post_seq [OF _ same_stream_steps(6) [OF Some]]) simp
        qed
      next
        case (Err e)
        with 1(2) Inr NeedMore read show ?thesis by (auto simp: next_post_def ended_def stream_finish_def Let_def)
      qed (use 1(2) Inr NeedMore read in \<open>auto simp: next_post_def\<close>)
      then show ?thesis by (rule next_post_seq [OF _ st' same_on_transport [OF read]])
    qed
  qed
qed


lemma next_chunk_post:
  assumes "next_chunk ops st s = Some y" "\<not> rs_done st"
  shows "next_post st s y"
  using assms by (simp add: next_chunk_def next_loop_post)

section \<open>Properties\<close>








text \<open>The header of an upload, where its length fits.\<close>

lemma container_length_unat:
  assumes "unat (total_size :: u64) < 2 ^ 64 - HEADER_SIZE"
  shows "unat (word_of_nat HEADER_SIZE + total_size) = HEADER_SIZE + unat total_size"
  using assms by (simp add: HEADER_SIZE_def unat_add_lem [THEN iffD1])

lemma stream_header_small:
  assumes "HEADER_SIZE + n < 2 ^ 32"
  shows "stream_header (word_of_nat n) operation tx =
    pack_header (HEADER_SIZE + n) ContainerType.Data (OperationCode_into operation) tx"
proof -
  have n: "unat (word_of_nat n :: u64) = n" using assms by (simp add: unat_of_nat HEADER_SIZE_def)
  have len: "unat (word_of_nat HEADER_SIZE + word_of_nat n :: u64) = HEADER_SIZE + n"
    using assms by (subst container_length_unat) (simp_all add: n HEADER_SIZE_def)
  then have "(word_of_nat HEADER_SIZE + word_of_nat n :: u64) \<le> 0xFFFFFFFF"
    using assms by (simp add: word_le_nat_alt)
  moreover have "(ucast (word_of_nat HEADER_SIZE + word_of_nat n :: u64) :: u32) = word_of_nat (HEADER_SIZE + n)"
    using assms by (simp flip: len)
  ultimately show ?thesis by (simp add: stream_header_def pack_header_def Let_def)
qed


lemma transaction_cong:
  assumes "\<And>s1. recover_if_needed ops (s\<lparr>operation_lock := True\<rparr>) = (Ok (), s1) \<Longrightarrow>
    body (transaction_id s1) (s1\<lparr>transaction_id := TransactionId_next (transaction_id s1)\<rparr>) =
    body' (transaction_id s1) (s1\<lparr>transaction_id := TransactionId_next (transaction_id s1)\<rparr>)"
  shows "transaction ops body s = transaction ops body' s"
proof (cases "recover_if_needed ops (s\<lparr>operation_lock := True\<rparr>)")
  case (Pair r s1)
  with assms show ?thesis
    by (cases r) (simp_all add: transaction_def under_lock_def next_transaction_id_def scoped_def Let_def)
qed

lemma send_stream_is_send:
  assumes "send_bulk_streaming ops = default_send_bulk_streaming (send_bulk ops)" "\<not> split_header_data s"
    and "HEADER_SIZE + length (concat chunks) < 2 ^ 32"
  shows "execute_with_send_stream ops operation ps (word_of_nat (length (concat chunks))) (map Ok chunks) s =
    execute_with_send ops operation ps (concat chunks) s"
proof -
  have data: "on_transport (send_bulk_streaming ops
      (Ok (stream_header (word_of_nat (length (concat chunks))) operation tx) # map Ok chunks)) s2 =
      send_data ops operation tx (concat chunks) s2" if "\<not> split_header_data s2" for s2 tx
    using that stream_header_small [OF assms(3), of operation tx]
    by (simp add: send_data_def DataContainer_to_bytes_def assms(1) default_send_bulk_streaming_def collect_chunks_Ok
        on_transport_def)
  have combined: "\<not> split_header_data s2"
    if "recover_if_needed ops (s\<lparr>operation_lock := True\<rparr>) = (Ok (), s1)"
      "on_transport (send_bulk ops c) (s1\<lparr>transaction_id := i\<rparr>) = (Ok (), s2)" for s1 s2 c i
    using assms(2) recover_fields [OF that(1)] same_but_transport_fields [OF same_on_transport [OF that(2)]] by simp
  show ?thesis
    unfolding execute_with_send_stream_def execute_with_send_def
  proof (intro transaction_cong, rule seq_ok_cong [OF refl], goal_cases)
    case (1 s1 u s2)
    with combined [OF 1(1), of _ _ s2] have "\<not> split_header_data s2" by simp
    from data [OF this] this show ?case by (simp only: Let_def if_False)
  qed
qed

text \<open>
  C29: Streaming an upload is sending it. In combined mode, over a transport that buffers streams the way the trait's default does,
  uploading chunks of known total size does exactly what sending their concatenation as one container does, for every container below 4 GiB.
\<close>

theorem upload_stream_is_send:
  assumes "send_bulk_streaming ops = default_send_bulk_streaming (send_bulk ops)" "\<not> split_header_data s"
    and "HEADER_SIZE + length (concat chunks) < 2 ^ 32"
  shows "execute_with_send_stream ops operation ps (word_of_nat (length (concat chunks))) (map Ok chunks) s =
    execute_with_send ops operation ps (concat chunks) s"
  using assms by (rule send_stream_is_send)

theorem upload_stream_is_send_witness:
  "execute_with_send_stream mock_ops OperationCode.SendObject [] 3 (map Ok [[1, 2], [3]]) (mock_session [ok_reply 1]) =
     execute_with_send mock_ops OperationCode.SendObject [] [1, 2, 3] (mock_session [ok_reply 1])"
  using upload_stream_is_send [of mock_ops "mock_session [ok_reply 1]" "[[1, 2], [3]]" OperationCode.SendObject "[]"]
  by (simp add: mock_session_def PtpSession_new_def HEADER_SIZE_def)

text \<open>
  The length field of an upload saturates. For every total size whose container length fits 64 bits, the header's length field is
  that length up to 2^32 - 1 and the sentinel 2^32 - 1 above it; and a receiver that reads the header expects exactly the total size below the
  sentinel, and the size its caller gave at the sentinel.
\<close>

theorem upload_header_saturates:
  assumes "unat total_size < 2 ^ 64 - HEADER_SIZE" "rs_buffer st = stream_header total_size operation tx @ rest"
  shows "\<exists>len st'. unpack_slice unpack_u32 (rs_buffer st) 0 4 = Ok len
    \<and> unat len = min (HEADER_SIZE + unat total_size) (2 ^ 32 - 1)
    \<and> consume_container_header st = (Ok Header.Data, st') \<and> rs_buffer st' = rest
    \<and> rs_payload_remaining st' =
        (if HEADER_SIZE + unat total_size < 2 ^ 32 - 1 then Some (unat total_size) else rs_expected_payload_len st)"
proof -
  let ?n = "word_of_nat HEADER_SIZE + total_size :: u64"
  let ?len = "if ?n \<le> 0xFFFFFFFF then ucast ?n else 0xFFFFFFFF :: u32"
  have n: "unat ?n = HEADER_SIZE + unat total_size" by (rule container_length_unat [OF assms(1)])
  have len: "unat ?len = min (HEADER_SIZE + unat total_size) (2 ^ 32 - 1)"
    by (auto simp: word_le_nat_alt n unat_ucast_up)
  define l where "l = ?len"
  have h: "rs_buffer st = pack_header (unat l) ContainerType.Data (OperationCode_into operation) tx @ rest"
    by (simp add: assms(2) stream_header_def pack_header_def l_def Let_def)
  have read: "unpack_slice unpack_u32 (rs_buffer st) 0 4 = Ok l"
    using u32.unpack_slice_mid [of 0 "[]" 4] by (simp add: h pack_header_def)
  have "(l = LARGE_OBJECT_LENGTH_SENTINEL) = (\<not> HEADER_SIZE + unat total_size < 2 ^ 32 - 1)"
    using len [folded l_def] by (simp add: LARGE_OBJECT_LENGTH_SENTINEL_def word_unat_eq_iff min_def)
  with len [folded l_def] read h show ?thesis
    by (simp add: consume_container_header_def consume_data_header_def Let_def HEADER_SIZE_def)
qed


theorem upload_header_saturates_witness:
  "\<exists>len st'. unpack_slice unpack_u32 (stream_header 5000000000 OperationCode.SendObject 1) 0 4 = Ok len
     \<and> unat len = 2 ^ 32 - 1
     \<and> consume_container_header ((ReceiveStream_new 1 OperationCode.GetObject (Some 5000000000))
           \<lparr>rs_buffer := stream_header 5000000000 OperationCode.SendObject 1\<rparr>) = (Ok Header.Data, st')
     \<and> rs_payload_remaining st' = Some 5000000000"
  using upload_header_saturates [of 5000000000 "(ReceiveStream_new 1 OperationCode.GetObject (Some 5000000000))
      \<lparr>rs_buffer := stream_header 5000000000 OperationCode.SendObject 1\<rparr>" OperationCode.SendObject 1 "[]"]
  by (auto simp: HEADER_SIZE_def ReceiveStream_new_def)

end
