(* ===== verification/Mtp_Types.thy ===== *)
theory Mtp_Types
  imports Streaming
begin

text \<open>
  The vocabulary of the high-level API, free of any backend: the types of \<open>mtp/types.rs\<close>, the errors of
  \<open>mtp/error.rs\<close>, new objects (\<open>mtp/object.rs\<close>), events (\<open>mtp/event.rs\<close>) and what \<open>mtp/backend/mod.rs\<close> declares beside
  its trait. Where a type shares its name with a type of the protocol layer it carries the prefix \<open>Mtp\<close>. Handles and
  storage identifiers are 64-bit tokens here and 32-bit numbers on the wire.
\<close>

section \<open>Errors\<close>

datatype MtpError =
    NotFound
  | StaleHandle
  | AccessDenied
  | ExclusiveAccess
  | PermissionDenied
  | Unsupported
  | Busy
  | StorageFull
  | Cancelled
  | Disconnected
  | DeviceReset
  | Timeout
  | NoDevice
  | NameTooLong usize
  | InvalidData message
  | Io string
  | Other message
  | AlreadyExists

type_synonym 'a mres = "('a, MtpError) outcome"

definition mtp_invalid_data :: "string \<Rightarrow> nat list \<Rightarrow> MtpError" where
  "mtp_invalid_data fmt args = MtpError.InvalidData (fmt, args)"

definition mtp_is_retryable :: "MtpError \<Rightarrow> bool" where
  "mtp_is_retryable e \<longleftrightarrow> e = MtpError.Busy \<or> e = MtpError.Timeout"

definition is_disconnected :: "MtpError \<Rightarrow> bool" where
  "is_disconnected e \<longleftrightarrow> e = MtpError.Disconnected"

definition mtp_is_exclusive_access :: "MtpError \<Rightarrow> bool" where
  "mtp_is_exclusive_access e \<longleftrightarrow> e = MtpError.ExclusiveAccess"

definition is_permission_denied :: "MtpError \<Rightarrow> bool" where
  "is_permission_denied e \<longleftrightarrow> e = MtpError.PermissionDenied"

definition is_stale_handle :: "MtpError \<Rightarrow> bool" where
  "is_stale_handle e \<longleftrightarrow> e = MtpError.StaleHandle"

fun map_response_code :: "ResponseCode \<Rightarrow> MtpError" where
  "map_response_code ResponseCode.InvalidObjectHandle = MtpError.StaleHandle"
| "map_response_code ResponseCode.InvalidParentObject = MtpError.StaleHandle"
| "map_response_code ResponseCode.InvalidStorageId = MtpError.NotFound"
| "map_response_code ResponseCode.StoreReadOnly = MtpError.AccessDenied"
| "map_response_code ResponseCode.ObjectWriteProtected = MtpError.AccessDenied"
| "map_response_code ResponseCode.AccessDenied = MtpError.AccessDenied"
| "map_response_code ResponseCode.StoreFull = MtpError.StorageFull"
| "map_response_code ResponseCode.ObjectTooLarge = MtpError.StorageFull"
| "map_response_code ResponseCode.DeviceBusy = MtpError.Busy"
| "map_response_code ResponseCode.OperationNotSupported = MtpError.Unsupported"
| "map_response_code ResponseCode.ParameterNotSupported = MtpError.Unsupported"
| "map_response_code ResponseCode.TransactionCancelled = MtpError.Cancelled"
| "map_response_code ResponseCode.SessionNotOpen = MtpError.Disconnected"
| "map_response_code other = MtpError.Other (''{other:?}'', [unat (ResponseCode_into other)])"

fun map_usb_kind :: "UsbKind \<Rightarrow> string \<Rightarrow> MtpError" where
  "map_usb_kind UsbKind.Busy text = MtpError.ExclusiveAccess"
| "map_usb_kind UsbKind.PermissionDenied text = MtpError.PermissionDenied"
| "map_usb_kind UsbKind.Disconnected text = MtpError.Disconnected"
| "map_usb_kind UsbKind.NotFound text = MtpError.Disconnected"
| "map_usb_kind UsbKind.Unsupported text = MtpError.Unsupported"
| "map_usb_kind UsbKind.Other text = MtpError.Io text"

fun Error_from :: "PtpError \<Rightarrow> MtpError" where
  "Error_from (PtpError.Protocol code operation) = map_response_code code"
| "Error_from (PtpError.Usb kind text) = map_usb_kind kind text"
| "Error_from (PtpError.Io kind text) =
     (if kind = IoKind.PermissionDenied then MtpError.PermissionDenied else MtpError.Io text)"
| "Error_from (PtpError.InvalidData m) = MtpError.InvalidData m"
| "Error_from PtpError.Timeout = MtpError.Timeout"
| "Error_from PtpError.Disconnected = MtpError.Disconnected"
| "Error_from PtpError.SessionNotOpen = MtpError.Disconnected"
| "Error_from PtpError.NoDevice = MtpError.NoDevice"
| "Error_from PtpError.Cancelled = MtpError.Cancelled"
| "Error_from PtpError.DeviceReset = MtpError.DeviceReset"
| "Error_from (PtpError.StringTooLong units) = MtpError.NameTooLong units"

definition MAX_NAME_UNITS :: usize where
  "MAX_NAME_UNITS = MAX_STRING_UNITS"

definition check_name_length :: "rstr \<Rightarrow> unit mres" where
  "check_name_length name =
     (let units = length (encode_utf16 name) in
      if units > MAX_NAME_UNITS then Err (MtpError.NameTooLong units) else Ok ())"

text \<open>The \<open>?\<close> operator on a protocol error in a function that returns a neutral one.\<close>

fun map_err :: "('e \<Rightarrow> 'f) \<Rightarrow> ('a, 'e) outcome \<Rightarrow> ('a, 'f) outcome" where
  "map_err f (Ok x) = Ok x"
| "map_err f (Err e) = Err (f e)"
| "map_err f Panic = Panic"
| "map_err f Dropped = Dropped"

abbreviation neutral :: "'a res \<Rightarrow> 'a mres" where
  "neutral \<equiv> map_err Error_from"

section \<open>Handles and formats\<close>

type_synonym MtpObjectHandle = u64
type_synonym MtpStorageId = u64
type_synonym ObjectFormat = u16

definition MTP_ROOT :: MtpObjectHandle where
  "MTP_ROOT = 0x00000000"

definition MTP_ALL :: MtpObjectHandle where
  "MTP_ALL = 0xFFFFFFFF"

definition MTP_ALL_STORAGES :: MtpStorageId where
  "MTP_ALL_STORAGES = 0xFFFFFFFF"

definition handle_to_ptp :: "MtpObjectHandle \<Rightarrow> ObjectHandle" where
  "handle_to_ptp h = ucast h"

definition handle_from_ptp :: "ObjectHandle \<Rightarrow> MtpObjectHandle" where
  "handle_from_ptp h = ucast h"

definition storage_to_ptp :: "MtpStorageId \<Rightarrow> StorageId" where
  "storage_to_ptp s = ucast s"

definition storage_from_ptp :: "StorageId \<Rightarrow> MtpStorageId" where
  "storage_from_ptp s = ucast s"

definition FORMAT_UNDEFINED :: ObjectFormat where
  "FORMAT_UNDEFINED = 0x3000"

definition FORMAT_ASSOCIATION :: ObjectFormat where
  "FORMAT_ASSOCIATION = 0x3001"

definition is_association :: "ObjectFormat \<Rightarrow> bool" where
  "is_association f \<longleftrightarrow> f = FORMAT_ASSOCIATION"

definition format_is_audio :: "ObjectFormat \<Rightarrow> bool" where
  "format_is_audio f \<longleftrightarrow> is_audio (ObjectFormatCode_from f)"

definition format_is_video :: "ObjectFormat \<Rightarrow> bool" where
  "format_is_video f \<longleftrightarrow> is_video (ObjectFormatCode_from f)"

definition format_is_image :: "ObjectFormat \<Rightarrow> bool" where
  "format_is_image f \<longleftrightarrow> is_image (ObjectFormatCode_from f)"

definition format_from_ptp :: "ObjectFormatCode \<Rightarrow> ObjectFormat" where
  "format_from_ptp c = ObjectFormatCode_into c"

section \<open>Dates\<close>

record MtpDateTime =
  md_year :: u16
  md_month :: u8
  md_day :: u8
  md_hour :: u8
  md_minute :: u8
  md_second :: u8
  md_offset :: "UtcOffset option"

definition date_from_ptp :: "DateTime \<Rightarrow> MtpDateTime" where
  "date_from_ptp d = \<lparr>md_year = dt_year d, md_month = dt_month d, md_day = dt_day d, md_hour = dt_hour d,
     md_minute = dt_minute d, md_second = dt_second d, md_offset = dt_offset d\<rparr>"

definition date_to_ptp :: "MtpDateTime \<Rightarrow> DateTime" where
  "date_to_ptp d = \<lparr>dt_year = md_year d, dt_month = md_month d, dt_day = md_day d, dt_hour = md_hour d,
     dt_minute = md_minute d, dt_second = md_second d, dt_offset = md_offset d\<rparr>"

definition MtpDateTime_new :: "u16 \<Rightarrow> u8 \<Rightarrow> u8 \<Rightarrow> u8 \<Rightarrow> u8 \<Rightarrow> u8 \<Rightarrow> MtpDateTime option" where
  "MtpDateTime_new year month day hour minute second =
     map_option date_from_ptp (DateTime_new year month day hour minute second)"

definition mtp_with_offset :: "MtpDateTime \<Rightarrow> UtcOffset \<Rightarrow> MtpDateTime" where
  "mtp_with_offset d offset = d\<lparr>md_offset := Some offset\<rparr>"

definition mtp_from_unix_seconds :: "int \<Rightarrow> UtcOffset \<Rightarrow> MtpDateTime option" where
  "mtp_from_unix_seconds secs offset = map_option date_from_ptp (from_unix_seconds secs offset)"

definition mtp_to_unix_seconds :: "MtpDateTime \<Rightarrow> int option" where
  "mtp_to_unix_seconds d = to_unix_seconds (date_to_ptp d)"

definition mtp_to_unix_seconds_with_fallback :: "MtpDateTime \<Rightarrow> UtcOffset \<Rightarrow> int option" where
  "mtp_to_unix_seconds_with_fallback d fallback = to_unix_seconds_with_fallback (date_to_ptp d) fallback"

section \<open>Storages, objects and devices\<close>

datatype MtpStorageType = Undefined | FixedRom | RemovableRom | FixedRam | RemovableRam | Other

fun storage_type_from :: "StorageType \<Rightarrow> MtpStorageType" where
  "storage_type_from StorageType.Undefined = MtpStorageType.Undefined"
| "storage_type_from StorageType.FixedRom = MtpStorageType.FixedRom"
| "storage_type_from StorageType.RemovableRom = MtpStorageType.RemovableRom"
| "storage_type_from StorageType.FixedRam = MtpStorageType.FixedRam"
| "storage_type_from StorageType.RemovableRam = MtpStorageType.RemovableRam"
| "storage_type_from (StorageType.Unknown x) = MtpStorageType.Other"

datatype MtpFilesystemType = Undefined | Flat | Hierarchical | Dcf | Other

fun filesystem_type_from :: "FilesystemType \<Rightarrow> MtpFilesystemType" where
  "filesystem_type_from FilesystemType.Undefined = MtpFilesystemType.Undefined"
| "filesystem_type_from FilesystemType.GenericFlat = MtpFilesystemType.Flat"
| "filesystem_type_from FilesystemType.GenericHierarchical = MtpFilesystemType.Hierarchical"
| "filesystem_type_from FilesystemType.Dcf = MtpFilesystemType.Dcf"
| "filesystem_type_from (FilesystemType.Unknown x) = MtpFilesystemType.Other"

record MtpObjectInfo =
  mo_handle :: MtpObjectHandle
  mo_storage_id :: MtpStorageId
  mo_parent :: MtpObjectHandle
  mo_filename :: rstr
  mo_size :: u64
  mo_format :: ObjectFormat
  mo_created :: "MtpDateTime option"
  mo_modified :: "MtpDateTime option"
  mo_image_width :: u32
  mo_image_height :: u32
  mo_folder :: bool

definition mtp_is_folder :: "MtpObjectInfo \<Rightarrow> bool" where
  "mtp_is_folder o' \<longleftrightarrow> mo_folder o'"

definition mtp_is_file :: "MtpObjectInfo \<Rightarrow> bool" where
  "mtp_is_file o' \<longleftrightarrow> \<not> mo_folder o'"

definition object_from_ptp :: "ObjectInfo \<Rightarrow> MtpObjectInfo" where
  "object_from_ptp i =
     \<lparr>mo_handle = handle_from_ptp (oi_handle i), mo_storage_id = storage_from_ptp (oi_storage_id i),
      mo_parent = handle_from_ptp (oi_parent i), mo_filename = oi_filename i, mo_size = oi_size i,
      mo_format = format_from_ptp (oi_format i), mo_created = map_option date_from_ptp (oi_created i),
      mo_modified = map_option date_from_ptp (oi_modified i), mo_image_width = oi_image_width i,
      mo_image_height = oi_image_height i, mo_folder = is_folder i\<rparr>"

record MtpDeviceIdentity =
  mdi_manufacturer :: rstr
  mdi_model :: rstr
  mdi_serial_number :: rstr
  mdi_device_version :: rstr

definition device_from_ptp :: "DeviceInfo \<Rightarrow> MtpDeviceIdentity" where
  "device_from_ptp d = \<lparr>mdi_manufacturer = di_manufacturer d, mdi_model = di_model d,
     mdi_serial_number = di_serial_number d, mdi_device_version = di_device_version d\<rparr>"

record MtpStorageInfo =
  ms_id :: MtpStorageId
  ms_description :: rstr
  ms_volume_identifier :: rstr
  ms_total_capacity :: u64
  ms_free_space :: u64
  ms_is_writable :: bool
  ms_storage_type :: MtpStorageType
  ms_filesystem_type :: MtpFilesystemType

definition storage_info_from_ptp :: "StorageInfo \<Rightarrow> MtpStorageInfo" where
  "storage_info_from_ptp s =
     \<lparr>ms_id = 0, ms_description = si_description s, ms_volume_identifier = si_volume_identifier s,
      ms_total_capacity = si_max_capacity s, ms_free_space = si_free_space_bytes s,
      ms_is_writable = (si_access_capability s = AccessCapability.ReadWrite),
      ms_storage_type = storage_type_from (si_storage_type s),
      ms_filesystem_type = filesystem_type_from (si_filesystem_type s)\<rparr>"

record Capabilities =
  can_upload :: bool
  can_delete :: bool
  can_rename :: bool
  can_move :: bool
  can_copy :: bool
  can_create_folder :: bool
  supports_partial_download :: bool
  supports_thumbnails :: bool
  supports_events :: bool

definition capabilities_from_ptp :: "DeviceInfo \<Rightarrow> Capabilities" where
  "capabilities_from_ptp d =
     (let op = supports_operation d in
      \<lparr>can_upload = op OperationCode.SendObjectInfo \<and> op OperationCode.SendObject,
       can_delete = op OperationCode.DeleteObject,
       can_rename = supports_rename d,
       can_move = op OperationCode.MoveObject,
       can_copy = op OperationCode.CopyObject,
       can_create_folder = op OperationCode.SendObjectInfo,
       supports_partial_download = op OperationCode.GetPartialObject64 \<or> op OperationCode.GetPartialObject,
       supports_thumbnails = op OperationCode.GetThumb,
       supports_events = (di_events_supported d \<noteq> [])\<rparr>)"

section \<open>New objects\<close>

record NewObjectInfo =
  no_filename :: rstr
  no_size :: u64
  no_format :: "ObjectFormat option"
  no_modified :: "MtpDateTime option"

text \<open>The text behind the last dot, or all of it when there is none: the first part \<open>rsplit('.')\<close> yields.\<close>

definition last_part :: "nat \<Rightarrow> rstr \<Rightarrow> rstr" where
  "last_part c s = rev (takeWhile (\<lambda>x. x \<noteq> c) (rev s))"

definition detect_format_from_filename :: "rstr \<Rightarrow> ObjectFormat" where
  "detect_format_from_filename filename = format_from_ptp (from_extension (last_part 46 filename))"

definition NewObjectInfo_file :: "rstr \<Rightarrow> u64 \<Rightarrow> NewObjectInfo" where
  "NewObjectInfo_file filename n = \<lparr>no_filename = filename, no_size = n,
     no_format = Some (detect_format_from_filename filename), no_modified = None\<rparr>"

definition NewObjectInfo_folder :: "rstr \<Rightarrow> NewObjectInfo" where
  "NewObjectInfo_folder name = \<lparr>no_filename = name, no_size = 0,
     no_format = Some FORMAT_ASSOCIATION, no_modified = None\<rparr>"

definition NewObjectInfo_with_format :: "rstr \<Rightarrow> u64 \<Rightarrow> ObjectFormat \<Rightarrow> NewObjectInfo" where
  "NewObjectInfo_with_format filename n fmt = \<lparr>no_filename = filename, no_size = n,
     no_format = Some fmt, no_modified = None\<rparr>"

definition with_modified :: "NewObjectInfo \<Rightarrow> MtpDateTime \<Rightarrow> NewObjectInfo" where
  "with_modified i modified = i\<lparr>no_modified := Some modified\<rparr>"

definition to_object_info :: "NewObjectInfo \<Rightarrow> ObjectInfo" where
  "to_object_info i =
     (let fmt = (case no_format i of Some f \<Rightarrow> f | None \<Rightarrow> FORMAT_UNDEFINED) in
      ObjectInfo_default\<lparr>oi_format := ObjectFormatCode_from fmt, oi_size := no_size i,
        oi_filename := no_filename i, oi_modified := map_option date_to_ptp (no_modified i),
        oi_association_type := (if is_association fmt then AssociationType.GenericFolder else AssociationType.NoAssociation)\<rparr>)"

section \<open>Events\<close>

datatype DeviceEvent =
    ObjectAdded MtpObjectHandle
  | ObjectRemoved MtpObjectHandle
  | StoreAdded MtpStorageId
  | StoreRemoved MtpStorageId
  | StorageInfoChanged MtpStorageId
  | ObjectInfoChanged MtpObjectHandle
  | DeviceInfoChanged
  | DeviceReset
  | Unknown u16 "u32 \<times> u32 \<times> u32"

definition event_from_container :: "EventContainer \<Rightarrow> DeviceEvent" where
  "event_from_container container =
     (case ec_code container of
        EventCode.ObjectAdded \<Rightarrow> DeviceEvent.ObjectAdded (ucast (fst (ec_params container)))
      | EventCode.ObjectRemoved \<Rightarrow> DeviceEvent.ObjectRemoved (ucast (fst (ec_params container)))
      | EventCode.StoreAdded \<Rightarrow> DeviceEvent.StoreAdded (ucast (fst (ec_params container)))
      | EventCode.StoreRemoved \<Rightarrow> DeviceEvent.StoreRemoved (ucast (fst (ec_params container)))
      | EventCode.StorageInfoChanged \<Rightarrow> DeviceEvent.StorageInfoChanged (ucast (fst (ec_params container)))
      | EventCode.ObjectInfoChanged \<Rightarrow> DeviceEvent.ObjectInfoChanged (ucast (fst (ec_params container)))
      | EventCode.DeviceInfoChanged \<Rightarrow> DeviceEvent.DeviceInfoChanged
      | other \<Rightarrow> DeviceEvent.Unknown (EventCode_into other) (ec_params container))"

section \<open>The backend seam\<close>

datatype ByteRange = Full | From u64 | Range u64 u64

fun range_offset :: "ByteRange \<Rightarrow> u64" where
  "range_offset ByteRange.Full = 0"
| "range_offset (ByteRange.From offset) = offset"
| "range_offset (ByteRange.Range offset len) = offset"

datatype ListingErrorDisposition = Fatal | SkipObject

record BackendListingError =
  le_handle :: MtpObjectHandle
  le_source :: MtpError
  le_disposition :: ListingErrorDisposition

definition listing_fatal :: "MtpObjectHandle \<Rightarrow> MtpError \<Rightarrow> BackendListingError" where
  "listing_fatal handle source = \<lparr>le_handle = handle, le_source = source, le_disposition = ListingErrorDisposition.Fatal\<rparr>"

definition listing_skippable :: "MtpObjectHandle \<Rightarrow> MtpError \<Rightarrow> BackendListingError" where
  "listing_skippable handle source =
     \<lparr>le_handle = handle, le_source = source, le_disposition = ListingErrorDisposition.SkipObject\<rparr>"

text \<open>The error of an upload, with the object the device may keep.\<close>

record UploadError =
  ue_source :: MtpError
  ue_partial :: "MtpObjectHandle option"

text \<open>What a stream yields next: its end, or an item with its outcome.\<close>

datatype ('a, 'e) stream_item = Exhausted | Yielded "('a, 'e) outcome"

section \<open>Conversions at the edge\<close>

text \<open>A handle that came from the device goes back to it unchanged, and so does a date.\<close>

lemma handle_edge [simp]: "handle_to_ptp (handle_from_ptp h) = h"
  by (simp add: handle_to_ptp_def handle_from_ptp_def ucast_ucast_small)

lemma storage_edge [simp]: "storage_to_ptp (storage_from_ptp s) = s"
  by (simp add: storage_to_ptp_def storage_from_ptp_def ucast_ucast_small)

lemma handle_constants [simp]:
  "handle_to_ptp MTP_ROOT = ROOT" "handle_to_ptp MTP_ALL = ALL_OBJECTS" "storage_to_ptp MTP_ALL_STORAGES = StorageId_ALL"
  "handle_from_ptp ROOT = MTP_ROOT"
  by (simp_all add: handle_to_ptp_def handle_from_ptp_def storage_to_ptp_def MTP_ROOT_def MTP_ALL_def MTP_ALL_STORAGES_def
      ROOT_def ALL_OBJECTS_def StorageId_ALL_def)

lemma date_edge [simp]: "date_to_ptp (date_from_ptp d) = d" "date_from_ptp (date_to_ptp m) = m"
  by (simp_all add: date_to_ptp_def date_from_ptp_def)

lemma map_err_eq_Ok [simp]: "map_err f m = Ok x \<longleftrightarrow> m = Ok x"
  by (cases m) simp_all

text \<open>The folder marker is the one format with the code of a folder.\<close>

lemma is_association_from_ptp [simp]: "is_association (format_from_ptp c) \<longleftrightarrow> ObjectFormatCode_into c = 0x3001"
  by (simp add: is_association_def format_from_ptp_def FORMAT_ASSOCIATION_def)

lemma last_part_no_dot: "c \<notin> set s \<Longrightarrow> last_part c s = s"
proof -
  assume "c \<notin> set s"
  then have "takeWhile (\<lambda>x. x \<noteq> c) (rev s) = rev s" by (auto simp: takeWhile_eq_all_conv)
  then show ?thesis unfolding last_part_def by (simp only: rev_rev_ident)
qed

lemma last_part_dot: "c \<notin> set e \<Longrightarrow> last_part c (s @ c # e) = e"
  by (simp add: last_part_def takeWhile_append)

text \<open>A device that is gone, and one that is only reset, are told apart.\<close>

lemma disconnected_iff:
  "is_disconnected (Error_from e) \<longleftrightarrow>
     e = PtpError.Disconnected \<or> e = PtpError.SessionNotOpen \<or> response_code e = Some ResponseCode.SessionNotOpen
     \<or> (\<exists>kind text. e = PtpError.Usb kind text \<and> (kind = UsbKind.Disconnected \<or> kind = UsbKind.NotFound))"
proof (cases e)
  case (Usb kind detail)
  then show ?thesis by (cases kind) (simp_all add: is_disconnected_def)
next
  case (Protocol code operation)
  then show ?thesis by (cases code) (simp_all add: is_disconnected_def)
qed (simp_all add: is_disconnected_def)

end
