(* ===== verification/Mtp_Download.thy ===== *)
theory Mtp_Download
  imports Mtp_Types "HOL-Library.Sublist"
begin

text \<open>
  The backend trait of \<open>mtp/backend/mod.rs\<close> and the paced download of \<open>mtp/stream.rs\<close> over any backend. A backend is a
  record of the trait's methods, each from a state of the backend to an outcome and the next state; a download body and a
  listing are values the backend makes. Methods that may wait for ever return an option. A cancellation token is read
  when it is checked: it is a function of the state, which other tasks may have changed by then.
\<close>

section \<open>The backend trait\<close>

record Progress =
  bytes_transferred :: u64
  total_bytes :: "u64 option"

text \<open>What a progress callback answers in its \<open>i\<close>-th call: whether to break.\<close>

type_synonym progress_fn = "nat \<Rightarrow> Progress \<Rightarrow> bool"

type_synonym 's token = "('s \<Rightarrow> CancelToken) option"

definition bail :: "'s token \<Rightarrow> 's \<Rightarrow> unit res" where
  "bail cancel s = bail_if_cancelled (map_option (\<lambda>read. read s) cancel)"

record 'l BackendListing =
  bl_total :: usize
  bl_items :: 'l

record ('s, 'b, 'l) MtpBackend =
  be_device_info :: "'s \<Rightarrow> MtpDeviceIdentity"
  be_capabilities :: "'s \<Rightarrow> Capabilities"
  be_storages :: "'s \<Rightarrow> (MtpStorageInfo list mres \<times> 's) option"
  be_storage_info :: "MtpStorageId \<Rightarrow> 's \<Rightarrow> (MtpStorageInfo mres \<times> 's) option"
  be_list :: "MtpStorageId \<Rightarrow> MtpObjectHandle option \<Rightarrow> 's token \<Rightarrow> 's \<Rightarrow> ('l BackendListing mres \<times> 's) option"
  be_next_item :: "'l \<Rightarrow> 's \<Rightarrow> ((MtpObjectInfo, BackendListingError) stream_item \<times> 'l \<times> 's) option"
  be_object_info :: "MtpObjectHandle \<Rightarrow> 's \<Rightarrow> (MtpObjectInfo mres \<times> 's) option"
  be_download :: "MtpObjectHandle \<Rightarrow> ByteRange \<Rightarrow> u64 \<Rightarrow> 's \<Rightarrow> 'b mres \<times> 's"
  be_download_window :: "MtpObjectHandle \<Rightarrow> u64 \<Rightarrow> u32 \<Rightarrow> 's \<Rightarrow> 'b mres \<times> 's"
  be_next_chunk :: "'b \<Rightarrow> 's \<Rightarrow> ((bytes, MtpError) stream_item \<times> 'b \<times> 's) option"
  be_cancel :: "nat \<Rightarrow> 'b \<Rightarrow> 's \<Rightarrow> unit mres \<times> 'b \<times> 's"
  be_drop :: "'b \<Rightarrow> 's \<Rightarrow> 's"
  be_can_read_partially_at :: "u64 \<Rightarrow> 's \<Rightarrow> bool"
  be_read_range :: "MtpObjectHandle \<Rightarrow> u64 \<Rightarrow> u32 option \<Rightarrow> 's \<Rightarrow> (bytes mres \<times> 's) option"
  be_thumbnail :: "MtpObjectHandle \<Rightarrow> 's \<Rightarrow> (bytes mres \<times> 's) option"
  be_upload :: "MtpStorageId \<Rightarrow> MtpObjectHandle option \<Rightarrow> NewObjectInfo \<Rightarrow> chunk_result list \<Rightarrow> progress_fn option \<Rightarrow>
     's \<Rightarrow> (MtpObjectHandle, UploadError) outcome \<times> 's"
  be_create_folder :: "MtpStorageId \<Rightarrow> MtpObjectHandle option \<Rightarrow> rstr \<Rightarrow> 's \<Rightarrow> MtpObjectHandle mres \<times> 's"
  be_delete :: "MtpObjectHandle \<Rightarrow> 's token \<Rightarrow> 's \<Rightarrow> unit mres \<times> 's"
  be_move_object :: "MtpObjectHandle \<Rightarrow> MtpObjectHandle \<Rightarrow> MtpStorageId \<Rightarrow> 's \<Rightarrow> unit mres \<times> 's"
  be_copy_object :: "MtpObjectHandle \<Rightarrow> MtpObjectHandle \<Rightarrow> MtpStorageId \<Rightarrow> 's \<Rightarrow> (MtpObjectHandle mres \<times> 's) option"
  be_rename :: "MtpObjectHandle \<Rightarrow> rstr \<Rightarrow> 's \<Rightarrow> unit mres \<times> 's"
  be_next_event :: "'s \<Rightarrow> DeviceEvent mres \<times> 's"
  be_close :: "'s \<Rightarrow> unit mres \<times> 's"

section \<open>Pacing\<close>

text \<open>
  The pacer measures the device in \<open>f64\<close>. Its arithmetic is a parameter, and no result depends on it. Durations
  the clock measures are nanoseconds; idle timeouts are milliseconds, as in the session. The surroundings of a download also hold the clock and what other tasks do when the download yields to them.
\<close>

record 'f f64_ops =
  f_of_u64 :: "u64 \<Rightarrow> 'f"
  f_of_duration :: "nat \<Rightarrow> 'f"
  f_to_u64 :: "'f \<Rightarrow> u64"
  f_add :: "'f \<Rightarrow> 'f \<Rightarrow> 'f"
  f_mul :: "'f \<Rightarrow> 'f \<Rightarrow> 'f"
  f_div :: "'f \<Rightarrow> 'f \<Rightarrow> 'f"
  f_one :: 'f
  f_two :: 'f
  f_hundred :: 'f

record ('s, 'f) surroundings =
  floats :: "'f f64_ops"
  clock :: "'s \<Rightarrow> nat"
  other_tasks :: "'s \<Rightarrow> 's"

definition fraction :: "'f f64_ops \<Rightarrow> Progress \<Rightarrow> 'f" where
  "fraction fl p =
     (case total_bytes p of
        None \<Rightarrow> f_one fl
      | Some n \<Rightarrow> if n = 0 then f_one fl else f_div fl (f_of_u64 fl (bytes_transferred p)) (f_of_u64 fl n))"

definition percent :: "'f f64_ops \<Rightarrow> Progress \<Rightarrow> 'f" where
  "percent fl p = f_mul fl (fraction fl p) (f_hundred fl)"

definition DEFAULT_CANCEL_TIMEOUT :: nat where
  "DEFAULT_CANCEL_TIMEOUT = 300"

definition DEFAULT_MAX_CANCEL_DELAY :: nat where
  "DEFAULT_MAX_CANCEL_DELAY = 2 * 1000000000"

definition MIB :: u64 where
  "MIB = 1024 * 1024"

definition FIRST_WINDOW :: u64 where
  "FIRST_WINDOW = 8 * MIB"

definition MIN_WINDOW :: u64 where
  "MIN_WINDOW = MIB"

datatype DownloadPacing = HeldOpen | MaxCancelDelay nat | FixedWindow u32

definition DownloadPacing_default :: DownloadPacing where
  "DownloadPacing_default = DownloadPacing.MaxCancelDelay DEFAULT_MAX_CANCEL_DELAY"

record 'f Pacer =
  pacing :: DownloadPacing
  rate :: "'f option"

definition Pacer_new :: "DownloadPacing \<Rightarrow> 'f Pacer" where
  "Pacer_new pc = \<lparr>pacing = pc, rate = None\<rparr>"

definition held_open :: "'f Pacer \<Rightarrow> bool" where
  "held_open p \<longleftrightarrow> pacing p = DownloadPacing.HeldOpen"

definition next_window :: "'f f64_ops \<Rightarrow> 'f Pacer \<Rightarrow> u64 \<Rightarrow> u32" where
  "next_window fl p remaining =
     (let want =
        (case pacing p of
           DownloadPacing.FixedWindow n \<Rightarrow> ucast (max n 1)
         | DownloadPacing.MaxCancelDelay target \<Rightarrow>
             (case rate p of
                None \<Rightarrow> FIRST_WINDOW
              | Some r \<Rightarrow>
                  let n = f_to_u64 fl (f_mul fl r (f_of_duration fl target)) in
                  max (n div MIB * MIB) MIN_WINDOW)
         | DownloadPacing.HeldOpen \<Rightarrow> remaining);
       n = min want remaining
     in if n \<le> 0xFFFFFFFF then ucast n else 0xFFFFFFFF)"

definition record_window :: "'f f64_ops \<Rightarrow> u64 \<Rightarrow> nat \<Rightarrow> 'f Pacer \<Rightarrow> 'f Pacer" where
  "record_window fl n device_time p =
     (if n = 0 \<or> device_time = 0 then p
      else
        let r = f_div fl (f_of_u64 fl n) (f_of_duration fl device_time) in
        p\<lparr>rate := Some (case rate p of None \<Rightarrow> r | Some old \<Rightarrow> f_div fl (f_add fl old r) (f_two fl))\<rparr>)"

section \<open>A download in progress\<close>

record 'b ActiveRead =
  ar_body :: 'b
  ar_held_open :: bool
  ar_requested :: u64
  ar_received :: u64
  ar_device_time :: nat

record ('b, 'f) FileDownload =
  fd_handle :: MtpObjectHandle
  fd_size :: u64
  fd_start :: u64
  fd_end :: u64
  fd_offset :: u64
  fd_modified :: "MtpDateTime option"
  fd_created :: "MtpDateTime option"
  fd_pacer :: "'f Pacer"
  fd_current :: "'b ActiveRead option"
  fd_started :: bool
  fd_done :: bool

text \<open>The last lines of \<open>start_next_read\<close>: the body the backend returned becomes the current read.\<close>

definition begin_read ::
  "('s, 'f) surroundings \<Rightarrow> bool \<Rightarrow> u64 \<Rightarrow> nat \<Rightarrow> ('b, 'f) FileDownload \<Rightarrow> 'b mres \<times> 's \<Rightarrow> unit mres \<times> ('b, 'f) FileDownload \<times> 's" where
  "begin_read env ho requested waited d = (\<lambda>(r, s).
     (map_ok (\<lambda>_. ()) r,
      (case r of
         Ok body \<Rightarrow> d\<lparr>fd_current := Some \<lparr>ar_body = body, ar_held_open = ho, ar_requested = requested, ar_received = 0,
             ar_device_time = clock env s - waited\<rparr>, fd_started := True\<rparr>
       | _ \<Rightarrow> d),
      s))"

definition start_next_read ::
  "('s, 'b, 'l) MtpBackend \<Rightarrow> ('s, 'f) surroundings \<Rightarrow> ('b, 'f) FileDownload \<Rightarrow> 's \<Rightarrow> unit mres \<times> ('b, 'f) FileDownload \<times> 's" where
  "start_next_read be env d s =
     (let remaining = fd_end d - fd_offset d;
          windowed = (\<not> held_open (fd_pacer d) \<and> be_can_read_partially_at be (fd_offset d) s);
          waited = clock env s
      in
      if windowed
      then
        let s = (if fd_started d then other_tasks env s else s);
            len = next_window (floats env) (fd_pacer d) remaining
        in begin_read env False (ucast len) waited d (be_download_window be (fd_handle d) (fd_offset d) len s)
      else
        let rng = (if fd_offset d = 0 \<and> fd_end d = fd_size d then ByteRange.Full
                     else ByteRange.Range (fd_offset d) remaining)
        in begin_read env True remaining waited d (be_download be (fd_handle d) rng (fd_size d) s))"

definition saturating_add :: "u64 \<Rightarrow> u64 \<Rightarrow> u64" where
  "saturating_add a b = (if a + b < a then - 1 else a + b)"

definition download_start ::
  "('s, 'b, 'l) MtpBackend \<Rightarrow> ('s, 'f) surroundings \<Rightarrow> MtpObjectHandle \<Rightarrow> MtpObjectInfo \<Rightarrow> ByteRange \<Rightarrow> DownloadPacing \<Rightarrow> 's \<Rightarrow>
     ('b, 'f) FileDownload mres \<times> 's" where
  "download_start be env handle info rng pc s =
     (let n = mo_size info; start = range_offset rng in
      if n < start
      then (Err (mtp_invalid_data ''download offset {start} is past the object size {size}'' [unat start, unat n]), s)
      else
        let end = (case rng of ByteRange.Range offset len \<Rightarrow> min (saturating_add start len) n | _ \<Rightarrow> n);
            d = \<lparr>fd_handle = handle, fd_size = n, fd_start = start, fd_end = end, fd_offset = start,
                 fd_modified = mo_modified info, fd_created = mo_created info, fd_pacer = Pacer_new pc,
                 fd_current = None, fd_started = False, fd_done = False\<rparr>;
            whole_file = (start = 0 \<and> end = n);
            d = (if whole_file \<and> 0 < end \<and> \<not> be_can_read_partially_at be (end - 1) s
                 then d\<lparr>fd_pacer := Pacer_new DownloadPacing.HeldOpen\<rparr> else d);
            ho = (held_open (fd_pacer d) \<or> \<not> be_can_read_partially_at be start s)
        in
        if ho \<and> start < end
        then (case start_next_read be env d s of (r, d, s) \<Rightarrow> (map_ok (\<lambda>_. d) r, s))
        else (Ok d, s))"

definition bytes_received :: "('b, 'f) FileDownload \<Rightarrow> u64" where
  "bytes_received d = fd_offset d - fd_start d"

definition download_progress :: "'f f64_ops \<Rightarrow> ('b, 'f) FileDownload \<Rightarrow> 'f" where
  "download_progress fl d =
     (if fd_size d = 0 then f_one fl else f_div fl (f_of_u64 fl (fd_offset d)) (f_of_u64 fl (fd_size d)))"

definition holds_session :: "('b, 'f) FileDownload \<Rightarrow> bool" where
  "holds_session d \<longleftrightarrow> fd_current d \<noteq> None"

text \<open>Dropping the read in flight runs the destructor of its body.\<close>

definition drop_current :: "('s, 'b, 'l) MtpBackend \<Rightarrow> ('b, 'f) FileDownload \<Rightarrow> 's \<Rightarrow> 's" where
  "drop_current be d s = (case fd_current d of Some read \<Rightarrow> be_drop be (ar_body read) s | None \<Rightarrow> s)"

definition fail ::
  "('s, 'b, 'l) MtpBackend \<Rightarrow> MtpError \<Rightarrow> ('b, 'f) FileDownload \<Rightarrow> 's \<Rightarrow> (bytes, MtpError) stream_item \<times> ('b, 'f) FileDownload \<times> 's" where
  "fail be e d s = (Yielded (Err e), d\<lparr>fd_current := None, fd_done := True\<rparr>, drop_current be d s)"

definition download_cancel ::
  "('s, 'b, 'l) MtpBackend \<Rightarrow> nat \<Rightarrow> ('b, 'f) FileDownload \<Rightarrow> 's \<Rightarrow> unit mres \<times> ('b, 'f) FileDownload \<times> 's" where
  "download_cancel be idle_timeout d s =
     (let d' = d\<lparr>fd_done := True, fd_current := None\<rparr> in
      case fd_current d of
        Some read \<Rightarrow> (case be_cancel be idle_timeout (ar_body read) s of (r, body, s) \<Rightarrow> (r, d', be_drop be body s))
      | None \<Rightarrow> (Ok (), d', s))"

text \<open>A window whose bytes have all arrived: its next item has to be the end.\<close>

definition close_full_window ::
  "('s, 'b, 'l) MtpBackend \<Rightarrow> ('s, 'f) surroundings \<Rightarrow> 'b ActiveRead \<Rightarrow> ('b, 'f) FileDownload \<Rightarrow> 's \<Rightarrow>
     (unit mres \<times> ('b, 'f) FileDownload \<times> 's) option" where
  "close_full_window be env read d s =
     (let d = d\<lparr>fd_current := None\<rparr>; waited = clock env s in
      map_option (\<lambda>(item, body, s).
        let device_time = ar_device_time read + (clock env s - waited); s' = be_drop be body s in
        case item of
          Exhausted \<Rightarrow> (Ok (), d\<lparr>fd_pacer := record_window (floats env) (ar_received read) device_time (fd_pacer d)\<rparr>, s')
        | Yielded (Ok extra) \<Rightarrow>
            (Err (mtp_invalid_data ''device sent {} bytes more than the {} asked for at offset {}''
               [length extra, unat (ar_requested read), unat (fd_offset d - ar_received read)]), d, s')
        | Yielded (Err e) \<Rightarrow> (Err e, d, s')
        | Yielded Panic \<Rightarrow> (Panic, d, s')
        | Yielded Dropped \<Rightarrow> (Dropped, d, s'))
      (be_next_chunk be (ar_body read) s))"

text \<open>A chunk has arrived.\<close>

definition take_chunk ::
  "('s, 'b, 'l) MtpBackend \<Rightarrow> ('s, 'f) surroundings \<Rightarrow> bytes \<Rightarrow> 'b ActiveRead \<Rightarrow> ('b, 'f) FileDownload \<Rightarrow> 's \<Rightarrow>
     ((bytes, MtpError) stream_item \<times> ('b, 'f) FileDownload \<times> 's) option" where
  "take_chunk be env chunk read d s =
     (let read = read\<lparr>ar_received := ar_received read + word_of_nat (length chunk)\<rparr>;
          d = d\<lparr>fd_offset := fd_offset d + word_of_nat (length chunk), fd_current := Some read\<rparr>
      in
      if \<not> ar_held_open read \<and> ar_requested read < ar_received read
      then Some (fail be (mtp_invalid_data ''device sent {received} bytes for a {requested}-byte read at offset {read_start}''
          [unat (ar_received read), unat (ar_requested read), unat (fd_offset d - ar_received read)]) d s)
      else if \<not> ar_held_open read \<and> ar_received read = ar_requested read
      then
        map_option (\<lambda>(r, d, s).
          case r of
            Ok _ \<Rightarrow> (Yielded (Ok chunk), d, s)
          | Err e \<Rightarrow> fail be e d s
          | Panic \<Rightarrow> (Yielded Panic, d, s)
          | Dropped \<Rightarrow> (Yielded Dropped, d, s))
        (close_full_window be env read d s)
      else Some (Yielded (Ok chunk), d, s))"

text \<open>The loop. A backend call that does not return, or reads that go on ending without data, would keep it running.\<close>

partial_function (option) next_chunk_loop ::
  "('s, 'b, 'l) MtpBackend \<Rightarrow> ('s, 'f) surroundings \<Rightarrow> ('b, 'f) FileDownload \<Rightarrow> 's \<Rightarrow>
     ((bytes, MtpError) stream_item \<times> ('b, 'f) FileDownload \<times> 's) option" where
  "next_chunk_loop be env d s =
     (case fd_current d of
        Some read \<Rightarrow>
          Option.bind (be_next_chunk be (ar_body read) s) (\<lambda>(item, body, s').
            let read = read\<lparr>ar_body := body, ar_device_time := ar_device_time read + (clock env s' - clock env s)\<rparr> in
            case item of
              Yielded r \<Rightarrow>
                (case r of
                   Ok chunk \<Rightarrow> take_chunk be env chunk read d s'
                 | Err e \<Rightarrow> Some (fail be e (d\<lparr>fd_current := Some read\<rparr>) s')
                 | Panic \<Rightarrow> Some (Yielded Panic, d\<lparr>fd_current := Some read\<rparr>, s')
                 | Dropped \<Rightarrow> Some (Yielded Dropped, d\<lparr>fd_current := Some read\<rparr>, s'))
            | Exhausted \<Rightarrow>
                let d = d\<lparr>fd_current := None\<rparr>; s = be_drop be body s' in
                if ar_received read = 0 \<and> fd_offset d < fd_end d
                then Some (fail be (mtp_invalid_data
                  ''device returned no data at offset {} of {} (expected up to {}); treating it as a stall, not the end of the file''
                  [unat (fd_offset d), unat (fd_size d), unat (ar_requested read)]) d s)
                else
                  let d = (if \<not> ar_held_open read
                           then d\<lparr>fd_pacer := record_window (floats env) (ar_received read) (ar_device_time read) (fd_pacer d)\<rparr>
                           else d)
                  in next_chunk_loop be env d s)
      | None \<Rightarrow>
          if fd_end d \<le> fd_offset d then Some (Exhausted, d\<lparr>fd_done := True\<rparr>, s)
          else
            (case start_next_read be env d s of
               (r, d, s) \<Rightarrow>
                 (case r of
                    Ok _ \<Rightarrow> next_chunk_loop be env d s
                  | Err e \<Rightarrow> Some (fail be e d s)
                  | Panic \<Rightarrow> Some (Yielded Panic, d, s)
                  | Dropped \<Rightarrow> Some (Yielded Dropped, d, s))))"

definition download_next_chunk ::
  "('s, 'b, 'l) MtpBackend \<Rightarrow> ('s, 'f) surroundings \<Rightarrow> ('b, 'f) FileDownload \<Rightarrow> 's \<Rightarrow>
     ((bytes, MtpError) stream_item \<times> ('b, 'f) FileDownload \<times> 's) option" where
  "download_next_chunk be env d s = (if fd_done d then Some (Exhausted, d, s) else next_chunk_loop be env d s)"

text \<open>\<open>Vec::with_capacity\<close> panics on a capacity above \<open>isize::MAX\<close> bytes.\<close>

definition with_capacity :: "u64 \<Rightarrow> (bytes, 'e) outcome" where
  "with_capacity n = (if unat n < 2 ^ 63 then Ok [] else Panic)"

partial_function (option) collect_download ::
  "('s, 'b, 'l) MtpBackend \<Rightarrow> ('s, 'f) surroundings \<Rightarrow> bytes \<Rightarrow> ('b, 'f) FileDownload \<Rightarrow> 's \<Rightarrow> (bytes mres \<times> 's) option" where
  "collect_download be env data d s =
     Option.bind (download_next_chunk be env d s) (\<lambda>(item, d, s).
       case item of
         Exhausted \<Rightarrow> Some (Ok data, drop_current be d s)
       | Yielded r \<Rightarrow>
           (case r of
              Ok chunk \<Rightarrow> collect_download be env (data @ chunk) d s
            | Err e \<Rightarrow> Some (Err e, drop_current be d s)
            | Panic \<Rightarrow> Some (Panic, drop_current be d s)
            | Dropped \<Rightarrow> Some (Dropped, drop_current be d s)))"

definition download_collect ::
  "('s, 'b, 'l) MtpBackend \<Rightarrow> ('s, 'f) surroundings \<Rightarrow> ('b, 'f) FileDownload \<Rightarrow> 's \<Rightarrow> (bytes mres \<times> 's) option" where
  "download_collect be env d s =
     seq_opt (with_capacity (fd_end d - fd_offset d), s) (\<lambda>data s. collect_download be env data d s)"

partial_function (option) collect_reporting ::
  "('s, 'b, 'l) MtpBackend \<Rightarrow> ('s, 'f) surroundings \<Rightarrow> progress_fn \<Rightarrow> nat \<Rightarrow> bytes \<Rightarrow> ('b, 'f) FileDownload \<Rightarrow> 's \<Rightarrow>
     (bytes mres \<times> 's) option" where
  "collect_reporting be env on_progress i data d s =
     Option.bind (download_next_chunk be env d s) (\<lambda>(item, d, s).
       case item of
         Exhausted \<Rightarrow> Some (Ok data, drop_current be d s)
       | Yielded r \<Rightarrow>
           (case r of
              Ok chunk \<Rightarrow>
                if on_progress i \<lparr>bytes_transferred = bytes_received d, total_bytes = Some (fd_end d - fd_start d)\<rparr>
                then
                  (case download_cancel be DEFAULT_CANCEL_TIMEOUT d s of
                     (r, d, s) \<Rightarrow> Some (bind_ok r (\<lambda>_. Err MtpError.Cancelled), drop_current be d s))
                else collect_reporting be env on_progress (i + 1) (data @ chunk) d s
            | Err e \<Rightarrow> Some (Err e, drop_current be d s)
            | Panic \<Rightarrow> Some (Panic, drop_current be d s)
            | Dropped \<Rightarrow> Some (Dropped, drop_current be d s)))"

definition collect_with_progress ::
  "('s, 'b, 'l) MtpBackend \<Rightarrow> ('s, 'f) surroundings \<Rightarrow> progress_fn \<Rightarrow> ('b, 'f) FileDownload \<Rightarrow> 's \<Rightarrow> (bytes mres \<times> 's) option" where
  "collect_with_progress be env on_progress d s =
     seq_opt (with_capacity (fd_end d - fd_offset d), s) (\<lambda>data s. collect_reporting be env on_progress 0 data d s)"

section \<open>Windows\<close>

text \<open>A window is never empty while bytes remain, and never larger than what remains.\<close>

lemma unat_add_len: "unat w + n < 2 ^ LENGTH('a) \<Longrightarrow> unat (w + word_of_nat n :: 'a::len word) = unat w + n"
  by (simp add: unat_word_ariths unat_of_nat)

lemma next_window_le: "next_window fl p remaining \<noteq> 0 \<longleftrightarrow> 0 < remaining" (is ?pos)
  and next_window_remaining: "unat (next_window fl p remaining) \<le> unat remaining" (is ?le)
proof -
  obtain want :: u64 where want: "0 < want \<or> want = remaining"
    "next_window fl p remaining = (let n = min want remaining in if n \<le> 0xFFFFFFFF then ucast n else 0xFFFFFFFF)"
  proof -
    let ?want = "case pacing p of
           DownloadPacing.FixedWindow n \<Rightarrow> ucast (max n 1)
         | DownloadPacing.MaxCancelDelay target \<Rightarrow>
             (case rate p of
                None \<Rightarrow> FIRST_WINDOW
              | Some r \<Rightarrow>
                  let n = f_to_u64 fl (f_mul fl r (f_of_duration fl target)) in
                  max (n div MIB * MIB) MIN_WINDOW)
         | DownloadPacing.HeldOpen \<Rightarrow> remaining"
    have "(0::u64) < ucast (max n 1 :: u32)" for n
    proof -
      have "(0::u32) < max n 1" by (simp add: less_max_iff_disj)
      moreover have "unat (ucast (max n 1) :: u64) = unat (max n 1)"
        by (rule unat_ucast_up) (use unat_less [of "max n 1"] in simp)
      ultimately show ?thesis by (simp only: word_less_nat_alt unat_0)
    qed
    moreover have "0 < max n MIN_WINDOW" for n
      by (simp add: MIN_WINDOW_def MIB_def less_max_iff_disj)
    moreover have "(0::u64) < FIRST_WINDOW" by (simp add: FIRST_WINDOW_def MIB_def)
    ultimately have "0 < ?want \<or> ?want = remaining"
      by (simp add: Let_def split: DownloadPacing.split option.split)
    then show thesis by (rule that) (simp only: next_window_def Let_def)
  qed
  define n where "n = min want remaining"
  have r: "next_window fl p remaining = (if n \<le> 0xFFFFFFFF then ucast n else 0xFFFFFFFF)"
    by (simp add: want(2) n_def Let_def)
  have up: "unat (ucast n :: u32) = unat n" if "n \<le> 0xFFFFFFFF"
    using that by (intro unat_ucast_up) (simp add: word_le_nat_alt)
  have le: "unat n \<le> unat remaining" by (simp add: n_def min_def word_le_nat_alt)
  have pos: "unat n \<noteq> 0 \<longleftrightarrow> unat remaining \<noteq> 0"
    using want(1) by (auto simp: n_def min_def word_le_nat_alt word_less_nat_alt)
  have "?pos \<and> ?le"
  proof (cases "n \<le> 0xFFFFFFFF")
    case True
    then have u: "unat (next_window fl p remaining) = unat n" by (simp only: r up if_True)
    then have "next_window fl p remaining \<noteq> 0 \<longleftrightarrow> unat n \<noteq> 0" by (metis unat_0 word_unat_eq_iff)
    with u le pos show ?thesis by (simp add: word_less_nat_alt)
  next
    case False
    then have "0xFFFFFFFF < unat n" by (simp add: word_le_nat_alt)
    with False le pos show ?thesis by (simp add: r word_less_nat_alt)
  qed
  then show ?pos ?le by simp_all
qed

section \<open>Downloads of a file a backend serves\<close>

text \<open>A body that yields these chunks, none of them empty, and then ends; the state is the one after it is dropped.\<close>

inductive delivers :: "('s, 'b, 'l) MtpBackend \<Rightarrow> 'b \<Rightarrow> 's \<Rightarrow> bytes list \<Rightarrow> 's \<Rightarrow> bool" for be where
  over: "be_next_chunk be b s = Some (Exhausted, b', s') \<Longrightarrow> delivers be b s [] (be_drop be b' s')"
| chunk: "be_next_chunk be b s = Some (Yielded (Ok c), b', s') \<Longrightarrow> c \<noteq> [] \<Longrightarrow> delivers be b' s' cs s'' \<Longrightarrow>
    delivers be b s (c # cs) s''"

inductive_cases delivers_NilE: "delivers be b s [] s'"
inductive_cases delivers_ConsE: "delivers be b s (c # cs) s'"

text \<open>
  What a download needs of a backend that reads the file \<open>content\<close> under a handle: a read that can be started
  yields at least one of the bytes it was asked for, and no byte that is not at its place.
\<close>

definition reads :: "('s, 'b, 'l) MtpBackend \<Rightarrow> ('s \<Rightarrow> bool) \<Rightarrow> 'b mres \<times> 's \<Rightarrow> bytes \<Rightarrow> bytes \<Rightarrow> bool" where
  "reads be usable m got want \<longleftrightarrow>
     (\<exists>b s cs s'. m = (Ok b, s) \<and> delivers be b s cs s' \<and> usable s' \<and> concat cs = got \<and> got \<noteq> [] \<and> prefix got want)"

locale file_reads =
  fixes be :: "('s, 'b, 'l) MtpBackend"
    and env :: "('s, 'f) surroundings"
    and handle :: MtpObjectHandle
    and content :: bytes
    and seekable :: "u64 \<Rightarrow> bool"
    and usable :: "'s \<Rightarrow> bool"
  assumes fits: "usable s \<Longrightarrow> length content < 2 ^ 64"
    and yields: "usable s \<Longrightarrow> usable (other_tasks env s)"
    and seek: "usable s \<Longrightarrow> be_can_read_partially_at be off s \<longleftrightarrow> seekable off"
    and seek_down: "seekable off \<Longrightarrow> off' \<le> off \<Longrightarrow> seekable off'"
    and window: "usable s \<Longrightarrow> seekable off \<Longrightarrow> k \<noteq> 0 \<Longrightarrow> unat off + unat k \<le> length content \<Longrightarrow>
      \<exists>got. reads be usable (be_download_window be handle off k s) got (take (unat k) (drop (unat off) content))"
    and rest: "usable s \<Longrightarrow> seekable off \<Longrightarrow> n \<noteq> 0 \<Longrightarrow> unat off + unat n \<le> length content \<Longrightarrow>
      \<exists>got. reads be usable (be_download be handle (ByteRange.Range off n) (word_of_nat (length content)) s)
        got (take (unat n) (drop (unat off) content))"
    and whole: "usable s \<Longrightarrow> content \<noteq> [] \<Longrightarrow>
      reads be usable (be_download be handle ByteRange.Full (word_of_nat (length content)) s) content content"
begin

text \<open>A download of the file that has not failed, and what it still has to yield.\<close>

definition on_course :: "('b, 'f) FileDownload \<Rightarrow> bool" where
  "on_course d \<longleftrightarrow> fd_handle d = handle \<and> fd_size d = word_of_nat (length content) \<and> \<not> fd_done d
     \<and> fd_offset d \<le> fd_end d \<and> unat (fd_end d) \<le> length content"

definition to_come :: "('b, 'f) FileDownload \<Rightarrow> bytes" where
  "to_come d = take (unat (fd_end d) - unat (fd_offset d)) (drop (unat (fd_offset d)) content)"

definition between :: "('b, 'f) FileDownload \<Rightarrow> 's \<Rightarrow> bool" where
  "between d s \<longleftrightarrow> on_course d \<and> fd_current d = None \<and> usable s
     \<and> (to_come d = [] \<or> seekable (fd_end d - 1)
        \<or> held_open (fd_pacer d) \<and> fd_offset d = 0 \<and> fd_end d = fd_size d)"

definition reading :: "('b, 'f) FileDownload \<Rightarrow> 's \<Rightarrow> bytes list \<Rightarrow> 's \<Rightarrow> bool" where
  "reading d s cs s' \<longleftrightarrow> on_course d \<and> (\<exists>read. fd_current d = Some read \<and> delivers be (ar_body read) s cs s' \<and> usable s'
     \<and> prefix (concat cs) (to_come d) \<and> (cs = [] \<longrightarrow> ar_received read \<noteq> 0)
     \<and> unat (ar_received read) + length (concat cs) \<le> length content
     \<and> (\<not> ar_held_open read \<longrightarrow> unat (ar_received read) + length (concat cs) \<le> unat (ar_requested read))
     \<and> (concat cs = to_come d \<or> seekable (fd_end d - 1)))"

lemma length_to_come: "on_course d \<Longrightarrow> length (to_come d) = unat (fd_end d) - unat (fd_offset d)"
  by (auto simp: on_course_def to_come_def word_le_nat_alt)

lemma to_come_Nil: "on_course d \<Longrightarrow> to_come d = [] \<longleftrightarrow> fd_end d \<le> fd_offset d"
  using length_to_come [of d] by (auto simp: word_le_nat_alt)

lemma unat_remaining: "on_course d \<Longrightarrow> unat (fd_end d - fd_offset d) = unat (fd_end d) - unat (fd_offset d)"
  by (simp add: on_course_def unat_sub)

lemma seekable_here:
  assumes "on_course d" "to_come d \<noteq> []" "seekable (fd_end d - 1)"
  shows "seekable (fd_offset d)"
proof (rule seek_down [OF assms(3)])
  have "fd_offset d < fd_end d" using to_come_Nil [OF assms(1)] assms(2) by simp
  moreover from this have "unat (fd_end d - 1) = unat (fd_end d) - 1" by (intro unat_minus_one) auto
  ultimately show "fd_offset d \<le> fd_end d - 1" by (simp add: word_le_nat_alt word_less_nat_alt)
qed


text \<open>Starting a read between two reads.\<close>

lemma read_in_flight:
  assumes "on_course d" "to_come d \<noteq> []" "reads be usable m got want" "prefix want (to_come d)"
    and "length got \<le> length content" "\<not> ho \<longrightarrow> length want \<le> unat requested"
    and "want = to_come d \<and> got = want \<or> seekable (fd_end d - 1)"
  shows "\<exists>d' s c cs s'. begin_read env ho requested waited d m = (Ok (), d', s) \<and> reading d' s (c # cs) s' \<and> to_come d' = to_come d
    \<and> fd_end d' = fd_end d \<and> fd_start d' = fd_start d"
proof -
  from assms(3) obtain b s cs s' where m: "m = (Ok b, s)" "delivers be b s cs s'" "usable s'" "concat cs = got" "got \<noteq> []" "prefix got want"
    by (auto simp: reads_def)
  then obtain c cs' where cs: "cs = c # cs'" by (cases cs) auto
  let ?d = "d\<lparr>fd_current := Some \<lparr>ar_body = b, ar_held_open = ho, ar_requested = requested, ar_received = 0,
             ar_device_time = clock env s - waited\<rparr>, fd_started := True\<rparr>"
  have same: "to_come ?d = to_come d" "on_course ?d" using assms(1) by (simp_all add: to_come_def on_course_def)
  have "length got \<le> length want" using m(6) by (rule prefix_length_le)
  then have "reading ?d s (c # cs') s'"
    using same m assms(4-7) prefix_order.trans [OF m(6) assms(4)] by (auto simp: reading_def cs)
  with same m(1) show ?thesis by (auto simp: begin_read_def)
qed

lemma start_between:
  assumes "between d s" "to_come d \<noteq> []"
  shows "\<exists>d' s1 c cs s'. start_next_read be env d s = (Ok (), d', s1) \<and> reading d' s1 (c # cs) s' \<and> to_come d' = to_come d
    \<and> fd_end d' = fd_end d \<and> fd_start d' = fd_start d"
proof -
  let ?remaining = "fd_end d - fd_offset d"
  let ?s = "if fd_started d then other_tasks env s else s"
  have d: "on_course d" "usable s" "usable ?s" and handle: "fd_handle d = handle" "fd_size d = word_of_nat (length content)"
    and inside: "unat (fd_offset d) + unat ?remaining \<le> length content" and rem: "?remaining \<noteq> 0"
    using assms yields unat_remaining [of d] to_come_Nil [of d] by (auto simp: between_def on_course_def word_le_nat_alt)
  have len: "length (to_come d) = unat ?remaining" "to_come d = take (unat ?remaining) (drop (unat (fd_offset d)) content)"
    using length_to_come [OF d(1)] unat_remaining [OF d(1)] by (simp_all add: to_come_def)
  show ?thesis
  proof (cases "\<not> held_open (fd_pacer d) \<and> be_can_read_partially_at be (fd_offset d) s")
    case True
    let ?n = "next_window (floats env) (fd_pacer d) ?remaining"
    have n: "?n \<noteq> 0" "unat ?n \<le> unat ?remaining"
      using rem next_window_le [of "floats env" "fd_pacer d" ?remaining] next_window_remaining [of "floats env" "fd_pacer d" ?remaining]
      by (simp_all add: word_gt_0)
    have seekable: "seekable (fd_offset d)" "seekable (fd_end d - 1)" using True seek [OF d(2)] assms by (auto simp: between_def)
    from window [OF d(3) seekable(1) n(1)] n(2) inside obtain got where
      got: "reads be usable (be_download_window be handle (fd_offset d) ?n ?s) got (take (unat ?n) (drop (unat (fd_offset d)) content))"
      (is "reads be usable ?m got ?want") by auto
    have "?want = take (unat ?n) (to_come d)" using n(2) by (simp add: len(2) min_absorb1)
    then have "length ?want \<le> unat ?n" "prefix ?want (to_come d)" by (simp_all add: take_is_prefix)
    moreover have "length got \<le> length content"
      using got by (auto simp: reads_def dest!: prefix_length_le)
    moreover have "unat (ucast ?n :: u64) = unat ?n" by (rule unat_ucast_up) (use unat_less [of ?n] in simp)
    ultimately show ?thesis
      using read_in_flight [OF d(1) assms(2) got, of False "ucast ?n" "clock env s"] seekable(2) True
      by (simp add: start_next_read_def Let_def handle)
  next
    case False
    show ?thesis
    proof (cases "fd_offset d = 0 \<and> fd_end d = fd_size d")
      case True
      have size: "unat (fd_size d) = length content" using handle(2) fits [OF d(2)] by (simp add: unat_of_nat)
      have all: "to_come d = content" using len(2) unat_remaining [OF d(1)] True size by simp
      have "content \<noteq> []" using assms(2) all by simp
      note read_in_flight [OF d(1) assms(2) whole [OF d(2) this], of True ?remaining "clock env s"]
      then have "\<exists>d' s1 c cs s'. begin_read env True ?remaining (clock env s) d (be_download be handle ByteRange.Full (fd_size d) s) = (Ok (), d', s1)
          \<and> reading d' s1 (c # cs) s' \<and> to_come d' = to_come d \<and> fd_end d' = fd_end d \<and> fd_start d' = fd_start d"
        using all by (simp add: handle)
      then show ?thesis unfolding start_next_read_def Let_def if_not_P [OF False] if_P [OF True] handle(1) .
    next
      case no: False
      have seekable: "seekable (fd_end d - 1)" using no assms by (auto simp: between_def)
      from rest [OF d(2) seekable_here [OF d(1) assms(2) seekable] rem inside] obtain got where
        got: "reads be usable (be_download be handle (ByteRange.Range (fd_offset d) ?remaining) (fd_size d) s) got (to_come d)"
        by (auto simp: len(2) handle)
      then have "length got \<le> length content"
        by (auto simp: reads_def to_come_def dest!: prefix_length_le)
      with read_in_flight [OF d(1) assms(2) got, of True ?remaining "clock env s"] seekable False no show ?thesis
        by (auto simp: start_next_read_def Let_def handle)
    qed
  qed
qed

end

section \<open>One step of a download\<close>

lemma delivers_empty: "delivers be b s cs s' \<Longrightarrow> concat cs = [] \<Longrightarrow> cs = []"
  by (induction rule: delivers.induct) auto

context file_reads
begin

definition live :: "('b, 'f) FileDownload \<Rightarrow> 's \<Rightarrow> bool" where
  "live d s \<longleftrightarrow> between d s \<or> (\<exists>cs s'. reading d s cs s')"

lemma on_course_advance:
  assumes "on_course d" "to_come d = c @ rest"
  shows "on_course (d\<lparr>fd_offset := fd_offset d + word_of_nat (length c)\<rparr>)"
    "to_come (d\<lparr>fd_offset := fd_offset d + word_of_nat (length c)\<rparr>) = rest"
proof -
  have len: "unat (fd_offset d) + length c \<le> unat (fd_end d)" "unat (fd_offset d) \<le> unat (fd_end d)"
    using length_to_come [OF assms(1)] assms by (auto simp: on_course_def word_le_nat_alt)
  then have off: "unat (fd_offset d + word_of_nat (length c)) = unat (fd_offset d) + length c"
    using unat_less [of "fd_end d"] by (intro unat_add_len) simp
  with assms(1) len show "on_course (d\<lparr>fd_offset := fd_offset d + word_of_nat (length c)\<rparr>)"
    by (simp add: on_course_def word_le_nat_alt)
  have "rest = drop (length c) (to_come d)" by (simp add: assms(2))
  also have "\<dots> = take (unat (fd_end d) - (unat (fd_offset d) + length c)) (drop (unat (fd_offset d) + length c) content)"
    by (simp add: to_come_def drop_take add.commute diff_diff_left)
  finally show "to_come (d\<lparr>fd_offset := fd_offset d + word_of_nat (length c)\<rparr>) = rest"
    by (simp add: to_come_def off)
qed

lemma chunk_step:
  assumes "reading d s (c # cs) s'"
  shows "\<exists>d' s1. next_chunk_loop be env d s = Some (Yielded (Ok c), d', s1) \<and> to_come d = c @ to_come d' \<and> c \<noteq> []
    \<and> live d' s1"
proof -
  from assms obtain read where d: "on_course d" "fd_current d = Some read" "delivers be (ar_body read) s (c # cs) s'" "usable s'"
    "prefix (c @ concat cs) (to_come d)" "unat (ar_received read) + length (c @ concat cs) \<le> length content"
    "\<not> ar_held_open read \<Longrightarrow> unat (ar_received read) + length (c @ concat cs) \<le> unat (ar_requested read)"
    "c @ concat cs = to_come d \<or> seekable (fd_end d - 1)"
    by (auto simp: reading_def)
  from d(3) obtain b' s1 where b: "be_next_chunk be (ar_body read) s = Some (Yielded (Ok c), b', s1)" "c \<noteq> []" "delivers be b' s1 cs s'"
    by (rule delivers_ConsE)
  obtain tail where tail: "to_come d = c @ tail" "prefix (concat cs) tail"
    using d(5) by (auto simp: prefix_def)
  let ?read = "read\<lparr>ar_body := b', ar_device_time := ar_device_time read + (clock env s1 - clock env s),
      ar_received := ar_received read + word_of_nat (length c)\<rparr>"
  let ?d = "d\<lparr>fd_offset := fd_offset d + word_of_nat (length c), fd_current := Some ?read\<rparr>"
  have "on_course ?d = on_course (d\<lparr>fd_offset := fd_offset d + word_of_nat (length c)\<rparr>)"
    "to_come ?d = to_come (d\<lparr>fd_offset := fd_offset d + word_of_nat (length c)\<rparr>)"
    by (simp_all add: on_course_def to_come_def)
  note adv = on_course_advance [OF d(1) tail(1), folded this]
  have rcv: "unat (ar_received ?read) = unat (ar_received read) + length c"
    using d(6) fits [OF d(4)] by (simp add: unat_add_len)
  have step: "next_chunk_loop be env d s = take_chunk be env c
      (read\<lparr>ar_body := b', ar_device_time := ar_device_time read + (clock env s1 - clock env s)\<rparr>) d s1"
    by (subst next_chunk_loop.simps) (simp add: d(2) b(1))
  have whole: "concat cs = to_come ?d \<or> seekable (fd_end ?d - 1)" using d(8) tail(1) adv(2) by simp
  show ?thesis
  proof (cases "\<not> ar_held_open read \<and> ar_received ?read = ar_requested read")
    case True
    then have "length (concat cs) = 0" using d(7) rcv by simp
    then have cs: "cs = []" using delivers_empty [OF b(3)] by simp
    with b(3) obtain b'' s2 where e: "be_next_chunk be b' s1 = Some (Exhausted, b'', s2)" "s' = be_drop be b'' s2"
      by (auto elim: delivers_NilE)
    let ?e = "?d\<lparr>fd_current := None, fd_pacer := record_window (floats env) (ar_received ?read)
        (ar_device_time ?read + (clock env s2 - clock env s1)) (fd_pacer d)\<rparr>"
    have "next_chunk_loop be env d s = Some (Yielded (Ok c), ?e, s')"
      using True by (simp add: step take_chunk_def Let_def close_full_window_def e)
    moreover have "to_come ?e = to_come ?d" "on_course ?e" using adv(1) by (simp_all add: to_come_def on_course_def)
    moreover have "between ?e s'" using calculation(2,3) whole d(4) by (auto simp: between_def cs)
    ultimately show ?thesis using tail(1) b(2) adv(2) by (auto simp: live_def)
  next
    case False
    have "\<not> ar_requested read < ar_received ?read" if "\<not> ar_held_open read"
      using d(7) [OF that] rcv by (simp add: word_less_nat_alt)
    then have "next_chunk_loop be env d s = Some (Yielded (Ok c), ?d, s1)"
      using False by (auto simp: step take_chunk_def Let_def)
    moreover have "reading ?d s1 cs s'"
      using adv b(2,3) d(4,6,7) whole tail(2) rcv by (auto simp: reading_def)
    ultimately show ?thesis using tail(1) b(2) adv(2) by (auto simp: live_def)
  qed
qed

lemma end_step:
  assumes "reading d s [] s'"
  shows "\<exists>d'. next_chunk_loop be env d s = next_chunk_loop be env d' s' \<and> between d' s' \<and> to_come d' = to_come d"
proof -
  from assms obtain read where d: "on_course d" "fd_current d = Some read" "delivers be (ar_body read) s [] s'" "usable s'"
    "ar_received read \<noteq> 0" "to_come d = [] \<or> seekable (fd_end d - 1)"
    by (auto simp: reading_def)
  from d(3) obtain b' s1 where b: "be_next_chunk be (ar_body read) s = Some (Exhausted, b', s1)" "s' = be_drop be b' s1"
    by (auto elim: delivers_NilE)
  let ?d = "if \<not> ar_held_open read then d\<lparr>fd_current := None, fd_pacer := record_window (floats env) (ar_received read)
      (ar_device_time read + (clock env s1 - clock env s)) (fd_pacer d)\<rparr> else d\<lparr>fd_current := None\<rparr>"
  have "next_chunk_loop be env d s = next_chunk_loop be env ?d s'"
    using d(2,5) b by (subst next_chunk_loop.simps) (auto simp: Let_def fail_def)
  moreover have "on_course ?d" "to_come ?d = to_come d" using d(1) by (simp_all add: on_course_def to_come_def)
  moreover have "between ?d s'" using calculation(2,3) d(4,6) by (auto simp: between_def)
  ultimately show ?thesis by blast
qed

lemma between_step:
  assumes "between d s"
  shows "if to_come d = [] then \<exists>d'. next_chunk_loop be env d s = Some (Exhausted, d', s) \<and> fd_current d' = None \<and> usable s
    else \<exists>c d' s'. next_chunk_loop be env d s = Some (Yielded (Ok c), d', s') \<and> to_come d = c @ to_come d' \<and> c \<noteq> [] \<and> live d' s'"
proof (cases "to_come d = []")
  case True
  moreover have "fd_end d \<le> fd_offset d" using to_come_Nil [of d] assms True by (simp add: between_def)
  ultimately show ?thesis using assms by (subst next_chunk_loop.simps) (simp add: between_def)
next
  case False
  from start_between [OF assms False] obtain d' s1 c cs s' where
    st: "start_next_read be env d s = (Ok (), d', s1)" "reading d' s1 (c # cs) s'" "to_come d' = to_come d" by blast
  have "\<not> fd_end d \<le> fd_offset d" "fd_current d = None" using to_come_Nil [of d] assms False by (auto simp: between_def)
  then have "next_chunk_loop be env d s = next_chunk_loop be env d' s1"
    by (subst next_chunk_loop.simps) (simp add: st(1))
  with chunk_step [OF st(2)] st(3) False show ?thesis by auto
qed

lemma live_step:
  assumes "live d s"
  shows "if to_come d = [] then \<exists>d' s'. next_chunk_loop be env d s = Some (Exhausted, d', s') \<and> fd_current d' = None \<and> usable s'
    else \<exists>c d' s'. next_chunk_loop be env d s = Some (Yielded (Ok c), d', s') \<and> to_come d = c @ to_come d' \<and> c \<noteq> [] \<and> live d' s'"
proof -
  consider "between d s" | s' where "reading d s [] s'" | c cs s' where "reading d s (c # cs) s'"
    using assms by (auto simp: live_def) (metis neq_Nil_conv)
  then show ?thesis
  proof cases
    case 1
    then show ?thesis using between_step [OF 1] by (auto split: if_splits)
  next
    case 2
    from end_step [OF 2] obtain d' where "next_chunk_loop be env d s = next_chunk_loop be env d' s'" "between d' s'" "to_come d' = to_come d"
      by blast
    with between_step [of d' s'] show ?thesis by (auto split: if_splits)
  next
    case 3
    from chunk_step [OF 3] show ?thesis by auto
  qed
qed

lemma live_not_done: "live d s \<Longrightarrow> \<not> fd_done d"
  by (auto simp: live_def between_def reading_def on_course_def)

lemma collect_live:
  "live d s \<Longrightarrow> \<exists>s'. collect_download be env data d s = Some (Ok (data @ to_come d), s') \<and> usable s'"
proof (induction "length (to_come d)" arbitrary: d s data rule: less_induct)
  case less
  note step = live_step [OF less.prems]
  show ?case
  proof (cases "to_come d = []")
    case True
    with step obtain d' s' where "next_chunk_loop be env d s = Some (Exhausted, d', s')" "fd_current d' = None" "usable s'"
      by auto
    with True show ?thesis using live_not_done [OF less.prems]
      by (subst collect_download.simps) (simp add: download_next_chunk_def drop_current_def)
  next
    case False
    with step obtain c d' s' where nx: "next_chunk_loop be env d s = Some (Yielded (Ok c), d', s')" "to_come d = c @ to_come d'"
      "c \<noteq> []" "live d' s'" by auto
    have "collect_download be env data d s = collect_download be env (data @ c) d' s'"
      using live_not_done [OF less.prems] nx(1)
      by (subst collect_download.simps) (simp add: download_next_chunk_def)
    with less.hyps [of d' s' "data @ c"] nx show ?thesis by simp
  qed
qed

end

section \<open>Ranges\<close>

text \<open>The bytes of a file a range names, clipped to the file.\<close>

fun wanted :: "ByteRange \<Rightarrow> bytes \<Rightarrow> bytes" where
  "wanted ByteRange.Full content = content"
| "wanted (ByteRange.From offset) content = drop (unat offset) content"
| "wanted (ByteRange.Range offset len) content = take (unat len) (drop (unat offset) content)"

definition range_end :: "ByteRange \<Rightarrow> u64 \<Rightarrow> u64" where
  "range_end rng n = (case rng of ByteRange.Range offset len \<Rightarrow> min (saturating_add (range_offset rng) len) n | _ \<Rightarrow> n)"

lemma unat_saturating_add: "unat (saturating_add a b) = min (unat a + unat b) (2 ^ 64 - 1)"
proof (cases "unat a + unat b < 2 ^ 64")
  case True
  then have "unat (a + b) = unat a + unat b" by (simp add: unat_word_ariths)
  then show ?thesis using True by (auto simp: saturating_add_def word_less_nat_alt)
next
  case False
  then have "unat (a + b) = unat a + unat b - 2 ^ 64"
    using unat_less [of a] unat_less [of b] by (simp add: unat_word_ariths mod_if)
  then have "a + b < a" using False unat_less [of b] by (simp add: word_less_nat_alt)
  then show ?thesis using False by (simp add: saturating_add_def unsigned_minus_1_eq_mask mask_eq_exp_minus_1)
qed

lemma unat_min: "unat (min a b) = min (unat a) (unat b)"
  by (simp add: min_def word_le_nat_alt)

lemma range_end:
  assumes "length content < 2 ^ 64" "unat (range_offset rng) \<le> length content"
  shows "unat (range_end rng (word_of_nat (length content))) = unat (range_offset rng) + length (wanted rng content)"
    "range_offset rng \<le> range_end rng (word_of_nat (length content))"
    "wanted rng content = take (length (wanted rng content)) (drop (unat (range_offset rng)) content)"
    "unat (range_end rng (word_of_nat (length content))) \<le> length content"
proof -
  have n: "unat (word_of_nat (length content) :: u64) = length content" using assms(1) by (simp add: unat_of_nat)
  show e: "unat (range_end rng (word_of_nat (length content))) = unat (range_offset rng) + length (wanted rng content)"
    using assms n by (cases rng) (auto simp: range_end_def unat_min unat_saturating_add)
  then show "range_offset rng \<le> range_end rng (word_of_nat (length content))" by (simp add: word_le_nat_alt)
  show "wanted rng content = take (length (wanted rng content)) (drop (unat (range_offset rng)) content)"
    by (cases rng) (auto simp: min_def)
  show "unat (range_end rng (word_of_nat (length content))) \<le> length content"
    using n by (cases rng) (auto simp: range_end_def unat_min)
qed

context file_reads
begin

lemma start_live:
  assumes "usable s" "mo_size info = word_of_nat (length content)" "unat (range_offset rng) \<le> length content"
    and "wanted rng content = content \<or> seekable (word_of_nat (length content) - 1)"
  shows "\<exists>d s'. download_start be env handle info rng pc s = (Ok d, s') \<and> live d s' \<and> to_come d = wanted rng content
    \<and> unat (fd_end d - fd_offset d) \<le> length content"
proof -
  let ?n = "word_of_nat (length content) :: u64" and ?e = "range_end rng (word_of_nat (length content))" and ?o = "range_offset rng"
  note ends = range_end [OF fits [OF assms(1)] assms(3)]
  have n: "unat ?n = length content" using fits [OF assms(1)] by (simp add: unat_of_nat)
  note e = ends(4)
  define held where "held \<longleftrightarrow> (?o = 0 \<and> ?e = ?n) \<and> 0 < ?e \<and> \<not> be_can_read_partially_at be (?e - 1) s"
  define d :: "('b, 'f) FileDownload" where "d = \<lparr>fd_handle = handle, fd_size = ?n, fd_start = ?o, fd_end = ?e, fd_offset = ?o,
                 fd_modified = mo_modified info, fd_created = mo_created info,
                 fd_pacer = Pacer_new (if held then DownloadPacing.HeldOpen else pc),
                 fd_current = None, fd_started = False, fd_done = False\<rparr>"
  have course: "on_course d" using ends(2) e by (simp add: d_def on_course_def)
  have tc: "to_come d = wanted rng content" using ends(1) ends(3) by (simp add: to_come_def d_def)
  have whole: "?o = 0 \<and> ?e = ?n" if "wanted rng content = content"
  proof -
    have "length content \<le> length content - unat ?o" using arg_cong [OF ends(3), of length] that by simp
    then have "unat ?o = 0" using assms(3) by linarith
    then show ?thesis using ends(1) n that by (simp add: word_unat_eq_iff)
  qed
  have last: "seekable (?e - 1)" if "seekable (?n - 1)" "wanted rng content \<noteq> []"
  proof -
    have "?e \<noteq> 0" "?n \<noteq> 0" using that(2) ends(1) e n by (auto simp: word_unat_eq_iff)
    then have "?e - 1 \<le> ?n - 1" using e n by (simp add: word_le_nat_alt unat_minus_one)
    then show ?thesis by (rule seek_down [OF that(1)])
  qed
  have "to_come d = [] \<or> seekable (?e - 1) \<or> held_open (fd_pacer d) \<and> ?o = 0 \<and> ?e = ?n"
  proof (cases "wanted rng content = content \<and> \<not> seekable (?e - 1) \<and> wanted rng content \<noteq> []")
    case True
    then have "0 < ?e" using ends(1) by (auto simp: word_less_nat_alt)
    with True whole seek [OF assms(1)] have held by (simp add: held_def)
    with True whole show ?thesis by (simp add: d_def held_open_def Pacer_new_def)
  next
    case False
    with assms(4) last tc show ?thesis by auto
  qed
  then have btw: "between d s" using course assms(1) by (simp add: between_def d_def)
  have rem: "unat (fd_end d - fd_offset d) \<le> length content" using unat_remaining [OF course] e by (simp add: d_def)
  have no_error: "\<not> ?n < ?o" using assms(3) n by (simp add: word_less_nat_alt)
  have fixed: "(if held then \<lparr>fd_handle = handle, fd_size = ?n, fd_start = ?o, fd_end = ?e, fd_offset = ?o,
        fd_modified = mo_modified info, fd_created = mo_created info, fd_pacer = Pacer_new pc,
        fd_current = None, fd_started = False, fd_done = False\<rparr>\<lparr>fd_pacer := Pacer_new DownloadPacing.HeldOpen\<rparr>
      else \<lparr>fd_handle = handle, fd_size = ?n, fd_start = ?o, fd_end = ?e, fd_offset = ?o,
        fd_modified = mo_modified info, fd_created = mo_created info, fd_pacer = Pacer_new pc,
        fd_current = None, fd_started = False, fd_done = False\<rparr>) = d"
    by (simp add: d_def)
  have run: "download_start be env handle info rng pc s =
      (if (held_open (fd_pacer d) \<or> \<not> be_can_read_partially_at be ?o s) \<and> ?o < ?e
       then (case start_next_read be env d s of (r, d, s) \<Rightarrow> (map_ok (\<lambda>_. d) r, s)) else (Ok d, s))"
    unfolding download_start_def Let_def assms(2) range_end_def [symmetric] held_def [symmetric] if_not_P [OF no_error] fixed
    by (simp only: d_def FileDownload.select_convs)
  show ?thesis
  proof (cases "(held_open (fd_pacer d) \<or> \<not> be_can_read_partially_at be ?o s) \<and> ?o < ?e")
    case True
    then have "to_come d \<noteq> []" using to_come_Nil [OF course] by (simp add: d_def not_le)
    from start_between [OF btw this] obtain d' s1 c cs s' where
      "start_next_read be env d s = (Ok (), d', s1)" "reading d' s1 (c # cs) s'" "to_come d' = to_come d" by blast
    moreover from this have "unat (fd_end d' - fd_offset d') \<le> length content"
      using unat_remaining [of d'] by (auto simp: reading_def on_course_def)
    ultimately show ?thesis using True tc by (auto simp: run live_def)
  next
    case False
    then show ?thesis using btw tc rem by (simp only: run if_False) (auto simp: live_def)
  qed
qed

lemma download_exact:
  assumes "usable s" "mo_size info = word_of_nat (length content)" "unat (range_offset rng) \<le> length content"
    and "wanted rng content = content \<or> seekable (word_of_nat (length content) - 1)" "length content < 2 ^ 63"
  shows "\<exists>d s1 s2. download_start be env handle info rng pc s = (Ok d, s1)
    \<and> download_collect be env d s1 = Some (Ok (wanted rng content), s2) \<and> usable s2"
proof -
  from start_live [OF assms(1-4), of pc] obtain d s1 where d: "download_start be env handle info rng pc s = (Ok d, s1)"
    "live d s1" "to_come d = wanted rng content" "unat (fd_end d - fd_offset d) \<le> length content" by blast
  from collect_live [OF d(2), of "[]"] d(3,4) assms(5) obtain s2 where
    "download_collect be env d s1 = Some (Ok (wanted rng content), s2)" "usable s2"
    by (auto simp: download_collect_def with_capacity_def)
  with d(1) show ?thesis by blast
qed

end

section \<open>Properties\<close>

lemma take_chunk_returns: "(\<And>b s. be_next_chunk be b s \<noteq> None) \<Longrightarrow> take_chunk be env c read d s \<noteq> None"
  by (simp add: take_chunk_def close_full_window_def Let_def del: not_None_eq)

lemma next_chunk_loop_between:
  assumes "fd_current d = None" "\<And>b s. be_next_chunk be b s \<noteq> None"
  shows "next_chunk_loop be env d s \<noteq> None"
proof (cases "fd_end d \<le> fd_offset d")
  case True
  with assms(1) show ?thesis by (subst next_chunk_loop.simps) simp
next
  case False
  obtain r d' s' where run: "start_next_read be env d s = (r, d', s')" by (metis prod_cases3)
  show ?thesis
  proof (cases r)
    case (Ok u)
    from run Ok have d': "\<exists>read. fd_current d' = Some read \<and> ar_received read = 0" "fd_end d' = fd_end d" "fd_offset d' = fd_offset d"
      by (auto simp: start_next_read_def begin_read_def Let_def split: if_splits prod.splits outcome.splits)
    from d'(1) obtain read where read: "fd_current d' = Some read" "ar_received read = 0" by blast
    obtain item b' s1 where item: "be_next_chunk be (ar_body read) s' = Some (item, b', s1)"
      using assms(2) [of "ar_body read" s'] by (metis option.exhaust prod_cases3)
    have "next_chunk_loop be env d' s' \<noteq> None"
    proof (cases item)
      case Exhausted
      with False d'(2,3) read item show ?thesis by (subst next_chunk_loop.simps) (auto simp: Let_def fail_def)
    next
      case (Yielded x)
      with read item assms(2) show ?thesis
        by (subst next_chunk_loop.simps) (simp add: take_chunk_returns Let_def del: not_None_eq split: outcome.split)
    qed
    with False assms(1) run Ok show ?thesis by (subst next_chunk_loop.simps) simp
  next
    case (Err e)
    with False assms(1) run show ?thesis by (subst next_chunk_loop.simps) simp
  next
    case Panic
    with False assms(1) run show ?thesis by (subst next_chunk_loop.simps) simp
  next
    case Dropped
    with False assms(1) run show ?thesis by (subst next_chunk_loop.simps) simp
  qed
qed

text \<open>
  C15: A paced download never spins. Whatever the device does, a call for the next chunk returns as soon as the calls it makes on the
  read in flight return: reads that end without data, end early or cannot be started are each an answer, not another round.
\<close>

theorem next_chunk_returns:
  assumes "\<And>b s. be_next_chunk be b s \<noteq> None"
  shows "\<exists>item d' s'. download_next_chunk be env d s = Some (item, d', s')"
proof -
  have "next_chunk_loop be env d s \<noteq> None"
  proof (cases "fd_current d")
    case None
    then show ?thesis using assms by (rule next_chunk_loop_between)
  next
    case (Some read)
    obtain item b' s1 where item: "be_next_chunk be (ar_body read) s = Some (item, b', s1)"
      using assms [of "ar_body read" s] by (metis option.exhaust prod_cases3)
    show ?thesis
    proof (cases item)
      case Exhausted
      with Some item next_chunk_loop_between [of _ be env] assms show ?thesis
        by (subst next_chunk_loop.simps) (auto simp: Let_def fail_def)
    next
      case (Yielded x)
      with Some item assms show ?thesis
        by (subst next_chunk_loop.simps) (simp add: take_chunk_returns Let_def del: not_None_eq split: outcome.split)
    qed
  qed
  then show ?thesis by (auto simp: download_next_chunk_def)
qed

text \<open>A backend that is a table of folders, and whose files are lists of chunks.\<close>

definition shelf ::
  "(MtpObjectHandle option \<Rightarrow> (MtpObjectInfo, BackendListingError) outcome list) \<Rightarrow>
     (unit, bytes list, (MtpObjectInfo, BackendListingError) outcome list) MtpBackend" where
  "shelf folder =
     \<lparr>be_device_info = (\<lambda>s. \<lparr>mdi_manufacturer = [], mdi_model = [], mdi_serial_number = [], mdi_device_version = []\<rparr>),
      be_capabilities = (\<lambda>s. \<lparr>can_upload = False, can_delete = False, can_rename = False, can_move = False, can_copy = False,
        can_create_folder = False, supports_partial_download = False, supports_thumbnails = False, supports_events = False\<rparr>),
      be_storages = (\<lambda>s. Some (Ok [], s)), be_storage_info = (\<lambda>sid s. Some (Err MtpError.Unsupported, s)),
      be_list = (\<lambda>sid parent cancel s. Some (Ok \<lparr>bl_total = length (folder parent), bl_items = folder parent\<rparr>, s)),
      be_next_item = (\<lambda>l s. Some (case l of [] \<Rightarrow> (Exhausted, [], s) | x # xs \<Rightarrow> (Yielded x, xs, s))),
      be_object_info = (\<lambda>obj s. Some (Err MtpError.Unsupported, s)), be_download = (\<lambda>obj rng n s. (Ok [], s)),
      be_download_window = (\<lambda>obj off n s. (Ok [], s)),
      be_next_chunk = (\<lambda>b s. Some (case b of [] \<Rightarrow> (Exhausted, [], s) | c # cs \<Rightarrow> (Yielded (Ok c), cs, s))),
      be_cancel = (\<lambda>n b s. (Ok (), b, s)), be_drop = (\<lambda>b s. s), be_can_read_partially_at = (\<lambda>off s. False),
      be_read_range = (\<lambda>obj off n s. Some (Err MtpError.Unsupported, s)), be_thumbnail = (\<lambda>obj s. Some (Err MtpError.Unsupported, s)),
      be_upload = (\<lambda>sid parent info data progress s. (Err \<lparr>ue_source = MtpError.Unsupported, ue_partial = None\<rparr>, s)),
      be_create_folder = (\<lambda>sid parent name s. (Err MtpError.Unsupported, s)), be_delete = (\<lambda>obj cancel s. (Err MtpError.Unsupported, s)),
      be_move_object = (\<lambda>obj parent sid s. (Err MtpError.Unsupported, s)),
      be_copy_object = (\<lambda>obj parent sid s. Some (Err MtpError.Unsupported, s)), be_rename = (\<lambda>obj name s. (Err MtpError.Unsupported, s)),
      be_next_event = (\<lambda>s. (Err MtpError.Timeout, s)), be_close = (\<lambda>s. (Ok (), s))\<rparr>"

theorem next_chunk_returns_witness:
  "\<forall>(env :: (unit, nat) surroundings) d. \<exists>item d' s'. download_next_chunk (shelf (\<lambda>_. [])) env d () = Some (item, d', s')"
  by (intro allI next_chunk_returns) (simp add: shelf_def)

end
