(* ===== verification/Mtp_Usb.thy ===== *)
theory Mtp_Usb
  imports Mtp_Download
begin

text \<open>
  The PTP-over-USB backend of \<open>mtp/backend/usb.rs\<close>: the backend trait over a session. It holds the device's quirks: the
  root listing and its fallbacks, listings by property list, the choice of the partial read, the two phases of an upload.
  Inside, errors are those of the protocol; they turn into neutral errors where the source's \<open>?\<close> converts them.
\<close>

unbundle bit_operations_syntax

section \<open>The backend\<close>

datatype PartialReadOp = Wide | Narrow

definition plan_partial_read :: "bool \<Rightarrow> bool \<Rightarrow> u64 \<Rightarrow> PartialReadOp mres" where
  "plan_partial_read has_partial_64 has_partial_32 offset =
     (if has_partial_64 then Ok PartialReadOp.Wide
      else if has_partial_32
      then
        if 0xFFFFFFFF < offset
        then Err (mtp_invalid_data ''offset {offset} needs GetPartialObject64 (64-bit)'' [unat offset])
        else Ok PartialReadOp.Narrow
      else Err MtpError.Unsupported)"

record 't UsbBackend =
  ub_session :: "'t PtpSession"
  ub_device_info :: MtpDeviceIdentity
  ub_capabilities :: Capabilities
  ub_has_partial_object_64 :: bool
  ub_has_partial_object :: bool
  ub_has_object_prop_list :: bool
  ub_prop_list_off :: bool
  ub_prop_list_declined_optional :: u8

definition UsbBackend_new :: "'t PtpSession \<Rightarrow> DeviceInfo \<Rightarrow> bool \<Rightarrow> 't UsbBackend" where
  "UsbBackend_new session ptp_info use_object_prop_list =
     \<lparr>ub_session = session, ub_device_info = device_from_ptp ptp_info, ub_capabilities = capabilities_from_ptp ptp_info,
      ub_has_partial_object_64 = supports_operation ptp_info OperationCode.GetPartialObject64,
      ub_has_partial_object = supports_operation ptp_info OperationCode.GetPartialObject,
      ub_has_object_prop_list = (use_object_prop_list \<and> supports_operation ptp_info OperationCode.GetObjectPropList),
      ub_prop_list_off = False, ub_prop_list_declined_optional = 0\<rparr>"

text \<open>A call on the session, which may not return, and the conversion of its error.\<close>

definition on_session :: "('t PtpSession \<Rightarrow> 'a \<times> 't PtpSession) \<Rightarrow> 't UsbBackend \<Rightarrow> 'a \<times> 't UsbBackend" where
  "on_session f ub = (case f (ub_session ub) of (r, s) \<Rightarrow> (r, ub\<lparr>ub_session := s\<rparr>))"

definition on_session_opt ::
  "('t PtpSession \<Rightarrow> ('a \<times> 't PtpSession) option) \<Rightarrow> 't UsbBackend \<Rightarrow> ('a \<times> 't UsbBackend) option" where
  "on_session_opt f ub = map_option (\<lambda>(r, s). (r, ub\<lparr>ub_session := s\<rparr>)) (f (ub_session ub))"

definition convert :: "'a res \<times> 's \<Rightarrow> 'a mres \<times> 's" where
  "convert m = (case m of (r, s) \<Rightarrow> (neutral r, s))"

definition convert_opt :: "('a res \<times> 's) option \<Rightarrow> ('a mres \<times> 's) option" where
  "convert_opt m = map_option convert m"

section \<open>Parents\<close>

datatype ParentFilter = Exact ObjectHandle | Root "StorageId option"

fun accepts :: "ParentFilter \<Rightarrow> ObjectHandle \<Rightarrow> bool" where
  "accepts (ParentFilter.Exact expected) parent \<longleftrightarrow> parent = expected"
| "accepts (ParentFilter.Root storage) parent \<longleftrightarrow>
     parent = 0 \<or> parent = 0xFFFFFFFF \<or> (case storage of Some s \<Rightarrow> parent = s | None \<Rightarrow> False)"

definition root_filter :: "StorageId \<Rightarrow> ObjectHandle list \<Rightarrow> ParentFilter" where
  "root_filter storage handles =
     (let collides = list_ex (\<lambda>h. h = storage) handles in ParentFilter.Root (if collides then None else Some storage))"

fun is_all_handle_rejection :: "PtpError \<Rightarrow> bool" where
  "is_all_handle_rejection (PtpError.Protocol code operation) = True"
| "is_all_handle_rejection (PtpError.Io kind detail) = True"
| "is_all_handle_rejection e = False"

fun is_prop_list_capability_decline :: "PtpError \<Rightarrow> bool" where
  "is_prop_list_capability_decline (PtpError.Io kind detail) = True"
| "is_prop_list_capability_decline (PtpError.Protocol code operation) =
     (code = ResponseCode.OperationNotSupported \<or> code = ResponseCode.ParameterNotSupported
      \<or> ResponseCode_into code \<in> {0xA801, 0xA802, 0xA807, 0xA808})"
| "is_prop_list_capability_decline e = False"

definition resolve_listing ::
  "'t transport_ops \<Rightarrow> StorageId \<Rightarrow> ObjectHandle option \<Rightarrow> 't UsbBackend token \<Rightarrow> 't UsbBackend \<Rightarrow>
     ((ObjectHandle list \<times> ParentFilter) res \<times> 't UsbBackend) option" where
  "resolve_listing ops storage parent cancel ub =
     (let all_handles = on_session_opt (get_object_handles ops storage None (Some ALL_OBJECTS));
          fallback = (\<lambda>ub. seq_opt (bail cancel ub, ub) (\<lambda>_ ub.
            Option.bind (on_session_opt (get_object_handles ops storage None parent) ub) (\<lambda>(result, ub).
              case result of
                Ok handles \<Rightarrow>
                  Some (Ok (handles, ParentFilter.Exact (case parent of Some p \<Rightarrow> p | None \<Rightarrow> ROOT)), ub)
              | Err e \<Rightarrow>
                  if response_code e = Some ResponseCode.InvalidObjectHandle \<and> parent = None
                  then then_opt (all_handles ub) (\<lambda>handles ub. Some (Ok (handles, root_filter storage handles), ub))
                  else Some (Err e, ub)
              | Panic \<Rightarrow> Some (Panic, ub)
              | Dropped \<Rightarrow> Some (Dropped, ub))))
      in
      if parent = None
      then
        Option.bind (all_handles ub) (\<lambda>(result, ub).
          case result of
            Ok handles \<Rightarrow> Some (Ok (handles, root_filter storage handles), ub)
          | Err e \<Rightarrow> if is_all_handle_rejection e then fallback ub else Some (Err e, ub)
          | Panic \<Rightarrow> Some (Panic, ub)
          | Dropped \<Rightarrow> Some (Dropped, ub))
      else fallback ub)"

section \<open>Listings by property list\<close>

definition PROP_LIST_REQUIRED :: "ObjectPropertyCode list" where
  "PROP_LIST_REQUIRED = [ObjectPropertyCode.ParentObject, ObjectPropertyCode.ObjectFileName,
     ObjectPropertyCode.ObjectFormat, ObjectPropertyCode.ObjectSize]"

definition PROP_LIST_OPTIONAL :: "ObjectPropertyCode list" where
  "PROP_LIST_OPTIONAL = [ObjectPropertyCode.DateModified, ObjectPropertyCode.DateCreated]"

datatype PropListAnswer = Elements "ObjectPropListElement list" | Declined | Refused | Unparseable

datatype Unusable = Systemic | Incomplete

fun position :: "('a \<Rightarrow> bool) \<Rightarrow> 'a list \<Rightarrow> nat option" where
  "position p [] = None"
| "position p (x # xs) = (if p x then Some 0 else map_option Suc (position p xs))"

definition required_bit :: "ObjectPropertyCode \<Rightarrow> u8" where
  "required_bit property =
     (case position (\<lambda>p. p = property) PROP_LIST_REQUIRED of None \<Rightarrow> 0 | Some i \<Rightarrow> push_bit i 1)"

record Child =
  ch_info :: ObjectInfo
  ch_required :: u8
  ch_has_storage :: bool

text \<open>
  One element of the answer. The index keeps the position of each handle among the children, which are in the order they were
  first seen.
\<close>

definition fold_element ::
  "ObjectPropListElement \<Rightarrow> Child list \<times> (ObjectHandle \<Rightarrow> nat option) \<Rightarrow> Child list \<times> (ObjectHandle \<Rightarrow> nat option)" where
  "fold_element element st =
     (case st of (children, ix) \<Rightarrow>
       let (children, ix) =
             (case ix (pl_handle element) of
                Some i \<Rightarrow> (children, ix)
              | None \<Rightarrow>
                  (children @ [\<lparr>ch_info = ObjectInfo_default\<lparr>oi_handle := pl_handle element\<rparr>, ch_required = 0, ch_has_storage = False\<rparr>],
                   ix(pl_handle element \<mapsto> length children)));
           i = the (ix (pl_handle element));
           child = children ! i
       in
       case pl_value element of
         None \<Rightarrow> (children, ix)
       | Some val \<Rightarrow>
           (case set_property (ch_info child) (pl_property element) val of
              (info, False) \<Rightarrow> (children[i := child\<lparr>ch_info := info\<rparr>], ix)
            | (info, True) \<Rightarrow>
                (children[i := child\<lparr>ch_info := info, ch_required := ch_required child OR required_bit (pl_property element),
                   ch_has_storage := (ch_has_storage child \<or> pl_property element = ObjectPropertyCode.StorageId)\<rparr>], ix)))"

definition needs :: "Child \<Rightarrow> u8" where
  "needs child =
     (let every = push_bit (length PROP_LIST_REQUIRED) 1 - 1 in
      if is_folder (ch_info child) then every AND NOT (required_bit ObjectPropertyCode.ObjectSize) else every)"

text \<open>The verdict over the required properties, in their order; \<open>Some\<close> is why the answer is unusable.\<close>

fun verdict :: "Child list \<Rightarrow> ObjectPropertyCode list \<Rightarrow> Unusable option \<Rightarrow> Unusable option" where
  "verdict children [] v = v"
| "verdict children (property # properties) v =
     (let bit = required_bit property;
          needing = filter (\<lambda>c. needs c AND bit \<noteq> 0) children;
          lacking = filter (\<lambda>c. ch_required c AND bit = 0) needing
      in
      if 0 < length lacking \<and> length lacking = length needing then Some Unusable.Systemic
      else verdict children properties (if 0 < length lacking then Some Unusable.Incomplete else v))"

definition children_from_prop_list ::
  "ObjectPropListElement list \<Rightarrow> StorageId \<Rightarrow> ObjectHandle \<Rightarrow> ObjectInfo list + Unusable" where
  "children_from_prop_list elements storage parent =
     (let (children, ix) = fold fold_element (filter (\<lambda>e. pl_handle e \<noteq> parent) elements) ([], \<lambda>_. None);
          parent_bit = required_bit ObjectPropertyCode.ParentObject
      in
      if list_ex (\<lambda>c. ch_required c AND parent_bit \<noteq> 0 \<and> oi_parent (ch_info c) \<noteq> parent) children
      then Inr Unusable.Systemic
      else
        (case verdict children PROP_LIST_REQUIRED None of
           Some why \<Rightarrow> Inr why
         | None \<Rightarrow> Inl (map (\<lambda>c. if \<not> ch_has_storage c then (ch_info c)\<lparr>oi_storage_id := storage\<rparr> else ch_info c) children)))"

definition ask_prop_list ::
  "'t transport_ops \<Rightarrow> ObjectHandle \<Rightarrow> ObjectPropertyCode \<Rightarrow> 't UsbBackend \<Rightarrow> (PropListAnswer res \<times> 't UsbBackend) option" where
  "ask_prop_list ops parent property ub =
     map_option (\<lambda>(r, ub).
       (case r of
          Ok data \<Rightarrow>
            (case list_from_bytes data of
               Ok elements \<Rightarrow> Ok (PropListAnswer.Elements elements)
             | Err e \<Rightarrow> Ok PropListAnswer.Unparseable
             | Panic \<Rightarrow> Panic
             | Dropped \<Rightarrow> Dropped)
        | Err e \<Rightarrow>
            if is_prop_list_capability_decline e then Ok PropListAnswer.Declined
            else if is_all_handle_rejection e then Ok PropListAnswer.Refused
            else Err e
        | Panic \<Rightarrow> Panic
        | Dropped \<Rightarrow> Dropped, ub))
     (on_session_opt (get_object_prop_list ops parent None (Some property) 0 1) ub)"

text \<open>The requests for the required properties: their elements, or \<open>None\<close> when the listing goes per handle.\<close>

fun ask_required ::
  "'t transport_ops \<Rightarrow> ObjectHandle \<Rightarrow> 't UsbBackend token \<Rightarrow> ObjectPropertyCode list \<Rightarrow> ObjectPropListElement list \<Rightarrow> 't UsbBackend \<Rightarrow>
     (ObjectPropListElement list option res \<times> 't UsbBackend) option" where
  "ask_required ops parent cancel [] elements ub = Some (Ok (Some elements), ub)"
| "ask_required ops parent cancel (property # properties) elements ub =
     seq_opt (bail cancel ub, ub) (\<lambda>_ ub.
     then_opt (ask_prop_list ops parent property ub) (\<lambda>answer ub.
       case answer of
         PropListAnswer.Elements new \<Rightarrow> ask_required ops parent cancel properties (elements @ new) ub
       | PropListAnswer.Declined \<Rightarrow> Some (Ok None, ub\<lparr>ub_prop_list_off := True\<rparr>)
       | PropListAnswer.Unparseable \<Rightarrow> Some (Ok None, ub\<lparr>ub_prop_list_off := True\<rparr>)
       | PropListAnswer.Refused \<Rightarrow> Some (Ok None, ub)))"

text \<open>Setting an optional property on the children the answer names, and whether any took it.\<close>

fun set_optional :: "ObjectPropertyCode \<Rightarrow> (ObjectHandle \<Rightarrow> nat option) \<Rightarrow> ObjectPropListElement list \<Rightarrow> ObjectInfo list \<times> bool \<Rightarrow> ObjectInfo list \<times> bool" where
  "set_optional property ix [] st = st"
| "set_optional property ix (element # elements) (children, served) =
     set_optional property ix elements
       (if pl_property element = property
        then
          (case (ix (pl_handle element), pl_value element) of
             (Some i, Some val) \<Rightarrow>
               (case set_property (children ! i) (pl_property element) val of
                  (info, ok) \<Rightarrow> (children[i := info], served \<or> ok))
           | _ \<Rightarrow> (children, served))
        else (children, served))"

definition index_of :: "ObjectInfo list \<Rightarrow> ObjectHandle \<Rightarrow> nat option" where
  "index_of children = map_of (rev (map (\<lambda>(i, c). (oi_handle c, i)) (enumerate 0 children)))"

fun ask_optional ::
  "'t transport_ops \<Rightarrow> ObjectHandle \<Rightarrow> 't UsbBackend token \<Rightarrow> (ObjectHandle \<Rightarrow> nat option) \<Rightarrow> (nat \<times> ObjectPropertyCode) list \<Rightarrow>
     ObjectInfo list \<Rightarrow> 't UsbBackend \<Rightarrow> (ObjectInfo list res \<times> 't UsbBackend) option" where
  "ask_optional ops parent cancel ix [] children ub = Some (Ok children, ub)"
| "ask_optional ops parent cancel ix ((i, property) # properties) children ub =
     (let bit = push_bit i 1;
          decline = (\<lambda>ub. ub\<lparr>ub_prop_list_declined_optional := ub_prop_list_declined_optional ub OR bit\<rparr>)
      in
      if ub_prop_list_declined_optional ub AND bit \<noteq> 0 then ask_optional ops parent cancel ix properties children ub
      else
        seq_opt (bail cancel ub, ub) (\<lambda>_ ub.
        then_opt (ask_prop_list ops parent property ub) (\<lambda>answer ub.
          case answer of
            PropListAnswer.Elements elements \<Rightarrow>
              (case set_optional property ix elements (children, False) of
                 (children, served) \<Rightarrow>
                   ask_optional ops parent cancel ix properties children (if served then ub else decline ub))
          | PropListAnswer.Refused \<Rightarrow> ask_optional ops parent cancel ix properties children ub
          | _ \<Rightarrow> ask_optional ops parent cancel ix properties children (decline ub))))"

definition add_optional_properties ::
  "'t transport_ops \<Rightarrow> ObjectHandle \<Rightarrow> 't UsbBackend token \<Rightarrow> ObjectInfo list \<Rightarrow> 't UsbBackend \<Rightarrow>
     (ObjectInfo list res \<times> 't UsbBackend) option" where
  "add_optional_properties ops parent cancel children =
     ask_optional ops parent cancel (index_of children) (enumerate 0 PROP_LIST_OPTIONAL) children"

definition list_by_prop_list ::
  "'t transport_ops \<Rightarrow> StorageId \<Rightarrow> ObjectHandle \<Rightarrow> 't UsbBackend token \<Rightarrow> 't UsbBackend \<Rightarrow>
     (ObjectInfo list option res \<times> 't UsbBackend) option" where
  "list_by_prop_list ops storage parent cancel ub =
     (if ub_prop_list_off ub then Some (Ok None, ub)
      else
        then_opt (ask_required ops parent cancel PROP_LIST_REQUIRED [] ub) (\<lambda>answer ub.
          case answer of
            None \<Rightarrow> Some (Ok None, ub)
          | Some elements \<Rightarrow>
              (case children_from_prop_list elements storage parent of
                 Inr why \<Rightarrow> Some (Ok None, if why = Unusable.Systemic then ub\<lparr>ub_prop_list_off := True\<rparr> else ub)
               | Inl children \<Rightarrow>
                   if children = [] then Some (Ok None, ub)
                   else then_opt (add_optional_properties ops parent cancel children ub) (\<lambda>children ub.
                     Some (Ok (Some children), ub)))))"

section \<open>Listings\<close>

record 's ListingState =
  ls_handles :: "ObjectHandle list"
  ls_cursor :: usize
  ls_filter :: ParentFilter
  ls_cancel :: "'s token"

text \<open>The two streams \<open>list\<close> returns: over objects in hand, and over handles still to be looked up.\<close>

datatype 's UsbListing = InHand "MtpObjectInfo list" | PerHandle "'s ListingState"

definition usb_list ::
  "'t transport_ops \<Rightarrow> MtpStorageId \<Rightarrow> MtpObjectHandle option \<Rightarrow> 't UsbBackend token \<Rightarrow> 't UsbBackend \<Rightarrow>
     ('t UsbBackend UsbListing BackendListing mres \<times> 't UsbBackend) option" where
  "usb_list ops storage parent cancel ub =
     seq_opt (neutral (bail cancel ub), ub) (\<lambda>_ ub.
     then_opt
       (case (parent, ub_has_object_prop_list ub) of
          (Some p, True) \<Rightarrow> convert_opt (list_by_prop_list ops (storage_to_ptp storage) (handle_to_ptp p) cancel ub)
        | _ \<Rightarrow> Some (Ok None, ub)) (\<lambda>listed ub.
       case listed of
         Some objects \<Rightarrow>
           Some (Ok \<lparr>bl_total = length objects, bl_items = UsbListing.InHand (map object_from_ptp objects)\<rparr>, ub)
       | None \<Rightarrow>
           then_opt (convert_opt (resolve_listing ops (storage_to_ptp storage) (map_option handle_to_ptp parent) cancel ub))
             (\<lambda>(handles, fltr) ub.
               Some (Ok \<lparr>bl_total = length handles, bl_items = UsbListing.PerHandle
                 \<lparr>ls_handles = handles, ls_cursor = 0, ls_filter = fltr, ls_cancel = cancel\<rparr>\<rparr>, ub))))"

text \<open>Whether a failed lookup leaves the rest of the listing usable.\<close>

definition skippable :: "PtpError \<Rightarrow> bool" where
  "skippable e \<longleftrightarrow> e = PtpError.Protocol ResponseCode.GeneralError OperationCode.GetObjectInfo"

type_synonym listing_item = "(MtpObjectInfo, BackendListingError) stream_item"

partial_function (option) next_per_handle ::
  "'t transport_ops \<Rightarrow> 't UsbBackend ListingState \<Rightarrow> 't UsbBackend \<Rightarrow>
     (listing_item \<times> 't UsbBackend ListingState \<times> 't UsbBackend) option" where
  "next_per_handle ops ls ub =
     (if length (ls_handles ls) \<le> ls_cursor ls then Some (Exhausted, ls, ub)
      else
        let handle = ls_handles ls ! ls_cursor ls in
        (case bail (ls_cancel ls) ub of
           Err e \<Rightarrow> Some (Yielded (Err (listing_fatal (handle_from_ptp handle) (Error_from e))), ls, ub)
         | Panic \<Rightarrow> Some (Yielded Panic, ls, ub)
         | Dropped \<Rightarrow> Some (Yielded Dropped, ls, ub)
         | Ok _ \<Rightarrow>
             let ls = ls\<lparr>ls_cursor := ls_cursor ls + 1\<rparr> in
             Option.bind (on_session_opt (get_object_info_full ops handle) ub) (\<lambda>(result, ub).
               case result of
                 Ok info \<Rightarrow>
                   let info = info\<lparr>oi_handle := handle\<rparr> in
                   if \<not> accepts (ls_filter ls) (oi_parent info) then next_per_handle ops ls ub
                   else Some (Yielded (Ok (object_from_ptp info)), ls, ub)
               | Err e \<Rightarrow>
                   Some (Yielded (Err ((if skippable e then listing_skippable else listing_fatal) (handle_from_ptp handle) (Error_from e))), ls, ub)
               | Panic \<Rightarrow> Some (Yielded Panic, ls, ub)
               | Dropped \<Rightarrow> Some (Yielded Dropped, ls, ub))))"

fun usb_next_item ::
  "'t transport_ops \<Rightarrow> 't UsbBackend UsbListing \<Rightarrow> 't UsbBackend \<Rightarrow>
     (listing_item \<times> 't UsbBackend UsbListing \<times> 't UsbBackend) option" where
  "usb_next_item ops (UsbListing.InHand []) ub = Some (Exhausted, UsbListing.InHand [], ub)"
| "usb_next_item ops (UsbListing.InHand (x # xs)) ub = Some (Yielded (Ok x), UsbListing.InHand xs, ub)"
| "usb_next_item ops (UsbListing.PerHandle ls) ub =
     map_option (\<lambda>(item, ls, ub). (item, UsbListing.PerHandle ls, ub)) (next_per_handle ops ls ub)"

section \<open>Information\<close>

fun storages_loop ::
  "'t transport_ops \<Rightarrow> StorageId list \<Rightarrow> MtpStorageInfo list \<Rightarrow> 't UsbBackend \<Rightarrow> (MtpStorageInfo list mres \<times> 't UsbBackend) option" where
  "storages_loop ops [] storages ub = Some (Ok storages, ub)"
| "storages_loop ops (sid # ids) storages ub =
     then_opt (convert_opt (on_session_opt (get_storage_info ops sid) ub)) (\<lambda>info ub.
       storages_loop ops ids (storages @ [(storage_info_from_ptp info)\<lparr>ms_id := storage_from_ptp sid\<rparr>]) ub)"

definition usb_storages :: "'t transport_ops \<Rightarrow> 't UsbBackend \<Rightarrow> (MtpStorageInfo list mres \<times> 't UsbBackend) option" where
  "usb_storages ops ub =
     then_opt (convert_opt (on_session_opt (get_storage_ids ops) ub)) (\<lambda>ids ub. storages_loop ops ids [] ub)"

definition usb_storage_info ::
  "'t transport_ops \<Rightarrow> MtpStorageId \<Rightarrow> 't UsbBackend \<Rightarrow> (MtpStorageInfo mres \<times> 't UsbBackend) option" where
  "usb_storage_info ops storage ub =
     then_opt (convert_opt (on_session_opt (get_storage_info ops (storage_to_ptp storage)) ub)) (\<lambda>info ub.
       Some (Ok ((storage_info_from_ptp info)\<lparr>ms_id := storage\<rparr>), ub))"

definition usb_object_info ::
  "'t transport_ops \<Rightarrow> MtpObjectHandle \<Rightarrow> 't UsbBackend \<Rightarrow> (MtpObjectInfo mres \<times> 't UsbBackend) option" where
  "usb_object_info ops obj ub =
     then_opt (convert_opt (on_session_opt (get_object_info_full ops (handle_to_ptp obj)) ub)) (\<lambda>info ub.
       Some (Ok (object_from_ptp (info\<lparr>oi_handle := handle_to_ptp obj\<rparr>)), ub))"

section \<open>Reading\<close>

definition partial_read :: "u64 \<Rightarrow> 't UsbBackend \<Rightarrow> PartialReadOp mres" where
  "partial_read offset ub = plan_partial_read (ub_has_partial_object_64 ub) (ub_has_partial_object ub) offset"

definition partial_read_stream ::
  "'t transport_ops \<Rightarrow> MtpObjectHandle \<Rightarrow> u64 \<Rightarrow> u32 \<Rightarrow> 't UsbBackend \<Rightarrow> ReceiveStream mres \<times> 't UsbBackend" where
  "partial_read_stream ops obj offset max_bytes ub =
     seq_ok (partial_read offset ub, ub) (\<lambda>op ub.
       case op of
         PartialReadOp.Wide \<Rightarrow>
           let offset_lo = ucast offset; offset_hi = ucast (drop_bit 32 offset) in
           convert (on_session (execute_with_receive_stream ops OperationCode.GetPartialObject64
             [handle_to_ptp obj, offset_lo, offset_hi, max_bytes]) ub)
       | PartialReadOp.Narrow \<Rightarrow>
           convert (on_session (execute_with_receive_stream ops OperationCode.GetPartialObject
             [handle_to_ptp obj, ucast offset, max_bytes]) ub))"

definition usb_download ::
  "'t transport_ops \<Rightarrow> MtpObjectHandle \<Rightarrow> ByteRange \<Rightarrow> u64 \<Rightarrow> 't UsbBackend \<Rightarrow> ReceiveStream mres \<times> 't UsbBackend" where
  "usb_download ops obj rng n ub =
     (let offset = range_offset rng in
      if n < offset
      then (Err (mtp_invalid_data ''download offset {offset} is past the object size {size}'' [unat offset, unat n]), ub)
      else
        (case rng of
           ByteRange.Full \<Rightarrow>
             if 0xFFFFFFFF < n
             then convert (on_session (execute_with_receive_stream_sized ops OperationCode.GetObject [handle_to_ptp obj] n) ub)
             else convert (on_session (execute_with_receive_stream ops OperationCode.GetObject [handle_to_ptp obj]) ub)
         | _ \<Rightarrow>
             let remaining = n - offset;
                 want = (case rng of ByteRange.Range off len \<Rightarrow> min remaining len | _ \<Rightarrow> remaining);
                 max_bytes = (if want \<le> 0xFFFFFFFF then ucast want else 0xFFFFFFFF)
             in partial_read_stream ops obj offset max_bytes ub))"

definition usb_download_window ::
  "'t transport_ops \<Rightarrow> MtpObjectHandle \<Rightarrow> u64 \<Rightarrow> u32 \<Rightarrow> 't UsbBackend \<Rightarrow> ReceiveStream mres \<times> 't UsbBackend" where
  "usb_download_window ops obj offset len ub = partial_read_stream ops obj offset len ub"

definition can_read_partially_at :: "u64 \<Rightarrow> 't UsbBackend \<Rightarrow> bool" where
  "can_read_partially_at offset ub \<longleftrightarrow> is_Ok (partial_read offset ub)"

text \<open>A body is a receive stream of the session.\<close>

definition usb_next_chunk ::
  "'t transport_ops \<Rightarrow> ReceiveStream \<Rightarrow> 't UsbBackend \<Rightarrow> ((bytes, MtpError) stream_item \<times> ReceiveStream \<times> 't UsbBackend) option" where
  "usb_next_chunk ops body ub =
     map_option (\<lambda>(item, body, s).
       (case item of End \<Rightarrow> Exhausted | Item r \<Rightarrow> Yielded (neutral r), body, ub\<lparr>ub_session := s\<rparr>))
     (next_chunk ops body (ub_session ub))"

definition usb_cancel ::
  "'t transport_ops \<Rightarrow> nat \<Rightarrow> ReceiveStream \<Rightarrow> 't UsbBackend \<Rightarrow> unit mres \<times> ReceiveStream \<times> 't UsbBackend" where
  "usb_cancel ops idle_timeout body ub =
     (case stream_cancel ops idle_timeout body (ub_session ub) of (r, body, s) \<Rightarrow> (neutral r, body, ub\<lparr>ub_session := s\<rparr>))"

definition usb_drop :: "ReceiveStream \<Rightarrow> 't UsbBackend \<Rightarrow> 't UsbBackend" where
  "usb_drop body ub = ub\<lparr>ub_session := stream_drop body (ub_session ub)\<rparr>"

definition usb_read_range ::
  "'t transport_ops \<Rightarrow> MtpObjectHandle \<Rightarrow> u64 \<Rightarrow> u32 option \<Rightarrow> 't UsbBackend \<Rightarrow> (bytes mres \<times> 't UsbBackend) option" where
  "usb_read_range ops obj offset len ub =
     (if len = None \<and> offset = 0
      then convert_opt (on_session_opt (get_object ops (handle_to_ptp obj)) ub)
      else
        let max_bytes = (case len of None \<Rightarrow> 0xFFFFFFFF | Some n \<Rightarrow> n) in
        seq_opt (partial_read offset ub, ub) (\<lambda>op ub.
          case op of
            PartialReadOp.Wide \<Rightarrow> convert_opt (on_session_opt (get_partial_object_64 ops (handle_to_ptp obj) offset max_bytes) ub)
          | PartialReadOp.Narrow \<Rightarrow> convert_opt (on_session_opt (get_partial_object ops (handle_to_ptp obj) offset max_bytes) ub)))"

definition usb_thumbnail :: "'t transport_ops \<Rightarrow> MtpObjectHandle \<Rightarrow> 't UsbBackend \<Rightarrow> (bytes mres \<times> 't UsbBackend) option" where
  "usb_thumbnail ops obj ub = convert_opt (on_session_opt (get_thumb ops (handle_to_ptp obj)) ub)"

section \<open>Writing\<close>

text \<open>The upload's chunks as they pass the progress callback.\<close>

fun progress_stream :: "progress_fn option \<Rightarrow> u64 \<Rightarrow> nat \<Rightarrow> u64 \<Rightarrow> chunk_result list \<Rightarrow> chunk_result list" where
  "progress_stream progress total_size i bytes_sent [] = []"
| "progress_stream progress total_size i bytes_sent (Ok chunk # rest) =
     (let bytes_sent = bytes_sent + word_of_nat (length chunk) in
      (case progress of
         Some cb \<Rightarrow>
           if cb i \<lparr>bytes_transferred = bytes_sent, total_bytes = Some total_size\<rparr>
           then Err (IoKind.Interrupted, ''cancelled'') else Ok chunk
       | None \<Rightarrow> Ok chunk)
      # progress_stream progress total_size (i + 1) bytes_sent rest)"
| "progress_stream progress total_size i bytes_sent (other # rest) =
     other # progress_stream progress total_size i bytes_sent rest"

definition upload_failure :: "PtpError \<Rightarrow> MtpError" where
  "upload_failure e =
     (case e of
        PtpError.Io kind detail \<Rightarrow> if kind = IoKind.Interrupted then MtpError.Cancelled else Error_from e
      | _ \<Rightarrow> Error_from e)"

definition usb_upload ::
  "'t transport_ops \<Rightarrow> MtpStorageId \<Rightarrow> MtpObjectHandle option \<Rightarrow> NewObjectInfo \<Rightarrow> chunk_result list \<Rightarrow> progress_fn option \<Rightarrow>
     't UsbBackend \<Rightarrow> (MtpObjectHandle, UploadError) outcome \<times> 't UsbBackend" where
  "usb_upload ops storage parent info data progress ub =
     (let total_size = no_size info;
          object_info = to_object_info info;
          parent_handle = (case parent of Some p \<Rightarrow> handle_to_ptp p | None \<Rightarrow> SEND_ROOT)
      in
      case on_session (send_object_info ops (storage_to_ptp storage) parent_handle object_info) ub of
        (r1, ub) \<Rightarrow>
          seq_ok (map_err (\<lambda>e. \<lparr>ue_source = Error_from e, ue_partial = None\<rparr>) r1, ub) (\<lambda>(_, _, handle) ub.
          (case on_session (send_object_stream ops total_size (progress_stream progress total_size 0 0 data)) ub of
             (r2, ub) \<Rightarrow>
               seq_ok (map_err (\<lambda>e. \<lparr>ue_source = upload_failure e, ue_partial = Some (handle_from_ptp handle)\<rparr>) r2, ub)
                 (\<lambda>_ ub. (Ok (handle_from_ptp handle), ub)))))"

definition usb_create_folder ::
  "'t transport_ops \<Rightarrow> MtpStorageId \<Rightarrow> MtpObjectHandle option \<Rightarrow> rstr \<Rightarrow> 't UsbBackend \<Rightarrow> MtpObjectHandle mres \<times> 't UsbBackend" where
  "usb_create_folder ops storage parent name ub =
     (let object_info = to_object_info (NewObjectInfo_folder name);
          parent_handle = (case parent of Some p \<Rightarrow> handle_to_ptp p | None \<Rightarrow> SEND_ROOT)
      in
      seq_ok (convert (on_session (send_object_info ops (storage_to_ptp storage) parent_handle object_info) ub))
        (\<lambda>(_, _, handle) ub. (Ok (handle_from_ptp handle), ub)))"

definition usb_delete :: "'t transport_ops \<Rightarrow> MtpObjectHandle \<Rightarrow> 't UsbBackend token \<Rightarrow> 't UsbBackend \<Rightarrow> unit mres \<times> 't UsbBackend" where
  "usb_delete ops obj cancel ub =
     seq_ok (neutral (bail cancel ub), ub) (\<lambda>_ ub. convert (on_session (delete_object ops (handle_to_ptp obj)) ub))"

definition usb_move_object ::
  "'t transport_ops \<Rightarrow> MtpObjectHandle \<Rightarrow> MtpObjectHandle \<Rightarrow> MtpStorageId \<Rightarrow> 't UsbBackend \<Rightarrow> unit mres \<times> 't UsbBackend" where
  "usb_move_object ops obj new_parent new_storage ub =
     convert (on_session (move_object ops (handle_to_ptp obj) (storage_to_ptp new_storage) (handle_to_ptp new_parent)) ub)"

definition phantom :: "string \<Rightarrow> nat list \<Rightarrow> MtpError" where
  "phantom why args = mtp_invalid_data (''the device reported a copy it didn't make: handle {:#x} '' @ why) args"

definition verify_copy ::
  "'t transport_ops \<Rightarrow> ObjectHandle \<Rightarrow> ObjectHandle \<Rightarrow> ObjectHandle \<Rightarrow> StorageId \<Rightarrow> 't UsbBackend \<Rightarrow> (unit mres \<times> 't UsbBackend) option" where
  "verify_copy ops source copy dest_parent dest_storage ub =
     (if copy = source then Some (Err (phantom ''is the source object itself'' [unat copy]), ub)
      else
        Option.bind (on_session_opt (get_object_info ops copy) ub) (\<lambda>(r, ub).
          case r of
            Ok info \<Rightarrow>
              let expected = (if dest_parent = ROOT then ParentFilter.Root (Some dest_storage) else ParentFilter.Exact dest_parent) in
              if \<not> accepts expected (oi_parent info)
              then Some (Err (phantom ''sits under parent {:#x}, not the destination {:#x}''
                [unat copy, unat (oi_parent info), unat dest_parent]), ub)
              else Some (Ok (), ub)
          | Err e \<Rightarrow>
              if response_code e = Some ResponseCode.InvalidObjectHandle
              then Some (Err (phantom ''names no object'' [unat copy]), ub)
              else Some (Err (Error_from e), ub)
          | Panic \<Rightarrow> Some (Panic, ub)
          | Dropped \<Rightarrow> Some (Dropped, ub)))"

definition usb_copy_object ::
  "'t transport_ops \<Rightarrow> MtpObjectHandle \<Rightarrow> MtpObjectHandle \<Rightarrow> MtpStorageId \<Rightarrow> 't UsbBackend \<Rightarrow> (MtpObjectHandle mres \<times> 't UsbBackend) option" where
  "usb_copy_object ops obj new_parent new_storage ub =
     seq_opt (convert (on_session (copy_object ops (handle_to_ptp obj) (storage_to_ptp new_storage) (handle_to_ptp new_parent)) ub))
       (\<lambda>handle ub.
         then_opt (verify_copy ops (handle_to_ptp obj) handle (handle_to_ptp new_parent) (storage_to_ptp new_storage) ub)
           (\<lambda>_ ub. Some (Ok (handle_from_ptp handle), ub)))"

definition usb_rename :: "'t transport_ops \<Rightarrow> MtpObjectHandle \<Rightarrow> rstr \<Rightarrow> 't UsbBackend \<Rightarrow> unit mres \<times> 't UsbBackend" where
  "usb_rename ops obj new_name ub = convert (on_session (rename_object ops (handle_to_ptp obj) new_name) ub)"

section \<open>Events and closing\<close>

definition usb_next_event :: "'t transport_ops \<Rightarrow> 't UsbBackend \<Rightarrow> DeviceEvent mres \<times> 't UsbBackend" where
  "usb_next_event ops ub =
     seq_ok (convert (on_session (poll_event ops) ub)) (\<lambda>polled ub.
       case polled of
         Some container \<Rightarrow> (Ok (event_from_container container), ub)
       | None \<Rightarrow> (Err MtpError.Timeout, ub))"

text \<open>The outcome of \<open>CloseSession\<close> is ignored; a panic or a drop is not an outcome.\<close>

definition usb_close :: "'t transport_ops \<Rightarrow> 't UsbBackend \<Rightarrow> unit mres \<times> 't UsbBackend" where
  "usb_close ops ub =
     (case on_session (execute ops OperationCode.CloseSession []) ub of
        (Panic, ub) \<Rightarrow> (Panic, ub)
      | (Dropped, ub) \<Rightarrow> (Dropped, ub)
      | (_, ub) \<Rightarrow> (Ok (), ub))"

section \<open>The trait's implementation\<close>

definition usb_backend :: "'t transport_ops \<Rightarrow> ('t UsbBackend, ReceiveStream, 't UsbBackend UsbListing) MtpBackend" where
  "usb_backend ops =
     \<lparr>be_device_info = ub_device_info, be_capabilities = ub_capabilities, be_storages = usb_storages ops,
      be_storage_info = usb_storage_info ops, be_list = usb_list ops, be_next_item = usb_next_item ops,
      be_object_info = usb_object_info ops, be_download = usb_download ops, be_download_window = usb_download_window ops,
      be_next_chunk = usb_next_chunk ops, be_cancel = usb_cancel ops, be_drop = usb_drop,
      be_can_read_partially_at = can_read_partially_at, be_read_range = usb_read_range ops, be_thumbnail = usb_thumbnail ops,
      be_upload = usb_upload ops, be_create_folder = usb_create_folder ops, be_delete = usb_delete ops,
      be_move_object = usb_move_object ops, be_copy_object = usb_copy_object ops, be_rename = usb_rename ops,
      be_next_event = usb_next_event ops, be_close = usb_close ops\<rparr>"

lemma usb_backend_simps [simp]:
  "be_device_info (usb_backend ops) = ub_device_info" "be_capabilities (usb_backend ops) = ub_capabilities"
  "be_storages (usb_backend ops) = usb_storages ops" "be_storage_info (usb_backend ops) = usb_storage_info ops"
  "be_list (usb_backend ops) = usb_list ops" "be_next_item (usb_backend ops) = usb_next_item ops"
  "be_object_info (usb_backend ops) = usb_object_info ops" "be_download (usb_backend ops) = usb_download ops"
  "be_download_window (usb_backend ops) = usb_download_window ops" "be_next_chunk (usb_backend ops) = usb_next_chunk ops"
  "be_cancel (usb_backend ops) = usb_cancel ops" "be_drop (usb_backend ops) = usb_drop"
  "be_can_read_partially_at (usb_backend ops) = can_read_partially_at" "be_read_range (usb_backend ops) = usb_read_range ops"
  "be_thumbnail (usb_backend ops) = usb_thumbnail ops" "be_upload (usb_backend ops) = usb_upload ops"
  "be_create_folder (usb_backend ops) = usb_create_folder ops" "be_delete (usb_backend ops) = usb_delete ops"
  "be_move_object (usb_backend ops) = usb_move_object ops" "be_copy_object (usb_backend ops) = usb_copy_object ops"
  "be_rename (usb_backend ops) = usb_rename ops" "be_next_event (usb_backend ops) = usb_next_event ops"
  "be_close (usb_backend ops) = usb_close ops"
  by (simp_all add: usb_backend_def)

end
