(* ===== verification/Host_Fs.thy ===== *)
theory Host_Fs
  imports Errors Civil_Time "HOL-Library.Sublist" "HOL-Library.AList"
begin

text \<open>
  What the virtual device uses of \<open>std::path\<close> and \<open>std::fs\<close>, on a Unix host. A path is the list of its
  components, which is what the comparisons and projections of \<open>std::path\<close> work on; a trailing separator is
  not represented. The host is a list of the absolute paths that exist, with a directory or a file at each,
  in the order \<open>read_dir\<close> reports them; there are no symbolic links, permissions do not deny anything, and the
  disk is never full. Names and paths are limited as on Linux, to 255 and 4095 bytes.
  Times are nanoseconds from the Unix epoch.
\<close>

section \<open>Paths\<close>

datatype component = RootDir | CurDir | ParentDir | Normal rstr

type_synonym PathBuf = "component list"

fun split_on :: "nat \<Rightarrow> rstr \<Rightarrow> rstr list" where
  "split_on c [] = [[]]"
| "split_on c (x # xs) =
     (if x = c then [] # split_on c xs
      else case split_on c xs of [] \<Rightarrow> [[x]] | w # ws \<Rightarrow> (x # w) # ws)"

definition component_of :: "rstr \<Rightarrow> component" where
  "component_of name =
     (if name = str ''.'' then CurDir else if name = str ''..'' then ParentDir else Normal name)"

text \<open>\<open>Path::new(s).components()\<close>: separators are collapsed and \<open>.\<close> only stays in front.\<close>

definition components :: "rstr \<Rightarrow> PathBuf" where
  "components s =
     (let parts = map component_of (filter (\<lambda>w. w \<noteq> []) (split_on 47 s)) in
      if s \<noteq> [] \<and> hd s = 47 then RootDir # filter (\<lambda>c. c \<noteq> CurDir) parts
      else case parts of [] \<Rightarrow> [] | c # cs \<Rightarrow> c # filter (\<lambda>c. c \<noteq> CurDir) cs)"

definition path_join :: "PathBuf \<Rightarrow> PathBuf \<Rightarrow> PathBuf" where
  "path_join p q =
     (if q \<noteq> [] \<and> hd q = RootDir then q
      else if p = [] then q
      else p @ filter (\<lambda>c. c \<noteq> CurDir) q)"

definition path_parent :: "PathBuf \<Rightarrow> PathBuf option" where
  "path_parent p = (if p = [] \<or> last p = RootDir then None else Some (butlast p))"

definition file_name :: "PathBuf \<Rightarrow> rstr option" where
  "file_name p = (if p = [] then None else case last p of Normal n \<Rightarrow> Some n | _ \<Rightarrow> None)"

text \<open>\<open>Path::extension\<close>: what follows the last dot of the file name, unless that dot is its first character.\<close>

definition extension :: "PathBuf \<Rightarrow> rstr option" where
  "extension p =
     (case file_name p of
        None \<Rightarrow> None
      | Some n \<Rightarrow>
          let after = takeWhile (\<lambda>c. c \<noteq> 46) (rev n);
              before = drop (Suc (length after)) (rev n)
          in if 46 \<in> set n \<and> before \<noteq> [] then Some (rev after) else None)"

section \<open>The host\<close>

datatype node =
    DirNode (node_created: "int option") (node_modified: int)
  | FileNode (node_created: "int option") (node_modified: int) (node_content: bytes)

fun is_DirNode :: "node \<Rightarrow> bool" where
  "is_DirNode (DirNode c m) = True"
| "is_DirNode n = False"

record Host =
  host_files :: "(rstr list \<times> node) list"
  host_now :: int
  host_dir_len :: u64
  host_cwd :: "rstr list"

definition node_at :: "Host \<Rightarrow> rstr list \<Rightarrow> node option" where
  "node_at h p = (if p = [] then Some (DirNode None 0) else map_of (host_files h) p)"

definition dir_at :: "Host \<Rightarrow> rstr list \<Rightarrow> bool" where
  "dir_at h p \<longleftrightarrow> (case node_at h p of Some n \<Rightarrow> is_DirNode n | None \<Rightarrow> False)"

lemma dir_at_iff: "dir_at h p \<longleftrightarrow> (\<exists>n. node_at h p = Some n \<and> is_DirNode n)"
  by (auto simp: dir_at_def split: option.split)

datatype io_error = NotFound | OtherError

type_synonym 'a io = "('a, io_error) outcome"

definition NAME_MAX :: nat where
  "NAME_MAX = 255"

definition PATH_MAX :: nat where
  "PATH_MAX = 4096"

fun component_len :: "component \<Rightarrow> nat" where
  "component_len RootDir = 0"
| "component_len CurDir = 1"
| "component_len ParentDir = 2"
| "component_len (Normal n) = length (as_bytes n)"

text \<open>The bytes of a path with one separator in front of every component but the first of a relative one.\<close>

definition path_len :: "PathBuf \<Rightarrow> nat" where
  "path_len p =
     (if p = [RootDir] then 1
      else sum_list (map (\<lambda>c. component_len c + 1) p) - 1)"

definition too_long :: "PathBuf \<Rightarrow> bool" where
  "too_long p \<longleftrightarrow> PATH_MAX \<le> path_len p"

text \<open>The kernel's path walk, from a directory.\<close>

fun walk :: "Host \<Rightarrow> rstr list \<Rightarrow> component list \<Rightarrow> rstr list io" where
  "walk h cur [] = (if node_at h cur \<noteq> None then Ok cur else Err NotFound)"
| "walk h cur (c # cs) =
     (if node_at h cur = None then Err NotFound
      else if \<not> dir_at h cur then Err OtherError
      else
        (case c of
           RootDir \<Rightarrow> walk h [] cs
         | CurDir \<Rightarrow> walk h cur cs
         | ParentDir \<Rightarrow> walk h (butlast cur) cs
         | Normal n \<Rightarrow>
             if NAME_MAX < length (as_bytes n) then Err OtherError else walk h (cur @ [n]) cs))"

definition canonicalize :: "Host \<Rightarrow> PathBuf \<Rightarrow> rstr list io" where
  "canonicalize h p =
     (if p = [] then Err NotFound else if too_long p then Err OtherError else walk h (host_cwd h) p)"

definition canonical_path :: "rstr list \<Rightarrow> PathBuf" where
  "canonical_path p = RootDir # map Normal p"

definition metadata :: "Host \<Rightarrow> PathBuf \<Rightarrow> node io" where
  "metadata h p = bind_ok (canonicalize h p) (\<lambda>q. case node_at h q of Some n \<Rightarrow> Ok n | None \<Rightarrow> Err NotFound)"

text \<open>\<open>Metadata::len\<close>; for a directory the host reports a size of its own.\<close>

definition node_len :: "Host \<Rightarrow> node \<Rightarrow> u64" where
  "node_len h n = (case n of FileNode c m data \<Rightarrow> word_of_nat (length data) | DirNode c m \<Rightarrow> host_dir_len h)"

definition path_exists :: "Host \<Rightarrow> PathBuf \<Rightarrow> bool" where
  "path_exists h p \<longleftrightarrow> is_Ok (metadata h p)"

definition path_is_dir :: "Host \<Rightarrow> PathBuf \<Rightarrow> bool" where
  "path_is_dir h p \<longleftrightarrow> (case metadata h p of Ok n \<Rightarrow> is_DirNode n | _ \<Rightarrow> False)"

text \<open>The directory entry a path names, whether it exists or not.\<close>

definition entry_of :: "Host \<Rightarrow> PathBuf \<Rightarrow> rstr list io" where
  "entry_of h p =
     (if p = [] then Err NotFound
      else if too_long p then Err OtherError
      else
        (case last p of
           Normal n \<Rightarrow>
             bind_ok (walk h (host_cwd h) (butlast p)) (\<lambda>d.
               if \<not> dir_at h d \<or> NAME_MAX < length (as_bytes n) then Err OtherError else Ok (d @ [n]))
         | _ \<Rightarrow> Err OtherError))"

section \<open>Changing the host\<close>

text \<open>Changing the entries of a directory sets its modification time.\<close>

definition set_node :: "rstr list \<Rightarrow> node \<Rightarrow> Host \<Rightarrow> Host" where
  "set_node p n h = h\<lparr>host_files := AList.update p n (host_files h)\<rparr>"

definition touch :: "rstr list \<Rightarrow> Host \<Rightarrow> Host" where
  "touch d h =
     (case map_of (host_files h) d of
        Some (DirNode c m) \<Rightarrow> set_node d (DirNode c (host_now h)) h
      | _ \<Rightarrow> h)"

definition add_entry :: "rstr list \<Rightarrow> node \<Rightarrow> Host \<Rightarrow> Host" where
  "add_entry p n h = touch (butlast p) (set_node p n h)"

definition drop_below :: "rstr list \<Rightarrow> Host \<Rightarrow> Host" where
  "drop_below p h = h\<lparr>host_files := filter (\<lambda>(q, n). \<not> strict_prefix p q) (host_files h)\<rparr>"

definition drop_tree :: "rstr list \<Rightarrow> Host \<Rightarrow> Host" where
  "drop_tree p h = h\<lparr>host_files := filter (\<lambda>(q, n). \<not> prefix p q) (host_files h)\<rparr>"

definition fs_mkdir :: "PathBuf \<Rightarrow> Host \<Rightarrow> unit io \<times> Host" where
  "fs_mkdir p h =
     (if is_Ok (canonicalize h p) then (Err OtherError, h)
      else
        (case entry_of h p of
           Ok q \<Rightarrow> (Ok (), add_entry q (DirNode (Some (host_now h)) (host_now h)) h)
         | Err e \<Rightarrow> (Err e, h)
         | _ \<Rightarrow> (Err OtherError, h)))"

text \<open>\<open>std::fs::create_dir_all\<close>: try to make the directory, else make its parents first.\<close>

function create_dir_all :: "PathBuf \<Rightarrow> Host \<Rightarrow> unit io \<times> Host" where
  "create_dir_all p h =
     (if p = [] then (Ok (), h)
      else
        (case fst (fs_mkdir p h) of
           Ok u \<Rightarrow> fs_mkdir p h
         | r \<Rightarrow>
             if r = Err NotFound
             then
               (case path_parent p of
                  None \<Rightarrow> (Err OtherError, h)
                | Some q \<Rightarrow> seq_ok (create_dir_all q h) (\<lambda>_ h.
                    case fs_mkdir p h of
                      (Ok u, h) \<Rightarrow> (Ok u, h)
                    | (r, h) \<Rightarrow> (if path_is_dir h p then Ok () else r, h)))
             else (if path_is_dir h p then Ok () else r, h)))"
  by pat_completeness auto
termination
  by (relation "measure (\<lambda>(p, h). length p)") (auto simp: path_parent_def split: if_splits)

declare create_dir_all.simps [simp del]

definition fs_write :: "PathBuf \<Rightarrow> bytes \<Rightarrow> Host \<Rightarrow> unit io \<times> Host" where
  "fs_write p data h =
     (case entry_of h p of
        Ok q \<Rightarrow>
          (case node_at h q of
             Some (DirNode c m) \<Rightarrow> (Err OtherError, h)
           | Some (FileNode c m old) \<Rightarrow> (Ok (), set_node q (FileNode c (host_now h) data) h)
           | None \<Rightarrow> (Ok (), add_entry q (FileNode (Some (host_now h)) (host_now h) data) h))
      | Err e \<Rightarrow> (Err e, h)
      | _ \<Rightarrow> (Err OtherError, h))"

text \<open>Opening for writing and \<open>File::set_modified\<close>.\<close>

definition fs_set_modified :: "PathBuf \<Rightarrow> int \<Rightarrow> Host \<Rightarrow> unit io \<times> Host" where
  "fs_set_modified p time h =
     (case canonicalize h p of
        Ok q \<Rightarrow>
          (case node_at h q of
             Some (FileNode c m data) \<Rightarrow> (Ok (), set_node q (FileNode c time data) h)
           | _ \<Rightarrow> (Err OtherError, h))
      | Err e \<Rightarrow> (Err e, h)
      | _ \<Rightarrow> (Err OtherError, h))"

definition fs_read :: "Host \<Rightarrow> PathBuf \<Rightarrow> bytes io" where
  "fs_read h p = bind_ok (metadata h p) (\<lambda>n. case n of FileNode c m data \<Rightarrow> Ok data | _ \<Rightarrow> Err OtherError)"

definition fs_remove_file :: "PathBuf \<Rightarrow> Host \<Rightarrow> unit io \<times> Host" where
  "fs_remove_file p h =
     (case entry_of h p of
        Ok q \<Rightarrow>
          (case node_at h q of
             Some (FileNode c m data) \<Rightarrow> (Ok (), touch (butlast q) (drop_tree q h))
           | Some _ \<Rightarrow> (Err OtherError, h)
           | None \<Rightarrow> (Err NotFound, h))
      | Err e \<Rightarrow> (Err e, h)
      | _ \<Rightarrow> (Err OtherError, h))"

text \<open>
  \<open>remove_dir_all\<close> empties the directory and then removes it, which the kernel refuses for a path that ends in
  \<open>..\<close>, \<open>.\<close> or the root.
\<close>

definition fs_remove_dir_all :: "PathBuf \<Rightarrow> Host \<Rightarrow> unit io \<times> Host" where
  "fs_remove_dir_all p h =
     (case canonicalize h p of
        Ok q \<Rightarrow>
          if \<not> dir_at h q then (Err OtherError, h)
          else if file_name p \<noteq> None then (Ok (), touch (butlast q) (drop_tree q h))
          else (Err OtherError, drop_below q h)
      | Err e \<Rightarrow> (Err e, h)
      | _ \<Rightarrow> (Err OtherError, h))"

definition empty_dir :: "Host \<Rightarrow> rstr list \<Rightarrow> bool" where
  "empty_dir h p \<longleftrightarrow> list_all (\<lambda>(q, n). \<not> strict_prefix p q) (host_files h)"

definition relocate :: "rstr list \<Rightarrow> rstr list \<Rightarrow> Host \<Rightarrow> Host" where
  "relocate src dst h =
     h\<lparr>host_files := map (\<lambda>(q, n). if prefix src q then (dst @ drop (length src) q, n) else (q, n)) (host_files h)\<rparr>"

text \<open>\<open>rename(2)\<close> on one file system.\<close>

definition fs_rename :: "PathBuf \<Rightarrow> PathBuf \<Rightarrow> Host \<Rightarrow> unit io \<times> Host" where
  "fs_rename src dst h =
     (case (entry_of h src, entry_of h dst) of
        (Ok s, Ok d) \<Rightarrow>
          (case node_at h s of
             None \<Rightarrow> (Err NotFound, h)
           | Some n \<Rightarrow>
               if s = d then (Ok (), h)
               else if is_DirNode n \<and> prefix s d then (Err OtherError, h)
               else if (case node_at h d of
                          None \<Rightarrow> False
                        | Some m \<Rightarrow> is_DirNode m \<noteq> is_DirNode n \<or> is_DirNode m \<and> \<not> empty_dir h d)
               then (Err OtherError, h)
               else (Ok (), touch (butlast d) (touch (butlast s) (relocate s d (drop_tree d h)))))
      | (Err e, _) \<Rightarrow> (Err e, h)
      | (_, Err e) \<Rightarrow> (Err e, h)
      | _ \<Rightarrow> (Err OtherError, h))"

text \<open>The names in a directory, in the order of the host.\<close>

definition children :: "Host \<Rightarrow> rstr list \<Rightarrow> (rstr \<times> node) list" where
  "children h d =
     map (\<lambda>(q, n). (last q, n)) (filter (\<lambda>(q, n). q \<noteq> [] \<and> butlast q = d) (host_files h))"

definition fs_read_dir :: "Host \<Rightarrow> PathBuf \<Rightarrow> (rstr \<times> node) list io" where
  "fs_read_dir h p = bind_ok (canonicalize h p) (\<lambda>q. if dir_at h q then Ok (children h q) else Err OtherError)"

text \<open>
  Opening the destination without truncating it and copying the source's bytes over it: a longer destination keeps
  its tail.
\<close>

definition fs_overwrite :: "PathBuf \<Rightarrow> bytes \<Rightarrow> Host \<Rightarrow> unit io \<times> Host" where
  "fs_overwrite p data h =
     (case entry_of h p of
        Ok q \<Rightarrow>
          (case node_at h q of
             Some (DirNode c m) \<Rightarrow> (Err OtherError, h)
           | Some (FileNode c m old) \<Rightarrow>
               if data = [] then (Ok (), h)
               else (Ok (), set_node q (FileNode c (host_now h) (data @ drop (length data) old)) h)
           | None \<Rightarrow> (Ok (), add_entry q (FileNode (Some (host_now h)) (host_now h) data) h))
      | Err e \<Rightarrow> (Err e, h)
      | _ \<Rightarrow> (Err OtherError, h))"

text \<open>\<open>std::fs::copy\<close> truncates the destination first, which empties a file copied onto itself.\<close>

definition fs_copy :: "PathBuf \<Rightarrow> PathBuf \<Rightarrow> Host \<Rightarrow> unit io \<times> Host" where
  "fs_copy src dst h = seq_ok (fs_read h src, h) (\<lambda>data h.
     fs_write dst (if canonicalize h src = canonicalize h dst then [] else data) h)"

end
