(* ===== verification/Virtual_State.thy ===== *)
theory Virtual_State
  imports Host_Fs Datasets
begin

text \<open>
  The state of the virtual device (\<open>transport/virtual_device/state.rs\<close>) and its configuration (\<open>config.rs\<close>). The host's
  file system is part of the state, as the device is the only one to change it between two calls. Hash maps are
  association lists; where the source iterates over one, the list gives one of the orders the iteration may take.
  The two fields of the watcher, the pause count and the dropped paths, are added in \<open>Virtual_Watcher\<close>. Intervals are
  milliseconds.
\<close>

section \<open>Configuration\<close>

record VirtualStorageConfig =
  vs_description :: rstr
  vs_capacity :: u64
  vs_backing_dir :: PathBuf
  vs_read_only :: bool

record VirtualDeviceConfig =
  vc_manufacturer :: rstr
  vc_model :: rstr
  vc_serial :: rstr
  vc_storages :: "VirtualStorageConfig list"
  vc_supports_rename :: bool
  vc_supports_partial_object_64 :: bool
  vc_supports_partial_object :: bool
  vc_supports_object_prop_list :: bool
  vc_prop_list_declined_properties :: "ObjectPropertyCode list"
  vc_event_poll_interval :: nat
  vc_watch_backing_dirs :: bool
  vc_undescribable_objects :: "rstr list"
  vc_utc_offset :: UtcOffset
  vc_dates_include_offset :: bool

definition VirtualDeviceConfig_default :: VirtualDeviceConfig where
  "VirtualDeviceConfig_default = \<lparr>vc_manufacturer = str ''mtp-rs'', vc_model = str ''Virtual Device'',
     vc_serial = str ''virtual-0001'', vc_storages = [], vc_supports_rename = True,
     vc_supports_partial_object_64 = True, vc_supports_partial_object = True, vc_supports_object_prop_list = True,
     vc_prop_list_declined_properties = [], vc_event_poll_interval = 50, vc_watch_backing_dirs = True,
     vc_undescribable_objects = [], vc_utc_offset = UTC, vc_dates_include_offset = False\<rparr>"

section \<open>State\<close>

record VirtualStorageState =
  vss_config :: VirtualStorageConfig
  vss_storage_id :: StorageId

record VirtualObject =
  vo_rel_path :: PathBuf
  vo_storage_id :: StorageId
  vo_parent :: ObjectHandle

record PendingSendInfo =
  ps_storage_id :: StorageId
  ps_parent :: ObjectHandle
  ps_filename :: rstr
  ps_size :: u64
  ps_is_folder :: bool
  ps_assigned_handle :: ObjectHandle
  ps_modified :: "int option"

record PendingCommand =
  pc_code :: u16
  pc_tx_id :: u32
  pc_params :: "u32 list"

record VirtualDeviceState =
  vd_host :: Host
  vd_config :: VirtualDeviceConfig
  vd_session_open :: bool
  vd_next_handle :: u32
  vd_objects :: "(u32 \<times> VirtualObject) list"
  vd_storages :: "VirtualStorageState list"
  vd_pending_send :: "PendingSendInfo option"
  vd_pending_command :: "PendingCommand option"
  vd_event_queue :: "bytes list"
  vd_response_queue :: "bytes list"
  vd_forced_partial_read_caps :: "usize list"
  vd_pending_cancel_wedge :: bool
  vd_pending_operation_wedge :: bool
  vd_forced_object_info_errors :: "(u32 \<times> u16) list"
  vd_operation_counts :: "(u16 \<times> u32) list"

definition resolve_storage :: "Host \<Rightarrow> nat \<Rightarrow> VirtualStorageConfig \<Rightarrow> VirtualStorageState" where
  "resolve_storage h i sc =
     \<lparr>vss_config = (case canonicalize h (vs_backing_dir sc) of
                      Ok q \<Rightarrow> sc\<lparr>vs_backing_dir := canonical_path q\<rparr>
                    | _ \<Rightarrow> sc),
      vss_storage_id = 0x00010001 + word_of_nat i\<rparr>"

definition VirtualDeviceState_new :: "Host \<Rightarrow> VirtualDeviceConfig \<Rightarrow> VirtualDeviceState" where
  "VirtualDeviceState_new h config =
     \<lparr>vd_host = h, vd_config = config, vd_session_open = False, vd_next_handle = 1, vd_objects = [],
      vd_storages = map (\<lambda>(i, sc). resolve_storage h i sc) (List.enumerate 0 (vc_storages config)),
      vd_pending_send = None, vd_pending_command = None, vd_event_queue = [], vd_response_queue = [],
      vd_forced_partial_read_caps = [], vd_pending_cancel_wedge = False, vd_pending_operation_wedge = False,
      vd_forced_object_info_errors = [], vd_operation_counts = []\<rparr>"

definition object_at :: "VirtualDeviceState \<Rightarrow> u32 \<Rightarrow> VirtualObject option" where
  "object_at st = map_of (vd_objects st)"

definition insert_object :: "u32 \<Rightarrow> VirtualObject \<Rightarrow> VirtualDeviceState \<Rightarrow> VirtualDeviceState" where
  "insert_object handle obj st = st\<lparr>vd_objects := AList.update handle obj (vd_objects st)\<rparr>"

definition push_event :: "bytes \<Rightarrow> VirtualDeviceState \<Rightarrow> VirtualDeviceState" where
  "push_event ev st = st\<lparr>vd_event_queue := vd_event_queue st @ [ev]\<rparr>"

text \<open>The counter wraps as in a release build; with overflow checks the allocation after the last 32-bit handle would panic.\<close>

definition alloc_handle :: "VirtualDeviceState \<Rightarrow> ObjectHandle \<times> VirtualDeviceState" where
  "alloc_handle st = (vd_next_handle st, st\<lparr>vd_next_handle := vd_next_handle st + 1\<rparr>)"

definition rekey_object :: "PathBuf \<Rightarrow> VirtualDeviceState \<Rightarrow> (ObjectHandle \<times> ObjectHandle) option \<times> VirtualDeviceState" where
  "rekey_object rel_path st =
     (case List.find (\<lambda>(handle, obj). vo_rel_path obj = rel_path) (vd_objects st) of
        None \<Rightarrow> (None, st)
      | Some (old, obj) \<Rightarrow>
          let (new, st) = alloc_handle st;
              objects = AList.update new obj (AList.delete old (vd_objects st));
              objects = map (\<lambda>(handle, child).
                (handle, if vo_parent child = old then child\<lparr>vo_parent := new\<rparr> else child)) objects
          in (Some (old, new), st\<lparr>vd_objects := objects\<rparr>))"

definition find_storage :: "VirtualDeviceState \<Rightarrow> StorageId \<Rightarrow> VirtualStorageState option" where
  "find_storage st sid = List.find (\<lambda>s. vss_storage_id s = sid) (vd_storages st)"

definition backing_dir :: "VirtualStorageState \<Rightarrow> PathBuf" where
  "backing_dir s = vs_backing_dir (vss_config s)"

section \<open>Scanning\<close>

text \<open>One entry of a directory: its handle, allocated when the path is not tracked yet.\<close>

definition track :: "StorageId \<Rightarrow> ObjectHandle \<Rightarrow> PathBuf \<Rightarrow> VirtualDeviceState \<Rightarrow> ObjectHandle \<times> VirtualDeviceState" where
  "track storage_id parent rel st =
     (case List.find (\<lambda>(handle, obj). vo_storage_id obj = storage_id \<and> vo_rel_path obj = rel) (vd_objects st) of
        Some (handle, obj) \<Rightarrow> (handle, st)
      | None \<Rightarrow>
          let (handle, st) = alloc_handle st in
          (handle, insert_object handle
             \<lparr>vo_rel_path = rel, vo_storage_id = storage_id, vo_parent = parent\<rparr> st))"

fun track_all ::
  "StorageId \<Rightarrow> ObjectHandle \<Rightarrow> PathBuf list \<Rightarrow> VirtualDeviceState \<Rightarrow> ObjectHandle list \<times> VirtualDeviceState" where
  "track_all storage_id parent [] st = ([], st)"
| "track_all storage_id parent (rel # rels) st =
     (let (handle, st) = track storage_id parent rel st;
          (handles, st) = track_all storage_id parent rels st
      in (handle # handles, st))"

definition scan_dir ::
  "StorageId \<Rightarrow> ObjectHandle \<Rightarrow> VirtualDeviceState \<Rightarrow> ObjectHandle list io \<times> VirtualDeviceState" where
  "scan_dir storage_id parent st =
     (case find_storage st storage_id of
        None \<Rightarrow> (Err NotFound, st)
      | Some storage \<Rightarrow>
          (case (if parent = ROOT then Some []
                 else
                   (case object_at st parent of
                      Some obj \<Rightarrow> if vo_storage_id obj = storage_id then Some (vo_rel_path obj) else None
                    | None \<Rightarrow> None)) of
             None \<Rightarrow> (Ok [], st)
           | Some parent_rel \<Rightarrow>
               let dir_path = (if parent = ROOT then backing_dir storage else path_join (backing_dir storage) parent_rel) in
               if \<not> path_is_dir (vd_host st) dir_path then (Ok [], st)
               else
                 seq_ok (fs_read_dir (vd_host st) dir_path, st) (\<lambda>entries st.
                   let rels = map (\<lambda>(name, n).
                         if parent = ROOT then [Normal name] else path_join parent_rel [Normal name]) entries
                   in apfst Ok (track_all storage_id parent rels st))))"

text \<open>
  The loop of \<open>scan_all\<close> takes the last handle of its queue and appends the children of a directory. It visits every
  directory below the root once, so the number of paths on the host bounds its rounds.
\<close>

fun scan_queue ::
  "nat \<Rightarrow> StorageId \<Rightarrow> ObjectHandle list \<Rightarrow> ObjectHandle list \<Rightarrow> VirtualDeviceState \<Rightarrow> ObjectHandle list io \<times> VirtualDeviceState" where
  "scan_queue 0 storage_id queue all st = (Ok all, st)"
| "scan_queue (Suc rounds) storage_id queue all st =
     (if queue = [] then (Ok all, st)
      else
        let handle = last queue; queue = butlast queue in
        (case object_at st handle of
           None \<Rightarrow> scan_queue rounds storage_id queue all st
         | Some obj \<Rightarrow>
             (case find_storage st storage_id of
                None \<Rightarrow> scan_queue rounds storage_id queue all st
              | Some storage \<Rightarrow>
                  if path_is_dir (vd_host st) (path_join (backing_dir storage) (vo_rel_path obj))
                  then seq_ok (scan_dir storage_id handle st) (\<lambda>kids st.
                    scan_queue rounds storage_id (queue @ kids) (all @ kids) st)
                  else scan_queue rounds storage_id queue all st)))"

definition scan_all :: "StorageId \<Rightarrow> VirtualDeviceState \<Rightarrow> ObjectHandle list io \<times> VirtualDeviceState" where
  "scan_all storage_id st =
     seq_ok (scan_dir storage_id ROOT st) (\<lambda>roots st.
       scan_queue (length (host_files (vd_host st)) + 1) storage_id roots roots st)"

definition resolve_path :: "VirtualDeviceState \<Rightarrow> ObjectHandle \<Rightarrow> PathBuf option" where
  "resolve_path st handle =
     Option.bind (object_at st handle) (\<lambda>obj.
     Option.bind (find_storage st (vo_storage_id obj)) (\<lambda>storage.
       Some (path_join (backing_dir storage) (vo_rel_path obj))))"

definition is_read_only :: "VirtualDeviceState \<Rightarrow> StorageId \<Rightarrow> bool" where
  "is_read_only st sid = (case find_storage st sid of Some s \<Rightarrow> vs_read_only (vss_config s) | None \<Rightarrow> False)"

end
