(* ===== verification/Virtual_Builders.thy ===== *)
theory Virtual_Builders
  imports Virtual_State Container
begin

text \<open>
  The payloads and containers the virtual device sends (\<open>transport/virtual_device/builders.rs\<close>), and the rescan of its
  backing directories (\<open>state.rs\<close>), which queues events.
\<close>

section \<open>Strings and times\<close>

definition len_utf16 :: "nat \<Rightarrow> nat" where
  "len_utf16 c = (if c < 0x10000 then 1 else 2)"

text \<open>The characters up to the first that does not fit, given the units already used.\<close>

fun fitting :: "nat \<Rightarrow> rstr \<Rightarrow> rstr" where
  "fitting units [] = []"
| "fitting units (c # cs) =
     (if MAX_STRING_UNITS < units + len_utf16 c then [] else c # fitting (units + len_utf16 c) cs)"

text \<open>The \<open>expect\<close> on the packed string panics should it not fit.\<close>

definition pack_device_string :: "rstr \<Rightarrow> bytes res" where
  "pack_device_string s = (case pack_string (fitting 0 s) of Ok bs \<Rightarrow> Ok bs | _ \<Rightarrow> Panic)"

definition I64_MAX :: int where
  "I64_MAX = 9223372036854775807"

text \<open>Whole seconds of a time in nanoseconds, rounded down.\<close>

definition unix_seconds :: "int \<Rightarrow> int option" where
  "unix_seconds time =
     (if 0 \<le> time
      then if time div 1000000000 \<le> I64_MAX then Some (time div 1000000000) else None
      else
        let before = - time; secs = before div 1000000000 in
        if I64_MAX < secs then None
        else Some (if 0 < before mod 1000000000 then - secs - 1 else - secs))"

definition system_time_from_unix :: "int \<Rightarrow> int" where
  "system_time_from_unix secs = secs * 1000000000"

definition file_time_text :: "VirtualDeviceConfig \<Rightarrow> int option \<Rightarrow> rstr" where
  "file_time_text config time =
     (case Option.bind (Option.bind time unix_seconds) (\<lambda>secs.
            Option.bind (from_unix_seconds secs (vc_utc_offset config)) (\<lambda>dt.
              format (dt\<lparr>dt_offset := (if vc_dates_include_offset config then dt_offset dt else None)\<rparr>))) of
        Some text \<Rightarrow> text
      | None \<Rightarrow> [])"

definition pack_file_time :: "VirtualDeviceConfig \<Rightarrow> int option \<Rightarrow> bytes res" where
  "pack_file_time config time = pack_device_string (file_time_text config time)"

section \<open>Containers\<close>

definition build_response :: "u16 \<Rightarrow> u32 \<Rightarrow> u32 list \<Rightarrow> bytes" where
  "build_response code tx_id ps =
     pack_u32 (word_of_nat (12 + length ps * 4)) @ pack_u16 3 @ pack_u16 code @ pack_u32 tx_id
     @ concat (map pack_u32 ps)"

definition build_data_container :: "u16 \<Rightarrow> u32 \<Rightarrow> bytes \<Rightarrow> bytes" where
  "build_data_container op_code tx_id payload =
     pack_u32 (word_of_nat (12 + length payload)) @ pack_u16 2 @ pack_u16 op_code @ pack_u32 tx_id @ payload"

definition build_event :: "EventCode \<Rightarrow> u32 list \<Rightarrow> bytes" where
  "build_event code ps =
     (let param_count = min (length ps) 3 in
      pack_u32 (word_of_nat (12 + param_count * 4)) @ pack_u16 4 @ pack_u16 (EventCode_into code) @ pack_u32 0
      @ concat (map pack_u32 (take param_count ps)))"

section \<open>Device and storage information\<close>

definition supported_operations :: "VirtualDeviceConfig \<Rightarrow> OperationCode list" where
  "supported_operations config =
     [OperationCode.GetDeviceInfo, OperationCode.OpenSession, OperationCode.CloseSession, OperationCode.GetStorageIds,
      OperationCode.GetStorageInfo, OperationCode.GetObjectHandles, OperationCode.GetObjectInfo, OperationCode.GetObject,
      OperationCode.GetThumb, OperationCode.SendObjectInfo, OperationCode.SendObject, OperationCode.DeleteObject,
      OperationCode.MoveObject, OperationCode.CopyObject, OperationCode.GetObjectPropValue]
     @ (if vc_supports_partial_object config then [OperationCode.GetPartialObject] else [])
     @ (if vc_supports_partial_object_64 config then [OperationCode.GetPartialObject64] else [])
     @ (if vc_supports_rename config then [OperationCode.SetObjectPropValue] else [])
     @ (if vc_supports_object_prop_list config then [OperationCode.GetObjectPropList] else [])"

definition build_device_info :: "VirtualDeviceConfig \<Rightarrow> bytes res" where
  "build_device_info config =
     bind_ok (pack_device_string (str ''microsoft.com: 1.0'')) (\<lambda>ext.
     bind_ok (pack_device_string (vc_manufacturer config)) (\<lambda>manufacturer.
     bind_ok (pack_device_string (vc_model config)) (\<lambda>model.
     bind_ok (pack_device_string (str ''1.0.0'')) (\<lambda>version.
     bind_ok (pack_device_string (vc_serial config)) (\<lambda>serial.
       Ok (pack_u16 100 @ pack_u32 6 @ pack_u16 100 @ ext @ pack_u16 0
           @ pack_u16_array (map OperationCode_into (supported_operations config))
           @ pack_u16_array (map EventCode_into
               [EventCode.ObjectAdded, EventCode.ObjectRemoved, EventCode.StorageInfoChanged])
           @ pack_u16_array [] @ pack_u16_array []
           @ pack_u16_array (map ObjectFormatCode_into
               [ObjectFormatCode.Undefined, ObjectFormatCode.Association, ObjectFormatCode.Text, ObjectFormatCode.Jpeg,
                ObjectFormatCode.Png, ObjectFormatCode.Mp3, ObjectFormatCode.Mp4Container])
           @ manufacturer @ model @ version @ serial))))))"

text \<open>
  The size of the files below a directory. A path holds fewer than \<open>PATH_MAX\<close> components, which bounds the depth of the
  recursion. Sums are taken modulo 2^64.
\<close>

fun dir_size :: "nat \<Rightarrow> Host \<Rightarrow> PathBuf \<Rightarrow> u64" where
  "dir_size 0 h p = 0"
| "dir_size (Suc depth) h p =
     (if \<not> path_is_dir h p then 0
      else
        (case fs_read_dir h p of
           Ok entries \<Rightarrow>
             sum_list (map (\<lambda>(name, n).
               case n of
                 FileNode c m data \<Rightarrow> word_of_nat (length data)
               | DirNode c m \<Rightarrow> dir_size depth h (path_join p [Normal name])) entries)
         | _ \<Rightarrow> 0))"

definition compute_free_space :: "Host \<Rightarrow> VirtualStorageConfig \<Rightarrow> u64" where
  "compute_free_space h config =
     (let used = dir_size PATH_MAX h (vs_backing_dir config) in
      if used \<le> vs_capacity config then vs_capacity config - used else 0)"

definition build_storage_info :: "VirtualDeviceState \<Rightarrow> StorageId \<Rightarrow> bytes res option" where
  "build_storage_info st storage_id =
     (case find_storage st storage_id of
        None \<Rightarrow> None
      | Some storage \<Rightarrow>
          Some (bind_ok (pack_device_string (vs_description (vss_config storage))) (\<lambda>description.
                bind_ok (pack_device_string []) (\<lambda>volume.
                  Ok (pack_u16 3 @ pack_u16 2
                      @ pack_u16 (if vs_read_only (vss_config storage) then 1 else 0)
                      @ pack_u64 (vs_capacity (vss_config storage))
                      @ pack_u64 (compute_free_space (vd_host st) (vss_config storage))
                      @ pack_u32 0xFFFFFFFF @ description @ volume)))))"

section \<open>Objects\<close>

record ObjectFacts =
  of_storage_id :: StorageId
  of_parent :: ObjectHandle
  of_filename :: rstr
  of_is_dir :: bool
  of_size :: u64
  of_format :: u16
  of_created :: "int option"
  of_modified :: "int option"

definition object_facts :: "ObjectHandle \<Rightarrow> VirtualDeviceState \<Rightarrow> ObjectFacts option" where
  "object_facts handle st =
     Option.bind (object_at st handle) (\<lambda>obj.
     Option.bind (find_storage st (vo_storage_id obj)) (\<lambda>storage.
       case metadata (vd_host st) (path_join (backing_dir storage) (vo_rel_path obj)) of
         Ok n \<Rightarrow>
           let is_dir = is_DirNode n;
               fmt = (if is_dir then ObjectFormatCode.Association
                      else from_extension (case extension (vo_rel_path obj) of Some e \<Rightarrow> e | None \<Rightarrow> []))
           in Some \<lparr>of_storage_id = vo_storage_id obj, of_parent = vo_parent obj,
                of_filename = (case file_name (vo_rel_path obj) of Some name \<Rightarrow> name | None \<Rightarrow> []),
                of_is_dir = is_dir,
                of_size = (case n of FileNode c m data \<Rightarrow> word_of_nat (length data) | _ \<Rightarrow> 0),
                of_format = ObjectFormatCode_into fmt,
                of_created = node_created n, of_modified = Some (node_modified n)\<rparr>
       | _ \<Rightarrow> None))"

definition build_object_info :: "ObjectHandle \<Rightarrow> VirtualDeviceState \<Rightarrow> bytes res option" where
  "build_object_info handle st =
     map_option (\<lambda>facts.
       bind_ok (pack_device_string (of_filename facts)) (\<lambda>filename.
       bind_ok (pack_file_time (vd_config st) (of_created facts)) (\<lambda>created.
       bind_ok (pack_file_time (vd_config st) (of_modified facts)) (\<lambda>modified.
         Ok (pack_u32 (of_storage_id facts) @ pack_u16 (of_format facts) @ pack_u16 0
             @ pack_u32 (ucast (min (of_size facts) 0xFFFFFFFF))
             @ pack_u16 (ObjectFormatCode_into ObjectFormatCode.Undefined)
             @ pack_u32 0 @ pack_u32 0 @ pack_u32 0 @ pack_u32 0 @ pack_u32 0 @ pack_u32 0
             @ pack_u32 (of_parent facts) @ pack_u16 (if of_is_dir facts then 1 else 0)
             @ pack_u32 0 @ pack_u32 0 @ filename @ created @ modified @ [0x00])))))
     (object_facts handle st)"

section \<open>Rescanning\<close>

definition strip_prefix :: "PathBuf \<Rightarrow> PathBuf \<Rightarrow> PathBuf option" where
  "strip_prefix p base = (if prefix base p then Some (drop (length base) p) else None)"

text \<open>
  Every entry that is not tracked yet is tracked and announced, depth first. The depth of the recursion is bounded like
  that of \<open>dir_size\<close>.
\<close>

fun rescan_dir ::
  "nat \<Rightarrow> StorageId \<Rightarrow> PathBuf \<Rightarrow> PathBuf \<Rightarrow> ObjectHandle \<Rightarrow> VirtualDeviceState \<Rightarrow> u32 \<times> VirtualDeviceState" where
  "rescan_dir 0 storage_id backing dir_path parent st = (0, st)"
| "rescan_dir (Suc depth) storage_id backing dir_path parent st =
     (case fs_read_dir (vd_host st) dir_path of
        Ok entries \<Rightarrow>
          foldl (\<lambda>(added, st) (name, n).
            let full_path = path_join dir_path [Normal name] in
            case strip_prefix full_path backing of
              None \<Rightarrow> (added, st)
            | Some rel_path \<Rightarrow>
                let (handle, added, st) =
                  (case List.find (\<lambda>(h, obj). vo_storage_id obj = storage_id \<and> vo_rel_path obj = rel_path) (vd_objects st) of
                     Some (h, obj) \<Rightarrow> (h, added, st)
                   | None \<Rightarrow>
                       let (h, st) = alloc_handle st;
                           st = insert_object h
                             \<lparr>vo_rel_path = rel_path, vo_storage_id = storage_id, vo_parent = parent\<rparr> st
                       in (h, added + 1, push_event (build_event EventCode.ObjectAdded [h]) st))
                in
                if path_is_dir (vd_host st) full_path
                then (case rescan_dir depth storage_id backing full_path handle st of (k, st) \<Rightarrow> (added + k, st))
                else (added, st)) (0, st) entries
      | _ \<Rightarrow> (0, st))"

record RescanSummary =
  rescan_added :: u32
  rescan_removed :: u32

definition stale_objects :: "VirtualDeviceState \<Rightarrow> (u32 \<times> StorageId) list" where
  "stale_objects st =
     List.map_filter (\<lambda>(handle, obj).
       case find_storage st (vo_storage_id obj) of
         None \<Rightarrow> None
       | Some storage \<Rightarrow>
           if \<not> path_exists (vd_host st) (path_join (backing_dir storage) (vo_rel_path obj))
           then Some (handle, vo_storage_id obj) else None) (vd_objects st)"

text \<open>The set of changed storages is visited in the order they were found to have changed.\<close>

definition rescan_backing_dirs :: "VirtualDeviceState \<Rightarrow> RescanSummary \<times> VirtualDeviceState" where
  "rescan_backing_dirs st =
     (let stale = stale_objects st;
          st = foldl (\<lambda>st (handle, storage_id).
            push_event (build_event EventCode.ObjectRemoved [handle])
              (st\<lparr>vd_objects := AList.delete handle (vd_objects st)\<rparr>)) st stale;
          (added, changed, st) = foldl (\<lambda>(added, changed, st) storage.
            case rescan_dir PATH_MAX (vss_storage_id storage) (backing_dir storage) (backing_dir storage) ROOT st of
              (k, st) \<Rightarrow> (added + k, if k > 0 then changed @ [vss_storage_id storage] else changed, st))
            (0, map snd stale, st) (vd_storages st);
          st = foldl (\<lambda>st storage_id. push_event (build_event EventCode.StorageInfoChanged [storage_id]) st) st
            (remdups changed)
      in (\<lparr>rescan_added = added, rescan_removed = word_of_nat (length stale)\<rparr>, st))"

end
