(* ===== verification/Virtual_Handlers.thy ===== *)
theory Virtual_Handlers
  imports Virtual_Builders
begin

text \<open>
  The operations of the virtual device (\<open>transport/virtual_device/handlers.rs\<close>, \<open>prop_list.rs\<close>). A handler takes the state
  and returns the state with its containers queued; an \<open>unwrap\<close> or \<open>expect\<close> that does not hold is a panic.
\<close>

section \<open>Queueing answers\<close>

abbreviation (input) OK_CODE :: u16 where "OK_CODE \<equiv> 0x2001"

definition GENERAL_ERROR :: u16 where "GENERAL_ERROR = 0x2002"
definition SESSION_NOT_OPEN :: u16 where "SESSION_NOT_OPEN = 0x2003"
definition OPERATION_NOT_SUPPORTED :: u16 where "OPERATION_NOT_SUPPORTED = 0x2005"
definition PARAMETER_NOT_SUPPORTED :: u16 where "PARAMETER_NOT_SUPPORTED = 0x2006"
definition INVALID_STORAGE_ID :: u16 where "INVALID_STORAGE_ID = 0x2008"
definition INVALID_OBJECT_HANDLE :: u16 where "INVALID_OBJECT_HANDLE = 0x2009"
definition STORE_READ_ONLY :: u16 where "STORE_READ_ONLY = 0x200E"
definition NO_THUMBNAIL :: u16 where "NO_THUMBNAIL = 0x2010"
definition INVALID_PARENT :: u16 where "INVALID_PARENT = 0x201A"
definition SESSION_ALREADY_OPEN :: u16 where "SESSION_ALREADY_OPEN = 0x201E"
definition INVALID_OBJECT_PROP_CODE :: u16 where "INVALID_OBJECT_PROP_CODE = 0xA801"
definition SPECIFICATION_BY_GROUP_UNSUPPORTED :: u16 where "SPECIFICATION_BY_GROUP_UNSUPPORTED = 0xA807"
definition SPECIFICATION_BY_DEPTH_UNSUPPORTED :: u16 where "SPECIFICATION_BY_DEPTH_UNSUPPORTED = 0xA808"
definition AOSP_TRUNCATED_INVALID_HANDLE :: u32 where "AOSP_TRUNCATED_INVALID_HANDLE = 0x0000FFFF"

type_synonym handled = "unit res \<times> VirtualDeviceState"

definition push_response :: "bytes \<Rightarrow> VirtualDeviceState \<Rightarrow> VirtualDeviceState" where
  "push_response container st = st\<lparr>vd_response_queue := vd_response_queue st @ [container]\<rparr>"

definition respond :: "u16 \<Rightarrow> u32 \<Rightarrow> u32 list \<Rightarrow> VirtualDeviceState \<Rightarrow> handled" where
  "respond code tx_id ps st = (Ok (), push_response (build_response code tx_id ps) st)"

definition send_payload :: "u16 \<Rightarrow> u32 \<Rightarrow> bytes res \<Rightarrow> VirtualDeviceState \<Rightarrow> handled" where
  "send_payload op_code tx_id payload st =
     seq_ok (payload, st) (\<lambda>payload st.
       respond OK_CODE tx_id [] (push_response (build_data_container op_code tx_id payload) st))"

definition param :: "u32 list \<Rightarrow> nat \<Rightarrow> u32" where
  "param ps i = (if i < length ps then ps ! i else 0)"

definition on_host :: "(Host \<Rightarrow> 'a \<times> Host) \<Rightarrow> VirtualDeviceState \<Rightarrow> 'a \<times> VirtualDeviceState" where
  "on_host f st = (case f (vd_host st) of (r, h) \<Rightarrow> (r, st\<lparr>vd_host := h\<rparr>))"

definition unwrap :: "'a option \<Rightarrow> VirtualDeviceState \<Rightarrow> ('a \<Rightarrow> handled) \<Rightarrow> handled" where
  "unwrap x st k = (case x of Some v \<Rightarrow> k v | None \<Rightarrow> (Panic, st))"

definition unsupported :: "u32 \<Rightarrow> VirtualDeviceState \<Rightarrow> handled" where
  "unsupported tx_id = respond OPERATION_NOT_SUPPORTED tx_id []"

section \<open>Copying\<close>

definition is_same_file :: "Host \<Rightarrow> PathBuf \<Rightarrow> PathBuf \<Rightarrow> bool" where
  "is_same_file h a b \<longleftrightarrow>
     is_Ok (metadata h a) \<and> is_Ok (metadata h b) \<and> canonicalize h a = canonicalize h b"

definition copy_file_in_place :: "PathBuf \<Rightarrow> PathBuf \<Rightarrow> Host \<Rightarrow> unit io \<times> Host" where
  "copy_file_in_place src dst h =
     (if is_same_file h src dst then (Ok (), h)
      else seq_ok (fs_read h src, h) (\<lambda>data h. fs_overwrite dst data h))"

text \<open>
  Copying a directory into itself descends into its own copy until the path is too long for the host. Every level lengthens the
  destination, so \<open>PATH_MAX\<close> levels are never used up.
\<close>

fun each_entry :: "('e \<Rightarrow> Host \<Rightarrow> unit io \<times> Host) \<Rightarrow> 'e list \<Rightarrow> Host \<Rightarrow> unit io \<times> Host" where
  "each_entry f [] h = (Ok (), h)"
| "each_entry f (e # es) h = seq_ok (f e h) (\<lambda>_ h. each_entry f es h)"

fun copy_dir :: "nat \<Rightarrow> PathBuf \<Rightarrow> PathBuf \<Rightarrow> Host \<Rightarrow> unit io \<times> Host" where
  "copy_dir 0 src dst h = (Err OtherError, h)"
| "copy_dir (Suc levels) src dst h =
     seq_ok (create_dir_all dst h) (\<lambda>_ h.
     seq_ok (fs_read_dir h src, h) (\<lambda>entries h.
       each_entry (\<lambda>(name, n) h.
         let dest_path = path_join dst [Normal name]; entry_path = path_join src [Normal name] in
         if is_DirNode n then copy_dir levels entry_path dest_path h
         else copy_file_in_place entry_path dest_path h) entries h))"

definition copy_dir_all :: "PathBuf \<Rightarrow> PathBuf \<Rightarrow> Host \<Rightarrow> unit io \<times> Host" where
  "copy_dir_all = copy_dir PATH_MAX"

section \<open>Confining paths\<close>

definition validate_path_within :: "Host \<Rightarrow> PathBuf \<Rightarrow> PathBuf \<Rightarrow> rstr list option" where
  "validate_path_within h base_dir p =
     (case canonicalize h base_dir of
        Ok canonical_base \<Rightarrow>
          if path_exists h p
          then
            (case canonicalize h p of
               Ok full \<Rightarrow> if prefix canonical_base full then Some full else None
             | _ \<Rightarrow> None)
          else
            (case path_parent p of
               Some parent \<Rightarrow>
                 if path_exists h parent
                 then
                   (case canonicalize h parent of
                      Ok canonical_parent \<Rightarrow>
                        if prefix canonical_base canonical_parent
                        then
                          (case file_name p of
                             Some name \<Rightarrow>
                               if str_contains name (str ''..'') \<or> 47 \<in> set name \<or> 92 \<in> set name then None
                               else Some (canonical_parent @ [name])
                           | None \<Rightarrow> None)
                        else None
                    | _ \<Rightarrow> None)
                 else None
             | None \<Rightarrow> None)
      | _ \<Rightarrow> None)"

section \<open>Session and storages\<close>

definition handle_get_device_info :: "u16 \<Rightarrow> u32 \<Rightarrow> VirtualDeviceState \<Rightarrow> handled" where
  "handle_get_device_info op_code tx_id st = send_payload op_code tx_id (build_device_info (vd_config st)) st"

definition handle_open_session :: "u32 \<Rightarrow> VirtualDeviceState \<Rightarrow> handled" where
  "handle_open_session tx_id st =
     (if vd_session_open st then respond SESSION_ALREADY_OPEN tx_id [] st
      else respond OK_CODE tx_id [] (st\<lparr>vd_session_open := True\<rparr>))"

definition handle_close_session :: "u32 \<Rightarrow> VirtualDeviceState \<Rightarrow> handled" where
  "handle_close_session tx_id st =
     respond OK_CODE tx_id [] (st\<lparr>vd_session_open := False, vd_objects := [], vd_pending_send := None\<rparr>)"

definition handle_get_storage_ids :: "u16 \<Rightarrow> u32 \<Rightarrow> VirtualDeviceState \<Rightarrow> handled" where
  "handle_get_storage_ids op_code tx_id st =
     send_payload op_code tx_id (Ok (pack_u32_array (map vss_storage_id (vd_storages st)))) st"

definition handle_get_storage_info :: "u16 \<Rightarrow> u32 \<Rightarrow> u32 list \<Rightarrow> VirtualDeviceState \<Rightarrow> handled" where
  "handle_get_storage_info op_code tx_id ps st =
     (case build_storage_info st (param ps 0) of
        Some payload \<Rightarrow> send_payload op_code tx_id payload st
      | None \<Rightarrow> respond INVALID_STORAGE_ID tx_id [] st)"

section \<open>Listing and reading\<close>

definition handle_get_object_handles :: "u16 \<Rightarrow> u32 \<Rightarrow> u32 list \<Rightarrow> VirtualDeviceState \<Rightarrow> handled" where
  "handle_get_object_handles op_code tx_id ps st =
     (let storage_id = param ps 0; parent = param ps 2;
          known = (case object_at st parent of Some obj \<Rightarrow> vo_storage_id obj = storage_id | None \<Rightarrow> False)
      in
      if find_storage st storage_id = None then respond INVALID_STORAGE_ID tx_id [] st
      else if parent \<noteq> ALL_OBJECTS \<and> parent \<noteq> ROOT \<and> \<not> known then respond INVALID_OBJECT_HANDLE tx_id [] st
      else
        (case (if parent = ALL_OBJECTS then scan_all storage_id st else scan_dir storage_id parent st) of
           (Ok handles, st) \<Rightarrow> send_payload op_code tx_id (Ok (pack_u32_array handles)) st
         | (r, st) \<Rightarrow> respond GENERAL_ERROR tx_id [] st))"

definition is_undescribable :: "rstr list \<Rightarrow> PathBuf \<Rightarrow> bool" where
  "is_undescribable configured rel_path = list_ex (\<lambda>candidate. components candidate = rel_path) configured"

definition description_refusal :: "VirtualDeviceState \<Rightarrow> ObjectHandle \<Rightarrow> u16 option" where
  "description_refusal st handle =
     (case map_of (vd_forced_object_info_errors st) handle of
        Some code \<Rightarrow> Some code
      | None \<Rightarrow>
          if vc_undescribable_objects (vd_config st) \<noteq> []
            \<and> (case object_at st handle of
                 Some obj \<Rightarrow> is_undescribable (vc_undescribable_objects (vd_config st)) (vo_rel_path obj)
               | None \<Rightarrow> False)
          then Some GENERAL_ERROR else None)"

definition handle_get_object_info :: "u16 \<Rightarrow> u32 \<Rightarrow> u32 list \<Rightarrow> VirtualDeviceState \<Rightarrow> handled" where
  "handle_get_object_info op_code tx_id ps st =
     (let handle = param ps 0 in
      case description_refusal st handle of
        Some code \<Rightarrow> respond code tx_id [] st
      | None \<Rightarrow>
          (case build_object_info handle st of
             Some payload \<Rightarrow> send_payload op_code tx_id payload st
           | None \<Rightarrow> respond INVALID_OBJECT_HANDLE tx_id [] st))"

definition handle_get_object :: "u16 \<Rightarrow> u32 \<Rightarrow> u32 list \<Rightarrow> VirtualDeviceState \<Rightarrow> handled" where
  "handle_get_object op_code tx_id ps st =
     (case resolve_path st (param ps 0) of
        None \<Rightarrow> respond INVALID_OBJECT_HANDLE tx_id [] st
      | Some p \<Rightarrow>
          (case fs_read (vd_host st) p of
             Ok data \<Rightarrow> send_payload op_code tx_id (Ok data) st
           | _ \<Rightarrow> respond GENERAL_ERROR tx_id [] st))"

text \<open>Seeking past the range of a signed file offset fails, and so does reading a directory.\<close>

definition read_partial :: "u16 \<Rightarrow> u32 \<Rightarrow> ObjectHandle \<Rightarrow> u64 \<Rightarrow> usize \<Rightarrow> VirtualDeviceState \<Rightarrow> handled" where
  "read_partial op_code tx_id handle offset max_bytes st =
     (let (max_bytes, st) =
        (case vd_forced_partial_read_caps st of
           cap # caps \<Rightarrow> (min cap max_bytes, st\<lparr>vd_forced_partial_read_caps := caps\<rparr>)
         | [] \<Rightarrow> (max_bytes, st))
      in
      case resolve_path st handle of
        None \<Rightarrow> respond INVALID_OBJECT_HANDLE tx_id [] st
      | Some p \<Rightarrow>
          if 2 ^ 63 \<le> unat offset then respond GENERAL_ERROR tx_id [] st
          else
            (case fs_read (vd_host st) p of
               Ok data \<Rightarrow> send_payload op_code tx_id (Ok (take max_bytes (drop (unat offset) data))) st
             | _ \<Rightarrow> respond GENERAL_ERROR tx_id [] st))"

definition handle_get_partial_object :: "u16 \<Rightarrow> u32 \<Rightarrow> u32 list \<Rightarrow> VirtualDeviceState \<Rightarrow> handled" where
  "handle_get_partial_object op_code tx_id ps st =
     read_partial op_code tx_id (param ps 0) (ucast (param ps 1)) (unat (param ps 2)) st"

definition handle_get_partial_object_64 :: "u16 \<Rightarrow> u32 \<Rightarrow> u32 list \<Rightarrow> VirtualDeviceState \<Rightarrow> handled" where
  "handle_get_partial_object_64 op_code tx_id ps st =
     (let offset_lo = ucast (param ps 1) :: u64; offset_hi = ucast (param ps 2) :: u64 in
      read_partial op_code tx_id (param ps 0) (or (push_bit 32 offset_hi) offset_lo) (unat (param ps 3)) st)"

definition handle_get_thumb :: "u32 \<Rightarrow> u32 list \<Rightarrow> VirtualDeviceState \<Rightarrow> handled" where
  "handle_get_thumb tx_id ps st =
     respond (if object_at st (param ps 0) = None then INVALID_OBJECT_HANDLE else NO_THUMBNAIL) tx_id [] st"

section \<open>Uploading\<close>

definition created_events :: "ObjectHandle \<Rightarrow> StorageId \<Rightarrow> VirtualDeviceState \<Rightarrow> VirtualDeviceState" where
  "created_events handle storage_id st =
     push_event (build_event EventCode.StorageInfoChanged [storage_id])
       (push_event (build_event EventCode.ObjectAdded [handle]) st)"

text \<open>The parent of an upload is the root or a tracked directory of the storage.\<close>

definition parent_is_directory :: "StorageId \<Rightarrow> ObjectHandle \<Rightarrow> VirtualDeviceState \<Rightarrow> bool res" where
  "parent_is_directory storage_id parent st =
     (if parent = ROOT then Ok True
      else
        (case object_at st parent of
           Some obj \<Rightarrow>
             if vo_storage_id obj = storage_id
             then (case resolve_path st parent of Some p \<Rightarrow> Ok (path_is_dir (vd_host st) p) | None \<Rightarrow> Panic)
             else Ok False
         | None \<Rightarrow> Ok False))"

text \<open>The object is created on disk right away: a folder, or an empty file for the data phase to fill.\<close>

definition create_on_disk :: "bool \<Rightarrow> PathBuf \<Rightarrow> Host \<Rightarrow> unit io \<times> Host" where
  "create_on_disk folder full_path h =
     (if folder then create_dir_all full_path h
      else
        seq_ok (case path_parent full_path of None \<Rightarrow> (Ok (), h) | Some parent \<Rightarrow> create_dir_all parent h) (\<lambda>_ h.
          fs_write full_path [] h))"

definition create_object ::
  "u32 \<Rightarrow> StorageId \<Rightarrow> ObjectHandle \<Rightarrow> ObjectInfo \<Rightarrow> VirtualDeviceState \<Rightarrow> handled" where
  "create_object tx_id storage_id parent info st =
     (let folder = (oi_format info = ObjectFormatCode.Association);
          (new_handle, st) = alloc_handle st;
          pending = \<lparr>ps_storage_id = storage_id, ps_parent = parent, ps_filename = oi_filename info, ps_size = oi_size info,
            ps_is_folder = folder, ps_assigned_handle = new_handle,
            ps_modified = map_option system_time_from_unix
              (Option.bind (oi_modified info) (\<lambda>dt. to_unix_seconds_with_fallback dt (vc_utc_offset (vd_config st))))\<rparr>;
          st = st\<lparr>vd_pending_send := Some pending\<rparr>
      in
      unwrap (find_storage st storage_id) st (\<lambda>storage.
      unwrap (if parent = ROOT then Some [] else map_option vo_rel_path (object_at st parent)) st (\<lambda>parent_path.
      let rel_path = path_join parent_path (components (oi_filename info));
          full_path = path_join (backing_dir storage) rel_path
      in
      if validate_path_within (vd_host st) (backing_dir storage) full_path = None
      then respond GENERAL_ERROR tx_id [] (st\<lparr>vd_pending_send := None\<rparr>)
      else
        (case on_host (create_on_disk folder full_path) st of
           (Ok u, st) \<Rightarrow>
             let st = created_events new_handle storage_id
                   (insert_object new_handle \<lparr>vo_rel_path = rel_path, vo_storage_id = storage_id, vo_parent = parent\<rparr> st);
                 st = (if folder then st\<lparr>vd_pending_send := None\<rparr> else st)
             in respond OK_CODE tx_id [storage_id, parent, new_handle] st
         | (r, st) \<Rightarrow> respond GENERAL_ERROR tx_id [] (st\<lparr>vd_pending_send := None\<rparr>)))))"

definition handle_send_object_info :: "u32 \<Rightarrow> u32 list \<Rightarrow> bytes option \<Rightarrow> VirtualDeviceState \<Rightarrow> handled" where
  "handle_send_object_info tx_id ps data_payload st =
     (let storage_id = param ps 0; parent = (if param ps 1 = SEND_ROOT then ROOT else param ps 1) in
      if find_storage st storage_id = None then respond INVALID_STORAGE_ID tx_id [] st
      else if is_read_only st storage_id then respond STORE_READ_ONLY tx_id [] st
      else seq_ok (parent_is_directory storage_id parent st, st) (\<lambda>ok st.
        if \<not> ok then respond INVALID_PARENT tx_id [] st
        else
          (case data_payload of
             None \<Rightarrow> respond GENERAL_ERROR tx_id [] st
           | Some data \<Rightarrow>
               (case ObjectInfo_from_bytes data of
                  Ok info \<Rightarrow> create_object tx_id storage_id parent info st
                | Err e \<Rightarrow> respond GENERAL_ERROR tx_id [] st
                | Panic \<Rightarrow> (Panic, st)
                | Dropped \<Rightarrow> (Dropped, st)))))"

definition store_object :: "u32 \<Rightarrow> PendingSendInfo \<Rightarrow> bytes \<Rightarrow> PathBuf \<Rightarrow> PathBuf \<Rightarrow> VirtualDeviceState \<Rightarrow> handled" where
  "store_object tx_id pending data rel_path full_path st =
     (case on_host (\<lambda>h. seq_ok (case path_parent full_path of None \<Rightarrow> (Ok (), h) | Some parent \<Rightarrow> create_dir_all parent h)
              (\<lambda>_ h. fs_write full_path data h)) st of
        (Ok u, st) \<Rightarrow>
          let st = (case ps_modified pending of
                Some time \<Rightarrow> snd (on_host (fs_set_modified full_path time) st)
              | None \<Rightarrow> st);
              handle = ps_assigned_handle pending;
              st = insert_object handle
                \<lparr>vo_rel_path = rel_path, vo_storage_id = ps_storage_id pending, vo_parent = ps_parent pending\<rparr> st;
              st = push_event (build_event EventCode.StorageInfoChanged [ps_storage_id pending])
                (push_event (build_event EventCode.ObjectInfoChanged [handle]) st)
          in respond OK_CODE tx_id [] st
      | (r, st) \<Rightarrow> respond GENERAL_ERROR tx_id [] st)"

definition handle_send_object :: "u32 \<Rightarrow> bytes option \<Rightarrow> VirtualDeviceState \<Rightarrow> handled" where
  "handle_send_object tx_id data_payload st =
     (case vd_pending_send st of
        None \<Rightarrow> respond GENERAL_ERROR tx_id [] st
      | Some pending \<Rightarrow>
          let st = st\<lparr>vd_pending_send := None\<rparr>; data = (case data_payload of Some d \<Rightarrow> d | None \<Rightarrow> []) in
          if ps_is_folder pending then respond OK_CODE tx_id [] st
          else
            (case find_storage st (ps_storage_id pending) of
               None \<Rightarrow> respond INVALID_STORAGE_ID tx_id [] st
             | Some storage \<Rightarrow>
                 (case (if ps_parent pending = ROOT then Some [] else map_option vo_rel_path (object_at st (ps_parent pending))) of
                    None \<Rightarrow> respond INVALID_PARENT tx_id [] st
                  | Some parent_path \<Rightarrow>
                      let rel_path = path_join parent_path (components (ps_filename pending));
                          full_path = path_join (backing_dir storage) rel_path
                      in
                      if validate_path_within (vd_host st) (backing_dir storage) full_path = None
                      then respond GENERAL_ERROR tx_id [] st
                      else store_object tx_id pending data rel_path full_path st)))"

section \<open>Deleting, moving and copying\<close>

definition handle_delete_object :: "u32 \<Rightarrow> u32 list \<Rightarrow> VirtualDeviceState \<Rightarrow> handled" where
  "handle_delete_object tx_id ps st =
     (let handle = param ps 0 in
      case object_at st handle of
        None \<Rightarrow> respond INVALID_OBJECT_HANDLE tx_id [] st
      | Some obj \<Rightarrow>
          if is_read_only st (vo_storage_id obj) then respond STORE_READ_ONLY tx_id [] st
          else
            (case resolve_path st handle of
               None \<Rightarrow> respond GENERAL_ERROR tx_id [] st
             | Some p \<Rightarrow>
                 (case on_host (if path_is_dir (vd_host st) p then fs_remove_dir_all p else fs_remove_file p) st of
                    (Ok u, st) \<Rightarrow>
                      let st = st\<lparr>vd_objects := filter (\<lambda>(h, other).
                            \<not> (vo_storage_id other = vo_storage_id obj \<and> prefix (vo_rel_path obj) (vo_rel_path other))) (vd_objects st)\<rparr>;
                          st = push_event (build_event EventCode.StorageInfoChanged [vo_storage_id obj])
                            (push_event (build_event EventCode.ObjectRemoved [handle]) st)
                      in respond OK_CODE tx_id [] st
                  | (r, st) \<Rightarrow> respond GENERAL_ERROR tx_id [] st)))"

text \<open>Renaming, or copying and removing when that fails.\<close>

definition move_on_disk :: "PathBuf \<Rightarrow> PathBuf \<Rightarrow> Host \<Rightarrow> unit io \<times> Host" where
  "move_on_disk src dst h =
     (case fs_rename src dst h of
        (Ok u, h) \<Rightarrow> (Ok u, h)
      | (_, h) \<Rightarrow>
          (case (if path_is_dir h src then copy_dir_all src dst h else fs_copy src dst h) of
             (Ok u, h) \<Rightarrow>
               (Ok u, snd (if path_is_dir h src then fs_remove_dir_all src h else fs_remove_file src h))
           | (r, h) \<Rightarrow> (r, h)))"

definition file_name_or_empty :: "PathBuf \<Rightarrow> PathBuf" where
  "file_name_or_empty p = (case file_name p of Some n \<Rightarrow> [Normal n] | None \<Rightarrow> [])"

definition handle_move_object :: "u32 \<Rightarrow> u32 list \<Rightarrow> VirtualDeviceState \<Rightarrow> handled" where
  "handle_move_object tx_id ps st =
     (let handle = param ps 0; dest_storage = param ps 1; dest_parent = param ps 2 in
      case object_at st handle of
        None \<Rightarrow> respond INVALID_OBJECT_HANDLE tx_id [] st
      | Some obj \<Rightarrow>
          if is_read_only st (vo_storage_id obj) \<or> is_read_only st dest_storage then respond STORE_READ_ONLY tx_id [] st
          else
            (case (resolve_path st handle, find_storage st dest_storage) of
               (None, _) \<Rightarrow> respond GENERAL_ERROR tx_id [] st
             | (Some src_path, None) \<Rightarrow> respond INVALID_STORAGE_ID tx_id [] st
             | (Some src_path, Some dest) \<Rightarrow>
                 (case (if dest_parent = ROOT then Some [] else map_option vo_rel_path (object_at st dest_parent)) of
                    None \<Rightarrow> respond INVALID_PARENT tx_id [] st
                  | Some dest_parent_rel \<Rightarrow>
                      let new_rel = path_join dest_parent_rel (file_name_or_empty (vo_rel_path obj));
                          dest_path = path_join (backing_dir dest) new_rel
                      in
                      if validate_path_within (vd_host st) (backing_dir dest) dest_path = None
                      then respond GENERAL_ERROR tx_id [] st
                      else
                        (case on_host (move_on_disk src_path dest_path) st of
                           (Ok u, st) \<Rightarrow>
                             let st = insert_object handle
                                   \<lparr>vo_rel_path = new_rel, vo_storage_id = dest_storage, vo_parent = dest_parent\<rparr> st;
                                 st = push_event (build_event EventCode.StorageInfoChanged [vo_storage_id obj])
                                   (push_event (build_event EventCode.ObjectInfoChanged [handle]) st);
                                 st = (if dest_storage \<noteq> vo_storage_id obj
                                       then push_event (build_event EventCode.StorageInfoChanged [dest_storage]) st else st)
                             in respond OK_CODE tx_id [] st
                         | (r, st) \<Rightarrow> respond GENERAL_ERROR tx_id [] st))))"

definition copy_on_disk :: "PathBuf \<Rightarrow> PathBuf \<Rightarrow> Host \<Rightarrow> unit io \<times> Host" where
  "copy_on_disk src dst h = (if path_is_dir h src then copy_dir_all src dst h else copy_file_in_place src dst h)"

definition handle_copy_object :: "u32 \<Rightarrow> u32 list \<Rightarrow> VirtualDeviceState \<Rightarrow> handled" where
  "handle_copy_object tx_id ps st =
     (let handle = param ps 0; dest_storage = param ps 1; dest_parent = param ps 2 in
      case object_at st handle of
        None \<Rightarrow> respond INVALID_OBJECT_HANDLE tx_id [] st
      | Some obj \<Rightarrow>
          if is_read_only st dest_storage then respond STORE_READ_ONLY tx_id [] st
          else
            (case (resolve_path st handle, find_storage st dest_storage) of
               (None, _) \<Rightarrow> respond GENERAL_ERROR tx_id [] st
             | (Some src_path, None) \<Rightarrow> respond INVALID_STORAGE_ID tx_id [] st
             | (Some src_path, Some dest) \<Rightarrow>
                 (case (if dest_parent = ROOT then Some [] else map_option vo_rel_path (object_at st dest_parent)) of
                    None \<Rightarrow> respond INVALID_PARENT tx_id [] st
                  | Some dest_parent_rel \<Rightarrow>
                      let filename = file_name_or_empty (vo_rel_path obj);
                          new_rel = path_join dest_parent_rel filename;
                          dest_path = path_join (backing_dir dest) new_rel;
                          clashes = list_ex (\<lambda>(h, other). vo_storage_id other = dest_storage \<and> vo_parent other = dest_parent
                            \<and> file_name (vo_rel_path other) = Some (case file_name (vo_rel_path obj) of Some n \<Rightarrow> n | None \<Rightarrow> []))
                            (vd_objects st);
                          is_dir = path_is_dir (vd_host st) src_path
                      in
                      if validate_path_within (vd_host st) (backing_dir dest) dest_path = None
                      then respond GENERAL_ERROR tx_id [] st
                      else
                        (case on_host (copy_on_disk src_path dest_path) st of
                           (r, st) \<Rightarrow>
                             if clashes
                             then respond (if is_Ok r \<and> \<not> is_dir then OK_CODE else GENERAL_ERROR) tx_id
                               [AOSP_TRUNCATED_INVALID_HANDLE] st
                             else if is_Ok r
                             then
                               let (new_handle, st) = alloc_handle st;
                                   st = created_events new_handle dest_storage (insert_object new_handle
                                     \<lparr>vo_rel_path = new_rel, vo_storage_id = dest_storage, vo_parent = dest_parent\<rparr> st)
                               in respond OK_CODE tx_id [new_handle] st
                             else respond GENERAL_ERROR tx_id [] st))))"

section \<open>Properties\<close>

definition handle_get_object_prop_value :: "u16 \<Rightarrow> u32 \<Rightarrow> u32 list \<Rightarrow> VirtualDeviceState \<Rightarrow> handled" where
  "handle_get_object_prop_value op_code tx_id ps st =
     (let handle = param ps 0; property = ObjectPropertyCode_from (ucast (param ps 1)) in
      case object_at st handle of
        None \<Rightarrow> respond INVALID_OBJECT_HANDLE tx_id [] st
      | Some obj \<Rightarrow>
          (case property of
             ObjectPropertyCode.ObjectFileName \<Rightarrow>
               send_payload op_code tx_id
                 (pack_device_string (case file_name (vo_rel_path obj) of Some n \<Rightarrow> n | None \<Rightarrow> [])) st
           | ObjectPropertyCode.StorageId \<Rightarrow> send_payload op_code tx_id (Ok (pack_u32 (vo_storage_id obj))) st
           | ObjectPropertyCode.ParentObject \<Rightarrow> send_payload op_code tx_id (Ok (pack_u32 (vo_parent obj))) st
           | ObjectPropertyCode.ObjectSize \<Rightarrow>
               unwrap (resolve_path st handle) st (\<lambda>p.
                 let sz = (case metadata (vd_host st) p of Ok n \<Rightarrow> node_len (vd_host st) n | _ \<Rightarrow> 0)
                 in send_payload op_code tx_id (Ok (pack_u64 sz)) st)
           | _ \<Rightarrow> respond OPERATION_NOT_SUPPORTED tx_id [] st))"

definition rename_on_device :: "u32 \<Rightarrow> ObjectHandle \<Rightarrow> rstr \<Rightarrow> VirtualObject \<Rightarrow> VirtualDeviceState \<Rightarrow> handled" where
  "rename_on_device tx_id handle new_name obj st =
     (case resolve_path st handle of
        None \<Rightarrow> respond GENERAL_ERROR tx_id [] st
      | Some old_path \<Rightarrow>
          unwrap (path_parent old_path) st (\<lambda>parent.
          let new_path = path_join parent (components new_name) in
          case find_storage st (vo_storage_id obj) of
            None \<Rightarrow> respond GENERAL_ERROR tx_id [] st
          | Some storage \<Rightarrow>
              if validate_path_within (vd_host st) (backing_dir storage) new_path = None
              then respond GENERAL_ERROR tx_id [] st
              else
                (case on_host (fs_rename old_path new_path) st of
                   (Ok u, st) \<Rightarrow>
                     let new_rel = (case path_parent (vo_rel_path obj) of
                           Some p \<Rightarrow> if p \<noteq> [] then path_join p (components new_name) else components new_name
                         | None \<Rightarrow> components new_name)
                     in respond OK_CODE tx_id [] (insert_object handle (obj\<lparr>vo_rel_path := new_rel\<rparr>) st)
                 | (r, st) \<Rightarrow> respond GENERAL_ERROR tx_id [] st)))"

definition handle_set_object_prop_value :: "u32 \<Rightarrow> u32 list \<Rightarrow> bytes option \<Rightarrow> VirtualDeviceState \<Rightarrow> handled" where
  "handle_set_object_prop_value tx_id ps data_payload st =
     (if \<not> vc_supports_rename (vd_config st) then respond OPERATION_NOT_SUPPORTED tx_id [] st
      else if ObjectPropertyCode_from (ucast (param ps 1)) \<noteq> ObjectPropertyCode.ObjectFileName
      then respond OPERATION_NOT_SUPPORTED tx_id [] st
      else
        (case data_payload of
           None \<Rightarrow> respond GENERAL_ERROR tx_id [] st
         | Some data \<Rightarrow>
             (case unpack_string data of
                Ok (new_name, n) \<Rightarrow>
                  (case object_at st (param ps 0) of
                     None \<Rightarrow> respond INVALID_OBJECT_HANDLE tx_id [] st
                   | Some obj \<Rightarrow>
                       if is_read_only st (vo_storage_id obj) then respond STORE_READ_ONLY tx_id [] st
                       else rename_on_device tx_id (param ps 0) new_name obj st)
              | Err e \<Rightarrow> respond GENERAL_ERROR tx_id [] st
              | Panic \<Rightarrow> (Panic, st)
              | Dropped \<Rightarrow> (Dropped, st))))"

section \<open>Property lists\<close>

definition ALL_VALUES :: u32 where
  "ALL_VALUES = 0xFFFFFFFF"

definition PERSISTENT_UID :: u16 where "PERSISTENT_UID = 0xDC41"
definition DISPLAY_NAME :: u16 where "DISPLAY_NAME = 0xDCE0"
definition DATE_ADDED :: u16 where "DATE_ADDED = 0xDC4E"

definition FILE_PROPERTIES :: "u16 list" where
  "FILE_PROPERTIES = [0xDC01, 0xDC02, 0xDC03, 0xDC04, 0xDC07, 0xDC09, PERSISTENT_UID, 0xDC0B, 0xDC44, DISPLAY_NAME, DATE_ADDED]"

text \<open>Data type code and value of a property.\<close>

definition element_of :: "ObjectHandle \<Rightarrow> u16 \<Rightarrow> ObjectFacts \<Rightarrow> VirtualDeviceConfig \<Rightarrow> u16 \<times> (bytes, u16) outcome" where
  "element_of handle property facts config =
     (let text = (\<lambda>s. case pack_device_string s of Ok bs \<Rightarrow> Ok bs | _ \<Rightarrow> Panic);
          time = (\<lambda>t. case pack_file_time config t of Ok bs \<Rightarrow> Ok bs | _ \<Rightarrow> Panic)
      in
      if property = PERSISTENT_UID
      then (0x000A, Ok (to_le_bytes 16 (or (push_bit 32 (ucast (of_storage_id facts))) (ucast handle) :: 128 word)))
      else if property = DISPLAY_NAME then (0xFFFF, text (of_filename facts))
      else if property = DATE_ADDED then (0xFFFF, time (of_modified facts))
      else
        (case ObjectPropertyCode_from property of
           ObjectPropertyCode.StorageId \<Rightarrow> (0x0006, Ok (pack_u32 (of_storage_id facts)))
         | ObjectPropertyCode.ObjectFormat \<Rightarrow> (0x0004, Ok (pack_u16 (of_format facts)))
         | ObjectPropertyCode.ProtectionStatus \<Rightarrow> (0x0004, Ok (pack_u16 0))
         | ObjectPropertyCode.ObjectSize \<Rightarrow> (0x0008, Ok (pack_u64 (of_size facts)))
         | ObjectPropertyCode.ObjectFileName \<Rightarrow> (0xFFFF, text (of_filename facts))
         | ObjectPropertyCode.Name \<Rightarrow> (0xFFFF, text (of_filename facts))
         | ObjectPropertyCode.DateCreated \<Rightarrow> (0xFFFF, time (of_created facts))
         | ObjectPropertyCode.DateModified \<Rightarrow> (0xFFFF, time (of_modified facts))
         | ObjectPropertyCode.ParentObject \<Rightarrow> (0x0006, Ok (pack_u32 (of_parent facts)))
         | ObjectPropertyCode.Unknown code \<Rightarrow> (0x0000, Ok [])))"

definition push_element :: "ObjectHandle \<Rightarrow> u16 \<Rightarrow> ObjectFacts \<Rightarrow> VirtualDeviceConfig \<Rightarrow> (bytes, u16) outcome" where
  "push_element handle property facts config =
     (case element_of handle property facts config of (type_code, val) \<Rightarrow>
        map_ok (\<lambda>v. pack_u32 handle @ pack_u16 property @ pack_u16 type_code @ v) val)"

fun concat_ok :: "('a, 'e) outcome list \<Rightarrow> ('a list, 'e) outcome" where
  "concat_ok [] = Ok []"
| "concat_ok (r # rs) = bind_ok r (\<lambda>x. map_ok (\<lambda>xs. x # xs) (concat_ok rs))"

text \<open>A host error of a scan is answered with a general error.\<close>

definition scanned :: "ObjectHandle list io \<times> VirtualDeviceState \<Rightarrow> (ObjectHandle list, u16) outcome \<times> VirtualDeviceState" where
  "scanned = apfst (\<lambda>r. case r of Ok hs \<Rightarrow> Ok hs | _ \<Rightarrow> Err GENERAL_ERROR)"

fun scan_storages ::
  "(StorageId \<Rightarrow> VirtualDeviceState \<Rightarrow> ObjectHandle list io \<times> VirtualDeviceState) \<Rightarrow> StorageId list \<Rightarrow> VirtualDeviceState \<Rightarrow>
     (ObjectHandle list, u16) outcome \<times> VirtualDeviceState" where
  "scan_storages scan [] st = (Ok [], st)"
| "scan_storages scan (sid # sids) st =
     seq_ok (scanned (scan sid st)) (\<lambda>hs st. seq_ok (scan_storages scan sids st) (\<lambda>more st. (Ok (hs @ more), st)))"

definition requested_objects ::
  "u32 \<Rightarrow> u32 \<Rightarrow> VirtualDeviceState \<Rightarrow> (ObjectHandle list, u16) outcome \<times> VirtualDeviceState" where
  "requested_objects handle depth st =
     (let storages = map vss_storage_id (vd_storages st) in
      if handle = ALL_VALUES \<and> depth = 0 then scan_storages scan_all storages st
      else if handle = 0 \<or> handle = ALL_VALUES then scan_storages (\<lambda>sid. scan_dir sid ROOT) storages st
      else
        (case object_at st handle of
           None \<Rightarrow> (Err INVALID_OBJECT_HANDLE, st)
         | Some obj \<Rightarrow>
             seq_ok (if depth = 1 then scanned (scan_dir (vo_storage_id obj) handle st) else (Ok [], st)) (\<lambda>kids st.
               (Ok (kids @ [handle]), st))))"

fun describe_all ::
  "u32 \<Rightarrow> ObjectHandle list \<Rightarrow> VirtualDeviceState \<Rightarrow> ((ObjectHandle \<times> ObjectFacts) list, u16) outcome" where
  "describe_all fmt [] st = Ok []"
| "describe_all fmt (handle # handles) st =
     (case description_refusal st handle of
        Some code \<Rightarrow> Err code
      | None \<Rightarrow>
          (case object_facts handle st of
             Some facts \<Rightarrow>
               map_ok (\<lambda>rest. if fmt = 0 \<or> ucast (of_format facts) = fmt then (handle, facts) # rest else rest)
                 (describe_all fmt handles st)
           | None \<Rightarrow> describe_all fmt handles st))"

definition requested_properties :: "u32 \<Rightarrow> VirtualDeviceConfig \<Rightarrow> (u16 list, u16) outcome" where
  "requested_properties property config =
     (let declined = (\<lambda>code. ObjectPropertyCode_from code \<in> set (vc_prop_list_declined_properties config)) in
      if property = ALL_VALUES then Ok (filter (\<lambda>p. \<not> declined p) FILE_PROPERTIES)
      else if declined (ucast property) then Err INVALID_OBJECT_PROP_CODE
      else Ok [ucast property])"

definition prop_list_answer :: "u32 list \<Rightarrow> VirtualDeviceState \<Rightarrow> (bytes, u16) outcome \<times> VirtualDeviceState" where
  "prop_list_answer ps st =
     (let fmt = param ps 1; property = param ps 2; group_code = param ps 3;
          everything = (param ps 4 = ALL_VALUES \<and> (param ps 0 = 0 \<or> param ps 0 = ALL_VALUES));
          handle = (if everything then ALL_VALUES else param ps 0);
          depth = (if everything then 0 else param ps 4)
      in
      if property = 0
      then (Err (if group_code = 0 then PARAMETER_NOT_SUPPORTED else SPECIFICATION_BY_GROUP_UNSUPPORTED), st)
      else if depth > 1 then (Err SPECIFICATION_BY_DEPTH_UNSUPPORTED, st)
      else
        seq_ok (requested_properties property (vd_config st), st) (\<lambda>properties st.
        seq_ok (requested_objects handle depth st) (\<lambda>handles st.
        seq_ok (describe_all fmt handles st, st) (\<lambda>objects st.
        seq_ok (concat_ok [push_element h p facts (vd_config st). (h, facts) \<leftarrow> objects, p \<leftarrow> properties], st) (\<lambda>elements st.
          (Ok (pack_u32 (word_of_nat (length objects * length properties)) @ concat elements), st))))))"

definition handle_get_object_prop_list :: "u16 \<Rightarrow> u32 \<Rightarrow> u32 list \<Rightarrow> VirtualDeviceState \<Rightarrow> handled" where
  "handle_get_object_prop_list op_code tx_id ps st =
     (case prop_list_answer ps st of
        (Ok payload, st) \<Rightarrow> send_payload op_code tx_id (Ok payload) st
      | (Err code, st) \<Rightarrow> respond code tx_id [] st
      | (Panic, st) \<Rightarrow> (Panic, st)
      | (Dropped, st) \<Rightarrow> (Dropped, st))"

section \<open>Dispatch\<close>

definition count_operation :: "u16 \<Rightarrow> VirtualDeviceState \<Rightarrow> VirtualDeviceState" where
  "count_operation op_code st =
     st\<lparr>vd_operation_counts := AList.update op_code
       ((case map_of (vd_operation_counts st) op_code of Some n \<Rightarrow> n | None \<Rightarrow> 0) + 1) (vd_operation_counts st)\<rparr>"

definition dispatch :: "u16 \<Rightarrow> u32 \<Rightarrow> u32 list \<Rightarrow> bytes option \<Rightarrow> VirtualDeviceState \<Rightarrow> handled" where
  "dispatch op_code tx_id ps data_payload st =
     (let op = OperationCode_from op_code; st = count_operation op_code st in
      if op = OperationCode.GetDeviceInfo then handle_get_device_info op_code tx_id st
      else if op = OperationCode.OpenSession then handle_open_session tx_id st
      else if op = OperationCode.CloseSession then handle_close_session tx_id st
      else if \<not> vd_session_open st then respond SESSION_NOT_OPEN tx_id [] st
      else
        (case op of
           OperationCode.GetStorageIds \<Rightarrow> handle_get_storage_ids op_code tx_id st
         | OperationCode.GetStorageInfo \<Rightarrow> handle_get_storage_info op_code tx_id ps st
         | OperationCode.GetObjectHandles \<Rightarrow> handle_get_object_handles op_code tx_id ps st
         | OperationCode.GetObjectInfo \<Rightarrow> handle_get_object_info op_code tx_id ps st
         | OperationCode.GetObject \<Rightarrow> handle_get_object op_code tx_id ps st
         | OperationCode.GetPartialObject \<Rightarrow>
             if vc_supports_partial_object (vd_config st) then handle_get_partial_object op_code tx_id ps st
             else unsupported tx_id st
         | OperationCode.GetPartialObject64 \<Rightarrow>
             if vc_supports_partial_object_64 (vd_config st) then handle_get_partial_object_64 op_code tx_id ps st
             else unsupported tx_id st
         | OperationCode.GetObjectPropList \<Rightarrow>
             if vc_supports_object_prop_list (vd_config st) then handle_get_object_prop_list op_code tx_id ps st
             else unsupported tx_id st
         | OperationCode.GetThumb \<Rightarrow> handle_get_thumb tx_id ps st
         | OperationCode.SendObjectInfo \<Rightarrow> handle_send_object_info tx_id ps data_payload st
         | OperationCode.SendObject \<Rightarrow> handle_send_object tx_id data_payload st
         | OperationCode.DeleteObject \<Rightarrow> handle_delete_object tx_id ps st
         | OperationCode.MoveObject \<Rightarrow> handle_move_object tx_id ps st
         | OperationCode.CopyObject \<Rightarrow> handle_copy_object tx_id ps st
         | OperationCode.GetObjectPropValue \<Rightarrow> handle_get_object_prop_value op_code tx_id ps st
         | OperationCode.SetObjectPropValue \<Rightarrow> handle_set_object_prop_value tx_id ps data_payload st
         | _ \<Rightarrow> unsupported tx_id st))"

end
