(* ===== verification/Host_Changes.thy ===== *)
theory Host_Changes
  imports Host_Fs
begin

text \<open>
  What the operations on the host leave alone. Without symbolic links a path names the entry that its
  components spell, \<open>norm\<close>; an operation changes nothing outside the entries it names, \<open>changes_within\<close>, apart from the
  modification times of directories.
\<close>

section \<open>Lexical paths\<close>

text \<open>Without symbolic links, the path the kernel finds is the one the components spell.\<close>

fun norm :: "rstr list \<Rightarrow> component list \<Rightarrow> rstr list" where
  "norm cur [] = cur"
| "norm cur (RootDir # cs) = norm [] cs"
| "norm cur (CurDir # cs) = norm cur cs"
| "norm cur (ParentDir # cs) = norm (butlast cur) cs"
| "norm cur (Normal n # cs) = norm (cur @ [n]) cs"

lemma norm_append [simp]: "norm cur (p @ q) = norm (norm cur p) q"
  by (induction cur p rule: norm.induct) auto

lemma norm_no_CurDir [simp]: "norm cur (filter (\<lambda>c. c \<noteq> CurDir) p) = norm cur p"
  by (induction cur p rule: norm.induct) auto

lemma norm_join [simp]: "norm cur (path_join p q) = norm (norm cur p) q"
proof (cases q)
  case (Cons c cs)
  then show ?thesis by (cases c) (auto simp: path_join_def)
qed (simp add: path_join_def)

lemma norm_names [simp]: "norm cur (map Normal p) = cur @ p"
  by (induction p arbitrary: cur) auto

lemma norm_canonical [simp]: "norm cur (canonical_path p) = p"
  by (simp add: canonical_path_def)

lemma walk_norm: "walk h cur p = Ok q \<Longrightarrow> q = norm cur p"
  by (induction h cur p rule: walk.induct) (auto split: if_splits component.splits)

lemma walk_exists: "walk h cur p = Ok q \<Longrightarrow> node_at h q \<noteq> None"
  by (induction h cur p rule: walk.induct) (auto split: if_splits component.splits)

lemma walk_append: "walk h cur (p @ q) = Ok r \<Longrightarrow> \<exists>d. walk h cur p = Ok d \<and> walk h d q = Ok r"
proof (induction p arbitrary: cur)
  case Nil
  then have "node_at h cur \<noteq> None" by (cases q) (auto split: if_splits)
  with Nil show ?case by simp
next
  case (Cons c cs)
  then show ?case by (auto split: if_splits component.splits)
qed

lemma walk_snoc:
  assumes "walk h cur p = Ok d" "dir_at h d" "length (as_bytes n) \<le> NAME_MAX" "node_at h (d @ [n]) \<noteq> None"
  shows "walk h cur (p @ [Normal n]) = Ok (d @ [n])"
  using assms(1)
proof (induction p arbitrary: cur)
  case Nil
  with assms(2-) show ?case by (auto split: if_splits)
next
  case (Cons c cs)
  then show ?case by (auto split: if_splits component.splits)
qed

lemma canonicalize_norm: "canonicalize h p = Ok q \<Longrightarrow> q = norm (host_cwd h) p \<and> node_at h q \<noteq> None"
  by (auto simp: canonicalize_def split: if_splits dest: walk_norm walk_exists)

lemma entry_of_norm: "entry_of h p = Ok q \<Longrightarrow> q = norm (host_cwd h) p"
  by (cases p rule: rev_cases) (auto simp: entry_of_def split: if_splits component.splits dest: walk_norm)

lemma entry_of_dir:
  assumes "entry_of h p = Ok q"
  obtains d n where "p \<noteq> []" "last p = Normal n" "q = d @ [n]" "dir_at h d" "walk h (host_cwd h) (butlast p) = Ok d"
    "length (as_bytes n) \<le> NAME_MAX" "\<not> too_long p"
  using assms by (auto simp: entry_of_def split: if_splits component.splits)

section \<open>Footprints\<close>

text \<open>Two entries agree when they are equal, or directories that differ in their modification time only.\<close>

definition same_entry :: "node option \<Rightarrow> node option \<Rightarrow> bool" where
  "same_entry a b \<longleftrightarrow> a = b \<or> (\<exists>c m m'. a = Some (DirNode c m) \<and> b = Some (DirNode c m'))"

definition changes_within :: "rstr list set \<Rightarrow> Host \<Rightarrow> Host \<Rightarrow> bool" where
  "changes_within B h h' \<longleftrightarrow>
     host_cwd h' = host_cwd h \<and> (\<forall>q. (\<forall>b \<in> B. \<not> prefix b q) \<longrightarrow> same_entry (node_at h q) (node_at h' q))"

lemma same_entry_refl [simp]: "same_entry a a"
  by (simp add: same_entry_def)

lemma same_entry_trans: "same_entry a b \<Longrightarrow> same_entry b c \<Longrightarrow> same_entry a c"
  by (auto simp: same_entry_def)

lemma changes_refl [simp]: "changes_within B h h"
  by (simp add: changes_within_def)

lemma changes_trans: "changes_within B h h' \<Longrightarrow> changes_within B h' h'' \<Longrightarrow> changes_within B h h''"
  by (auto simp: changes_within_def intro: same_entry_trans)

lemma changes_mono:
  assumes "changes_within B h h'" "\<And>b. b \<in> B \<Longrightarrow> \<exists>c \<in> C. prefix c b"
  shows "changes_within C h h'"
  unfolding changes_within_def
proof (intro conjI allI impI)
  fix q assume *: "\<forall>c \<in> C. \<not> prefix c q"
  have "\<forall>b \<in> B. \<not> prefix b q" using assms(2) * prefix_order.trans by blast
  then show "same_entry (node_at h q) (node_at h' q)" using assms(1) by (simp add: changes_within_def)
qed (use assms(1) in \<open>simp add: changes_within_def\<close>)

text \<open>What exists stays, as a directory or as a file.\<close>

definition grows :: "Host \<Rightarrow> Host \<Rightarrow> bool" where
  "grows h h' \<longleftrightarrow> host_cwd h' = host_cwd h \<and>
     (\<forall>q n. node_at h q = Some n \<longrightarrow> (\<exists>n'. node_at h' q = Some n' \<and> is_DirNode n' = is_DirNode n))"

lemma grows_refl [simp]: "grows h h"
  by (simp add: grows_def)

lemma grows_trans: "grows h h' \<Longrightarrow> grows h' h'' \<Longrightarrow> grows h h''"
  unfolding grows_def by metis

lemma grows_dir: "grows h h' \<Longrightarrow> dir_at h d \<Longrightarrow> dir_at h' d"
  unfolding grows_def dir_at_iff by metis

lemma walk_grows: "walk h cur p = Ok q \<Longrightarrow> grows h h' \<Longrightarrow> walk h' cur p = Ok q"
proof (induction h cur p rule: walk.induct)
  case (1 h cur)
  then show ?case by (auto simp: grows_def split: if_splits)
next
  case (2 h cur c cs)
  then have "node_at h' cur \<noteq> None" "dir_at h' cur"
    by (auto simp: dir_at_iff grows_def split: if_splits) blast+
  with 2 show ?case by (auto split: if_splits component.splits)
qed

lemma node_at_set_node:
  "q \<noteq> [] \<Longrightarrow> node_at (set_node p n h) q = (if q = p then Some n else node_at h q)"
  "node_at h [] = Some (DirNode None 0)"
  by (simp_all add: node_at_def set_node_def update_conv)

lemma host_fields [simp]:
  "host_cwd (set_node p n h) = host_cwd h" "host_cwd (touch p h) = host_cwd h" "host_cwd (add_entry p n h) = host_cwd h"
  "host_cwd (drop_below p h) = host_cwd h" "host_cwd (drop_tree p h) = host_cwd h" "host_cwd (relocate p d h) = host_cwd h"
  by (simp_all add: set_node_def touch_def add_entry_def drop_below_def drop_tree_def relocate_def split: option.split node.split)

lemma changes_set_node: "changes_within {p} h (set_node p n h)"
  by (auto simp: changes_within_def node_at_def set_node_def update_conv)

lemma touch_entry: "same_entry (node_at h q) (node_at (touch d h) q)"
  by (auto simp: same_entry_def node_at_def touch_def set_node_def update_conv split: option.split node.split)

lemma changes_touch: "changes_within B h (touch d h)"
  by (simp add: changes_within_def touch_entry)

lemma grows_touch: "grows h (touch d h)"
  using touch_entry [of h _ d] unfolding grows_def same_entry_def by force

lemma changes_add_entry: "changes_within {p} h (add_entry p n h)"
  unfolding add_entry_def by (rule changes_trans [OF changes_set_node changes_touch])

lemma map_of_filter_keys: "P k \<Longrightarrow> map_of (filter (\<lambda>(q, n). P q) xs) k = map_of xs k"
  by (induction xs) auto

lemma changes_drop: "changes_within {p} h (drop_tree p h)" "changes_within {p} h (drop_below p h)"
  by (auto simp: changes_within_def node_at_def drop_tree_def drop_below_def strict_prefix_def
      map_of_filter_keys [of "\<lambda>q. \<not> prefix p q"] map_of_filter_keys [of "\<lambda>q. prefix p q \<longrightarrow> p = q"])

lemma map_of_relocate:
  "\<not> prefix s q \<Longrightarrow> \<not> prefix d q \<Longrightarrow>
    map_of (map (\<lambda>(q, n). if prefix s q then (d @ drop (length s) q, n) else (q, n)) xs) q = map_of xs q"
  by (induction xs) auto

lemma changes_relocate: "changes_within {s, d} h (relocate s d h)"
  by (auto simp: changes_within_def node_at_def relocate_def map_of_relocate)

section \<open>Footprints of the operations\<close>

text \<open>A path whose directory part is there: what a path passes once it is validated.\<close>

definition reachable_parent :: "Host \<Rightarrow> PathBuf \<Rightarrow> bool" where
  "reachable_parent h p \<longleftrightarrow> p \<noteq> [] \<and> is_Ok (walk h (host_cwd h) (butlast p))"

abbreviation spot :: "Host \<Rightarrow> PathBuf \<Rightarrow> rstr list" where
  "spot h p \<equiv> norm (host_cwd h) p"

lemma entry_canonical:
  assumes "entry_of h p = Ok q" "node_at h q = Some n"
  shows "canonicalize h p = Ok q"
proof -
  from entry_of_dir [OF assms(1)] obtain d m where *: "p \<noteq> []" "last p = Normal m" "q = d @ [m]" "dir_at h d"
    "walk h (host_cwd h) (butlast p) = Ok d" "length (as_bytes m) \<le> NAME_MAX" "\<not> too_long p" .
  have "walk h (host_cwd h) (butlast p @ [Normal m]) = Ok (d @ [m])"
    using * assms(2) by (intro walk_snoc) auto
  moreover have "p = butlast p @ [Normal m]" using *(1,2) append_butlast_last_id by metis
  ultimately show ?thesis using * by (simp add: canonicalize_def)
qed

lemma grows_set_node:
  assumes "\<And>m. node_at h p = Some m \<Longrightarrow> is_DirNode n = is_DirNode m"
  shows "grows h (set_node p n h)"
  unfolding grows_def
proof (intro conjI allI impI)
  fix q m assume "node_at h q = Some m"
  then show "\<exists>n'. node_at (set_node p n h) q = Some n' \<and> is_DirNode n' = is_DirNode m"
    using assms by (cases "q = []") (auto simp: node_at_set_node)
qed simp

lemma grows_add_entry: "node_at h p = None \<Longrightarrow> grows h (add_entry p n h)"
  unfolding add_entry_def by (rule grows_trans [OF grows_set_node grows_touch]) simp

lemma grows_rewrite: "node_at h p = Some (FileNode c m data) \<Longrightarrow> grows h (set_node p (FileNode c' m' data') h)"
  by (rule grows_set_node) simp

lemma node_at_touch: "node_at h q = Some (FileNode c m data) \<Longrightarrow> node_at (touch d h) q = Some (FileNode c m data)"
  using touch_entry [of h q d] by (auto simp: same_entry_def)

lemma node_at_add_entry:
  "p \<noteq> [] \<Longrightarrow> \<exists>n'. node_at (add_entry p n h) p = Some n' \<and> is_DirNode n' = is_DirNode n"
  using touch_entry [of "set_node p n h" p "butlast p"]
  by (auto simp: add_entry_def node_at_set_node same_entry_def dest: sym)

lemma fs_mkdir_changes:
  assumes "fs_mkdir p h = (r, h')"
  shows "changes_within {spot h p} h h' \<and> grows h h'"
proof (cases "entry_of h p")
  case (Ok q)
  show ?thesis
  proof (cases "is_Ok (canonicalize h p)")
    case False
    then have "node_at h q = None" using entry_canonical [OF Ok] by (cases "node_at h q") auto
    with Ok False assms entry_of_norm [OF Ok] show ?thesis
      by (auto simp: fs_mkdir_def changes_add_entry grows_add_entry)
  qed (use assms in \<open>auto simp: fs_mkdir_def\<close>)
qed (use assms in \<open>auto simp: fs_mkdir_def split: if_splits\<close>)

lemma path_is_dir_iff: "path_is_dir h p \<longleftrightarrow> (\<exists>q. canonicalize h p = Ok q \<and> dir_at h q)"
  by (cases "canonicalize h p") (auto simp: path_is_dir_def metadata_def dir_at_iff split: option.splits dest: canonicalize_norm)

lemma path_exists_iff: "path_exists h p \<longleftrightarrow> is_Ok (canonicalize h p)"
  by (cases "canonicalize h p") (auto simp: path_exists_def metadata_def split: option.splits dest: canonicalize_norm)

lemma canonicalize_grows: "canonicalize h p = Ok q \<Longrightarrow> grows h h' \<Longrightarrow> canonicalize h' p = Ok q"
  using walk_grows [of h "host_cwd h" p q h'] by (auto simp: canonicalize_def grows_def split: if_splits)

lemma path_is_dir_grows: "path_is_dir h p \<Longrightarrow> grows h h' \<Longrightarrow> path_is_dir h' p"
  unfolding path_is_dir_iff by (blast intro: canonicalize_grows grows_dir)

lemma fs_mkdir_dir:
  assumes "fs_mkdir p h = (Ok u, h')"
  shows "path_is_dir h' p"
proof -
  obtain q where q: "entry_of h p = Ok q" and h': "h' = add_entry q (DirNode (Some (host_now h)) (host_now h)) h"
    using assms by (auto simp: fs_mkdir_def split: if_splits outcome.splits)
  from entry_of_dir [OF q] obtain d m where *: "p \<noteq> []" "last p = Normal m" "q = d @ [m]" "dir_at h d"
    "walk h (host_cwd h) (butlast p) = Ok d" "length (as_bytes m) \<le> NAME_MAX" "\<not> too_long p" .
  have g: "grows h h'" using fs_mkdir_changes [OF assms] by simp
  obtain n where n: "node_at h' q = Some n" "is_DirNode n"
    using node_at_add_entry [of q _ h] *(3) h' by force
  have "entry_of h' p = Ok q"
    using * g walk_grows [OF *(5) g] grows_dir [OF g *(4)] by (auto simp: entry_of_def grows_def)
  then show ?thesis using entry_canonical n by (auto simp: path_is_dir_iff dir_at_iff)
qed

lemma create_dir_all_one:
  assumes "reachable_parent h p"
  shows "create_dir_all p h =
    (case fs_mkdir p h of (Ok u, h') \<Rightarrow> (Ok u, h') | (r, h') \<Rightarrow> (if path_is_dir h p then Ok () else r, h))"
proof -
  have "fst (fs_mkdir p h) \<noteq> Err NotFound"
    using assms by (auto simp: fs_mkdir_def entry_of_def reachable_parent_def is_Ok_iff split: component.splits if_splits)
  moreover have "p \<noteq> []" using assms by (simp add: reachable_parent_def)
  ultimately show ?thesis by (subst create_dir_all.simps) (auto split: prod.split outcome.split)
qed

lemma create_dir_all_changes:
  assumes "reachable_parent h p" "create_dir_all p h = (r, h')"
  shows "changes_within {spot h p} h h' \<and> grows h h' \<and> (is_Ok r \<longrightarrow> path_is_dir h' p)"
  using assms fs_mkdir_changes fs_mkdir_dir
  by (cases "fs_mkdir p h"; cases "fst (fs_mkdir p h)") (auto simp: create_dir_all_one split: if_splits)

lemma create_dir_all_there: "path_exists h p \<Longrightarrow> snd (create_dir_all p h) = h"
  by (subst create_dir_all.simps) (auto simp: fs_mkdir_def path_exists_iff)

lemma reachable_parentI: "canonicalize h p = Ok q \<Longrightarrow> reachable_parent h p"
  using walk_append [of h "host_cwd h" "butlast p" "[last p]"]
  by (force simp: canonicalize_def reachable_parent_def split: if_splits)

lemma path_len_butlast: "path_len (butlast p) \<le> path_len p"
proof (cases p rule: rev_cases)
  case (snoc q c)
  then show ?thesis by (cases q) (auto simp: path_len_def)
qed simp

lemma reachable_parent_exists:
  assumes "reachable_parent h p" "\<not> too_long p" "butlast p \<noteq> []"
  shows "path_exists h (butlast p)"
  using assms path_len_butlast [of p] by (auto simp: path_exists_iff canonicalize_def reachable_parent_def too_long_def)

lemma fs_write_changes:
  "fs_write p data h = (r, h') \<Longrightarrow> changes_within {spot h p} h h' \<and> grows h h'"
  by (auto simp: fs_write_def changes_add_entry changes_set_node grows_add_entry grows_rewrite
      split: outcome.splits option.splits node.splits dest!: entry_of_norm)

lemma fs_overwrite_changes:
  "fs_overwrite p data h = (r, h') \<Longrightarrow> changes_within {spot h p} h h' \<and> grows h h'"
  by (auto simp: fs_overwrite_def changes_add_entry changes_set_node grows_add_entry grows_rewrite
      split: outcome.splits option.splits node.splits if_splits dest!: entry_of_norm)

lemma fs_set_modified_changes:
  "fs_set_modified p time h = (r, h') \<Longrightarrow> changes_within {spot h p} h h' \<and> grows h h'"
  by (auto simp: fs_set_modified_def changes_set_node grows_rewrite
      split: outcome.splits option.splits node.splits dest!: canonicalize_norm)

lemma fs_remove_changes:
  "fs_remove_file p h = (r, h') \<Longrightarrow> changes_within {spot h p} h h'"
  "fs_remove_dir_all p h = (r, h') \<Longrightarrow> changes_within {spot h p} h h'"
  by (auto simp: fs_remove_file_def fs_remove_dir_all_def changes_drop intro: changes_trans [OF changes_drop(1) changes_touch]
      split: outcome.splits option.splits node.splits if_splits dest!: canonicalize_norm entry_of_norm)

lemma fs_rename_changes:
  assumes "fs_rename src dst h = (r, h')"
  shows "changes_within {spot h src, spot h dst} h h'"
proof -
  have "changes_within {s, d} h (touch a (touch b (relocate s d (drop_tree d h))))" for s d a b
    by (intro changes_trans [OF _ changes_touch] changes_trans [OF _ changes_relocate] changes_mono [OF changes_drop(1) [of d]]) auto
  with assms show ?thesis
    by (auto simp: fs_rename_def split: outcome.splits option.splits if_splits dest!: entry_of_norm)
qed

end
