(* ===== verification/Virtual_Contract.thy ===== *)
theory Virtual_Contract
  imports Virtual_Handlers Host_Changes
begin

text \<open>
  What the virtual device promises of every operation (\<open>transport/virtual_device/handlers.rs\<close>): it answers each command
  with exactly one response of the command's transaction, and it changes nothing on the host outside the
  backing directories of the storages that may be written.
\<close>

section \<open>Copies and moves\<close>

lemma seq_pair: "seq_ok (r, h) k = (r', h') \<Longrightarrow> (\<And>x. r = Ok x \<Longrightarrow> k x h = (r', h') \<Longrightarrow> P) \<Longrightarrow> (h' = h \<Longrightarrow> \<not> is_Ok r' \<Longrightarrow> P) \<Longrightarrow> P"
  by (cases r) auto

lemma copy_file_changes: "copy_file_in_place src dst h = (r, h') \<Longrightarrow> changes_within {spot h dst} h h' \<and> grows h h'"
  using fs_overwrite_changes by (auto simp: copy_file_in_place_def split: if_splits elim!: seq_pair)

lemma fs_copy_changes: "fs_copy src dst h = (r, h') \<Longrightarrow> changes_within {spot h dst} h h' \<and> grows h h'"
  using fs_write_changes by (auto simp: fs_copy_def elim!: seq_pair)

lemma each_entry_changes:
  assumes "\<And>e h r h'. e \<in> set es \<Longrightarrow> Q h \<Longrightarrow> f e h = (r, h') \<Longrightarrow> changes_within B h h' \<and> grows h h'"
    and "\<And>h h'. Q h \<Longrightarrow> grows h h' \<Longrightarrow> Q h'" and "Q h" and "each_entry f es h = (r, h')"
  shows "changes_within B h h' \<and> grows h h'"
  using assms
proof (induction es arbitrary: h)
  case (Cons e es)
  from Cons.prems(4) have "seq_ok (f e h) (\<lambda>_ h. each_entry f es h) = (r, h')" by simp
  then show ?case
  proof (cases rule: seq_ok_cases)
    case (ok x h1)
    have 1: "changes_within B h h1 \<and> grows h h1" using Cons.prems(1) [of e] Cons.prems(3) ok(1) by simp
    with Cons.prems(2,3) have "Q h1" by blast
    then have "changes_within B h1 h' \<and> grows h1 h'"
      using Cons.IH [of h1] Cons.prems(1,2) ok(2) by (meson list.set_intros(2))
    with 1 show ?thesis using changes_trans grows_trans by blast
  next
    case (fail r0)
    then show ?thesis using Cons.prems(1) [of e h r0 h'] Cons.prems(3) by simp
  qed
qed simp

lemma reachable_parent_below: "path_is_dir h p \<Longrightarrow> reachable_parent h (path_join p [Normal n])"
  by (auto simp: path_is_dir_iff reachable_parent_def path_join_def canonicalize_def split: if_splits)

lemma copy_dir_changes:
  "reachable_parent h dst \<Longrightarrow> copy_dir levels src dst h = (r, h') \<Longrightarrow> changes_within {spot h dst} h h' \<and> grows h h'"
proof (induction levels arbitrary: src dst h r h')
  case (Suc levels)
  let ?entry = "\<lambda>(name, n) h. let dest_path = path_join dst [Normal name]; entry_path = path_join src [Normal name] in
    if is_DirNode n then copy_dir levels entry_path dest_path h else copy_file_in_place entry_path dest_path h"
  let ?rest = "\<lambda>h. seq_ok (fs_read_dir h src, h) (\<lambda>entries h. each_entry ?entry entries h)"
  from Suc.prems(2) have "seq_ok (create_dir_all dst h) (\<lambda>_. ?rest) = (r, h')" by simp
  then show ?case
  proof (cases rule: seq_ok_cases)
    case (ok x h1)
    have 1: "changes_within {spot h dst} h h1" "grows h h1" "path_is_dir h1 dst"
      using create_dir_all_changes [OF Suc.prems(1) ok(1)] by auto
    let ?Q = "\<lambda>h2. path_is_dir h2 dst \<and> spot h2 dst = spot h dst"
    have Q: "?Q h1" using 1 by (simp add: grows_def)
    have kept: "?Q h3" if "?Q h2" "grows h2 h3" for h2 h3
      using that by (auto simp: grows_def intro: path_is_dir_grows)
    have step: "changes_within {spot h dst} h2 h3 \<and> grows h2 h3"
      if h2: "?Q h2" and run: "?entry e h2 = (r2, h3)" for e h2 r2 h3
    proof -
      obtain name n where e: "e = (name, n)" by force
      let ?d = "path_join dst [Normal name]"
      have "reachable_parent h2 ?d" using h2 by (intro reachable_parent_below) simp
      then have "changes_within {spot h2 ?d} h2 h3 \<and> grows h2 h3"
        using run Suc.IH [of h2 ?d] copy_file_changes [of _ ?d h2] by (auto simp: e Let_def split: if_splits)
      moreover have "prefix (spot h dst) (spot h2 ?d)" using h2 by simp
      ultimately show ?thesis using changes_mono [where C = "{spot h dst}"] by blast
    qed
    have "changes_within {spot h dst} h1 h' \<and> grows h1 h'"
      using ok(2)
    proof (rule seq_pair)
      fix entries assume "each_entry ?entry entries h1 = (r, h')"
      then show ?thesis by (rule each_entry_changes [where Q = ?Q, rotated 3]) (rule step kept Q; assumption)+
    qed simp
    with 1 show ?thesis using changes_trans grows_trans by blast
  next
    case (fail r0)
    then show ?thesis using create_dir_all_changes [OF Suc.prems(1)] by blast
  qed
qed simp

lemma copy_on_disk_changes:
  "reachable_parent h dst \<Longrightarrow> copy_on_disk src dst h = (r, h') \<Longrightarrow> changes_within {spot h dst} h h'"
  using copy_dir_changes copy_file_changes by (auto simp: copy_on_disk_def copy_dir_all_def split: if_splits)

lemma fs_rename_failed: "fs_rename src dst h = (r, h') \<Longrightarrow> \<not> is_Ok r \<Longrightarrow> h' = h"
  by (auto simp: fs_rename_def split: outcome.splits option.splits if_splits)

lemma changes_cwd: "changes_within B h h' \<Longrightarrow> host_cwd h' = host_cwd h"
  by (simp add: changes_within_def)

lemma move_on_disk_changes:
  assumes "reachable_parent h dst" "move_on_disk src dst h = (r, h')"
  shows "changes_within {spot h src, spot h dst} h h'"
proof (cases "is_Ok (fst (fs_rename src dst h))")
  case True
  with assms show ?thesis using fs_rename_changes
    by (auto simp: move_on_disk_def is_Ok_iff split: prod.splits)
next
  case False
  let ?copy = "if path_is_dir h src then copy_dir_all src dst h else fs_copy src dst h"
  let ?remove = "\<lambda>h. snd (if path_is_dir h src then fs_remove_dir_all src h else fs_remove_file src h)"
  obtain r1 where "fs_rename src dst h = (r1, h)" "\<not> is_Ok r1"
    using False fs_rename_failed by (metis fst_conv surj_pair)
  with assms(2) have run: "(case ?copy of (Ok u, h) \<Rightarrow> (Ok u, ?remove h) | (r, h) \<Rightarrow> (r, h)) = (r, h')"
    by (cases r1) (simp_all only: move_on_disk_def prod.case outcome.case is_Ok.simps not_True_eq_False)
  obtain r2 h2 where copy: "?copy = (r2, h2)" by force
  then have "changes_within {spot h dst} h h2"
    using copy_dir_changes [OF assms(1)] fs_copy_changes by (auto simp: copy_dir_all_def split: if_splits)
  then have 1: "changes_within {spot h src, spot h dst} h h2" by (rule changes_mono) simp
  have "changes_within {spot h2 src} h2 (?remove h2)"
    by (simp add: fs_remove_changes [OF surjective_pairing])
  then have "changes_within {spot h src, spot h dst} h2 (?remove h2)"
    by (rule changes_mono) (simp add: changes_cwd [OF 1])
  with 1 run copy show ?thesis by (cases r2) (auto intro: changes_trans)
qed

section \<open>Validated paths\<close>

lemma validate_inside:
  assumes "validate_path_within h base p = Some q"
  shows "q = spot h p \<and> prefix (spot h base) q \<and> reachable_parent h p \<and> p \<noteq> []"
proof -
  obtain b where b: "canonicalize h base = Ok b"
    using assms by (auto simp: validate_path_within_def split: outcome.splits)
  show ?thesis
  proof (cases "path_exists h p")
    case True
    then obtain c where Ok: "canonicalize h p = Ok c" by (auto simp: path_exists_iff is_Ok_iff)
    then show ?thesis using assms b canonicalize_norm [OF b] canonicalize_norm [OF Ok] reachable_parentI [OF Ok]
      by (auto simp: validate_path_within_def path_exists_iff reachable_parent_def split: if_splits)
  next
    case no: False
    obtain c n where c: "path_parent p = Some (butlast p)" "canonicalize h (butlast p) = Ok c" "prefix b c"
      "file_name p = Some n" "q = c @ [n]"
      using assms b no
      by (auto simp: validate_path_within_def path_parent_def split: if_splits outcome.splits option.splits)
    have p: "p \<noteq> []" "last p = Normal n" using c(4) by (auto simp: file_name_def split: if_splits component.splits)
    then have "spot h p = spot h (butlast p) @ [n]"
      using append_butlast_last_id [of p] norm_append [of "host_cwd h" "butlast p" "[last p]"] by simp
    with c p canonicalize_norm [OF b] canonicalize_norm [OF c(2)] show ?thesis
      by (auto simp: reachable_parent_def canonicalize_def split: if_splits)
  qed
qed

lemma file_name_join:
  assumes "file_name q = Some n"
  shows "file_name (path_join p q) = Some n"
proof -
  have "q \<noteq> []" "last q = Normal n" using assms by (auto simp: file_name_def split: if_splits component.splits)
  then obtain q' where "q = q' @ [Normal n]" by (metis append_butlast_last_id)
  then show ?thesis by (auto simp: file_name_def path_join_def)
qed

section \<open>The invariant\<close>

text \<open>
  A tracked object lies on a storage, inside its backing directory, and has a name; a pending upload is for a storage
  that may be written.
\<close>

definition storage_base :: "VirtualDeviceState \<Rightarrow> VirtualStorageState \<Rightarrow> rstr list" where
  "storage_base st s = spot (vd_host st) (backing_dir s)"

definition object_ok :: "VirtualDeviceState \<Rightarrow> VirtualObject \<Rightarrow> bool" where
  "object_ok st obj \<longleftrightarrow>
     (\<exists>s. find_storage st (vo_storage_id obj) = Some s \<and> file_name (vo_rel_path obj) \<noteq> None
        \<and> prefix (storage_base st s) (norm (storage_base st s) (vo_rel_path obj)))"

definition pending_ok :: "VirtualDeviceState \<Rightarrow> PendingSendInfo \<Rightarrow> bool" where
  "pending_ok st p \<longleftrightarrow>
     find_storage st (ps_storage_id p) \<noteq> None \<and> \<not> is_read_only st (ps_storage_id p)
     \<and> file_name (components (ps_filename p)) \<noteq> None"

definition device_ok :: "VirtualDeviceState \<Rightarrow> bool" where
  "device_ok st \<longleftrightarrow>
     (\<forall>(handle, obj) \<in> set (vd_objects st). object_ok st obj) \<and> (\<forall>p. vd_pending_send st = Some p \<longrightarrow> pending_ok st p)"

text \<open>The places on the host the device may change.\<close>

definition writable :: "VirtualDeviceState \<Rightarrow> rstr list set" where
  "writable st = {storage_base st s | s. s \<in> set (vd_storages st) \<and> \<not> vs_read_only (vss_config s)}"

definition keeps :: "VirtualDeviceState \<Rightarrow> VirtualDeviceState \<Rightarrow> bool" where
  "keeps st st' \<longleftrightarrow> vd_response_queue st' = vd_response_queue st \<and> vd_storages st' = vd_storages st
     \<and> vd_config st' = vd_config st \<and> changes_within (writable st) (vd_host st) (vd_host st') \<and> device_ok st'"

definition answered :: "u32 \<Rightarrow> bytes list \<Rightarrow> bytes list \<Rightarrow> bool" where
  "answered tx_id q q' \<longleftrightarrow>
     (\<exists>code ps. q' = q @ [build_response code tx_id ps])
     \<or> (\<exists>op payload. q' = q @ [build_data_container op tx_id payload, build_response OK_CODE tx_id []])"

definition serves :: "u32 \<Rightarrow> VirtualDeviceState \<Rightarrow> handled \<Rightarrow> bool" where
  "serves tx_id st r \<longleftrightarrow>
     (\<exists>st'. r = (Ok (), st') \<and> answered tx_id (vd_response_queue st) (vd_response_queue st')
        \<and> keeps st (st'\<lparr>vd_response_queue := vd_response_queue st\<rparr>))"

section \<open>Framing\<close>

lemma same_storages:
  "vd_storages st' = vd_storages st \<Longrightarrow> find_storage st' = find_storage st"
  "vd_storages st' = vd_storages st \<Longrightarrow> is_read_only st' = is_read_only st"
  by (auto simp: find_storage_def is_read_only_def fun_eq_iff)

lemma object_ok_cong:
  assumes "vd_storages st' = vd_storages st" "host_cwd (vd_host st') = host_cwd (vd_host st)"
  shows "object_ok st' = object_ok st" "pending_ok st' = pending_ok st" "writable st' = writable st"
  using assms same_storages [OF assms(1)]
  by (auto simp: object_ok_def pending_ok_def writable_def storage_base_def fun_eq_iff)

lemma keepsI_frame:
  assumes "keeps st st1" "vd_response_queue st' = vd_response_queue st1" "vd_storages st' = vd_storages st1"
    "vd_config st' = vd_config st1" "changes_within (writable st) (vd_host st1) (vd_host st')"
    "\<And>handle obj. (handle, obj) \<in> set (vd_objects st') \<Longrightarrow> (handle, obj) \<in> set (vd_objects st1) \<or> object_ok st obj"
    "\<And>p. vd_pending_send st' = Some p \<Longrightarrow> vd_pending_send st1 = Some p \<or> pending_ok st p"
  shows "keeps st st'"
proof -
  have 1: "changes_within (writable st) (vd_host st) (vd_host st')" "vd_storages st' = vd_storages st"
    "vd_storages st1 = vd_storages st" "changes_within (writable st) (vd_host st) (vd_host st1)"
    using assms changes_trans by (auto simp: keeps_def)
  have "object_ok st' = object_ok st" "pending_ok st' = pending_ok st"
    "object_ok st1 = object_ok st" "pending_ok st1 = pending_ok st"
    using 1 changes_cwd by (auto intro!: object_ok_cong)
  with assms 1 show ?thesis unfolding keeps_def device_ok_def by fastforce
qed

lemma keeps_refl: "device_ok st \<Longrightarrow> keeps st st"
  by (simp add: keeps_def)

lemma keeps_trans:
  assumes "keeps st st1" "keeps st1 st2"
  shows "keeps st st2"
proof -
  have "writable st1 = writable st" using assms(1) changes_cwd by (auto simp: keeps_def intro!: object_ok_cong)
  with assms show ?thesis by (auto simp: keeps_def intro: changes_trans)
qed

lemma keeps_same [simp]:
  assumes "keeps st st1"
  shows "keeps st (st1\<lparr>vd_event_queue := eq\<rparr>)" "keeps st (st1\<lparr>vd_next_handle := n\<rparr>)"
    "keeps st (st1\<lparr>vd_session_open := s\<rparr>)" "keeps st (st1\<lparr>vd_forced_partial_read_caps := caps\<rparr>)"
    "keeps st (st1\<lparr>vd_operation_counts := counts\<rparr>)" "keeps st (st1\<lparr>vd_pending_send := None\<rparr>)"
    "keeps st (st1\<lparr>vd_objects := []\<rparr>)" "keeps st (st1\<lparr>vd_objects := filter P (vd_objects st1)\<rparr>)"
    "keeps st (st1\<lparr>vd_pending_command := cmd\<rparr>)" "keeps st (push_event ev st1)"
  using assms by (auto intro: keepsI_frame [OF assms] simp: push_event_def)

lemma keeps_host: "keeps st st1 \<Longrightarrow> changes_within (writable st) (vd_host st1) h \<Longrightarrow> keeps st (st1\<lparr>vd_host := h\<rparr>)"
  by (erule keepsI_frame) auto

lemma keeps_pending: "keeps st st1 \<Longrightarrow> pending_ok st p \<Longrightarrow> keeps st (st1\<lparr>vd_pending_send := Some p\<rparr>)"
  by (erule keepsI_frame) auto

lemma in_set_update: "(k, v) \<in> set (AList.update a b xs) \<Longrightarrow> (k, v) = (a, b) \<or> (k, v) \<in> set xs"
  by (induction xs) (auto split: if_splits)

lemma keeps_insert: "keeps st st1 \<Longrightarrow> object_ok st obj \<Longrightarrow> keeps st (insert_object handle obj st1)"
  by (erule keepsI_frame) (auto simp: insert_object_def dest: in_set_update)

lemma keeps_objects: "keeps st st1 \<Longrightarrow> object_at st1 handle = Some obj \<Longrightarrow> object_ok st obj"
  using object_ok_cong(1) [of st1 st] map_of_SomeD [of "vd_objects st1" handle obj] changes_cwd [of "writable st" "vd_host st" "vd_host st1"]
  by (auto simp: keeps_def device_ok_def object_at_def)

lemma keeps_storages: "keeps st st1 \<Longrightarrow> find_storage st1 = find_storage st" "keeps st st1 \<Longrightarrow> is_read_only st1 = is_read_only st"
  by (simp_all add: keeps_def same_storages [of st1 st])

lemma keeps_base: "keeps st st1 \<Longrightarrow> storage_base st1 s = storage_base st s"
  by (auto simp: keeps_def storage_base_def dest: changes_cwd)

lemma writable_storage:
  assumes "find_storage st sid = Some s" "\<not> is_read_only st sid"
  shows "storage_base st s \<in> writable st"
proof -
  have "s \<in> set (vd_storages st)" using assms(1) by (auto simp: find_storage_def find_Some_iff)
  with assms show ?thesis unfolding writable_def is_read_only_def by auto
qed

section \<open>Answers\<close>

lemma same_queue: "vd_response_queue st = q \<Longrightarrow> st\<lparr>vd_response_queue := q\<rparr> = st"
  by (cases st) simp

lemma serves_respond: "keeps st st1 \<Longrightarrow> serves tx_id st (respond code tx_id ps st1)"
  by (auto simp: serves_def respond_def push_response_def answered_def same_queue keeps_def)

lemma serves_payload: "keeps st st1 \<Longrightarrow> is_Ok payload \<Longrightarrow> serves tx_id st (send_payload op tx_id payload st1)"
  by (cases payload) (auto simp: serves_def send_payload_def respond_def push_response_def answered_def same_queue keeps_def)

section \<open>Payloads can always be built\<close>

lemma length_encode_char: "length (encode_utf16_char c) = len_utf16 c"
  by (simp add: encode_utf16_char_def len_utf16_def Let_def)

lemma fitting_units:
  "units \<le> MAX_STRING_UNITS \<Longrightarrow> units + length (encode_utf16 (fitting units s)) \<le> MAX_STRING_UNITS"
proof (induction s arbitrary: units)
  case (Cons c s)
  have "length (encode_utf16 (c # cs)) = len_utf16 c + length (encode_utf16 cs)" for cs
    by (simp add: encode_utf16_def length_encode_char)
  with Cons.IH [of "units + len_utf16 c"] Cons.prems show ?case
    by (cases "MAX_STRING_UNITS < units + len_utf16 c") (simp_all add: encode_utf16_def)
qed (simp add: encode_utf16_def)

lemma pack_device_string_Ok [simp]: "is_Ok (pack_device_string s)"
  using fitting_units [of 0 s] by (simp add: pack_device_string_def pack_string_def Let_def)

lemma is_Ok_bind: "is_Ok m \<Longrightarrow> (\<And>x. is_Ok (f x)) \<Longrightarrow> is_Ok (bind_ok m f)"
  by (cases m) auto

lemma pack_file_time_Ok [simp]: "is_Ok (pack_file_time config time)"
  by (simp add: pack_file_time_def)

lemma build_device_info_Ok [simp]: "is_Ok (build_device_info config)"
  unfolding build_device_info_def by (intro is_Ok_bind) simp_all

lemma build_storage_info_Ok: "build_storage_info st sid = Some payload \<Longrightarrow> is_Ok payload"
  by (auto simp: build_storage_info_def split: option.splits intro!: is_Ok_bind)

lemma build_object_info_Ok: "build_object_info handle st = Some payload \<Longrightarrow> is_Ok payload"
  by (auto simp: build_object_info_def intro!: is_Ok_bind)

lemma push_element_Ok: "is_Ok (push_element handle property facts config)"
proof -
  have name: "\<exists>bs. (case pack_device_string s of Ok bs \<Rightarrow> Ok bs | _ \<Rightarrow> Panic) = Ok bs" for s
    using pack_device_string_Ok [of s] by (cases "pack_device_string s") auto
  have clock: "\<exists>bs. (case pack_file_time config t of Ok bs \<Rightarrow> Ok bs | _ \<Rightarrow> Panic) = Ok bs" for t
    using pack_file_time_Ok [of config t] by (cases "pack_file_time config t") auto
  have "\<exists>c v. element_of handle property facts config = (c, Ok v)"
    using name [of "of_filename facts"] clock [of "of_modified facts"] clock [of "of_created facts"]
    by (auto simp: element_of_def Let_def split: ObjectPropertyCode.split)
  then show ?thesis by (auto simp: push_element_def)
qed

section \<open>Scanning keeps the invariant\<close>

definition entry_object :: "StorageId \<Rightarrow> ObjectHandle \<Rightarrow> PathBuf \<Rightarrow> VirtualObject" where
  "entry_object sid parent rel = \<lparr>vo_rel_path = rel, vo_storage_id = sid, vo_parent = parent\<rparr>"

lemma track_keeps:
  "keeps st st1 \<Longrightarrow> object_ok st (entry_object sid parent rel) \<Longrightarrow> keeps st (snd (track sid parent rel st1))"
  by (auto simp: track_def alloc_handle_def entry_object_def Let_def intro!: keeps_insert split: option.split)

lemma track_all_keeps:
  "keeps st st1 \<Longrightarrow> (\<And>rel. rel \<in> set rels \<Longrightarrow> object_ok st (entry_object sid parent rel)) \<Longrightarrow>
    track_all sid parent rels st1 = (hs, st2) \<Longrightarrow> keeps st st2"
proof (induction rels arbitrary: st1 hs)
  case (Cons rel rels)
  then have "keeps st (snd (track sid parent rel st1))" by (intro track_keeps) auto
  then show ?case using Cons.IH [of "snd (track sid parent rel st1)"] Cons.prems by (auto split: prod.splits)
qed simp

lemma object_ok_root: "find_storage st sid = Some s \<Longrightarrow> object_ok st (entry_object sid parent [Normal name])"
  by (simp add: object_ok_def entry_object_def file_name_def)

lemma object_ok_child:
  assumes "object_ok st obj" "vo_storage_id obj = sid"
  shows "object_ok st (entry_object sid parent (path_join (vo_rel_path obj) [Normal name]))"
proof -
  have "file_name (path_join (vo_rel_path obj) [Normal name]) = Some name"
    by (rule file_name_join) (simp add: file_name_def)
  then show ?thesis using assms by (auto simp: object_ok_def entry_object_def)
qed

lemma apfst_eq: "apfst f x = (r, s) \<longleftrightarrow> (\<exists>y. x = (y, s) \<and> r = f y)"
  by (cases x) auto

lemma scan_dir_tracks:
  assumes "scan_dir sid parent st1 = (r, st2)"
  obtains "st2 = st1"
  | s hs names where "find_storage st1 sid = Some s" "parent = ROOT"
      "track_all sid parent (map (\<lambda>e. [Normal (fst e)]) (names :: (rstr \<times> node) list)) st1 = (hs, st2)"
  | s hs obj names where "find_storage st1 sid = Some s" "object_at st1 parent = Some obj" "vo_storage_id obj = sid"
      "track_all sid parent (map (\<lambda>e. path_join (vo_rel_path obj) [Normal (fst e)]) (names :: (rstr \<times> node) list)) st1 = (hs, st2)"
  using assms
  by (auto simp: scan_dir_def Let_def apfst_eq case_prod_unfold split: option.splits if_splits elim!: seq_pair)

lemma scan_dir_keeps:
  assumes "keeps st st1" "scan_dir sid parent st1 = (r, st2)"
  shows "keeps st st2"
  using assms(2)
proof (cases rule: scan_dir_tracks)
  case (2 s hs names)
  show ?thesis
    by (rule track_all_keeps [OF assms(1) _ 2(3)]) (use 2 keeps_storages [OF assms(1)] in \<open>auto intro: object_ok_root\<close>)
next
  case (3 s hs obj names)
  show ?thesis
    by (rule track_all_keeps [OF assms(1) _ 3(4)]) (use 3 keeps_objects [OF assms(1)] in \<open>auto intro: object_ok_child\<close>)
qed (use assms(1) in simp)

lemma scan_queue_keeps:
  "keeps st st1 \<Longrightarrow> scan_queue rounds sid queue all st1 = (r, st2) \<Longrightarrow> keeps st st2"
proof (induction rounds arbitrary: queue all st1)
  case (Suc rounds)
  from Suc.prems show ?case
    by (auto simp: Let_def split: if_splits option.splits elim!: seq_ok_cases intro: Suc.IH scan_dir_keeps)
qed simp

lemma scan_all_keeps: "keeps st st1 \<Longrightarrow> scan_all sid st1 = (r, st2) \<Longrightarrow> keeps st st2"
  by (auto simp: scan_all_def simp del: scan_queue.simps elim!: seq_ok_cases intro: scan_queue_keeps scan_dir_keeps)

lemma scanned_keeps:
  assumes "\<And>r st2. x = (r, st2) \<Longrightarrow> keeps st st2" "scanned x = (r, st2)"
  shows "keeps st st2"
  using assms by (auto simp: scanned_def apfst_eq)

lemma scan_storages_keeps:
  assumes "\<And>sid st1 r st2. keeps st st1 \<Longrightarrow> scan sid st1 = (r, st2) \<Longrightarrow> keeps st st2"
  shows "keeps st st1 \<Longrightarrow> scan_storages scan sids st1 = (r, st2) \<Longrightarrow> keeps st st2"
proof (induction sids arbitrary: st1 r)
  case (Cons sid sids)
  have scan: "keeps st s" if "scanned (scan sid st1) = (r', s)" for r' s
    using assms [OF Cons.prems(1)] that by (rule scanned_keeps)
  from Cons.prems(2) have "seq_ok (scanned (scan sid st1)) (\<lambda>hs st. seq_ok (scan_storages scan sids st) (\<lambda>more st. (Ok (hs @ more), st))) = (r, st2)"
    by simp
  then show ?case
  proof (cases rule: seq_ok_cases)
    case (ok hs s1)
    from ok(2) show ?thesis
      by (cases rule: seq_ok_cases) (use Cons.IH [OF scan [OF ok(1)]] in auto)
  qed (rule scan)
qed simp

lemma requested_objects_keeps: "keeps st st1 \<Longrightarrow> requested_objects handle depth st1 = (r, st2) \<Longrightarrow> keeps st st2"
  by (auto simp: requested_objects_def Let_def scanned_def apfst_eq split: if_splits option.splits elim!: seq_ok_cases
      intro: scan_storages_keeps [OF scan_all_keeps] scan_storages_keeps [OF scan_dir_keeps] scan_dir_keeps)

section \<open>Handlers that only read\<close>

lemma on_host_eq: "on_host f st = (r, st') \<longleftrightarrow> (\<exists>h. f (vd_host st) = (r, h) \<and> st' = st\<lparr>vd_host := h\<rparr>)"
  by (auto simp: on_host_def split: prod.split)

lemmas serving = serves_respond serves_payload

lemma get_device_info_serves: "keeps st st1 \<Longrightarrow> serves tx_id st (handle_get_device_info op_code tx_id st1)"
  by (simp add: handle_get_device_info_def serving)

lemma session_serves:
  assumes "keeps st st1"
  shows "serves tx_id st (handle_open_session tx_id st1)" "serves tx_id st (handle_close_session tx_id st1)"
proof -
  have "keeps st (st1\<lparr>vd_session_open := False, vd_objects := [], vd_pending_send := None\<rparr>)"
    using assms by (intro keeps_same)
  then show "serves tx_id st (handle_close_session tx_id st1)"
    by (simp add: handle_close_session_def serving)
qed (use assms in \<open>simp add: handle_open_session_def serving\<close>)

lemma get_storage_serves:
  assumes "keeps st st1"
  shows "serves tx_id st (handle_get_storage_ids op_code tx_id st1)"
    "serves tx_id st (handle_get_storage_info op_code tx_id ps st1)"
  using assms by (auto simp: handle_get_storage_ids_def handle_get_storage_info_def serving
      split: option.split dest: build_storage_info_Ok)

lemma serves_if:
  "(c \<Longrightarrow> serves tx_id st a) \<Longrightarrow> (\<not> c \<Longrightarrow> serves tx_id st b) \<Longrightarrow> serves tx_id st (if c then a else b)"
  by simp

lemma serves_listing:
  assumes "\<And>r st2. m = (r, st2) \<Longrightarrow> keeps st st2"
  shows "serves tx_id st (case m of (Ok handles, st) \<Rightarrow> send_payload op_code tx_id (Ok (pack_u32_array handles)) st
     | (r, st) \<Rightarrow> respond GENERAL_ERROR tx_id [] st)"
  using assms by (cases m; cases "fst m") (simp_all add: serving)

lemma get_object_handles_serves:
  assumes "keeps st st1"
  shows "serves tx_id st (handle_get_object_handles op_code tx_id ps st1)"
proof -
  have "keeps st st2" if "(if parent = ALL_OBJECTS then scan_all sid st1 else scan_dir sid parent st1) = (r, st2)"
    for parent sid r st2
    using that scan_all_keeps [OF assms] scan_dir_keeps [OF assms] by (simp split: if_splits)
  then show ?thesis
    unfolding handle_get_object_handles_def Let_def
    by (intro serves_if serves_respond [OF assms] serves_listing)
qed

lemma get_object_serves:
  assumes "keeps st st1"
  shows "serves tx_id st (handle_get_object_info op_code tx_id ps st1)"
    "serves tx_id st (handle_get_object op_code tx_id ps st1)"
    "serves tx_id st (handle_get_thumb tx_id ps st1)"
  using assms
  by (simp_all add: handle_get_object_info_def handle_get_object_def handle_get_thumb_def Let_def serving
      build_object_info_Ok split: option.split outcome.split)

lemma read_partial_serves:
  assumes "keeps st st1"
  shows "serves tx_id st (read_partial op_code tx_id handle offset max_bytes st1)"
  using assms by (auto simp: read_partial_def Let_def serving split: option.split outcome.split list.split prod.split)

lemma resolve_tracked:
  assumes "keeps st st1" "object_at st1 handle = Some obj"
  obtains s where "find_storage st (vo_storage_id obj) = Some s"
    "resolve_path st1 handle = Some (path_join (backing_dir s) (vo_rel_path obj))" "file_name (vo_rel_path obj) \<noteq> None"
    "prefix (storage_base st s) (spot (vd_host st1) (path_join (backing_dir s) (vo_rel_path obj)))"
proof -
  from keeps_objects [OF assms] obtain s where s: "find_storage st (vo_storage_id obj) = Some s"
    "file_name (vo_rel_path obj) \<noteq> None" "prefix (storage_base st s) (norm (storage_base st s) (vo_rel_path obj))"
    by (auto simp: object_ok_def)
  then show thesis
    using that assms keeps_storages [OF assms(1)] keeps_base [OF assms(1), of s]
    by (auto simp: resolve_path_def storage_base_def)
qed

lemma get_prop_value_serves:
  assumes "keeps st st1"
  shows "serves tx_id st (handle_get_object_prop_value op_code tx_id ps st1)"
proof (cases "object_at st1 (param ps 0)")
  case (Some obj)
  from resolve_tracked [OF assms this] obtain p where "resolve_path st1 (param ps 0) = Some p" by metis
  with assms Some show ?thesis
    by (auto simp: handle_get_object_prop_value_def Let_def unwrap_def serving split: ObjectPropertyCode.split)
qed (use assms in \<open>simp add: handle_get_object_prop_value_def serving\<close>)

lemma concat_ok_Ok: "(\<And>r. r \<in> set rs \<Longrightarrow> is_Ok r) \<Longrightarrow> is_Ok (concat_ok rs)"
proof (induction rs)
  case (Cons r rs)
  then have "is_Ok r" "is_Ok (concat_ok rs)" by simp_all
  then obtain x xs where "r = Ok x" "concat_ok rs = Ok xs" by (auto simp: is_Ok_iff)
  then show ?case by simp
qed simp

lemma describe_all_returns: "describe_all fmt handles st \<noteq> Panic \<and> describe_all fmt handles st \<noteq> Dropped"
proof (induction handles)
  case (Cons handle handles)
  then show ?case by (cases "describe_all fmt handles st") (auto split: option.split)
qed simp

lemma seq_ok_returns:
  assumes "returns (fst m) Q" "\<And>x s. m = (Ok x, s) \<Longrightarrow> returns (fst (k x s)) R"
  shows "returns (fst (seq_ok m k)) R"
proof (cases m)
  case (Pair r s)
  with assms show ?thesis by (cases r) auto
qed

lemma scanned_returns: "returns (fst (scanned x)) (\<lambda>_. True)"
  by (cases x) (auto simp: scanned_def split: outcome.split)

lemma scan_storages_returns: "returns (fst (scan_storages scan sids st)) (\<lambda>_. True)"
  by (induction sids arbitrary: st) (auto intro!: seq_ok_returns scanned_returns)

lemma requested_objects_returns: "returns (fst (requested_objects handle depth st)) (\<lambda>_. True)"
  by (auto simp: requested_objects_def Let_def intro!: scan_storages_returns seq_ok_returns scanned_returns split: option.split)

lemma prop_list_answer_returns: "returns (fst (prop_list_answer ps st)) (\<lambda>_. True)"
proof -
  have "is_Ok (concat_ok [push_element h p facts (vd_config st). (h, facts) \<leftarrow> objects, p \<leftarrow> properties])" for objects properties st
    by (rule concat_ok_Ok) (auto simp: push_element_Ok)
  then have "returns (concat_ok [push_element h p facts (vd_config st). (h, facts) \<leftarrow> objects, p \<leftarrow> properties]) (\<lambda>_. True)"
    for objects properties st
    by (auto simp: is_Ok_iff returns_iff)
  moreover have "returns (describe_all fmt handles st) (\<lambda>_. True)" for fmt handles st
    using describe_all_returns [of fmt handles st] by (cases "describe_all fmt handles st") auto
  moreover have "returns (requested_properties p config) (\<lambda>_. True)" for p config
    by (simp add: requested_properties_def Let_def)
  ultimately show ?thesis
    by (auto simp: prop_list_answer_def Let_def intro!: seq_ok_returns requested_objects_returns)
qed

lemma prop_list_answer_keeps: "keeps st st1 \<Longrightarrow> prop_list_answer ps st1 = (r, st2) \<Longrightarrow> keeps st st2"
  unfolding prop_list_answer_def Let_def
  by (auto split: if_splits elim!: seq_pair elim: seq_ok_cases intro: requested_objects_keeps)

lemma get_prop_list_serves:
  assumes "keeps st st1"
  shows "serves tx_id st (handle_get_object_prop_list op_code tx_id ps st1)"
  using prop_list_answer_returns [of ps st1] prop_list_answer_keeps [OF assms]
  by (cases "prop_list_answer ps st1"; cases "fst (prop_list_answer ps st1)")
    (auto simp: handle_get_object_prop_list_def intro!: serving)

section \<open>Handlers that change the host\<close>

lemma validate_parent:
  assumes "validate_path_within h base p = Some q" "path_parent p = Some d"
  shows "snd (create_dir_all d h) = h"
proof -
  have d: "d = butlast p" using assms(2) by (simp add: path_parent_def split: if_splits)
  have "butlast p = [] \<or> path_exists h (butlast p)"
  proof (cases "path_exists h p")
    case True
    then obtain c where c: "canonicalize h p = Ok c" by (auto simp: path_exists_iff is_Ok_iff)
    then show ?thesis
      using reachable_parent_exists [OF reachable_parentI [OF c]] by (auto simp: canonicalize_def split: if_splits)
  next
    case False
    with assms d show ?thesis by (auto simp: validate_path_within_def split: outcome.splits if_splits)
  qed
  then show ?thesis using create_dir_all_there [of h d] create_dir_all.simps [of "[]" h] by (auto simp: d)
qed

lemma destination:
  assumes "keeps st st1" "find_storage st sid = Some s" "\<not> is_read_only st sid" "file_name rel \<noteq> None"
    "validate_path_within (vd_host st1) (backing_dir s) (path_join (backing_dir s) rel) \<noteq> None"
  shows "object_ok st (entry_object sid parent rel)"
    "reachable_parent (vd_host st1) (path_join (backing_dir s) rel)"
    "\<exists>w \<in> writable st. prefix w (spot (vd_host st1) (path_join (backing_dir s) rel))"
proof -
  let ?h = "vd_host st1"
  from assms(5) obtain q where "validate_path_within ?h (backing_dir s) (path_join (backing_dir s) rel) = Some q" by auto
  from validate_inside [OF this]
  have *: "prefix (spot ?h (backing_dir s)) (spot ?h (path_join (backing_dir s) rel))"
    "reachable_parent ?h (path_join (backing_dir s) rel)" by auto
  have b: "storage_base st s = spot ?h (backing_dir s)"
    using keeps_base [OF assms(1), of s] by (simp add: storage_base_def)
  show "object_ok st (entry_object sid parent rel)"
    using * assms b by (auto simp: object_ok_def entry_object_def)
  show "\<exists>w \<in> writable st. prefix w (spot ?h (path_join (backing_dir s) rel))"
    using * b writable_storage [OF assms(2,3)] by auto
qed (use assms(5) validate_inside in blast)

lemma keeps_on_host:
  assumes "keeps st st1" "on_host f st1 = (r, st2)"
    "\<And>r h. f (vd_host st1) = (r, h) \<Longrightarrow> changes_within B (vd_host st1) h"
    "\<And>b. b \<in> B \<Longrightarrow> \<exists>w \<in> writable st. prefix w b"
  shows "keeps st st2"
  using assms(2) by (auto simp: on_host_eq intro!: keeps_host [OF assms(1)] changes_mono [OF assms(3)] assms(4))

text \<open>Making the parent of a validated path changes nothing, so an upload touches its own entry only.\<close>

definition ensure_parent :: "PathBuf \<Rightarrow> Host \<Rightarrow> unit io \<times> Host" where
  "ensure_parent p h = (case path_parent p of None \<Rightarrow> (Ok (), h) | Some parent \<Rightarrow> create_dir_all parent h)"

lemma ensure_parent_same: "validate_path_within h base p \<noteq> None \<Longrightarrow> ensure_parent p h = (r, h') \<Longrightarrow> h' = h"
  using validate_parent [of h base p] by (auto simp: ensure_parent_def split: option.splits) (metis snd_conv)

lemma write_changes:
  assumes "validate_path_within h base p \<noteq> None" "seq_ok (ensure_parent p h) (\<lambda>_ h. fs_write p data h) = (r, h')"
  shows "changes_within {spot h p} h h'"
  using assms(2) by (cases rule: seq_ok_cases) (use ensure_parent_same [OF assms(1)] fs_write_changes in auto)

lemma create_on_disk_changes:
  assumes "validate_path_within h base p \<noteq> None" "create_on_disk folder p h = (r, h')"
  shows "changes_within {spot h p} h h'"
proof (cases folder)
  case True
  have "reachable_parent h p" using assms(1) validate_inside by blast
  with True assms(2) show ?thesis using create_dir_all_changes by (simp add: create_on_disk_def)
next
  case False
  then show ?thesis using assms write_changes [OF assms(1)] by (auto simp: create_on_disk_def ensure_parent_def)
qed

lemma create_object_serves:
  assumes st: "keeps st st1" and s: "find_storage st sid = Some s" "\<not> is_read_only st sid"
    and parent: "parent = ROOT \<or> object_at st1 parent \<noteq> None"
    and named: "file_name (components (oi_filename info)) \<noteq> None"
  shows "serves tx_id st (create_object tx_id sid parent info st1)"
proof -
  let ?folder = "oi_format info = ObjectFormatCode.Association"
  let ?p = "\<lparr>ps_storage_id = sid, ps_parent = parent, ps_filename = oi_filename info, ps_size = oi_size info,
            ps_is_folder = ?folder, ps_assigned_handle = vd_next_handle st1,
            ps_modified = map_option system_time_from_unix
              (Option.bind (oi_modified info) (\<lambda>dt. to_unix_seconds_with_fallback dt (vc_utc_offset (vd_config (st1\<lparr>vd_next_handle := vd_next_handle st1 + 1\<rparr>)))))\<rparr>"
  define st2 where "st2 = st1\<lparr>vd_next_handle := vd_next_handle st1 + 1, vd_pending_send := Some ?p\<rparr>"
  have st2: "keeps st st2" unfolding st2_def
    using st s named by (intro keeps_pending keeps_same) (auto simp: pending_ok_def)
  obtain prel where prel: "(if parent = ROOT then Some [] else map_option vo_rel_path (object_at st2 parent)) = Some prel"
    using parent by (cases "parent = ROOT") (auto simp: st2_def object_at_def)
  let ?rel = "path_join prel (components (oi_filename info))"
  let ?full = "path_join (backing_dir s) ?rel"
  have rel: "file_name ?rel \<noteq> None" using named file_name_join by blast
  have run: "create_object tx_id sid parent info st1 =
    (if validate_path_within (vd_host st2) (backing_dir s) ?full = None
     then respond GENERAL_ERROR tx_id [] (st2\<lparr>vd_pending_send := None\<rparr>)
     else
       (case on_host (create_on_disk ?folder ?full) st2 of
          (Ok u, st) \<Rightarrow>
            let st = created_events (vd_next_handle st1) sid (insert_object (vd_next_handle st1) (entry_object sid parent ?rel) st)
            in respond OK_CODE tx_id [sid, parent, vd_next_handle st1] (if ?folder then st\<lparr>vd_pending_send := None\<rparr> else st)
        | (r, st) \<Rightarrow> respond GENERAL_ERROR tx_id [] (st\<lparr>vd_pending_send := None\<rparr>)))"
    unfolding create_object_def alloc_handle_def Let_def prod.case entry_object_def
    by (simp only: prel s(1) keeps_storages(1) [OF st2] unwrap_def option.case flip: st2_def)
  show ?thesis
  proof (cases "validate_path_within (vd_host st2) (backing_dir s) ?full = None")
    case True
    then show ?thesis unfolding run by (simp add: serves_respond st2)
  next
    case False
    note dest = destination [OF st2 s rel False]
    obtain r st3 where create: "on_host (create_on_disk ?folder ?full) st2 = (r, st3)" by force
    have "keeps st st3"
      by (rule keeps_on_host [OF st2 create create_on_disk_changes [OF False]]) (use dest(3) in simp_all)
    then have "keeps st (created_events h' sid (insert_object h' (entry_object sid parent ?rel) st3))" "keeps st st3" for h'
      using dest(1) by (simp_all add: created_events_def keeps_insert)
    then show ?thesis unfolding run if_not_P [OF False] create
      by (cases r) (simp_all add: serves_respond Let_def)
  qed
qed

text \<open>What an uploaded object information must satisfy: its file name ends in a name.\<close>

definition named_upload :: "bytes option \<Rightarrow> bool" where
  "named_upload data_payload \<longleftrightarrow>
     (case data_payload of
        None \<Rightarrow> True
      | Some data \<Rightarrow>
          (case ObjectInfo_from_bytes data of Ok info \<Rightarrow> file_name (components (oi_filename info)) \<noteq> None | _ \<Rightarrow> True))"

lemma parent_is_directory_cases:
  assumes "keeps st st1" "find_storage st sid = Some s"
  shows "\<exists>b. parent_is_directory sid parent st1 = Ok b \<and> (b \<longrightarrow> parent = ROOT \<or> object_at st1 parent \<noteq> None)"
  using assms keeps_storages(1) [OF assms(1)]
  by (auto simp: parent_is_directory_def resolve_path_def split: option.split)

lemma send_object_info_serves:
  assumes "keeps st st1" "named_upload data_payload"
  shows "serves tx_id st (handle_send_object_info tx_id ps data_payload st1)"
proof -
  let ?sid = "param ps 0" and ?parent = "if param ps 1 = SEND_ROOT then ROOT else param ps 1"
  note same = keeps_storages [OF assms(1)]
  show ?thesis
  proof (cases "find_storage st ?sid = None \<or> is_read_only st ?sid")
    case True
    then show ?thesis using same
      by (auto simp: handle_send_object_info_def Let_def intro!: serves_if serves_respond assms(1))
  next
    case False
    then obtain s where s: "find_storage st ?sid = Some s" "\<not> is_read_only st ?sid" by auto
    from parent_is_directory_cases [OF assms(1) s(1), of ?parent] obtain b where
      b: "parent_is_directory ?sid ?parent st1 = Ok b" "b \<longrightarrow> ?parent = ROOT \<or> object_at st1 ?parent \<noteq> None" by blast
    have info: "serves tx_id st (case ObjectInfo_from_bytes data of
        Ok info \<Rightarrow> create_object tx_id ?sid ?parent info st1 | Err e \<Rightarrow> respond GENERAL_ERROR tx_id [] st1
      | Panic \<Rightarrow> (Panic, st1) | Dropped \<Rightarrow> (Dropped, st1))" if "b" "data_payload = Some data" for data
      using that b(2) assms(2) returns_not_Panic [OF ObjectInfo_from_bytes_total [of data]]
      by (cases "ObjectInfo_from_bytes data")
        (auto simp only: outcome.case named_upload_def option.case intro!: create_object_serves assms(1) s serves_respond)
    show ?thesis
      unfolding handle_send_object_info_def Let_def
      by (auto simp only: b(1) s same seq_ok.simps option.distinct if_False
          intro!: serves_if serves_respond assms(1) info split: option.split)
  qed
qed

lemma store_object_serves:
  assumes st: "keeps st st1" and s: "find_storage st (ps_storage_id pending) = Some s" "\<not> is_read_only st (ps_storage_id pending)"
    and rel: "file_name rel \<noteq> None"
    and valid: "validate_path_within (vd_host st1) (backing_dir s) (path_join (backing_dir s) rel) \<noteq> None"
  shows "serves tx_id st (store_object tx_id pending data rel (path_join (backing_dir s) rel) st1)"
proof -
  let ?full = "path_join (backing_dir s) rel"
  let ?store = "\<lambda>h. seq_ok (ensure_parent ?full h) (\<lambda>_ h. fs_write ?full data h)"
  note dest = destination [OF st s rel valid]
  obtain r st2 where run: "on_host ?store st1 = (r, st2)" by force
  have st2: "keeps st st2"
    by (rule keeps_on_host [OF st run write_changes [OF valid]]) (use dest(3) in simp_all)
  have cwd: "host_cwd (vd_host st2) = host_cwd (vd_host st1)"
    using st st2 changes_cwd by (auto simp: keeps_def)
  have "keeps st (snd (on_host (fs_set_modified ?full time) st2))" for time
    using dest(3) fs_set_modified_changes [of ?full time "vd_host st2"] cwd
    by (intro keeps_on_host [OF st2 surjective_pairing, where B = "{spot (vd_host st1) ?full}"]) auto
  then have "keeps st (insert_object h' (entry_object (ps_storage_id pending) (ps_parent pending) rel)
      (case ps_modified pending of Some time \<Rightarrow> snd (on_host (fs_set_modified ?full time) st2) | None \<Rightarrow> st2))" for h'
    using st2 dest(1) by (intro keeps_insert) (simp_all split: option.split)
  then show ?thesis
    unfolding store_object_def ensure_parent_def [symmetric] run
    by (cases r) (simp_all add: serves_respond st2 Let_def flip: entry_object_def)
qed

lemma send_object_serves:
  assumes "keeps st st1" "device_ok st"
  shows "serves tx_id st (handle_send_object tx_id data_payload st1)"
proof (cases "vd_pending_send st1")
  case (Some pending)
  have st2: "keeps st (st1\<lparr>vd_pending_send := None\<rparr>)" using assms(1) by simp
  have "pending_ok st1 pending" using assms(1) Some by (auto simp: keeps_def device_ok_def)
  then have "pending_ok st pending"
    using object_ok_cong(2) [of st1 st] assms(1) changes_cwd [of "writable st" "vd_host st" "vd_host st1"] by (auto simp: keeps_def)
  then obtain s where s: "find_storage st (ps_storage_id pending) = Some s" "\<not> is_read_only st (ps_storage_id pending)"
    and named: "file_name (components (ps_filename pending)) \<noteq> None"
    by (auto simp: pending_ok_def)
  have "file_name (path_join p (components (ps_filename pending))) \<noteq> None" for p using named file_name_join by blast
  note store = store_object_serves [OF st2 s this]
  show ?thesis
    unfolding handle_send_object_def Some option.case Let_def keeps_storages(1) [OF st2] s
    by (auto simp only: intro!: serves_if serves_respond st2 store split: option.split)
qed (use assms in \<open>simp add: handle_send_object_def serves_respond\<close>)

lemma delete_object_serves:
  assumes "keeps st st1"
  shows "serves tx_id st (handle_delete_object tx_id ps st1)"
proof (cases "object_at st1 (param ps 0)")
  case (Some obj)
  from resolve_tracked [OF assms this] obtain s where s: "find_storage st (vo_storage_id obj) = Some s"
    and p: "resolve_path st1 (param ps 0) = Some (path_join (backing_dir s) (vo_rel_path obj))"
    "prefix (storage_base st s) (spot (vd_host st1) (path_join (backing_dir s) (vo_rel_path obj)))" .
  let ?p = "path_join (backing_dir s) (vo_rel_path obj)"
  let ?remove = "if path_is_dir (vd_host st1) ?p then fs_remove_dir_all ?p else fs_remove_file ?p"
  obtain r st2 where run: "on_host ?remove st1 = (r, st2)" by force
  have st2: "keeps st st2" if "\<not> is_read_only st (vo_storage_id obj)"
    using fs_remove_changes [of ?p "vd_host st1"] p(2) writable_storage [OF s that]
    by (intro keeps_on_host [OF assms run, where B = "{spot (vd_host st1) ?p}"]) (auto split: if_splits)
  show ?thesis
    unfolding handle_delete_object_def Let_def Some option.case p keeps_storages(2) [OF assms] run
    by (rule serves_if; cases r) (simp_all add: serves_respond assms st2)
qed (use assms in \<open>simp add: handle_delete_object_def serves_respond\<close>)

lemma keeps_if: "keeps st a \<Longrightarrow> keeps st b \<Longrightarrow> keeps st (if c then a else b)"
  by simp

lemma move_object_serves:
  assumes "keeps st st1"
  shows "serves tx_id st (handle_move_object tx_id ps st1)"
proof (cases "object_at st1 (param ps 0)")
  case (Some obj)
  let ?sid = "param ps 1" and ?parent = "param ps 2"
  from resolve_tracked [OF assms Some] obtain s where s: "find_storage st (vo_storage_id obj) = Some s"
    and p: "resolve_path st1 (param ps 0) = Some (path_join (backing_dir s) (vo_rel_path obj))"
    "prefix (storage_base st s) (spot (vd_host st1) (path_join (backing_dir s) (vo_rel_path obj)))"
    and name: "file_name (vo_rel_path obj) \<noteq> None" .
  let ?src = "path_join (backing_dir s) (vo_rel_path obj)"
  have move: "serves tx_id st
      (case on_host (move_on_disk ?src (path_join (backing_dir d) rel)) st1 of
         (Ok u, st) \<Rightarrow>
           let st = insert_object (param ps 0) \<lparr>vo_rel_path = rel, vo_storage_id = ?sid, vo_parent = ?parent\<rparr> st;
               st = push_event (build_event EventCode.StorageInfoChanged [vo_storage_id obj])
                 (push_event (build_event EventCode.ObjectInfoChanged [param ps 0]) st);
               st = (if ?sid \<noteq> vo_storage_id obj
                     then push_event (build_event EventCode.StorageInfoChanged [?sid]) st else st)
           in respond OK_CODE tx_id [] st
       | (r, st) \<Rightarrow> respond GENERAL_ERROR tx_id [] st)"
    if ro: "\<not> is_read_only st (vo_storage_id obj)" "\<not> is_read_only st ?sid" and d: "find_storage st ?sid = Some d"
      and rel: "file_name rel \<noteq> None" and valid: "validate_path_within (vd_host st1) (backing_dir d) (path_join (backing_dir d) rel) \<noteq> None"
    for d rel
  proof -
    note dest = destination [OF assms d ro(2) rel valid]
    obtain r st2 where run: "on_host (move_on_disk ?src (path_join (backing_dir d) rel)) st1 = (r, st2)" by force
    have st2: "keeps st st2"
      using dest(3) p(2) writable_storage [OF s ro(1)]
      by (intro keeps_on_host [OF assms run move_on_disk_changes [OF dest(2)]]) auto
    note kept = keeps_insert [OF st2 dest(1) [unfolded entry_object_def]]
    show ?thesis unfolding run prod.case
      by (cases r) (auto simp only: outcome.case Let_def intro!: serves_respond keeps_same(10) keeps_if kept st2)
  qed
  have "file_name (path_join q (file_name_or_empty (vo_rel_path obj))) \<noteq> None" for q
    using name by (auto simp: file_name_or_empty_def file_name_def path_join_def)
  note move = move [OF _ _ _ this, unfolded Let_def]
  show ?thesis
    unfolding handle_move_object_def Some option.case p keeps_storages [OF assms] prod.case Let_def
    by (auto simp only: intro!: serves_if serves_respond assms move split: option.split)
qed (use assms in \<open>simp add: handle_move_object_def serves_respond\<close>)

lemma copy_object_serves:
  assumes "keeps st st1"
  shows "serves tx_id st (handle_copy_object tx_id ps st1)"
proof (cases "object_at st1 (param ps 0)")
  case (Some obj)
  let ?sid = "param ps 1" and ?parent = "param ps 2"
  from resolve_tracked [OF assms Some] obtain s where
    p: "resolve_path st1 (param ps 0) = Some (path_join (backing_dir s) (vo_rel_path obj))"
    and name: "file_name (vo_rel_path obj) \<noteq> None" .
  let ?src = "path_join (backing_dir s) (vo_rel_path obj)"
  have copy: "serves tx_id st
      (case on_host (copy_on_disk ?src (path_join (backing_dir d) rel)) st1 of
         (r, st) \<Rightarrow>
           if clashes then respond (if is_Ok r \<and> \<not> is_dir then OK_CODE else GENERAL_ERROR) tx_id [AOSP_TRUNCATED_INVALID_HANDLE] st
           else if is_Ok r
           then
             let (new_handle, st) = alloc_handle st;
                 st = created_events new_handle ?sid (insert_object new_handle
                   \<lparr>vo_rel_path = rel, vo_storage_id = ?sid, vo_parent = ?parent\<rparr> st)
             in respond OK_CODE tx_id [new_handle] st
           else respond GENERAL_ERROR tx_id [] st)"
    if ro: "\<not> is_read_only st ?sid" and d: "find_storage st ?sid = Some d" and rel: "file_name rel \<noteq> None"
      and valid: "validate_path_within (vd_host st1) (backing_dir d) (path_join (backing_dir d) rel) \<noteq> None"
    for d rel clashes is_dir
  proof -
    note dest = destination [OF assms d ro rel valid]
    obtain r st2 where run: "on_host (copy_on_disk ?src (path_join (backing_dir d) rel)) st1 = (r, st2)" by force
    have st2: "keeps st st2"
      using dest(3) by (intro keeps_on_host [OF assms run copy_on_disk_changes [OF dest(2)]]) auto
    note kept = keeps_insert [OF keeps_same(2) [OF st2] dest(1) [unfolded entry_object_def]]
    show ?thesis unfolding run prod.case
      by (auto simp only: Let_def alloc_handle_def prod.case created_events_def
          intro!: serves_if serves_respond keeps_same(10) kept st2)
  qed
  have "file_name (path_join q (file_name_or_empty (vo_rel_path obj))) \<noteq> None" for q
    using name by (auto simp: file_name_or_empty_def file_name_def path_join_def)
  note copy = copy [OF _ _ this, unfolded Let_def]
  show ?thesis
    unfolding handle_copy_object_def Some option.case p keeps_storages [OF assms] prod.case Let_def
    by (auto simp only: intro!: serves_if serves_respond assms copy split: option.split)
qed (use assms in \<open>simp add: handle_copy_object_def serves_respond\<close>)

section \<open>Renaming\<close>

lemma components_last:
  assumes "filter (\<lambda>c. c \<noteq> CurDir) (components name) \<noteq> []"
  shows "last (filter (\<lambda>c. c \<noteq> CurDir) (components name)) = last (components name)"
proof -
  obtain parts where parts: "components name = RootDir # filter (\<lambda>c. c \<noteq> CurDir) parts
      \<or> components name = (case parts of [] \<Rightarrow> [] | c # cs \<Rightarrow> c # filter (\<lambda>c. c \<noteq> CurDir) cs)"
    unfolding components_def Let_def by (cases "name \<noteq> [] \<and> hd name = 47") auto
  then have "\<exists>c cs. components name = c # filter (\<lambda>c. c \<noteq> CurDir) cs"
  proof
    assume "components name = (case parts of [] \<Rightarrow> [] | c # cs \<Rightarrow> c # filter (\<lambda>c. c \<noteq> CurDir) cs)"
    then show ?thesis using assms by (cases parts) auto
  qed blast
  then obtain c cs where c: "components name = c # filter (\<lambda>c. c \<noteq> CurDir) cs" by blast
  with assms show ?thesis by (cases "filter (\<lambda>c. c \<noteq> CurDir) cs = []") (auto split: if_splits)
qed

lemma rename_to_parent:
  assumes "fs_rename src (butlast src) h = (Ok u, h')"
  shows False
proof -
  obtain s d where s: "entry_of h src = Ok s" and d: "entry_of h (butlast src) = Ok d"
    using assms by (auto simp: fs_rename_def split: outcome.splits)
  from entry_of_dir [OF s] obtain e n where e: "src \<noteq> []" "last src = Normal n" "s = e @ [n]" "dir_at h e"
    "walk h (host_cwd h) (butlast src) = Ok e" by metis
  have de: "d = e" using walk_norm [OF e(5)] entry_of_norm [OF d] by simp
  obtain m where m: "node_at h d = Some m" "is_DirNode m" using e(4) de by (auto simp: dir_at_iff)
  have "empty_dir h d \<Longrightarrow> node_at h s = None"
    using e(3) de by (fastforce simp: empty_dir_def node_at_def list_all_iff strict_prefix_def map_of_eq_None_iff)
  then show False using assms s d m e(3) de
    by (auto simp: fs_rename_def split: option.splits if_splits)
qed

lemma named_snoc: "file_name p = Some n \<Longrightarrow> \<exists>q. p = q @ [Normal n]"
  by (cases p rule: rev_cases) (auto simp: file_name_def split: component.splits)

lemma named_parent:
  assumes "file_name rel = Some n"
  shows "path_parent rel = Some (butlast rel)" "path_parent (path_join p rel) = Some (butlast (path_join p rel))"
    "norm cur (butlast (path_join p rel)) = norm (norm cur p) (butlast rel)"
proof -
  obtain q where q: "rel = q @ [Normal n]" using named_snoc [OF assms] by blast
  then show "path_parent rel = Some (butlast rel)" by (simp add: path_parent_def)
  show "path_parent (path_join p rel) = Some (butlast (path_join p rel))"
    by (auto simp: path_parent_def path_join_def q)
  show "norm cur (butlast (path_join p rel)) = norm (norm cur p) (butlast rel)"
  proof (cases q)
    case (Cons c cs)
    then show ?thesis by (cases c) (auto simp: path_join_def q butlast_append)
  qed (auto simp: path_join_def q butlast_append)
qed

lemma renamed_name:
  assumes "fs_rename src (path_join (butlast src) (components name)) h = (Ok u, h')"
  shows "file_name (components name) \<noteq> None"
proof -
  let ?q = "components name" and ?p = "butlast src"
  obtain d where "entry_of h (path_join ?p ?q) = Ok d"
    using assms by (auto simp: fs_rename_def split: outcome.splits)
  from entry_of_dir [OF this] obtain m where m: "path_join ?p ?q \<noteq> []" "last (path_join ?p ?q) = Normal m" by metis
  have some: "filter (\<lambda>c. c \<noteq> CurDir) ?q \<noteq> []"
  proof
    assume none: "filter (\<lambda>c. c \<noteq> CurDir) ?q = []"
    then have "\<forall>c \<in> set ?q. c = CurDir" by (simp add: filter_empty_conv)
    then have "?q \<noteq> [] \<longrightarrow> hd ?q = CurDir \<and> last ?q = CurDir" by auto
    with none m have "path_join ?p ?q = ?p" by (auto simp: path_join_def split: if_splits)
    with assms rename_to_parent show False by metis
  qed
  then have "?q \<noteq> []" by auto
  moreover have "last (path_join ?p ?q) = last ?q"
    using components_last [OF some] some by (auto simp: path_join_def)
  ultimately show ?thesis using m(2) by (cases "last ?q") (auto simp: file_name_def)
qed

lemma rename_serves:
  assumes st: "keeps st st1" and obj: "object_at st1 handle = Some obj" and ro: "\<not> is_read_only st (vo_storage_id obj)"
  shows "serves tx_id st (rename_on_device tx_id handle new_name obj st1)"
proof -
  from resolve_tracked [OF st obj] obtain s where s: "find_storage st (vo_storage_id obj) = Some s"
    and p: "resolve_path st1 handle = Some (path_join (backing_dir s) (vo_rel_path obj))"
    "prefix (storage_base st s) (spot (vd_host st1) (path_join (backing_dir s) (vo_rel_path obj)))"
    and name: "file_name (vo_rel_path obj) \<noteq> None" .
  then obtain n where n: "file_name (vo_rel_path obj) = Some n" by auto
  let ?old = "path_join (backing_dir s) (vo_rel_path obj)"
  let ?new = "path_join (butlast ?old) (components new_name)"
  let ?rel = "if butlast (vo_rel_path obj) \<noteq> [] then path_join (butlast (vo_rel_path obj)) (components new_name) else components new_name"
  have base: "storage_base st s = spot (vd_host st1) (backing_dir s)"
    using keeps_base [OF st, of s] by (simp add: storage_base_def)
  have spot: "spot (vd_host st1) ?new = norm (storage_base st s) ?rel"
    by (simp add: named_parent(3) [OF n] base)
  show ?thesis
  proof (cases "validate_path_within (vd_host st1) (backing_dir s) ?new")
    case None
    then show ?thesis
      unfolding rename_on_device_def p option.case named_parent(2) [OF n] unwrap_def Let_def keeps_storages(1) [OF st] s
      by (simp add: serves_respond st)
  next
    case (Some q)
    from validate_inside [OF this] have inside: "prefix (storage_base st s) (spot (vd_host st1) ?new)" by (auto simp: base)
    obtain r st2 where run: "on_host (fs_rename ?old ?new) st1 = (r, st2)" by force
    have st2: "keeps st st2"
      using inside p(2) writable_storage [OF s ro]
      by (intro keeps_on_host [OF st run fs_rename_changes]) auto
    have "keeps st (insert_object handle (obj\<lparr>vo_rel_path := ?rel\<rparr>) st2)" if "r = Ok u" for u
    proof (intro keeps_insert st2)
      have "file_name (components new_name) \<noteq> None"
        using run that renamed_name [of ?old new_name "vd_host st1" u] by (auto simp: on_host_eq)
      then have "file_name ?rel \<noteq> None" using file_name_join by fastforce
      with s inside show "object_ok st (obj\<lparr>vo_rel_path := ?rel\<rparr>)" unfolding object_ok_def spot by auto
    qed
    with Some show ?thesis
      unfolding rename_on_device_def p option.case named_parent [OF n] unwrap_def Let_def keeps_storages(1) [OF st] s run prod.case
      by (cases r) (simp_all only: option.distinct if_False outcome.case serves_respond st2)
  qed
qed

lemma set_prop_value_serves:
  assumes "keeps st st1"
  shows "serves tx_id st (handle_set_object_prop_value tx_id ps data_payload st1)"
proof -
  have "unpack_string data \<noteq> Panic \<and> unpack_string data \<noteq> Dropped" for data
    using string.unpack_returns [of data] by (rule returns_not_Panic)
  then show ?thesis
    unfolding handle_set_object_prop_value_def keeps_storages(2) [OF assms]
    by (auto intro!: serves_if serves_respond assms rename_serves split: option.split outcome.split prod.split)
qed

end
