(* ===== verification/Virtual_Transport.thy ===== *)
theory Virtual_Transport
  imports Virtual_Handlers Streaming
begin

text \<open>
  The virtual device as a transport (\<open>transport/virtual_device/mod.rs\<close>): command and data containers in, responses and
  events out. With it the session layer runs against a model of the responder.
\<close>

section \<open>The transport\<close>

fun read_params :: "bytes \<Rightarrow> nat \<Rightarrow> nat \<Rightarrow> u32 list res" where
  "read_params data i 0 = Ok []"
| "read_params data i (Suc n) =
     bind_ok (bind_ok (slice_from data (12 + i * 4)) unpack_u32) (\<lambda>p. map_ok (\<lambda>ps. p # ps) (read_params data (Suc i) n))"

definition expects_data :: "OperationCode \<Rightarrow> bool" where
  "expects_data op \<longleftrightarrow>
     op = OperationCode.SendObjectInfo \<or> op = OperationCode.SendObject \<or> op = OperationCode.SetObjectPropValue"

definition receive_command :: "u16 \<Rightarrow> u32 \<Rightarrow> bytes \<Rightarrow> VirtualDeviceState \<Rightarrow> handled" where
  "receive_command code tx_id data st =
     (if vd_pending_operation_wedge st
      then (Err PtpError.DeviceReset, st\<lparr>vd_pending_operation_wedge := False\<rparr>)
      else seq_ok (read_params data 0 ((length data - 12) div 4), st) (\<lambda>ps st.
        if expects_data (OperationCode_from code)
        then (Ok (), st\<lparr>vd_pending_command := Some \<lparr>pc_code = code, pc_tx_id = tx_id, pc_params = ps\<rparr>\<rparr>)
        else dispatch code tx_id ps None st))"

definition receive_data :: "bytes \<Rightarrow> VirtualDeviceState \<Rightarrow> handled" where
  "receive_data data st =
     (case vd_pending_command st of
        Some pending \<Rightarrow>
          let st = st\<lparr>vd_pending_command := None\<rparr> in
          seq_ok (slice_from data 12, st) (\<lambda>payload st.
            dispatch (pc_code pending) (pc_tx_id pending) (pc_params pending) (Some payload) st)
      | None \<Rightarrow> (Err (invalid_data ''received data container without pending command'' []), st))"

definition virtual_send_bulk :: "bytes \<Rightarrow> VirtualDeviceState \<Rightarrow> handled" where
  "virtual_send_bulk data st =
     (if length data < 12 then (Err (invalid_data ''container too small'' []), st)
      else
        seq_ok (unpack_slice unpack_u32 data 0 4, st) (\<lambda>len st.
        seq_ok (unpack_slice unpack_u16 data 4 6, st) (\<lambda>container_type st.
        seq_ok (unpack_slice unpack_u16 data 6 8, st) (\<lambda>code st.
        seq_ok (unpack_slice unpack_u32 data 8 12, st) (\<lambda>tx_id st.
          if container_type = 1 then receive_command code tx_id data st
          else if container_type = 2 then receive_data data st
          else (Err (invalid_data ''unexpected container type: {}'' [unat container_type]), st))))))"

definition virtual_receive_bulk :: "usize \<Rightarrow> VirtualDeviceState \<Rightarrow> bytes res \<times> VirtualDeviceState" where
  "virtual_receive_bulk max_size st =
     (case vd_response_queue st of
        data # rest \<Rightarrow> (Ok data, st\<lparr>vd_response_queue := rest\<rparr>)
      | [] \<Rightarrow> (Err (invalid_data ''no response available'' []), st))"

definition virtual_receive_interrupt :: "VirtualDeviceState \<Rightarrow> bytes res \<times> VirtualDeviceState" where
  "virtual_receive_interrupt st =
     (case vd_event_queue st of
        event # rest \<Rightarrow> (Ok event, st\<lparr>vd_event_queue := rest\<rparr>)
      | [] \<Rightarrow> (Err PtpError.Timeout, st))"

definition virtual_cancel_transfer :: "u32 \<Rightarrow> nat \<Rightarrow> VirtualDeviceState \<Rightarrow> handled" where
  "virtual_cancel_transfer tx_id idle_timeout st =
     (let st = st\<lparr>vd_pending_command := None, vd_response_queue := []\<rparr> in
      if vd_pending_cancel_wedge st then (Err PtpError.DeviceReset, st\<lparr>vd_pending_cancel_wedge := False\<rparr>)
      else (Ok (), st))"

definition virtual_ops :: "VirtualDeviceState transport_ops" where
  "virtual_ops = \<lparr>send_bulk = virtual_send_bulk,
     send_bulk_streaming = default_send_bulk_streaming virtual_send_bulk,
     receive_bulk = virtual_receive_bulk, receive_interrupt = virtual_receive_interrupt,
     cancel_transfer = virtual_cancel_transfer, set_drain_on_cancel = default_set_drain_on_cancel,
     drain_bulk_in = default_drain_bulk_in, reset_device = default_reset_device\<rparr>"

lemma virtual_ops_simps [simp]:
  "send_bulk virtual_ops = virtual_send_bulk" "receive_bulk virtual_ops = virtual_receive_bulk"
  "cancel_transfer virtual_ops = virtual_cancel_transfer"
  by (simp_all add: virtual_ops_def)

interpretation virtual: bulk_pipe virtual_ops vd_response_queue "\<lambda>st. True"
  by unfold_locales (auto simp: virtual_receive_bulk_def virtual_cancel_transfer_def Let_def split: if_splits)

end
