(* ===== verification/Virtual_Device.thy ===== *)
theory Virtual_Device
  imports Virtual_Contract Virtual_Transport
begin

text \<open>
  Runs of the virtual device: the contract of \<open>dispatch\<close> as a responder, the steps of the transport as a relation, and
  the invariant of every state a device reaches.
\<close>

section \<open>Every command is served\<close>

definition admissible :: "u16 \<Rightarrow> bytes option \<Rightarrow> bool" where
  "admissible op_code data_payload \<longleftrightarrow>
     (OperationCode_from op_code = OperationCode.SendObjectInfo \<longrightarrow> named_upload data_payload)"

lemma dispatch_serves:
  assumes "device_ok st" "admissible op_code data_payload"
  shows "serves tx_id st (dispatch op_code tx_id ps data_payload st)"
proof -
  have k: "keeps st (count_operation op_code st)"
    unfolding count_operation_def by (rule keeps_same) (rule keeps_refl [OF assms(1)])
  note served = get_device_info_serves [OF k] session_serves [OF k] get_storage_serves [OF k] get_object_handles_serves [OF k]
    get_object_serves [OF k] read_partial_serves [OF k] get_prop_list_serves [OF k] send_object_serves [OF k assms(1)]
    delete_object_serves [OF k] move_object_serves [OF k] copy_object_serves [OF k] get_prop_value_serves [OF k]
    set_prop_value_serves [OF k] serves_respond [OF k]
  show ?thesis
  proof (cases "OperationCode_from op_code = OperationCode.SendObjectInfo")
    case True
    then show ?thesis using assms(2) send_object_info_serves [OF k]
      by (simp add: dispatch_def Let_def admissible_def served)
  next
    case False
    then show ?thesis
      unfolding dispatch_def Let_def unsupported_def handle_get_partial_object_def handle_get_partial_object_64_def
      by (intro serves_if served) (simp_all add: served split: OperationCode.split)
  qed
qed

text \<open>A responder runs a sequence of commands one after the other.\<close>

record Command =
  cmd_code :: u16
  cmd_tx_id :: u32
  cmd_params :: "u32 list"
  cmd_data :: "bytes option"

fun run_commands ::
  "(u16 \<Rightarrow> u32 \<Rightarrow> u32 list \<Rightarrow> bytes option \<Rightarrow> VirtualDeviceState \<Rightarrow> handled) \<Rightarrow> Command list \<Rightarrow> VirtualDeviceState \<Rightarrow> handled" where
  "run_commands serve [] st = (Ok (), st)"
| "run_commands serve (c # cs) st =
     seq_ok (serve (cmd_code c) (cmd_tx_id c) (cmd_params c) (cmd_data c) st) (\<lambda>_ st. run_commands serve cs st)"

text \<open>The answers to a sequence of transactions, in their order.\<close>

definition answered_all :: "u32 list \<Rightarrow> bytes list \<Rightarrow> bytes list \<Rightarrow> bool" where
  "answered_all txs q q' \<longleftrightarrow> (\<exists>answers. q' = q @ concat answers \<and> list_all2 (\<lambda>tx_id. answered tx_id []) txs answers)"

lemma answered_append: "answered tx_id q q' \<longleftrightarrow> (\<exists>a. q' = q @ a \<and> answered tx_id [] a)"
  unfolding answered_def by (auto, blast)

lemma answered_all_Cons:
  assumes "answered tx_id q q1" "answered_all txs q1 q2"
  shows "answered_all (tx_id # txs) q q2"
proof -
  from assms obtain a as where "q1 = q @ a" "answered tx_id [] a" "q2 = q1 @ concat as"
    "list_all2 (\<lambda>tx_id. answered tx_id []) txs as"
    by (auto simp: answered_append [of _ q] answered_all_def)
  then show ?thesis unfolding answered_all_def by (intro exI [of _ "a # as"]) simp
qed

text \<open>
  The contract of a responder over the state of the device, and what a client may rely on: no command makes it panic,
  answers come in the order of the commands, and the host is left alone outside the writable storages.
\<close>

locale responder =
  fixes serve :: "u16 \<Rightarrow> u32 \<Rightarrow> u32 list \<Rightarrow> bytes option \<Rightarrow> VirtualDeviceState \<Rightarrow> handled"
    and admits :: "u16 \<Rightarrow> bytes option \<Rightarrow> bool"
  assumes served: "device_ok st \<Longrightarrow> admits op_code data \<Longrightarrow> serves tx_id st (serve op_code tx_id ps data st)"
begin

lemma serve_Ok:
  assumes "device_ok st" "admits op_code data"
  obtains st' where "serve op_code tx_id ps data st = (Ok (), st')"
    "answered tx_id (vd_response_queue st) (vd_response_queue st')" "device_ok st'"
    "vd_storages st' = vd_storages st" "vd_config st' = vd_config st"
    "changes_within (writable st) (vd_host st) (vd_host st')"
proof -
  from served [OF assms] obtain st' where st': "serve op_code tx_id ps data st = (Ok (), st')"
    "answered tx_id (vd_response_queue st) (vd_response_queue st')"
    and k: "keeps st (st'\<lparr>vd_response_queue := vd_response_queue st\<rparr>)"
    unfolding serves_def by blast
  from k object_ok_cong [of "st'\<lparr>vd_response_queue := vd_response_queue st\<rparr>" st'] have "device_ok st'"
    by (auto simp: keeps_def device_ok_def)
  with st' k that show thesis by (simp add: keeps_def)
qed

lemma run_Ok:
  assumes "device_ok st" "list_all (\<lambda>c. admits (cmd_code c) (cmd_data c)) cs"
  shows "\<exists>st'. run_commands serve cs st = (Ok (), st') \<and> device_ok st'
    \<and> answered_all (map cmd_tx_id cs) (vd_response_queue st) (vd_response_queue st')
    \<and> vd_storages st' = vd_storages st \<and> changes_within (writable st) (vd_host st) (vd_host st')"
  using assms
proof (induction cs arbitrary: st)
  case (Cons c cs)
  have "admits (cmd_code c) (cmd_data c)" using Cons.prems(2) by simp
  from serve_Ok [OF Cons.prems(1) this] obtain st1 where st1: "serve (cmd_code c) (cmd_tx_id c) (cmd_params c) (cmd_data c) st = (Ok (), st1)"
    "answered (cmd_tx_id c) (vd_response_queue st) (vd_response_queue st1)" "device_ok st1"
    "vd_storages st1 = vd_storages st" "changes_within (writable st) (vd_host st) (vd_host st1)"
    by metis
  from Cons.IH [OF st1(3)] Cons.prems(2) obtain st' where st': "run_commands serve cs st1 = (Ok (), st')" "device_ok st'"
    "answered_all (map cmd_tx_id cs) (vd_response_queue st1) (vd_response_queue st')" "vd_storages st' = vd_storages st1"
    "changes_within (writable st1) (vd_host st1) (vd_host st')"
    by auto
  moreover have "writable st1 = writable st" using st1(4,5) changes_cwd by (intro object_ok_cong)
  ultimately show ?case using st1 answered_all_Cons changes_trans by fastforce
qed (simp add: answered_all_def)

end

interpretation device: responder dispatch admissible
  by unfold_locales (rule dispatch_serves)

section \<open>Rescanning keeps the invariant\<close>

lemma foldl_invariant: "P s \<Longrightarrow> (\<And>s x. P s \<Longrightarrow> x \<in> set xs \<Longrightarrow> P (f s x)) \<Longrightarrow> P (foldl f s xs)"
  by (induction xs arbitrary: s) auto

lemma join_below: "path_join (b @ map Normal names) [Normal name] = b @ map Normal (names @ [name])"
  by (simp add: path_join_def)

lemma rescan_dir_keeps:
  assumes "find_storage st sid = Some s"
  shows "keeps st st1 \<Longrightarrow> rescan_dir depth sid (backing_dir s) (backing_dir s @ map Normal names) parent st1 = (k, st2) \<Longrightarrow> keeps st st2"
proof (induction depth arbitrary: names parent st1 k st2)
  case (Suc depth)
  let ?dir = "backing_dir s @ map Normal names"
  have new: "object_ok st (entry_object sid parent (map Normal (names @ [name])))" for parent name
    using assms by (auto simp: object_ok_def entry_object_def file_name_def)
  define found where "found = (\<lambda>rel_path (added :: u32) st.
     (case List.find (\<lambda>(h, obj). vo_storage_id obj = sid \<and> vo_rel_path obj = rel_path) (vd_objects st) of
        Some (h, obj) \<Rightarrow> (h, added, st)
      | None \<Rightarrow>
          let (h, st) = alloc_handle st;
              st = insert_object h \<lparr>vo_rel_path = rel_path, vo_storage_id = sid, vo_parent = parent\<rparr> st
          in (h, added + 1, push_event (build_event EventCode.ObjectAdded [h]) st)))"
  define visit where "visit = (\<lambda>(added, st) (name, n :: node).
     let full_path = path_join ?dir [Normal name] in
     case strip_prefix full_path (backing_dir s) of
       None \<Rightarrow> (added, st)
     | Some rel_path \<Rightarrow>
         let (handle, added, st) = found rel_path added st in
         if path_is_dir (vd_host st) full_path
         then (case rescan_dir depth sid (backing_dir s) full_path handle st of (k, st) \<Rightarrow> (added + k, st))
         else (added, st))"
  have found: "keeps st st2" if "keeps st st1" "found (map Normal (names @ [name])) added st1 = (h, a, st2)" for name added st1 h a st2
    using that new [of parent name, unfolded entry_object_def]
    by (auto simp: found_def alloc_handle_def Let_def keeps_insert split: option.splits simp del: map_append)
  have step: "keeps st (snd (visit x e))" if x: "keeps st (snd x)" for x e
  proof -
    obtain added st1 name n where e: "x = (added, st1)" "e = (name, n)" by (cases x, cases e)
    obtain h a st2 where f: "found (map Normal (names @ [name])) added st1 = (h, a, st2)" by (cases "found (map Normal (names @ [name])) added st1")
    have st2: "keeps st st2" using found [OF _ f] x e by simp
    obtain k st3 where r: "rescan_dir depth sid (backing_dir s) (backing_dir s @ map Normal (names @ [name])) h st2 = (k, st3)" by force
    have "keeps st st3" by (rule Suc.IH [OF st2 r])
    with st2 show ?thesis
      unfolding e visit_def Let_def prod.case join_below strip_prefix_def
      by (simp add: f r del: map_append)
  qed
  have "rescan_dir (Suc depth) sid (backing_dir s) ?dir parent st1 =
    (case fs_read_dir (vd_host st1) ?dir of Ok entries \<Rightarrow> foldl visit (0, st1) entries | _ \<Rightarrow> (0, st1))"
    unfolding visit_def found_def by simp
  with Suc.prems foldl_invariant [where P = "\<lambda>x. keeps st (snd x)" and f = visit, OF _ step] show ?case
    by (auto split: outcome.splits) (metis snd_conv)
qed simp

lemma find_storage_distinct:
  "distinct (map vss_storage_id (vd_storages st)) \<Longrightarrow> s \<in> set (vd_storages st) \<Longrightarrow> find_storage st (vss_storage_id s) = Some s"
proof -
  have "distinct (map vss_storage_id ss) \<Longrightarrow> s \<in> set ss \<Longrightarrow> List.find (\<lambda>t. vss_storage_id t = vss_storage_id s) ss = Some s" for ss
    by (induction ss) force+
  then show "distinct (map vss_storage_id (vd_storages st)) \<Longrightarrow> s \<in> set (vd_storages st) \<Longrightarrow> ?thesis"
    by (simp add: find_storage_def)
qed

lemma rescan_keeps:
  assumes "device_ok st" "distinct (map vss_storage_id (vd_storages st))"
  shows "keeps st (snd (rescan_backing_dirs st))"
proof -
  define drop_stale where "drop_stale = (\<lambda>st (handle, storage_id :: StorageId). push_event (build_event EventCode.ObjectRemoved [handle])
    (st\<lparr>vd_objects := AList.delete handle (vd_objects st)\<rparr>))"
  define visit where "visit = (\<lambda>(added :: u32, changed, st) storage.
    case rescan_dir PATH_MAX (vss_storage_id storage) (backing_dir storage) (backing_dir storage) ROOT st of
      (k, st) \<Rightarrow> (added + k, if k > 0 then changed @ [vss_storage_id storage] else changed, st))"
  define announce where "announce = (\<lambda>st storage_id. push_event (build_event EventCode.StorageInfoChanged [storage_id]) st)"
  let ?st1 = "foldl drop_stale st (stale_objects st)"
  let ?x = "foldl visit (0, map snd (stale_objects st), ?st1) (vd_storages ?st1)"
  have 1: "keeps st ?st1"
    by (rule foldl_invariant) (auto simp: keeps_refl [OF assms(1)] drop_stale_def AList.delete_eq split: prod.split)
  have "keeps st (snd (snd (visit x s)))" if "keeps st (snd (snd x))" "s \<in> set (vd_storages ?st1)" for x s
  proof -
    have s: "find_storage st (vss_storage_id s) = Some s"
      using 1 that(2) by (intro find_storage_distinct assms(2)) (simp add: keeps_def)
    obtain a c st1 where x: "x = (a, c, st1)" by (cases x)
    obtain k st2 where r: "rescan_dir PATH_MAX (vss_storage_id s) (backing_dir s) (backing_dir s @ map Normal []) ROOT st1 = (k, st2)"
      by force
    with rescan_dir_keeps [OF s _ r] that(1) show ?thesis by (simp add: x visit_def)
  qed
  then have 2: "keeps st (snd (snd ?x))"
    using 1 by (intro foldl_invariant [where P = "\<lambda>x. keeps st (snd (snd x))"]) auto
  have "snd (rescan_backing_dirs st) = foldl announce (snd (snd ?x)) (remdups (fst (snd ?x)))"
    unfolding rescan_backing_dirs_def Let_def drop_stale_def visit_def announce_def by (simp split: prod.split)
  also have "keeps st \<dots>"
    by (rule foldl_invariant [where P = "keeps st"]) (auto simp: 2 announce_def)
  finally show ?thesis .
qed

section \<open>Transfers\<close>

text \<open>What a session's transfer must satisfy: a data phase that creates an object names it.\<close>

definition admissible_transfer :: "bytes \<Rightarrow> VirtualDeviceState \<Rightarrow> bool" where
  "admissible_transfer data st \<longleftrightarrow>
     (case vd_pending_command st of
        None \<Rightarrow> True
      | Some pending \<Rightarrow> unpack_slice unpack_u16 data 4 6 = Ok 2 \<longrightarrow> admissible (pc_code pending) (Some (drop 12 data)))"

definition tame :: "VirtualDeviceState \<Rightarrow> VirtualDeviceState \<Rightarrow> bool" where
  "tame st st' \<longleftrightarrow> device_ok st' \<and> vd_storages st' = vd_storages st \<and> changes_within (writable st) (vd_host st) (vd_host st')"

lemma tame_frame:
  assumes "device_ok st" "vd_host st' = vd_host st" "vd_storages st' = vd_storages st" "vd_objects st' = vd_objects st"
    "vd_pending_send st' = vd_pending_send st"
  shows "tame st st'"
  using assms object_ok_cong [of st' st] by (simp add: tame_def device_ok_def)

lemma tame_dispatch:
  assumes "device_ok st" "admissible op_code data" "dispatch op_code tx_id ps data st = (r, st')"
  shows "tame st st' \<and> r = Ok ()"
  using device.serve_Ok [OF assms(1,2), of tx_id ps] assms(3) by (fastforce simp: tame_def)

lemma tame_trans: "tame st st1 \<Longrightarrow> tame st1 st2 \<Longrightarrow> tame st st2"
  using object_ok_cong(3) [of st1 st] changes_cwd changes_trans by (fastforce simp: tame_def)

lemma read_params_returns:
  "12 + (i + n) * 4 \<le> length data \<Longrightarrow> returns (read_params data i n) (\<lambda>_. True)"
proof (induction n arbitrary: i)
  case (Suc n)
  have "returns (unpack_u32 (drop (12 + i * 4) data)) (\<lambda>_. True)"
    by (rule returns_mono [OF u32.unpack_returns]) simp
  with Suc show ?case by (auto simp: slice_from_def intro!: returns_mono)
qed simp

lemma tame_send:
  assumes "device_ok st" "admissible_transfer data st" "virtual_send_bulk data st = (r, st')"
  shows "tame st st' \<and> returns r (\<lambda>_. True)"
proof (cases "length data < 12")
  case True
  with assms show ?thesis by (auto simp: virtual_send_bulk_def tame_frame)
next
  case False
  obtain len where len: "unpack_slice unpack_u32 data 0 4 = Ok len"
    using u32.unpack_slice_in [of 4 0 data] False by auto
  obtain ty where ty: "unpack_slice unpack_u16 data 4 6 = Ok ty"
    using u16.unpack_slice_in [of 6 4 data] False by auto
  obtain code where code: "unpack_slice unpack_u16 data 6 8 = Ok code"
    using u16.unpack_slice_in [of 8 6 data] False by auto
  obtain tx where tx: "unpack_slice unpack_u32 data 8 12 = Ok tx"
    using u32.unpack_slice_in [of 12 8 data] False by auto
  have run: "virtual_send_bulk data st =
    (if ty = 1 then receive_command code tx data st else if ty = 2 then receive_data data st
     else (Err (invalid_data ''unexpected container type: {}'' [unat ty]), st))"
    using False by (simp add: virtual_send_bulk_def len ty code tx)
  consider "ty = 1" | "ty = 2" | "ty \<noteq> 1" "ty \<noteq> 2" by blast
  then show ?thesis
  proof cases
    case 1
    have "(length data - 12) div 4 * 4 \<le> length data - 12" by simp
    then have params: "returns (read_params data 0 ((length data - 12) div 4)) (\<lambda>_. True)"
      using False by (intro read_params_returns) simp
    have "admissible code None" by (simp add: admissible_def named_upload_def)
    then have "tame st st1 \<and> returns r1 (\<lambda>_. True)" if "dispatch code tx ps None st = (r1, st1)" for ps r1 st1
      using tame_dispatch [OF assms(1) _ that] by simp
    moreover have "tame st (st\<lparr>vd_pending_operation_wedge := False\<rparr>)" "tame st (st\<lparr>vd_pending_command := c\<rparr>)" for c
      using assms(1) by (auto intro: tame_frame)
    moreover have "tame st st" using assms(1) by (intro tame_frame) simp_all
    ultimately show ?thesis
      using assms(3) params unfolding run receive_command_def 1
      by (cases "read_params data 0 ((length data - 12) div 4)") (auto split: if_splits)
  next
    case 2
    show ?thesis
    proof (cases "vd_pending_command st")
      case (Some pending)
      have "admissible (pc_code pending) (Some (drop 12 data))"
        using assms(2) Some ty 2 by (simp add: admissible_transfer_def)
      moreover have "tame st (st\<lparr>vd_pending_command := None\<rparr>)" using assms(1) by (intro tame_frame) simp_all
      moreover have "(r, st') = dispatch (pc_code pending) (pc_tx_id pending) (pc_params pending) (Some (drop 12 data)) (st\<lparr>vd_pending_command := None\<rparr>)"
        using assms(3) run 2 Some False by (simp add: receive_data_def slice_from_def Let_def)
      ultimately show ?thesis using tame_dispatch tame_trans by (metis returns.simps(1) tame_def)
    qed (use assms run 2 in \<open>auto simp: receive_data_def tame_frame\<close>)
  qed (use assms run in \<open>auto simp: tame_frame\<close>)
qed

section \<open>Runs of the device\<close>

text \<open>One step of the device: a transfer or a poll of its client, a cancel, or a rescan of the backing directories.\<close>

inductive device_step :: "VirtualDeviceState \<Rightarrow> VirtualDeviceState \<Rightarrow> bool" where
  send: "admissible_transfer data st \<Longrightarrow> virtual_send_bulk data st = (r, st') \<Longrightarrow> device_step st st'"
| receive: "virtual_receive_bulk n st = (r, st') \<Longrightarrow> device_step st st'"
| event: "virtual_receive_interrupt st = (r, st') \<Longrightarrow> device_step st st'"
| cancel: "virtual_cancel_transfer tx_id idle st = (r, st') \<Longrightarrow> device_step st st'"
| rescan: "rescan_backing_dirs st = (summary, st') \<Longrightarrow> device_step st st'"

definition running :: "VirtualDeviceState \<Rightarrow> bool" where
  "running st \<longleftrightarrow> device_ok st \<and> distinct (map vss_storage_id (vd_storages st))"

lemma device_step_tame:
  assumes "device_step st st'" "running st"
  shows "tame st st'"
  using assms
proof cases
  case (rescan summary)
  then show ?thesis using rescan_keeps [of st] assms(2) by (auto simp: running_def keeps_def tame_def)
qed (auto simp: running_def virtual_receive_bulk_def virtual_receive_interrupt_def virtual_cancel_transfer_def Let_def
    dest: tame_send intro: tame_frame split: list.splits if_splits)

lemma device_run_tame:
  assumes "device_step\<^sup>*\<^sup>* st st'" "running st"
  shows "tame st st' \<and> running st'"
  using assms(1)
proof (induction rule: rtranclp_induct)
  case base
  then show ?case using assms(2) by (simp add: tame_frame running_def)
next
  case (step y z)
  then have "tame y z" by (blast intro: device_step_tame)
  with step.IH show ?case using tame_trans by (auto simp: running_def tame_def)
qed

lemma running_new:
  assumes "length (vc_storages config) < 2 ^ 32"
  shows "running (VirtualDeviceState_new h config)"
proof -
  let ?n = "length (vc_storages config)"
  have inj: "inj_on (\<lambda>i. 0x00010001 + word_of_nat i :: u32) {0..<?n}"
  proof (rule inj_onI)
    fix i j assume "i \<in> {0..<?n}" "j \<in> {0..<?n}" "0x00010001 + word_of_nat i = (0x00010001 + word_of_nat j :: u32)"
    then have "(word_of_nat i :: u32) = word_of_nat j" "i < 2 ^ 32" "j < 2 ^ 32" using assms by simp_all
    then show "i = j" by (simp add: word_of_nat_eq_iff take_bit_nat_eq_self)
  qed
  have "map vss_storage_id (vd_storages (VirtualDeviceState_new h config)) =
      map (\<lambda>i. 0x00010001 + word_of_nat i) [0..<?n]"
    by (rule nth_equalityI) (auto simp: VirtualDeviceState_new_def resolve_storage_def nth_enumerate_eq)
  then have "distinct (map vss_storage_id (vd_storages (VirtualDeviceState_new h config)))"
    using inj by (simp add: distinct_map)
  then show ?thesis by (simp add: running_def device_ok_def) (simp add: VirtualDeviceState_new_def)
qed

lemma writable_new:
  "writable (VirtualDeviceState_new h config) =
     {spot h (vs_backing_dir sc) | sc. sc \<in> set (vc_storages config) \<and> \<not> vs_read_only sc}"
proof -
  let ?E = "set (List.enumerate 0 (vc_storages config))" and ?f = "\<lambda>(i, sc). resolve_storage h i sc"
  have f: "spot h (backing_dir (?f e)) = spot h (vs_backing_dir (snd e))"
    "vs_read_only (vss_config (?f e)) = vs_read_only (snd e)" for e
    by (cases e; cases "canonicalize h (vs_backing_dir (snd e))";
        auto simp: resolve_storage_def backing_dir_def dest: canonicalize_norm)+
  have "writable (VirtualDeviceState_new h config) =
      (\<lambda>e. spot h (backing_dir (?f e))) ` {e \<in> ?E. \<not> vs_read_only (vss_config (?f e))}"
    unfolding writable_def storage_base_def VirtualDeviceState_new_def by (auto intro!: rev_image_eqI)
  also have "\<dots> = (\<lambda>e. spot h (vs_backing_dir (snd e))) ` {e \<in> ?E. \<not> vs_read_only (snd e)}"
    unfolding f ..
  also have "\<dots> = (\<lambda>sc. spot h (vs_backing_dir sc)) ` {sc \<in> snd ` ?E. \<not> vs_read_only sc}" by auto
  also have "snd ` ?E = set (vc_storages config)" by (metis map_snd_enumerate set_map)
  finally show ?thesis by auto
qed

section \<open>Properties\<close>

text \<open>
  C5: Whatever a client sends to a virtual device, in whatever order, and however often it is cancelled or rescanned, the
  device changes nothing on its host outside the backing directories of its writable storages (but the modification
  times of directories), and no transfer makes it panic. The one condition on the client is that an uploaded object has a
  name.
\<close>

theorem device_confined:
  assumes "device_step\<^sup>*\<^sup>* (VirtualDeviceState_new h config) st" "length (vc_storages config) < 2 ^ 32"
  shows "changes_within {spot h (vs_backing_dir sc) | sc. sc \<in> set (vc_storages config) \<and> \<not> vs_read_only sc} h (vd_host st)
    \<and> (admissible_transfer data st \<longrightarrow> returns (fst (virtual_send_bulk data st)) (\<lambda>_. True))"
proof -
  have "tame (VirtualDeviceState_new h config) st" "running st"
    using device_run_tame [OF assms(1) running_new [OF assms(2)]] by blast+
  moreover have "vd_host (VirtualDeviceState_new h config) = h" by (simp add: VirtualDeviceState_new_def)
  ultimately show ?thesis
    using tame_send [OF _ _ surjective_pairing, of st data] by (auto simp: tame_def running_def writable_new)
qed

text \<open>A device with one writable storage on a directory that holds a folder and a file.\<close>

definition demo_host :: Host where
  "demo_host = \<lparr>host_files = [([str ''srv''], DirNode None 0), ([str ''srv'', str ''sdcard''], DirNode None 0),
      ([str ''srv'', str ''sdcard'', str ''DCIM''], DirNode None 0),
      ([str ''srv'', str ''sdcard'', str ''b.txt''], FileNode None 0 [1, 2, 3, 4, 5]), ([str ''srv'', str ''private''], FileNode None 0 [7])],
     host_now = 1000000000, host_dir_len = 4096, host_cwd = []\<rparr>"

definition demo_storage :: VirtualStorageConfig where
  "demo_storage = \<lparr>vs_description = str ''Internal'', vs_capacity = 1000, vs_backing_dir = components (str ''/srv/sdcard''),
     vs_read_only = False\<rparr>"

definition demo_device :: VirtualDeviceState where
  "demo_device = VirtualDeviceState_new demo_host (VirtualDeviceConfig_default\<lparr>vc_storages := [demo_storage]\<rparr>)"

theorem device_confined_witness:
  "changes_within {spot demo_host (vs_backing_dir demo_storage)} demo_host
     (vd_host (snd (virtual_send_bulk (command OperationCode.OpenSession 0 [1]) demo_device)))"
proof -
  have "device_step demo_device (snd (virtual_send_bulk (command OperationCode.OpenSession 0 [1]) demo_device))" (is "device_step _ ?st")
    by (rule device_step.send [OF _ surjective_pairing])
      (simp add: admissible_transfer_def demo_device_def VirtualDeviceState_new_def)
  then have "device_step\<^sup>*\<^sup>* demo_device ?st" by blast
  with device_confined [of demo_host "VirtualDeviceConfig_default\<lparr>vc_storages := [demo_storage]\<rparr>" ?st "[]"]
  have "changes_within {spot demo_host (vs_backing_dir sc) | sc. sc \<in> set [demo_storage] \<and> \<not> vs_read_only sc} demo_host (vd_host ?st)"
    by (simp add: demo_device_def)
  moreover have "{spot demo_host (vs_backing_dir sc) | sc. sc \<in> set [demo_storage] \<and> \<not> vs_read_only sc}
      = {spot demo_host (vs_backing_dir demo_storage)}"
    by (auto simp: demo_storage_def)
  ultimately show ?thesis by simp
qed

text \<open>
  C9: A session's commands are answered one for one: from every state that a device of fewer than 2^32 storages reaches, a sequence of commands in which every
  announced object has a name runs to its end without a panic, each is answered by one response of its own transaction, or by one data container of it and an OK response, in
  the order of the commands. (An object announced without a name can be the backing directory itself, whose renaming makes the handler panic.)
\<close>

theorem commands_answered:
  assumes "device_step\<^sup>*\<^sup>* (VirtualDeviceState_new h config) st" "length (vc_storages config) < 2 ^ 32"
    and "list_all (\<lambda>c. admissible (cmd_code c) (cmd_data c)) cs"
  shows "\<exists>st'. run_commands dispatch cs st = (Ok (), st')
    \<and> answered_all (map cmd_tx_id cs) (vd_response_queue st) (vd_response_queue st')"
  using device.run_Ok [OF _ assms(3), of st] device_run_tame [OF assms(1) running_new [OF assms(2)]]
  by (auto simp: running_def)

theorem commands_answered_witness:
  "\<exists>st'. run_commands dispatch
      [\<lparr>cmd_code = 0x1002, cmd_tx_id = 0, cmd_params = [1], cmd_data = None\<rparr>,
       \<lparr>cmd_code = 0x1007, cmd_tx_id = 1, cmd_params = [0x00010001, 0, 0], cmd_data = None\<rparr>,
       \<lparr>cmd_code = 0x100B, cmd_tx_id = 2, cmd_params = [1, 0], cmd_data = None\<rparr>] demo_device = (Ok (), st')
    \<and> answered_all [0, 1, 2] [] (vd_response_queue st')"
  using commands_answered [of demo_host "VirtualDeviceConfig_default\<lparr>vc_storages := [demo_storage]\<rparr>" demo_device
      "[\<lparr>cmd_code = 0x1002, cmd_tx_id = 0, cmd_params = [1], cmd_data = None\<rparr>,
       \<lparr>cmd_code = 0x1007, cmd_tx_id = 1, cmd_params = [0x00010001, 0, 0], cmd_data = None\<rparr>,
       \<lparr>cmd_code = 0x100B, cmd_tx_id = 2, cmd_params = [1, 0], cmd_data = None\<rparr>]"]
  by (simp add: demo_device_def admissible_def named_upload_def) (simp add: VirtualDeviceState_new_def)

end
