(* ===== verification/Virtual_Session.thy ===== *)
theory Virtual_Session
  imports Virtual_Device
begin

text \<open>
  A session (\<open>ptp/session\<close>) whose transport is the virtual device: the containers one side builds are the ones the other side
  reads, so an operation of the session is the handler of the device and the parse of its answer. The second
  half follows an upload through the device's state and the host's file system.
\<close>

section \<open>Containers as the device reads them\<close>

lemma header_fields:
  "unpack_slice unpack_u16 (pack_header n ty code tx @ rest) 4 6 = Ok (ContainerType_to_code ty)"
  "unpack_slice unpack_u16 (pack_header n ty code tx @ rest) 6 8 = Ok code"
  "unpack_slice unpack_u32 (pack_header n ty code tx @ rest) 8 12 = Ok tx"
  "unpack_slice unpack_u32 (pack_header n ty code tx @ rest) 0 4 = Ok (word_of_nat n)"
proof -
  let ?n = "pack_u32 (word_of_nat n)" and ?t = "pack_u16 (ContainerType_to_code ty)"
    and ?c = "pack_u16 code" and ?x = "pack_u32 tx"
  show "unpack_slice unpack_u16 (pack_header n ty code tx @ rest) 4 6 = Ok (ContainerType_to_code ty)"
    using u16.unpack_slice_mid [of 4 ?n 6 _ "?c @ ?x @ rest"] by (simp add: pack_header_def header_lengths)
  show "unpack_slice unpack_u16 (pack_header n ty code tx @ rest) 6 8 = Ok code"
    using u16.unpack_slice_mid [of 6 "?n @ ?t" 8 code "?x @ rest"] by (simp add: pack_header_def header_lengths)
  show "unpack_slice unpack_u32 (pack_header n ty code tx @ rest) 8 12 = Ok tx"
    using u32.unpack_slice_mid [of 8 "?n @ ?t @ ?c" 12 tx rest] by (simp add: pack_header_def header_lengths)
  show "unpack_slice unpack_u32 (pack_header n ty code tx @ rest) 0 4 = Ok (word_of_nat n)"
    using u32.unpack_slice_mid [of 0 "[]" 4 _ "?t @ ?c @ ?x @ rest"] by (simp add: pack_header_def header_lengths)
qed

lemma send_container:
  "virtual_send_bulk (pack_header n ty code tx @ rest) st =
     (if ContainerType_to_code ty = 1 then receive_command code tx (pack_header n ty code tx @ rest) st
      else if ContainerType_to_code ty = 2 then receive_data (pack_header n ty code tx @ rest) st
      else (Err (invalid_data ''unexpected container type: {}'' [unat (ContainerType_to_code ty)]), st))"
  by (simp add: virtual_send_bulk_def header_fields)

lemma read_params_concat:
  "length pre = 12 + i * 4 \<Longrightarrow> read_params (pre @ concat (map pack_u32 ps) @ rest) i (length ps) = Ok ps"
proof (induction ps arbitrary: i pre)
  case (Cons p ps)
  have "unpack_u32 (pack_u32 p @ concat (map pack_u32 ps) @ rest) = Ok p"
    using u32.unpack_append [of "pack_u32 p"] u32.unpack_whole [of p] by (simp add: u32.length_pack)
  with Cons.prems Cons.IH [of "pre @ pack_u32 p" "Suc i"] show ?case
    by (simp add: slice_from_def u32.length_pack)
qed simp

lemma send_command:
  "virtual_send_bulk (command operation tx ps) st =
     (if vd_pending_operation_wedge st then (Err PtpError.DeviceReset, st\<lparr>vd_pending_operation_wedge := False\<rparr>)
      else if expects_data (OperationCode_from (OperationCode_into operation))
      then (Ok (), st\<lparr>vd_pending_command := Some \<lparr>pc_code = OperationCode_into operation, pc_tx_id = tx, pc_params = ps\<rparr>\<rparr>)
      else dispatch (OperationCode_into operation) tx ps None st)"
proof -
  let ?h = "pack_header (12 + length ps * 4) ContainerType.Command (OperationCode_into operation) tx"
  have "read_params (?h @ concat (map pack_u32 ps)) 0 (length ps) = Ok ps"
    using read_params_concat [of ?h 0 ps "[]"] by simp
  then show ?thesis
    by (simp add: command_def CommandContainer_to_bytes_def HEADER_SIZE_def send_container receive_command_def Let_def)
qed

lemma send_data_container:
  "vd_pending_command st = Some pending \<Longrightarrow>
    virtual_send_bulk (DataContainer_to_bytes c) st =
      dispatch (pc_code pending) (pc_tx_id pending) (pc_params pending) (Some (dc_payload c)) (st\<lparr>vd_pending_command := None\<rparr>)"
  by (simp add: DataContainer_to_bytes_def HEADER_SIZE_def send_container receive_data_def slice_from_def Let_def)

section \<open>Containers as the session reads them\<close>

definition response_of :: "u16 \<Rightarrow> u32 \<Rightarrow> u32 list \<Rightarrow> ResponseContainer" where
  "response_of code tx ps = \<lparr>rc_code = ResponseCode_from code, rc_transaction_id = tx, rc_params = ps\<rparr>"

lemma build_response_parsed:
  assumes "length (build_response code tx ps) < 2 ^ 31"
  shows "ResponseContainer_from_bytes (build_response code tx ps) = Ok (response_of code tx ps)"
    "container_type (build_response code tx ps) = Ok ContainerType.Response" "build_response code tx ps \<noteq> []"
proof -
  have wire: "build_response code tx ps = response_wire (response_of code tx ps)"
    by (simp add: build_response_def response_wire_def response_of_def pack_header_def HEADER_SIZE_def)
  have "length ps < 2 ^ 29" using assms by (simp add: build_response_def header_lengths)
  then show "ResponseContainer_from_bytes (build_response code tx ps) = Ok (response_of code tx ps)"
    using ResponseContainer_unpack_wire [of "response_of code tx ps" "[]"] by (simp add: wire) (simp add: response_of_def)
  show "container_type (build_response code tx ps) = Ok ContainerType.Response" "build_response code tx ps \<noteq> []"
    by (simp_all add: wire response_wire_def)
qed

lemma build_data_parsed:
  assumes "length (build_data_container code tx payload) < 2 ^ 32"
  shows "\<exists>c. DataContainer_from_bytes (build_data_container code tx payload) = Ok c \<and> dc_payload c = payload"
    "container_type (build_data_container code tx payload) = Ok ContainerType.Data"
    "whole_container ops (build_data_container code tx payload) t = (Ok (build_data_container code tx payload), t)"
    "build_data_container code tx payload \<noteq> []"
proof -
  let ?c = "\<lparr>dc_code = OperationCode_from code, dc_transaction_id = tx, dc_payload = payload\<rparr>"
  have wire: "build_data_container code tx payload = DataContainer_to_bytes ?c"
    by (simp add: build_data_container_def DataContainer_to_bytes_def pack_header_def HEADER_SIZE_def)
  have len: "12 + length payload < 2 ^ 32" using assms by (simp add: build_data_container_def header_lengths)
  then show "\<exists>c. DataContainer_from_bytes (build_data_container code tx payload) = Ok c \<and> dc_payload c = payload"
    using DataContainer_unpack_pack [of ?c "[]"] by (simp add: wire HEADER_SIZE_def)
  show "container_type (build_data_container code tx payload) = Ok ContainerType.Data" "build_data_container code tx payload \<noteq> []"
    by (simp_all add: wire DataContainer_to_bytes_def Let_def)
  have "unpack_slice unpack_u32 (build_data_container code tx payload) 0 4 = Ok (word_of_nat (12 + length payload))"
    using u32.unpack_slice_mid [of 0 "[]" 4 "word_of_nat (12 + length payload)"] by (simp add: build_data_container_def)
  moreover have "unat (word_of_nat (12 + length payload) :: u32) = 12 + length payload"
    using len by (simp add: unat_of_nat del: of_nat_add)
  ultimately show "whole_container ops (build_data_container code tx payload) t = (Ok (build_data_container code tx payload), t)"
    using complete_container.simps [of ops "12 + length payload"]
    by (simp add: whole_container_def build_data_container_def header_lengths)
qed

section \<open>Operations over the device\<close>

text \<open>A session between two operations, on a device that owes it nothing.\<close>

definition idle_device :: "VirtualDeviceState \<Rightarrow> bool" where
  "idle_device st \<longleftrightarrow> vd_response_queue st = [] \<and> vd_pending_command st = None \<and> \<not> vd_pending_operation_wedge st"

definition idle_session :: "VirtualDeviceState PtpSession \<Rightarrow> bool" where
  "idle_session s \<longleftrightarrow> \<not> operation_lock s \<and> \<not> needs_recovery s \<and> \<not> split_header_data s \<and> idle_device (transport s)"

definition after :: "VirtualDeviceState PtpSession \<Rightarrow> VirtualDeviceState \<Rightarrow> VirtualDeviceState PtpSession" where
  "after s st = s\<lparr>transport := st\<lparr>vd_response_queue := []\<rparr>, transaction_id := TransactionId_next (transaction_id s)\<rparr>"

lemmas session_run = transaction_def transaction_opt_def under_lock_def under_lock_opt_def scoped_def scoped_opt_def
  next_transaction_id_def recover_if_needed_def recovery_take_def on_transport_def Let_def

lemma after_eq:
  assumes "idle_session s"
  shows "after s st = s\<lparr>transport := st\<lparr>vd_response_queue := []\<rparr>, transaction_id := TransactionId_next (transaction_id s),
      operation_lock := False, recovery := (recovery s)\<lparr>needed := False\<rparr>\<rparr>"
  using assms by (cases s) (auto simp: after_def idle_session_def needs_recovery_def)

lemma receive_response_on_device:
  assumes "vd_response_queue (transport s) = [build_response code tx rps]" "length (build_response code tx rps) < 2 ^ 31"
  shows "receive_response virtual_ops tx operation k s =
    (Ok (response_of code tx rps), s\<lparr>transport := (transport s)\<lparr>vd_response_queue := []\<rparr>\<rparr>)"
  using assms build_response_parsed(1) [OF assms(2)]
  by (subst receive_response.simps) (simp add: on_transport_def virtual_receive_bulk_def response_of_def)

lemma execute_on_device:
  assumes "idle_session s" "\<not> expects_data (OperationCode_from (OperationCode_into operation))"
    and "dispatch (OperationCode_into operation) (transaction_id s) ps None (transport s) = (Ok (), st')"
    and "vd_response_queue st' = [build_response code (transaction_id s) rps]"
    and "length (build_response code (transaction_id s) rps) < 2 ^ 31"
  shows "execute virtual_ops operation ps s = (Ok (response_of code (transaction_id s) rps), after s st')"
proof -
  have idle: "\<not> operation_lock s" "\<not> needed (recovery s)" "\<not> vd_pending_operation_wedge (transport s)"
    using assms(1) by (auto simp: idle_session_def needs_recovery_def idle_device_def)
  have recv: "receive_response virtual_ops (transaction_id s) operation 0 s1 =
      (Ok (response_of code (transaction_id s) rps), s1\<lparr>transport := st'\<lparr>vd_response_queue := []\<rparr>\<rparr>)"
    if "transport s1 = st'" for s1
    using receive_response_on_device [of s1, OF _ assms(5)] assms(4) that by simp
  show ?thesis
    unfolding execute_def after_eq [OF assms(1)]
    by (simp add: session_run idle send_command assms(2,3) recv)
qed

lemma execute_with_send_on_device:
  assumes "idle_session s" "expects_data (OperationCode_from (OperationCode_into operation))"
    and "dispatch (OperationCode_into operation) (transaction_id s) ps (Some data) (transport s) = (Ok (), st')"
    and "vd_response_queue st' = [build_response code (transaction_id s) rps]"
    and "length (build_response code (transaction_id s) rps) < 2 ^ 31"
  shows "execute_with_send virtual_ops operation ps data s = (Ok (response_of code (transaction_id s) rps), after s st')"
proof -
  have idle: "\<not> operation_lock s" "\<not> needed (recovery s)" "\<not> split_header_data s" "\<not> vd_pending_operation_wedge (transport s)"
    "(transport s)\<lparr>vd_pending_command := None\<rparr> = transport s"
    using assms(1) by (auto simp: idle_session_def needs_recovery_def idle_device_def)
  have recv: "receive_response virtual_ops (transaction_id s) operation 0 s1 =
      (Ok (response_of code (transaction_id s) rps), s1\<lparr>transport := st'\<lparr>vd_response_queue := []\<rparr>\<rparr>)"
    if "transport s1 = st'" for s1
    using receive_response_on_device [of s1, OF _ assms(5)] assms(4) that by simp
  show ?thesis
    unfolding execute_with_send_def after_eq [OF assms(1)] send_data_def
    by (simp add: session_run idle send_command send_data_container assms(2,3) recv)
qed

lemma receive_loop_response:
  assumes "vd_response_queue (transport s) = [build_response code tx rps]" "length (build_response code tx rps) < 2 ^ 31"
  shows "receive_loop virtual_ops operation tx data k s =
    Some (Ok (response_of code tx rps, data), s\<lparr>transport := (transport s)\<lparr>vd_response_queue := []\<rparr>\<rparr>)"
  using assms build_response_parsed [OF assms(2)]
  by (subst receive_loop.simps) (simp add: on_transport_def virtual_receive_bulk_def response_of_def)

lemma receive_loop_data_response:
  assumes "vd_response_queue (transport s) = [build_data_container op tx payload, build_response code tx rps]"
    "length (build_response code tx rps) < 2 ^ 31" "length (build_data_container op tx payload) < 2 ^ 32"
  shows "receive_loop virtual_ops operation tx [] 0 s =
    Some (Ok (response_of code tx rps, payload), s\<lparr>transport := (transport s)\<lparr>vd_response_queue := []\<rparr>\<rparr>)"
proof -
  obtain c where "DataContainer_from_bytes (build_data_container op tx payload) = Ok c" "dc_payload c = payload"
    using build_data_parsed(1) [OF assms(3)] by blast
  moreover have "receive_loop virtual_ops operation tx payload 0 s1 =
      Some (Ok (response_of code tx rps, payload), s1\<lparr>transport := (transport s1)\<lparr>vd_response_queue := []\<rparr>\<rparr>)"
    if "vd_response_queue (transport s1) = [build_response code tx rps]" for s1
    using that assms(2) by (rule receive_loop_response)
  ultimately show ?thesis using assms(1)
    by (subst receive_loop.simps)
      (simp add: on_transport_def virtual_receive_bulk_def build_data_parsed(2-) [OF assms(3)])
qed

lemma execute_with_receive_on_device:
  assumes "idle_session s" "\<not> expects_data (OperationCode_from (OperationCode_into operation))"
    and "dispatch (OperationCode_into operation) (transaction_id s) ps None (transport s) = (Ok (), st')"
    and "vd_response_queue st' = [build_response code (transaction_id s) rps] \<and> payload = []
       \<or> vd_response_queue st' = [build_data_container op (transaction_id s) payload, build_response code (transaction_id s) rps]"
    and "\<forall>b \<in> set (vd_response_queue st'). length b < 2 ^ 31"
  shows "execute_with_receive virtual_ops operation ps s =
    Some (Ok (response_of code (transaction_id s) rps, payload), after s st')"
proof -
  have idle: "\<not> operation_lock s" "\<not> needed (recovery s)" "\<not> vd_pending_operation_wedge (transport s)"
    using assms(1) by (auto simp: idle_session_def needs_recovery_def idle_device_def)
  have loop: "receive_loop virtual_ops operation (transaction_id s) [] 0 s1 =
      Some (Ok (response_of code (transaction_id s) rps, payload), s1\<lparr>transport := st'\<lparr>vd_response_queue := []\<rparr>\<rparr>)"
    if "transport s1 = st'" for s1
    using assms(4,5) that by (auto intro: receive_loop_response receive_loop_data_response)
  show ?thesis
    unfolding execute_with_receive_def after_eq [OF assms(1)]
    by (simp add: session_run idle send_command assms(2,3) loop)
qed

section \<open>A place for an upload\<close>

definition plain_name :: "rstr \<Rightarrow> bool" where
  "plain_name name \<longleftrightarrow> name \<noteq> [] \<and> name \<noteq> str ''.'' \<and> 47 \<notin> set name \<and> 92 \<notin> set name \<and> \<not> str_contains name (str ''..'')"

text \<open>A directory that exists, and a name that fits into it.\<close>

definition upload_place :: "Host \<Rightarrow> PathBuf \<Rightarrow> rstr list \<Rightarrow> rstr \<Rightarrow> bool" where
  "upload_place h dir b name \<longleftrightarrow> canonicalize h dir = Ok b \<and> dir_at h b
     \<and> \<not> too_long (path_join dir [Normal name]) \<and> length (as_bytes name) \<le> NAME_MAX"

lemma split_on_none: "c \<notin> set s \<Longrightarrow> split_on c s = [s]"
  by (induction s) auto

lemma components_plain:
  assumes "plain_name name"
  shows "components name = [Normal name]"
proof -
  have "str_contains (str ''..'') (str ''..'')" by (simp add: str_def)
  then have "component_of name = Normal name" using assms by (auto simp: plain_name_def component_of_def)
  moreover have "hd name \<noteq> 47" using assms hd_in_set [of name] by (metis plain_name_def)
  moreover have "split_on 47 name = [name]" "name \<noteq> []" using assms by (auto simp: plain_name_def split_on_none)
  ultimately show ?thesis by (simp add: components_def)
qed

lemma upload_place_grows: "upload_place h dir b name \<Longrightarrow> grows h h' \<Longrightarrow> upload_place h' dir b name"
  by (auto simp: upload_place_def intro: canonicalize_grows grows_dir)

lemma join_name: "dir \<noteq> [] \<Longrightarrow> path_join dir [Normal name] = dir @ [Normal name]"
  by (simp add: path_join_def)

lemma upload_place_dir: "upload_place h dir b name \<Longrightarrow> dir \<noteq> []"
  by (auto simp: upload_place_def canonicalize_def)

lemma upload_entry:
  assumes "upload_place h dir b name"
  shows "entry_of h (path_join dir [Normal name]) = Ok (b @ [name])"
  using assms upload_place_dir [OF assms]
  by (auto simp: upload_place_def entry_of_def join_name canonicalize_def split: if_splits)

lemma upload_there:
  "upload_place h dir b name \<Longrightarrow> node_at h (b @ [name]) = Some n \<Longrightarrow>
    canonicalize h (path_join dir [Normal name]) = Ok (b @ [name])"
  by (rule entry_canonical [OF upload_entry])

lemma upload_not_there:
  "upload_place h dir b name \<Longrightarrow> node_at h (b @ [name]) = None \<Longrightarrow> \<not> path_exists h (path_join dir [Normal name])"
  using entry_of_norm [OF upload_entry, of h dir b name] canonicalize_norm [of h "path_join dir [Normal name]"]
  by (auto simp: path_exists_iff is_Ok_iff)

lemma upload_parent:
  assumes "upload_place h dir b name"
  shows "path_parent (path_join dir [Normal name]) = Some dir" "create_dir_all dir h = (Ok (), h)"
proof -
  have dir: "canonicalize h dir = Ok b" "dir_at h b" using assms by (simp_all add: upload_place_def)
  then have "create_dir_all dir h = (Ok (), h)"
    using create_dir_all_one [OF reachable_parentI [OF dir(1)]] by (simp add: fs_mkdir_def path_is_dir_iff)
  then show "create_dir_all dir h = (Ok (), h)" .
  show "path_parent (path_join dir [Normal name]) = Some dir"
    using upload_place_dir [OF assms] by (simp add: join_name path_parent_def)
qed

lemma upload_valid:
  assumes "upload_place h dir b name" "plain_name name"
  shows "validate_path_within h dir (path_join dir [Normal name]) = Some (b @ [name])"
proof (cases "node_at h (b @ [name])")
  case None
  have "file_name (path_join dir [Normal name]) = Some name"
    by (rule file_name_join) (simp add: file_name_def)
  with assms upload_not_there [OF assms(1) None] upload_parent(1) [OF assms(1)] show ?thesis
    by (simp add: validate_path_within_def upload_place_def path_exists_iff plain_name_def)
next
  case (Some n)
  with assms upload_there [OF assms(1) Some] show ?thesis
    by (simp add: validate_path_within_def upload_place_def path_exists_iff)
qed

text \<open>Writing and stamping the file.\<close>

definition holds :: "Host \<Rightarrow> rstr list \<Rightarrow> bytes \<Rightarrow> bool" where
  "holds h q data \<longleftrightarrow> (\<exists>c m. node_at h q = Some (FileNode c m data))"

lemma node_at_write:
  "node_at (set_node (b @ [name]) (FileNode c m data) h) (b @ [name]) = Some (FileNode c m data)"
  "node_at (add_entry (b @ [name]) (FileNode c m data) h) (b @ [name]) = Some (FileNode c m data)"
  by (auto simp: node_at_set_node add_entry_def intro!: node_at_touch)

lemma fs_write_place:
  assumes "upload_place h dir b name" "node_at h (b @ [name]) = None \<or> holds h (b @ [name]) old"
  obtains h' where "fs_write (path_join dir [Normal name]) data h = (Ok (), h')" "holds h' (b @ [name]) data" "grows h h'"
proof -
  from assms(2) obtain h' where w: "fs_write (path_join dir [Normal name]) data h = (Ok (), h')" "holds h' (b @ [name]) data"
    by (auto simp: fs_write_def upload_entry [OF assms(1)] holds_def node_at_write)
  with fs_write_changes [OF w(1)] that show thesis by blast
qed

lemma fs_set_modified_place:
  assumes "upload_place h dir b name" "holds h (b @ [name]) data"
  obtains h' where "fs_set_modified (path_join dir [Normal name]) time h = (Ok (), h')" "holds h' (b @ [name]) data" "grows h h'"
proof -
  obtain c m where n: "node_at h (b @ [name]) = Some (FileNode c m data)" using assms(2) by (auto simp: holds_def)
  obtain h' where w: "fs_set_modified (path_join dir [Normal name]) time h = (Ok (), h')" "holds h' (b @ [name]) data"
    using n upload_there [OF assms(1) n] by (auto simp: fs_set_modified_def holds_def node_at_write)
  with fs_set_modified_changes [OF w(1)] that show thesis by blast
qed

lemma fs_read_place:
  "upload_place h dir b name \<Longrightarrow> holds h (b @ [name]) data \<Longrightarrow> fs_read h (path_join dir [Normal name]) = Ok data"
  using upload_there by (fastforce simp: fs_read_def metadata_def holds_def)

section \<open>The device during an upload\<close>

text \<open>A place on the device, and its upload after the object information: an empty file, awaiting its data.\<close>

definition device_place :: "VirtualDeviceState \<Rightarrow> StorageId \<Rightarrow> rstr list \<Rightarrow> rstr \<Rightarrow> bool" where
  "device_place st sid b name \<longleftrightarrow> vd_session_open st \<and> plain_name name \<and> \<not> is_read_only st sid
     \<and> (\<exists>s. find_storage st sid = Some s \<and> upload_place (vd_host st) (backing_dir s) b name)"

definition uploaded :: "VirtualDeviceState \<Rightarrow> StorageId \<Rightarrow> rstr list \<Rightarrow> rstr \<Rightarrow> u32 \<Rightarrow> bytes \<Rightarrow> bool" where
  "uploaded st sid b name handle data \<longleftrightarrow> device_place st sid b name \<and> holds (vd_host st) (b @ [name]) data
     \<and> object_at st handle = Some (entry_object sid ROOT [Normal name])"

definition awaits_data :: "VirtualDeviceState \<Rightarrow> StorageId \<Rightarrow> rstr \<Rightarrow> u32 \<Rightarrow> bool" where
  "awaits_data st sid name handle \<longleftrightarrow>
     (\<exists>p. vd_pending_send st = Some p \<and> ps_storage_id p = sid \<and> ps_parent p = ROOT \<and> ps_filename p = name
        \<and> ps_assigned_handle p = handle \<and> \<not> ps_is_folder p)"

lemma canonical_codes:
  "OperationCode_from (OperationCode_into OperationCode.SendObjectInfo) = OperationCode.SendObjectInfo"
  "OperationCode_from (OperationCode_into OperationCode.SendObject) = OperationCode.SendObject"
  "OperationCode_from (OperationCode_into OperationCode.GetObject) = OperationCode.GetObject"
  "ResponseCode_from OK_CODE = ResponseCode.OK"
  using responseCode.dec_code [of OK_CODE ResponseCode.OK] operationCode.dec_code [of "0x100C" OperationCode.SendObjectInfo]
    operationCode.dec_code [of "0x100D" OperationCode.SendObject] operationCode.dec_code [of "0x1009" OperationCode.GetObject]
  by (simp_all add: OperationCode_codes_def ResponseCode_codes_def)

lemma dispatch_codes:
  assumes "vd_session_open st"
  shows "dispatch (OperationCode_into OperationCode.SendObjectInfo) tx ps d st =
      handle_send_object_info tx ps d (count_operation (OperationCode_into OperationCode.SendObjectInfo) st)"
    "dispatch (OperationCode_into OperationCode.SendObject) tx ps d st =
      handle_send_object tx d (count_operation (OperationCode_into OperationCode.SendObject) st)"
    "dispatch (OperationCode_into OperationCode.GetObject) tx ps d st =
      handle_get_object (OperationCode_into OperationCode.GetObject) tx ps (count_operation (OperationCode_into OperationCode.GetObject) st)"
proof -
  have "vd_session_open (count_operation code st)" for code using assms by (simp add: count_operation_def)
  then show "dispatch (OperationCode_into OperationCode.SendObjectInfo) tx ps d st =
      handle_send_object_info tx ps d (count_operation (OperationCode_into OperationCode.SendObjectInfo) st)"
    "dispatch (OperationCode_into OperationCode.SendObject) tx ps d st =
      handle_send_object tx d (count_operation (OperationCode_into OperationCode.SendObject) st)"
    "dispatch (OperationCode_into OperationCode.GetObject) tx ps d st =
      handle_get_object (OperationCode_into OperationCode.GetObject) tx ps (count_operation (OperationCode_into OperationCode.GetObject) st)"
    unfolding dispatch_def Let_def canonical_codes by simp_all
qed

lemma count_operation_fields [simp]:
  "vd_host (count_operation code st) = vd_host st" "vd_storages (count_operation code st) = vd_storages st"
  "vd_session_open (count_operation code st) = vd_session_open st" "vd_config (count_operation code st) = vd_config st"
  "vd_response_queue (count_operation code st) = vd_response_queue st" "vd_objects (count_operation code st) = vd_objects st"
  "vd_pending_send (count_operation code st) = vd_pending_send st" "vd_next_handle (count_operation code st) = vd_next_handle st"
  "vd_pending_command (count_operation code st) = vd_pending_command st"
  "vd_pending_operation_wedge (count_operation code st) = vd_pending_operation_wedge st"
  "vd_forced_partial_read_caps (count_operation code st) = vd_forced_partial_read_caps st"
  by (simp_all add: count_operation_def)

lemma lookup_frame [simp]:
  "find_storage (count_operation code st) = find_storage st" "is_read_only (count_operation code st) = is_read_only st"
  "object_at (count_operation code st) = object_at st" "find_storage (st\<lparr>vd_host := h\<rparr>) = find_storage st"
  "find_storage (st\<lparr>vd_next_handle := n\<rparr>) = find_storage st" "find_storage (st\<lparr>vd_pending_send := p\<rparr>) = find_storage st"
  "object_at (st\<lparr>vd_host := h\<rparr>) = object_at st" "object_at (st\<lparr>vd_pending_send := p\<rparr>) = object_at st"
  by (auto simp: object_at_def fun_eq_iff find_storage_def is_read_only_def)

lemma object_at_insert [simp]: "object_at (insert_object handle obj st) h = (if h = handle then Some obj else object_at st h)"
  by (simp add: object_at_def insert_object_def update_conv)

lemma device_place_grows:
  assumes "device_place st sid b name" "grows (vd_host st) (vd_host st')" "vd_storages st' = vd_storages st" "vd_session_open st'"
  shows "device_place st' sid b name"
  using assms same_storages [OF assms(3)] by (auto simp: device_place_def intro: upload_place_grows)

lemma SEND_ROOT_ROOT: "param [sid, SEND_ROOT] 0 = sid" "param [sid, SEND_ROOT] 1 = SEND_ROOT"
  by (simp_all add: param_def)

lemma upload_info_on_device:
  assumes place: "device_place st sid b name" and new: "node_at (vd_host st) (b @ [name]) = None"
    and info: "ObjectInfo_from_bytes data = Ok info" "oi_filename info = name" "oi_format info \<noteq> ObjectFormatCode.Association"
  obtains st' where
    "dispatch (OperationCode_into OperationCode.SendObjectInfo) tx [sid, SEND_ROOT] (Some data) st = (Ok (), st')"
    "vd_response_queue st' = vd_response_queue st @ [build_response OK_CODE tx [sid, ROOT, vd_next_handle st]]"
    "uploaded st' sid b name (vd_next_handle st) []" "awaits_data st' sid name (vd_next_handle st)"
    "vd_pending_command st' = vd_pending_command st" "vd_pending_operation_wedge st' = vd_pending_operation_wedge st"
    "vd_config st' = vd_config st" "vd_forced_partial_read_caps st' = vd_forced_partial_read_caps st"
proof -
  obtain s where s: "find_storage st sid = Some s" "upload_place (vd_host st) (backing_dir s) b name"
    "vd_session_open st" "plain_name name" "\<not> is_read_only st sid"
    using place by (auto simp: device_place_def)
  let ?full = "path_join (backing_dir s) [Normal name]"
  obtain h' where w: "fs_write ?full [] (vd_host st) = (Ok (), h')" "holds h' (b @ [name]) []" "grows (vd_host st) h'"
    using fs_write_place [OF s(2) disjI1 [OF new]] by blast
  have disk: "create_on_disk False ?full (vd_host st) = (Ok (), h')"
    by (simp add: create_on_disk_def upload_parent [OF s(2)] w(1))
  define st1 where "st1 = count_operation (OperationCode_into OperationCode.SendObjectInfo) st"
  have st1: "find_storage st1 sid = Some s" "\<not> is_read_only st1 sid" "vd_host st1 = vd_host st" "vd_next_handle st1 = vd_next_handle st"
    using s by (simp_all add: st1_def)
  have rel: "path_join [] (components name) = [Normal name]" by (simp add: components_plain [OF s(4)] path_join_def)
  have run: "dispatch (OperationCode_into OperationCode.SendObjectInfo) tx [sid, SEND_ROOT] (Some data) st
      = create_object tx sid ROOT info st1"
    unfolding dispatch_codes(1) [OF s(3)] st1_def [symmetric] handle_send_object_info_def SEND_ROOT_ROOT Let_def
    by (simp add: st1 info(1) parent_is_directory_def)
  note valid = upload_valid [OF s(2,4)]
  let ?handle = "vd_next_handle st"
  obtain p where p: "ps_storage_id p = sid" "ps_parent p = ROOT" "ps_filename p = name" "ps_assigned_handle p = ?handle"
      "\<not> ps_is_folder p" and create: "create_object tx sid ROOT info st1 = respond OK_CODE tx [sid, ROOT, ?handle]
        (created_events ?handle sid (insert_object ?handle (entry_object sid ROOT [Normal name])
          (st1\<lparr>vd_next_handle := ?handle + 1, vd_pending_send := Some p, vd_host := h'\<rparr>)))"
  proof (rule that)
    let ?p = "\<lparr>ps_storage_id = sid, ps_parent = ROOT, ps_filename = name, ps_size = oi_size info, ps_is_folder = False,
      ps_assigned_handle = ?handle, ps_modified = map_option system_time_from_unix (Option.bind (oi_modified info)
        (\<lambda>dt. to_unix_seconds_with_fallback dt (vc_utc_offset (vd_config st1))))\<rparr>"
    show "create_object tx sid ROOT info st1 = respond OK_CODE tx [sid, ROOT, ?handle]
        (created_events ?handle sid (insert_object ?handle (entry_object sid ROOT [Normal name])
          (st1\<lparr>vd_next_handle := ?handle + 1, vd_pending_send := Some ?p, vd_host := h'\<rparr>)))"
      by (simp add: valid create_object_def Let_def alloc_handle_def unwrap_def info st1 rel on_host_def disk entry_object_def)
  qed simp_all
  define st2 where "st2 = created_events ?handle sid (insert_object ?handle (entry_object sid ROOT [Normal name])
          (st1\<lparr>vd_next_handle := ?handle + 1, vd_pending_send := Some p, vd_host := h'\<rparr>))"
  have st2: "vd_response_queue st2 = vd_response_queue st" "vd_host st2 = h'" "vd_storages st2 = vd_storages st" "vd_session_open st2"
    "vd_pending_send st2 = Some p" "object_at st2 ?handle = Some (entry_object sid ROOT [Normal name])"
    "vd_pending_command st2 = vd_pending_command st" "vd_pending_operation_wedge st2 = vd_pending_operation_wedge st"
    "vd_config st2 = vd_config st" "vd_forced_partial_read_caps st2 = vd_forced_partial_read_caps st"
    using s(3) by (simp_all add: st2_def st1_def created_events_def push_event_def insert_object_def object_at_def update_conv)
  let ?st' = "push_response (build_response OK_CODE tx [sid, ROOT, ?handle]) st2"
  show thesis
  proof (rule that [of ?st'])
    show "dispatch (OperationCode_into OperationCode.SendObjectInfo) tx [sid, SEND_ROOT] (Some data) st = (Ok (), ?st')"
      unfolding run create st2_def respond_def ..
    have "device_place ?st' sid b name"
      using place w(3) st2 by (auto intro: device_place_grows simp: push_response_def)
    then show "uploaded ?st' sid b name ?handle []"
      using st2 w(2) by (simp add: uploaded_def push_response_def object_at_def)
  qed (use st2 p in \<open>simp_all add: push_response_def awaits_data_def\<close>)
qed

lemma upload_data_on_device:
  assumes up: "uploaded st sid b name handle old" and pending: "awaits_data st sid name handle"
  obtains st' where
    "dispatch (OperationCode_into OperationCode.SendObject) tx [] (Some data) st = (Ok (), st')"
    "vd_response_queue st' = vd_response_queue st @ [build_response OK_CODE tx []]"
    "uploaded st' sid b name handle data"
    "vd_pending_command st' = vd_pending_command st" "vd_pending_operation_wedge st' = vd_pending_operation_wedge st"
    "vd_config st' = vd_config st" "vd_forced_partial_read_caps st' = vd_forced_partial_read_caps st"
proof -
  obtain s where s: "find_storage st sid = Some s" "upload_place (vd_host st) (backing_dir s) b name"
    "vd_session_open st" "plain_name name" and place: "device_place st sid b name"
    using up by (auto simp: device_place_def uploaded_def)
  obtain p where p: "vd_pending_send st = Some p" "ps_storage_id p = sid" "ps_parent p = ROOT" "ps_filename p = name"
    "ps_assigned_handle p = handle" "\<not> ps_is_folder p"
    using pending by (auto simp: awaits_data_def)
  let ?full = "path_join (backing_dir s) [Normal name]"
  obtain h1 where w: "fs_write ?full data (vd_host st) = (Ok (), h1)" "holds h1 (b @ [name]) data" "grows (vd_host st) h1"
    using fs_write_place [OF s(2)] up by (metis uploaded_def)
  define h2 where "h2 = (case ps_modified p of None \<Rightarrow> h1 | Some time \<Rightarrow> snd (fs_set_modified ?full time h1))"
  have stamp: "holds (snd (fs_set_modified ?full time h1)) (b @ [name]) data \<and> grows h1 (snd (fs_set_modified ?full time h1))" for time
    by (rule fs_set_modified_place [OF upload_place_grows [OF s(2) w(3)] w(2), of time]) simp
  then have h2: "holds h2 (b @ [name]) data" "grows h1 h2"
    using w(2) by (simp_all add: h2_def split: option.split)
  define st1 where "st1 = (count_operation (OperationCode_into OperationCode.SendObject) st)\<lparr>vd_pending_send := None\<rparr>"
  have rel: "path_join [] (components name) = [Normal name]" by (simp add: components_plain [OF s(4)] path_join_def)
  have run: "dispatch (OperationCode_into OperationCode.SendObject) tx [] (Some data) st =
      store_object tx p data [Normal name] ?full st1"
    unfolding dispatch_codes(2) [OF s(3)] handle_send_object_def
    by (simp add: p s(1) rel upload_valid [OF s(2,4)] st1_def Let_def)
  define st2 where "st2 = push_event (build_event EventCode.StorageInfoChanged [sid]) (push_event (build_event EventCode.ObjectInfoChanged [handle])
    (insert_object handle (entry_object sid ROOT [Normal name]) (st1\<lparr>vd_host := h2\<rparr>)))"
  have "vd_host st1 = vd_host st" by (simp add: st1_def)
  then have store: "store_object tx p data [Normal name] ?full st1 = respond OK_CODE tx [] st2"
    by (cases "ps_modified p")
      (simp_all add: store_object_def on_host_def upload_parent [OF s(2)] w(1) st2_def h2_def p entry_object_def Let_def split: prod.split)
  have st2: "vd_response_queue st2 = vd_response_queue st" "vd_host st2 = h2" "vd_storages st2 = vd_storages st" "vd_session_open st2"
    "object_at st2 handle = Some (entry_object sid ROOT [Normal name])"
    "vd_pending_command st2 = vd_pending_command st" "vd_pending_operation_wedge st2 = vd_pending_operation_wedge st"
    "vd_config st2 = vd_config st" "vd_forced_partial_read_caps st2 = vd_forced_partial_read_caps st"
    using s(3) by (simp_all add: st2_def st1_def push_event_def insert_object_def object_at_def update_conv)
  let ?st' = "push_response (build_response OK_CODE tx []) st2"
  show thesis
  proof (rule that [of ?st'])
    show "dispatch (OperationCode_into OperationCode.SendObject) tx [] (Some data) st = (Ok (), ?st')"
      unfolding run store respond_def ..
    have "device_place ?st' sid b name"
      using place st2 grows_trans [OF w(3) h2(2)] by (auto intro: device_place_grows simp: push_response_def)
    then show "uploaded ?st' sid b name handle data"
      using st2 h2(1) by (simp add: uploaded_def push_response_def object_at_def)
  qed (use st2 in \<open>simp_all add: push_response_def\<close>)
qed

lemma download_on_device:
  assumes "uploaded st sid b name handle data"
  obtains st' where
    "dispatch (OperationCode_into OperationCode.GetObject) tx [handle] None st = (Ok (), st')"
    "vd_response_queue st' = vd_response_queue st
       @ [build_data_container (OperationCode_into OperationCode.GetObject) tx data, build_response OK_CODE tx []]"
proof -
  obtain s where s: "find_storage st sid = Some s" "upload_place (vd_host st) (backing_dir s) b name" "vd_session_open st"
    using assms by (auto simp: uploaded_def device_place_def)
  have "object_at st handle = Some (entry_object sid ROOT [Normal name])" using assms by (simp add: uploaded_def)
  then have "resolve_path st handle = Some (path_join (backing_dir s) [Normal name])"
    using s(1) by (simp add: resolve_path_def entry_object_def)
  moreover have "fs_read (vd_host st) (path_join (backing_dir s) [Normal name]) = Ok data"
    using fs_read_place [OF s(2)] assms by (simp add: uploaded_def)
  ultimately show thesis
    using that unfolding dispatch_codes(3) [OF s(3)]
    by (simp add: handle_get_object_def param_def resolve_path_def send_payload_def respond_def push_response_def)
qed

end
