(* ===== verification/Virtual_Transfers.thy ===== *)
theory Virtual_Transfers
  imports Virtual_Session
begin

text \<open>
  What a client sees of a virtual device: uploads come back, ranges are the ranges of the file, deleted objects are gone. The
  last theorem shows what the device does with a folder that has no name.
\<close>

section \<open>Upload and download over a session\<close>

lemma after_fields [simp]:
  "transport (after s st) = st\<lparr>vd_response_queue := []\<rparr>" "operation_lock (after s st) = operation_lock s"
  "needs_recovery (after s st) = needs_recovery s" "split_header_data (after s st) = split_header_data s"
  by (simp_all add: after_def needs_recovery_def)

lemma after_idle:
  assumes "idle_session s" "vd_pending_command st = None" "\<not> vd_pending_operation_wedge st"
  shows "idle_session (after s st)"
  using assms by (simp add: idle_session_def idle_device_def needs_recovery_def after_def)

lemma uploaded_queue [simp]: "uploaded (st\<lparr>vd_response_queue := q\<rparr>) = uploaded st"
  by (auto simp: fun_eq_iff uploaded_def device_place_def object_at_def find_storage_def is_read_only_def)

lemma awaits_data_queue [simp]: "awaits_data (st\<lparr>vd_response_queue := q\<rparr>) = awaits_data st"
  by (auto simp: fun_eq_iff awaits_data_def)

lemma check_ok: "check_response (response_of OK_CODE tx ps) op = Ok ()"
  by (simp add: check_response_def response_of_def canonical_codes)

lemma expects_codes:
  "expects_data OperationCode.SendObjectInfo" "expects_data OperationCode.SendObject" "\<not> expects_data OperationCode.GetObject"
  by (simp_all add: expects_data_def)

lemma length_build_response: "length (build_response code tx ps) = 12 + 4 * length ps"
  by (simp add: build_response_def header_lengths)

text \<open>
  C6: What a client uploads is what it downloads. Over a session on a virtual device with a writable storage whose
  directory exists, sending an object's information and then its data returns a handle in the storage's root, and getting that
  handle returns the data, byte for byte, for every plain file name that is not taken and every content below two gigabytes.
\<close>

theorem upload_then_download:
  assumes "idle_session s" "device_place (transport s) sid b name" "node_at (vd_host (transport s)) (b @ [name]) = None"
    and "info_ok info" "ObjectInfo_to_bytes info = Ok wire" "oi_filename info = name"
    and "oi_format info \<noteq> ObjectFormatCode.Association" "length data < 2 ^ 31 - 12"
  shows "\<exists>handle s1 s2 s3.
    send_object_info virtual_ops sid SEND_ROOT info s = (Ok (sid, ROOT, handle), s1)
    \<and> send_object virtual_ops data s1 = (Ok (), s2)
    \<and> get_object virtual_ops handle s2 = Some (Ok data, s3)"
proof -
  let ?handle = "vd_next_handle (transport s)"
  have queue: "vd_response_queue (transport s) = []" using assms(1) by (simp add: idle_session_def idle_device_def)
  have parsed: "ObjectInfo_from_bytes wire = Ok (info\<lparr>oi_handle := 0, oi_size := ucast (size_u32 (oi_size info))\<rparr>)"
    using ObjectInfo_unpack_pack [OF assms(4,5), of "[]"] by simp
  from upload_info_on_device [OF assms(2,3) parsed, of "transaction_id s"] assms(6,7) obtain st1 where
    d1: "dispatch (OperationCode_into OperationCode.SendObjectInfo) (transaction_id s) [sid, SEND_ROOT] (Some wire) (transport s) = (Ok (), st1)"
    and st1: "vd_response_queue st1 = [build_response OK_CODE (transaction_id s) [sid, ROOT, ?handle]]"
      "uploaded st1 sid b name ?handle []" "awaits_data st1 sid name ?handle"
      "vd_pending_command st1 = vd_pending_command (transport s)"
      "vd_pending_operation_wedge st1 = vd_pending_operation_wedge (transport s)"
    using queue by auto
  define s1 where "s1 = after s st1"
  have s1: "idle_session s1" using assms(1) st1(4,5) by (auto simp: s1_def intro: after_idle simp: idle_session_def idle_device_def)
  have "execute_with_send virtual_ops OperationCode.SendObjectInfo [sid, SEND_ROOT] wire s
      = (Ok (response_of OK_CODE (transaction_id s) [sid, ROOT, ?handle]), s1)"
    unfolding s1_def
    by (rule execute_with_send_on_device [OF assms(1) _ d1 st1(1)]) (simp_all only: canonical_codes expects_codes length_build_response, simp)
  then have 1: "send_object_info virtual_ops sid SEND_ROOT info s = (Ok (sid, ROOT, ?handle), s1)"
    by (simp add: send_object_info_def assms(5) checked_def check_ok) (simp add: response_of_def index_def)
  from upload_data_on_device [of "transport s1" sid b name ?handle "[]" "transaction_id s1" data] st1 obtain st2 where
    d2: "dispatch (OperationCode_into OperationCode.SendObject) (transaction_id s1) [] (Some data) (transport s1) = (Ok (), st2)"
    and st2: "vd_response_queue st2 = [build_response OK_CODE (transaction_id s1) []]"
      "uploaded st2 sid b name ?handle data"
      "vd_pending_command st2 = vd_pending_command (transport s1)"
      "vd_pending_operation_wedge st2 = vd_pending_operation_wedge (transport s1)"
    by (auto simp: s1_def)
  define s2 where "s2 = after s1 st2"
  have s2: "idle_session s2" using s1 st2(3,4) by (auto simp: s2_def intro: after_idle simp: idle_session_def idle_device_def)
  have "execute_with_send virtual_ops OperationCode.SendObject [] data s1 = (Ok (response_of OK_CODE (transaction_id s1) []), s2)"
    unfolding s2_def
    by (rule execute_with_send_on_device [OF s1 _ d2 st2(1)]) (simp_all only: canonical_codes expects_codes length_build_response, simp)
  then have 2: "send_object virtual_ops data s1 = (Ok (), s2)"
    by (simp add: send_object_def checked_def check_ok)
  from download_on_device [of "transport s2" sid b name ?handle data "transaction_id s2"] st2 obtain st3 where
    d3: "dispatch (OperationCode_into OperationCode.GetObject) (transaction_id s2) [?handle] None (transport s2) = (Ok (), st3)"
    and st3: "vd_response_queue st3 = [build_data_container (OperationCode_into OperationCode.GetObject) (transaction_id s2) data,
      build_response OK_CODE (transaction_id s2) []]"
    by (auto simp: s2_def)
  have small: "\<forall>b \<in> set (vd_response_queue st3). length b < 2 ^ 31"
    using assms(8) by (simp add: st3 length_build_response build_data_container_def header_lengths)
  have "execute_with_receive virtual_ops OperationCode.GetObject [?handle] s2
      = Some (Ok (response_of OK_CODE (transaction_id s2) [], data), after s2 st3)"
    by (rule execute_with_receive_on_device [OF s2 _ d3 disjI2 [OF st3] small]) (simp only: canonical_codes expects_codes simp_thms)
  then have "get_object virtual_ops ?handle s2 = Some (Ok data, after s2 st3)"
    by (simp add: get_object_def receive_checked_def then_opt_def check_ok)
  with 1 2 show ?thesis by blast
qed

definition demo_session :: "VirtualDeviceState PtpSession" where
  "demo_session = PtpSession_new (demo_device\<lparr>vd_session_open := True\<rparr>) 1"

definition demo_info :: ObjectInfo where
  "demo_info = ObjectInfo_default\<lparr>oi_filename := str ''a.txt''\<rparr>"

lemma demo_idle: "idle_session demo_session"
  by (simp add: idle_session_def idle_device_def demo_session_def PtpSession_new_def demo_device_def VirtualDeviceState_new_def
      needs_recovery_def recovery_default_def)

lemma demo_canonical: "canonicalize demo_host (canonical_path [str ''srv'', str ''sdcard'']) = Ok [str ''srv'', str ''sdcard'']"
  by code_simp

lemma demo_place: "device_place (transport demo_session) 0x00010001 [str ''srv'', str ''sdcard''] (str ''a.txt'')"
proof -
  have new: "canonicalize demo_host (vs_backing_dir demo_storage) = Ok [str ''srv'', str ''sdcard'']" by code_simp
  have "upload_place demo_host (canonical_path [str ''srv'', str ''sdcard'']) [str ''srv'', str ''sdcard''] (str ''a.txt'')"
    unfolding upload_place_def by code_simp
  moreover have "plain_name (str ''a.txt'')" unfolding plain_name_def by code_simp
  ultimately show ?thesis
    by (simp add: device_place_def demo_session_def PtpSession_new_def demo_device_def VirtualDeviceState_new_def resolve_storage_def
        new find_storage_def is_read_only_def backing_dir_def) (simp add: demo_storage_def)
qed

lemma demo_info_ok: "info_ok demo_info" "\<exists>wire. ObjectInfo_to_bytes demo_info = Ok wire"
proof -
  have "ObjectFormatCode_from (ObjectFormatCode_into ObjectFormatCode.Undefined) = ObjectFormatCode.Undefined"
    by (rule objectFormatCode.dec_enc [THEN iffD2]) (simp add: ObjectFormatCode_codes_def)
  moreover have "ProtectionStatus_from (ProtectionStatus_into ProtectionStatus.NoProtection) = ProtectionStatus.NoProtection"
    by (rule protectionStatus.dec_enc [THEN iffD2]) (simp add: ProtectionStatus_codes_def)
  moreover have "AssociationType_from (AssociationType_into AssociationType.NoAssociation) = AssociationType.NoAssociation"
    by (rule associationType.dec_enc [THEN iffD2]) (simp add: AssociationType_codes_def)
  moreover have "valid_str (str ''a.txt'') \<and> 0 \<notin> set (str ''a.txt'')"
    by (simp add: str_def of_char_def valid_str_def is_scalar_def)
  ultimately show "info_ok demo_info"
    unfolding info_ok_def demo_info_def ObjectInfo_default_def
    by (simp only: ObjectInfo.select_convs ObjectInfo.update_convs) (simp add: valid_str_def date_ok_def)
  have "\<exists>fn. pack_string (str ''a.txt'') = Ok fn"
    by (simp add: pack_string_def str_def encode_utf16_def encode_utf16_char_def MAX_STRING_UNITS_def Let_def)
  then show "\<exists>wire. ObjectInfo_to_bytes demo_info = Ok wire"
    by (auto simp: ObjectInfo_to_bytes_def demo_info_def ObjectInfo_default_def pack_date_field_def pack_string_def [of "[]"] Let_def)
qed

theorem upload_then_download_witness:
  "\<exists>handle s1 s2 s3.
    send_object_info virtual_ops 0x00010001 SEND_ROOT demo_info demo_session = (Ok (0x00010001, ROOT, handle), s1)
    \<and> send_object virtual_ops [72, 105] s1 = (Ok (), s2)
    \<and> get_object virtual_ops handle s2 = Some (Ok [72, 105], s3)"
proof -
  obtain wire where "ObjectInfo_to_bytes demo_info = Ok wire" using demo_info_ok(2) by blast
  moreover have "node_at demo_host [str ''srv'', str ''sdcard'', str ''a.txt''] = None" by code_simp
  ultimately show ?thesis
    using upload_then_download [OF demo_idle demo_place, of demo_info wire "[72, 105]"] demo_info_ok(1)
    by (simp add: demo_info_def ObjectInfo_default_def demo_session_def PtpSession_new_def demo_device_def VirtualDeviceState_new_def)
qed

section \<open>Ranged reads\<close>

lemma canonical_partial:
  "OperationCode_from (OperationCode_into OperationCode.GetPartialObject64) = OperationCode.GetPartialObject64"
  using operationCode.dec_code [of "0x95C1" OperationCode.GetPartialObject64] by (simp add: OperationCode_codes_def)

text \<open>The two halves a session splits an offset into are put together again by the device.\<close>

lemma offset_rejoined:
  "offset_params offset = (lo, hi) \<Longrightarrow> or (push_bit 32 (ucast hi)) (ucast lo) = offset"
  by (rule bit_word_eqI) (auto simp: offset_params_def Let_def bit_simps not_less)

lemma dispatch_partial:
  assumes "vd_session_open st" "vc_supports_partial_object_64 (vd_config st)"
  shows "dispatch (OperationCode_into OperationCode.GetPartialObject64) tx ps d st =
    handle_get_partial_object_64 (OperationCode_into OperationCode.GetPartialObject64) tx ps
      (count_operation (OperationCode_into OperationCode.GetPartialObject64) st)"
  using assms unfolding dispatch_def Let_def canonical_partial by simp

lemma read_partial_file:
  assumes "resolve_path st handle = Some p" "fs_read (vd_host st) p = Ok data" "vd_forced_partial_read_caps st = []"
    "unat offset < 2 ^ 63"
  shows "read_partial op tx handle offset n st = (Ok (), push_response (build_response OK_CODE tx [])
    (push_response (build_data_container op tx (take n (drop (unat offset) data))) st))"
  using assms by (simp add: read_partial_def send_payload_def respond_def)

text \<open>
  A ranged read returns its range. For every offset of a file on a virtual device, the bytes from the offset on come back, as many as asked for and
  as the file has, although the offset travels in two halves that the session splits and the device joins; windows read
  one after the other tile the file.
\<close>

theorem ranged_read:
  assumes "idle_session s" "uploaded (transport s) sid b name handle data"
    and "vd_forced_partial_read_caps (transport s) = []" "vc_supports_partial_object_64 (vd_config (transport s))"
    and "unat offset < 2 ^ 63" "length data < 2 ^ 31 - 12"
  shows "\<exists>s'. get_partial_object_64 virtual_ops handle offset max_bytes s =
    Some (Ok (take (unat max_bytes) (drop (unat offset) data)), s')"
proof -
  let ?st = "transport s" and ?op = "OperationCode_into OperationCode.GetPartialObject64"
  let ?window = "take (unat max_bytes) (drop (unat offset) data)"
  obtain lo hi where off: "offset_params offset = (lo, hi)" by force
  obtain v where v: "find_storage ?st sid = Some v" "upload_place (vd_host ?st) (backing_dir v) b name" "vd_session_open ?st"
    using assms(2) by (auto simp: uploaded_def device_place_def)
  have "object_at ?st handle = Some (entry_object sid ROOT [Normal name])" using assms(2) by (simp add: uploaded_def)
  then have p: "resolve_path (count_operation ?op ?st) handle = Some (path_join (backing_dir v) [Normal name])"
    using v(1) by (simp add: resolve_path_def entry_object_def)
  have read: "fs_read (vd_host ?st) (path_join (backing_dir v) [Normal name]) = Ok data"
    using fs_read_place [OF v(2)] assms(2) by (simp add: uploaded_def)
  have caps: "vd_forced_partial_read_caps (count_operation ?op ?st) = []" using assms(3) by (simp add: count_operation_def)
  have pars: "param [handle, lo, hi, max_bytes] 0 = handle" "param [handle, lo, hi, max_bytes] 1 = lo"
    "param [handle, lo, hi, max_bytes] 2 = hi" "param [handle, lo, hi, max_bytes] 3 = max_bytes"
    by (simp_all add: param_def)
  define st' where "st' = push_response (build_response OK_CODE (transaction_id s) [])
    (push_response (build_data_container ?op (transaction_id s) ?window) (count_operation ?op ?st))"
  have d: "dispatch ?op (transaction_id s) [handle, lo, hi, max_bytes] None ?st = (Ok (), st')"
    unfolding dispatch_partial [OF v(3) assms(4)] handle_get_partial_object_64_def Let_def pars offset_rejoined [OF off] st'_def
    by (rule read_partial_file [OF p _ caps assms(5)]) (simp only: count_operation_fields read)
  have q: "vd_response_queue st' = [build_data_container ?op (transaction_id s) ?window, build_response OK_CODE (transaction_id s) []]"
    using assms(1) by (simp add: st'_def push_response_def idle_session_def idle_device_def)
  have small: "\<forall>b \<in> set (vd_response_queue st'). length b < 2 ^ 31"
    using assms(6) by (simp add: q length_build_response build_data_container_def header_lengths)
  have "\<not> expects_data OperationCode.GetPartialObject64" by (simp add: expects_data_def)
  then have "execute_with_receive virtual_ops OperationCode.GetPartialObject64 [handle, lo, hi, max_bytes] s
      = Some (Ok (response_of OK_CODE (transaction_id s) [], ?window), after s st')"
    by (intro execute_with_receive_on_device [OF assms(1) _ d disjI2 [OF q] small]) (simp only: canonical_partial simp_thms)
  then show ?thesis by (simp add: get_partial_object_64_def off receive_checked_def then_opt_def check_ok)
qed

definition demo_file_session :: "VirtualDeviceState PtpSession" where
  "demo_file_session = PtpSession_new (insert_object 1 (entry_object 0x00010001 ROOT [Normal (str ''b.txt'')])
     (demo_device\<lparr>vd_session_open := True\<rparr>)) 1"

theorem ranged_read_witness:
  "\<exists>s'. get_partial_object_64 virtual_ops 1 3 100 demo_file_session = Some (Ok [4, 5], s')"
proof -
  let ?s = demo_file_session and ?b = "[str ''srv'', str ''sdcard'']"
  have "idle_session ?s"
    by (simp add: idle_session_def idle_device_def demo_file_session_def PtpSession_new_def demo_device_def VirtualDeviceState_new_def
        needs_recovery_def recovery_default_def insert_object_def)
  moreover have new: "canonicalize demo_host (vs_backing_dir demo_storage) = Ok ?b" by code_simp
  have "upload_place demo_host (canonical_path ?b) ?b (str ''b.txt'')" "plain_name (str ''b.txt'')"
    unfolding upload_place_def plain_name_def by code_simp+
  moreover have "node_at demo_host (?b @ [str ''b.txt'']) = Some (FileNode None 0 [1, 2, 3, 4, 5])" by code_simp
  ultimately have "uploaded (transport ?s) 0x00010001 ?b (str ''b.txt'') 1 [1, 2, 3, 4, 5]"
    by (simp add: uploaded_def device_place_def holds_def demo_file_session_def PtpSession_new_def demo_device_def
        VirtualDeviceState_new_def resolve_storage_def new find_storage_def is_read_only_def backing_dir_def object_at_def insert_object_def)
      (simp add: demo_storage_def)
  with \<open>idle_session ?s\<close> show ?thesis
    using ranged_read [of ?s "0x00010001" ?b "str ''b.txt''" 1 "[1, 2, 3, 4, 5]" 3 100]
    by (simp add: demo_file_session_def PtpSession_new_def demo_device_def VirtualDeviceState_new_def VirtualDeviceConfig_default_def insert_object_def)
qed

section \<open>Deleting\<close>

lemma removed:
  assumes "(if path_is_dir h p then fs_remove_dir_all p h else fs_remove_file p h) = (Ok u, h')"
  shows "\<not> path_exists h' p"
proof
  assume "path_exists h' p"
  then obtain q where q: "canonicalize h' p = Ok q" by (auto simp: path_exists_iff is_Ok_iff)
  have cwd: "host_cwd h' = host_cwd h"
    using assms fs_remove_changes(1) [of p h "Ok u" h'] fs_remove_changes(2) [of p h "Ok u" h'] changes_cwd by (auto split: if_splits)
  have n: "q = spot h p" "node_at h' q \<noteq> None" using canonicalize_norm [OF q] unfolding cwd by blast+
  have gone: "node_at (touch d (drop_tree q h)) q = None" if "q \<noteq> []" for d
  proof -
    have "node_at (drop_tree q h) q = None"
      using that by (auto simp: node_at_def drop_tree_def map_of_eq_None_iff)
    then show ?thesis using touch_entry [of "drop_tree q h" q d] by (auto simp: same_entry_def)
  qed
  show False
  proof (cases "path_is_dir h p")
    case True
    then obtain r where r: "canonicalize h p = Ok r" "file_name p \<noteq> None" "h' = touch (butlast r) (drop_tree r h)"
      using assms by (auto simp: fs_remove_dir_all_def split: outcome.splits if_splits)
    then obtain m where "p = butlast p @ [Normal m]" using named_snoc by fastforce
    then have "q \<noteq> []" using n(1) by (metis Nil_is_append_conv norm.simps(1) norm.simps(5) norm_append not_Cons_self2)
    with gone r canonicalize_norm [OF r(1)] n show False by auto
  next
    case False
    then obtain r where r: "entry_of h p = Ok r" "h' = touch (butlast r) (drop_tree r h)"
      using assms by (auto simp: fs_remove_file_def split: outcome.splits option.splits node.splits)
    then have "r \<noteq> []" by (auto elim: entry_of_dir)
    with gone r entry_of_norm [OF r(1)] n show False by auto
  qed
qed

lemma build_response_code:
  assumes "build_response c tx ps = build_response c' tx' ps'"
  shows "c = c'"
proof -
  have "take 2 (drop 6 (build_response c tx ps)) = pack_u16 c" for c tx ps
    by (simp add: build_response_def header_lengths)
  with assms have "pack_u16 c = pack_u16 c'" by metis
  then show ?thesis by (metis u16.unpack_whole outcome.inject(1))
qed

lemma dispatch_delete:
  assumes "vd_session_open st"
  shows "dispatch (OperationCode_into OperationCode.DeleteObject) tx ps d st =
    handle_delete_object tx ps (count_operation (OperationCode_into OperationCode.DeleteObject) st)"
proof -
  have "OperationCode_from (OperationCode_into OperationCode.DeleteObject) = OperationCode.DeleteObject"
    using operationCode.dec_code [of "0x100B" OperationCode.DeleteObject] by (simp add: OperationCode_codes_def)
  with assms show ?thesis unfolding dispatch_def Let_def by simp
qed

text \<open>What a delete that succeeds does to the host and to the handles.\<close>

lemma delete_Ok:
  assumes "object_at st handle = Some obj" "resolve_path st handle = Some p" "\<not> is_read_only st (vo_storage_id obj)"
    "(if path_is_dir (vd_host st) p then fs_remove_dir_all p else fs_remove_file p) (vd_host st) = (Ok u, h')"
  shows "\<exists>eq. handle_delete_object tx [handle, 0] st = respond OK_CODE tx [] (st\<lparr>vd_host := h',
    vd_objects := filter (\<lambda>(h, other). \<not> (vo_storage_id other = vo_storage_id obj \<and> prefix (vo_rel_path obj) (vo_rel_path other))) (vd_objects st),
    vd_event_queue := eq\<rparr>)"
  using assms by (simp add: handle_delete_object_def param_def on_host_def push_event_def) blast

lemma delete_cases:
  assumes "object_at st handle = Some obj" "resolve_path st handle = Some p"
    "handle_delete_object tx [handle, 0] st = (Ok (), st')"
    "vd_response_queue st' = vd_response_queue st @ [build_response OK_CODE tx []]"
  shows "\<not> is_read_only st (vo_storage_id obj)
    \<and> is_Ok (fst ((if path_is_dir (vd_host st) p then fs_remove_dir_all p else fs_remove_file p) (vd_host st)))"
proof (rule ccontr)
  let ?f = "if path_is_dir (vd_host st) p then fs_remove_dir_all p else fs_remove_file p"
  assume no: "\<not> ?thesis"
  obtain r h' where r: "?f (vd_host st) = (r, h')" by force
  have "\<exists>code. vd_response_queue st' = vd_response_queue st @ [build_response code tx []] \<and> code \<noteq> OK_CODE"
  proof (cases "is_read_only st (vo_storage_id obj)")
    case True
    then have "snd (handle_delete_object tx [handle, 0] st) = push_response (build_response STORE_READ_ONLY tx []) st"
      by (simp add: handle_delete_object_def param_def assms(1) respond_def)
    with assms(3) show ?thesis by (auto simp: push_response_def STORE_READ_ONLY_def)
  next
    case False
    with no r have "\<not> is_Ok r" by simp
    then have "snd (handle_delete_object tx [handle, 0] st) = push_response (build_response GENERAL_ERROR tx []) (st\<lparr>vd_host := h'\<rparr>)"
      using False r by (cases r) (simp_all add: handle_delete_object_def param_def assms(1,2) respond_def on_host_def)
    with assms(3) show ?thesis by (auto simp: push_response_def GENERAL_ERROR_def)
  qed
  then obtain code where "build_response code tx [] = build_response OK_CODE tx []" "code \<noteq> OK_CODE"
    using assms(4) by auto
  with build_response_code show False by blast
qed

lemma map_of_filter_distinct:
  "distinct (map fst xs) \<Longrightarrow> map_of (filter (\<lambda>(k, v). P v) xs) k = (case map_of xs k of Some v \<Rightarrow> if P v then Some v else None | None \<Rightarrow> None)"
proof (induction xs)
  case (Cons x xs)
  then show ?case by (cases x) (auto split: option.split simp: map_of_eq_None_iff)
qed simp

text \<open>
  A deleted object is gone. After a delete that the device answers with OK, nothing is left on the host at the object's path, its handle and those of all
  the objects below it on its storage are unknown, and every other handle names the object it named before.
\<close>

theorem deleted_is_gone:
  assumes "vd_session_open st" "object_at st handle = Some obj" "resolve_path st handle = Some p"
    and "dispatch (OperationCode_into OperationCode.DeleteObject) tx [handle, 0] None st = (Ok (), st')"
    and "vd_response_queue st' = vd_response_queue st @ [build_response OK_CODE tx []]"
    and "distinct (map fst (vd_objects st))"
  shows "\<not> path_exists (vd_host st') p
    \<and> (\<forall>h. object_at st' h =
          (case object_at st h of
             Some other \<Rightarrow>
               if vo_storage_id other = vo_storage_id obj \<and> prefix (vo_rel_path obj) (vo_rel_path other) then None else Some other
           | None \<Rightarrow> None))"
proof -
  define st1 where "st1 = count_operation (OperationCode_into OperationCode.DeleteObject) st"
  let ?f = "if path_is_dir (vd_host st1) p then fs_remove_dir_all p else fs_remove_file p"
  have st1: "object_at st1 handle = Some obj" "resolve_path st1 handle = Some p" "vd_response_queue st1 = vd_response_queue st"
    using assms(2,3) unfolding st1_def by (simp_all add: resolve_path_def)
  have run: "handle_delete_object tx [handle, 0] st1 = (Ok (), st')"
    using assms(4) unfolding dispatch_delete [OF assms(1)] st1_def .
  from delete_cases [OF st1(1,2) run] assms(5) st1(3)
  have ok: "\<not> is_read_only st1 (vo_storage_id obj)" "is_Ok (fst (?f (vd_host st1)))" by simp_all
  then obtain u h' where h': "?f (vd_host st1) = (Ok u, h')" by (cases "?f (vd_host st1)") (auto simp: is_Ok_iff)
  from delete_Ok [OF st1(1,2) ok(1) h', of tx] obtain eq where
    st': "st' = push_response (build_response OK_CODE tx []) (st1\<lparr>vd_host := h',
      vd_objects := filter (\<lambda>(h, other). \<not> (vo_storage_id other = vo_storage_id obj \<and> prefix (vo_rel_path obj) (vo_rel_path other))) (vd_objects st1),
      vd_event_queue := eq\<rparr>)"
    using run by (auto simp: respond_def)
  have "\<not> path_exists h' p" using h' removed [of "vd_host st1" p u h'] by (simp split: if_splits)
  moreover have "vd_objects st1 = vd_objects st" by (simp add: st1_def)
  ultimately show ?thesis
    by (simp add: st' push_response_def object_at_def map_of_filter_distinct assms(6) split: option.split)
qed

theorem deleted_is_gone_witness:
  "\<exists>st'. dispatch (OperationCode_into OperationCode.DeleteObject) 7 [1, 0] None (transport demo_file_session) = (Ok (), st')
     \<and> object_at st' 1 = None \<and> \<not> path_exists (vd_host st') (canonical_path [str ''srv'', str ''sdcard'', str ''b.txt''])"
proof -
  let ?st = "transport demo_file_session" and ?p = "canonical_path [str ''srv'', str ''sdcard'', str ''b.txt'']"
  define st1 where "st1 = count_operation (OperationCode_into OperationCode.DeleteObject) ?st"
  have new: "canonicalize demo_host (vs_backing_dir demo_storage) = Ok [str ''srv'', str ''sdcard'']" by code_simp
  have plain: "\<not> path_is_dir demo_host ?p" "is_Ok (fst (fs_remove_file ?p demo_host))" by code_simp+
  have st: "vd_host ?st = demo_host" "vd_session_open ?st" "\<not> is_read_only ?st 0x00010001" "distinct (map fst (vd_objects ?st))"
    "object_at ?st 1 = Some (entry_object 0x00010001 ROOT [Normal (str ''b.txt'')])" "vd_response_queue ?st = []"
    by (simp_all add: demo_file_session_def PtpSession_new_def demo_device_def VirtualDeviceState_new_def resolve_storage_def
        new find_storage_def is_read_only_def object_at_def insert_object_def) (simp_all add: demo_storage_def)
  have p: "resolve_path ?st 1 = Some ?p"
    unfolding resolve_path_def st
    by (simp add: demo_file_session_def PtpSession_new_def demo_device_def VirtualDeviceState_new_def resolve_storage_def
        new find_storage_def backing_dir_def insert_object_def entry_object_def) (simp add: canonical_path_def path_join_def)
  obtain u h' where "fs_remove_file ?p demo_host = (Ok u, h')"
    using plain(2) by (cases "fs_remove_file ?p demo_host") (auto simp: is_Ok_iff)
  then have rm: "(if path_is_dir (vd_host st1) ?p then fs_remove_dir_all ?p else fs_remove_file ?p) (vd_host st1) = (Ok u, h')"
    using plain(1) st(1) by (simp add: st1_def)
  have "object_at st1 1 = Some (entry_object 0x00010001 ROOT [Normal (str ''b.txt'')])" "resolve_path st1 1 = Some ?p"
    "\<not> is_read_only st1 (vo_storage_id (entry_object 0x00010001 ROOT [Normal (str ''b.txt'')]))"
    using st p by (simp_all add: st1_def resolve_path_def) (simp add: entry_object_def)
  from delete_Ok [OF this rm, of 7] obtain st' where
    run: "dispatch (OperationCode_into OperationCode.DeleteObject) 7 [1, 0] None ?st = (Ok (), st')"
      "vd_response_queue st' = vd_response_queue ?st @ [build_response OK_CODE 7 []]"
    unfolding dispatch_delete [OF st(2)] st1_def [symmetric] by (auto simp: respond_def push_response_def) (simp add: st1_def)
  from deleted_is_gone [OF st(2,5) p run st(4)] st(5) run(1) show ?thesis by auto
qed

section \<open>A folder without a name\<close>

text \<open>
  C40: A folder created without a name is the storage itself. When an object information announces a folder with an empty file name in the root, the device answers
  OK and hands out a handle for the backing directory; deleting that handle succeeds and removes the backing directory with
  everything in it.
\<close>

theorem unnamed_folder_is_storage:
  assumes "vd_session_open st" "find_storage st sid = Some s" "\<not> is_read_only st sid"
    and "canonicalize (vd_host st) (backing_dir s) = Ok b" "dir_at (vd_host st) b" "file_name (backing_dir s) \<noteq> None"
    and "ObjectInfo_from_bytes data = Ok info" "oi_filename info = []" "oi_format info = ObjectFormatCode.Association"
  shows "\<exists>handle st1 st2.
    dispatch (OperationCode_into OperationCode.SendObjectInfo) tx [sid, SEND_ROOT] (Some data) st = (Ok (), st1)
    \<and> vd_response_queue st1 = vd_response_queue st @ [build_response OK_CODE tx [sid, ROOT, handle]]
    \<and> dispatch (OperationCode_into OperationCode.DeleteObject) tx' [handle, 0] None st1 = (Ok (), st2)
    \<and> vd_response_queue st2 = vd_response_queue st1 @ [build_response OK_CODE tx' []]
    \<and> \<not> path_exists (vd_host st2) (backing_dir s)"
proof -
  let ?h = "vd_host st" and ?d = "backing_dir s" and ?handle = "vd_next_handle st"
  have d: "?d \<noteq> []" using assms(4) by (auto simp: canonicalize_def)
  have rel: "path_join [] (components []) = []" "path_join ?d [] = ?d"
    using d by (auto simp: path_join_def components_def)
  have valid: "validate_path_within ?h ?d ?d = Some b"
    using assms(4) by (simp add: validate_path_within_def path_exists_iff)
  have disk: "create_on_disk True ?d ?h = (Ok (), ?h)"
    using create_dir_all_one [OF reachable_parentI [OF assms(4)]] assms(4,5) by (simp add: create_on_disk_def fs_mkdir_def path_is_dir_iff)
  define st0 where "st0 = count_operation (OperationCode_into OperationCode.SendObjectInfo) st"
  have st0: "find_storage st0 sid = Some s" "\<not> is_read_only st0 sid" "vd_host st0 = ?h" "vd_next_handle st0 = ?handle"
    using assms(2,3) by (simp_all add: st0_def)
  have run: "dispatch (OperationCode_into OperationCode.SendObjectInfo) tx [sid, SEND_ROOT] (Some data) st
      = create_object tx sid ROOT info st0"
    unfolding dispatch_codes(1) [OF assms(1)] st0_def [symmetric] handle_send_object_info_def SEND_ROOT_ROOT Let_def
    by (simp add: st0 assms(7) parent_is_directory_def)
  define st1 where "st1 = (created_events ?handle sid (insert_object ?handle (entry_object sid ROOT [])
    (st0\<lparr>vd_next_handle := ?handle + 1, vd_host := ?h\<rparr>)))\<lparr>vd_pending_send := None\<rparr>"
  have create: "create_object tx sid ROOT info st0 = respond OK_CODE tx [sid, ROOT, ?handle] st1"
    by (simp add: create_object_def Let_def alloc_handle_def unwrap_def assms(8,9) st0 rel valid on_host_def disk)
      (simp add: st1_def st0 entry_object_def created_events_def push_event_def insert_object_def)
  define st2 where "st2 = count_operation (OperationCode_into OperationCode.DeleteObject)
    (push_response (build_response OK_CODE tx [sid, ROOT, ?handle]) st1)"
  have st1: "vd_response_queue st1 = vd_response_queue st" "vd_session_open st1" "vd_storages st2 = vd_storages st"
    "object_at st2 ?handle = Some (entry_object sid ROOT [])" "vd_host st2 = ?h"
    using assms(1) by (simp_all add: st1_def st0_def st2_def created_events_def push_event_def insert_object_def push_response_def
        object_at_def update_conv)
  have at: "find_storage st2 sid = Some s" "\<not> is_read_only st2 (vo_storage_id (entry_object sid ROOT []))"
    using same_storages [OF st1(3)] assms(2,3) by (simp_all add: entry_object_def)
  have p: "resolve_path st2 ?handle = Some ?d"
    using st1(4) at(1) rel by (simp add: resolve_path_def entry_object_def)
  obtain h' where rm: "(if path_is_dir (vd_host st2) ?d then fs_remove_dir_all ?d else fs_remove_file ?d) (vd_host st2) = (Ok (), h')"
    using assms(4-6) by (auto simp: st1(5) path_is_dir_iff fs_remove_dir_all_def)
  from delete_Ok [OF st1(4) p at(2) rm, of tx'] obtain eq where
    del: "handle_delete_object tx' [?handle, 0] st2 = respond OK_CODE tx' [] (st2\<lparr>vd_host := h',
      vd_objects := filter (\<lambda>(h, other). \<not> (vo_storage_id other = vo_storage_id (entry_object sid ROOT [])
        \<and> prefix (vo_rel_path (entry_object sid ROOT [])) (vo_rel_path other))) (vd_objects st2), vd_event_queue := eq\<rparr>)"
    by blast
  have "vd_session_open (push_response (build_response OK_CODE tx [sid, ROOT, ?handle]) st1)"
    using st1(2) by (simp add: push_response_def)
  note delete = dispatch_delete [OF this, of tx' "[?handle, 0]" None, folded st2_def, unfolded del respond_def]
  have "\<not> path_exists h' ?d" using removed [of ?h ?d "()" h'] rm st1(5) by (simp split: if_splits)
  moreover have "vd_response_queue st2 = vd_response_queue st @ [build_response OK_CODE tx [sid, ROOT, ?handle]]"
    by (simp add: st2_def push_response_def st1(1))
  ultimately show ?thesis
    using delete unfolding run create
    by (intro exI [of _ ?handle]) (auto simp: respond_def push_response_def st1(1))
qed

theorem unnamed_folder_is_storage_witness:
  "\<exists>data handle st1 st2.
    dispatch (OperationCode_into OperationCode.SendObjectInfo) 1 [0x00010001, SEND_ROOT] (Some data) (transport demo_session) = (Ok (), st1)
    \<and> dispatch (OperationCode_into OperationCode.DeleteObject) 2 [handle, 0] None st1 = (Ok (), st2)
    \<and> \<not> path_exists (vd_host st2) (canonical_path [str ''srv'', str ''sdcard''])"
proof -
  let ?info = "ObjectInfo_default\<lparr>oi_format := ObjectFormatCode.Association\<rparr>"
  have "ObjectFormatCode_from (ObjectFormatCode_into ObjectFormatCode.Association) = ObjectFormatCode.Association"
    by (rule objectFormatCode.dec_enc [THEN iffD2]) (simp add: ObjectFormatCode_codes_def)
  then have "info_ok ?info"
    using demo_info_ok(1) unfolding info_ok_def demo_info_def ObjectInfo_default_def
    by (simp only: ObjectInfo.select_convs ObjectInfo.update_convs) (simp add: valid_str_def date_ok_def)
  moreover obtain data where data: "ObjectInfo_to_bytes ?info = Ok data"
    by (auto simp: ObjectInfo_to_bytes_def ObjectInfo_default_def pack_date_field_def pack_string_def [of "[]"] Let_def)
  ultimately have info: "ObjectInfo_from_bytes data = Ok (?info\<lparr>oi_handle := 0, oi_size := ucast (size_u32 (oi_size ?info))\<rparr>)"
    using ObjectInfo_unpack_pack [of ?info data "[]"] by simp
  let ?b = "[str ''srv'', str ''sdcard'']"
  let ?s = "\<lparr>vss_config = demo_storage\<lparr>vs_backing_dir := canonical_path ?b\<rparr>, vss_storage_id = 0x00010001\<rparr>"
  have new: "canonicalize demo_host (vs_backing_dir demo_storage) = Ok ?b" by code_simp
  have place: "canonicalize demo_host (canonical_path ?b) = Ok ?b" "dir_at demo_host ?b" "file_name (canonical_path ?b) \<noteq> None" by code_simp+
  have st: "vd_session_open (transport demo_session)" "find_storage (transport demo_session) 0x00010001 = Some ?s"
    "\<not> is_read_only (transport demo_session) 0x00010001" "vd_host (transport demo_session) = demo_host" "backing_dir ?s = canonical_path ?b"
    by (simp_all add: demo_session_def PtpSession_new_def demo_device_def VirtualDeviceState_new_def resolve_storage_def new find_storage_def
        is_read_only_def backing_dir_def) (simp_all add: demo_storage_def)
  show ?thesis
    using unnamed_folder_is_storage [OF st(1-3), of ?b data "?info\<lparr>oi_handle := 0, oi_size := ucast (size_u32 (oi_size ?info))\<rparr>" 1 2]
      place info unfolding st(4,5) by (auto simp: ObjectInfo_default_def)
qed

end
