(* ===== verification/Mtp_On_Device.thy ===== *)
theory Mtp_On_Device
  imports Mtp_Usb Virtual_Transfers
begin

text \<open>
  The high-level API over a virtual device: the USB backend, its session and the device together keep the contract of
  \<open>file_reads\<close>, so that a paced download delivers exactly the bytes it asks for, and a file that is uploaded comes back.
\<close>

section \<open>A stream as a download body\<close>

lemma collect_delivers:
  assumes "collect_loop ops data st s = Some (Ok out, s')" "\<not> rs_done st"
  shows "\<exists>cs. delivers (usb_backend ops) st (ub\<lparr>ub_session := s\<rparr>) cs (ub\<lparr>ub_session := s'\<rparr>) \<and> out = data @ concat cs"
proof -
  have "collect_loop ops data st s = Some y \<Longrightarrow> \<not> rs_done st \<longrightarrow> (\<forall>out s'. y = (Ok out, s') \<longrightarrow>
      (\<exists>cs. delivers (usb_backend ops) st (ub\<lparr>ub_session := s\<rparr>) cs (ub\<lparr>ub_session := s'\<rparr>) \<and> out = data @ concat cs))" for y
  proof (erule collect_loop.raw_induct [rotated], intro impI allI, goal_cases)
    case (1 loop ops data st s y out s')
    from 1(2) obtain item st1 s1 where chunk: "next_chunk ops st s = Some (item, st1, s1)"
      by (auto split: Option.bind_splits)
    note post = next_chunk_post [OF chunk 1(3), unfolded next_post_def Let_def, simplified]
    show ?case
    proof (cases item)
      case End
      have "delivers (usb_backend ops) st (ub\<lparr>ub_session := s\<rparr>) [] (be_drop (usb_backend ops) st1 (ub\<lparr>ub_session := s1\<rparr>))"
        using chunk End by (intro delivers.over) (simp add: usb_next_chunk_def)
      moreover have "be_drop (usb_backend ops) st1 (ub\<lparr>ub_session := s1\<rparr>) = ub\<lparr>ub_session := s'\<rparr>" "out = data"
        using 1(2,4) chunk End by (simp_all add: usb_drop_def)
      ultimately show ?thesis by auto
    next
      case (Item r)
      with 1(2,4) chunk obtain c where c: "r = Ok c" "loop ops (data @ c) st1 s1 = Some y"
        by (cases r) auto
      with post Item 1(3) have st1: "\<not> rs_done st1" "c \<noteq> []" by auto
      from 1(1) [OF c(2)] st1(1) 1(4) obtain cs where
        cs: "delivers (usb_backend ops) st1 (ub\<lparr>ub_session := s1\<rparr>) cs (ub\<lparr>ub_session := s'\<rparr>)" "out = (data @ c) @ concat cs" by blast
      have "delivers (usb_backend ops) st (ub\<lparr>ub_session := s\<rparr>) (c # cs) (ub\<lparr>ub_session := s'\<rparr>)"
        by (rule delivers.chunk [OF _ st1(2) cs(1)]) (use chunk Item c(1) in \<open>simp add: usb_next_chunk_def\<close>)
      with cs(2) show ?thesis by (auto intro!: exI [of _ "c # cs"])
    qed
  qed
  with assms show ?thesis by blast
qed

text \<open>Reading takes transfers out of the device's queue and changes nothing else of it.\<close>

lemma queue_pipe: "bulk_pipe virtual_ops vd_response_queue (\<lambda>t. t\<lparr>vd_response_queue := []\<rparr> = t0)"
  by unfold_locales (auto simp: virtual_receive_bulk_def virtual_cancel_transfer_def Let_def split: if_splits)

lemma ok_reply_response: "build_response OK_CODE tx [] = ok_reply tx"
proof -
  have "ResponseCode_into ResponseCode.OK = OK_CODE"
    using responseCode.dec_code [of OK_CODE ResponseCode.OK] by (simp add: ResponseCode_codes_def)
  then show ?thesis by (simp add: build_response_def ok_reply_def response_wire_def pack_header_def HEADER_SIZE_def)
qed

lemma stream_on_device:
  assumes "idle_session s" "\<not> expects_data (OperationCode_from (OperationCode_into operation))"
    and "dispatch (OperationCode_into operation) (transaction_id s) ps None (transport s) = (Ok (), st')"
    and "vd_response_queue st' = [build_data_container (OperationCode_into operation) (transaction_id s) payload,
       build_response OK_CODE (transaction_id s) []]"
    and "HEADER_SIZE + length payload < 2 ^ 32 - 1" "OperationCode_from (OperationCode_into operation) = operation"
  shows "\<exists>st s1 cs. start_receive_stream virtual_ops operation ps n s = (Ok st, s1)
    \<and> delivers (usb_backend virtual_ops) st (ub\<lparr>ub_session := s1\<rparr>) cs (ub\<lparr>ub_session := after s st'\<rparr>) \<and> concat cs = payload"
proof -
  have idle: "\<not> operation_lock s" "\<not> needed (recovery s)" "\<not> vd_pending_operation_wedge (transport s)"
    using assms(1) by (auto simp: idle_session_def needs_recovery_def idle_device_def)
  define s1 where "s1 = s\<lparr>transport := st', transaction_id := TransactionId_next (transaction_id s), operation_lock := True,
      recovery := (recovery s)\<lparr>needed := False\<rparr>\<rparr>"
  have start: "start_receive_stream virtual_ops operation ps n s = (Ok (ReceiveStream_new (transaction_id s) operation n), s1)"
    by (simp add: start_receive_stream_def session_run idle send_command assms(2,3) s1_def)
  let ?st = "ReceiveStream_new (transaction_id s) operation n"
  let ?c = "\<lparr>dc_code = operation, dc_transaction_id = transaction_id s, dc_payload = payload\<rparr>"
  have "build_data_container (OperationCode_into operation) (transaction_id s) payload = DataContainer_to_bytes ?c"
    by (simp add: build_data_container_def DataContainer_to_bytes_def pack_header_def HEADER_SIZE_def)
  then have pipe: "vd_response_queue (transport s1) = [DataContainer_to_bytes ?c, ok_reply (transaction_id s)] @ []"
    using assms(4) by (simp add: s1_def ok_reply_response)
  have "DataContainer_to_bytes ?c \<noteq> []" "ok_reply (transaction_id s) \<noteq> []"
    using length_ok_reply [of "transaction_id s"] by (auto simp: HEADER_SIZE_def DataContainer_to_bytes_def Let_def)
  then have "still_to_come ?st [DataContainer_to_bytes ?c, ok_reply (transaction_id s)] [] [?c]"
    using assms(5) by (simp add: still_to_come_def ReceiveStream_new_def streaming_def)
  from bulk_pipe.collect_rest [OF queue_pipe [of "st'\<lparr>vd_response_queue := []\<rparr>"] this _ pipe, of "[]"] obtain s2 where
    s2: "collect_loop virtual_ops [] ?st s1 = Some (Ok payload, s2)" "vd_response_queue (transport s2) = []"
      "(transport s2)\<lparr>vd_response_queue := []\<rparr> = st'\<lparr>vd_response_queue := []\<rparr>" "same_but_transport (s1\<lparr>operation_lock := False\<rparr>) s2"
    by (auto simp: s1_def ReceiveStream_new_def)
  have "transport s2 = st'\<lparr>vd_response_queue := []\<rparr>" using s2(2,3) by (cases "transport s2") simp
  then have "s2 = after s st'" using s2(4) idle unfolding after_eq [OF assms(1)] by (simp add: same_but_transport_def s1_def)
  with collect_delivers [OF s2(1), of ub] start show ?thesis by (auto simp: ReceiveStream_new_def)
qed

section \<open>A file on the device, as a backend serves it\<close>

definition on_device ::
  "StorageId \<Rightarrow> rstr list \<Rightarrow> rstr \<Rightarrow> ObjectHandle \<Rightarrow> bytes \<Rightarrow> bool \<Rightarrow> bool \<Rightarrow> VirtualDeviceState UsbBackend \<Rightarrow> bool" where
  "on_device sid b name handle data w64 w32 ub \<longleftrightarrow>
     (let s = ub_session ub; st = transport s in
      idle_session s \<and> uploaded st sid b name handle data \<and> list_all (\<lambda>cap. 0 < cap) (vd_forced_partial_read_caps st)
      \<and> vc_supports_partial_object_64 (vd_config st) = w64 \<and> vc_supports_partial_object (vd_config st) = w32
      \<and> ub_has_partial_object_64 ub = w64 \<and> ub_has_partial_object ub = w32
      \<and> length data < 2 ^ 32 - 13)"

definition reach :: "bool \<Rightarrow> bool \<Rightarrow> u64 \<Rightarrow> bool" where
  "reach w64 w32 off \<longleftrightarrow> is_Ok (plan_partial_read w64 w32 off)"

lemma reach_down: "reach w64 w32 off \<Longrightarrow> off' \<le> off \<Longrightarrow> reach w64 w32 off'"
  by (auto simp: reach_def plan_partial_read_def split: if_splits)

lemma canonical_narrow:
  "OperationCode_from (OperationCode_into OperationCode.GetPartialObject) = OperationCode.GetPartialObject"
  using operationCode.dec_code [of "0x101B" OperationCode.GetPartialObject] by (simp add: OperationCode_codes_def)

lemma dispatch_narrow:
  assumes "vd_session_open st" "vc_supports_partial_object (vd_config st)"
  shows "dispatch (OperationCode_into OperationCode.GetPartialObject) tx ps d st =
    handle_get_partial_object (OperationCode_into OperationCode.GetPartialObject) tx ps
      (count_operation (OperationCode_into OperationCode.GetPartialObject) st)"
  using assms unfolding dispatch_def Let_def canonical_narrow by simp

lemma uploaded_frame:
  assumes "vd_host st' = vd_host st" "vd_storages st' = vd_storages st" "vd_objects st' = vd_objects st"
    "vd_session_open st' = vd_session_open st" "vd_config st' = vd_config st"
  shows "uploaded st' = uploaded st"
  using assms by (auto simp: fun_eq_iff uploaded_def device_place_def object_at_def find_storage_def is_read_only_def)

lemma uploaded_file:
  assumes "uploaded st sid b name handle data"
  obtains p where "resolve_path st handle = Some p" "fs_read (vd_host st) p = Ok data"
proof -
  obtain v where v: "find_storage st sid = Some v" "upload_place (vd_host st) (backing_dir v) b name"
    using assms by (auto simp: uploaded_def device_place_def)
  have "object_at st handle = Some (entry_object sid ROOT [Normal name])" using assms by (simp add: uploaded_def)
  then have "resolve_path st handle = Some (path_join (backing_dir v) [Normal name])"
    using v(1) by (simp add: resolve_path_def entry_object_def)
  with that fs_read_place [OF v(2)] assms show thesis by (simp add: uploaded_def)
qed

text \<open>A partial read answers with at least one byte, also when the device is told to cut it short.\<close>

lemma partial_read_served:
  assumes "uploaded st sid b name handle data" "unat off < length data" "0 < n" "length data < 2 ^ 32"
    and "list_all (\<lambda>cap. 0 < cap) (vd_forced_partial_read_caps st)"
  shows "\<exists>m st'. read_partial op tx handle off n (count_operation op st) = (Ok (), st') \<and> 0 < m \<and> m \<le> n
    \<and> vd_response_queue st' = vd_response_queue st @ [build_data_container op tx (take m (drop (unat off) data)), build_response OK_CODE tx []]
    \<and> uploaded st' sid b name handle data \<and> list_all (\<lambda>cap. 0 < cap) (vd_forced_partial_read_caps st')
    \<and> vd_config st' = vd_config st \<and> vd_pending_command st' = vd_pending_command st
    \<and> vd_pending_operation_wedge st' = vd_pending_operation_wedge st"
proof -
  obtain p where p: "resolve_path st handle = Some p" "fs_read (vd_host st) p = Ok data" using uploaded_file [OF assms(1)] .
  have frame: "resolve_path (count_operation op st) = resolve_path st" "resolve_path (st\<lparr>vd_forced_partial_read_caps := c\<rparr>) = resolve_path st" for c
    by (auto simp: fun_eq_iff resolve_path_def object_at_def find_storage_def)
  have off: "\<not> 2 ^ 63 \<le> unat off" using assms(2,4) by simp
  obtain m caps where m: "0 < m" "m \<le> n" "list_all (\<lambda>cap. 0 < cap) caps"
    and run: "read_partial op tx handle off n (count_operation op st) = send_payload op tx (Ok (take m (drop (unat off) data)))
        ((count_operation op st)\<lparr>vd_forced_partial_read_caps := caps\<rparr>)"
  proof (cases "vd_forced_partial_read_caps st")
    case Nil
    have same: "(count_operation op st)\<lparr>vd_forced_partial_read_caps := []\<rparr> = count_operation op st" using Nil by (simp add: count_operation_def)
    have "read_partial op tx handle off n (count_operation op st) = send_payload op tx (Ok (take n (drop (unat off) data))) (count_operation op st)"
      using Nil p off frame by (simp add: read_partial_def)
    with that [of n "[]"] assms(3) same show thesis by simp
  next
    case (Cons cap caps)
    have res: "resolve_path ((count_operation op st)\<lparr>vd_forced_partial_read_caps := c\<rparr>) = resolve_path st" for c
      by (auto simp: fun_eq_iff resolve_path_def object_at_def find_storage_def count_operation_def)
    have "read_partial op tx handle off n (count_operation op st) = send_payload op tx (Ok (take (min cap n) (drop (unat off) data)))
        ((count_operation op st)\<lparr>vd_forced_partial_read_caps := caps\<rparr>)"
      using p off by (simp add: read_partial_def Cons res)
    with that [of "min cap n" caps] assms(3,5) Cons show thesis by simp
  qed
  let ?st' = "push_response (build_response OK_CODE tx []) (push_response (build_data_container op tx (take m (drop (unat off) data)))
      ((count_operation op st)\<lparr>vd_forced_partial_read_caps := caps\<rparr>))"
  have "read_partial op tx handle off n (count_operation op st) = (Ok (), ?st')" by (simp add: run send_payload_def respond_def)
  moreover have "uploaded ?st' = uploaded st" by (rule uploaded_frame) (simp_all add: push_response_def count_operation_def)
  ultimately show ?thesis using m assms(1) by (intro exI [of _ m] exI [of _ ?st']) (simp add: push_response_def count_operation_def)
qed

text \<open>The state of the backend after a transaction that only reads.\<close>

lemma on_device_after:
  assumes "on_device sid b name handle data w64 w32 ub" "uploaded st' sid b name handle data"
    "list_all (\<lambda>cap. 0 < cap) (vd_forced_partial_read_caps st')" "vd_config st' = vd_config (transport (ub_session ub))"
    "vd_pending_command st' = vd_pending_command (transport (ub_session ub))"
    "vd_pending_operation_wedge st' = vd_pending_operation_wedge (transport (ub_session ub))"
  shows "on_device sid b name handle data w64 w32 (ub\<lparr>ub_session := after (ub_session ub) st'\<rparr>)"
  using assms after_idle [of "ub_session ub" st'] by (simp add: on_device_def Let_def idle_session_def idle_device_def)

lemma reads_stream:
  assumes "on_device sid b name handle data w64 w32 ub" "\<not> expects_data operation" "OperationCode_from (OperationCode_into operation) = operation"
    and "dispatch (OperationCode_into operation) (transaction_id (ub_session ub)) ps None (transport (ub_session ub)) = (Ok (), st')"
    and "vd_response_queue st' = [build_data_container (OperationCode_into operation) (transaction_id (ub_session ub)) payload,
       build_response OK_CODE (transaction_id (ub_session ub)) []]"
    and "payload \<noteq> []" "prefix payload want" "length payload \<le> length data"
    and "on_device sid b name handle data w64 w32 (ub\<lparr>ub_session := after (ub_session ub) st'\<rparr>)"
  shows "reads (usb_backend virtual_ops) (on_device sid b name handle data w64 w32)
    (convert (on_session (start_receive_stream virtual_ops operation ps n) ub)) payload want"
proof -
  have idle: "idle_session (ub_session ub)" and len: "HEADER_SIZE + length payload < 2 ^ 32 - 1"
    using assms(1,8) by (simp_all add: on_device_def Let_def HEADER_SIZE_def)
  from stream_on_device [OF idle _ assms(4,5) len assms(3), of n ub] assms(2,3) obtain st s1 cs where
    "start_receive_stream virtual_ops operation ps n (ub_session ub) = (Ok st, s1)"
    "delivers (usb_backend virtual_ops) st (ub\<lparr>ub_session := s1\<rparr>) cs (ub\<lparr>ub_session := after (ub_session ub) st'\<rparr>)" "concat cs = payload"
    by auto
  with assms(6,7,9) show ?thesis by (auto simp: reads_def convert_def on_session_def)
qed

lemma partial_on_device:
  assumes dev: "on_device sid b name handle data w64 w32 ub" and "reach w64 w32 off" "k \<noteq> 0" "unat off + unat k \<le> length data"
  shows "\<exists>got. reads (usb_backend virtual_ops) (on_device sid b name handle data w64 w32)
    (partial_read_stream virtual_ops (handle_from_ptp handle) off k ub) got (take (unat k) (drop (unat off) data))"
proof -
  let ?s = "ub_session ub" and ?st = "transport (ub_session ub)" and ?tx = "transaction_id (ub_session ub)"
  have k: "0 < unat k" using assms(3) by (simp add: unat_gt_0)
  then have "unat off < length data" using assms(4) by linarith
  with k have st: "uploaded ?st sid b name handle data" "list_all (\<lambda>cap. 0 < cap) (vd_forced_partial_read_caps ?st)" "length data < 2 ^ 32"
    "vd_session_open ?st" "vd_response_queue ?st = []" "0 < unat k" "unat off < length data"
    "w64 = vc_supports_partial_object_64 (vd_config ?st)" "w32 = vc_supports_partial_object (vd_config ?st)"
    "ub_has_partial_object_64 ub = w64" "ub_has_partial_object ub = w32"
    using dev by (auto simp: on_device_def Let_def uploaded_def device_place_def idle_session_def idle_device_def)
  have common: "\<exists>got. reads (usb_backend virtual_ops) (on_device sid b name handle data w64 w32)
      (convert (on_session (start_receive_stream virtual_ops operation ps None) ub)) got (take (unat k) (drop (unat off) data))"
    if op: "\<not> expects_data operation" "OperationCode_from (OperationCode_into operation) = operation"
      and d: "dispatch (OperationCode_into operation) ?tx ps None ?st =
        read_partial (OperationCode_into operation) ?tx handle off (unat k) (count_operation (OperationCode_into operation) ?st)"
    for operation ps
  proof -
    from partial_read_served [OF st(1,7,6,3,2), of "OperationCode_into operation" ?tx] obtain m st' where
      m: "read_partial (OperationCode_into operation) ?tx handle off (unat k) (count_operation (OperationCode_into operation) ?st) = (Ok (), st')"
      "0 < m" "m \<le> unat k" and q: "vd_response_queue st' = [build_data_container (OperationCode_into operation) ?tx (take m (drop (unat off) data)),
        build_response OK_CODE ?tx []]"
      and keep: "uploaded st' sid b name handle data" "list_all (\<lambda>cap. 0 < cap) (vd_forced_partial_read_caps st')"
      "vd_config st' = vd_config ?st" "vd_pending_command st' = vd_pending_command ?st"
      "vd_pending_operation_wedge st' = vd_pending_operation_wedge ?st"
      using st(5) by auto
    have "take m (drop (unat off) data) \<noteq> []" using m(2) st(7) by simp
    moreover have "take m (drop (unat off) data) = take m (take (unat k) (drop (unat off) data))" using m(3) by (simp add: min_absorb1)
    then have "prefix (take m (drop (unat off) data)) (take (unat k) (drop (unat off) data))" by (metis take_is_prefix)
    moreover have "length (take m (drop (unat off) data)) \<le> length data" by simp
    ultimately show ?thesis
      using reads_stream [OF dev op d [unfolded m(1)] q _ _ _ on_device_after [OF dev keep], of "take (unat k) (drop (unat off) data)" None]
      by blast
  qed
  show ?thesis
  proof (cases w64)
    case True
    obtain lo hi where off: "offset_params off = (lo, hi)" by force
    have p: "lo = ucast off" "hi = ucast (drop_bit 32 off)" using off by (simp_all add: offset_params_def Let_def)
    have d: "dispatch (OperationCode_into OperationCode.GetPartialObject64) ?tx [handle, lo, hi, k] None ?st =
        read_partial (OperationCode_into OperationCode.GetPartialObject64) ?tx handle off (unat k)
          (count_operation (OperationCode_into OperationCode.GetPartialObject64) ?st)"
      using True st(4,8) offset_rejoined [OF off]
      by (simp add: dispatch_partial handle_get_partial_object_64_def param_def Let_def del: OperationCode_into.simps)
    have "\<not> expects_data OperationCode.GetPartialObject64" by (simp add: expects_data_def)
    from common [OF this canonical_partial d] True st(10) show ?thesis
      by (simp add: partial_read_stream_def partial_read_def plan_partial_read_def p execute_with_receive_stream_def)
  next
    case False
    then have w32: "w32" "off \<le> 0xFFFFFFFF" using assms(2) by (auto simp: reach_def plan_partial_read_def split: if_splits)
    have up: "ucast (ucast off :: u32) = off"
    proof -
      have "unat off < 2 ^ LENGTH(32)" using w32(2) by (simp add: word_le_nat_alt)
      then have "unat (ucast off :: u32) = unat off" by (rule unat_ucast_up)
      moreover have "unat (ucast (ucast off :: u32) :: u64) = unat (ucast off :: u32)"
        by (rule unat_ucast_up) (use unat_less [of "ucast off :: u32"] in simp)
      ultimately show ?thesis by (simp only: word_unat_eq_iff)
    qed
    have d: "dispatch (OperationCode_into OperationCode.GetPartialObject) ?tx [handle, ucast off, k] None ?st =
        read_partial (OperationCode_into OperationCode.GetPartialObject) ?tx handle off (unat k)
          (count_operation (OperationCode_into OperationCode.GetPartialObject) ?st)"
      using w32(1) st(4,9) up
      by (simp add: dispatch_narrow handle_get_partial_object_def param_def del: OperationCode_into.simps)
    have "\<not> expects_data OperationCode.GetPartialObject" by (simp add: expects_data_def)
    moreover have "\<not> 0xFFFFFFFF < off" using w32(2) by (simp only: not_less)
    ultimately show ?thesis using common [OF _ canonical_narrow d] False w32(1) st(10,11)
      by (simp add: partial_read_stream_def partial_read_def plan_partial_read_def execute_with_receive_stream_def)
  qed
qed

lemma whole_on_device:
  assumes dev: "on_device sid b name handle data w64 w32 ub" and "data \<noteq> []"
  shows "reads (usb_backend virtual_ops) (on_device sid b name handle data w64 w32)
    (usb_download virtual_ops (handle_from_ptp handle) ByteRange.Full (word_of_nat (length data)) ub) data data"
proof -
  let ?st = "transport (ub_session ub)" and ?tx = "transaction_id (ub_session ub)" and ?op = "OperationCode_into OperationCode.GetObject"
  have st: "uploaded ?st sid b name handle data" "vd_session_open ?st" "vd_response_queue ?st = []" "length data < 2 ^ 32"
    "list_all (\<lambda>cap. 0 < cap) (vd_forced_partial_read_caps ?st)"
    using dev by (auto simp: on_device_def Let_def uploaded_def device_place_def idle_session_def idle_device_def)
  obtain p where p: "resolve_path ?st handle = Some p" "fs_read (vd_host ?st) p = Ok data" using uploaded_file [OF st(1)] .
  have res: "resolve_path (count_operation ?op ?st) = resolve_path ?st"
    by (auto simp: fun_eq_iff resolve_path_def)
  let ?st' = "push_response (build_response OK_CODE ?tx []) (push_response (build_data_container ?op ?tx data) (count_operation ?op ?st))"
  have d: "dispatch ?op ?tx [handle] None ?st = (Ok (), ?st')"
    unfolding dispatch_codes(3) [OF st(2)]
    using p res by (simp add: handle_get_object_def param_def send_payload_def respond_def del: OperationCode_into.simps)
  have up: "uploaded ?st' = uploaded ?st" by (rule uploaded_frame) (simp_all add: push_response_def count_operation_def)
  have q: "vd_response_queue ?st' = [build_data_container ?op ?tx data, build_response OK_CODE ?tx []]"
    using st(3) by (simp add: push_response_def)
  have "on_device sid b name handle data w64 w32 (ub\<lparr>ub_session := after (ub_session ub) ?st'\<rparr>)"
    by (rule on_device_after [OF dev]) (use st(1,5) up in \<open>simp_all add: push_response_def count_operation_def\<close>)
  from reads_stream [OF dev _ canonical_codes(3) d q assms(2) _ _ this, of data None]
  have "reads (usb_backend virtual_ops) (on_device sid b name handle data w64 w32)
    (convert (on_session (start_receive_stream virtual_ops OperationCode.GetObject [handle] None) ub)) data data"
    by (simp add: expects_codes)
  moreover have "\<not> 0xFFFFFFFF < (word_of_nat (length data) :: u64)"
    using st(4) by (simp add: word_less_nat_alt unat_of_nat)
  ultimately show ?thesis by (simp add: usb_download_def Let_def execute_with_receive_stream_def)
qed

text \<open>
  The contract of a paced download holds of the backend over the virtual device, for the file and for every interleaving of other
  tasks that leave the file and the session as they are.
\<close>

definition leaves_alone :: "(VirtualDeviceState UsbBackend, 'f) surroundings \<Rightarrow> (VirtualDeviceState UsbBackend \<Rightarrow> bool) \<Rightarrow> bool" where
  "leaves_alone env P \<longleftrightarrow> (\<forall>u. P u \<longrightarrow> P (other_tasks env u))"

definition undisturbed ::
  "(VirtualDeviceState UsbBackend, 'f) surroundings \<Rightarrow> (VirtualDeviceState UsbBackend \<Rightarrow> bool) \<Rightarrow> VirtualDeviceState UsbBackend \<Rightarrow> bool" where
  "undisturbed env P ub \<longleftrightarrow> P ub \<and> leaves_alone env P"

lemma reads_undisturbed: "undisturbed env P ub \<Longrightarrow> reads be P m got want \<Longrightarrow> reads be (undisturbed env P) m got want"
  by (auto simp: reads_def undisturbed_def)

interpretation served: file_reads "usb_backend virtual_ops" env "handle_from_ptp handle" data "reach w64 w32"
  "undisturbed env (on_device sid b name handle data w64 w32)"
proof (unfold_locales, goal_cases)
  case (1 s)
  then show ?case by (simp add: undisturbed_def on_device_def Let_def)
next
  case (2 s)
  then show ?case by (simp add: undisturbed_def leaves_alone_def)
next
  case (3 s off)
  then show ?case
    by (simp add: undisturbed_def on_device_def Let_def can_read_partially_at_def partial_read_def reach_def)
next
  case (4 off off')
  then show ?case by (rule reach_down)
next
  case (5 s off k)
  then have "on_device sid b name handle data w64 w32 s" by (simp add: undisturbed_def)
  from partial_on_device [OF this 5(2,3,4)] show ?case
    unfolding usb_backend_simps usb_download_window_def by (blast intro: reads_undisturbed [OF 5(1)])
next
  case (6 s off n)
  then have dev: "on_device sid b name handle data w64 w32 s" by (simp add: undisturbed_def)
  then have len: "length data < 2 ^ 32" by (simp add: on_device_def Let_def)
  then have size: "unat (word_of_nat (length data) :: u64) = length data" by (simp add: unat_of_nat)
  have n: "unat n < 2 ^ LENGTH(32)" "n \<le> 0xFFFFFFFF" using 6(4) len by (simp_all add: word_le_nat_alt)
  have u: "unat (ucast n :: u32) = unat n" using n(1) by (rule unat_ucast_up)
  have k: "ucast n \<noteq> (0 :: u32)" using 6(3) u by (metis unat_0 word_unat_eq_iff)
  have "min (word_of_nat (length data) - off) n = n"
  proof -
    have "off \<le> word_of_nat (length data)" using 6(4) size by (simp add: word_le_nat_alt)
    then have "unat (word_of_nat (length data) - off) = length data - unat off" by (simp add: unat_sub size)
    then have "n \<le> word_of_nat (length data) - off" using 6(4) by (simp add: word_le_nat_alt)
    then show ?thesis by (rule min_absorb2)
  qed
  moreover have "\<not> (word_of_nat (length data) :: u64) < off" using 6(4) size by (simp add: word_less_nat_alt)
  ultimately have "usb_download virtual_ops (handle_from_ptp handle) (ByteRange.Range off n) (word_of_nat (length data)) s
      = partial_read_stream virtual_ops (handle_from_ptp handle) off (ucast n) s"
    using n(2) by (simp add: usb_download_def Let_def)
  with partial_on_device [OF dev 6(2) k] 6(4) show ?case
    unfolding usb_backend_simps by (auto simp: u intro: reads_undisturbed [OF 6(1)])
next
  case (7 s)
  then have "on_device sid b name handle data w64 w32 s" by (simp add: undisturbed_def)
  from whole_on_device [OF this 7(2)] show ?case
    unfolding usb_backend_simps by (rule reads_undisturbed [OF 7(1)])
qed

section \<open>An upload, then a download\<close>

text \<open>A backend over an idle device with room for the file in a storage's root.\<close>

definition free_place :: "StorageId \<Rightarrow> rstr list \<Rightarrow> rstr \<Rightarrow> VirtualDeviceState UsbBackend \<Rightarrow> bool" where
  "free_place sid b name ub \<longleftrightarrow>
     (let s = ub_session ub; st = transport s in
      idle_session s \<and> \<not> split_header_data s \<and> device_place st sid b name \<and> node_at (vd_host st) (b @ [name]) = None
      \<and> list_all (\<lambda>cap. 0 < cap) (vd_forced_partial_read_caps st)
      \<and> vc_supports_partial_object_64 (vd_config st) = ub_has_partial_object_64 ub
      \<and> vc_supports_partial_object (vd_config st) = ub_has_partial_object ub)"

definition never_breaks :: "progress_fn option \<Rightarrow> bool" where
  "never_breaks progress \<longleftrightarrow> (\<forall>cb i p. progress = Some cb \<longrightarrow> \<not> cb i p)"

lemma progress_stream_Ok:
  "never_breaks progress \<Longrightarrow> progress_stream progress n i sent (map Ok chunks) = map Ok chunks"
  by (induction chunks arbitrary: i sent) (auto simp: Let_def never_breaks_def split: option.split)

lemma upload_on_device:
  assumes "free_place sid b name ub" and info: "info_ok (to_object_info info)" "ObjectInfo_to_bytes (to_object_info info) = Ok wire"
    and "no_filename info = name" "oi_format (to_object_info info) \<noteq> ObjectFormatCode.Association"
    and "no_size info = word_of_nat (length (concat chunks))" "length (concat chunks) < 2 ^ 32 - 13"
    and never: "never_breaks progress"
  shows "\<exists>handle ub'. usb_upload virtual_ops (storage_from_ptp sid) None info (map Ok chunks) progress ub = (Ok (handle_from_ptp handle), ub')
    \<and> on_device sid b name handle (concat chunks) (ub_has_partial_object_64 ub) (ub_has_partial_object ub) ub'"
proof -
  let ?s = "ub_session ub" and ?data = "concat chunks" and ?i = "to_object_info info"
  let ?st = "transport ?s" and ?handle = "vd_next_handle (transport (ub_session ub))"
  have idle: "idle_session ?s" "\<not> split_header_data ?s" and place: "device_place ?st sid b name" "node_at (vd_host ?st) (b @ [name]) = None"
    and caps: "list_all (\<lambda>cap. 0 < cap) (vd_forced_partial_read_caps ?st)"
    and cfg: "vc_supports_partial_object_64 (vd_config ?st) = ub_has_partial_object_64 ub"
      "vc_supports_partial_object (vd_config ?st) = ub_has_partial_object ub"
    using assms(1) by (simp_all add: free_place_def Let_def)
  have queue: "vd_response_queue ?st = []" using idle by (simp add: idle_session_def idle_device_def)
  have parsed: "ObjectInfo_from_bytes wire = Ok (?i\<lparr>oi_handle := 0, oi_size := ucast (size_u32 (oi_size ?i))\<rparr>)"
    using ObjectInfo_unpack_pack [OF info, of "[]"] by simp
  have name: "oi_filename ?i = name" using assms(4) by (simp add: to_object_info_def Let_def)
  from upload_info_on_device [OF place parsed, of "transaction_id ?s"] assms(5) name obtain st1 where
    d1: "dispatch (OperationCode_into OperationCode.SendObjectInfo) (transaction_id ?s) [sid, SEND_ROOT] (Some wire) ?st = (Ok (), st1)"
    and st1: "vd_response_queue st1 = [build_response OK_CODE (transaction_id ?s) [sid, ROOT, ?handle]]"
      "uploaded st1 sid b name ?handle []" "awaits_data st1 sid name ?handle"
      "vd_pending_command st1 = vd_pending_command ?st" "vd_pending_operation_wedge st1 = vd_pending_operation_wedge ?st"
      "vd_config st1 = vd_config ?st" "vd_forced_partial_read_caps st1 = vd_forced_partial_read_caps ?st"
    using queue by auto
  define s1 where "s1 = after ?s st1"
  have s1: "idle_session s1" "\<not> split_header_data s1"
    using idle st1(4,5) by (auto simp: s1_def intro: after_idle simp: idle_session_def idle_device_def)
  have "execute_with_send virtual_ops OperationCode.SendObjectInfo [sid, SEND_ROOT] wire ?s
      = (Ok (response_of OK_CODE (transaction_id ?s) [sid, ROOT, ?handle]), s1)"
    unfolding s1_def
    by (rule execute_with_send_on_device [OF idle(1) _ d1 st1(1)]) (simp_all only: canonical_codes expects_codes length_build_response, simp)
  then have 1: "send_object_info virtual_ops sid SEND_ROOT ?i ?s = (Ok (sid, ROOT, ?handle), s1)"
    by (simp add: send_object_info_def info(2) checked_def check_ok) (simp add: response_of_def index_def)
  from upload_data_on_device [of "transport s1" sid b name ?handle "[]" "transaction_id s1" ?data] st1 obtain st2 where
    d2: "dispatch (OperationCode_into OperationCode.SendObject) (transaction_id s1) [] (Some ?data) (transport s1) = (Ok (), st2)"
    and st2: "vd_response_queue st2 = [build_response OK_CODE (transaction_id s1) []]" "uploaded st2 sid b name ?handle ?data"
      "vd_pending_command st2 = vd_pending_command (transport s1)" "vd_pending_operation_wedge st2 = vd_pending_operation_wedge (transport s1)"
      "vd_config st2 = vd_config ?st" "vd_forced_partial_read_caps st2 = vd_forced_partial_read_caps ?st"
    by (auto simp: s1_def)
  define s2 where "s2 = after s1 st2"
  have s2: "idle_session s2" using s1 st2(3,4) by (auto simp: s2_def intro: after_idle simp: idle_session_def idle_device_def)
  have "execute_with_send virtual_ops OperationCode.SendObject [] ?data s1 = (Ok (response_of OK_CODE (transaction_id s1) []), s2)"
    unfolding s2_def
    by (rule execute_with_send_on_device [OF s1(1) _ d2 st2(1)]) (simp_all only: canonical_codes expects_codes length_build_response, simp)
  moreover have "HEADER_SIZE + length ?data < 2 ^ 32" using assms(7) by (simp add: HEADER_SIZE_def)
  ultimately have 2: "send_object_stream virtual_ops (word_of_nat (length ?data)) (map Ok chunks) s1 = (Ok (), s2)"
    using send_stream_is_send [of virtual_ops s1 chunks OperationCode.SendObject "[]"] s1(2)
    by (simp add: send_object_stream_def checked_def check_ok virtual_ops_def)
  have "on_device sid b name ?handle ?data (ub_has_partial_object_64 ub) (ub_has_partial_object ub) (ub\<lparr>ub_session := s2\<rparr>)"
    using s2 st2(2,5,6) caps cfg assms(7) by (simp add: on_device_def Let_def) (simp add: s2_def)
  with 1 2 progress_stream_Ok [OF never] show ?thesis
    by (intro exI [of _ ?handle] exI [of _ "ub\<lparr>ub_session := s2\<rparr>"]) (simp add: usb_upload_def on_session_def assms(6) Let_def)
qed

text \<open>
  C7: A file comes back through the high-level API, however it is chunked, paced and interleaved. Uploading a stream of
  chunks through the USB backend over an idle virtual device with room for the file succeeds when the file has fewer than 2^32 - 13 bytes and the progress callback never
  breaks; and a download of the object it returns, started with information that tells its size, of
  the whole file or, where the device supports a partial read, of any range that starts inside it, under any pacing, with any activity of other tasks between its transactions
  that leaves the file and the session as they are, and with the device cutting partial reads short as it likes, as long as each returns at least one
  byte, collects exactly the bytes of the range.
\<close>

theorem upload_then_paced_download:
  assumes "free_place sid b (no_filename info) ub" "info_ok (to_object_info info)" "ObjectInfo_to_bytes (to_object_info info) = Ok wire"
    and "oi_format (to_object_info info) \<noteq> ObjectFormatCode.Association"
    and "no_size info = word_of_nat (length (concat chunks))" "length (concat chunks) < 2 ^ 32 - 13"
    and "never_breaks progress"
  shows "\<exists>handle ub1. usb_upload virtual_ops (storage_from_ptp sid) None info (map Ok chunks) progress ub = (Ok (handle_from_ptp handle), ub1)
    \<and> (\<forall>(env :: (VirtualDeviceState UsbBackend, 'f) surroundings) pc rng meta.
         leaves_alone env (on_device sid b (no_filename info) handle (concat chunks) (ub_has_partial_object_64 ub) (ub_has_partial_object ub))
         \<and> mo_size meta = word_of_nat (length (concat chunks)) \<and> unat (range_offset rng) \<le> length (concat chunks)
         \<and> (rng = ByteRange.Full \<or> ub_has_partial_object_64 ub \<or> ub_has_partial_object ub) \<longrightarrow>
         (\<exists>d ub2 ub3. download_start (usb_backend virtual_ops) env (handle_from_ptp handle) meta rng pc ub1 = (Ok d, ub2)
            \<and> download_collect (usb_backend virtual_ops) env d ub2 = Some (Ok (wanted rng (concat chunks)), ub3)))"
proof -
  let ?w64 = "ub_has_partial_object_64 ub" and ?w32 = "ub_has_partial_object ub" and ?data = "concat chunks"
  from upload_on_device [OF assms(1-3) _ assms(4-7)] obtain handle ub1 where
    up: "usb_upload virtual_ops (storage_from_ptp sid) None info (map Ok chunks) progress ub = (Ok (handle_from_ptp handle), ub1)"
    "on_device sid b (no_filename info) handle ?data ?w64 ?w32 ub1" by blast
  have "reach ?w64 ?w32 (word_of_nat (length ?data) - 1)" if "?w64 \<or> ?w32" "?data \<noteq> []"
  proof -
    have "(word_of_nat (length ?data) :: u64) \<noteq> 0" using that(2) assms(6) by (simp add: word_unat_eq_iff unat_of_nat)
    then have "(word_of_nat (length ?data) - 1 :: u64) \<le> 0xFFFFFFFF"
      using assms(6) by (simp add: word_le_nat_alt unat_minus_one unat_of_nat)
    with that(1) show ?thesis by (auto simp: reach_def plan_partial_read_def not_less)
  qed
  moreover have "wanted rng ?data = ?data" if "?data = []" for rng unfolding that by (cases rng) simp_all
  ultimately have all: "wanted rng ?data = ?data \<or> reach ?w64 ?w32 (word_of_nat (length ?data) - 1)"
    if "rng = ByteRange.Full \<or> ?w64 \<or> ?w32" for rng
    using that by (cases "?data = []"; cases "rng = ByteRange.Full") (simp_all del: concat_eq_Nil_conv)
  have "length ?data < 2 ^ 63" using assms(6) by simp
  then have "\<exists>d ub2 ub3. download_start (usb_backend virtual_ops) env (handle_from_ptp handle) meta rng pc ub1 = (Ok d, ub2)
      \<and> download_collect (usb_backend virtual_ops) env d ub2 = Some (Ok (wanted rng ?data), ub3)"
    if "leaves_alone env (on_device sid b (no_filename info) handle ?data ?w64 ?w32)" "mo_size meta = word_of_nat (length ?data)"
      "unat (range_offset rng) \<le> length ?data" "rng = ByteRange.Full \<or> ?w64 \<or> ?w32"
    for env :: "(VirtualDeviceState UsbBackend, 'f) surroundings" and pc rng meta
    using served.download_exact [OF _ that(2,3) all [OF that(4)], of env sid b "no_filename info" handle ub1] up(2) that(1)
    unfolding undisturbed_def by blast
  with up(1) show ?thesis by blast
qed

definition demo_device_info :: DeviceInfo where
  "demo_device_info = \<lparr>di_standard_version = 100, di_vendor_extension_id = 6, di_vendor_extension_version = 100,
     di_vendor_extension_desc = str ''android.com'', di_functional_mode = 0,
     di_operations_supported = [OperationCode.GetObject, OperationCode.GetPartialObject, OperationCode.GetPartialObject64],
     di_events_supported = [], di_device_properties_supported = [], di_capture_formats = [], di_playback_formats = [],
     di_manufacturer = str ''Acme'', di_model = str ''Player'', di_device_version = str ''1'', di_serial_number = str ''7''\<rparr>"

definition demo_backend :: "VirtualDeviceState UsbBackend" where
  "demo_backend = UsbBackend_new demo_session demo_device_info True"

lemma demo_backend_fields:
  "ub_session demo_backend = demo_session" "ub_has_partial_object_64 demo_backend" "ub_has_partial_object demo_backend"
  by (simp_all add: demo_backend_def UsbBackend_new_def demo_device_info_def supports_operation_def)

definition demo_new :: NewObjectInfo where
  "demo_new = \<lparr>no_filename = str ''a.txt'', no_size = 2, no_format = None, no_modified = None\<rparr>"

definition quiet :: "(VirtualDeviceState UsbBackend, nat) surroundings" where
  "quiet = \<lparr>floats = \<lparr>f_of_u64 = unat, f_of_duration = (\<lambda>n. n), f_to_u64 = word_of_nat, f_add = (+), f_mul = (*), f_div = (div),
     f_one = 1, f_two = 2, f_hundred = 100\<rparr>, clock = (\<lambda>ub. 0), other_tasks = (\<lambda>ub. ub)\<rparr>"

lemma demo_new_info: "to_object_info demo_new = demo_info\<lparr>oi_size := 2\<rparr>"
proof -
  have "ObjectFormatCode_from FORMAT_UNDEFINED = ObjectFormatCode.Undefined"
    using objectFormatCode.dec_code [of FORMAT_UNDEFINED ObjectFormatCode.Undefined]
    by (simp add: ObjectFormatCode_codes_def FORMAT_UNDEFINED_def)
  then show ?thesis
    by (simp add: to_object_info_def demo_new_def demo_info_def ObjectInfo_default_def is_association_def FORMAT_UNDEFINED_def
        FORMAT_ASSOCIATION_def)
qed

lemma demo_free: "free_place 0x00010001 [str ''srv'', str ''sdcard''] (str ''a.txt'') demo_backend"
proof -
  have "node_at demo_host [str ''srv'', str ''sdcard'', str ''a.txt''] = None" by code_simp
  with demo_idle demo_place show ?thesis
    by (simp add: free_place_def Let_def demo_backend_fields) (simp add: demo_session_def PtpSession_new_def demo_device_def
        VirtualDeviceState_new_def VirtualDeviceConfig_default_def)
qed

theorem upload_then_paced_download_witness:
  "\<exists>handle ub1 d ub2 ub3.
     usb_upload virtual_ops (storage_from_ptp 0x00010001) None demo_new (map Ok [[72], [105]]) None demo_backend = (Ok handle, ub1)
     \<and> download_start (usb_backend virtual_ops) quiet handle ((object_from_ptp demo_info)\<lparr>mo_size := 2\<rparr>) (ByteRange.From 1)
         (DownloadPacing.FixedWindow 1) ub1 = (Ok d, ub2)
     \<and> download_collect (usb_backend virtual_ops) quiet d ub2 = Some (Ok [105], ub3)"
proof -
  have "info_ok (to_object_info demo_new)" using demo_info_ok(1) by (simp add: demo_new_info info_ok_def)
  moreover obtain wire where "ObjectInfo_to_bytes (to_object_info demo_new) = Ok wire"
    using demo_info_ok(2) by (auto simp: demo_new_info ObjectInfo_to_bytes_def Let_def)
  moreover have "oi_format (to_object_info demo_new) \<noteq> ObjectFormatCode.Association"
    by (simp add: demo_new_info demo_info_def ObjectInfo_default_def)
  moreover have "leaves_alone quiet P" for P by (simp add: leaves_alone_def quiet_def)
  moreover have "no_size demo_new = word_of_nat (length (concat [[72], [105 :: u8]]))" by (simp add: demo_new_def)
  moreover have "length (concat [[72], [105 :: u8]]) < 2 ^ 32 - 13" by simp
  moreover have "never_breaks None" by (simp add: never_breaks_def)
  moreover have "free_place 0x00010001 [str ''srv'', str ''sdcard''] (no_filename demo_new) demo_backend"
    using demo_free by (simp add: demo_new_def)
  ultimately obtain handle ub1 where
    up: "usb_upload virtual_ops (storage_from_ptp 0x00010001) None demo_new (map Ok [[72], [105]]) None demo_backend
      = (Ok (handle_from_ptp handle), ub1)"
    and down: "mo_size meta = word_of_nat (length (concat [[72], [105 :: u8]])) \<Longrightarrow> unat (range_offset rng) \<le> length (concat [[72], [105 :: u8]]) \<Longrightarrow>
      \<exists>d ub2 ub3. download_start (usb_backend virtual_ops) quiet (handle_from_ptp handle) meta rng pc ub1 = (Ok d, ub2)
        \<and> download_collect (usb_backend virtual_ops) quiet d ub2 = Some (Ok (wanted rng (concat [[72], [105]])), ub3)" for meta rng pc
    using upload_then_paced_download [where 'f = nat, of "0x00010001" "[str ''srv'', str ''sdcard'']" demo_new demo_backend wire
        "[[72], [105]]" None] demo_backend_fields(2) by metis
  from down [of "(object_from_ptp demo_info)\<lparr>mo_size := 2\<rparr>" "ByteRange.From 1" "DownloadPacing.FixedWindow 1"] up
  show ?thesis by auto
qed

end
