(* ===== verification/Virtual_Watcher.thy ===== *)
theory Virtual_Watcher
  imports Virtual_Device
begin

text \<open>
  The file watcher of the virtual device, \<open>transport/virtual_device/watcher.rs\<close>: what a notification of the host's file system does
  to the device's state. The notifications themselves come from the \<open>notify\<close> library; an event is its kind and its paths. The
  fields of the device's state that serve the watcher, the pause count and the ring of dropped paths, are added to the state here.
\<close>

section \<open>State and events\<close>

definition DROPPED_PATHS_CAP :: usize where "DROPPED_PATHS_CAP = 1024"

record WatchedDevice =
  wd_device :: VirtualDeviceState
  wd_pause_count :: u32
  wd_dropped_paths :: "PathBuf list"

datatype EventKind = Create | Remove | RenameTo | RenameFrom | RenameAny | OtherEvent

record NotifyEvent =
  ne_kind :: EventKind
  ne_paths :: "PathBuf list"

text \<open>The canonical backing directories with their storages, made when the watcher starts.\<close>

type_synonym StorageMap = "(PathBuf \<times> StorageId) list"

definition storage_map :: "VirtualDeviceState \<Rightarrow> StorageMap" where
  "storage_map st =
     map (\<lambda>ss. (case canonicalize (vd_host st) (backing_dir ss) of Ok q \<Rightarrow> canonical_path q | _ \<Rightarrow> backing_dir ss,
                vss_storage_id ss)) (vd_storages st)"

text \<open>
  Starting the watcher fails when the library cannot be set up; a directory that cannot be watched is passed over. The
  watcher holds the map its notifications are resolved with.
\<close>

definition start_fs_watcher :: "bool \<Rightarrow> VirtualDeviceState \<Rightarrow> StorageMap option" where
  "start_fs_watcher available st = (if available then Some (storage_map st) else None)"

definition find_storage_for_path :: "PathBuf \<Rightarrow> StorageMap \<Rightarrow> (PathBuf \<times> StorageId) option" where
  "find_storage_for_path p m = List.find (\<lambda>(dir, sid). prefix dir p) m"

section \<open>One event\<close>

definition tracked_at :: "StorageId \<Rightarrow> PathBuf \<Rightarrow> VirtualDeviceState \<Rightarrow> (u32 \<times> VirtualObject) option" where
  "tracked_at sid rel st = List.find (\<lambda>(h, obj). vo_storage_id obj = sid \<and> vo_rel_path obj = rel) (vd_objects st)"

definition watch_create :: "StorageId \<Rightarrow> PathBuf \<Rightarrow> VirtualDeviceState \<Rightarrow> VirtualDeviceState" where
  "watch_create sid rel_path st =
     (if tracked_at sid rel_path st \<noteq> None then st
      else
        let parent =
              (case path_parent rel_path of
                 Some parent_rel \<Rightarrow>
                   if parent_rel = [] then ROOT
                   else (case tracked_at sid parent_rel st of Some (h, _) \<Rightarrow> h | None \<Rightarrow> ROOT)
               | None \<Rightarrow> ROOT);
            (handle, st) = alloc_handle st;
            st = insert_object handle \<lparr>vo_rel_path = rel_path, vo_storage_id = sid, vo_parent = parent\<rparr> st
        in push_event (build_event EventCode.StorageInfoChanged [sid])
             (push_event (build_event EventCode.ObjectAdded [handle]) st))"

definition watch_remove :: "StorageId \<Rightarrow> PathBuf \<Rightarrow> VirtualDeviceState \<Rightarrow> VirtualDeviceState" where
  "watch_remove sid rel_path st =
     (case tracked_at sid rel_path st of
        Some (h, _) \<Rightarrow>
          push_event (build_event EventCode.StorageInfoChanged [sid])
            (push_event (build_event EventCode.ObjectRemoved [h]) (st\<lparr>vd_objects := AList.delete h (vd_objects st)\<rparr>))
      | None \<Rightarrow> st)"

definition drop_path :: "PathBuf \<Rightarrow> WatchedDevice \<Rightarrow> WatchedDevice" where
  "drop_path p wd =
     (let ring = wd_dropped_paths wd @ [p] in
      wd\<lparr>wd_dropped_paths := (if length ring > DROPPED_PATHS_CAP then tl ring else ring)\<rparr>)"

text \<open>
  The body of the loop over an event's paths. A path that cannot be canonicalized, such as one that is gone, is taken as it is; a
  rename of unknown direction is a creation when the path exists.
\<close>

definition handle_path :: "StorageMap \<Rightarrow> EventKind \<Rightarrow> PathBuf \<Rightarrow> WatchedDevice \<Rightarrow> WatchedDevice" where
  "handle_path m kind p wd =
     (let h = vd_host (wd_device wd);
          canon = (case canonicalize h p of Ok q \<Rightarrow> canonical_path q | _ \<Rightarrow> p);
          is_create = (if kind = RenameAny then path_exists h p else kind = Create \<or> kind = RenameTo)
      in case find_storage_for_path canon m of
           None \<Rightarrow> wd
         | Some (dir, sid) \<Rightarrow>
             (case strip_prefix canon dir of
                None \<Rightarrow> wd
              | Some rel_path \<Rightarrow>
                  if rel_path = [] then wd
                  else if wd_pause_count wd > 0 then drop_path canon wd
                  else if is_create then wd\<lparr>wd_device := watch_create sid rel_path (wd_device wd)\<rparr>
                  else wd\<lparr>wd_device := watch_remove sid rel_path (wd_device wd)\<rparr>))"

definition handle_notify_event :: "StorageMap \<Rightarrow> NotifyEvent \<Rightarrow> WatchedDevice \<Rightarrow> WatchedDevice" where
  "handle_notify_event m event wd =
     (if ne_kind event = OtherEvent then wd
      else fold (handle_path m (ne_kind event)) (ne_paths event) wd)"

section \<open>What a notification leaves\<close>

text \<open>Every path of a storage is tracked at most once.\<close>

definition place :: "u32 \<times> VirtualObject \<Rightarrow> StorageId \<times> PathBuf" where
  "place e = (vo_storage_id (snd e), vo_rel_path (snd e))"

definition tracked_once :: "VirtualDeviceState \<Rightarrow> bool" where
  "tracked_once st \<longleftrightarrow> distinct (map place (vd_objects st))"

lemma tracked_at_None: "tracked_at sid rel st = None \<longleftrightarrow> (sid, rel) \<notin> place ` set (vd_objects st)"
  unfolding tracked_at_def find_None_iff by (force simp: place_def image_iff)

lemma update_places:
  "distinct (map place xs) \<Longrightarrow> place (k, v) \<notin> place ` set xs \<Longrightarrow> distinct (map place (AList.update k v xs))"
proof (induction xs)
  case (Cons x xs)
  have "place ` set (AList.update k v xs) \<subseteq> insert (place (k, v)) (place ` set xs)"
    using in_set_update by (fastforce simp: image_iff)
  moreover have "place x \<noteq> place (k, v)" "place x \<notin> place ` set xs" using Cons.prems by auto
  ultimately have "place x \<notin> place ` set (AList.update k v xs)" by blast
  with Cons show ?case by (cases x) (auto simp: place_def)
qed simp

lemma create_once:
  assumes "tracked_once st"
  shows "tracked_once (watch_create sid rel st)"
proof (cases "tracked_at sid rel st")
  case None
  then have "place (h, \<lparr>vo_rel_path = rel, vo_storage_id = sid, vo_parent = parent\<rparr>) \<notin> place ` set (vd_objects st)" for h parent
    by (simp add: tracked_at_None place_def)
  with assms have "distinct (map place (AList.update h \<lparr>vo_rel_path = rel, vo_storage_id = sid, vo_parent = parent\<rparr> (vd_objects st)))"
    for h parent unfolding tracked_once_def by (rule update_places)
  then show ?thesis
    using None by (simp add: watch_create_def tracked_once_def alloc_handle_def insert_object_def push_event_def Let_def)
qed (use assms in \<open>simp add: watch_create_def\<close>)

lemma remove_once: "tracked_once st \<Longrightarrow> tracked_once (watch_remove sid rel st)"
  by (auto simp: watch_remove_def tracked_once_def push_event_def AList.delete_eq intro: distinct_map_filter split: option.splits)

lemma handled_once: "tracked_once (wd_device wd) \<Longrightarrow> tracked_once (wd_device (handle_path m kind p wd))"
  by (auto simp: handle_path_def Let_def drop_path_def create_once remove_once split: option.splits)

lemma handled_ring:
  "length (wd_dropped_paths wd) \<le> DROPPED_PATHS_CAP \<Longrightarrow> length (wd_dropped_paths (handle_path m kind p wd)) \<le> DROPPED_PATHS_CAP"
  by (auto simp: handle_path_def Let_def drop_path_def split: option.splits)

lemma handled_paused: "wd_pause_count (handle_path m kind p wd) = wd_pause_count wd"
  "wd_pause_count wd > 0 \<Longrightarrow> wd_device (handle_path m kind p wd) = wd_device wd"
  by (auto simp: handle_path_def Let_def drop_path_def split: option.splits)

lemma handled_host: "vd_host (wd_device (handle_path m kind p wd)) = vd_host (wd_device wd)"
  by (auto simp: handle_path_def Let_def drop_path_def watch_create_def watch_remove_def alloc_handle_def insert_object_def push_event_def
      split: option.splits)

text \<open>A map made when the storages were the device's.\<close>

definition serves_map :: "StorageMap \<Rightarrow> VirtualDeviceState \<Rightarrow> bool" where
  "serves_map m st \<longleftrightarrow> (\<forall>(dir, sid) \<in> set m. dir \<noteq> [] \<and> find_storage st sid \<noteq> None)"

lemma storage_map_serves:
  assumes "vd_storages st0 = vd_storages st" "distinct (map vss_storage_id (vd_storages st))" "\<forall>s\<in>set (vd_storages st). backing_dir s \<noteq> []"
  shows "serves_map (storage_map st0) st"
  using assms find_storage_distinct
  by (auto simp: serves_map_def storage_map_def canonical_path_def split: outcome.splits)

lemma found_storage:
  assumes "serves_map m st" "find_storage_for_path canon m = Some (dir, sid)" "strip_prefix canon dir = Some rel" "canon = canonical_path names"
  shows "find_storage st sid \<noteq> None" "\<exists>rest. rel = map Normal rest"
proof -
  have "(dir, sid) \<in> set m" using assms(2) by (auto simp: find_storage_for_path_def find_Some_iff) (metis nth_mem)
  then have m: "dir \<noteq> []" "find_storage st sid \<noteq> None" using assms(1) by (auto simp: serves_map_def)
  show "find_storage st sid \<noteq> None" by (rule m(2))
  from m(1) assms(3,4) show "\<exists>rest. rel = map Normal rest"
    by (cases dir) (auto simp: strip_prefix_def canonical_path_def drop_map split: if_splits)
qed

lemma create_keeps:
  assumes "keeps st st1" "find_storage st sid \<noteq> None" "rel = map Normal rest" "rel \<noteq> []"
  shows "keeps st (watch_create sid rel st1)"
proof -
  obtain s where s: "find_storage st sid = Some s" using assms(2) by blast
  have "object_ok st \<lparr>vo_rel_path = rel, vo_storage_id = sid, vo_parent = parent\<rparr>" for parent
    using s assms(3,4) by (simp add: object_ok_def file_name_def last_map)
  with assms(1) show ?thesis
    by (simp add: watch_create_def alloc_handle_def Let_def keeps_insert)
qed

lemma remove_keeps: "keeps st st1 \<Longrightarrow> keeps st (watch_remove sid rel st1)"
  by (auto simp: watch_remove_def AList.delete_eq split: option.splits)

lemma handled_keeps:
  assumes "keeps st (wd_device wd)" "serves_map m st" "\<exists>names. p = canonical_path names"
  shows "keeps st (wd_device (handle_path m kind p wd))"
proof -
  let ?canon = "case canonicalize (vd_host (wd_device wd)) p of Ok q \<Rightarrow> canonical_path q | _ \<Rightarrow> p"
  obtain names where names: "?canon = canonical_path names"
    using assms(3) by (cases "canonicalize (vd_host (wd_device wd)) p") auto
  show ?thesis
  proof (cases "find_storage_for_path ?canon m")
    case (Some ds)
    obtain dir sid where ds: "ds = (dir, sid)" by fastforce
    show ?thesis
    proof (cases "strip_prefix ?canon dir")
      case (Some rel)
      note f = found_storage [OF assms(2) _ Some names, of sid]
      then show ?thesis
        using \<open>find_storage_for_path ?canon m = Some ds\<close> ds Some create_keeps [OF assms(1), of sid rel] remove_keeps [OF assms(1)] assms(1)
        by (auto simp: handle_path_def Let_def drop_path_def)
    qed (use Some ds assms(1) in \<open>simp add: handle_path_def Let_def\<close>)
  qed (use assms(1) in \<open>simp add: handle_path_def Let_def\<close>)
qed

text \<open>What the device announces is what it tracks anew or no longer.\<close>

lemma create_announced: "vd_event_queue (watch_create sid rel st) = vd_event_queue st \<longleftrightarrow> vd_objects (watch_create sid rel st) = vd_objects st"
proof (cases "tracked_at sid rel st")
  case None
  have "AList.update h \<lparr>vo_rel_path = rel, vo_storage_id = sid, vo_parent = parent\<rparr> (vd_objects st) \<noteq> vd_objects st" for h parent
  proof
    let ?obj = "\<lparr>vo_rel_path = rel, vo_storage_id = sid, vo_parent = parent\<rparr>"
    assume *: "AList.update h ?obj (vd_objects st) = vd_objects st"
    have "map_of (AList.update h ?obj (vd_objects st)) h = Some ?obj" by (simp add: update_conv')
    then have "(h, ?obj) \<in> set (vd_objects st)" unfolding * by (rule map_of_SomeD)
    with None show False by (force simp: tracked_at_None place_def image_iff)
  qed
  with None show ?thesis by (simp add: watch_create_def alloc_handle_def insert_object_def push_event_def Let_def)
qed (simp add: watch_create_def)

lemma remove_announced: "vd_event_queue (watch_remove sid rel st) = vd_event_queue st \<longleftrightarrow> vd_objects (watch_remove sid rel st) = vd_objects st"
proof (cases "tracked_at sid rel st")
  case (Some e)
  obtain h obj where e: "e = (h, obj)" by fastforce
  have "(h, obj) \<in> set (vd_objects st)"
    using Some e by (auto simp: tracked_at_def find_Some_iff) (metis nth_mem)
  moreover have "(h, obj) \<notin> set (AList.delete h (vd_objects st))" by (simp add: AList.delete_eq)
  ultimately have "AList.delete h (vd_objects st) \<noteq> vd_objects st" by metis
  with Some e show ?thesis by (simp add: watch_remove_def push_event_def)
qed (simp add: watch_remove_def)

lemma handled_announced:
  "vd_event_queue (wd_device (handle_path m kind p wd)) = vd_event_queue (wd_device wd) \<longleftrightarrow>
     vd_objects (wd_device (handle_path m kind p wd)) = vd_objects (wd_device wd)"
  by (simp add: handle_path_def Let_def drop_path_def create_announced remove_announced split: option.splits)


text \<open>A file written to the demonstration device's directory, behind its back.\<close>

definition demo_watched :: WatchedDevice where
  "demo_watched = \<lparr>wd_device = demo_device, wd_pause_count = 0, wd_dropped_paths = []\<rparr>"

definition demo_event :: NotifyEvent where
  "demo_event = \<lparr>ne_kind = Create, ne_paths = [canonical_path [str ''srv'', str ''sdcard'', str ''b.txt'']]\<rparr>"

lemma demo_places:
  "canonicalize demo_host (vs_backing_dir demo_storage) = Ok [str ''srv'', str ''sdcard'']"
  "canonicalize demo_host (canonical_path [str ''srv'', str ''sdcard'']) = Ok [str ''srv'', str ''sdcard'']"
  "canonicalize demo_host (canonical_path [str ''srv'', str ''sdcard'', str ''b.txt'']) = Ok [str ''srv'', str ''sdcard'', str ''b.txt'']"
  by code_simp+

lemma demo_device_storage:
  "vd_storages demo_device =
     [\<lparr>vss_config = demo_storage\<lparr>vs_backing_dir := canonical_path [str ''srv'', str ''sdcard'']\<rparr>, vss_storage_id = 0x00010001\<rparr>]"
  "vd_host demo_device = demo_host" "vd_objects demo_device = []"
  by (simp_all add: demo_device_def VirtualDeviceState_new_def resolve_storage_def demo_places(1) List.enumerate_Suc_eq)

lemma demo_map: "storage_map demo_device = [(canonical_path [str ''srv'', str ''sdcard''], 0x00010001)]"
  by (simp add: storage_map_def demo_device_storage backing_dir_def demo_places(2))

lemma demo_handled:
  "handle_notify_event (storage_map demo_device) demo_event demo_watched =
     demo_watched\<lparr>wd_device := watch_create 0x00010001 [Normal (str ''b.txt'')] demo_device\<rparr>"
  by (simp add: handle_notify_event_def demo_event_def handle_path_def demo_watched_def demo_device_storage
      demo_places(3) [unfolded canonical_path_def, simplified] demo_map find_storage_for_path_def canonical_path_def strip_prefix_def)


end
