(* ===== verification/Usb_Transport.thy ===== *)
theory Usb_Transport
  imports Transport
begin

text \<open>
  The USB transport of \<open>transport/nusb.rs\<close>: which devices count as MTP, how one is opened, and the bulk, interrupt and
  cancellation calls. The library \<open>nusb\<close> and the bus behind it are a parameter, a record of the calls the code makes over
  a state \<open>'u\<close> that holds the claimed interface and its three endpoints. A loop that reads until the device falls silent may
  never end, so those calls have an option as their value. Durations are milliseconds.
\<close>

section \<open>The USB library\<close>

datatype pipe = BulkIn | BulkOut | InterruptIn

datatype TransferError = Cancelled | Stall | Disconnected | Fault | InvalidArgument | Unknown u32

text \<open>A completed transfer; \<open>co_status\<close> is \<open>None\<close> for \<open>Ok(())\<close>.\<close>

record completion =
  co_status :: "TransferError option"
  co_buffer :: bytes
  co_actual_len :: usize

text \<open>What a wait raced against a timer resolves to; an abandoned one is the caller's future dropped while it waits.\<close>

datatype waited = Completed completion | Elapsed | Abandoned

text \<open>
  \<open>nu_next_complete\<close> waits without a limit (\<open>None\<close>: the caller's future is dropped), \<open>nu_select\<close> is the same wait raced with
  \<open>Delay\<close>, and \<open>nu_wait_next_complete\<close> and \<open>nu_transfer_blocking\<close> are the blocking calls of the OUT endpoint.
  \<open>nu_allocate\<close> gives the capacity of the buffer allocated for a size. The address and the packet size of an endpoint are
  fixed by its descriptor. \<open>nu_macos\<close> is the target the crate is built for.
\<close>

record 'u nusb =
  nu_macos :: bool
  nu_error_text :: "TransferError \<Rightarrow> string"
  nu_address :: "pipe \<Rightarrow> u8"
  nu_max_packet_size :: "pipe \<Rightarrow> usize"
  nu_pending :: "pipe \<Rightarrow> 'u \<Rightarrow> usize"
  nu_allocate :: "usize \<Rightarrow> 'u \<Rightarrow> usize"
  nu_submit_in :: "pipe \<Rightarrow> usize \<Rightarrow> 'u \<Rightarrow> 'u"
  nu_submit_out :: "bytes \<Rightarrow> 'u \<Rightarrow> 'u"
  nu_next_complete :: "pipe \<Rightarrow> 'u \<Rightarrow> completion option \<times> 'u"
  nu_select :: "pipe \<Rightarrow> nat \<Rightarrow> 'u \<Rightarrow> waited \<times> 'u"
  nu_wait_next_complete :: "nat \<Rightarrow> 'u \<Rightarrow> completion option \<times> 'u"
  nu_transfer_blocking :: "bytes \<Rightarrow> nat \<Rightarrow> 'u \<Rightarrow> completion \<times> 'u"
  nu_cancel_all :: "pipe \<Rightarrow> 'u \<Rightarrow> 'u"
  nu_clear_halt :: "pipe \<Rightarrow> 'u \<Rightarrow> 'u"
  nu_control_out :: "u8 \<Rightarrow> u16 \<Rightarrow> bytes \<Rightarrow> nat \<Rightarrow> 'u \<Rightarrow> (unit, TransferError) outcome \<times> 'u"
  nu_control_in :: "u8 \<Rightarrow> u16 \<Rightarrow> usize \<Rightarrow> nat \<Rightarrow> 'u \<Rightarrow> (bytes, TransferError) outcome \<times> 'u"
  nu_delay :: "nat \<Rightarrow> 'u \<Rightarrow> unit res \<times> 'u"
  nu_now :: "'u \<Rightarrow> nat \<times> 'u"

section \<open>Constants and the status of a device\<close>

definition MTP_CLASS_IMAGE :: u8 where "MTP_CLASS_IMAGE = 0x06"
definition MTP_CLASS_VENDOR :: u8 where "MTP_CLASS_VENDOR = 0xFF"
definition MTP_SUBCLASS :: u8 where "MTP_SUBCLASS = 0x01"
definition MTP_PROTOCOL :: u8 where "MTP_PROTOCOL = 0x01"
definition SIC_CANCEL_REQUEST :: u8 where "SIC_CANCEL_REQUEST = 0x64"
definition SIC_CANCEL_EVENT_CODE :: u16 where "SIC_CANCEL_EVENT_CODE = 0x4001"
definition SIC_DEVICE_RESET_REQUEST :: u8 where "SIC_DEVICE_RESET_REQUEST = 0x66"
definition SIC_GET_DEVICE_STATUS_REQUEST :: u8 where "SIC_GET_DEVICE_STATUS_REQUEST = 0x67"
definition SIC_STATUS_DEVICE_BUSY :: u16 where "SIC_STATUS_DEVICE_BUSY = 0x2019"
definition DEFAULT_TIMEOUT :: nat where "DEFAULT_TIMEOUT = 30000"
definition INTERRUPT_BUFFER_SIZE :: usize where "INTERRUPT_BUFFER_SIZE = 64"
definition REFUSED_CANCEL_DRAIN_READ :: usize where "REFUSED_CANCEL_DRAIN_READ = 64 * 1024"
definition IO_RETURN_NOT_RESPONDING :: u32 where "IO_RETURN_NOT_RESPONDING = 0xe00002ed"
definition IO_RETURN_NOT_OPEN :: u32 where "IO_RETURN_NOT_OPEN = 0xe00002cd"

text \<open>The loop over the parameters of a status: the low byte of each whole 32-bit one.\<close>

fun status_endpoints :: "bytes \<Rightarrow> u8 list" where
  "status_endpoints (a # b # c # d # rest) = a # status_endpoints rest"
| "status_endpoints _ = []"

definition parse_device_status :: "bytes \<Rightarrow> (u16 \<times> u8 list) option" where
  "parse_device_status bs =
     (if length bs < 4 then None
      else let wlength = le_nat (take 2 bs);
               code = from_le_bytes (take 2 (drop 2 bs));
               upto = min (length bs) wlength
           in Some (code, status_endpoints (drop 4 (take upto bs))))"

section \<open>Errors of a transfer\<close>

definition is_disconnect :: "'u nusb \<Rightarrow> TransferError \<Rightarrow> bool" where
  "is_disconnect nb err \<longleftrightarrow>
     (case err of
        TransferError.Disconnected \<Rightarrow> True
      | TransferError.Unknown code \<Rightarrow> nu_macos nb \<and> (code = IO_RETURN_NOT_RESPONDING \<or> code = IO_RETURN_NOT_OPEN)
      | _ \<Rightarrow> False)"

definition convert_transfer_error :: "'u nusb \<Rightarrow> TransferError \<Rightarrow> PtpError" where
  "convert_transfer_error nb err =
     (if is_disconnect nb err then PtpError.Disconnected
      else case err of
          TransferError.Cancelled \<Rightarrow> PtpError.Timeout
        | TransferError.Disconnected \<Rightarrow> PtpError.Disconnected
        | _ \<Rightarrow> PtpError.Io IoKind.Other (nu_error_text nb err))"

text \<open>\<open>map_err(Self::convert_transfer_error)\<close> on the outcome of a control request.\<close>

fun convert :: "'u nusb \<Rightarrow> ('a, TransferError) outcome \<Rightarrow> 'a res" where
  "convert nb (Ok x) = Ok x"
| "convert nb (Err e) = Err (convert_transfer_error nb e)"
| "convert nb Panic = Panic"
| "convert nb Dropped = Dropped"

definition clear_halt_if_stalled :: "'u nusb \<Rightarrow> pipe \<Rightarrow> TransferError \<Rightarrow> 'u \<Rightarrow> PtpError \<times> 'u" where
  "clear_halt_if_stalled nb p err u =
     (convert_transfer_error nb err, if err = TransferError.Stall then nu_clear_halt nb p u else u)"

fun cancel_was_not_acted_on :: "'u nusb \<Rightarrow> (unit, TransferError) outcome \<Rightarrow> bool res" where
  "cancel_was_not_acted_on nb (Ok _) = Ok False"
| "cancel_was_not_acted_on nb (Err e) =
     (if e = TransferError.Stall \<or> e = TransferError.Cancelled then Ok True else Err (convert_transfer_error nb e))"
| "cancel_was_not_acted_on nb Panic = Panic"
| "cancel_was_not_acted_on nb Dropped = Dropped"

section \<open>Sizes and containers\<close>

definition align_to_packet_size :: "usize \<Rightarrow> usize \<Rightarrow> usize" where
  "align_to_packet_size n packet_size =
     (if packet_size = 0 then max n 1
      else if n = 0 then packet_size
      else if n mod packet_size = 0 then n
      else (n div packet_size + 1) * packet_size)"

definition is_response_container :: "bytes \<Rightarrow> usize \<Rightarrow> bool" where
  "is_response_container read requested =
     (if length read < 12 \<or> length read \<ge> requested then False
      else le_nat (take 4 read) = length read \<and> le_nat (take 2 (drop 4 read)) = 3)"

section \<open>Pending transfers\<close>

text \<open>\<open>while ep.pending() > 0 { let _ = ep.next_complete().await; }\<close>\<close>

partial_function (option) drain_pending :: "'u nusb \<Rightarrow> pipe \<Rightarrow> 'u \<Rightarrow> (unit res \<times> 'u) option" where
  "drain_pending nb p u =
     (if nu_pending nb p u > 0
      then (case nu_next_complete nb p u of
              (Some c, u) \<Rightarrow> drain_pending nb p u
            | (None, u) \<Rightarrow> Some (Dropped, u))
      else Some (Ok (), u))"

definition abandon_pending :: "'u nusb \<Rightarrow> pipe \<Rightarrow> 'u \<Rightarrow> (unit res \<times> 'u) option" where
  "abandon_pending nb p u = drain_pending nb p (nu_cancel_all nb p u)"

text \<open>Consume what is pending on an endpoint, then clear its halt.\<close>

definition resync :: "'u nusb \<Rightarrow> pipe \<Rightarrow> 'u \<Rightarrow> (unit res \<times> 'u) option" where
  "resync nb p u =
     then_opt (if nu_pending nb p u > 0 then abandon_pending nb p u else Some (Ok (), u))
       (\<lambda>_ u. Some (Ok (), nu_clear_halt nb p u))"

definition clear_bulk_halt_by_address :: "'u nusb \<Rightarrow> u8 \<Rightarrow> 'u \<Rightarrow> (unit res \<times> 'u) option" where
  "clear_bulk_halt_by_address nb address u =
     (if nu_address nb BulkIn = address then resync nb BulkIn u
      else if nu_address nb BulkOut = address then resync nb BulkOut u
      else Some (Ok (), u))"

text \<open>A read on an IN endpoint is submitted only when none is in flight.\<close>

definition submit_if_idle :: "'u nusb \<Rightarrow> pipe \<Rightarrow> usize \<Rightarrow> 'u \<Rightarrow> 'u" where
  "submit_if_idle nb p n u = (if nu_pending nb p u = 0 then nu_submit_in nb p n u else u)"

text \<open>\<open>comp.buffer[..comp.actual_len]\<close>\<close>

definition completed_bytes :: "completion \<Rightarrow> bytes res" where
  "completed_bytes c = slice (co_buffer c) 0 (co_actual_len c)"

section \<open>The transport's state\<close>

text \<open>The endpoints and the interface behind their locks are the bus state.\<close>

record NusbTransport =
  nt_interface_number :: u8
  nt_timeout :: nat
  nt_drain_on_cancel :: bool

definition set_timeout :: "nat \<Rightarrow> NusbTransport \<Rightarrow> NusbTransport" where
  "set_timeout timeout nt = nt\<lparr>nt_timeout := timeout\<rparr>"

definition nusb_set_drain_on_cancel :: "bool \<Rightarrow> NusbTransport \<Rightarrow> NusbTransport" where
  "nusb_set_drain_on_cancel enabled nt = nt\<lparr>nt_drain_on_cancel := enabled\<rparr>"

section \<open>Sending\<close>

definition nusb_send_bulk :: "'u nusb \<Rightarrow> NusbTransport \<Rightarrow> bytes \<Rightarrow> 'u \<Rightarrow> unit res \<times> 'u" where
  "nusb_send_bulk nb nt bs u =
     (case nu_transfer_blocking nb bs (nt_timeout nt) u of
        (c, u) \<Rightarrow>
          (case co_status c of
             Some e \<Rightarrow> (case clear_halt_if_stalled nb BulkOut e u of (err, u) \<Rightarrow> (Err err, u))
           | None \<Rightarrow> (Ok (), u)))"

text \<open>Submit one OUT buffer and wait for the next completion of the endpoint.\<close>

definition submit_and_wait :: "'u nusb \<Rightarrow> NusbTransport \<Rightarrow> bytes \<Rightarrow> 'u \<Rightarrow> unit res \<times> 'u" where
  "submit_and_wait nb nt buf u =
     (case nu_wait_next_complete nb (nt_timeout nt) (nu_submit_out nb buf u) of
        (None, u) \<Rightarrow> (Err PtpError.Timeout, u)
      | (Some c, u) \<Rightarrow>
          (case co_status c of
             Some e \<Rightarrow> (case clear_halt_if_stalled nb BulkOut e u of (err, u) \<Rightarrow> (Err err, u))
           | None \<Rightarrow> (Ok (), u)))"

text \<open>The buffer being filled with its capacity, and the bytes sent so far.\<close>

type_synonym filling = "bytes \<times> usize \<times> usize"

partial_function (option) push_chunk ::
  "'u nusb \<Rightarrow> NusbTransport \<Rightarrow> usize \<Rightarrow> bytes \<Rightarrow> filling \<Rightarrow> 'u \<Rightarrow> (filling res \<times> 'u) option" where
  "push_chunk nb nt transfer_size remaining st u =
     (case st of (cur, cap, total_sent) \<Rightarrow>
        if remaining = [] then Some (Ok (cur, cap, total_sent), u)
        else
          let to_copy = min (length remaining) (cap - length cur);
              cur = cur @ take to_copy remaining;
              remaining = drop to_copy remaining
          in if cap - length cur = 0
             then seq_opt (submit_and_wait nb nt cur u) (\<lambda>_ u.
               push_chunk nb nt transfer_size remaining ([], nu_allocate nb transfer_size u, total_sent + transfer_size) u)
             else push_chunk nb nt transfer_size remaining (cur, cap, total_sent) u)"

fun push_chunks ::
  "'u nusb \<Rightarrow> NusbTransport \<Rightarrow> usize \<Rightarrow> chunk_result list \<Rightarrow> filling \<Rightarrow> 'u \<Rightarrow> (filling res \<times> 'u) option" where
  "push_chunks nb nt transfer_size [] st u = Some (Ok st, u)"
| "push_chunks nb nt transfer_size (Ok chunk # rest) st u =
     then_opt (push_chunk nb nt transfer_size chunk st u) (\<lambda>st u. push_chunks nb nt transfer_size rest st u)"
| "push_chunks nb nt transfer_size (Err (kind, txt) # rest) st u = Some (Err (PtpError.Io kind txt), u)"
| "push_chunks nb nt transfer_size (Panic # rest) st u = Some (Panic, u)"
| "push_chunks nb nt transfer_size (Dropped # rest) st u = Some (Dropped, u)"

text \<open>The size of a USB transfer: 256 KiB rounded up to whole packets; \<open>div_ceil(0)\<close> panics.\<close>

definition streaming_transfer_size :: "usize \<Rightarrow> usize res" where
  "streaming_transfer_size max_packet_size =
     (if max_packet_size = 0 then Panic
      else let n = 256 * 1024 in Ok (max ((n + max_packet_size - 1) div max_packet_size) 1 * max_packet_size))"

text \<open>The remaining data, then a zero-length packet where the transfer would otherwise end on a full packet.\<close>

definition send_rest :: "'u nusb \<Rightarrow> NusbTransport \<Rightarrow> usize \<Rightarrow> filling \<Rightarrow> 'u \<Rightarrow> unit res \<times> 'u" where
  "send_rest nb nt max_packet_size st u =
     (case st of (cur, cap, total_sent) \<Rightarrow>
        if length cur > 0
        then seq_ok (submit_and_wait nb nt cur u) (\<lambda>_ u.
          if length cur mod max_packet_size = 0 then submit_and_wait nb nt [] u else (Ok (), u))
        else if total_sent > 0 \<and> total_sent mod max_packet_size = 0 then submit_and_wait nb nt [] u
        else (Ok (), u))"

definition nusb_send_bulk_streaming ::
  "'u nusb \<Rightarrow> NusbTransport \<Rightarrow> chunk_result list \<Rightarrow> 'u \<Rightarrow> (unit res \<times> 'u) option" where
  "nusb_send_bulk_streaming nb nt chunks u =
     (let max_packet_size = nu_max_packet_size nb BulkOut in
      seq_opt (streaming_transfer_size max_packet_size, u) (\<lambda>transfer_size u.
        then_opt (push_chunks nb nt transfer_size chunks ([], nu_allocate nb transfer_size u, 0) u)
          (\<lambda>st u. Some (send_rest nb nt max_packet_size st u))))"

section \<open>Receiving\<close>

definition nusb_receive_bulk :: "'u nusb \<Rightarrow> NusbTransport \<Rightarrow> usize \<Rightarrow> 'u \<Rightarrow> bytes res \<times> 'u" where
  "nusb_receive_bulk nb nt max_size u =
     (let u = submit_if_idle nb BulkIn (align_to_packet_size max_size (nu_max_packet_size nb BulkIn)) u in
      case nu_select nb BulkIn (nt_timeout nt) u of
        (Completed c, u) \<Rightarrow>
          (case co_status c of
             Some e \<Rightarrow> (case clear_halt_if_stalled nb BulkIn e u of (err, u) \<Rightarrow> (Err err, u))
           | None \<Rightarrow> (completed_bytes c, u))
      | (Elapsed, u) \<Rightarrow> (Err PtpError.Timeout, u)
      | (Abandoned, u) \<Rightarrow> (Dropped, u))"

definition interrupt_read_size :: "'u nusb \<Rightarrow> usize" where
  "interrupt_read_size nb = align_to_packet_size INTERRUPT_BUFFER_SIZE (nu_max_packet_size nb InterruptIn)"

definition nusb_receive_interrupt :: "'u nusb \<Rightarrow> 'u \<Rightarrow> bytes res \<times> 'u" where
  "nusb_receive_interrupt nb u =
     (let u = submit_if_idle nb InterruptIn (interrupt_read_size nb) u in
      case nu_next_complete nb InterruptIn u of
        (Some c, u) \<Rightarrow>
          (case co_status c of
             Some e \<Rightarrow> (case clear_halt_if_stalled nb InterruptIn e u of (err, u) \<Rightarrow> (Err err, u))
           | None \<Rightarrow> (completed_bytes c, u))
      | (None, u) \<Rightarrow> (Dropped, u))"

section \<open>Settling after a cancel\<close>

fun clear_halts :: "'u nusb \<Rightarrow> u8 list \<Rightarrow> 'u \<Rightarrow> (unit res \<times> 'u) option" where
  "clear_halts nb [] u = Some (Ok (), u)"
| "clear_halts nb (address # rest) u =
     then_opt (clear_bulk_halt_by_address nb address u) (\<lambda>_ u. clear_halts nb rest u)"

definition get_device_status :: "'u nusb \<Rightarrow> NusbTransport \<Rightarrow> 'u \<Rightarrow> (bytes, TransferError) outcome \<times> 'u" where
  "get_device_status nb nt =
     nu_control_in nb SIC_GET_DEVICE_STATUS_REQUEST (ucast (nt_interface_number nt)) 64 300"

text \<open>The polls still to make; the value is whether the device is wedged.\<close>

fun settle_polls :: "'u nusb \<Rightarrow> NusbTransport \<Rightarrow> nat \<Rightarrow> 'u \<Rightarrow> (bool res \<times> 'u) option" where
  "settle_polls nb nt 0 u = Some (Ok False, u)"
| "settle_polls nb nt (Suc polls) u =
     (case get_device_status nb nt u of
        (Err e, u) \<Rightarrow> Some (Ok (e = TransferError.Cancelled), u)
      | (Panic, u) \<Rightarrow> Some (Panic, u)
      | (Dropped, u) \<Rightarrow> Some (Dropped, u)
      | (Ok bs, u) \<Rightarrow>
          (case parse_device_status bs of
             None \<Rightarrow> Some (Ok False, u)
           | Some (code, stalled_endpoints) \<Rightarrow>
               then_opt (clear_halts nb stalled_endpoints u) (\<lambda>_ u.
                 if code \<noteq> SIC_STATUS_DEVICE_BUSY then Some (Ok False, u)
                 else seq_opt (nu_delay nb 50 u) (\<lambda>_ u. settle_polls nb nt polls u))))"

definition settle_after_cancel :: "'u nusb \<Rightarrow> NusbTransport \<Rightarrow> 'u \<Rightarrow> (bool res \<times> 'u) option" where
  "settle_after_cancel nb nt = settle_polls nb nt 100"

section \<open>Resetting the device\<close>

text \<open>The loop that drains stale bulk IN data until a read fails or the pipe is quiet for 300 ms.\<close>

partial_function (option) reset_drain :: "'u nusb \<Rightarrow> usize \<Rightarrow> 'u \<Rightarrow> (unit res \<times> 'u) option" where
  "reset_drain nb max_packet_size u =
     (case nu_select nb BulkIn 300
             (submit_if_idle nb BulkIn (align_to_packet_size max_packet_size max_packet_size) u) of
        (Abandoned, u) \<Rightarrow> Some (Dropped, u)
      | (Elapsed, u) \<Rightarrow> abandon_pending nb BulkIn u
      | (Completed c, u) \<Rightarrow>
          if co_status c = None then reset_drain nb max_packet_size u else abandon_pending nb BulkIn u)"

definition nusb_reset_device :: "'u nusb \<Rightarrow> NusbTransport \<Rightarrow> 'u \<Rightarrow> (unit res \<times> 'u) option" where
  "nusb_reset_device nb nt u =
     seq_opt
       (case nu_control_out nb SIC_DEVICE_RESET_REQUEST (ucast (nt_interface_number nt)) [] 1000 u of
          (r, u) \<Rightarrow> (convert nb r, u))
       (\<lambda>_ u.
     then_opt (resync nb BulkOut u) (\<lambda>_ u.
     then_opt (resync nb BulkIn u) (\<lambda>_ u.
       reset_drain nb (nu_max_packet_size nb BulkIn) u)))"

section \<open>Cancelling a transfer\<close>

definition cancel_payload :: "u32 \<Rightarrow> bytes" where
  "cancel_payload transaction_id = to_le_bytes 2 SIC_CANCEL_EVENT_CODE @ to_le_bytes 4 transaction_id"

text \<open>Step 1: whether the rest of the transfer has to be read.\<close>

definition request_cancel :: "'u nusb \<Rightarrow> NusbTransport \<Rightarrow> u32 \<Rightarrow> 'u \<Rightarrow> bool res \<times> 'u" where
  "request_cancel nb nt transaction_id u =
     (if nt_drain_on_cancel nt then (Ok True, u)
      else case nu_control_out nb SIC_CANCEL_REQUEST (ucast (nt_interface_number nt)) (cancel_payload transaction_id) 300 u of
          (r, u) \<Rightarrow> (cancel_was_not_acted_on nb r, u))"

text \<open>Step 2: drain the bulk IN pipe.\<close>

partial_function (option) cancel_drain :: "'u nusb \<Rightarrow> nat \<Rightarrow> usize \<Rightarrow> 'u \<Rightarrow> (unit res \<times> 'u) option" where
  "cancel_drain nb idle_timeout read_size u =
     (case nu_select nb BulkIn idle_timeout (submit_if_idle nb BulkIn read_size u) of
        (Abandoned, u) \<Rightarrow> Some (Dropped, u)
      | (Elapsed, u) \<Rightarrow> abandon_pending nb BulkIn u
      | (Completed c, u) \<Rightarrow>
          (case co_status c of
             Some e \<Rightarrow>
               if is_disconnect nb e then Some (Err PtpError.Disconnected, u) else abandon_pending nb BulkIn u
           | None \<Rightarrow>
               seq_opt (completed_bytes c, u) (\<lambda>read u.
                 if is_response_container read read_size then abandon_pending nb BulkIn u
                 else cancel_drain nb idle_timeout read_size u)))"

definition cancel_read_size :: "bool \<Rightarrow> usize \<Rightarrow> usize" where
  "cancel_read_size refused max_packet_size =
     (if refused then align_to_packet_size REFUSED_CANCEL_DRAIN_READ max_packet_size
      else align_to_packet_size max_packet_size max_packet_size)"

text \<open>Step 3: drain the interrupt pipe.\<close>

definition cancel_interrupt :: "'u nusb \<Rightarrow> nat \<Rightarrow> 'u \<Rightarrow> (unit res \<times> 'u) option" where
  "cancel_interrupt nb idle_timeout u =
     (case nu_select nb InterruptIn idle_timeout (submit_if_idle nb InterruptIn (interrupt_read_size nb) u) of
        (Abandoned, u) \<Rightarrow> Some (Dropped, u)
      | (Elapsed, u) \<Rightarrow> abandon_pending nb InterruptIn u
      | (Completed c, u) \<Rightarrow> Some (Ok (), u))"

text \<open>Step 5: reset a wedged device; the error is \<open>DeviceReset\<close> whatever the reset makes of it.\<close>

definition report_wedged :: "'u nusb \<Rightarrow> NusbTransport \<Rightarrow> 'u \<Rightarrow> (unit res \<times> 'u) option" where
  "report_wedged nb nt u =
     map_option (\<lambda>(reset, u). case reset of
         Panic \<Rightarrow> (Panic, u) | Dropped \<Rightarrow> (Dropped, u) | _ \<Rightarrow> (Err PtpError.DeviceReset, u))
       (nusb_reset_device nb nt u)"

definition nusb_cancel_transfer :: "'u nusb \<Rightarrow> NusbTransport \<Rightarrow> u32 \<Rightarrow> nat \<Rightarrow> 'u \<Rightarrow> (unit res \<times> 'u) option" where
  "nusb_cancel_transfer nb nt transaction_id idle_timeout u =
     seq_opt (request_cancel nb nt transaction_id u) (\<lambda>refused u.
     then_opt (cancel_drain nb idle_timeout (cancel_read_size refused (nu_max_packet_size nb BulkIn)) u) (\<lambda>_ u.
     then_opt (cancel_interrupt nb idle_timeout u) (\<lambda>_ u.
     then_opt (settle_after_cancel nb nt u) (\<lambda>wedged u.
       if wedged then report_wedged nb nt u else Some (Ok (), u)))))"

section \<open>Draining leftovers\<close>

text \<open>The loop's value is what it breaks with, an \<open>Ok\<close> or an \<open>Err\<close>; the cleanup after it runs in both cases.\<close>

partial_function (option) drain_loop ::
  "'u nusb \<Rightarrow> usize \<Rightarrow> nat \<Rightarrow> nat \<Rightarrow> usize \<Rightarrow> 'u \<Rightarrow> (usize res res \<times> 'u) option" where
  "drain_loop nb read_size idle_timeout deadline drained u =
     (case nu_now nb u of (now, u) \<Rightarrow>
        if now \<ge> deadline then Some (Ok (Ok drained), u)
        else case nu_select nb BulkIn idle_timeout (submit_if_idle nb BulkIn read_size u) of
            (Abandoned, u) \<Rightarrow> Some (Dropped, u)
          | (Elapsed, u) \<Rightarrow> Some (Ok (Ok drained), u)
          | (Completed c, u) \<Rightarrow>
              (case co_status c of
                 None \<Rightarrow> drain_loop nb read_size idle_timeout deadline (drained + co_actual_len c) u
               | Some e \<Rightarrow>
                   if is_disconnect nb e then Some (Ok (Err PtpError.Disconnected), u)
                   else Some (Ok (Ok drained), snd (clear_halt_if_stalled nb BulkIn e u))))"

definition nusb_drain_bulk_in :: "'u nusb \<Rightarrow> nat \<Rightarrow> nat \<Rightarrow> 'u \<Rightarrow> (usize res \<times> 'u) option" where
  "nusb_drain_bulk_in nb idle_timeout max_duration u =
     (let read_size = align_to_packet_size REFUSED_CANCEL_DRAIN_READ (nu_max_packet_size nb BulkIn) in
      case nu_now nb u of (now, u) \<Rightarrow>
        then_opt (drain_loop nb read_size idle_timeout (now + max_duration) 0 u) (\<lambda>result u.
        then_opt (abandon_pending nb BulkIn u) (\<lambda>_ u. Some (result, u))))"

end
