(* ===== verification/Usb_Devices.thy ===== *)
theory Usb_Devices
  imports Usb_Transport
begin

text \<open>
  The devices of \<open>transport/nusb.rs\<close>: listing those that speak MTP with the reason each was taken for one, the location
  identifier derived from the USB topology, and opening a device: the choice of its interface and endpoints and the claim.
  What \<open>nusb\<close> reports of a device, its descriptors and the outcome of claiming it, is data of the model.
\<close>

section \<open>Link speed and match reason\<close>

text \<open>The speeds the library reports; its enumeration is open, \<open>Other\<close> is any later one.\<close>

datatype NusbSpeed = Low | Full | High | Super | SuperPlus | Other nat

datatype UsbSpeed = Low | Full | High | Super | SuperPlus

fun UsbSpeed_from_nusb :: "NusbSpeed \<Rightarrow> UsbSpeed option" where
  "UsbSpeed_from_nusb NusbSpeed.Low = Some UsbSpeed.Low"
| "UsbSpeed_from_nusb NusbSpeed.Full = Some UsbSpeed.Full"
| "UsbSpeed_from_nusb NusbSpeed.High = Some UsbSpeed.High"
| "UsbSpeed_from_nusb NusbSpeed.Super = Some UsbSpeed.Super"
| "UsbSpeed_from_nusb NusbSpeed.SuperPlus = Some UsbSpeed.SuperPlus"
| "UsbSpeed_from_nusb (NusbSpeed.Other n) = None"

datatype MtpMatchReason = StandardClass | InterfaceString | KnownVidPid | OpenedDescriptorScan

fun MtpMatchReason_as_str :: "MtpMatchReason \<Rightarrow> string" where
  "MtpMatchReason_as_str StandardClass = ''standard_class''"
| "MtpMatchReason_as_str InterfaceString = ''interface_string''"
| "MtpMatchReason_as_str KnownVidPid = ''known_vid_pid''"
| "MtpMatchReason_as_str OpenedDescriptorScan = ''opened_descriptor_scan''"

section \<open>Descriptors\<close>

datatype direction = In | Out

datatype transfer_type = Control | Isochronous | Bulk | Interrupt

record EndpointDescriptor =
  ed_direction :: direction
  ed_transfer_type :: transfer_type
  ed_address :: u8

record InterfaceDescriptor =
  ad_class :: u8
  ad_subclass :: u8
  ad_protocol :: u8
  ad_endpoints :: "EndpointDescriptor list"

record ConfigInterface =
  ci_number :: u8
  ci_alt_settings :: "InterfaceDescriptor list"

record InterfaceInfo =
  ii_class :: u8
  ii_subclass :: u8
  ii_protocol :: u8
  ii_string :: "rstr option"

text \<open>
  What the library knows of a device before opening it, and what opening it to read the active configuration would give,
  \<open>None\<close> when the open or the read fails.
\<close>

record DeviceInfo =
  di_vendor_id :: u16
  di_product_id :: u16
  di_class :: u8
  di_subclass :: u8
  di_protocol :: u8
  di_manufacturer :: "rstr option"
  di_product :: "rstr option"
  di_serial_number :: "rstr option"
  di_speed :: "NusbSpeed option"
  di_bus_id :: bytes
  di_port_chain :: bytes
  di_interfaces :: "InterfaceInfo list"
  di_configuration :: "ConfigInterface list option"

section \<open>Which devices speak MTP\<close>

definition is_mtp_class :: "u8 \<Rightarrow> u8 \<Rightarrow> u8 \<Rightarrow> bool" where
  "is_mtp_class cls subclass protocol \<longleftrightarrow>
     (cls = MTP_CLASS_IMAGE \<or> cls = MTP_CLASS_VENDOR) \<and> subclass = MTP_SUBCLASS \<and> protocol = MTP_PROTOCOL"

text \<open>\<open>str::trim\<close> strips the characters with the Unicode property White_Space.\<close>

definition is_whitespace :: "nat \<Rightarrow> bool" where
  "is_whitespace c \<longleftrightarrow>
     9 \<le> c \<and> c \<le> 13 \<or> c = 0x20 \<or> c = 0x85 \<or> c = 0xA0 \<or> c = 0x1680 \<or> 0x2000 \<le> c \<and> c \<le> 0x200A \<or>
     c = 0x2028 \<or> c = 0x2029 \<or> c = 0x202F \<or> c = 0x205F \<or> c = 0x3000"

definition trim :: "rstr \<Rightarrow> rstr" where
  "trim s = rev (dropWhile is_whitespace (rev (dropWhile is_whitespace s)))"

definition ascii_lower :: "nat \<Rightarrow> nat" where
  "ascii_lower c = (if 65 \<le> c \<and> c \<le> 90 then c + 32 else c)"

definition eq_ignore_ascii_case :: "rstr \<Rightarrow> rstr \<Rightarrow> bool" where
  "eq_ignore_ascii_case a b \<longleftrightarrow> map ascii_lower a = map ascii_lower b"

definition mtp_summary_match_reason :: "u8 \<Rightarrow> u8 \<Rightarrow> u8 \<Rightarrow> rstr option \<Rightarrow> MtpMatchReason option" where
  "mtp_summary_match_reason cls subclass protocol interface_string =
     (if is_mtp_class cls subclass protocol then Some StandardClass
      else if (case interface_string of Some s \<Rightarrow> eq_ignore_ascii_case (trim s) (str ''MTP'') | None \<Rightarrow> False)
           then Some InterfaceString
      else None)"

text \<open>The loop over the endpoints with its three flags: bulk IN, bulk OUT, interrupt IN.\<close>

fun mark_endpoint :: "EndpointDescriptor \<Rightarrow> bool \<times> bool \<times> bool \<Rightarrow> bool \<times> bool \<times> bool" where
  "mark_endpoint ep (bulk_in, bulk_out, interrupt_in) =
     (case (ed_direction ep, ed_transfer_type ep) of
        (In, Bulk) \<Rightarrow> (True, bulk_out, interrupt_in)
      | (Out, Bulk) \<Rightarrow> (bulk_in, True, interrupt_in)
      | (In, Interrupt) \<Rightarrow> (bulk_in, bulk_out, True)
      | _ \<Rightarrow> (bulk_in, bulk_out, interrupt_in))"

definition has_mtp_endpoint_layout :: "InterfaceDescriptor \<Rightarrow> bool" where
  "has_mtp_endpoint_layout alt \<longleftrightarrow>
     (case fold mark_endpoint (ad_endpoints alt) (False, False, False) of
        (bulk_in, bulk_out, interrupt_in) \<Rightarrow> bulk_in \<and> bulk_out \<and> interrupt_in)"

definition is_mtp_interface :: "InterfaceDescriptor \<Rightarrow> bool" where
  "is_mtp_interface alt \<longleftrightarrow>
     (if is_mtp_class (ad_class alt) (ad_subclass alt) (ad_protocol alt) then True
      else ad_class alt = MTP_CLASS_VENDOR \<and> has_mtp_endpoint_layout alt)"

text \<open>The first setting of an interface passes the test; an interface without one does not.\<close>

definition first_alt :: "(InterfaceDescriptor \<Rightarrow> bool) \<Rightarrow> ConfigInterface \<Rightarrow> bool" where
  "first_alt test ci \<longleftrightarrow> (case ci_alt_settings ci of [] \<Rightarrow> False | alt # _ \<Rightarrow> test alt)"

fun first_reason :: "InterfaceInfo list \<Rightarrow> MtpMatchReason option" where
  "first_reason [] = None"
| "first_reason (intf # rest) =
     (case mtp_summary_match_reason (ii_class intf) (ii_subclass intf) (ii_protocol intf) (ii_string intf) of
        Some reason \<Rightarrow> Some reason
      | None \<Rightarrow> first_reason rest)"

definition mtp_match_reason :: "DeviceInfo \<Rightarrow> (u16 \<times> u16) list \<Rightarrow> MtpMatchReason option" where
  "mtp_match_reason dev known =
     (if list_ex (\<lambda>(v, p). v = di_vendor_id dev \<and> p = di_product_id dev) known then Some KnownVidPid
      else if is_mtp_class (di_class dev) (di_subclass dev) (di_protocol dev) then Some StandardClass
      else if di_class dev \<noteq> 0 \<and> di_class dev \<noteq> MTP_CLASS_VENDOR then None
      else case first_reason (di_interfaces dev) of
          Some reason \<Rightarrow> Some reason
        | None \<Rightarrow>
            (case di_configuration dev of
               Some config \<Rightarrow> if list_ex (first_alt is_mtp_interface) config then Some OpenedDescriptorScan else None
             | None \<Rightarrow> None))"

section \<open>Location identifiers\<close>

definition FNV_OFFSET :: u64 where "FNV_OFFSET = 0xcbf29ce484222325"
definition FNV_PRIME :: u64 where "FNV_PRIME = 0x0100000001b3"

definition fnv_step :: "u8 \<Rightarrow> u64 \<Rightarrow> u64" where
  "fnv_step byte hash = xor hash (ucast byte) * FNV_PRIME"

definition location_id_from_topology :: "DeviceInfo \<Rightarrow> u64" where
  "location_id_from_topology dev =
     fold fnv_step (di_port_chain dev) (fnv_step 0xFF (fold fnv_step (di_bus_id dev) FNV_OFFSET))"

section \<open>Listing\<close>

record UsbDeviceInfo =
  ud_vendor_id :: u16
  ud_product_id :: u16
  ud_manufacturer :: "rstr option"
  ud_product :: "rstr option"
  ud_serial_number :: "rstr option"
  ud_location_id :: u64
  ud_speed :: "UsbSpeed option"
  ud_match_reason :: MtpMatchReason
  ud_nusb_info :: DeviceInfo

definition describe_device :: "(u16 \<times> u16) list \<Rightarrow> DeviceInfo \<Rightarrow> UsbDeviceInfo option" where
  "describe_device known dev =
     map_option (\<lambda>match_reason.
       \<lparr>ud_vendor_id = di_vendor_id dev, ud_product_id = di_product_id dev, ud_manufacturer = di_manufacturer dev,
        ud_product = di_product dev, ud_serial_number = di_serial_number dev,
        ud_location_id = location_id_from_topology dev, ud_speed = Option.bind (di_speed dev) UsbSpeed_from_nusb,
        ud_match_reason = match_reason, ud_nusb_info = dev\<rparr>)
     (mtp_match_reason dev known)"

text \<open>An error of the library is its kind and its text.\<close>

type_synonym nusb_error = "UsbKind \<times> string"

fun from_nusb :: "('a, nusb_error) outcome \<Rightarrow> 'a res" where
  "from_nusb (Ok x) = Ok x"
| "from_nusb (Err (kind, txt)) = Err (PtpError.Usb kind txt)"
| "from_nusb Panic = Panic"
| "from_nusb Dropped = Dropped"

definition list_mtp_devices_with_known ::
  "(DeviceInfo list, nusb_error) outcome \<Rightarrow> (u16 \<times> u16) list \<Rightarrow> UsbDeviceInfo list res" where
  "list_mtp_devices_with_known devices known = map_ok (List.map_filter (describe_device known)) (from_nusb devices)"

definition list_mtp_devices :: "(DeviceInfo list, nusb_error) outcome \<Rightarrow> UsbDeviceInfo list res" where
  "list_mtp_devices devices = list_mtp_devices_with_known devices []"

section \<open>Opening a device\<close>

text \<open>
  An opened device over the bus state: its active configuration (or the text of the error), claiming an interface, setting
  the configuration, and opening an endpoint of the claimed interface.
\<close>

record 'u nusb_device =
  nd_macos :: bool
  nd_active_configuration :: "(ConfigInterface list, string) outcome"
  nd_claim_interface :: "u8 \<Rightarrow> 'u \<Rightarrow> (unit, nusb_error) outcome \<times> 'u"
  nd_set_configuration :: "u8 \<Rightarrow> 'u \<Rightarrow> (unit, nusb_error) outcome \<times> 'u"
  nd_endpoint :: "pipe \<Rightarrow> u8 \<Rightarrow> 'u \<Rightarrow> (unit, nusb_error) outcome \<times> 'u"

text \<open>The addresses of the last bulk IN, bulk OUT and interrupt IN endpoints.\<close>

type_synonym addresses = "u8 option \<times> u8 option \<times> u8 option"

fun note_address :: "EndpointDescriptor \<Rightarrow> addresses \<Rightarrow> addresses" where
  "note_address ep (bin, bout, iin) =
     (case (ed_direction ep, ed_transfer_type ep) of
        (Out, Bulk) \<Rightarrow> (bin, Some (ed_address ep), iin)
      | (In, Bulk) \<Rightarrow> (Some (ed_address ep), bout, iin)
      | (In, Interrupt) \<Rightarrow> (bin, bout, Some (ed_address ep))
      | _ \<Rightarrow> (bin, bout, iin))"

fun pick :: "(InterfaceDescriptor \<Rightarrow> bool) \<Rightarrow> ConfigInterface list \<Rightarrow> (u8 \<times> addresses) option" where
  "pick matches [] = None"
| "pick matches (interface # rest) =
     (case ci_alt_settings interface of
        [] \<Rightarrow> pick matches rest
      | alt_setting # _ \<Rightarrow>
          if matches alt_setting
          then Some (ci_number interface, fold note_address (ad_endpoints alt_setting) (None, None, None))
          else pick matches rest)"

definition ok_or :: "'a option \<Rightarrow> string \<Rightarrow> 'a res" where
  "ok_or x msg = (case x of Some a \<Rightarrow> Ok a | None \<Rightarrow> Err (invalid_data msg []))"

definition pick_interface :: "ConfigInterface list \<Rightarrow> (u8 \<times> addresses) option" where
  "pick_interface config =
     (case pick is_mtp_interface config of Some p \<Rightarrow> Some p | None \<Rightarrow> pick has_mtp_endpoint_layout config)"

definition chosen_addresses :: "ConfigInterface list \<Rightarrow> (u8 \<times> u8 \<times> u8 \<times> u8) res" where
  "chosen_addresses config =
     bind_ok (ok_or (pick_interface config) ''No MTP interface found on device'') (\<lambda>(n, bin, bout, iin).
     bind_ok (ok_or bin ''No bulk IN endpoint found'') (\<lambda>bulk_in_addr.
     bind_ok (ok_or bout ''No bulk OUT endpoint found'') (\<lambda>bulk_out_addr.
     bind_ok (ok_or iin ''No interrupt IN endpoint found'') (\<lambda>interrupt_in_addr.
       Ok (n, bulk_in_addr, bulk_out_addr, interrupt_in_addr)))))"

text \<open>\<open>?\<close> on a call of the library.\<close>

definition try_nusb :: "('a, nusb_error) outcome \<times> 'u \<Rightarrow> 'a res \<times> 'u" where
  "try_nusb p = (from_nusb (fst p), snd p)"

definition claim :: "'u nusb_device \<Rightarrow> u8 \<Rightarrow> 'u \<Rightarrow> unit res \<times> 'u" where
  "claim nd n u =
     (case nd_claim_interface nd n u of
        (Err (UsbKind.NotFound, txt), u) \<Rightarrow>
          if nd_macos nd
          then seq_ok (try_nusb (nd_set_configuration nd 1 u)) (\<lambda>_ u. try_nusb (nd_claim_interface nd n u))
          else (Err (PtpError.Usb UsbKind.NotFound txt), u)
      | p \<Rightarrow> try_nusb p)"

definition active_configuration :: "'u nusb_device \<Rightarrow> ConfigInterface list res" where
  "active_configuration nd =
     (case nd_active_configuration nd of
        Ok config \<Rightarrow> Ok config
      | Err e \<Rightarrow> Err (invalid_data ''Failed to get configuration: {}'' (str e))
      | Panic \<Rightarrow> Panic
      | Dropped \<Rightarrow> Dropped)"

definition open_with_timeout :: "'u nusb_device \<Rightarrow> nat \<Rightarrow> 'u \<Rightarrow> NusbTransport res \<times> 'u" where
  "open_with_timeout nd timeout u =
     seq_ok (active_configuration nd, u) (\<lambda>config u.
     seq_ok (chosen_addresses config, u) (\<lambda>(interface_number, bulk_in_addr, bulk_out_addr, interrupt_in_addr) u.
     seq_ok (claim nd interface_number u) (\<lambda>_ u.
     seq_ok (try_nusb (nd_endpoint nd BulkIn bulk_in_addr u)) (\<lambda>_ u.
     seq_ok (try_nusb (nd_endpoint nd BulkOut bulk_out_addr u)) (\<lambda>_ u.
     seq_ok (try_nusb (nd_endpoint nd InterruptIn interrupt_in_addr u)) (\<lambda>_ u.
       (Ok \<lparr>nt_interface_number = interface_number, nt_timeout = timeout, nt_drain_on_cancel = False\<rparr>, u)))))))"

definition nusb_open :: "'u nusb_device \<Rightarrow> 'u \<Rightarrow> NusbTransport res \<times> 'u" where
  "nusb_open nd = open_with_timeout nd DEFAULT_TIMEOUT"

section \<open>Ports have distinct identifiers\<close>

text \<open>The prime is odd, so multiplying by it loses nothing.\<close>

lemma fnv_prime_invertible: "FNV_PRIME * 0xce965057aff6957b = 1"
  by (simp add: FNV_PRIME_def)

lemma fnv_prime_cancel: "x * FNV_PRIME = y * FNV_PRIME \<longleftrightarrow> x = y"
proof
  assume "x * FNV_PRIME = y * FNV_PRIME"
  then have "x * FNV_PRIME * 0xce965057aff6957b = y * FNV_PRIME * 0xce965057aff6957b" by (rule arg_cong)
  then show "x = y" by (simp only: mult.assoc fnv_prime_invertible mult_1_right)
qed simp

lemma xor_cancel: "xor x c = xor y c \<longleftrightarrow> x = (y :: u64)" "xor c x = xor c y \<longleftrightarrow> x = (y :: u64)"
  by (auto simp: bit_eq_iff bit_xor_iff)

lemma fnv_step_inj: "fnv_step b x = fnv_step b y \<longleftrightarrow> x = y"
  by (simp add: fnv_step_def fnv_prime_cancel xor_cancel)

lemma unat_less_u64: "unat (a :: u8) < 2 ^ LENGTH(64)"
  using unat_less [of a] by simp

lemma fnv_step_inj_byte: "fnv_step a x = fnv_step b x \<longleftrightarrow> a = b"
proof -
  have "(ucast a :: u64) = ucast b \<longleftrightarrow> a = b"
    by (metis unat_ucast_up word_unat_eq_iff unat_less_u64)
  then show ?thesis by (simp add: fnv_step_def fnv_prime_cancel xor_cancel)
qed

lemma fnv_fold_inj: "fold fnv_step bs x = fold fnv_step bs y \<longleftrightarrow> x = y"
  by (induction bs arbitrary: x y) (simp_all add: fnv_step_inj)

text \<open>
  C23: Devices on different ports of the same hub never share a location identifier: when two topologies on the same bus differ in
  one port of the chain, the identifiers differ, whatever follows it.
\<close>

theorem location_ids_distinct:
  assumes "di_bus_id d = di_bus_id d'" "di_port_chain d = hub @ p # below" "di_port_chain d' = hub @ q # below" "p \<noteq> q"
  shows "location_id_from_topology d \<noteq> location_id_from_topology d'"
  using assms by (simp add: location_id_from_topology_def fnv_fold_inj fnv_step_inj_byte)

definition demo_device :: "bytes \<Rightarrow> DeviceInfo" where
  "demo_device ports = \<lparr>di_vendor_id = 0x18d1, di_product_id = 0x4ee1, di_class = 0, di_subclass = 0, di_protocol = 0,
     di_manufacturer = None, di_product = None, di_serial_number = None, di_speed = Some NusbSpeed.High,
     di_bus_id = [49], di_port_chain = ports, di_interfaces = [], di_configuration = None\<rparr>"

theorem location_ids_distinct_witness:
  "location_id_from_topology (demo_device [2, 3]) \<noteq> location_id_from_topology (demo_device [2, 4])"
  by (rule location_ids_distinct [of _ _ "[2]" 3 "[]" 4]) (simp_all add: demo_device_def)

end
