(* ===== verification/Mtp_Hotplug.thy ===== *)
theory Mtp_Hotplug
  imports Usb_Devices "HOL-Library.AList" "HOL-Library.Multiset"
begin

text \<open>
  Devices as the high-level API describes them (\<open>MtpDeviceInfo\<close> of \<open>mtp/device.rs\<close>) and \<open>mtp/hotplug.rs\<close>: the comparison of two
  enumerations and the stream of arrivals and departures. A \<open>HashMap\<close> is an association list with one entry per key; the order
  in which it is iterated is unspecified, so it is a parameter. The notifications of the operating system, the timer and the
  enumeration are calls on an environment with a state \<open>'w\<close>.
\<close>

section \<open>Devices\<close>

record MtpDeviceInfo =
  md_vendor_id :: u16
  md_product_id :: u16
  md_manufacturer :: "rstr option"
  md_product :: "rstr option"
  md_serial_number :: "rstr option"
  md_location_id :: u64
  md_speed :: "UsbSpeed option"
  md_match_reason :: MtpMatchReason

definition MtpDeviceInfo_from_usb :: "UsbDeviceInfo \<Rightarrow> MtpDeviceInfo" where
  "MtpDeviceInfo_from_usb d =
     \<lparr>md_vendor_id = ud_vendor_id d, md_product_id = ud_product_id d, md_manufacturer = ud_manufacturer d,
      md_product = ud_product d, md_serial_number = ud_serial_number d, md_location_id = ud_location_id d,
      md_speed = ud_speed d, md_match_reason = ud_match_reason d\<rparr>"

section \<open>Comparing two enumerations\<close>

datatype HotplugEvent = Arrived MtpDeviceInfo | Left MtpDeviceInfo

record DeviceKey =
  dk_location_id :: u64
  dk_vendor_id :: u16
  dk_product_id :: u16
  dk_serial_number :: "rstr option"

definition DeviceKey_of :: "MtpDeviceInfo \<Rightarrow> DeviceKey" where
  "DeviceKey_of info =
     \<lparr>dk_location_id = md_location_id info, dk_vendor_id = md_vendor_id info, dk_product_id = md_product_id info,
      dk_serial_number = md_serial_number info\<rparr>"

type_synonym device_map = "(DeviceKey \<times> MtpDeviceInfo) list"

definition by_key :: "MtpDeviceInfo list \<Rightarrow> device_map" where
  "by_key infos = fold (\<lambda>i. AList.update (DeviceKey_of i) i) infos []"

definition diff :: "(device_map \<Rightarrow> device_map) \<Rightarrow> device_map \<Rightarrow> MtpDeviceInfo list \<Rightarrow> HotplugEvent list \<times> device_map" where
  "diff iter known current =
     (let current = by_key current;
          gone = map (\<lambda>(_, info). Left info) (filter (\<lambda>(key, _). map_of current key = None) (iter known));
          fresh = map (\<lambda>(_, info). Arrived info) (filter (\<lambda>(key, _). map_of known key = None) (iter current))
      in (gone @ fresh, current))"

section \<open>The watch\<close>

definition DEFAULT_SETTLE_DELAY :: nat where "DEFAULT_SETTLE_DELAY = 500"

record DeviceWatchBuilder =
  db_known_devices :: "(u16 \<times> u16) list"
  db_settle_delay :: nat

definition DeviceWatchBuilder_default :: DeviceWatchBuilder where
  "DeviceWatchBuilder_default = \<lparr>db_known_devices = [], db_settle_delay = DEFAULT_SETTLE_DELAY\<rparr>"

definition builder_known_devices :: "(u16 \<times> u16) list \<Rightarrow> DeviceWatchBuilder \<Rightarrow> DeviceWatchBuilder" where
  "builder_known_devices known b = b\<lparr>db_known_devices := known\<rparr>"

definition builder_settle_delay :: "nat \<Rightarrow> DeviceWatchBuilder \<Rightarrow> DeviceWatchBuilder" where
  "builder_settle_delay delay b = b\<lparr>db_settle_delay := delay\<rparr>"

text \<open>\<open>dw_settling\<close> is the delay a settle timer was started with, while one is running.\<close>

record DeviceWatch =
  dw_known :: device_map
  dw_known_devices :: "(u16 \<times> u16) list"
  dw_settle_delay :: nat
  dw_pending :: "HotplugEvent list"
  dw_settling :: "nat option"
  dw_started :: bool

text \<open>A poll of the notifications: an event, the end of the stream, or nothing yet.\<close>

datatype usb_poll = UsbEvent | UsbEnd | UsbQuiet

text \<open>
  The environment: setting up notifications, enumerating, polling the notifications and a running timer, and the order in which
  the maps of an enumeration are iterated.
\<close>

record 'w hotplug_env =
  he_watch :: "'w \<Rightarrow> (unit, nusb_error) outcome \<times> 'w"
  he_list :: "'w \<Rightarrow> (DeviceInfo list, nusb_error) outcome \<times> 'w"
  he_poll_usb :: "'w \<Rightarrow> usb_poll \<times> 'w"
  he_poll_timer :: "'w \<Rightarrow> bool \<times> 'w"
  he_iter :: "'w \<Rightarrow> device_map \<Rightarrow> device_map"

definition watch :: "'w hotplug_env \<Rightarrow> DeviceWatchBuilder \<Rightarrow> 'w \<Rightarrow> DeviceWatch res \<times> 'w" where
  "watch env b w =
     seq_ok (try_nusb (he_watch env w)) (\<lambda>_ w.
       (Ok \<lparr>dw_known = [], dw_known_devices = db_known_devices b, dw_settle_delay = db_settle_delay b,
            dw_pending = [], dw_settling = None, dw_started = False\<rparr>, w))"

definition watch_devices :: "'w hotplug_env \<Rightarrow> 'w \<Rightarrow> DeviceWatch res \<times> 'w" where
  "watch_devices env = watch env DeviceWatchBuilder_default"

text \<open>A failed enumeration keeps the last known devices.\<close>

definition enumerate_devices :: "'w hotplug_env \<Rightarrow> DeviceWatch \<Rightarrow> 'w \<Rightarrow> DeviceWatch \<times> 'w" where
  "enumerate_devices env dw w =
     (case he_list env w of (listed, w) \<Rightarrow>
        (case list_mtp_devices_with_known listed (dw_known_devices dw) of
           Ok devices \<Rightarrow>
             (case diff (he_iter env w) (dw_known dw) (map MtpDeviceInfo_from_usb devices) of (events, known) \<Rightarrow>
                (dw\<lparr>dw_known := known, dw_pending := dw_pending dw @ events\<rparr>, w))
         | _ \<Rightarrow> (dw, w)))"

datatype 'a poll = Ready 'a | Pending

definition poll_settle :: "'w hotplug_env \<Rightarrow> nat \<Rightarrow> 'w \<Rightarrow> bool \<times> 'w" where
  "poll_settle env delay w = (if delay = 0 then (True, w) else he_poll_timer env w)"

partial_function (option) poll_next ::
  "'w hotplug_env \<Rightarrow> DeviceWatch \<Rightarrow> 'w \<Rightarrow> (HotplugEvent option poll \<times> DeviceWatch \<times> 'w) option" where
  "poll_next env dw w =
     (case dw_pending dw of
        e # rest \<Rightarrow> Some (Ready (Some e), dw\<lparr>dw_pending := rest\<rparr>, w)
      | [] \<Rightarrow>
          if \<not> dw_started dw
          then (case enumerate_devices env (dw\<lparr>dw_started := True\<rparr>) w of (dw, w) \<Rightarrow> poll_next env dw w)
          else (case dw_settling dw of
              Some delay \<Rightarrow>
                (case poll_settle env delay w of (over, w) \<Rightarrow>
                   if over
                   then (case enumerate_devices env (dw\<lparr>dw_settling := None\<rparr>) w of (dw, w) \<Rightarrow> poll_next env dw w)
                   else Some (Pending, dw, w))
            | None \<Rightarrow>
                (case he_poll_usb env w of (polled, w) \<Rightarrow>
                   (case polled of
                      UsbEvent \<Rightarrow> poll_next env (dw\<lparr>dw_settling := Some (dw_settle_delay dw)\<rparr>) w
                    | UsbEnd \<Rightarrow> Some (Ready None, dw, w)
                    | UsbQuiet \<Rightarrow> Some (Pending, dw, w)))))"

section \<open>What the events add up to\<close>

text \<open>The devices a consumer has after the events, by key.\<close>

fun after_event :: "HotplugEvent \<Rightarrow> DeviceKey set \<Rightarrow> DeviceKey set" where
  "after_event (Arrived info) present = insert (DeviceKey_of info) present"
| "after_event (Left info) present = present - {DeviceKey_of info}"

definition replay :: "HotplugEvent list \<Rightarrow> DeviceKey set \<Rightarrow> DeviceKey set" where
  "replay events present = fold after_event events present"

text \<open>An event changes something: what arrives was not there, what leaves was.\<close>

fun sensible :: "HotplugEvent list \<Rightarrow> DeviceKey set \<Rightarrow> bool" where
  "sensible [] present \<longleftrightarrow> True"
| "sensible (e # events) present \<longleftrightarrow>
     (case e of Arrived info \<Rightarrow> DeviceKey_of info \<notin> present | Left info \<Rightarrow> DeviceKey_of info \<in> present) \<and>
     sensible events (after_event e present)"

abbreviation keys :: "device_map \<Rightarrow> DeviceKey set" where
  "keys m \<equiv> fst ` set m"

definition good_map :: "device_map \<Rightarrow> bool" where
  "good_map m \<longleftrightarrow> distinct (map fst m) \<and> (\<forall>(key, info) \<in> set m. key = DeviceKey_of info)"

lemma set_update: "set (AList.update k v m) \<subseteq> insert (k, v) (set m)"
  by (induction m) auto

lemma by_key_good: "good_map (by_key infos)" "keys (by_key infos) = DeviceKey_of ` set infos"
proof -
  have "good_map m \<Longrightarrow> good_map (fold (\<lambda>i. AList.update (DeviceKey_of i) i) infos m) \<and>
    keys (fold (\<lambda>i. AList.update (DeviceKey_of i) i) infos m) = keys m \<union> DeviceKey_of ` set infos" for m
  proof (induction infos arbitrary: m)
    case (Cons i infos)
    let ?m = "AList.update (DeviceKey_of i) i m"
    have "good_map ?m"
      using Cons.prems set_update [of "DeviceKey_of i" i m] unfolding good_map_def by (auto simp: distinct_update)
    moreover have "keys ?m = insert (DeviceKey_of i) (keys m)"
      by (simp only: set_map [symmetric] update_keys) auto
    ultimately show ?case using Cons.IH [of ?m] by simp
  qed simp
  from this [of "[]"] show "good_map (by_key infos)" "keys (by_key infos) = DeviceKey_of ` set infos"
    by (simp_all add: by_key_def good_map_def)
qed

lemma replay_append: "replay (xs @ ys) present = replay ys (replay xs present)"
  by (simp add: replay_def)

lemma sensible_append: "sensible (xs @ ys) present \<longleftrightarrow> sensible xs present \<and> sensible ys (replay xs present)"
  by (induction xs arbitrary: present) (auto simp: replay_def)

lemma replay_left: "replay (map (\<lambda>(_, info). Left info) m) present = present - (DeviceKey_of \<circ> snd) ` set m"
  by (induction m arbitrary: present) (auto simp: replay_def)

lemma replay_arrived: "replay (map (\<lambda>(_, info). Arrived info) m) present = present \<union> (DeviceKey_of \<circ> snd) ` set m"
  by (induction m arbitrary: present) (auto simp: replay_def)

lemma sensible_left:
  "distinct (map (DeviceKey_of \<circ> snd) m) \<Longrightarrow> (DeviceKey_of \<circ> snd) ` set m \<subseteq> present \<Longrightarrow> sensible (map (\<lambda>(_, info). Left info) m) present"
proof (induction m arbitrary: present)
  case (Cons x m)
  then have "sensible (map (\<lambda>(_, info). Left info) m) (present - {DeviceKey_of (snd x)})"
    by (intro Cons.IH) (simp_all add: subset_Diff_insert)
  with Cons.prems show ?case by (cases x) auto
qed simp

lemma sensible_arrived:
  "distinct (map (DeviceKey_of \<circ> snd) m) \<Longrightarrow> (DeviceKey_of \<circ> snd) ` set m \<inter> present = {} \<Longrightarrow>
     sensible (map (\<lambda>(_, info). Arrived info) m) present"
proof (induction m arbitrary: present)
  case (Cons x m)
  then have "sensible (map (\<lambda>(_, info). Arrived info) m) (insert (DeviceKey_of (snd x)) present)" by (intro Cons.IH) auto
  with Cons.prems show ?case by (cases x) auto
qed simp

text \<open>What filtering an iteration of a map yields.\<close>

lemma iterated:
  assumes "good_map m" "mset (iter m) = mset m"
  shows "distinct (map (DeviceKey_of \<circ> snd) (filter P (iter m)))"
    "(DeviceKey_of \<circ> snd) ` set (filter P (iter m)) = fst ` {x \<in> set m. P x}"
proof -
  have same: "set (iter m) = set m" using assms(2) by (metis set_mset_mset)
  have ks: "map (DeviceKey_of \<circ> snd) (iter m) = map fst (iter m)"
    using assms(1) same by (auto simp: good_map_def)
  have "mset (map fst (iter m)) = mset (map fst m)" using assms(2) by simp
  then have "distinct (map fst (iter m))"
    using assms(1) unfolding good_map_def by (metis mset_eq_imp_distinct_iff)
  with ks show "distinct (map (DeviceKey_of \<circ> snd) (filter P (iter m)))" by (metis distinct_map_filter)
  have key: "DeviceKey_of (snd x) = fst x" if "x \<in> set m" for x using assms(1) that by (auto simp: good_map_def)
  have "(DeviceKey_of \<circ> snd) ` {x \<in> set m. P x} = fst ` {x \<in> set m. P x}"
    by (rule image_cong) (auto simp: key)
  then show "(DeviceKey_of \<circ> snd) ` set (filter P (iter m)) = fst ` {x \<in> set m. P x}" using same by simp
qed

lemma diff_events:
  assumes "good_map known" "\<And>m. mset (iter m) = mset m" "diff iter known infos = (events, current)"
  shows "good_map current \<and> keys current = DeviceKey_of ` set infos \<and> sensible events (keys known) \<and>
    replay events (keys known) = keys current"
proof -
  let ?c = "by_key infos"
  let ?gone = "filter (\<lambda>(key, _). map_of ?c key = None) (iter known)"
  let ?fresh = "filter (\<lambda>(key, _). map_of known key = None) (iter ?c)"
  have ev: "current = ?c" "events = map (\<lambda>(_, info). Left info) ?gone @ map (\<lambda>(_, info). Arrived info) ?fresh"
    using assms(3) by (auto simp: diff_def Let_def)
  note g = iterated [where iter = iter, OF assms(1) assms(2), of "\<lambda>(key, _). map_of ?c key = None"]
  note f = iterated [where iter = iter and m = ?c, OF by_key_good(1) assms(2), of "\<lambda>(key, _). map_of known key = None"]
  have gone: "(DeviceKey_of \<circ> snd) ` set ?gone = keys known - keys ?c"
    unfolding g(2) by (auto simp: map_of_eq_None_iff image_iff)
  have fresh: "(DeviceKey_of \<circ> snd) ` set ?fresh = keys ?c - keys known"
    unfolding f(2) by (auto simp: map_of_eq_None_iff image_iff)
  have "replay events (keys known) = keys ?c"
    unfolding ev replay_append replay_left replay_arrived gone fresh by auto
  moreover have "sensible events (keys known)"
  proof -
    have "sensible (map (\<lambda>(_, info). Left info) ?gone) (keys known)"
      by (rule sensible_left [OF g(1)]) (simp only: gone, blast)
    moreover have "sensible (map (\<lambda>(_, info). Arrived info) ?fresh) (keys known - (keys known - keys ?c))"
      by (rule sensible_arrived [OF f(1)]) (simp only: fresh, blast)
    ultimately show ?thesis unfolding ev sensible_append replay_left gone by blast
  qed
  ultimately show ?thesis using ev by_key_good by simp
qed

section \<open>The stream of a watch\<close>

text \<open>
  To compare the events with what is plugged in, the environment is observed: beside its own state it carries the keys of the devices
  that its last successful enumeration listed. The watch does not see this note.
\<close>

definition listed_keys :: "(u16 \<times> u16) list \<Rightarrow> (DeviceInfo list, nusb_error) outcome \<Rightarrow> DeviceKey set \<Rightarrow> DeviceKey set" where
  "listed_keys known listed seen =
     (case list_mtp_devices_with_known listed known of
        Ok devices \<Rightarrow> (\<lambda>d. DeviceKey_of (MtpDeviceInfo_from_usb d)) ` set devices
      | _ \<Rightarrow> seen)"

definition noting :: "('w \<Rightarrow> 'a \<times> 'w) \<Rightarrow> 'w \<times> DeviceKey set \<Rightarrow> 'a \<times> 'w \<times> DeviceKey set" where
  "noting call = (\<lambda>(w, seen). case call w of (r, w) \<Rightarrow> (r, w, seen))"

definition observed :: "(u16 \<times> u16) list \<Rightarrow> 'w hotplug_env \<Rightarrow> ('w \<times> DeviceKey set) hotplug_env" where
  "observed known env =
     \<lparr>he_watch = noting (he_watch env),
      he_list = (\<lambda>(w, seen). case he_list env w of (listed, w) \<Rightarrow> (listed, w, listed_keys known listed seen)),
      he_poll_usb = noting (he_poll_usb env), he_poll_timer = noting (he_poll_timer env), he_iter = (\<lambda>(w, seen). he_iter env w)\<rparr>"

text \<open>
  A consumer polls the watch; between two polls the environment may change in any way, but for the note. The events handed out so
  far are the third argument, the keys that the last successful enumeration listed the fifth; before the first one there are none.
\<close>

inductive watch_run :: "'w hotplug_env \<Rightarrow> DeviceWatch \<Rightarrow> HotplugEvent list \<Rightarrow> DeviceWatch \<Rightarrow> DeviceKey set \<Rightarrow> bool"
  for env :: "'w hotplug_env" and dw0 :: DeviceWatch where
  start: "watch_run env dw0 [] dw0 {}"
| handed: "watch_run env dw0 out dw seen \<Longrightarrow>
    poll_next (observed (dw_known_devices dw0) env) dw (w, seen) = Some (Ready (Some e), dw', w', seen') \<Longrightarrow>
    watch_run env dw0 (out @ [e]) dw' seen'"
| idle: "watch_run env dw0 out dw seen \<Longrightarrow>
    poll_next (observed (dw_known_devices dw0) env) dw (w, seen) = Some (Pending, dw', w', seen') \<Longrightarrow>
    watch_run env dw0 out dw' seen'"

definition accounts :: "(u16 \<times> u16) list \<Rightarrow> HotplugEvent list \<Rightarrow> DeviceWatch \<Rightarrow> DeviceKey set \<Rightarrow> bool" where
  "accounts known out dw seen \<longleftrightarrow> good_map (dw_known dw) \<and> keys (dw_known dw) = seen \<and> dw_known_devices dw = known \<and>
     sensible (out @ dw_pending dw) {} \<and> replay (out @ dw_pending dw) {} = seen"

definition shuffles :: "'w hotplug_env \<Rightarrow> bool" where
  "shuffles env \<longleftrightarrow> (\<forall>w m. mset (he_iter env w m) = mset m)"

lemma shuffles_observed: "shuffles env \<Longrightarrow> shuffles (observed known env)"
  by (simp add: shuffles_def observed_def)

lemma accounts_flags:
  "accounts known out (dw\<lparr>dw_settling := s\<rparr>) seen = accounts known out dw seen"
  "accounts known out (dw\<lparr>dw_started := b\<rparr>) seen = accounts known out dw seen"
  by (simp_all add: accounts_def)

lemma enumerate_accounts:
  assumes "shuffles env" "accounts known out dw seen" "enumerate_devices (observed known env) dw (w, seen) = (dw', w', seen')"
  shows "accounts known out dw' seen'"
proof -
  obtain listed w1 where l: "he_list env w = (listed, w1)" by fastforce
  have k: "dw_known_devices dw = known" using assms(2) by (simp add: accounts_def)
  show ?thesis
  proof (cases "list_mtp_devices_with_known listed known")
    case (Ok devices)
    obtain events m where d: "diff (he_iter env w1) (dw_known dw) (map MtpDeviceInfo_from_usb devices) = (events, m)"
      by fastforce
    have "dw' = dw\<lparr>dw_known := m, dw_pending := dw_pending dw @ events\<rparr>"
      "seen' = (\<lambda>d. DeviceKey_of (MtpDeviceInfo_from_usb d)) ` set devices"
      using assms(3) l Ok d k by (simp_all add: enumerate_devices_def observed_def listed_keys_def)
    moreover have "good_map m \<and> keys m = DeviceKey_of ` MtpDeviceInfo_from_usb ` set devices \<and>
        sensible events (keys (dw_known dw)) \<and> replay events (keys (dw_known dw)) = keys m"
      using diff_events [OF _ _ d] assms(1,2) by (simp add: accounts_def shuffles_def)
    ultimately show ?thesis
      using assms(2) by (simp add: accounts_def sensible_append replay_append image_image flip: append_assoc)
  qed (use assms l k in \<open>simp_all add: enumerate_devices_def observed_def listed_keys_def\<close>)
qed

lemma poll_settle_observed:
  "poll_settle (observed known env) delay (w, seen) = (case poll_settle env delay w of (over, w) \<Rightarrow> (over, w, seen))"
  by (simp add: poll_settle_def observed_def noting_def)

lemma he_poll_usb_observed: "he_poll_usb (observed known env) (w, seen) = (case he_poll_usb env w of (r, w) \<Rightarrow> (r, w, seen))"
  by (simp add: observed_def noting_def)

lemma poll_accounts:
  assumes "shuffles env" "accounts known out dw seen" "poll_next (observed known env) dw (w, seen) = Some (r, dw', w', seen')"
  shows "(\<forall>e. r = Ready (Some e) \<longrightarrow> accounts known (out @ [e]) dw' seen') \<and>
    (r = Pending \<or> r = Ready None \<longrightarrow> accounts known out dw' seen' \<and> dw_pending dw' = [])"
proof -
  let ?env = "observed known env"
  let ?Q = "\<lambda>y. (\<forall>e. fst y = Ready (Some e) \<longrightarrow> accounts known (out @ [e]) (fst (snd y)) (snd (snd (snd y)))) \<and>
    (fst y = Pending \<or> fst y = Ready None \<longrightarrow> accounts known out (fst (snd y)) (snd (snd (snd y))) \<and> dw_pending (fst (snd y)) = [])"
  have "?env = ?env \<longrightarrow> accounts known out dw (snd (w, seen)) \<longrightarrow> ?Q (r, dw', w', seen')"
  proof (rule poll_next.raw_induct [where P = "\<lambda>env' dw w y. env' = ?env \<longrightarrow> accounts known out dw (snd w) \<longrightarrow> ?Q y", OF _ assms(3)],
      intro impI, goal_cases)
    case (1 loop env' dw w y)
    note IH = 1(1) [rule_format, OF _ 1(3)]
    obtain w0 seen where w: "w = (w0, seen)" by (cases w)
    obtain r1 dw1 w1 seen1 where y: "y = (r1, dw1, w1, seen1)" by (cases y)
    have acc: "accounts known out dw seen" using 1(4) w by simp
    have en: "accounts known out dw2 (snd w3)" if "enumerate_devices ?env (dw\<lparr>dw_started := b\<rparr>) (w2, seen) = (dw2, w3)" for dw2 w2 w3 b
      using enumerate_accounts [OF assms(1), of known out "dw\<lparr>dw_started := b\<rparr>" seen w2 dw2 "fst w3" "snd w3"] acc that
      by (simp add: accounts_flags)
    have en': "accounts known out dw2 (snd w3)" if "enumerate_devices ?env (dw\<lparr>dw_settling := b\<rparr>) (w2, seen) = (dw2, w3)" for dw2 w2 w3 b
      using enumerate_accounts [OF assms(1), of known out "dw\<lparr>dw_settling := b\<rparr>" seen w2 dw2 "fst w3" "snd w3"] acc that
      by (simp add: accounts_flags)
    show ?case
    proof (cases "dw_pending dw")
      case (Cons e rest)
      have "accounts known (out @ [e]) (dw\<lparr>dw_pending := rest\<rparr>) seen" using acc Cons by (simp add: accounts_def)
      moreover have "y = (Ready (Some e), dw\<lparr>dw_pending := rest\<rparr>, w)" using 1(2) Cons by simp
      ultimately show ?thesis by (simp add: w y)
    next
      case Nil
      show ?thesis
        using 1(2,3) acc Nil en en' IH
        by (auto simp: w y accounts_flags poll_settle_observed he_poll_usb_observed split: if_splits option.splits prod.splits usb_poll.splits)
    qed
  qed
  with assms(2) show ?thesis by simp
qed

lemma run_accounts:
  "watch_run env dw0 out dw seen \<Longrightarrow> shuffles env \<Longrightarrow> accounts (dw_known_devices dw0) [] dw0 {} \<Longrightarrow>
     accounts (dw_known_devices dw0) out dw seen"
proof (induction rule: watch_run.induct)
  case start
  then show ?case by simp
next
  case (handed out dw seen w e dw' w' seen')
  then show ?case using poll_accounts [OF handed.prems(1) handed.IH [OF handed.prems] handed.hyps(2)] by simp
next
  case (idle out dw seen w dw' w' seen')
  then show ?case using poll_accounts [OF idle.prems(1) idle.IH [OF idle.prems] idle.hyps(2)] by simp
qed

text \<open>
  C12: The events of a watch add up. However the watch is polled and whatever the maps' iteration order, replaying the events handed
  out so far together with those still queued, from no device at all, gives exactly the devices that the last successful
  enumeration listed (no device before the first one), by their keys; no event is spurious (what arrives was absent, what leaves was present); and a poll that has nothing to hand
  out leaves the consumer with exactly the devices that the last successful enumeration listed, the poll's own included.
\<close>

theorem events_add_up:
  assumes "shuffles env" "watch env b w = (Ok dw0, w0)" "watch_run env dw0 out dw seen"
  shows "sensible (out @ dw_pending dw) {} \<and> replay (out @ dw_pending dw) {} = seen \<and>
    (\<forall>w1 dw' w2 seen'. poll_next (observed (db_known_devices b) env) dw (w1, seen) = Some (Pending, dw', w2, seen') \<longrightarrow> replay out {} = seen')"
proof -
  have start: "accounts (db_known_devices b) [] dw0 {}" "dw_known_devices dw0 = db_known_devices b"
    using assms(2) by (auto simp: watch_def try_nusb_def seq_ok_Ok accounts_def good_map_def replay_def)
  with assms(1,3) have acc: "accounts (db_known_devices b) out dw seen" using run_accounts by metis
  moreover have "replay out {} = seen'"
    if "poll_next (observed (db_known_devices b) env) dw (w1, seen) = Some (Pending, dw', w2, seen')" for w1 dw' w2 seen'
  proof -
    have "accounts (db_known_devices b) out dw' seen'" "dw_pending dw' = []" using poll_accounts [OF assms(1) acc that] by simp_all
    then show ?thesis by (simp add: accounts_def)
  qed
  ultimately show ?thesis by (simp add: accounts_def)
qed

text \<open>A phone that is there when the watch begins.\<close>

definition demo_phone :: DeviceInfo where
  "demo_phone = (demo_device [2, 3])\<lparr>di_class := 6, di_subclass := 1, di_protocol := 1\<rparr>"

definition demo_env :: "unit hotplug_env" where
  "demo_env = \<lparr>he_watch = (\<lambda>w. (Ok (), w)), he_list = (\<lambda>w. (Ok [demo_phone], w)), he_poll_usb = (\<lambda>w. (UsbQuiet, w)),
     he_poll_timer = (\<lambda>w. (True, w)), he_iter = (\<lambda>w m. m)\<rparr>"

definition demo_watch :: DeviceWatch where
  "demo_watch = \<lparr>dw_known = [], dw_known_devices = [], dw_settle_delay = 500, dw_pending = [], dw_settling = None, dw_started = False\<rparr>"

lemma demo_watch_starts: "watch_devices demo_env () = (Ok demo_watch, ())"
  by (simp add: watch_devices_def watch_def demo_env_def try_nusb_def demo_watch_def DeviceWatchBuilder_default_def DEFAULT_SETTLE_DELAY_def)

lemma demo_first_poll:
  "\<exists>info dw. poll_next (observed [] demo_env) demo_watch ((), {}) = Some (Ready (Some (Arrived info)), dw, (), {DeviceKey_of info})"
proof -
  have m: "mtp_match_reason demo_phone [] = Some StandardClass"
    by (simp add: mtp_match_reason_def demo_phone_def demo_device_def is_mtp_class_def MTP_CLASS_IMAGE_def MTP_SUBCLASS_def MTP_PROTOCOL_def)
  obtain d where d: "describe_device [] demo_phone = Some d" by (simp add: describe_device_def m)
  then have l: "list_mtp_devices_with_known (Ok [demo_phone]) [] = Ok [d]"
    by (simp add: list_mtp_devices_with_known_def List.map_filter_def)
  have e: "\<exists>dw. enumerate_devices (observed [] demo_env) (demo_watch\<lparr>dw_started := True\<rparr>) ((), {})
      = (dw, (), {DeviceKey_of (MtpDeviceInfo_from_usb d)}) \<and> dw_pending dw = [Arrived (MtpDeviceInfo_from_usb d)]"
    by (simp add: enumerate_devices_def demo_env_def observed_def listed_keys_def l demo_watch_def diff_def by_key_def)
  then show ?thesis
    by (subst poll_next.simps) (auto simp: demo_watch_def poll_next.simps)
qed

theorem events_add_up_witness:
  "\<exists>info dw. watch_run demo_env demo_watch [Arrived info] dw {DeviceKey_of info} \<and>
    sensible ([Arrived info] @ dw_pending dw) {} \<and> replay ([Arrived info] @ dw_pending dw) {} = {DeviceKey_of info}"
proof -
  obtain info dw where "poll_next (observed [] demo_env) demo_watch ((), {}) = Some (Ready (Some (Arrived info)), dw, (), {DeviceKey_of info})"
    using demo_first_poll by blast
  moreover have "dw_known_devices demo_watch = []" by (simp add: demo_watch_def)
  ultimately have run: "watch_run demo_env demo_watch ([] @ [Arrived info]) dw {DeviceKey_of info}"
    using watch_run.handed [OF watch_run.start, of demo_watch demo_env] by metis
  have "shuffles demo_env" by (simp add: shuffles_def demo_env_def)
  from events_add_up [OF this demo_watch_starts [unfolded watch_devices_def] run [unfolded append_Nil]] run
  show ?thesis by auto
qed

text \<open>The note changes nothing: a poll of the observed environment is a poll of the environment.\<close>

lemma enumerate_observed:
  "\<exists>seen'. enumerate_devices (observed known env) dw (w, seen) =
     (case enumerate_devices env dw w of (dw', w') \<Rightarrow> (dw', w', seen'))"
  by (auto simp: enumerate_devices_def observed_def split: prod.split outcome.split)

lemma observing_changes_nothing:
  assumes "poll_next (observed known env) dw (w, seen) = Some (r, dw', w', seen')"
  shows "poll_next env dw w = Some (r, dw', w')"
proof -
  let ?env = "observed known env"
  have "?env = ?env \<longrightarrow> poll_next env dw (fst (w, seen)) = Some (fst (r, dw', w', seen'), fst (snd (r, dw', w', seen')),
      fst (snd (snd (r, dw', w', seen'))))"
  proof (rule poll_next.raw_induct [where P = "\<lambda>env' dw w y. env' = ?env \<longrightarrow>
        poll_next env dw (fst w) = Some (fst y, fst (snd y), fst (snd (snd y)))", OF _ assms], intro impI, goal_cases)
    case (1 loop env' dw w y)
    note IH = 1(1) [rule_format, OF _ 1(3)]
    obtain w0 seen where w: "w = (w0, seen)" by (cases w)
    obtain r1 dw1 w1 seen1 where y: "y = (r1, dw1, w1, seen1)" by (cases y)
    obtain s1 where s1: "enumerate_devices ?env (dw\<lparr>dw_started := True\<rparr>) (w0, seen)
        = (case enumerate_devices env (dw\<lparr>dw_started := True\<rparr>) w0 of (dw', w') \<Rightarrow> (dw', w', s1))"
      using enumerate_observed [of known env "dw\<lparr>dw_started := True\<rparr>" w0 seen] by blast
    have s2: "\<exists>s2. enumerate_devices ?env (dw\<lparr>dw_settling := None\<rparr>) (w2, seen)
        = (case enumerate_devices env (dw\<lparr>dw_settling := None\<rparr>) w2 of (dw', w') \<Rightarrow> (dw', w', s2))" for w2
      by (rule enumerate_observed)
    show ?case
    proof (cases "dw_pending dw")
      case (Cons e rest)
      then show ?thesis using 1(2) by (subst poll_next.simps) (auto simp: w y)
    next
      case Nil
      show ?thesis
      proof (cases "dw_started dw")
        case False
        then show ?thesis using 1(2,3) Nil s1 IH
          by (subst poll_next.simps) (auto simp: w y split: prod.splits)
      next
        case started: True
        show ?thesis
        proof (cases "dw_settling dw")
          case None
          then show ?thesis using 1(2,3) Nil started IH
            by (subst poll_next.simps) (auto simp: w y he_poll_usb_observed split: prod.splits usb_poll.splits)
        next
          case (Some delay)
          obtain over w2 where p: "poll_settle env delay w0 = (over, w2)" by fastforce
          obtain s3 where "enumerate_devices ?env (dw\<lparr>dw_settling := None\<rparr>) (w2, seen)
            = (case enumerate_devices env (dw\<lparr>dw_settling := None\<rparr>) w2 of (dw', w') \<Rightarrow> (dw', w', s3))" using s2 by blast
          then show ?thesis using 1(2,3) Nil started Some p IH
            by (subst poll_next.simps) (auto simp: w y poll_settle_observed split: prod.splits if_splits)
        qed
      qed
    qed
  qed
  then show ?thesis by simp
qed

end
