(* ===== verification/Virtual_Registry.thy ===== *)
theory Virtual_Registry
  imports Virtual_Watcher Mtp_Hotplug
begin

text \<open>
  The registry of virtual devices, \<open>transport/virtual_device/registry.rs\<close>: the devices a client can discover, the running devices
  found by their serial number, the guards that pause a watcher and the hooks of the tests. The two process-wide lists and the shared
  states are one value: a reference to a state is its position among all states made so far.
\<close>

section \<open>Discovery\<close>

definition VIRTUAL_LOCATION_BASE :: u64 where "VIRTUAL_LOCATION_BASE = 0xFFFF000000000000"

record VirtualRegistration =
  vr_info :: MtpDeviceInfo
  vr_config :: VirtualDeviceConfig

record Registry =
  rg_devices :: "VirtualRegistration list"
  rg_next_index :: u64

definition empty_registry :: Registry where
  "empty_registry = \<lparr>rg_devices = [], rg_next_index = 0\<rparr>"

definition register_virtual_device :: "VirtualDeviceConfig \<Rightarrow> Registry \<Rightarrow> MtpDeviceInfo \<times> Registry" where
  "register_virtual_device config reg =
     (let location_id = VIRTUAL_LOCATION_BASE + rg_next_index reg;
          info = \<lparr>md_vendor_id = 0xFFFF, md_product_id = 0x0001, md_manufacturer = Some (vc_manufacturer config),
            md_product = Some (vc_model config), md_serial_number = Some (vc_serial config), md_location_id = location_id,
            md_speed = None, md_match_reason = KnownVidPid\<rparr>
      in (info, reg\<lparr>rg_next_index := rg_next_index reg + 1,
            rg_devices := rg_devices reg @ [\<lparr>vr_info = info, vr_config = config\<rparr>]\<rparr>))"

definition unregister_virtual_device :: "u64 \<Rightarrow> Registry \<Rightarrow> Registry" where
  "unregister_virtual_device location_id reg =
     reg\<lparr>rg_devices := filter (\<lambda>r. md_location_id (vr_info r) \<noteq> location_id) (rg_devices reg)\<rparr>"

definition list_virtual_devices :: "Registry \<Rightarrow> MtpDeviceInfo list" where
  "list_virtual_devices reg = map vr_info (rg_devices reg)"

definition find_virtual_config_by_location :: "u64 \<Rightarrow> Registry \<Rightarrow> VirtualDeviceConfig option" where
  "find_virtual_config_by_location location_id reg =
     map_option vr_config (List.find (\<lambda>r. md_location_id (vr_info r) = location_id) (rg_devices reg))"

definition find_virtual_config_by_serial :: "rstr \<Rightarrow> Registry \<Rightarrow> VirtualDeviceConfig option" where
  "find_virtual_config_by_serial serial reg =
     map_option vr_config (List.find (\<lambda>r. md_serial_number (vr_info r) = Some serial) (rg_devices reg))"

section \<open>Running devices\<close>

record VirtualWorld =
  vw_states :: "WatchedDevice list"
  vw_active :: "(rstr \<times> nat) list"

definition register_active_state :: "rstr \<Rightarrow> nat \<Rightarrow> VirtualWorld \<Rightarrow> VirtualWorld" where
  "register_active_state serial state w = w\<lparr>vw_active := vw_active w @ [(serial, state)]\<rparr>"

fun remove_first :: "('a \<Rightarrow> bool) \<Rightarrow> 'a list \<Rightarrow> 'a list" where
  "remove_first found [] = []"
| "remove_first found (x # xs) = (if found x then xs else x # remove_first found xs)"

definition unregister_active_state :: "rstr \<Rightarrow> VirtualWorld \<Rightarrow> VirtualWorld" where
  "unregister_active_state serial w = w\<lparr>vw_active := remove_first (\<lambda>(s, _). s = serial) (vw_active w)\<rparr>"

definition active_state :: "rstr \<Rightarrow> VirtualWorld \<Rightarrow> nat option" where
  "active_state serial w = map_option snd (List.find (\<lambda>(s, _). s = serial) (vw_active w))"

definition update_state :: "nat \<Rightarrow> (WatchedDevice \<Rightarrow> WatchedDevice) \<Rightarrow> VirtualWorld \<Rightarrow> VirtualWorld" where
  "update_state i f w = w\<lparr>vw_states := (vw_states w)[i := f (vw_states w ! i)]\<rparr>"

record VirtualTransport =
  vt_state :: nat
  vt_event_poll_interval :: nat
  vt_serial :: rstr
  vt_watcher :: "StorageMap option"

definition VirtualTransport_new ::
  "bool \<Rightarrow> Host \<Rightarrow> VirtualDeviceConfig \<Rightarrow> VirtualWorld \<Rightarrow> VirtualTransport \<times> VirtualWorld" where
  "VirtualTransport_new watcher_available h config w =
     (let device = VirtualDeviceState_new h config;
          state = length (vw_states w);
          w = w\<lparr>vw_states := vw_states w @ [\<lparr>wd_device = device, wd_pause_count = 0, wd_dropped_paths = []\<rparr>]\<rparr>;
          w = register_active_state (vc_serial config) state w;
          watcher = (if vc_watch_backing_dirs config then start_fs_watcher watcher_available device else None)
      in (\<lparr>vt_state = state, vt_event_poll_interval = vc_event_poll_interval config, vt_serial = vc_serial config,
           vt_watcher = watcher\<rparr>, w))"

definition VirtualTransport_drop :: "VirtualTransport \<Rightarrow> VirtualWorld \<Rightarrow> VirtualWorld" where
  "VirtualTransport_drop t = unregister_active_state (vt_serial t)"

section \<open>Pausing a watcher\<close>

record WatcherGuard =
  wg_state :: nat

definition pause_watcher :: "rstr \<Rightarrow> VirtualWorld \<Rightarrow> WatcherGuard option \<times> VirtualWorld" where
  "pause_watcher serial w =
     (case active_state serial w of
        None \<Rightarrow> (None, w)
      | Some i \<Rightarrow> (Some \<lparr>wg_state = i\<rparr>, update_state i (\<lambda>wd. wd\<lparr>wd_pause_count := wd_pause_count wd + 1\<rparr>) w))"

definition saturating_pred :: "u32 \<Rightarrow> u32" where
  "saturating_pred n = (if n = 0 then 0 else n - 1)"

definition WatcherGuard_drop :: "WatcherGuard \<Rightarrow> VirtualWorld \<Rightarrow> VirtualWorld" where
  "WatcherGuard_drop g =
     update_state (wg_state g) (\<lambda>wd. wd\<lparr>wd_pause_count := saturating_pred (wd_pause_count wd)\<rparr>)"

text \<open>What the other functions share: the state with the serial, a default when there is none, and the change of its device.\<close>

definition on_active :: "rstr \<Rightarrow> 'a \<Rightarrow> (WatchedDevice \<Rightarrow> 'a \<times> WatchedDevice) \<Rightarrow> VirtualWorld \<Rightarrow> 'a \<times> VirtualWorld" where
  "on_active serial otherwise f w =
     (case active_state serial w of
        None \<Rightarrow> (otherwise, w)
      | Some i \<Rightarrow> (fst (f (vw_states w ! i)), update_state i (\<lambda>wd. snd (f wd)) w))"

definition on_device :: "(VirtualDeviceState \<Rightarrow> 'a \<times> VirtualDeviceState) \<Rightarrow> WatchedDevice \<Rightarrow> 'a \<times> WatchedDevice" where
  "on_device f wd = (case f (wd_device wd) of (r, st) \<Rightarrow> (r, wd\<lparr>wd_device := st\<rparr>))"

definition dropped_paths_since_pause :: "rstr \<Rightarrow> VirtualWorld \<Rightarrow> PathBuf list" where
  "dropped_paths_since_pause serial w =
     (case active_state serial w of None \<Rightarrow> [] | Some i \<Rightarrow> wd_dropped_paths (vw_states w ! i))"

fun component_text :: "component \<Rightarrow> rstr" where
  "component_text RootDir = []"
| "component_text CurDir = str ''.''"
| "component_text ParentDir = str ''..''"
| "component_text (Normal name) = name"

fun path_text :: "PathBuf \<Rightarrow> rstr" where
  "path_text [] = []"
| "path_text [c] = (if c = RootDir then str ''/'' else component_text c)"
| "path_text (c # cs) = component_text c @ str ''/'' @ path_text cs"

definition was_path_dropped :: "rstr \<Rightarrow> rstr \<Rightarrow> VirtualWorld \<Rightarrow> bool" where
  "was_path_dropped serial suf w = list_ex (\<lambda>p. suffix suf (path_text p)) (dropped_paths_since_pause serial w)"

definition clear_dropped_paths :: "rstr \<Rightarrow> VirtualWorld \<Rightarrow> unit \<times> VirtualWorld" where
  "clear_dropped_paths serial = on_active serial () (\<lambda>wd. ((), wd\<lparr>wd_dropped_paths := []\<rparr>))"

section \<open>Hooks\<close>

definition rescan_virtual_device :: "rstr \<Rightarrow> VirtualWorld \<Rightarrow> RescanSummary option \<times> VirtualWorld" where
  "rescan_virtual_device serial = on_active serial None (on_device (\<lambda>st. apfst Some (rescan_backing_dirs st)))"

definition rekey_virtual_object ::
  "rstr \<Rightarrow> PathBuf \<Rightarrow> VirtualWorld \<Rightarrow> (ObjectHandle \<times> ObjectHandle) option \<times> VirtualWorld" where
  "rekey_virtual_object serial rel_path = on_active serial None (on_device (rekey_object rel_path))"

definition force_partial_read_caps :: "rstr \<Rightarrow> usize list \<Rightarrow> VirtualWorld \<Rightarrow> bool \<times> VirtualWorld" where
  "force_partial_read_caps serial caps =
     on_active serial False (on_device (\<lambda>st. (True, st\<lparr>vd_forced_partial_read_caps := caps\<rparr>)))"

definition force_object_info_error :: "rstr \<Rightarrow> u64 \<Rightarrow> u16 option \<Rightarrow> VirtualWorld \<Rightarrow> bool \<times> VirtualWorld" where
  "force_object_info_error serial handle response =
     on_active serial False (on_device (\<lambda>st. (True, st\<lparr>vd_forced_object_info_errors :=
       AList.update (ucast handle) (case response of Some code \<Rightarrow> code | None \<Rightarrow> GENERAL_ERROR)
         (vd_forced_object_info_errors st)\<rparr>)))"

definition clear_object_info_errors :: "rstr \<Rightarrow> VirtualWorld \<Rightarrow> bool \<times> VirtualWorld" where
  "clear_object_info_errors serial = on_active serial False (on_device (\<lambda>st. (True, st\<lparr>vd_forced_object_info_errors := []\<rparr>)))"

definition force_cancel_wedge :: "rstr \<Rightarrow> VirtualWorld \<Rightarrow> bool \<times> VirtualWorld" where
  "force_cancel_wedge serial = on_active serial False (on_device (\<lambda>st. (True, st\<lparr>vd_pending_cancel_wedge := True\<rparr>)))"

definition force_operation_wedge :: "rstr \<Rightarrow> VirtualWorld \<Rightarrow> bool \<times> VirtualWorld" where
  "force_operation_wedge serial = on_active serial False (on_device (\<lambda>st. (True, st\<lparr>vd_pending_operation_wedge := True\<rparr>)))"

section \<open>Registered devices are found\<close>

lemma find_skips: "List.find P xs = None \<Longrightarrow> List.find P (xs @ ys) = List.find P ys"
  by (induction xs) (auto split: if_splits)

lemma find_keeps: "\<not> P y \<Longrightarrow> List.find P (xs @ [y]) = List.find P xs"
  by (induction xs) auto

datatype registry_call = Register VirtualDeviceConfig | Unregister u64

fun call_registry :: "registry_call \<Rightarrow> Registry \<Rightarrow> Registry" where
  "call_registry (Register config) reg = snd (register_virtual_device config reg)"
| "call_registry (Unregister location_id) reg = unregister_virtual_device location_id reg"

definition places_below :: "Registry \<Rightarrow> nat \<Rightarrow> bool" where
  "places_below reg n \<longleftrightarrow> rg_next_index reg = word_of_nat n \<and> distinct (map (md_location_id \<circ> vr_info) (rg_devices reg)) \<and>
     (\<forall>r\<in>set (rg_devices reg). \<exists>i<n. md_location_id (vr_info r) = VIRTUAL_LOCATION_BASE + word_of_nat i)"

lemma location_inj:
  assumes "i < 2 ^ 48" "j < 2 ^ 48" "(VIRTUAL_LOCATION_BASE + word_of_nat i) = VIRTUAL_LOCATION_BASE + word_of_nat j"
  shows "i = j"
proof -
  from assms(3) have "(word_of_nat i :: u64) = word_of_nat j" by simp
  then have "unat (word_of_nat i :: u64) = unat (word_of_nat j :: u64)" by simp
  with assms(1,2) show ?thesis by (simp add: unat_of_nat)
qed

lemma register_places:
  assumes "places_below reg n" "n < 2 ^ 48" "register_virtual_device config reg = (info, reg')"
  shows "places_below reg' (Suc n)" "\<forall>r\<in>set (rg_devices reg). md_location_id (vr_info r) \<noteq> md_location_id info"
proof -
  have info: "md_location_id info = VIRTUAL_LOCATION_BASE + word_of_nat n"
    and reg': "rg_devices reg' = rg_devices reg @ [\<lparr>vr_info = info, vr_config = config\<rparr>]" "rg_next_index reg' = word_of_nat (Suc n)"
    using assms(1,3) by (auto simp: register_virtual_device_def Let_def places_below_def add.commute)
  show new: "\<forall>r\<in>set (rg_devices reg). md_location_id (vr_info r) \<noteq> md_location_id info"
  proof
    fix r assume "r \<in> set (rg_devices reg)"
    then obtain i where "i < n" "md_location_id (vr_info r) = VIRTUAL_LOCATION_BASE + word_of_nat i"
      using assms(1) by (auto simp: places_below_def)
    with location_inj [of i n] assms(2) info show "md_location_id (vr_info r) \<noteq> md_location_id info" by fastforce
  qed
  with assms(1) show "places_below reg' (Suc n)"
    unfolding places_below_def reg' using info by (auto simp: less_Suc_eq)
qed

lemma unregister_places: "places_below reg n \<Longrightarrow> places_below (unregister_virtual_device location_id reg) n"
  by (auto simp: places_below_def unregister_virtual_device_def distinct_map_filter)

lemma cs_places:
  "places_below reg n \<Longrightarrow> n + length cs < 2 ^ 48 \<Longrightarrow> \<exists>m. m \<le> n + length cs \<and> places_below (fold call_registry cs reg) m"
proof (induction cs arbitrary: reg n)
  case (Cons call cs)
  show ?case
  proof (cases call)
    case (Register config)
    then have "places_below (call_registry call reg) (Suc n)"
      using register_places(1) [OF Cons.prems(1), of config] Cons.prems(2) by (simp add: prod_eq_iff)
    from Cons.IH [OF this] Cons.prems(2) show ?thesis by auto
  next
    case (Unregister location_id)
    then have "places_below (call_registry call reg) n" using Cons.prems(1) by (simp add: unregister_places)
    from Cons.IH [OF this] Cons.prems(2) show ?thesis by (auto simp: le_Suc_eq)
  qed
qed auto

lemma reached_places:
  assumes "length cs < 2 ^ 48 - 1"
  shows "\<exists>m < 2 ^ 48. places_below (fold call_registry cs empty_registry) m"
proof -
  have "places_below empty_registry 0" by (simp add: places_below_def empty_registry_def)
  from cs_places [OF this, of cs] assms obtain m
    where "m \<le> length cs" "places_below (fold call_registry cs empty_registry) m" by auto
  with assms show ?thesis by (intro exI [of _ m]) simp
qed

lemma register_found:
  assumes "places_below reg m" "m < 2 ^ 48" "register_virtual_device config reg = (info, reg')"
  shows "find_virtual_config_by_location (md_location_id info) reg' = Some config"
proof -
  have reg': "rg_devices reg' = rg_devices reg @ [\<lparr>vr_info = info, vr_config = config\<rparr>]"
    using assms(3) by (auto simp: register_virtual_device_def Let_def)
  have "List.find (\<lambda>r. md_location_id (vr_info r) = md_location_id info) (rg_devices reg) = None"
    using register_places(2) [OF assms] by (simp add: find_None_iff)
  then show ?thesis by (simp add: find_virtual_config_by_location_def reg' find_skips)
qed

text \<open>
  Every registered virtual device can be told from the others and opened by its location. After any calls to the registry the
  listed locations are distinct; the location a registration returns leads to exactly the configuration registered, no other
  location changes its meaning, and unregistering it restores the devices there were.
\<close>

theorem registered_found:
  assumes "length cs < 2 ^ 48 - 1" "reg = fold call_registry cs empty_registry" "register_virtual_device config reg = (info, reg')"
  shows "distinct (map md_location_id (list_virtual_devices reg')) \<and>
    find_virtual_config_by_location (md_location_id info) reg' = Some config \<and>
    (\<forall>loc. loc \<noteq> md_location_id info \<longrightarrow>
       find_virtual_config_by_location loc reg' = find_virtual_config_by_location loc reg) \<and>
    rg_devices (unregister_virtual_device (md_location_id info) reg') = rg_devices reg"
proof -
  from reached_places [OF assms(1)] assms(2) obtain m where m: "m < 2 ^ 48" "places_below reg m" by blast
  note after = register_places [OF m(2,1) assms(3)]
  have reg': "rg_devices reg' = rg_devices reg @ [\<lparr>vr_info = info, vr_config = config\<rparr>]"
    using assms(3) by (auto simp: register_virtual_device_def Let_def)
  have "find_virtual_config_by_location (md_location_id info) reg' = Some config" using register_found [OF m(2,1) assms(3)] .
  moreover have "filter (\<lambda>r. md_location_id (vr_info r) \<noteq> md_location_id info) (rg_devices reg) = rg_devices reg"
    using after(2) by (simp add: filter_id_conv)
  moreover have "distinct (map md_location_id (list_virtual_devices reg'))"
    using after(1) by (simp add: places_below_def list_virtual_devices_def comp_def)
  ultimately show ?thesis
    by (auto simp: find_virtual_config_by_location_def reg' unregister_virtual_device_def find_skips find_keeps)
qed

theorem registered_found_witness:
  "find_virtual_config_by_location VIRTUAL_LOCATION_BASE (snd (register_virtual_device VirtualDeviceConfig_default empty_registry)) =
     Some VirtualDeviceConfig_default"
proof -
  have "md_location_id (fst (register_virtual_device VirtualDeviceConfig_default empty_registry)) = VIRTUAL_LOCATION_BASE"
    by (simp add: register_virtual_device_def empty_registry_def Let_def)
  then show ?thesis
    using registered_found [of "[]" empty_registry VirtualDeviceConfig_default, OF _ _ surjective_pairing] by simp
qed

section \<open>The watcher is paused while a guard is alive\<close>

text \<open>
  Everything that can happen to running devices: opening and closing them, pausing and resuming, what the transport does with the
  device's state, the hooks, and the notifications of the watchers. The transports and the guards alive are part of the state.
  A guard is a value in memory, so there are fewer than \<open>2 ^ 32\<close>.
\<close>

type_synonym running_world = "VirtualWorld \<times> VirtualTransport list \<times> WatcherGuard list"

inductive world_step :: "running_world \<Rightarrow> running_world \<Rightarrow> bool" where
  opened: "VirtualTransport_new watcher_available h config w = (t, w') \<Longrightarrow> world_step (w, ts, gs) (w', t # ts, gs)"
| closed: "t \<in> set ts \<Longrightarrow> world_step (w, ts, gs) (VirtualTransport_drop t w, remove1 t ts, gs)"
| paused: "pause_watcher serial w = (Some g, w') \<Longrightarrow> length gs + 1 < 2 ^ 32 \<Longrightarrow> world_step (w, ts, gs) (w', ts, g # gs)"
| resumed: "g \<in> set gs \<Longrightarrow> world_step (w, ts, gs) (WatcherGuard_drop g w, ts, remove1 g gs)"
| transferred: "t \<in> set ts \<Longrightarrow> world_step (w, ts, gs) (update_state (vt_state t) (\<lambda>wd. wd\<lparr>wd_device := f (wd_device wd)\<rparr>) w, ts, gs)"
| notified: "t \<in> set ts \<Longrightarrow> vt_watcher t = Some m \<Longrightarrow>
    world_step (w, ts, gs) (update_state (vt_state t) (handle_notify_event m event) w, ts, gs)"
| rescanned: "rescan_virtual_device serial w = (r, w') \<Longrightarrow> world_step (w, ts, gs) (w', ts, gs)"
| rekeyed: "rekey_virtual_object serial rel w = (r', w') \<Longrightarrow> world_step (w, ts, gs) (w', ts, gs)"
| cleared: "clear_dropped_paths serial w = ((), w') \<Longrightarrow> world_step (w, ts, gs) (w', ts, gs)"
| caps: "force_partial_read_caps serial cs w = (b, w') \<Longrightarrow> world_step (w, ts, gs) (w', ts, gs)"
| refused: "force_object_info_error serial handle code w = (b, w') \<Longrightarrow> world_step (w, ts, gs) (w', ts, gs)"
| described: "clear_object_info_errors serial w = (b, w') \<Longrightarrow> world_step (w, ts, gs) (w', ts, gs)"
| cancel_wedge: "force_cancel_wedge serial w = (b, w') \<Longrightarrow> world_step (w, ts, gs) (w', ts, gs)"
| operation_wedge: "force_operation_wedge serial w = (b, w') \<Longrightarrow> world_step (w, ts, gs) (w', ts, gs)"

definition guards_on :: "WatcherGuard list \<Rightarrow> nat \<Rightarrow> nat" where
  "guards_on gs i = length (filter (\<lambda>g. wg_state g = i) gs)"

definition balanced :: "running_world \<Rightarrow> bool" where
  "balanced x \<longleftrightarrow> (case x of (w, ts, gs) \<Rightarrow>
     (\<forall>i < length (vw_states w). unat (wd_pause_count (vw_states w ! i)) = guards_on gs i) \<and>
     (\<forall>e\<in>set (vw_active w). snd e < length (vw_states w)) \<and> (\<forall>t\<in>set ts. vt_state t < length (vw_states w)) \<and>
     (\<forall>g\<in>set gs. wg_state g < length (vw_states w)) \<and> length gs < 2 ^ 32)"

lemma guards_on_less: "guards_on gs i \<le> length gs"
  by (simp add: guards_on_def)

lemma guards_on_Cons: "guards_on (g # gs) i = guards_on gs i + (if wg_state g = i then 1 else 0)"
  by (simp add: guards_on_def)

lemma guards_on_remove1: "g \<in> set gs \<Longrightarrow> guards_on (remove1 g gs) i = guards_on gs i - (if wg_state g = i then 1 else 0)"
proof (induction gs)
  case (Cons a gs)
  show ?case
  proof (cases "g = a")
    case False
    with Cons.prems have g: "g \<in> set gs" by simp
    then have "wg_state g = i \<Longrightarrow> guards_on gs i > 0" by (auto simp: guards_on_def filter_empty_conv)
    with Cons.IH [OF g] False show ?thesis by (simp add: guards_on_Cons)
  qed (simp add: guards_on_Cons)
qed simp

lemma find_mem: "List.find P xs = Some x \<Longrightarrow> x \<in> set xs"
  by (induction xs) (auto split: if_splits)

lemma active_known: "active_state serial w = Some i \<Longrightarrow> balanced (w, ts, gs) \<Longrightarrow> i < length (vw_states w)"
  unfolding active_state_def balanced_def using find_mem by fastforce

lemma update_balanced:
  assumes "balanced (w, ts, gs)" "\<And>wd. wd_pause_count (f wd) = wd_pause_count wd"
  shows "balanced (update_state i f w, ts, gs)"
proof (cases "i < length (vw_states w)")
  case True
  with assms show ?thesis by (auto simp: balanced_def update_state_def nth_list_update)
next
  case False
  then have "update_state i f w = w" by (simp add: update_state_def list_update_beyond)
  with assms(1) show ?thesis by simp
qed

lemma on_active_balanced:
  assumes "balanced (w, ts, gs)" "on_active serial d f w = (r, w')" "\<And>wd. wd_pause_count (snd (f wd)) = wd_pause_count wd"
  shows "balanced (w', ts, gs)"
  using assms update_balanced [where f = "\<lambda>wd. snd (f wd)"] by (auto simp: on_active_def split: option.splits)

lemma on_device_pause: "wd_pause_count (snd (on_device f wd)) = wd_pause_count wd"
  by (simp add: on_device_def split: prod.split)

lemma notified_pause: "wd_pause_count (handle_notify_event m event wd) = wd_pause_count wd"
proof -
  have "wd_pause_count (fold (handle_path m kind) ps wd) = wd_pause_count wd" for kind ps
    by (induction ps arbitrary: wd) (simp_all add: handled_paused(1))
  then show ?thesis by (simp add: handle_notify_event_def)
qed

lemma set_remove_first: "set (remove_first found xs) \<subseteq> set xs"
  by (induction xs) auto

lemma opened_balanced:
  assumes "balanced (w, ts, gs)" "VirtualTransport_new available h config w = (t, w')"
  shows "balanced (w', t # ts, gs)"
proof -
  have w': "vw_states w' = vw_states w @ [\<lparr>wd_device = VirtualDeviceState_new h config, wd_pause_count = 0, wd_dropped_paths = []\<rparr>]"
    "vw_active w' = vw_active w @ [(vc_serial config, length (vw_states w))]" "vt_state t = length (vw_states w)"
    using assms(2) by (auto simp: VirtualTransport_new_def register_active_state_def Let_def)
  have "guards_on gs (length (vw_states w)) = 0"
    using assms(1) by (auto simp: balanced_def guards_on_def filter_empty_conv)
  with assms(1) show ?thesis
    unfolding balanced_def prod.case w'(1,2) by (auto simp: nth_append less_Suc_eq w'(3))
qed

lemma closed_balanced: "balanced (w, ts, gs) \<Longrightarrow> balanced (VirtualTransport_drop t w, remove1 t ts, gs)"
  using set_remove_first [of "\<lambda>(s, _). s = vt_serial t" "vw_active w"] set_remove1_subset [of t ts]
  by (auto simp: balanced_def VirtualTransport_drop_def unregister_active_state_def)

lemma paused_balanced:
  assumes "balanced (w, ts, gs)" "pause_watcher serial w = (Some g, w')" "length gs + 1 < 2 ^ 32"
  shows "balanced (w', ts, g # gs)"
proof -
  obtain i where i: "active_state serial w = Some i" and g: "wg_state g = i"
    and w': "w' = update_state i (\<lambda>wd. wd\<lparr>wd_pause_count := wd_pause_count wd + 1\<rparr>) w"
    using assms(2) by (auto simp: pause_watcher_def split: option.splits)
  have known: "i < length (vw_states w)" using i assms(1) by (rule active_known)
  let ?n = "wd_pause_count (vw_states w ! i)"
  have "unat ?n = guards_on gs i" using assms(1) known by (simp add: balanced_def)
  moreover have "unat (?n + 1) = unat ?n + 1"
    using calculation guards_on_less [of gs i] assms(3) by (simp add: unat_word_ariths)
  ultimately show ?thesis
    using assms(1,3) known g unfolding w'
    by (auto simp: balanced_def update_state_def nth_list_update guards_on_Cons)
qed

lemma resumed_balanced:
  assumes "balanced (w, ts, gs)" "g \<in> set gs"
  shows "balanced (WatcherGuard_drop g w, ts, remove1 g gs)"
proof -
  let ?i = "wg_state g"
  have known: "?i < length (vw_states w)" using assms by (simp add: balanced_def)
  then have n: "unat (wd_pause_count (vw_states w ! ?i)) = guards_on gs ?i" using assms(1) by (simp add: balanced_def)
  have "guards_on gs ?i > 0" using assms(2) by (auto simp: guards_on_def filter_empty_conv)
  with n have "unat (saturating_pred (wd_pause_count (vw_states w ! ?i))) = guards_on gs ?i - 1"
    by (auto simp: saturating_pred_def unat_minus_one)
  with assms known show ?thesis
    using set_remove1_subset [of g gs]
    by (auto simp: balanced_def WatcherGuard_drop_def update_state_def nth_list_update guards_on_remove1 length_remove1)
qed

lemma step_balanced: "world_step x y \<Longrightarrow> balanced x \<Longrightarrow> balanced y"
proof (induction rule: world_step.induct)
  case opened
  then show ?case by (rule opened_balanced [rotated])
next
  case closed
  show ?case by (rule closed_balanced) fact
next
  case paused
  then show ?case by (blast intro: paused_balanced)
next
  case resumed
  then show ?case by (blast intro: resumed_balanced)
qed (auto simp: rescan_virtual_device_def rekey_virtual_object_def clear_dropped_paths_def force_partial_read_caps_def
    force_object_info_error_def clear_object_info_errors_def force_cancel_wedge_def force_operation_wedge_def
    on_device_pause notified_pause intro: update_balanced elim: on_active_balanced)

definition no_devices :: running_world where
  "no_devices = (\<lparr>vw_states = [], vw_active = []\<rparr>, [], [])"

lemma run_balanced: "world_step\<^sup>*\<^sup>* no_devices x \<Longrightarrow> balanced x"
proof (induction rule: rtranclp_induct)
  case base
  show ?case by (simp add: no_devices_def balanced_def)
next
  case (step x y)
  then show ?case by (blast intro: step_balanced)
qed

lemma notified_while_paused:
  assumes "wd_pause_count wd > 0"
  shows "wd_device (handle_notify_event m event wd) = wd_device wd"
proof -
  have "wd_pause_count wd > 0 \<Longrightarrow> wd_device (fold (handle_path m kind) ps wd) = wd_device wd" for kind ps
    by (induction ps arbitrary: wd) (simp_all add: handled_paused)
  with assms show ?thesis by (simp add: handle_notify_event_def)
qed

text \<open>
  C14: A watcher is paused exactly while a guard for its device is alive. Whatever is opened, closed, paused, resumed, transferred,
  notified or forced in whatever order, the pause count of every device is the number of its guards alive; so while there is
  one, no notification changes the device, and when the last is gone the count is zero and notifications count again.
\<close>

theorem guards_pause:
  assumes "world_step\<^sup>*\<^sup>* no_devices (w, ts, gs)" "i < length (vw_states w)"
  shows "unat (wd_pause_count (vw_states w ! i)) = guards_on gs i \<and>
    (\<forall>g\<in>set gs. \<forall>m event. wd_device (handle_notify_event m event (vw_states w ! wg_state g)) = wd_device (vw_states w ! wg_state g)) \<and>
    (i \<notin> wg_state ` set gs \<longrightarrow> wd_pause_count (vw_states w ! i) = 0)"
proof -
  have b: "balanced (w, ts, gs)" using assms(1) by (rule run_balanced)
  then have n: "unat (wd_pause_count (vw_states w ! i)) = guards_on gs i" using assms(2) by (simp add: balanced_def)
  have "wd_pause_count (vw_states w ! wg_state g) > 0" if "g \<in> set gs" for g
  proof -
    have "unat (wd_pause_count (vw_states w ! wg_state g)) = guards_on gs (wg_state g)"
      using b that by (simp add: balanced_def)
    moreover have "guards_on gs (wg_state g) > 0" using that by (auto simp: guards_on_def filter_empty_conv)
    ultimately show ?thesis by (simp add: word_less_nat_alt)
  qed
  then have "\<forall>g\<in>set gs. \<forall>m event. wd_device (handle_notify_event m event (vw_states w ! wg_state g)) =
      wd_device (vw_states w ! wg_state g)"
    by (blast intro: notified_while_paused)
  moreover have "wd_pause_count (vw_states w ! i) = 0" if "i \<notin> wg_state ` set gs"
  proof -
    have "guards_on gs i = 0" using that by (auto simp: guards_on_def filter_empty_conv)
    with n show ?thesis by (simp add: unat_eq_0)
  qed
  ultimately show ?thesis using n by blast
qed

text \<open>One device with one guard.\<close>

definition demo_opened :: "VirtualTransport \<times> VirtualWorld" where
  "demo_opened = VirtualTransport_new False demo_host VirtualDeviceConfig_default (fst no_devices)"

definition demo_world :: VirtualWorld where
  "demo_world = snd (pause_watcher (vc_serial VirtualDeviceConfig_default) (snd demo_opened))"

lemma demo_world_states:
  "vw_states demo_world = [\<lparr>wd_device = VirtualDeviceState_new demo_host VirtualDeviceConfig_default, wd_pause_count = 1, wd_dropped_paths = []\<rparr>]"
  "pause_watcher (vc_serial VirtualDeviceConfig_default) (snd demo_opened) = (Some \<lparr>wg_state = 0\<rparr>, demo_world)"
  by (simp_all add: demo_world_def demo_opened_def VirtualTransport_new_def no_devices_def register_active_state_def pause_watcher_def
      active_state_def update_state_def Let_def)

lemma demo_world_reached: "world_step\<^sup>*\<^sup>* no_devices (demo_world, [fst demo_opened], [\<lparr>wg_state = 0\<rparr>])"
proof -
  have "world_step no_devices (snd demo_opened, [fst demo_opened], [])"
    using world_step.opened [of False demo_host VirtualDeviceConfig_default "fst no_devices"]
    by (simp add: demo_opened_def no_devices_def prod_eq_iff)
  moreover have "world_step (snd demo_opened, [fst demo_opened], []) (demo_world, [fst demo_opened], [\<lparr>wg_state = 0\<rparr>])"
    by (rule world_step.paused [OF demo_world_states(2)]) simp
  ultimately show ?thesis by (meson converse_rtranclp_into_rtranclp r_into_rtranclp)
qed

theorem guards_pause_witness:
  "unat (wd_pause_count (vw_states demo_world ! 0)) = 1 \<and>
   wd_device (handle_notify_event (storage_map Virtual_Device.demo_device) Virtual_Watcher.demo_event (vw_states demo_world ! 0)) =
     VirtualDeviceState_new demo_host VirtualDeviceConfig_default"
  using guards_pause [OF demo_world_reached, of 0] by (simp add: demo_world_states guards_on_def)

section \<open>Devices that share a serial number\<close>

text \<open>
  C22: Devices of the same serial number are confused when one is closed. Opening two and closing the second leaves the closed one
  registered and makes the one still open unreachable: the entry removed is the first with the serial, not the closed device's own.
  A guard taken next pauses the closed device, and the hooks change it.
\<close>

theorem closing_unregisters_another:
  assumes "active_state serial w = None" "VirtualTransport_new a1 h1 c1 w = (t1, w1)" "VirtualTransport_new a2 h2 c2 w1 = (t2, w2)"
    "vc_serial c1 = serial" "vc_serial c2 = serial"
  shows "active_state serial w2 = Some (vt_state t1) \<and> active_state serial (VirtualTransport_drop t2 w2) = Some (vt_state t2) \<and>
    vt_state t1 \<noteq> vt_state t2 \<and> fst (pause_watcher serial (VirtualTransport_drop t2 w2)) = Some \<lparr>wg_state = vt_state t2\<rparr>"
proof -
  have fresh: "List.find (\<lambda>(s, _). s = serial) (vw_active w) = None" using assms(1) by (simp add: active_state_def)
  have absent: "remove_first (\<lambda>(s, _). s = serial) (xs @ ys) = xs @ remove_first (\<lambda>(s, _). s = serial) ys"
    if "List.find (\<lambda>(s, _). s = serial) xs = None" for xs ys :: "(rstr \<times> nat) list"
    using that by (induction xs) (auto split: if_splits)
  have w2: "vw_active w2 = vw_active w @ [(serial, vt_state t1), (serial, vt_state t2)]"
    and t: "vt_serial t2 = serial" "vt_state t1 = length (vw_states w)" "vt_state t2 = Suc (length (vw_states w))"
    using assms(2-5) by (auto simp: VirtualTransport_new_def register_active_state_def Let_def)
  have first: "List.find (\<lambda>(s, _). s = serial) (vw_active w @ es) = List.find (\<lambda>(s, _). s = serial) es" for es
    by (rule find_skips [OF fresh])
  have "active_state serial (VirtualTransport_drop t2 w2) = Some (vt_state t2)"
    by (simp add: VirtualTransport_drop_def unregister_active_state_def active_state_def w2 t(1) absent [OF fresh] first)
  then show ?thesis using t by (simp add: active_state_def [of serial w2] w2 first pause_watcher_def)
qed

theorem closing_unregisters_another_witness:
  "active_state (vc_serial VirtualDeviceConfig_default)
     (VirtualTransport_drop (fst (VirtualTransport_new False demo_host VirtualDeviceConfig_default (snd demo_opened)))
       (snd (VirtualTransport_new False demo_host VirtualDeviceConfig_default (snd demo_opened)))) =
   Some (vt_state (fst (VirtualTransport_new False demo_host VirtualDeviceConfig_default (snd demo_opened))))"
proof -
  have "VirtualTransport_new False demo_host VirtualDeviceConfig_default (fst no_devices) = (fst demo_opened, snd demo_opened)"
    by (simp add: demo_opened_def)
  moreover have "active_state (vc_serial VirtualDeviceConfig_default) (fst no_devices) = None"
    by (simp add: active_state_def no_devices_def)
  ultimately show ?thesis
    using closing_unregisters_another [OF _ _ surjective_pairing refl refl] by blast
qed

end
