(* ===== verification/Mtp_Storage.thy ===== *)
theory Mtp_Storage
  imports Mtp_Usb "HOL-Library.Multiset"
begin

text \<open>
  The operations of a storage, \<open>mtp/storage.rs\<close>, over any backend: listings that stream, collect and walk a tree, transfers, and
  the operations on objects. A storage is a record; the backend it shares is an argument of its operations.
\<close>

section \<open>Listings as streams\<close>

record 'l ObjectListing =
  ol_inner :: "'l BackendListing"
  ol_fetched :: usize

definition ObjectListing_new :: "'l BackendListing \<Rightarrow> 'l ObjectListing" where
  "ObjectListing_new inner = \<lparr>ol_inner = inner, ol_fetched = 0\<rparr>"

definition listing_total :: "'l ObjectListing \<Rightarrow> usize" where
  "listing_total listing = bl_total (ol_inner listing)"

record SkippedObject =
  sk_handle :: MtpObjectHandle
  sk_error :: MtpError

datatype ListingItem = Object MtpObjectInfo | Skipped SkippedObject

fun ListingItem_object :: "ListingItem \<Rightarrow> MtpObjectInfo option" where
  "ListingItem_object (ListingItem.Object info) = Some info"
| "ListingItem_object (ListingItem.Skipped _) = None"

definition next_classified ::
  "('s, 'b, 'l) MtpBackend \<Rightarrow> 'l ObjectListing \<Rightarrow> 's \<Rightarrow> (listing_item \<times> 'l ObjectListing \<times> 's) option" where
  "next_classified be listing s =
     map_option (\<lambda>(item, items, s).
       let listing = listing\<lparr>ol_inner := (ol_inner listing)\<lparr>bl_items := items\<rparr>\<rparr> in
       case item of
         Yielded (Ok info) \<Rightarrow> (item, listing\<lparr>ol_fetched := ol_fetched listing + 1\<rparr>, s)
       | other \<Rightarrow> (other, listing, s))
     (be_next_item be (bl_items (ol_inner listing)) s)"

fun classify :: "(MtpObjectInfo, BackendListingError) outcome \<Rightarrow> ListingItem mres" where
  "classify (Ok info) = Ok (ListingItem.Object info)"
| "classify (Err e) =
     (if le_disposition e = ListingErrorDisposition.SkipObject
      then Ok (ListingItem.Skipped \<lparr>sk_handle = le_handle e, sk_error = le_source e\<rparr>) else Err (le_source e))"
| "classify Panic = Panic"
| "classify Dropped = Dropped"

definition listing_next ::
  "('s, 'b, 'l) MtpBackend \<Rightarrow> 'l ObjectListing \<Rightarrow> 's \<Rightarrow> ((ListingItem, MtpError) stream_item \<times> 'l ObjectListing \<times> 's) option" where
  "listing_next be listing s =
     map_option (\<lambda>(item, listing, s).
       (case item of Exhausted \<Rightarrow> Exhausted | Yielded r \<Rightarrow> Yielded (classify r), listing, s))
     (next_classified be listing s)"

section \<open>Collecting a listing\<close>

record ObjectCollection =
  oc_objects :: "MtpObjectInfo list"
  oc_skipped :: "SkippedObject list"

record Storage =
  sg_id :: MtpStorageId
  sg_info :: MtpStorageInfo

definition refresh :: "('s, 'b, 'l) MtpBackend \<Rightarrow> Storage \<Rightarrow> 's \<Rightarrow> (unit mres \<times> Storage \<times> 's) option" where
  "refresh be storage s =
     map_option (\<lambda>(r, s). case r of
         Ok info \<Rightarrow> (Ok (), storage\<lparr>sg_info := info\<rparr>, s)
       | Err e \<Rightarrow> (Err e, storage, s) | Panic \<Rightarrow> (Panic, storage, s) | Dropped \<Rightarrow> (Dropped, storage, s))
     (be_storage_info be (sg_id storage) s)"

text \<open>The loop of \<open>collect_in\<close>.\<close>

partial_function (option) collect_items ::
  "('s, 'b, 'l) MtpBackend \<Rightarrow> MtpObjectInfo list \<Rightarrow> SkippedObject list \<Rightarrow> 'l ObjectListing \<Rightarrow> 's \<Rightarrow> (ObjectCollection mres \<times> 's) option" where
  "collect_items be objects skipped listing s =
     Option.bind (next_classified be listing s) (\<lambda>(item, listing, s).
       case item of
         Exhausted \<Rightarrow> Some (Ok \<lparr>oc_objects = objects, oc_skipped = skipped\<rparr>, s)
       | Yielded r \<Rightarrow>
           (case r of
              Ok info \<Rightarrow> collect_items be (objects @ [info]) skipped listing s
            | Err e \<Rightarrow>
                if le_disposition e = ListingErrorDisposition.SkipObject
                then collect_items be objects (skipped @ [\<lparr>sk_handle = le_handle e, sk_error = le_source e\<rparr>]) listing s
                else Some (Err (le_source e), s)
            | Panic \<Rightarrow> Some (Panic, s)
            | Dropped \<Rightarrow> Some (Dropped, s)))"

text \<open>
  The vector of objects is reserved for \<open>listing.total()\<close> entries; a device sends fewer than \<open>2 ^ 32\<close> handles, so the reservation is far from
  the capacity at which it panics, and it is left out.
\<close>

definition collect_in ::
  "('s, 'b, 'l) MtpBackend \<Rightarrow> MtpStorageId \<Rightarrow> MtpObjectHandle option \<Rightarrow> 's token \<Rightarrow> 's \<Rightarrow> (ObjectCollection mres \<times> 's) option" where
  "collect_in be storage parent cancel s =
     then_opt (be_list be storage parent cancel s) (\<lambda>inner s.
     then_opt (collect_items be [] [] (ObjectListing_new inner) s) (\<lambda>c s.
       if oc_objects c = [] \<and> oc_skipped c \<noteq> [] then Some (Err (sk_error (hd (oc_skipped c))), s) else Some (Ok c, s)))"

definition collect_objects_with_cancel ::
  "('s, 'b, 'l) MtpBackend \<Rightarrow> Storage \<Rightarrow> MtpObjectHandle option \<Rightarrow> 's token \<Rightarrow> 's \<Rightarrow> (ObjectCollection mres \<times> 's) option" where
  "collect_objects_with_cancel be storage = collect_in be (sg_id storage)"

definition collect_objects ::
  "('s, 'b, 'l) MtpBackend \<Rightarrow> Storage \<Rightarrow> MtpObjectHandle option \<Rightarrow> 's \<Rightarrow> (ObjectCollection mres \<times> 's) option" where
  "collect_objects be storage parent = collect_objects_with_cancel be storage parent None"

definition list_objects_with_cancel ::
  "('s, 'b, 'l) MtpBackend \<Rightarrow> Storage \<Rightarrow> MtpObjectHandle option \<Rightarrow> 's token \<Rightarrow> 's \<Rightarrow> (MtpObjectInfo list mres \<times> 's) option" where
  "list_objects_with_cancel be storage parent cancel s =
     then_opt (collect_objects_with_cancel be storage parent cancel s) (\<lambda>c s. Some (Ok (oc_objects c), s))"

definition list_objects ::
  "('s, 'b, 'l) MtpBackend \<Rightarrow> Storage \<Rightarrow> MtpObjectHandle option \<Rightarrow> 's \<Rightarrow> (MtpObjectInfo list mres \<times> 's) option" where
  "list_objects be storage parent = list_objects_with_cancel be storage parent None"

definition list_objects_stream_with_cancel ::
  "('s, 'b, 'l) MtpBackend \<Rightarrow> Storage \<Rightarrow> MtpObjectHandle option \<Rightarrow> 's token \<Rightarrow> 's \<Rightarrow> ('l ObjectListing mres \<times> 's) option" where
  "list_objects_stream_with_cancel be storage parent cancel s =
     then_opt (be_list be (sg_id storage) parent cancel s) (\<lambda>listing s. Some (Ok (ObjectListing_new listing), s))"

definition list_objects_stream ::
  "('s, 'b, 'l) MtpBackend \<Rightarrow> Storage \<Rightarrow> MtpObjectHandle option \<Rightarrow> 's \<Rightarrow> ('l ObjectListing mres \<times> 's) option" where
  "list_objects_stream be storage parent = list_objects_stream_with_cancel be storage parent None"

section \<open>Walking a tree\<close>

text \<open>
  The folders to visit are a stack with its top at the head. The folders of a collection are pushed in their order, so the last one
  is visited first.
\<close>

definition folders_of :: "MtpObjectInfo list \<Rightarrow> MtpObjectHandle option list" where
  "folders_of objects = map (\<lambda>o'. Some (mo_handle o')) (filter mtp_is_folder objects)"

partial_function (option) walk ::
  "('s, 'b, 'l) MtpBackend \<Rightarrow> Storage \<Rightarrow> MtpObjectInfo list \<Rightarrow> SkippedObject list \<Rightarrow> MtpObjectHandle option list \<Rightarrow> 's \<Rightarrow>
     (ObjectCollection mres \<times> 's) option" where
  "walk be storage objects skipped folders_to_visit s =
     (case folders_to_visit of
        [] \<Rightarrow> Some (Ok \<lparr>oc_objects = objects, oc_skipped = skipped\<rparr>, s)
      | current_parent # rest \<Rightarrow>
          then_opt (collect_objects be storage current_parent s) (\<lambda>c s.
            walk be storage (objects @ oc_objects c) (skipped @ oc_skipped c) (rev (folders_of (oc_objects c)) @ rest) s))"

definition collect_objects_recursive ::
  "('s, 'b, 'l) MtpBackend \<Rightarrow> Storage \<Rightarrow> MtpObjectHandle option \<Rightarrow> 's \<Rightarrow> (ObjectCollection mres \<times> 's) option" where
  "collect_objects_recursive be storage parent = walk be storage [] [] [parent]"

definition list_objects_recursive ::
  "('s, 'b, 'l) MtpBackend \<Rightarrow> Storage \<Rightarrow> MtpObjectHandle option \<Rightarrow> 's \<Rightarrow> (MtpObjectInfo list mres \<times> 's) option" where
  "list_objects_recursive be storage parent s =
     then_opt (collect_objects_recursive be storage parent s) (\<lambda>c s. Some (Ok (oc_objects c), s))"

definition storage_get_object_info ::
  "('s, 'b, 'l) MtpBackend \<Rightarrow> MtpObjectHandle \<Rightarrow> 's \<Rightarrow> (MtpObjectInfo mres \<times> 's) option" where
  "storage_get_object_info be handle = be_object_info be handle"

section \<open>Downloads\<close>

definition download_to_vec :: "('s, 'b, 'l) MtpBackend \<Rightarrow> MtpObjectHandle \<Rightarrow> 's \<Rightarrow> (bytes mres \<times> 's) option" where
  "download_to_vec be handle = be_read_range be handle 0 None"

definition storage_read_range :: "('s, 'b, 'l) MtpBackend \<Rightarrow> MtpObjectHandle \<Rightarrow> u64 \<Rightarrow> u32 \<Rightarrow> 's \<Rightarrow> (bytes mres \<times> 's) option" where
  "storage_read_range be handle offset len = be_read_range be handle offset (Some len)"

definition storage_thumbnail :: "('s, 'b, 'l) MtpBackend \<Rightarrow> MtpObjectHandle \<Rightarrow> 's \<Rightarrow> (bytes mres \<times> 's) option" where
  "storage_thumbnail be handle = be_thumbnail be handle"

definition download_with_pacing ::
  "('s, 'b, 'l) MtpBackend \<Rightarrow> ('s, 'f) surroundings \<Rightarrow> MtpObjectHandle \<Rightarrow> ByteRange \<Rightarrow> DownloadPacing \<Rightarrow> 's \<Rightarrow>
     (('b, 'f) FileDownload mres \<times> 's) option" where
  "download_with_pacing be env handle rng pc s =
     then_opt (be_object_info be handle s) (\<lambda>info s. Some (download_start be env handle info rng pc s))"

definition storage_download ::
  "('s, 'b, 'l) MtpBackend \<Rightarrow> ('s, 'f) surroundings \<Rightarrow> MtpObjectHandle \<Rightarrow> ByteRange \<Rightarrow> 's \<Rightarrow> (('b, 'f) FileDownload mres \<times> 's) option" where
  "storage_download be env handle rng = download_with_pacing be env handle rng DownloadPacing_default"

section \<open>Uploads and the management of objects\<close>

definition unsent :: "MtpError \<Rightarrow> UploadError" where
  "unsent source = \<lparr>ue_source = source, ue_partial = None\<rparr>"

definition storage_upload ::
  "('s, 'b, 'l) MtpBackend \<Rightarrow> Storage \<Rightarrow> MtpObjectHandle option \<Rightarrow> NewObjectInfo \<Rightarrow> chunk_result list \<Rightarrow> 's \<Rightarrow>
     (MtpObjectHandle, UploadError) outcome \<times> 's" where
  "storage_upload be storage parent info data s =
     seq_ok (map_err unsent (check_name_length (no_filename info)), s) (\<lambda>_ s. be_upload be (sg_id storage) parent info data None s)"

definition upload_with_progress ::
  "('s, 'b, 'l) MtpBackend \<Rightarrow> Storage \<Rightarrow> MtpObjectHandle option \<Rightarrow> NewObjectInfo \<Rightarrow> chunk_result list \<Rightarrow> progress_fn \<Rightarrow> 's \<Rightarrow>
     (MtpObjectHandle, UploadError) outcome \<times> 's" where
  "upload_with_progress be storage parent info data on_progress s =
     seq_ok (map_err unsent (check_name_length (no_filename info)), s)
       (\<lambda>_ s. be_upload be (sg_id storage) parent info data (Some on_progress) s)"

definition storage_create_folder ::
  "('s, 'b, 'l) MtpBackend \<Rightarrow> Storage \<Rightarrow> MtpObjectHandle option \<Rightarrow> rstr \<Rightarrow> 's \<Rightarrow> MtpObjectHandle mres \<times> 's" where
  "storage_create_folder be storage parent name s =
     seq_ok (check_name_length name, s) (\<lambda>_ s. be_create_folder be (sg_id storage) parent name s)"

definition storage_delete :: "('s, 'b, 'l) MtpBackend \<Rightarrow> MtpObjectHandle \<Rightarrow> 's \<Rightarrow> unit mres \<times> 's" where
  "storage_delete be handle = be_delete be handle None"

definition delete_with_cancel :: "('s, 'b, 'l) MtpBackend \<Rightarrow> MtpObjectHandle \<Rightarrow> 's token \<Rightarrow> 's \<Rightarrow> unit mres \<times> 's" where
  "delete_with_cancel be handle cancel s = seq_ok (neutral (bail cancel s), s) (\<lambda>_ s. be_delete be handle cancel s)"

definition storage_move_object ::
  "('s, 'b, 'l) MtpBackend \<Rightarrow> Storage \<Rightarrow> MtpObjectHandle \<Rightarrow> MtpObjectHandle \<Rightarrow> MtpStorageId option \<Rightarrow> 's \<Rightarrow> unit mres \<times> 's" where
  "storage_move_object be storage handle new_parent new_storage =
     be_move_object be handle new_parent (case new_storage of Some n \<Rightarrow> n | None \<Rightarrow> sg_id storage)"

text \<open>\<open>str::to_lowercase\<close> follows the tables of the Unicode standard and is an argument.\<close>

definition same_name :: "(rstr \<Rightarrow> rstr) \<Rightarrow> rstr \<Rightarrow> rstr \<Rightarrow> bool" where
  "same_name lower a b \<longleftrightarrow> a = b \<or> lower a = lower b"

definition storage_copy_object ::
  "('s, 'b, 'l) MtpBackend \<Rightarrow> (rstr \<Rightarrow> rstr) \<Rightarrow> Storage \<Rightarrow> MtpObjectHandle \<Rightarrow> MtpObjectHandle \<Rightarrow> MtpStorageId option \<Rightarrow> 's \<Rightarrow>
     (MtpObjectHandle mres \<times> 's) option" where
  "storage_copy_object be lower storage handle new_parent new_storage s =
     (let target = (case new_storage of Some n \<Rightarrow> n | None \<Rightarrow> sg_id storage) in
      then_opt (be_object_info be handle s) (\<lambda>info s.
        let name = mo_filename info;
            dest = (if new_parent \<noteq> MTP_ROOT then Some new_parent else None)
        in
        then_opt (collect_in be target dest None s) (\<lambda>c s.
          if list_ex (\<lambda>o'. same_name lower (mo_filename o') name) (oc_objects c)
          then Some (Err MtpError.AlreadyExists, s)
          else be_copy_object be handle new_parent target s)))"

definition storage_rename :: "('s, 'b, 'l) MtpBackend \<Rightarrow> MtpObjectHandle \<Rightarrow> rstr \<Rightarrow> 's \<Rightarrow> unit mres \<times> 's" where
  "storage_rename be handle new_name s = seq_ok (check_name_length new_name, s) (\<lambda>_ s. be_rename be handle new_name s)"

section \<open>Streaming and collecting agree\<close>

text \<open>
  The items a listing streams, and how the stream ends: exhausted, or with the error, panic or drop of the call that ended it.
\<close>

inductive streams ::
  "('s, 'b, 'l) MtpBackend \<Rightarrow> 'l ObjectListing \<Rightarrow> 's \<Rightarrow> ListingItem list \<Rightarrow> unit mres \<Rightarrow> 's \<Rightarrow> bool"
  for be :: "('s, 'b, 'l) MtpBackend" where
  over: "listing_next be listing s = Some (Exhausted, listing', s') \<Longrightarrow> streams be listing s [] (Ok ()) s'"
| broken: "listing_next be listing s = Some (Yielded r, listing', s') \<Longrightarrow> \<not> is_Ok r \<Longrightarrow> streams be listing s [] (map_ok (\<lambda>_. ()) r) s'"
| item: "listing_next be listing s = Some (Yielded (Ok it), listing', s1) \<Longrightarrow> streams be listing' s1 items r s' \<Longrightarrow>
    streams be listing s (it # items) r s'"

fun objects_of :: "ListingItem list \<Rightarrow> MtpObjectInfo list" where
  "objects_of [] = []"
| "objects_of (ListingItem.Object info # items) = info # objects_of items"
| "objects_of (ListingItem.Skipped _ # items) = objects_of items"

fun skips_of :: "ListingItem list \<Rightarrow> SkippedObject list" where
  "skips_of [] = []"
| "skips_of (ListingItem.Object _ # items) = skips_of items"
| "skips_of (ListingItem.Skipped sk # items) = sk # skips_of items"

text \<open>What a collection makes of the items and the end of its stream.\<close>

definition collected :: "ListingItem list \<Rightarrow> unit mres \<Rightarrow> ObjectCollection mres" where
  "collected items r =
     bind_ok r (\<lambda>_. if objects_of items = [] \<and> skips_of items \<noteq> [] then Err (sk_error (hd (skips_of items)))
       else Ok \<lparr>oc_objects = objects_of items, oc_skipped = skips_of items\<rparr>)"

definition gathered :: "MtpObjectInfo list \<Rightarrow> SkippedObject list \<Rightarrow> ListingItem list \<Rightarrow> unit mres \<Rightarrow> ObjectCollection mres" where
  "gathered objects skipped items r =
     map_ok (\<lambda>_. \<lparr>oc_objects = objects @ objects_of items, oc_skipped = skipped @ skips_of items\<rparr>) r"

text \<open>One round of the collecting loop, by the item the stream yields.\<close>

lemma collect_round:
  assumes "listing_next be listing s = Some (item, listing', s')"
  shows "collect_items be objects skipped listing s =
    (case item of
       Exhausted \<Rightarrow> Some (Ok \<lparr>oc_objects = objects, oc_skipped = skipped\<rparr>, s')
     | Yielded (Ok (ListingItem.Object info)) \<Rightarrow> collect_items be (objects @ [info]) skipped listing' s'
     | Yielded (Ok (ListingItem.Skipped sk)) \<Rightarrow> collect_items be objects (skipped @ [sk]) listing' s'
     | Yielded (Err e) \<Rightarrow> Some (Err e, s')
     | Yielded Panic \<Rightarrow> Some (Panic, s')
     | Yielded Dropped \<Rightarrow> Some (Dropped, s'))"
proof -
  obtain item0 where nc: "next_classified be listing s = Some (item0, listing', s')"
    "item = (case item0 of Exhausted \<Rightarrow> Exhausted | Yielded r \<Rightarrow> Yielded (classify r))"
    using assms by (auto simp: listing_next_def)
  show ?thesis
  proof (cases item0)
    case Exhausted
    with nc show ?thesis by (subst collect_items.simps) simp
  next
    case (Yielded r)
    with nc show ?thesis by (subst collect_items.simps) (cases r; simp)
  qed
qed

lemma collect_streams:
  "streams be listing s items r s' \<Longrightarrow> collect_items be objects skipped listing s = Some (gathered objects skipped items r, s')"
proof (induction arbitrary: objects skipped rule: streams.induct)
  case (over listing s listing' s')
  then show ?case by (simp add: collect_round gathered_def)
next
  case (broken listing s r listing' s')
  then show ?case by (cases r) (simp_all add: collect_round gathered_def)
next
  case (item listing s it listing' s1 items r s')
  then show ?case by (cases it) (simp_all add: collect_round gathered_def)
qed

lemma collect_streams_ex:
  assumes "collect_items be objects skipped listing s = Some (c, s')"
  shows "\<exists>items r. streams be listing s items r s'"
proof -
  have "collect_items be objects skipped listing s = Some y \<Longrightarrow> \<exists>items r. streams be listing s items r (snd y)" for y
  proof (erule collect_items.raw_induct [rotated], goal_cases)
    case (1 loop be objects skipped listing s y)
    from 1(2) obtain item0 listing' s1 where nc: "next_classified be listing s = Some (item0, listing', s1)"
      by (auto split: Option.bind_splits)
    then have nx: "listing_next be listing s = Some (case item0 of Exhausted \<Rightarrow> Exhausted | Yielded r \<Rightarrow> Yielded (classify r), listing', s1)"
      by (simp add: listing_next_def)
    show ?case
    proof (cases item0)
      case Exhausted
      with 1(2) nc nx streams.over show ?thesis by fastforce
    next
      case (Yielded r)
      show ?thesis
      proof (cases "is_Ok (classify r)")
        case True
        then obtain it where it: "classify r = Ok it" by (auto simp: is_Ok_iff)
        then obtain os sk where "loop be os sk listing' s1 = Some y"
          using 1(2) nc Yielded by (cases r) (auto split: if_splits)
        from 1(1) [OF this] obtain items r' where "streams be listing' s1 items r' (snd y)" by blast
        with nx Yielded it show ?thesis by (auto intro: streams.item)
      next
        case False
        moreover from this have "y = (map_ok (\<lambda>_. \<lparr>oc_objects = objects, oc_skipped = skipped\<rparr>) (classify r), s1)"
          using 1(2) nc Yielded by (cases r) (auto split: if_splits)
        ultimately show ?thesis using nx Yielded streams.broken [of be listing s "classify r" listing' s1] by auto
      qed
    qed
  qed
  with assms show ?thesis by fastforce
qed

text \<open>
  C24: Collecting a folder agrees with streaming it. For every backend, a collection returns exactly when the stream of the same folder ends, and
  then holds the objects and the skips the stream yielded, in their order; if the stream ends with an error the collection
  is that error; and if it yields skips but no object, the collection is the first skip's error, never an empty folder.
\<close>

theorem collect_agrees_with_stream:
  assumes "be_list be storage parent cancel s = Some (Ok inner, s1)"
  shows "collect_in be storage parent cancel s = Some (c, s') \<longleftrightarrow>
    (\<exists>items r. streams be (ObjectListing_new inner) s1 items r s' \<and> c = collected items r)"
proof -
  have run: "collect_in be storage parent cancel s = Some (collected items r, s2)"
    if "streams be (ObjectListing_new inner) s1 items r s2" for items r s2
    using collect_streams [OF that, of "[]" "[]"] assms
    by (cases r) (simp_all add: collect_in_def then_opt_def gathered_def collected_def)
  show ?thesis
  proof
    assume "collect_in be storage parent cancel s = Some (c, s')"
    moreover from this obtain c0 s2 where "collect_items be [] [] (ObjectListing_new inner) s1 = Some (c0, s2)"
      using assms by (auto simp: collect_in_def then_opt_def split: Option.bind_splits)
    from collect_streams_ex [OF this] obtain items r where st: "streams be (ObjectListing_new inner) s1 items r s2" by blast
    ultimately have "c = collected items r" "s2 = s'" using run [OF st] by auto
    with st show "\<exists>items r. streams be (ObjectListing_new inner) s1 items r s' \<and> c = collected items r" by blast
  next
    assume "\<exists>items r. streams be (ObjectListing_new inner) s1 items r s' \<and> c = collected items r"
    with run show "collect_in be storage parent cancel s = Some (c, s')" by blast
  qed
qed

section \<open>A walk visits the whole tree once\<close>

text \<open>
  A tree of objects: files, and folders with their entries and with the handles in them that cannot be read.
\<close>

datatype Entry =
    FileEntry (info_of: MtpObjectInfo)
  | FolderEntry (info_of: MtpObjectInfo) "Entry list" "SkippedObject list"

fun infos_of :: "Entry \<Rightarrow> MtpObjectInfo multiset" where
  "infos_of (FileEntry i) = {#i#}"
| "infos_of (FolderEntry i es sk) = add_mset i (sum_list (map infos_of es))"

fun lost_in :: "Entry \<Rightarrow> SkippedObject multiset" where
  "lost_in (FileEntry i) = {#}"
| "lost_in (FolderEntry i es sk) = mset sk + sum_list (map lost_in es)"

fun folders_in :: "Entry \<Rightarrow> nat" where
  "folders_in (FileEntry i) = 0"
| "folders_in (FolderEntry i es sk) = 1 + sum_list (map folders_in es)"

text \<open>In every state with \<open>P\<close>, collecting the folder returns the collection and keeps \<open>P\<close>.\<close>

definition serves_folder ::
  "('s, 'b, 'l) MtpBackend \<Rightarrow> Storage \<Rightarrow> ('s \<Rightarrow> bool) \<Rightarrow> MtpObjectHandle option \<Rightarrow> Entry list \<Rightarrow> SkippedObject list \<Rightarrow> bool" where
  "serves_folder be storage P parent es sk \<longleftrightarrow>
     (\<forall>s. P s \<longrightarrow> (\<exists>s'. collect_objects be storage parent s = Some (Ok \<lparr>oc_objects = map info_of es, oc_skipped = sk\<rparr>, s') \<and> P s'))"

fun serves_entry :: "('s, 'b, 'l) MtpBackend \<Rightarrow> Storage \<Rightarrow> ('s \<Rightarrow> bool) \<Rightarrow> Entry \<Rightarrow> bool" where
  "serves_entry be storage P (FileEntry i) \<longleftrightarrow> mtp_is_file i"
| "serves_entry be storage P (FolderEntry i es sk) \<longleftrightarrow>
     mtp_is_folder i \<and> serves_folder be storage P (Some (mo_handle i)) es sk \<and> list_all (serves_entry be storage P) es"

text \<open>The folders among the entries, as the frames of the walk's stack.\<close>

type_synonym frame = "MtpObjectHandle option \<times> Entry list \<times> SkippedObject list"

fun frame_of :: "Entry \<Rightarrow> frame list" where
  "frame_of (FileEntry i) = []"
| "frame_of (FolderEntry i es sk) = [(Some (mo_handle i), es, sk)]"

definition frame_ok :: "('s, 'b, 'l) MtpBackend \<Rightarrow> Storage \<Rightarrow> ('s \<Rightarrow> bool) \<Rightarrow> frame \<Rightarrow> bool" where
  "frame_ok be storage P = (\<lambda>(parent, es, sk). serves_folder be storage P parent es sk \<and> list_all (serves_entry be storage P) es)"

definition frame_infos :: "frame \<Rightarrow> MtpObjectInfo multiset" where
  "frame_infos = (\<lambda>(parent, es, sk). sum_list (map infos_of es))"

definition frame_lost :: "frame \<Rightarrow> SkippedObject multiset" where
  "frame_lost = (\<lambda>(parent, es, sk). mset sk + sum_list (map lost_in es))"

definition frame_folders :: "frame \<Rightarrow> nat" where
  "frame_folders = (\<lambda>(parent, es, sk). 1 + sum_list (map folders_in es))"

lemma frames_of_entries:
  assumes "list_all (serves_entry be storage P) es"
  shows "folders_of (map info_of es) = map fst (concat (map frame_of es))"
    "list_all (frame_ok be storage P) (concat (map frame_of es))"
    "sum_list (map infos_of es) = mset (map info_of es) + sum_list (map frame_infos (concat (map frame_of es)))"
    "sum_list (map lost_in es) = sum_list (map frame_lost (concat (map frame_of es)))"
    "sum_list (map folders_in es) = sum_list (map frame_folders (concat (map frame_of es)))"
proof -
  have "folders_of (map info_of es) = map fst (concat (map frame_of es)) \<and> list_all (frame_ok be storage P) (concat (map frame_of es))
    \<and> sum_list (map infos_of es) = mset (map info_of es) + sum_list (map frame_infos (concat (map frame_of es)))
    \<and> sum_list (map lost_in es) = sum_list (map frame_lost (concat (map frame_of es)))
    \<and> sum_list (map folders_in es) = sum_list (map frame_folders (concat (map frame_of es)))"
    using assms
  proof (induction es)
    case (Cons e es)
    then show ?case
      by (cases e) (simp_all add: folders_of_def frame_ok_def frame_infos_def frame_lost_def frame_folders_def mtp_is_folder_def mtp_is_file_def)
  qed (simp add: folders_of_def)
  then show "folders_of (map info_of es) = map fst (concat (map frame_of es))"
    "list_all (frame_ok be storage P) (concat (map frame_of es))"
    "sum_list (map infos_of es) = mset (map info_of es) + sum_list (map frame_infos (concat (map frame_of es)))"
    "sum_list (map lost_in es) = sum_list (map frame_lost (concat (map frame_of es)))"
    "sum_list (map folders_in es) = sum_list (map frame_folders (concat (map frame_of es)))" by blast+
qed

lemma sum_list_rev_frames: "sum_list (map (f :: frame \<Rightarrow> 'a :: comm_monoid_add) (rev fs)) = sum_list (map f fs)"
  by (induction fs) (simp_all add: add.commute)

lemma walk_frames:
  assumes "list_all (frame_ok be storage P) fs" "P s"
  shows "\<exists>s' c. walk be storage objects skipped (map fst fs) s = Some (Ok c, s') \<and> P s'
    \<and> mset (oc_objects c) = mset objects + sum_list (map frame_infos fs)
    \<and> mset (oc_skipped c) = mset skipped + sum_list (map frame_lost fs)"
  using assms
proof (induction "sum_list (map frame_folders fs)" arbitrary: fs s objects skipped rule: less_induct)
  case less
  show ?case
  proof (cases fs)
    case Nil
    then show ?thesis using less.prems by (subst walk.simps) simp
  next
    case (Cons f rest)
    obtain parent es sk where f: "f = (parent, es, sk)" by (metis prod_cases3)
    have ok: "serves_folder be storage P parent es sk" "list_all (serves_entry be storage P) es" "list_all (frame_ok be storage P) rest"
      using less.prems(1) Cons f by (simp_all add: frame_ok_def)
    from ok(1) less.prems(2) obtain s1 where
      s1: "collect_objects be storage parent s = Some (Ok \<lparr>oc_objects = map info_of es, oc_skipped = sk\<rparr>, s1)" "P s1"
      by (auto simp: serves_folder_def)
    let ?new = "rev (concat (map frame_of es)) @ rest"
    note fr = frames_of_entries [OF ok(2)]
    have new: "list_all (frame_ok be storage P) ?new" using fr(2) ok(3) by (simp add: list_all_rev)
    have "sum_list (map frame_folders ?new) < sum_list (map frame_folders fs)"
      using fr(5) by (simp add: Cons f sum_list_rev_frames frame_folders_def rev_concat rev_map [symmetric] del: rev_concat)
    from less.hyps [OF this new s1(2), of "objects @ map info_of es" "skipped @ sk"] obtain s' c where
      w: "walk be storage (objects @ map info_of es) (skipped @ sk) (map fst ?new) s1 = Some (Ok c, s')" "P s'"
      "mset (oc_objects c) = mset (objects @ map info_of es) + sum_list (map frame_infos ?new)"
      "mset (oc_skipped c) = mset (skipped @ sk) + sum_list (map frame_lost ?new)" by blast
    have "map fst ?new = rev (folders_of (map info_of es)) @ map fst rest" by (simp add: fr(1) rev_map)
    then have "walk be storage objects skipped (map fst fs) s = Some (Ok c, s')"
      using s1(1) w(1) by (subst walk.simps) (simp add: Cons f then_opt_def)
    moreover have "sum_list (map frame_infos ?new) = sum_list (map frame_infos (concat (map frame_of es))) + sum_list (map frame_infos rest)"
      "sum_list (map frame_lost ?new) = sum_list (map frame_lost (concat (map frame_of es))) + sum_list (map frame_lost rest)"
      by (simp_all only: map_append sum_list_append sum_list_rev_frames)
    ultimately show ?thesis using w(2-4) fr(3,4)
      by (intro exI [of _ s'] exI [of _ c]) (simp add: Cons f frame_infos_def frame_lost_def add.assoc)
  qed
qed

text \<open>
  C10: A recursive listing ends and loses nothing. Over any backend whose folders form a finite tree in which the listing of every folder can be
  collected, walking it from any folder returns, and the
  objects it returns are the objects below that folder, each exactly once, and its skips are the skips of all the folders, each
  exactly once. (A folder cannot be collected when all its handles are skipped, and then the whole walk fails with it.)
\<close>

theorem walk_collects_tree:
  assumes "serves_folder be storage P parent es sk" "list_all (serves_entry be storage P) es" "P s"
  shows "\<exists>c s'. collect_objects_recursive be storage parent s = Some (Ok c, s') \<and> P s'
    \<and> mset (oc_objects c) = sum_list (map infos_of es) \<and> mset (oc_skipped c) = mset sk + sum_list (map lost_in es)"
proof -
  have "list_all (frame_ok be storage P) [(parent, es, sk)]" using assms(1,2) by (simp add: frame_ok_def)
  from walk_frames [OF this assms(3), of "[]" "[]"] show ?thesis
    by (auto simp: collect_objects_recursive_def frame_infos_def frame_lost_def)
qed

section \<open>A tree on a table of folders\<close>

definition demo_object :: "MtpObjectHandle \<Rightarrow> bool \<Rightarrow> MtpObjectInfo" where
  "demo_object obj folder = (object_from_ptp ObjectInfo_default)\<lparr>mo_handle := obj, mo_folder := folder\<rparr>"

definition demo_storage_of :: Storage where
  "demo_storage_of = \<lparr>sg_id = 0x00010001, sg_info = \<lparr>ms_id = 0x00010001, ms_description = [], ms_volume_identifier = [],
     ms_total_capacity = 0, ms_free_space = 0, ms_is_writable = True, ms_storage_type = MtpStorageType.FixedRam,
     ms_filesystem_type = MtpFilesystemType.Hierarchical\<rparr>\<rparr>"

text \<open>A root with a file, an unreadable handle and a folder that holds another file.\<close>

definition demo_folders :: "MtpObjectHandle option \<Rightarrow> (MtpObjectInfo, BackendListingError) outcome list" where
  "demo_folders parent =
     (if parent = None then [Ok (demo_object 1 False), Err (listing_skippable 2 MtpError.Unsupported), Ok (demo_object 3 True)]
      else if parent = Some 3 then [Ok (demo_object 4 False)] else [])"

lemma shelf_round:
  "listing_next (shelf folder) \<lparr>ol_inner = \<lparr>bl_total = n, bl_items = xs\<rparr>, ol_fetched = k\<rparr> s =
    Some (case xs of [] \<Rightarrow> (Exhausted, \<lparr>ol_inner = \<lparr>bl_total = n, bl_items = []\<rparr>, ol_fetched = k\<rparr>, s)
      | x # xs \<Rightarrow> (Yielded (classify x), \<lparr>ol_inner = \<lparr>bl_total = n, bl_items = xs\<rparr>, ol_fetched = if is_Ok x then k + 1 else k\<rparr>, s))"
proof (cases xs)
  case (Cons x l)
  then show ?thesis by (cases x) (simp_all add: listing_next_def next_classified_def shelf_def Let_def)
qed (simp add: listing_next_def next_classified_def shelf_def Let_def)

lemma shelf_list: "be_list (shelf folder) sid parent cancel s = Some (Ok \<lparr>bl_total = length (folder parent), bl_items = folder parent\<rparr>, s)"
  by (simp add: shelf_def)

lemma shelf_collects:
  "collect_objects (shelf demo_folders) demo_storage_of None () =
     Some (Ok \<lparr>oc_objects = [demo_object 1 False, demo_object 3 True], oc_skipped = [\<lparr>sk_handle = 2, sk_error = MtpError.Unsupported\<rparr>]\<rparr>, ())"
  "collect_objects (shelf demo_folders) demo_storage_of (Some 3) () = Some (Ok \<lparr>oc_objects = [demo_object 4 False], oc_skipped = []\<rparr>, ())"
  by (simp_all add: collect_objects_def collect_objects_with_cancel_def collect_in_def then_opt_def ObjectListing_new_def collect_round
      shelf_list shelf_round) (simp_all add: shelf_round collect_round demo_folders_def listing_skippable_def)

theorem collect_agrees_with_stream_witness:
  "\<exists>items. streams (shelf demo_folders) (ObjectListing_new \<lparr>bl_total = 3, bl_items = demo_folders None\<rparr>) () items (Ok ()) ()
     \<and> objects_of items = [demo_object 1 False, demo_object 3 True]"
proof -
  have "be_list (shelf demo_folders) 0x00010001 None None () = Some (Ok \<lparr>bl_total = 3, bl_items = demo_folders None\<rparr>, ())"
    by (simp add: shelf_list demo_folders_def)
  from collect_agrees_with_stream [OF this] shelf_collects(1) obtain items r where
    st: "streams (shelf demo_folders) (ObjectListing_new \<lparr>bl_total = 3, bl_items = demo_folders None\<rparr>) () items r ()"
    and "collected items r = Ok \<lparr>oc_objects = [demo_object 1 False, demo_object 3 True],
      oc_skipped = [\<lparr>sk_handle = 2, sk_error = MtpError.Unsupported\<rparr>]\<rparr>"
    by (auto simp: collect_objects_def collect_objects_with_cancel_def demo_storage_of_def)
  then have "r = Ok ()" "objects_of items = [demo_object 1 False, demo_object 3 True]"
    by (auto simp: collected_def split: if_splits)
  with st show ?thesis by blast
qed

theorem walk_collects_tree_witness:
  "\<exists>c. collect_objects_recursive (shelf demo_folders) demo_storage_of None () = Some (Ok c, ())
     \<and> mset (oc_objects c) = {#demo_object 1 False, demo_object 3 True, demo_object 4 False#}"
proof -
  let ?sk = "[\<lparr>sk_handle = 2, sk_error = MtpError.Unsupported\<rparr>]"
  let ?es = "[FileEntry (demo_object 1 False), FolderEntry (demo_object 3 True) [FileEntry (demo_object 4 False)] []]"
  have "serves_folder (shelf demo_folders) demo_storage_of (\<lambda>s. True) None ?es ?sk"
    using shelf_collects(1) by (simp add: serves_folder_def)
  moreover have "list_all (serves_entry (shelf demo_folders) demo_storage_of (\<lambda>s. True)) ?es"
    using shelf_collects(2) by (simp add: serves_folder_def demo_object_def mtp_is_folder_def mtp_is_file_def)
  ultimately show ?thesis using walk_collects_tree [of "shelf demo_folders" demo_storage_of "\<lambda>s. True" None ?es ?sk "()"]
    by (auto simp: add_mset_commute)
qed

text \<open>
  C32: A folder inside itself is walked for ever. On a device that lists a folder as the one folder in itself, the recursive listing of
  that folder never returns: the walk keeps no record of the folders it has seen.
\<close>

theorem walk_diverges:
  assumes "\<And>s. \<exists>s'. collect_objects be storage (Some h) s = Some (Ok c, s')" "folders_of (oc_objects c) = [Some h]"
  shows "collect_objects_recursive be storage (Some h) s = None"
proof -
  have loops: "walk be2 storage2 objects skipped folders s = Some y \<Longrightarrow> be2 = be \<longrightarrow> storage2 = storage \<longrightarrow> folders = [Some h] \<longrightarrow> False"
    for be2 storage2 objects skipped folders s y
  proof (erule walk.raw_induct [rotated], intro impI, goal_cases)
    case (1 loop be2 storage2 objects skipped folders s y)
    obtain s' where "collect_objects be storage (Some h) s = Some (Ok c, s')" using assms(1) by blast
    with 1(2-) assms(2) have "loop be storage (objects @ oc_objects c) (skipped @ oc_skipped c) [Some h] s' = Some y"
      by (simp add: then_opt_def)
    from 1(1) [OF this] show ?case by simp
  qed
  show ?thesis
  proof (rule ccontr)
    assume "collect_objects_recursive be storage (Some h) s \<noteq> None"
    then obtain y where "walk be storage [] [] [Some h] s = Some y" by (auto simp: collect_objects_recursive_def)
    from loops [OF this] show False by simp
  qed
qed

theorem walk_diverges_witness:
  "collect_objects_recursive (shelf (\<lambda>_. [Ok (demo_object 3 True)])) demo_storage_of (Some 3) () = None"
proof -
  have "collect_objects (shelf (\<lambda>_. [Ok (demo_object 3 True)])) demo_storage_of (Some 3) s
      = Some (Ok \<lparr>oc_objects = [demo_object 3 True], oc_skipped = []\<rparr>, s)" for s
    by (simp add: collect_objects_def collect_objects_with_cancel_def collect_in_def then_opt_def ObjectListing_new_def collect_round
        shelf_list shelf_round)
  moreover have "folders_of [demo_object 3 True] = [Some 3]" by (simp add: folders_of_def demo_object_def mtp_is_folder_def)
  ultimately show ?thesis
    using walk_diverges [of "shelf (\<lambda>_. [Ok (demo_object 3 True)])" demo_storage_of 3
        "\<lparr>oc_objects = [demo_object 3 True], oc_skipped = []\<rparr>" "()"] by simp
qed

end
