(* ===== verification/Mtp_Device.thy ===== *)
theory Mtp_Device
  imports Virtual_Registry Virtual_Session Mtp_Storage
begin

text \<open>
  \<open>MtpDevice\<close> and its builder, \<open>mtp/device.rs\<close>: discovery, opening a device by position, location or serial number, and the reset
  of its transport. The bus with its devices, the virtual devices and the host's files are one state. What the USB library, the
  file watcher and the Windows backend do is an environment of functions. The devices a build without the \<open>virtual-device\<close> feature lacks
  are an empty registry.
\<close>

section \<open>The surroundings\<close>

datatype Backend = Auto | Usb | Wpd

text \<open>
  A virtual device sees the files as they are when it is opened; from then on it is the only one to change its copy.
\<close>

record 'u System =
  sy_usb :: 'u
  sy_registry :: Registry
  sy_virtual :: VirtualWorld
  sy_host :: Host

text \<open>
  Whether this is Windows and a file watcher can be set up; listing and opening devices; the endpoints of an opened device;
  the opening functions of the Windows backend, whose devices are of type \<open>'w\<close>.
\<close>

record ('u, 'w) device_env =
  de_windows :: bool
  de_watcher_available :: bool
  de_list :: "'u \<Rightarrow> (Usb_Devices.DeviceInfo list, nusb_error) outcome \<times> 'u"
  de_open :: "Usb_Devices.DeviceInfo \<Rightarrow> 'u \<Rightarrow> ('u nusb_device, nusb_error) outcome \<times> 'u"
  de_nusb :: "'u nusb"
  de_wpd_first :: "'u \<Rightarrow> 'w mres \<times> 'u"
  de_wpd_by_serial :: "rstr \<Rightarrow> 'u \<Rightarrow> 'w mres \<times> 'u"
  de_wpd_for_usb :: "rstr option \<Rightarrow> u16 \<Rightarrow> u16 \<Rightarrow> 'u \<Rightarrow> 'w mres \<times> 'u"

definition on_bus :: "('u \<Rightarrow> 'a \<times> 'u) \<Rightarrow> 'u System \<Rightarrow> 'a \<times> 'u System" where
  "on_bus f sys = (case f (sy_usb sys) of (r, u) \<Rightarrow> (r, sys\<lparr>sy_usb := u\<rparr>))"

definition on_bus_opt :: "('u \<Rightarrow> ('a \<times> 'u) option) \<Rightarrow> 'u System \<Rightarrow> ('a \<times> 'u System) option" where
  "on_bus_opt f sys = map_option (\<lambda>(r, u). (r, sys\<lparr>sy_usb := u\<rparr>)) (f (sy_usb sys))"

text \<open>
  The USB transport as an implementation of the trait. A call that does not return leaves its caller only to drop it.
\<close>

definition or_dropped :: "('a res \<times> 'u) option \<Rightarrow> 'u \<Rightarrow> 'a res \<times> 'u" where
  "or_dropped m u = (case m of Some p \<Rightarrow> p | None \<Rightarrow> (Dropped, u))"

definition nusb_ops :: "'u nusb \<Rightarrow> (NusbTransport \<times> 'u) transport_ops" where
  "nusb_ops nb =
     \<lparr>send_bulk = (\<lambda>data (nt, u). apsnd (Pair nt) (nusb_send_bulk nb nt data u)),
      send_bulk_streaming = (\<lambda>chunks (nt, u). apsnd (Pair nt) (or_dropped (nusb_send_bulk_streaming nb nt chunks u) u)),
      receive_bulk = (\<lambda>max_size (nt, u). apsnd (Pair nt) (nusb_receive_bulk nb nt max_size u)),
      receive_interrupt = (\<lambda>(nt, u). apsnd (Pair nt) (nusb_receive_interrupt nb u)),
      cancel_transfer = (\<lambda>tx idle (nt, u). apsnd (Pair nt) (or_dropped (nusb_cancel_transfer nb nt tx idle u) u)),
      set_drain_on_cancel = (\<lambda>enabled (nt, u). (nusb_set_drain_on_cancel enabled nt, u)),
      drain_bulk_in = (\<lambda>idle dur (nt, u). apsnd (Pair nt) (or_dropped (nusb_drain_bulk_in nb idle dur u) u)),
      reset_device = (\<lambda>(nt, u). apsnd (Pair nt) (or_dropped (nusb_reset_device nb nt u) u))\<rparr>"

section \<open>The low-level device\<close>

text \<open>
  \<open>PtpDevice\<close> of \<open>ptp/device.rs\<close> opens a transport without a session. It sees real devices only, and none but those with
  standard descriptors.
\<close>

definition ptp_devices :: "('u, 'w) device_env \<Rightarrow> 'u System \<Rightarrow> UsbDeviceInfo list res \<times> 'u System" where
  "ptp_devices env = on_bus (\<lambda>u. case de_list env u of (listed, u) \<Rightarrow> (list_mtp_devices listed, u))"

definition ptp_list_devices :: "('u, 'w) device_env \<Rightarrow> 'u System \<Rightarrow> MtpDeviceInfo list res \<times> 'u System" where
  "ptp_list_devices env sys = apfst (map_ok (map MtpDeviceInfo_from_usb)) (ptp_devices env sys)"

definition ptp_open_device :: "('u, 'w) device_env \<Rightarrow> nat \<Rightarrow> UsbDeviceInfo \<Rightarrow> 'u System \<Rightarrow> NusbTransport res \<times> 'u System" where
  "ptp_open_device env timeout found =
     on_bus (\<lambda>u. seq_ok (try_nusb (de_open env (ud_nusb_info found) u)) (\<lambda>device u. open_with_timeout device timeout u))"

definition ptp_find :: "('u, 'w) device_env \<Rightarrow> (UsbDeviceInfo \<Rightarrow> bool) \<Rightarrow> 'u System \<Rightarrow> UsbDeviceInfo res \<times> 'u System" where
  "ptp_find env matches sys =
     seq_ok (ptp_devices env sys) (\<lambda>devices sys.
       (case List.find matches devices of Some d \<Rightarrow> Ok d | None \<Rightarrow> Err PtpError.NoDevice, sys))"

definition ptp_open_by_location_with_timeout ::
  "('u, 'w) device_env \<Rightarrow> u64 \<Rightarrow> nat \<Rightarrow> 'u System \<Rightarrow> NusbTransport res \<times> 'u System" where
  "ptp_open_by_location_with_timeout env location_id timeout sys =
     seq_ok (ptp_find env (\<lambda>d. ud_location_id d = location_id) sys) (ptp_open_device env timeout)"

definition ptp_open_by_serial_with_timeout ::
  "('u, 'w) device_env \<Rightarrow> rstr \<Rightarrow> nat \<Rightarrow> 'u System \<Rightarrow> NusbTransport res \<times> 'u System" where
  "ptp_open_by_serial_with_timeout env serial timeout sys =
     seq_ok (ptp_find env (\<lambda>d. ud_serial_number d = Some serial) sys) (ptp_open_device env timeout)"

definition ptp_open_first_with_timeout :: "('u, 'w) device_env \<Rightarrow> nat \<Rightarrow> 'u System \<Rightarrow> NusbTransport res \<times> 'u System" where
  "ptp_open_first_with_timeout env timeout sys = seq_ok (ptp_find env (\<lambda>_. True) sys) (ptp_open_device env timeout)"

definition ptp_open_by_location :: "('u, 'w) device_env \<Rightarrow> u64 \<Rightarrow> 'u System \<Rightarrow> NusbTransport res \<times> 'u System" where
  "ptp_open_by_location env location_id = ptp_open_by_location_with_timeout env location_id DEFAULT_TIMEOUT"

definition ptp_open_by_serial :: "('u, 'w) device_env \<Rightarrow> rstr \<Rightarrow> 'u System \<Rightarrow> NusbTransport res \<times> 'u System" where
  "ptp_open_by_serial env serial = ptp_open_by_serial_with_timeout env serial DEFAULT_TIMEOUT"

definition ptp_open_first :: "('u, 'w) device_env \<Rightarrow> 'u System \<Rightarrow> NusbTransport res \<times> 'u System" where
  "ptp_open_first env = ptp_open_first_with_timeout env DEFAULT_TIMEOUT"

section \<open>The device\<close>

text \<open>An open device by its backend: PTP over USB, PTP to a virtual device, or Windows.\<close>

datatype ('u, 'w) MtpDevice =
    OnUsb "(NusbTransport \<times> 'u) UsbBackend"
  | OnVirtual VirtualTransport "VirtualDeviceState UsbBackend"
  | OnWpd 'w

text \<open>Its methods go to the backend, whichever it is.\<close>

definition device_info :: "('s, 'b, 'l) MtpBackend \<Rightarrow> 's \<Rightarrow> MtpDeviceIdentity" where
  "device_info be = be_device_info be"

definition capabilities :: "('s, 'b, 'l) MtpBackend \<Rightarrow> 's \<Rightarrow> Capabilities" where
  "capabilities be = be_capabilities be"

definition device_supports_rename :: "('s, 'b, 'l) MtpBackend \<Rightarrow> 's \<Rightarrow> bool" where
  "device_supports_rename be s = can_rename (be_capabilities be s)"

definition device_supports_upload :: "('s, 'b, 'l) MtpBackend \<Rightarrow> 's \<Rightarrow> bool" where
  "device_supports_upload be s = can_upload (be_capabilities be s)"

definition storages :: "('s, 'b, 'l) MtpBackend \<Rightarrow> 's \<Rightarrow> (Storage list mres \<times> 's) option" where
  "storages be s =
     map_option (apfst (map_ok (map (\<lambda>info. \<lparr>sg_id = ms_id info, sg_info = info\<rparr>)))) (be_storages be s)"

definition storage :: "('s, 'b, 'l) MtpBackend \<Rightarrow> MtpStorageId \<Rightarrow> 's \<Rightarrow> (Storage mres \<times> 's) option" where
  "storage be sid s = map_option (apfst (map_ok (\<lambda>info. \<lparr>sg_id = sid, sg_info = info\<rparr>))) (be_storage_info be sid s)"

definition next_event :: "('s, 'b, 'l) MtpBackend \<Rightarrow> 's \<Rightarrow> DeviceEvent mres \<times> 's" where
  "next_event be = be_next_event be"

definition close :: "('s, 'b, 'l) MtpBackend \<Rightarrow> 's \<Rightarrow> unit mres \<times> 's" where
  "close be = be_close be"

section \<open>Describing a device\<close>

definition hex_digit :: "nat \<Rightarrow> nat" where
  "hex_digit d = (if d < 10 then 48 + d else 87 + d)"

fun hex :: "nat \<Rightarrow> rstr" where
  "hex n = (if n < 16 then [hex_digit n] else hex (n div 16) @ [hex_digit (n mod 16)])"

definition hex8 :: "u64 \<Rightarrow> rstr" where
  "hex8 w = (let digits = hex (unat w) in replicate (8 - length digits) 48 @ digits)"

definition display :: "MtpDeviceInfo \<Rightarrow> rstr" where
  "display info =
     (let manufacturer = (case md_manufacturer info of Some m \<Rightarrow> m | None \<Rightarrow> str ''Unknown'');
          product = (case md_product info of Some p \<Rightarrow> p | None \<Rightarrow> str ''Unknown'') in
      case md_serial_number info of
        Some serial \<Rightarrow> manufacturer @ str '' '' @ product @ str '' (serial: '' @ serial @ str '', location: ''
          @ hex8 (md_location_id info) @ str '')''
      | None \<Rightarrow> manufacturer @ str '' '' @ product @ str '' (location: '' @ hex8 (md_location_id info) @ str '')'')"

section \<open>Discovery\<close>

definition usb_devices :: "('u, 'w) device_env \<Rightarrow> (u16 \<times> u16) list \<Rightarrow> 'u System \<Rightarrow> UsbDeviceInfo list mres \<times> 'u System" where
  "usb_devices env known = on_bus (\<lambda>u. case de_list env u of (listed, u) \<Rightarrow> (neutral (list_mtp_devices_with_known listed known), u))"

definition list_devices_with_known ::
  "('u, 'w) device_env \<Rightarrow> (u16 \<times> u16) list \<Rightarrow> 'u System \<Rightarrow> MtpDeviceInfo list mres \<times> 'u System" where
  "list_devices_with_known env known sys =
     seq_ok (usb_devices env known sys) (\<lambda>devices sys.
       (Ok (map MtpDeviceInfo_from_usb devices @ list_virtual_devices (sy_registry sys)), sys))"

definition list_devices :: "('u, 'w) device_env \<Rightarrow> 'u System \<Rightarrow> MtpDeviceInfo list mres \<times> 'u System" where
  "list_devices env = list_devices_with_known env []"

section \<open>The builder\<close>

record MtpDeviceBuilder =
  bd_timeout :: nat
  bd_known_devices :: "(u16 \<times> u16) list"
  bd_backend :: Backend
  bd_reuse_existing_session_id :: "u32 option"
  bd_use_object_prop_list :: bool

definition MtpDeviceBuilder_new :: MtpDeviceBuilder where
  "MtpDeviceBuilder_new = \<lparr>bd_timeout = DEFAULT_TIMEOUT, bd_known_devices = [], bd_backend = Auto,
     bd_reuse_existing_session_id = None, bd_use_object_prop_list = True\<rparr>"

definition with_backend :: "Backend \<Rightarrow> MtpDeviceBuilder \<Rightarrow> MtpDeviceBuilder" where
  "with_backend backend b = b\<lparr>bd_backend := backend\<rparr>"

definition with_timeout :: "nat \<Rightarrow> MtpDeviceBuilder \<Rightarrow> MtpDeviceBuilder" where
  "with_timeout timeout b = b\<lparr>bd_timeout := timeout\<rparr>"

definition with_known_devices :: "(u16 \<times> u16) list \<Rightarrow> MtpDeviceBuilder \<Rightarrow> MtpDeviceBuilder" where
  "with_known_devices known b = b\<lparr>bd_known_devices := known\<rparr>"

definition reuse_existing_session :: "u32 \<Rightarrow> MtpDeviceBuilder \<Rightarrow> MtpDeviceBuilder" where
  "reuse_existing_session session b = b\<lparr>bd_reuse_existing_session_id := Some session\<rparr>"

definition use_object_prop_list :: "bool \<Rightarrow> MtpDeviceBuilder \<Rightarrow> MtpDeviceBuilder" where
  "use_object_prop_list enabled b = b\<lparr>bd_use_object_prop_list := enabled\<rparr>"

section \<open>Opening\<close>

text \<open>The Windows backend is tried first where the builder selects it; \<open>Auto\<close> falls back when it has no device.\<close>

definition try_open_wpd ::
  "('u, 'w) device_env \<Rightarrow> MtpDeviceBuilder \<Rightarrow> ('u \<Rightarrow> 'w mres \<times> 'u) \<Rightarrow> 'u System \<Rightarrow> ('u, 'w) MtpDevice option mres \<times> 'u System" where
  "try_open_wpd env b open_wpd sys =
     (if de_windows env
      then
        if bd_backend b = Auto \<or> bd_backend b = Wpd
        then (case on_bus open_wpd sys of
                (Ok w, sys) \<Rightarrow> (Ok (Some (OnWpd w)), sys)
              | (Err e, sys) \<Rightarrow> if bd_backend b = Wpd \<or> e \<noteq> MtpError.NoDevice then (Err e, sys) else (Ok None, sys)
              | (Panic, sys) \<Rightarrow> (Panic, sys)
              | (Dropped, sys) \<Rightarrow> (Dropped, sys))
        else (Ok None, sys)
      else if bd_backend b = Wpd then (Err MtpError.Unsupported, sys)
      else (Ok None, sys))"

definition try_open_wpd_first where
  "try_open_wpd_first env b = try_open_wpd env b (de_wpd_first env)"

definition try_open_wpd_by_serial where
  "try_open_wpd_by_serial env b serial = try_open_wpd env b (de_wpd_by_serial env serial)"

definition try_open_wpd_for_usb where
  "try_open_wpd_for_usb env b serial vid pid = try_open_wpd env b (de_wpd_for_usb env serial vid pid)"

definition open_ptp_session :: "'t transport_ops \<Rightarrow> MtpDeviceBuilder \<Rightarrow> 't \<Rightarrow> 't PtpSession res \<times> 't" where
  "open_ptp_session ops b t =
     (case bd_reuse_existing_session_id b of
        Some session \<Rightarrow> open_reusing_existing ops session t
      | None \<Rightarrow> session_open ops 1 t)"

text \<open>A session on the transport and the device's information, the first steps of every opening.\<close>

definition session_and_info ::
  "'t transport_ops \<Rightarrow> MtpDeviceBuilder \<Rightarrow> 't \<Rightarrow> ((Datasets.DeviceInfo \<times> 't PtpSession) mres \<times> 't) option" where
  "session_and_info ops b t =
     seq_opt (convert (open_ptp_session ops b t)) (\<lambda>session t.
       map_option (\<lambda>(r, session). (map_ok (\<lambda>info. (info, session)) r, transport session))
         (convert_opt (get_device_info ops session)))"

definition quirks :: "Datasets.DeviceInfo \<Rightarrow> 't PtpSession \<Rightarrow> 't PtpSession" where
  "quirks info session =
     (if Datasets.DeviceInfo.di_manufacturer info = str ''Garmin'' then session\<lparr>split_header_data := True\<rparr> else session)"

definition open_usb_device ::
  "('u, 'w) device_env \<Rightarrow> MtpDeviceBuilder \<Rightarrow> 'u nusb_device \<Rightarrow> 'u \<Rightarrow> (('u, 'w) MtpDevice mres \<times> 'u) option" where
  "open_usb_device env b device u =
     seq_opt (convert (open_with_timeout device (bd_timeout b) u)) (\<lambda>transport u.
       map_option (\<lambda>(r, t).
         (map_ok (\<lambda>(info, session). OnUsb (UsbBackend_new (quirks info session) info (bd_use_object_prop_list b))) r, snd t))
       (session_and_info (nusb_ops (de_nusb env)) b (transport, u)))"

definition open_found ::
  "('u, 'w) device_env \<Rightarrow> MtpDeviceBuilder \<Rightarrow> UsbDeviceInfo \<Rightarrow> 'u System \<Rightarrow> (('u, 'w) MtpDevice mres \<times> 'u System) option" where
  "open_found env b found =
     on_bus_opt (\<lambda>u. seq_opt (convert (try_nusb (de_open env (ud_nusb_info found) u))) (open_usb_device env b))"

text \<open>A virtual device without a storage is refused. When its opening fails the transport is dropped.\<close>

definition open_virtual ::
  "('u, 'w) device_env \<Rightarrow> MtpDeviceBuilder \<Rightarrow> VirtualDeviceConfig \<Rightarrow> 'u System \<Rightarrow> (('u, 'w) MtpDevice mres \<times> 'u System) option" where
  "open_virtual env b config sys =
     (if vc_storages config = []
      then Some (Err (mtp_invalid_data ''VirtualDeviceConfig requires at least one storage'' []), sys)
      else case VirtualTransport_new (de_watcher_available env) (sy_host sys) config (sy_virtual sys) of (vt, w) \<Rightarrow>
        map_option (\<lambda>(r, st).
          let w = update_state (vt_state vt) (\<lambda>wd. wd\<lparr>wd_device := st\<rparr>) w in
          (map_ok (\<lambda>(info, session). OnVirtual vt (UsbBackend_new session info (bd_use_object_prop_list b))) r,
           sys\<lparr>sy_virtual := (if is_Ok r then w else VirtualTransport_drop vt w)\<rparr>))
        (session_and_info virtual_ops b (wd_device (vw_states w ! vt_state vt))))"

definition ok_or_no_device :: "'a option \<Rightarrow> 'a mres" where
  "ok_or_no_device x = (case x of Some a \<Rightarrow> Ok a | None \<Rightarrow> Err (Error_from PtpError.NoDevice))"

definition find_usb_device ::
  "('u, 'w) device_env \<Rightarrow> MtpDeviceBuilder \<Rightarrow> (UsbDeviceInfo \<Rightarrow> bool) \<Rightarrow> 'u System \<Rightarrow> UsbDeviceInfo mres \<times> 'u System" where
  "find_usb_device env b matches sys =
     seq_ok (usb_devices env (bd_known_devices b) sys) (\<lambda>devices sys. (ok_or_no_device (List.find matches devices), sys))"

definition open_first :: "('u, 'w) device_env \<Rightarrow> MtpDeviceBuilder \<Rightarrow> 'u System \<Rightarrow> (('u, 'w) MtpDevice mres \<times> 'u System) option" where
  "open_first env b sys =
     seq_opt (try_open_wpd_first env b sys) (\<lambda>wpd sys.
       case wpd of
         Some device \<Rightarrow> Some (Ok device, sys)
       | None \<Rightarrow> seq_opt (find_usb_device env b (\<lambda>_. True) sys) (open_found env b))"

definition open_by_location ::
  "('u, 'w) device_env \<Rightarrow> MtpDeviceBuilder \<Rightarrow> u64 \<Rightarrow> 'u System \<Rightarrow> (('u, 'w) MtpDevice mres \<times> 'u System) option" where
  "open_by_location env b location_id sys =
     (case find_virtual_config_by_location location_id (sy_registry sys) of
        Some config \<Rightarrow> open_virtual env b config sys
      | None \<Rightarrow>
          seq_opt (find_usb_device env b (\<lambda>d. ud_location_id d = location_id) sys) (\<lambda>found sys.
          seq_opt (try_open_wpd_for_usb env b (ud_serial_number found) (ud_vendor_id found) (ud_product_id found) sys) (\<lambda>wpd sys.
            case wpd of Some device \<Rightarrow> Some (Ok device, sys) | None \<Rightarrow> open_found env b found sys)))"

definition open_by_serial ::
  "('u, 'w) device_env \<Rightarrow> MtpDeviceBuilder \<Rightarrow> rstr \<Rightarrow> 'u System \<Rightarrow> (('u, 'w) MtpDevice mres \<times> 'u System) option" where
  "open_by_serial env b serial sys =
     (case find_virtual_config_by_serial serial (sy_registry sys) of
        Some config \<Rightarrow> open_virtual env b config sys
      | None \<Rightarrow>
          seq_opt (try_open_wpd_by_serial env b serial sys) (\<lambda>wpd sys.
            case wpd of
              Some device \<Rightarrow> Some (Ok device, sys)
            | None \<Rightarrow> seq_opt (find_usb_device env b (\<lambda>d. ud_serial_number d = Some serial) sys) (open_found env b)))"

section \<open>Resetting\<close>

text \<open>The reset claims the interface and nothing else: no session is opened on the device.\<close>

definition reset_usb_device ::
  "('u, 'w) device_env \<Rightarrow> MtpDeviceBuilder \<Rightarrow> UsbDeviceInfo \<Rightarrow> 'u System \<Rightarrow> (unit mres \<times> 'u System) option" where
  "reset_usb_device env b found =
     on_bus_opt (\<lambda>u.
       seq_opt (convert (try_nusb (de_open env (ud_nusb_info found) u))) (\<lambda>device u.
       seq_opt (convert (open_with_timeout device (bd_timeout b) u)) (\<lambda>transport u.
         convert_opt (nusb_reset_device (de_nusb env) transport u))))"

definition reset_by_serial ::
  "('u, 'w) device_env \<Rightarrow> MtpDeviceBuilder \<Rightarrow> rstr \<Rightarrow> 'u System \<Rightarrow> (unit mres \<times> 'u System) option" where
  "reset_by_serial env b serial sys =
     (if find_virtual_config_by_serial serial (sy_registry sys) \<noteq> None then Some (Err MtpError.Unsupported, sys)
      else seq_opt (find_usb_device env b (\<lambda>d. ud_serial_number d = Some serial) sys) (reset_usb_device env b))"

definition reset_by_location ::
  "('u, 'w) device_env \<Rightarrow> MtpDeviceBuilder \<Rightarrow> u64 \<Rightarrow> 'u System \<Rightarrow> (unit mres \<times> 'u System) option" where
  "reset_by_location env b location_id sys =
     (if find_virtual_config_by_location location_id (sy_registry sys) \<noteq> None then Some (Err MtpError.Unsupported, sys)
      else seq_opt (find_usb_device env b (\<lambda>d. ud_location_id d = location_id) sys) (reset_usb_device env b))"

definition reset_first :: "('u, 'w) device_env \<Rightarrow> MtpDeviceBuilder \<Rightarrow> 'u System \<Rightarrow> (unit mres \<times> 'u System) option" where
  "reset_first env b sys = seq_opt (find_usb_device env b (\<lambda>_. True) sys) (reset_usb_device env b)"

section \<open>With the default builder\<close>

definition device_open_first :: "('u, 'w) device_env \<Rightarrow> 'u System \<Rightarrow> (('u, 'w) MtpDevice mres \<times> 'u System) option" where
  "device_open_first env = open_first env MtpDeviceBuilder_new"

definition device_open_by_location :: "('u, 'w) device_env \<Rightarrow> u64 \<Rightarrow> 'u System \<Rightarrow> (('u, 'w) MtpDevice mres \<times> 'u System) option" where
  "device_open_by_location env = open_by_location env MtpDeviceBuilder_new"

definition device_open_by_serial :: "('u, 'w) device_env \<Rightarrow> rstr \<Rightarrow> 'u System \<Rightarrow> (('u, 'w) MtpDevice mres \<times> 'u System) option" where
  "device_open_by_serial env = open_by_serial env MtpDeviceBuilder_new"

definition device_reset_by_serial :: "('u, 'w) device_env \<Rightarrow> rstr \<Rightarrow> 'u System \<Rightarrow> (unit mres \<times> 'u System) option" where
  "device_reset_by_serial env = reset_by_serial env MtpDeviceBuilder_new"

definition device_reset_by_location :: "('u, 'w) device_env \<Rightarrow> u64 \<Rightarrow> 'u System \<Rightarrow> (unit mres \<times> 'u System) option" where
  "device_reset_by_location env = reset_by_location env MtpDeviceBuilder_new"

definition device_reset_first :: "('u, 'w) device_env \<Rightarrow> 'u System \<Rightarrow> (unit mres \<times> 'u System) option" where
  "device_reset_first env = reset_first env MtpDeviceBuilder_new"

section \<open>A virtual device as its client sees it\<close>

text \<open>The device information of a configuration; names are cut to the length of an MTP string.\<close>

definition described :: "VirtualDeviceConfig \<Rightarrow> Datasets.DeviceInfo" where
  "described config =
     \<lparr>di_standard_version = 100, di_vendor_extension_id = 6, di_vendor_extension_version = 100,
      di_vendor_extension_desc = fitting 0 (str ''microsoft.com: 1.0''), di_functional_mode = 0,
      di_operations_supported = supported_operations config,
      di_events_supported = [EventCode.ObjectAdded, EventCode.ObjectRemoved, EventCode.StorageInfoChanged],
      di_device_properties_supported = [], di_capture_formats = [],
      di_playback_formats = [ObjectFormatCode.Undefined, ObjectFormatCode.Association, ObjectFormatCode.Text,
        ObjectFormatCode.Jpeg, ObjectFormatCode.Png, ObjectFormatCode.Mp3, ObjectFormatCode.Mp4Container],
      di_manufacturer = fitting 0 (vc_manufacturer config), di_model = fitting 0 (vc_model config),
      di_device_version = fitting 0 (str ''1.0.0''), di_serial_number = fitting 0 (vc_serial config)\<rparr>"

definition plain_config :: "VirtualDeviceConfig \<Rightarrow> bool" where
  "plain_config config \<longleftrightarrow> plain_str (vc_manufacturer config) \<and> plain_str (vc_model config) \<and> plain_str (vc_serial config)"

lemma set_fitting: "set (fitting units s) \<subseteq> set s"
  by (induction s arbitrary: units) auto

lemma plain_fitting: "plain_str s \<Longrightarrow> plain_str (fitting units s)"
  using set_fitting [of units s] by (auto simp: valid_str_def list_all_iff)

lemma pack_fitting: "pack_device_string s = Ok bs \<Longrightarrow> pack_string (fitting 0 s) = Ok bs"
  by (cases "pack_string (fitting 0 s)") (simp_all add: pack_device_string_def)

lemma build_described: "build_device_info config = Ok bs \<Longrightarrow> device_info_wire (described config) = Ok bs"
  by (auto simp: build_device_info_def device_info_wire_def described_def dest!: pack_fitting)

lemma canonicalI: "length cs < 2 ^ 32 \<Longrightarrow> list_all (\<lambda>c. d (e c) = c) cs \<Longrightarrow> canonical d e cs"
  by (auto simp: canonical_def list_all_iff intro: map_idI)

lemma supported_canonical: "canonical OperationCode_from OperationCode_into (supported_operations config)"
proof (rule canonicalI)
  let ?all = "supported_operations (VirtualDeviceConfig_default)"
  have "list_all (\<lambda>c. OperationCode_from (OperationCode_into c) = c) ?all" by code_simp
  moreover have "set (supported_operations config) \<subseteq> set ?all"
    by (auto simp: supported_operations_def VirtualDeviceConfig_default_def)
  ultimately show "list_all (\<lambda>c. OperationCode_from (OperationCode_into c) = c) (supported_operations config)"
    by (auto simp: list_all_iff)
qed (simp add: supported_operations_def)

lemma described_ok: "plain_config config \<Longrightarrow> device_info_ok (described config)"
proof -
  have "canonical EventCode_from EventCode_into [EventCode.ObjectAdded, EventCode.ObjectRemoved, EventCode.StorageInfoChanged]"
    by (rule canonicalI) (simp, code_simp)
  moreover have "canonical ObjectFormatCode_from ObjectFormatCode_into [ObjectFormatCode.Undefined, ObjectFormatCode.Association,
      ObjectFormatCode.Text, ObjectFormatCode.Jpeg, ObjectFormatCode.Png, ObjectFormatCode.Mp3, ObjectFormatCode.Mp4Container]"
    by (rule canonicalI) (simp, code_simp)
  moreover have "canonical ObjectFormatCode_from ObjectFormatCode_into []" by (simp add: canonical_def)
  moreover have "plain_str (str ''microsoft.com: 1.0'')" "plain_str (str ''1.0.0'')"
    by (simp_all add: str_def valid_str_def is_scalar_def)
  ultimately show "plain_config config \<Longrightarrow> device_info_ok (described config)"
    unfolding device_info_ok_def described_def plain_config_def
    by (simp add: supported_canonical plain_fitting del: fitting.simps)
qed

lemma described_parsed: "plain_config config \<Longrightarrow> build_device_info config = Ok bs \<Longrightarrow> DeviceInfo_from_bytes bs = Ok (described config)"
  using DeviceInfo_unpack_wire [OF described_ok build_described, of config bs "[]"] by simp

text \<open>Its size.\<close>

lemma length_pack_string: "pack_string s = Ok bs \<Longrightarrow> length bs \<le> 2 * MAX_STRING_UNITS + 3"
  by (auto simp: pack_string_def Let_def length_concat sum_list_triv comp_def split: if_splits)

lemma length_pack_device_string: "pack_device_string s = Ok bs \<Longrightarrow> length bs < 1024"
  using length_pack_string [of "fitting 0 s" bs] by (auto dest!: pack_fitting simp: MAX_STRING_UNITS_def)

lemma length_u16_array: "length (pack_u16_array ws) = 4 + 2 * length ws"
  by (simp add: pack_u16_array_def length_concat comp_def sum_list_triv header_lengths)

lemma length_device_info: "build_device_info config = Ok bs \<Longrightarrow> length bs < 2 ^ 16"
proof -
  assume "build_device_info config = Ok bs"
  then obtain ext manu mdl ver ser where s: "pack_device_string (str ''microsoft.com: 1.0'') = Ok ext"
      "pack_device_string (vc_manufacturer config) = Ok manu" "pack_device_string (vc_model config) = Ok mdl"
      "pack_device_string (str ''1.0.0'') = Ok ver" "pack_device_string (vc_serial config) = Ok ser"
    and bs: "length bs < 1024 + length ext + 2 * length (supported_operations config) + length manu + length mdl + length ver + length ser"
    by (auto simp: build_device_info_def header_lengths length_u16_array)
  moreover have "length (supported_operations config) \<le> 19" by (simp add: supported_operations_def)
  ultimately show ?thesis using s [THEN length_pack_device_string] by auto
qed

section \<open>Opening it\<close>

lemma codes_back:
  "OperationCode_from (OperationCode_into OperationCode.OpenSession) = OperationCode.OpenSession"
  "OperationCode_from (OperationCode_into OperationCode.GetDeviceInfo) = OperationCode.GetDeviceInfo"
  by code_simp+

lemma fresh_session:
  assumes "idle_device st" "\<not> vd_session_open st"
  obtains st' sid where "open_ptp_session virtual_ops b st = (Ok (PtpSession_new st' sid), st')" "idle_device st'" "vd_session_open st'"
    "vd_config st' = vd_config st"
proof -
  let ?st' = "count_operation (OperationCode_into OperationCode.OpenSession) st\<lparr>vd_session_open := True\<rparr>"
  have "dispatch (OperationCode_into OperationCode.OpenSession) 0 [sid] None st =
      (Ok (), ?st'\<lparr>vd_response_queue := [build_response OK_CODE 0 []]\<rparr>)" for sid
    using assms unfolding dispatch_def Let_def codes_back
    by (simp add: handle_open_session_def respond_def push_response_def idle_device_def)
  moreover have "\<not> expects_data (OperationCode_from (OperationCode_into OperationCode.OpenSession))"
    unfolding codes_back by (simp add: expects_data_def)
  ultimately have sent: "virtual_send_bulk (command OperationCode.OpenSession 0 [sid]) st =
      (Ok (), ?st'\<lparr>vd_response_queue := [build_response OK_CODE 0 []]\<rparr>)" for sid
    using assms by (simp add: send_command idle_device_def)
  have "?st'\<lparr>vd_response_queue := []\<rparr> = ?st'" using assms by (simp add: idle_device_def same_queue)
  then have "send_open_session virtual_ops sid st = (Ok (response_of OK_CODE 0 []), ?st')" for sid
    using build_response_parsed(1) [of OK_CODE 0 "[]"]
    by (simp add: send_open_session_def send_open_session_once_def SESSION_LESS_def sent virtual_receive_bulk_def build_response_def
        header_lengths)
  then have "open_with_reuse virtual_ops sid reuse st = (Ok (PtpSession_new ?st' sid), ?st')" for sid reuse
    by (simp add: open_with_reuse_def response_of_def canonical_codes Let_def)
  then have "\<exists>sid. open_ptp_session virtual_ops b st = (Ok (PtpSession_new ?st' sid), ?st')"
    by (cases "bd_reuse_existing_session_id b") (auto simp: open_ptp_session_def session_open_def open_reusing_existing_def)
  then show thesis using that [of ?st'] assms by (auto simp: idle_device_def)
qed

lemma info_on_device:
  assumes "idle_session s" "plain_config (vd_config (transport s))"
  obtains s' where "get_device_info virtual_ops s = Some (Ok (described (vd_config (transport s))), s')" "idle_session s'"
    "vd_session_open (transport s') = vd_session_open (transport s)"
proof -
  let ?op = "OperationCode_into OperationCode.GetDeviceInfo" and ?st = "transport s" and ?tx = "transaction_id s"
  obtain bs where bs: "build_device_info (vd_config ?st) = Ok bs"
    using build_device_info_Ok [of "vd_config ?st"] by (auto simp: is_Ok_iff)
  let ?q = "[build_data_container ?op ?tx bs, build_response OK_CODE ?tx []]"
  let ?st' = "count_operation ?op ?st\<lparr>vd_response_queue := ?q\<rparr>"
  have idle: "vd_response_queue ?st = []" "vd_pending_command ?st = None" "\<not> vd_pending_operation_wedge ?st"
    using assms(1) by (simp_all add: idle_session_def idle_device_def)
  have "dispatch ?op ?tx [] None ?st = (Ok (), ?st')"
    unfolding dispatch_def Let_def codes_back
    by (simp add: handle_get_device_info_def send_payload_def respond_def push_response_def bs idle)
  moreover have "\<not> expects_data (OperationCode_from ?op)" unfolding codes_back by (simp add: expects_data_def)
  moreover have "\<forall>b\<in>set ?q. length b < 2 ^ 31"
    using length_device_info [OF bs] by (simp add: build_data_container_def build_response_def header_lengths)
  ultimately have "execute_with_receive virtual_ops OperationCode.GetDeviceInfo [] s =
      Some (Ok (response_of OK_CODE ?tx [], bs), after s ?st')"
    using execute_with_receive_on_device [OF assms(1), of OperationCode.GetDeviceInfo "[]" ?st' OK_CODE "[]" bs ?op] by simp
  then have "get_device_info virtual_ops s = Some (Ok (described (vd_config ?st)), after s ?st')"
    using described_parsed [OF assms(2) bs]
    by (simp add: get_device_info_def receive_checked_def then_opt_def response_of_def canonical_codes check_response_def
        virtual_ops_def default_set_drain_on_cancel_def)
  then show thesis
    using that assms(1) idle by (simp add: after_def idle_session_def idle_device_def needs_recovery_def)
qed

lemma open_virtual_succeeds:
  assumes "vc_storages config \<noteq> []" "plain_config config"
  obtains vt ub sys' where "open_virtual env b config sys = Some (Ok (OnVirtual vt ub), sys')"
    "ub_device_info ub = device_from_ptp (described config)" "ub_capabilities ub = capabilities_from_ptp (described config)"
    "ub_has_object_prop_list ub = (bd_use_object_prop_list b \<and> vc_supports_object_prop_list config)"
    "idle_session (ub_session ub)" "vd_session_open (transport (ub_session ub))"
    "wd_device (vw_states (sy_virtual sys') ! vt_state vt) = transport (ub_session ub)"
    "sys' = sys\<lparr>sy_virtual := sy_virtual sys'\<rparr>"
    "vw_active (sy_virtual sys') = vw_active (sy_virtual sys) @ [(vc_serial config, vt_state vt)]"
proof -
  let ?new = "VirtualDeviceState_new (sy_host sys) config"
  obtain vt w where new: "VirtualTransport_new (de_watcher_available env) (sy_host sys) config (sy_virtual sys) = (vt, w)"
    by fastforce
  then have w: "vw_states w = vw_states (sy_virtual sys) @ [\<lparr>wd_device = ?new, wd_pause_count = 0, wd_dropped_paths = []\<rparr>]"
    "vt_state vt = length (vw_states (sy_virtual sys))" "vw_active w = vw_active (sy_virtual sys) @ [(vc_serial config, vt_state vt)]"
    by (auto simp: VirtualTransport_new_def register_active_state_def Let_def)
  have "idle_device ?new" "\<not> vd_session_open ?new" by (simp_all add: VirtualDeviceState_new_def idle_device_def)
  then obtain st sid where st: "open_ptp_session virtual_ops b ?new = (Ok (PtpSession_new st sid), st)"
      "idle_device st" "vd_session_open st" "vd_config st = vd_config ?new"
    by (rule fresh_session)
  have "vd_config ?new = config" by (simp add: VirtualDeviceState_new_def)
  moreover have "idle_session (PtpSession_new st sid)"
    using st(2) by (simp add: PtpSession_new_def idle_session_def needs_recovery_def recovery_default_def)
  moreover have "transport (PtpSession_new st sid) = st" by (simp add: PtpSession_new_def)
  ultimately obtain s where s: "get_device_info virtual_ops (PtpSession_new st sid) = Some (Ok (described config), s)"
      "idle_session s" "vd_session_open (transport s)"
    using info_on_device [of "PtpSession_new st sid"] assms(2) st(3,4) by metis
  let ?sys' = "sys\<lparr>sy_virtual := update_state (vt_state vt) (\<lambda>wd. wd\<lparr>wd_device := transport s\<rparr>) w\<rparr>"
  have "session_and_info virtual_ops b ?new = Some (Ok (described config, s), transport s)"
    by (simp add: session_and_info_def convert_def convert_opt_def st(1) s(1))
  then have "open_virtual env b config sys =
      Some (Ok (OnVirtual vt (UsbBackend_new s (described config) (bd_use_object_prop_list b))), ?sys')"
    using assms(1) w by (simp add: open_virtual_def new Let_def)
  moreover have "wd_device (vw_states (sy_virtual ?sys') ! vt_state vt) = transport s"
    by (simp add: update_state_def w)
  moreover have "vw_active (sy_virtual ?sys') = vw_active (sy_virtual sys) @ [(vc_serial config, vt_state vt)]"
    by (simp add: update_state_def w)
  moreover have "supports_operation (described config) OperationCode.GetObjectPropList = vc_supports_object_prop_list config"
    by (simp add: supports_operation_def described_def supported_operations_def)
  ultimately show thesis
    using that [of vt "UsbBackend_new s (described config) (bd_use_object_prop_list b)" ?sys'] s
    by (simp add: UsbBackend_new_def)
qed

lemma described_capabilities:
  "capabilities_from_ptp (described config) =
     \<lparr>can_upload = True, can_delete = True, can_rename = vc_supports_rename config, can_move = True, can_copy = True,
      can_create_folder = True,
      supports_partial_download = (vc_supports_partial_object_64 config \<or> vc_supports_partial_object config),
      supports_thumbnails = True, supports_events = True\<rparr>"
  by (auto simp: capabilities_from_ptp_def supports_operation_def Datasets.supports_rename_def described_def
      supported_operations_def Let_def)

lemma newest_active:
  "vw_active w' = vw_active w @ [(serial, i)] \<Longrightarrow> active_state serial w = None \<Longrightarrow> active_state serial w' = Some i"
  by (simp add: active_state_def find_skips)

text \<open>
  C8: A registered virtual device can be listed and opened like a real one. After fewer than 2^48 - 1 calls to the registry, a registered configuration
  with a storage and with names that are valid and hold no NUL appears in every successful
  listing, and opening its location succeeds without touching the bus: the device that results introduces itself with the
  names of its configuration, cut to the length of an MTP string; it can do everything but that renaming, partial downloads and the object
  property list are offered as configured (the last only if the builder asks for it); it has an open session
  that is ready for the next operation; and the registry lists its very state last under its serial number, so that the hooks reach this state unless
  another device with the same serial number was running before.
\<close>

theorem registered_device_opens:
  assumes "length cs < 2 ^ 48 - 1" "reg = fold call_registry cs empty_registry"
    "register_virtual_device config reg = (info, reg')" "vc_storages config \<noteq> []" "plain_config config" "sy_registry sys = reg'"
  shows "(\<forall>known infos sys1. list_devices_with_known env known sys = (Ok infos, sys1) \<longrightarrow> info \<in> set infos) \<and>
    (\<exists>vt ub sys2. open_by_location env b (md_location_id info) sys = Some (Ok (OnVirtual vt ub), sys2) \<and>
      sy_usb sys2 = sy_usb sys \<and>
      ub_device_info ub = \<lparr>mdi_manufacturer = fitting 0 (vc_manufacturer config), mdi_model = fitting 0 (vc_model config),
        mdi_serial_number = fitting 0 (vc_serial config), mdi_device_version = fitting 0 (str ''1.0.0'')\<rparr> \<and>
      ub_capabilities ub = \<lparr>can_upload = True, can_delete = True, can_rename = vc_supports_rename config, can_move = True, can_copy = True,
        can_create_folder = True, supports_partial_download = (vc_supports_partial_object_64 config \<or> vc_supports_partial_object config),
        supports_thumbnails = True, supports_events = True\<rparr> \<and>
      ub_has_object_prop_list ub = (bd_use_object_prop_list b \<and> vc_supports_object_prop_list config) \<and>
      idle_session (ub_session ub) \<and> vd_session_open (transport (ub_session ub)) \<and>
      wd_device (vw_states (sy_virtual sys2) ! vt_state vt) = transport (ub_session ub) \<and>
      vw_active (sy_virtual sys2) = vw_active (sy_virtual sys) @ [(vc_serial config, vt_state vt)] \<and>
      (active_state (vc_serial config) (sy_virtual sys) = None \<longrightarrow> active_state (vc_serial config) (sy_virtual sys2) = Some (vt_state vt)))"
proof -
  obtain m where m: "m < 2 ^ 48" "places_below reg m" using reached_places [OF assms(1)] assms(2) by blast
  have found: "find_virtual_config_by_location (md_location_id info) (sy_registry sys) = Some config"
    using register_found [OF m(2,1) assms(3)] assms(6) by simp
  have "info \<in> set (list_virtual_devices reg')"
    using assms(3) by (auto simp: register_virtual_device_def list_virtual_devices_def Let_def)
  then have "info \<in> set (list_virtual_devices (sy_registry sys))" by (simp add: assms(6))
  moreover have "sy_registry sys1 = sy_registry sys" if "usb_devices env known sys = (r, sys1)" for known r sys1
    using that by (auto simp: usb_devices_def on_bus_def split: prod.splits)
  ultimately have listed: "info \<in> set infos" if "list_devices_with_known env known sys = (Ok infos, sys1)" for known infos sys1
    using that by (fastforce simp: list_devices_with_known_def seq_ok_Ok)
  obtain vt ub sys2 where opened: "open_virtual env b config sys = Some (Ok (OnVirtual vt ub), sys2)"
    "ub_device_info ub = device_from_ptp (described config)" "ub_capabilities ub = capabilities_from_ptp (described config)"
    "ub_has_object_prop_list ub = (bd_use_object_prop_list b \<and> vc_supports_object_prop_list config)"
    "idle_session (ub_session ub)" "vd_session_open (transport (ub_session ub))"
    "wd_device (vw_states (sy_virtual sys2) ! vt_state vt) = transport (ub_session ub)"
    "sys2 = sys\<lparr>sy_virtual := sy_virtual sys2\<rparr>"
    "vw_active (sy_virtual sys2) = vw_active (sy_virtual sys) @ [(vc_serial config, vt_state vt)]"
    by (rule open_virtual_succeeds [OF assms(4,5)])
  have usb: "sy_usb sys2 = sy_usb sys" using opened(8) by (metis System.select_convs(1) System.surjective System.update_convs(3))
  have "open_by_location env b (md_location_id info) sys = Some (Ok (OnVirtual vt ub), sys2)"
    by (simp add: open_by_location_def found opened(1))
  with listed usb opened(2-7,9) newest_active [OF opened(9)] show ?thesis
    unfolding described_capabilities by (fastforce simp: device_from_ptp_def described_def)
qed

definition demo_config :: VirtualDeviceConfig where
  "demo_config = VirtualDeviceConfig_default\<lparr>vc_storages := [demo_storage]\<rparr>"

definition demo_system :: "unit System" where
  "demo_system = \<lparr>sy_usb = (), sy_registry = snd (register_virtual_device demo_config empty_registry),
     sy_virtual = \<lparr>vw_states = [], vw_active = []\<rparr>, sy_host = demo_host\<rparr>"

theorem registered_device_opens_witness:
  "\<forall>env :: (unit, unit) device_env. \<exists>vt ub sys.
     open_by_location env MtpDeviceBuilder_new VIRTUAL_LOCATION_BASE demo_system = Some (Ok (OnVirtual vt ub), sys) \<and>
     mdi_manufacturer (ub_device_info ub) = str ''mtp-rs'' \<and> can_rename (ub_capabilities ub) \<and>
     active_state (vc_serial demo_config) (sy_virtual sys) = Some (vt_state vt)"
proof
  fix env :: "(unit, unit) device_env"
  have "md_location_id (fst (register_virtual_device demo_config empty_registry)) = VIRTUAL_LOCATION_BASE"
    by (simp add: register_virtual_device_def empty_registry_def Let_def)
  moreover have "plain_config demo_config"
    by (simp add: plain_config_def demo_config_def VirtualDeviceConfig_default_def str_def valid_str_def is_scalar_def)
  moreover have "vc_storages demo_config \<noteq> []" by (simp add: demo_config_def)
  moreover have "vc_supports_rename demo_config" by (simp add: demo_config_def VirtualDeviceConfig_default_def)
  moreover have "fitting 0 (vc_manufacturer demo_config) = str ''mtp-rs''"
    by (simp add: demo_config_def VirtualDeviceConfig_default_def str_def MAX_STRING_UNITS_def len_utf16_def)
  moreover have "sy_registry demo_system = snd (register_virtual_device demo_config empty_registry)"
    by (simp add: demo_system_def)
  moreover have "active_state (vc_serial demo_config) (sy_virtual demo_system) = None"
    by (simp add: demo_system_def active_state_def)
  ultimately show "\<exists>vt ub sys.
     open_by_location env MtpDeviceBuilder_new VIRTUAL_LOCATION_BASE demo_system = Some (Ok (OnVirtual vt ub), sys) \<and>
     mdi_manufacturer (ub_device_info ub) = str ''mtp-rs'' \<and> can_rename (ub_capabilities ub) \<and>
     active_state (vc_serial demo_config) (sy_virtual sys) = Some (vt_state vt)"
    using registered_device_opens [of "[]" empty_registry demo_config, OF _ _ surjective_pairing, of demo_system env MtpDeviceBuilder_new]
    by auto
qed

end
