(* ===== verification/Mtp_Prop_List.thy ===== *)
theory Mtp_Prop_List
  imports Mtp_Usb
begin

text \<open>
  A listing by property list against its specification. The code folds the elements of an answer with an index from handles to children
  and one bit per required property; the specification reads the same children off the whole answer.
\<close>

section \<open>The specification\<close>

text \<open>The handles of an answer in the order they are first seen.\<close>

definition first_seen :: "'a list \<Rightarrow> 'a list" where
  "first_seen hs = rev (remdups (rev hs))"

lemma first_seen_simps:
  "first_seen [] = []" "first_seen (hs @ [h]) = (if h \<in> set hs then first_seen hs else first_seen hs @ [h])"
  "set (first_seen hs) = set hs" "distinct (first_seen hs)"
  by (simp_all add: first_seen_def)

text \<open>What the elements about a handle say of it, and which properties they answer with a value of the right kind.\<close>

definition described :: "ObjectPropListElement list \<Rightarrow> ObjectHandle \<Rightarrow> ObjectInfo" where
  "described es h =
     foldl (\<lambda>info e. case pl_value e of None \<Rightarrow> info | Some v \<Rightarrow> fst (set_property info (pl_property e) v))
       (ObjectInfo_default\<lparr>oi_handle := h\<rparr>) (filter (\<lambda>e. pl_handle e = h) es)"

definition answers :: "ObjectPropListElement \<Rightarrow> bool" where
  "answers e \<longleftrightarrow> (case pl_value e of None \<Rightarrow> False | Some v \<Rightarrow> snd (set_property ObjectInfo_default (pl_property e) v))"

definition answered :: "ObjectPropListElement list \<Rightarrow> ObjectHandle \<Rightarrow> ObjectPropertyCode \<Rightarrow> bool" where
  "answered es h p \<longleftrightarrow> list_ex (\<lambda>e. pl_handle e = h \<and> pl_property e = p \<and> answers e) es"

text \<open>A folder needs no size.\<close>

definition must_tell :: "ObjectPropertyCode \<Rightarrow> ObjectInfo \<Rightarrow> bool" where
  "must_tell p info \<longleftrightarrow> p \<noteq> ObjectPropertyCode.ObjectSize \<or> \<not> is_folder info"

definition children_spec ::
  "ObjectPropListElement list \<Rightarrow> StorageId \<Rightarrow> ObjectHandle \<Rightarrow> ObjectInfo list + Unusable" where
  "children_spec elements storage parent =
     (let es = filter (\<lambda>e. pl_handle e \<noteq> parent) elements;
          hs = first_seen (map pl_handle es);
          lacks = (\<lambda>p h. must_tell p (described es h) \<and> \<not> answered es h p)
      in
      if list_ex (\<lambda>h. answered es h ObjectPropertyCode.ParentObject \<and> oi_parent (described es h) \<noteq> parent) hs
      then Inr Unusable.Systemic
      else if list_ex (\<lambda>p. list_ex (lacks p) hs \<and> list_all (\<lambda>h. must_tell p (described es h) \<longrightarrow> lacks p h) hs) PROP_LIST_REQUIRED
      then Inr Unusable.Systemic
      else if list_ex (\<lambda>p. list_ex (lacks p) hs) PROP_LIST_REQUIRED then Inr Unusable.Incomplete
      else Inl (map (\<lambda>h. if answered es h ObjectPropertyCode.StorageId then described es h
        else (described es h)\<lparr>oi_storage_id := storage\<rparr>) hs))"

subsection \<open>The children while the answer is folded\<close>

definition absorb :: "ObjectPropListElement \<Rightarrow> Child \<Rightarrow> Child" where
  "absorb e c =
     (case pl_value e of
        None \<Rightarrow> c
      | Some v \<Rightarrow>
          (case set_property (ch_info c) (pl_property e) v of
             (info, False) \<Rightarrow> c\<lparr>ch_info := info\<rparr>
           | (info, True) \<Rightarrow>
               c\<lparr>ch_info := info, ch_required := ch_required c OR required_bit (pl_property e),
                 ch_has_storage := (ch_has_storage c \<or> pl_property e = ObjectPropertyCode.StorageId)\<rparr>))"

definition child_of :: "ObjectPropListElement list \<Rightarrow> ObjectHandle \<Rightarrow> Child" where
  "child_of es h = foldl (\<lambda>c e. absorb e c) \<lparr>ch_info = ObjectInfo_default\<lparr>oi_handle := h\<rparr>, ch_required = 0, ch_has_storage = False\<rparr>
     (filter (\<lambda>e. pl_handle e = h) es)"

lemma child_of_snoc: "child_of (es @ [e]) h = (if pl_handle e = h then absorb e (child_of es h) else child_of es h)"
  by (simp add: child_of_def)

lemma accepts_value: "snd (set_property info p v) = snd (set_property info' p v)"
  by (cases v) (simp_all add: set_property_def set_number_property_def set_string_property_def split: ObjectPropertyCode.split)

definition indexes :: "'a list \<Rightarrow> ('a \<Rightarrow> nat option) \<Rightarrow> bool" where
  "indexes hs ix \<longleftrightarrow> (\<forall>h i. ix h = Some i \<longleftrightarrow> i < length hs \<and> hs ! i = h)"

lemma fold_element_step:
  assumes "ix (pl_handle e) = Some i"
  shows "fold_element e (children, ix) = (children[i := absorb e (children ! i)], ix)"
  using assms by (auto simp: fold_element_def absorb_def Let_def split: option.split prod.split bool.split)

lemma fold_element_new:
  assumes "ix (pl_handle e) = None"
  shows "fold_element e (children, ix) =
    fold_element e (children @ [\<lparr>ch_info = ObjectInfo_default\<lparr>oi_handle := pl_handle e\<rparr>, ch_required = 0, ch_has_storage = False\<rparr>],
      ix(pl_handle e \<mapsto> length children))"
  using assms by (simp add: fold_element_def Let_def)

lemma at_end: "length xs = n \<Longrightarrow> (xs @ [c])[n := f ((xs @ [c]) ! n)] = xs @ [f c]"
  by (auto simp: nth_append list_update_append)

lemma children_folded:
  "\<exists>ix. fold fold_element es ([], \<lambda>_. None) = (map (child_of es) (first_seen (map pl_handle es)), ix)
    \<and> indexes (first_seen (map pl_handle es)) ix"
proof (induction es rule: rev_induct)
  case Nil
  then show ?case by (simp add: first_seen_simps indexes_def)
next
  case (snoc e es)
  then obtain ix where ix: "fold fold_element es ([], \<lambda>_. None) = (map (child_of es) (first_seen (map pl_handle es)), ix)"
    "indexes (first_seen (map pl_handle es)) ix" by blast
  let ?hs = "first_seen (map pl_handle es)"
  show ?case
  proof (cases "pl_handle e \<in> set (map pl_handle es)")
    case True
    then obtain i where i: "i < length ?hs" "?hs ! i = pl_handle e" by (metis first_seen_simps(3) in_set_conv_nth)
    then have at: "ix (pl_handle e) = Some i" using ix(2) by (simp add: indexes_def)
    have "(map (child_of es) ?hs)[i := absorb e (child_of es (pl_handle e))] = map (child_of (es @ [e])) ?hs"
    proof (rule nth_equalityI)
      fix j assume j: "j < length ((map (child_of es) ?hs)[i := absorb e (child_of es (pl_handle e))])"
      then have "?hs ! j = pl_handle e \<longleftrightarrow> i = j" using i nth_eq_iff_index_eq [OF first_seen_simps(4) [of "map pl_handle es"], of i j] by auto
      with j i show "(map (child_of es) ?hs)[i := absorb e (child_of es (pl_handle e))] ! j = map (child_of (es @ [e])) ?hs ! j"
        by (auto simp: nth_list_update child_of_snoc)
    qed simp
    with True ix i fold_element_step [of ix e i, OF at] show ?thesis by (intro exI [of _ ix]) (simp add: first_seen_simps)
  next
    case False
    let ?h = "pl_handle e" and ?new = "\<lparr>ch_info = ObjectInfo_default\<lparr>oi_handle := pl_handle e\<rparr>, ch_required = 0, ch_has_storage = False\<rparr>"
    have absent: "?hs ! i \<noteq> ?h" if "i < length ?hs" for i using that False by (metis first_seen_simps(3) nth_mem)
    then have none: "ix ?h = None" using ix(2) by (cases "ix ?h") (auto simp: indexes_def)
    have "pl_handle x \<noteq> ?h" if "x \<in> set es" for x using that False by (metis image_eqI list.set_map)
    then have "filter (\<lambda>x. pl_handle x = ?h) es = []" by (simp add: filter_empty_conv)
    then have new: "child_of es ?h = ?new" by (simp add: child_of_def)
    have "fold_element e (map (child_of es) ?hs, ix) = (map (child_of es) ?hs @ [absorb e ?new], ix(?h \<mapsto> length ?hs))"
      unfolding fold_element_new [of ix e, OF none] by (subst fold_element_step [of _ _ "length ?hs"]) (simp_all add: at_end)
    then have "fold fold_element (es @ [e]) ([], \<lambda>_. None) = (map (child_of es) ?hs @ [absorb e ?new], ix(?h \<mapsto> length ?hs))"
      by (simp only: fold_append fold.simps comp_apply id_apply ix(1))
    moreover have "map (child_of es) ?hs = map (child_of (es @ [e])) ?hs"
      using False by (auto simp: child_of_snoc first_seen_simps)
    moreover have "child_of (es @ [e]) ?h = absorb e ?new" by (simp add: child_of_snoc new)
    moreover have "first_seen (map pl_handle (es @ [e])) = ?hs @ [?h]" using False by (simp add: first_seen_simps)
    moreover have "indexes (?hs @ [?h]) (ix(?h \<mapsto> length ?hs))"
      using ix(2) none absent by (auto simp: indexes_def nth_append)
    ultimately show ?thesis by (simp only: list.map map_append) blast
  qed
qed

subsection \<open>The bits of a child\<close>

lemma required_bit_simps:
  "required_bit ObjectPropertyCode.ParentObject = 1" "required_bit ObjectPropertyCode.ObjectFileName = 2"
  "required_bit ObjectPropertyCode.ObjectFormat = 4" "required_bit ObjectPropertyCode.ObjectSize = 8"
  "p \<notin> set PROP_LIST_REQUIRED \<Longrightarrow> required_bit p = 0"
  by (auto simp: required_bit_def PROP_LIST_REQUIRED_def)

lemma bit_OR:
  fixes a :: u8
  assumes "p \<in> set PROP_LIST_REQUIRED"
  shows "(a OR required_bit q) AND required_bit p \<noteq> 0 \<longleftrightarrow> a AND required_bit p \<noteq> 0 \<or> q = p"
proof -
  have dist: "(a OR b) AND c = (a AND c) OR (b AND c)" for b c :: u8 by (rule bit.conj_disj_distrib2)
  have or0: "x OR y = 0 \<longleftrightarrow> x = 0 \<and> y = 0" for x y :: u8 by (rule or_eq_0_iff)
  show ?thesis
  proof (cases "q \<in> set PROP_LIST_REQUIRED")
    case True
    with assms have "required_bit q AND required_bit p \<noteq> 0 \<longleftrightarrow> q = p"
      unfolding PROP_LIST_REQUIRED_def by (auto simp: required_bit_simps)
    then show ?thesis by (simp add: dist or0)
  next
    case False
    with assms have "q \<noteq> p" by auto
    with False show ?thesis by (simp add: required_bit_simps(5))
  qed
qed

lemma answered_snoc: "answered (es @ [e]) h p \<longleftrightarrow> answered es h p \<or> (pl_handle e = h \<and> pl_property e = p \<and> answers e)"
  by (auto simp: answered_def)

lemma described_snoc:
  "described (es @ [e]) h = (if pl_handle e = h
     then (case pl_value e of None \<Rightarrow> described es h | Some v \<Rightarrow> fst (set_property (described es h) (pl_property e) v))
     else described es h)"
  by (cases "pl_value e") (simp_all add: described_def)

lemma absorb_fields:
  "ch_info (absorb e c) = (case pl_value e of None \<Rightarrow> ch_info c | Some v \<Rightarrow> fst (set_property (ch_info c) (pl_property e) v))"
  "ch_required (absorb e c) = (if answers e then ch_required c OR required_bit (pl_property e) else ch_required c)"
  "ch_has_storage (absorb e c) \<longleftrightarrow> ch_has_storage c \<or> (answers e \<and> pl_property e = ObjectPropertyCode.StorageId)"
proof -
  have "ch_info (absorb e c) = (case pl_value e of None \<Rightarrow> ch_info c | Some v \<Rightarrow> fst (set_property (ch_info c) (pl_property e) v))
    \<and> ch_required (absorb e c) = (if answers e then ch_required c OR required_bit (pl_property e) else ch_required c)
    \<and> (ch_has_storage (absorb e c) \<longleftrightarrow> ch_has_storage c \<or> (answers e \<and> pl_property e = ObjectPropertyCode.StorageId))"
  proof (cases "pl_value e")
    case (Some v)
    obtain info ok where sp: "set_property (ch_info c) (pl_property e) v = (info, ok)" by force
    then have "snd (set_property ObjectInfo_default (pl_property e) v) = ok"
      using accepts_value [of "ch_info c" "pl_property e" v ObjectInfo_default] by simp
    with Some sp show ?thesis by (cases ok) (simp_all add: absorb_def answers_def)
  qed (simp add: absorb_def answers_def)
  then show "ch_info (absorb e c) = (case pl_value e of None \<Rightarrow> ch_info c | Some v \<Rightarrow> fst (set_property (ch_info c) (pl_property e) v))"
    "ch_required (absorb e c) = (if answers e then ch_required c OR required_bit (pl_property e) else ch_required c)"
    "ch_has_storage (absorb e c) \<longleftrightarrow> ch_has_storage c \<or> (answers e \<and> pl_property e = ObjectPropertyCode.StorageId)" by blast+
qed

lemma child_facts:
  "ch_info (child_of es h) = described es h" "ch_has_storage (child_of es h) \<longleftrightarrow> answered es h ObjectPropertyCode.StorageId"
  "p \<in> set PROP_LIST_REQUIRED \<Longrightarrow> ch_required (child_of es h) AND required_bit p \<noteq> 0 \<longleftrightarrow> answered es h p"
proof (induction es rule: rev_induct)
  case Nil
  {
    case 1
    show ?case by (simp add: child_of_def described_def)
  next
    case 2
    show ?case by (simp add: child_of_def answered_def)
  next
    case 3
    show ?case by (simp add: child_of_def answered_def)
  }
next
  case (snoc e es)
  {
    case 1
    show ?case by (simp add: child_of_snoc described_snoc absorb_fields snoc(1) split: option.split)
  next
    case 2
    show ?case by (auto simp: child_of_snoc answered_snoc absorb_fields snoc(2))
  next
    case 3
    from 3 show ?case by (auto simp: child_of_snoc answered_snoc absorb_fields bit_OR snoc(3))
  }
qed

lemma needs_bit:
  assumes "p \<in> set PROP_LIST_REQUIRED"
  shows "needs c AND required_bit p \<noteq> 0 \<longleftrightarrow> must_tell p (ch_info c)"
  using assms unfolding PROP_LIST_REQUIRED_def
  by (auto simp: needs_def must_tell_def required_bit_simps PROP_LIST_REQUIRED_def Let_def)

lemma length_filter_eq: "length (filter P xs) = length xs \<longleftrightarrow> list_all P xs"
  by (metis filter_True length_filter_less less_irrefl list_all_iff)

lemma list_ex_Cons: "list_ex P (x # xs) \<longleftrightarrow> P x \<or> list_ex P xs"
  by simp

lemma verdict_spec:
  assumes "set ps \<subseteq> set PROP_LIST_REQUIRED"
  shows "verdict (map (child_of es) hs) ps v =
    (let lacks = (\<lambda>p h. must_tell p (described es h) \<and> \<not> answered es h p) in
     if list_ex (\<lambda>p. list_ex (lacks p) hs \<and> list_all (\<lambda>h. must_tell p (described es h) \<longrightarrow> lacks p h) hs) ps then Some Unusable.Systemic
     else if list_ex (\<lambda>p. list_ex (lacks p) hs) ps then Some Unusable.Incomplete
     else v)"
  using assms
proof (induction ps arbitrary: v)
  case (Cons p ps)
  let ?needing = "filter (\<lambda>c. needs c AND required_bit p \<noteq> 0) (map (child_of es) hs)"
  let ?lacking = "filter (\<lambda>c. ch_required c AND required_bit p = 0) ?needing"
  let ?lacks = "\<lambda>h. must_tell p (described es h) \<and> \<not> answered es h p"
  have p: "p \<in> set PROP_LIST_REQUIRED" using Cons.prems by simp
  note bits = needs_bit [OF p] child_facts(1)
  have none: "ch_required (child_of es h) AND required_bit p = 0 \<longleftrightarrow> \<not> answered es h p" for h
    using child_facts(3) [OF p, of es h] by blast
  have some: "0 < length ?lacking \<longleftrightarrow> list_ex ?lacks hs"
    using bits none by (auto simp: filter_empty_conv list_ex_iff)
  have all: "length ?lacking = length ?needing \<longleftrightarrow> list_all (\<lambda>h. must_tell p (described es h) \<longrightarrow> ?lacks h) hs"
    unfolding length_filter_eq using bits none by (auto simp: list_all_iff)
  have cases: "(if A \<and> B then s else if P then s else if Q then i else if A then i else v) =
      (if A \<and> B \<or> P then s else if A \<or> Q then i else v)" for A B P Q and s i v :: "Unusable option" by auto
  have "set ps \<subseteq> set PROP_LIST_REQUIRED" using Cons.prems by simp
  note IH = Cons.IH [OF this, unfolded Let_def]
  show ?case unfolding verdict.simps Let_def some all IH list_ex_Cons by (rule cases)
qed simp

text \<open>
  C11: A listing by property list is what the answer says. Folding the elements a device sends, in any order and number, with
  indexes and bit masks gives what the specification reads off the whole answer: the children are the handles other than
  the folder itself in the order they are first seen, each with the last value of each property it was given; the answer is unusable for
  the device when a child names another parent or a required property is missing wherever it is must_tell,
  incomplete when one is missing somewhere, and a folder needs no size.
\<close>

theorem prop_list_children:
  "children_from_prop_list elements storage parent = children_spec elements storage parent"
proof -
  let ?es = "filter (\<lambda>e. pl_handle e \<noteq> parent) elements"
  let ?hs = "first_seen (map pl_handle ?es)"
  obtain ix where fold: "fold fold_element ?es ([], \<lambda>_. None) = (map (child_of ?es) ?hs, ix)"
    using children_folded by blast
  have "ObjectPropertyCode.ParentObject \<in> set PROP_LIST_REQUIRED" by (simp add: PROP_LIST_REQUIRED_def)
  note parent = child_facts(3) [OF this]
  have alien: "list_ex (\<lambda>c. ch_required c AND required_bit ObjectPropertyCode.ParentObject \<noteq> 0 \<and> oi_parent (ch_info c) \<noteq> parent)
      (map (child_of ?es) ?hs) = list_ex (\<lambda>h. answered ?es h ObjectPropertyCode.ParentObject \<and> oi_parent (described ?es h) \<noteq> parent) ?hs"
    by (simp add: list_ex_iff parent child_facts(1))
  have infos: "map (\<lambda>c. if \<not> ch_has_storage c then (ch_info c)\<lparr>oi_storage_id := storage\<rparr> else ch_info c) (map (child_of ?es) ?hs)
      = map (\<lambda>h. if answered ?es h ObjectPropertyCode.StorageId then described ?es h else (described ?es h)\<lparr>oi_storage_id := storage\<rparr>) ?hs"
    by (simp add: child_facts(1,2))
  show ?thesis
    unfolding children_from_prop_list_def children_spec_def Let_def fold prod.case verdict_spec [OF subset_refl] alien infos
    by (simp only: option.case split: if_split) simp
qed

end
