(* ===== verification/Usb_Contract.thy ===== *)
theory Usb_Contract
  imports Usb_Transport
begin

text \<open>
  What the USB library promises of the transfers in flight, what it asks of its callers, and that the transport asks no more: the
  locale \<open>careful\<close> is an invariant that the library's calls keep when they are made by its rules, and every call of the transport
  keeps it. It is interpreted on the bus and on a bus that records the first breach of the rules.
\<close>

section \<open>Calls that end\<close>

text \<open>If the call ends, \<open>Q\<close> holds of its outcome and the state it leaves; and the same with the promise that it ends.\<close>

definition after :: "('r \<times> 's) option \<Rightarrow> ('r \<Rightarrow> 's \<Rightarrow> bool) \<Rightarrow> bool" where
  "after m Q \<longleftrightarrow> (\<forall>r s. m = Some (r, s) \<longrightarrow> Q r s)"

definition ends :: "('r \<times> 's) option \<Rightarrow> ('r \<Rightarrow> 's \<Rightarrow> bool) \<Rightarrow> bool" where
  "ends m Q \<longleftrightarrow> (\<exists>r s. m = Some (r, s) \<and> Q r s)"

text \<open>What is left to show of the rest of a call after its first part.\<close>

fun unless_ok :: "(('b, 'e) outcome \<Rightarrow> 's \<Rightarrow> bool) \<Rightarrow> ('a \<Rightarrow> 's \<Rightarrow> bool) \<Rightarrow> ('a, 'e) outcome \<Rightarrow> 's \<Rightarrow> bool" where
  "unless_ok Q k (Ok x) s = k x s"
| "unless_ok Q k (Err e) s = Q (Err e) s"
| "unless_ok Q k Panic s = Q Panic s"
| "unless_ok Q k Dropped s = Q Dropped s"

lemma after_None [simp]: "after None Q"
  by (simp add: after_def)

lemma after_Some [simp]: "after (Some p) Q = Q (fst p) (snd p)"
  by (cases p) (auto simp: after_def)

lemma ends_Some [simp]: "ends (Some (r, s)) Q = Q r s"
  by (auto simp: ends_def)

lemma after_seq: "after (seq_opt m k) Q = unless_ok Q (\<lambda>x s. after (k x s) Q) (fst m) (snd m)"
  by (cases "(m, k)" rule: seq_opt.cases) auto

lemma ends_seq: "ends (seq_opt m k) Q = unless_ok Q (\<lambda>x s. ends (k x s) Q) (fst m) (snd m)"
  by (cases "(m, k)" rule: seq_opt.cases) auto

lemma after_then: "after (then_opt m k) Q = after m (unless_ok Q (\<lambda>x s. after (k x s) Q))"
  by (cases m) (auto simp: then_opt_def after_seq)

lemma ends_then: "ends (then_opt m k) Q = ends m (unless_ok Q (\<lambda>x s. ends (k x s) Q))"
  by (cases m) (auto simp: then_opt_def ends_seq ends_def [of None])

lemma after_mono: "after m P \<Longrightarrow> (\<And>r s. P r s \<Longrightarrow> Q r s) \<Longrightarrow> after m Q"
  by (auto simp: after_def)

lemma ends_mono: "ends m P \<Longrightarrow> (\<And>r s. P r s \<Longrightarrow> Q r s) \<Longrightarrow> ends m Q"
  by (auto simp: ends_def)

lemma unless_okI: "(\<And>r. Q r s) \<Longrightarrow> (\<And>x. k x s) \<Longrightarrow> unless_ok Q k r s"
  by (cases r) auto

text \<open>An invariant passes through a sequence of calls.\<close>

lemma after_seq_inv: "I (snd m) \<Longrightarrow> (\<And>x s. I s \<Longrightarrow> after (k x s) (\<lambda>_. I)) \<Longrightarrow> after (seq_opt m k) (\<lambda>_. I)"
  by (auto simp: after_seq intro: unless_okI)

lemma after_then_inv:
  "after m (\<lambda>_. I) \<Longrightarrow> (\<And>x s. I s \<Longrightarrow> after (k x s) (\<lambda>_. I)) \<Longrightarrow> after (then_opt m k) (\<lambda>_. I)"
  by (auto simp: after_then intro: unless_okI elim!: after_mono)

lemma seq_opt_kept:
  assumes "seq_opt m k = Some y" "I (snd m)" "\<And>x s. k x s = Some y \<Longrightarrow> I s \<Longrightarrow> I (snd y)"
  shows "I (snd y)"
  using assms by (cases "(m, k)" rule: seq_opt.cases) auto

lemma afterI: "(\<And>y. m = Some y \<Longrightarrow> I (snd y)) \<Longrightarrow> after m (\<lambda>_. I)"
  by (fastforce simp: after_def)

lemma afterD: "after m (\<lambda>_. I) \<Longrightarrow> m = Some y \<Longrightarrow> I (snd y)"
  by (cases y) (auto simp: after_def)

lemma ends_after: "ends m Q \<Longrightarrow> after m Q"
  by (auto simp: ends_def)

section \<open>What the library promises\<close>

text \<open>
  The number of transfers in flight: submitting adds one, a completion takes one, and no other call changes it. A wait that
  is given up on leaves its transfer in flight.
\<close>

fun is_completed :: "waited \<Rightarrow> bool" where
  "is_completed (Completed c) = True"
| "is_completed w = False"

definition lawful :: "'u nusb \<Rightarrow> bool" where
  "lawful nb \<longleftrightarrow>
     (\<forall>q p n u. nu_pending nb q (nu_submit_in nb p n u) = nu_pending nb q u + (if q = p then 1 else 0)) \<and>
     (\<forall>q bs u. nu_pending nb q (nu_submit_out nb bs u) = nu_pending nb q u + (if q = BulkOut then 1 else 0)) \<and>
     (\<forall>q p u. nu_pending nb q (snd (nu_next_complete nb p u)) =
        nu_pending nb q u - (if fst (nu_next_complete nb p u) \<noteq> None \<and> q = p then 1 else 0)) \<and>
     (\<forall>q p t u. nu_pending nb q (snd (nu_select nb p t u)) =
        nu_pending nb q u - (if is_completed (fst (nu_select nb p t u)) \<and> q = p then 1 else 0)) \<and>
     (\<forall>q t u. nu_pending nb q (snd (nu_wait_next_complete nb t u)) =
        nu_pending nb q u - (if fst (nu_wait_next_complete nb t u) \<noteq> None \<and> q = BulkOut then 1 else 0)) \<and>
     (\<forall>q bs t u. nu_pending nb q (snd (nu_transfer_blocking nb bs t u)) = nu_pending nb q u) \<and>
     (\<forall>q p u. nu_pending nb q (nu_cancel_all nb p u) = nu_pending nb q u) \<and>
     (\<forall>q p u. nu_pending nb q (nu_clear_halt nb p u) = nu_pending nb q u) \<and>
     (\<forall>q r i bs t u. nu_pending nb q (snd (nu_control_out nb r i bs t u)) = nu_pending nb q u) \<and>
     (\<forall>q r i n t u. nu_pending nb q (snd (nu_control_in nb r i n t u)) = nu_pending nb q u) \<and>
     (\<forall>q t u. nu_pending nb q (snd (nu_delay nb t u)) = nu_pending nb q u) \<and>
     (\<forall>q u. nu_pending nb q (snd (nu_now nb u)) = nu_pending nb q u)"

lemma lawful_submit:
  assumes "lawful nb"
  shows "nu_pending nb q (nu_submit_in nb p n u) = nu_pending nb q u + (if q = p then 1 else 0)"
    "nu_pending nb q (nu_submit_out nb bs u) = nu_pending nb q u + (if q = BulkOut then 1 else 0)"
  using assms by (simp_all add: lawful_def)

lemma lawful_next:
  "lawful nb \<Longrightarrow> nu_next_complete nb p u = (c, u') \<Longrightarrow>
     nu_pending nb q u' = nu_pending nb q u - (if c \<noteq> None \<and> q = p then 1 else 0)"
  unfolding lawful_def by (metis fst_conv snd_conv)

lemma lawful_select:
  "lawful nb \<Longrightarrow> nu_select nb p t u = (w, u') \<Longrightarrow>
     nu_pending nb q u' = nu_pending nb q u - (if is_completed w \<and> q = p then 1 else 0)"
  unfolding lawful_def by (metis fst_conv snd_conv)

lemma lawful_wait:
  "lawful nb \<Longrightarrow> nu_wait_next_complete nb t u = (c, u') \<Longrightarrow>
     nu_pending nb q u' = nu_pending nb q u - (if c \<noteq> None \<and> q = BulkOut then 1 else 0)"
  unfolding lawful_def by (metis fst_conv snd_conv)

lemma lawful_other:
  assumes "lawful nb"
  shows "nu_pending nb q (snd (nu_transfer_blocking nb bs t u)) = nu_pending nb q u"
    "nu_pending nb q (nu_cancel_all nb p u) = nu_pending nb q u"
    "nu_pending nb q (nu_clear_halt nb p u) = nu_pending nb q u"
    "nu_pending nb q (snd (nu_control_out nb r i bs t u)) = nu_pending nb q u"
    "nu_pending nb q (snd (nu_control_in nb r i n t u)) = nu_pending nb q u"
    "nu_pending nb q (snd (nu_delay nb t u)) = nu_pending nb q u"
    "nu_pending nb q (snd (nu_now nb u)) = nu_pending nb q u"
  using assms by (simp_all add: lawful_def)

section \<open>Sizes of reads\<close>

lemma aligned:
  assumes "packet_size > 0"
  shows "align_to_packet_size n packet_size > 0" "packet_size dvd align_to_packet_size n packet_size"
    "n \<le> align_to_packet_size n packet_size"
    "m > 0 \<Longrightarrow> packet_size dvd m \<Longrightarrow> n \<le> m \<Longrightarrow> align_to_packet_size n packet_size \<le> m"
proof -
  let ?a = "align_to_packet_size n packet_size"
  show "?a > 0" "packet_size dvd ?a" using assms by (auto simp: align_to_packet_size_def)
  have up: "n < (n div packet_size + 1) * packet_size"
    using assms by (metis add.commute dividend_less_div_times mult.commute mult_Suc_right Suc_eq_plus1)
  with assms show "n \<le> ?a" by (auto simp: align_to_packet_size_def)
  assume m: "m > 0" "packet_size dvd m" "n \<le> m"
  then obtain k where k: "m = packet_size * k" "k > 0" by auto
  show "?a \<le> m"
  proof (cases "n = 0 \<or> n mod packet_size = 0")
    case True
    with assms m k show ?thesis by (auto simp: align_to_packet_size_def)
  next
    case False
    then have "n \<noteq> m" using m by (metis mod_0_imp_dvd dvd_imp_mod_0)
    with m k have "n div packet_size < k"
      by (metis assms div_less_iff_less_mult le_neq_implies_less mult.commute)
    then have "(n div packet_size + 1) * packet_size \<le> m"
      using k by (metis Suc_eq_plus1 Suc_leI mult.commute mult_le_mono2)
    with False assms show ?thesis by (simp add: align_to_packet_size_def)
  qed
qed

section \<open>An invariant of the endpoints and what the calls keep of it\<close>

text \<open>
  An invariant under which at most one read is in flight on each IN endpoint, and which each call of the library keeps when
  it is made the way the library asks: a read is submitted to an idle IN endpoint with a size of whole packets, a completion
  is awaited only where a transfer is in flight, and the halt of an IN endpoint is cleared only when it is idle.
\<close>

locale careful =
  fixes nb :: "'u nusb" and inv :: "'u \<Rightarrow> bool"
  assumes laws: "inv u \<Longrightarrow> lawful nb"
    and packets: "inv u \<Longrightarrow> p \<noteq> BulkOut \<Longrightarrow> nu_max_packet_size nb p > 0"
    and single: "inv u \<Longrightarrow> p \<noteq> BulkOut \<Longrightarrow> nu_pending nb p u \<le> 1"
    and submit_in: "inv u \<Longrightarrow> p \<noteq> BulkOut \<Longrightarrow> nu_pending nb p u = 0 \<Longrightarrow> n > 0 \<Longrightarrow> nu_max_packet_size nb p dvd n \<Longrightarrow>
      inv (nu_submit_in nb p n u)"
    and submit_out: "inv u \<Longrightarrow> inv (nu_submit_out nb bs u)"
    and next_complete: "inv u \<Longrightarrow> nu_pending nb p u > 0 \<Longrightarrow> inv (snd (nu_next_complete nb p u))"
    and select: "inv u \<Longrightarrow> p \<noteq> BulkOut \<Longrightarrow> nu_pending nb p u > 0 \<Longrightarrow> inv (snd (nu_select nb p t u))"
    and wait_next_complete: "inv u \<Longrightarrow> nu_pending nb BulkOut u > 0 \<Longrightarrow> inv (snd (nu_wait_next_complete nb t u))"
    and transfer_blocking: "inv u \<Longrightarrow> inv (snd (nu_transfer_blocking nb bs t u))"
    and cancel_all: "inv u \<Longrightarrow> inv (nu_cancel_all nb p u)"
    and clear_halt: "inv u \<Longrightarrow> p = BulkOut \<or> nu_pending nb p u = 0 \<Longrightarrow> inv (nu_clear_halt nb p u)"
    and control_out: "inv u \<Longrightarrow> inv (snd (nu_control_out nb r i bs t u))"
    and control_in: "inv u \<Longrightarrow> inv (snd (nu_control_in nb r i n t u))"
    and delay: "inv u \<Longrightarrow> inv (snd (nu_delay nb t u))"
    and now: "inv u \<Longrightarrow> inv (snd (nu_now nb u))"
begin

text \<open>A read on an IN endpoint: one is in flight before the wait, and after a completion none.\<close>

lemma ready_to_wait:
  assumes "inv u" "p \<noteq> BulkOut" "n > 0" "nu_max_packet_size nb p dvd n"
  shows "inv (submit_if_idle nb p n u)" "nu_pending nb p (submit_if_idle nb p n u) = 1"
proof -
  show "inv (submit_if_idle nb p n u)" using assms submit_in by (auto simp: submit_if_idle_def)
  show "nu_pending nb p (submit_if_idle nb p n u) = 1"
    using single [OF assms(1,2)] lawful_submit [OF laws [OF assms(1)]] by (auto simp: submit_if_idle_def)
qed

lemma read_select:
  assumes "inv u" "p \<noteq> BulkOut" "n > 0" "nu_max_packet_size nb p dvd n"
    "nu_select nb p t (submit_if_idle nb p n u) = (w, u')"
  shows "inv u'" "w = Completed c \<Longrightarrow> nu_pending nb p u' = 0"
  using ready_to_wait [OF assms(1-4)] assms(2,5) select [of "submit_if_idle nb p n u" p t]
    lawful_select [OF laws [OF assms(1)], of p t "submit_if_idle nb p n u" w u' p] by auto

lemma read_next:
  assumes "inv u" "p \<noteq> BulkOut" "n > 0" "nu_max_packet_size nb p dvd n"
    "nu_next_complete nb p (submit_if_idle nb p n u) = (w, u')"
  shows "inv u'" "w = Some c \<Longrightarrow> nu_pending nb p u' = 0"
  using ready_to_wait [OF assms(1-4)] assms(2,5) next_complete [of "submit_if_idle nb p n u" p]
    lawful_next [OF laws [OF assms(1)], of p "submit_if_idle nb p n u" w u' p] by auto

lemma after_stall: "inv u \<Longrightarrow> p = BulkOut \<or> nu_pending nb p u = 0 \<Longrightarrow> inv (snd (clear_halt_if_stalled nb p e u))"
  using clear_halt by (auto simp: clear_halt_if_stalled_def)

lemma drain_pending_ends:
  "inv u \<Longrightarrow> ends (drain_pending nb p u) (\<lambda>r s. inv s \<and> (r = Ok () \<and> nu_pending nb p s = 0 \<or> r = Dropped) \<and>
     (\<forall>q. q \<noteq> p \<longrightarrow> nu_pending nb q s = nu_pending nb q u))"
proof (induction "nu_pending nb p u" arbitrary: u)
  case 0
  then show ?case by (subst drain_pending.simps) simp
next
  case (Suc n)
  obtain w u' where w: "nu_next_complete nb p u = (w, u')" by fastforce
  note pend = lawful_next [OF laws [OF Suc.prems] w]
  have u': "inv u'" using next_complete [OF Suc.prems, of p] Suc.hyps(2) w by simp
  show ?case
  proof (cases w)
    case None
    with u' Suc.hyps(2) w pend show ?thesis by (subst drain_pending.simps) auto
  next
    case (Some c)
    with pend Suc.hyps(2) have "n = nu_pending nb p u'" by auto
    from Suc.hyps(1) [OF this u'] show ?thesis
      using Some Suc.hyps(2) [symmetric] w pend by (subst drain_pending.simps) (auto elim!: ends_mono)
  qed
qed

lemma abandon_pending_ends:
  "inv u \<Longrightarrow> ends (abandon_pending nb p u) (\<lambda>r s. inv s \<and> (r = Ok () \<and> nu_pending nb p s = 0 \<or> r = Dropped) \<and>
     (\<forall>q. q \<noteq> p \<longrightarrow> nu_pending nb q s = nu_pending nb q u))"
  using drain_pending_ends [OF cancel_all, of u p p] lawful_other(2) [OF laws] by (simp add: abandon_pending_def)

lemma resync_ends:
  "inv u \<Longrightarrow> ends (resync nb p u) (\<lambda>r s. inv s \<and> (r = Ok () \<and> nu_pending nb p s = 0 \<or> r = Dropped) \<and>
     (\<forall>q. q \<noteq> p \<longrightarrow> nu_pending nb q s = nu_pending nb q u))"
proof -
  assume u: "inv u"
  have "ends (if nu_pending nb p u > 0 then abandon_pending nb p u else Some (Ok (), u))
    (\<lambda>r s. inv s \<and> (r = Ok () \<and> nu_pending nb p s = 0 \<or> r = Dropped) \<and> (\<forall>q. q \<noteq> p \<longrightarrow> nu_pending nb q s = nu_pending nb q u))"
    using abandon_pending_ends u by simp
  then show ?thesis unfolding resync_def ends_then
    by (rule ends_mono) (auto simp: clear_halt lawful_other(3) [OF laws])
qed

text \<open>Clearing halts submits nothing: where it finishes, no endpoint has more in flight than before.\<close>

definition no_more :: "'u \<Rightarrow> 'u \<Rightarrow> bool" where
  "no_more u s \<longleftrightarrow> (\<forall>q. nu_pending nb q s \<le> nu_pending nb q u)"

lemma no_more_refl: "no_more u u"
  by (simp add: no_more_def)

lemma no_more_trans: "no_more u s \<Longrightarrow> no_more s t \<Longrightarrow> no_more u t"
  unfolding no_more_def by (meson le_trans)

lemma clear_by_address_ends:
  "inv u \<Longrightarrow> ends (clear_bulk_halt_by_address nb a u) (\<lambda>r s. inv s \<and> (r = Ok () \<and> no_more u s \<or> r = Dropped))"
proof -
  assume u: "inv u"
  have "ends (resync nb p u) (\<lambda>r s. inv s \<and> (r = Ok () \<and> no_more u s \<or> r = Dropped))" for p
    by (rule ends_mono [OF resync_ends [OF u]]) (auto simp: no_more_def, metis le_refl zero_le)
  with u show ?thesis by (simp add: clear_bulk_halt_by_address_def no_more_refl)
qed

lemma clear_halts_ends:
  "inv u \<Longrightarrow> ends (clear_halts nb addresses u) (\<lambda>r s. inv s \<and> (r = Ok () \<and> no_more u s \<or> r = Dropped))"
proof (induction addresses arbitrary: u)
  case (Cons a rest)
  show ?case unfolding clear_halts.simps ends_then
    by (rule ends_mono [OF clear_by_address_ends [OF Cons.prems, of a]])
      (auto intro!: ends_mono [OF Cons.IH] intro: no_more_trans)
qed (simp add: no_more_refl)

lemma settle_ends: "inv u \<Longrightarrow> ends (settle_polls nb nt polls u) (\<lambda>r s. inv s \<and> (is_Ok r \<longrightarrow> no_more u s))"
proof (induction polls arbitrary: u)
  case (Suc polls)
  obtain r u' where r: "get_device_status nb nt u = (r, u')" by fastforce
  then have u': "inv u'" using control_in [OF Suc.prems] by (metis get_device_status_def snd_conv)
  have same: "no_more u u'"
    using lawful_other(5) [OF laws [OF Suc.prems]] r by (metis get_device_status_def no_more_def order_refl snd_conv)
  show ?case
  proof (cases r)
    case (Ok bs)
    show ?thesis
    proof (cases "parse_device_status bs")
      case (Some st)
      obtain code eps where st: "st = (code, eps)" by fastforce
      have wait: "inv (snd (nu_delay nb 50 s)) \<and> no_more u (snd (nu_delay nb 50 s))" if "inv s" "no_more u' s" for s
        using that delay lawful_other(6) [OF laws [OF that(1)]] same no_more_trans by (auto simp: no_more_def)
      let ?Q = "\<lambda>r s. inv s \<and> (is_Ok r \<longrightarrow> no_more u s)"
      have "ends (if code \<noteq> SIC_STATUS_DEVICE_BUSY then Some (Ok False, s)
             else seq_opt (nu_delay nb 50 s) (\<lambda>_ u. settle_polls nb nt polls u)) ?Q"
        if "inv s" "no_more u' s" for s
      proof (cases "code \<noteq> SIC_STATUS_DEVICE_BUSY")
        case True
        with that same no_more_trans show ?thesis by auto
      next
        case False
        have "ends (settle_polls nb nt polls (snd (nu_delay nb 50 s))) ?Q"
          by (rule ends_mono [OF Suc.IH]) (use wait [OF that] no_more_trans in auto)
        with False wait [OF that] show ?thesis
          by (simp add: ends_seq) (cases "fst (nu_delay nb 50 s)"; simp)
      qed
      then have "ends (then_opt (clear_halts nb eps u') (\<lambda>_ s. if code \<noteq> SIC_STATUS_DEVICE_BUSY then Some (Ok False, s)
             else seq_opt (nu_delay nb 50 s) (\<lambda>_ u. settle_polls nb nt polls u))) ?Q"
        unfolding ends_then by (rule_tac ends_mono [OF clear_halts_ends [OF u', of eps]]) auto
      with r Ok Some st show ?thesis by simp
    qed (use r Ok u' same in simp)
  qed (use r u' same in simp_all)
qed (simp add: no_more_refl)

text \<open>The single calls keep the invariant.\<close>

lemma send_bulk_keeps: "inv u \<Longrightarrow> inv (snd (nusb_send_bulk nb nt bs u))"
  using transfer_blocking [of u bs "nt_timeout nt"] after_stall
  by (auto simp: nusb_send_bulk_def split: prod.splits option.splits) (metis snd_conv)+

lemma submit_and_wait_keeps:
  assumes "inv u"
  shows "inv (snd (submit_and_wait nb nt bs u))"
proof -
  have "inv (nu_submit_out nb bs u)" "nu_pending nb BulkOut (nu_submit_out nb bs u) > 0"
    using assms submit_out lawful_submit(2) [OF laws] by auto
  then have "inv (snd (nu_wait_next_complete nb (nt_timeout nt) (nu_submit_out nb bs u)))" by (rule wait_next_complete)
  then show ?thesis using after_stall
    by (auto simp: submit_and_wait_def split: prod.splits option.splits) (metis snd_conv)+
qed

lemma send_rest_keeps: "inv u \<Longrightarrow> inv (snd (send_rest nb nt max_packet_size st u))"
proof -
  assume u: "inv u"
  obtain cur cap sent where st: "st = (cur, cap, sent)" by (cases st)
  have "inv (snd (seq_ok (submit_and_wait nb nt cur u) (\<lambda>_ u.
      if length cur mod max_packet_size = 0 then submit_and_wait nb nt [] u else (Ok (), u))))"
    using submit_and_wait_keeps [OF u, of nt cur] submit_and_wait_keeps [of _ nt "[]"]
    by (cases "submit_and_wait nb nt cur u"; cases "fst (submit_and_wait nb nt cur u)") auto
  with st u submit_and_wait_keeps show ?thesis by (simp add: send_rest_def)
qed

lemma receive_bulk_keeps: "inv u \<Longrightarrow> inv (snd (nusb_receive_bulk nb nt n u))"
proof -
  assume u: "inv u"
  note al = aligned(1,2) [OF packets [OF u], of BulkIn n, simplified]
  show ?thesis using read_select [OF u _ al] after_stall
    by (auto simp: nusb_receive_bulk_def Let_def split: prod.splits waited.splits option.splits) (metis snd_conv)+
qed

lemma receive_interrupt_keeps: "inv u \<Longrightarrow> inv (snd (nusb_receive_interrupt nb u))"
proof -
  assume u: "inv u"
  note al = aligned(1,2) [OF packets [OF u], of InterruptIn INTERRUPT_BUFFER_SIZE, simplified, folded interrupt_read_size_def]
  show ?thesis using read_next [OF u _ al] after_stall
    by (auto simp: nusb_receive_interrupt_def Let_def split: prod.splits option.splits) (metis snd_conv)+
qed

end

context careful
begin

text \<open>The loops keep the invariant in every round, whether or not they end.\<close>

lemma push_chunk_keeps:
  assumes "inv u"
  shows "after (push_chunk nb nt transfer_size remaining st u) (\<lambda>_. inv)"
proof (rule afterI)
  fix y assume run: "push_chunk nb nt transfer_size remaining st u = Some y"
  have "nb = nb \<longrightarrow> inv u \<longrightarrow> inv (snd y)"
  proof (rule push_chunk.raw_induct [where P = "\<lambda>nb' nt ts remaining st u y. nb' = nb \<longrightarrow> inv u \<longrightarrow> inv (snd y)", OF _ run],
      intro impI, goal_cases)
    case (1 loop nb' nt ts remaining st u y)
    note IH = 1(1) [rule_format, OF _ 1(3)]
    obtain cur cap sent where st: "st = (cur, cap, sent)" by (cases st)
    show ?case
      using 1(2-4) by (auto simp: st Let_def split: if_splits intro: IH elim!: seq_opt_kept intro!: submit_and_wait_keeps)
  qed
  with assms show "inv (snd y)" by blast
qed

lemma push_chunks_keeps: "inv u \<Longrightarrow> after (push_chunks nb nt transfer_size chunks st u) (\<lambda>_. inv)"
proof (induction chunks arbitrary: st u)
  case (Cons c chunks)
  show ?case
  proof (cases c)
    case (Ok chunk)
    then show ?thesis using Cons by (auto intro!: after_then_inv push_chunk_keeps simp del: split_paired_All)
  next
    case (Err e)
    then show ?thesis using Cons by (cases e) simp
  qed (use Cons in simp_all)
qed simp

lemma send_bulk_streaming_keeps: "inv u \<Longrightarrow> after (nusb_send_bulk_streaming nb nt chunks u) (\<lambda>_. inv)"
  unfolding nusb_send_bulk_streaming_def Let_def
  by (intro after_seq_inv after_then_inv) (auto intro: push_chunks_keeps send_rest_keeps)

lemma abandon_keeps: "inv u \<Longrightarrow> abandon_pending nb p u = Some y \<Longrightarrow> inv (snd y)"
  using abandon_pending_ends [of u p] by (auto simp: ends_def)

lemma resync_after: "inv u \<Longrightarrow> after (resync nb p u) (\<lambda>_. inv)"
  by (rule ends_after [OF ends_mono [OF resync_ends]]) auto

lemma reset_drain_keeps:
  assumes "inv u"
  shows "after (reset_drain nb (nu_max_packet_size nb BulkIn) u) (\<lambda>_. inv)"
proof (rule afterI)
  fix y assume run: "reset_drain nb (nu_max_packet_size nb BulkIn) u = Some y"
  have "nb = nb \<longrightarrow> nu_max_packet_size nb BulkIn = nu_max_packet_size nb BulkIn \<longrightarrow> inv u \<longrightarrow> inv (snd y)"
  proof (rule reset_drain.raw_induct [where P = "\<lambda>nb' n u y. nb' = nb \<longrightarrow> n = nu_max_packet_size nb BulkIn \<longrightarrow> inv u \<longrightarrow> inv (snd y)", OF _ run],
      intro impI, goal_cases)
    case (1 loop nb' n u y)
    note IH = 1(1) [rule_format, OF _ 1(3,4)]
    obtain w u' where w: "nu_select nb BulkIn 300 (submit_if_idle nb BulkIn (align_to_packet_size n n) u) = (w, u')" by fastforce
    have u': "inv u'"
      using read_select(1) [OF 1(5) _ _ _ w] packets [OF 1(5), of BulkIn] aligned 1(4) by simp
    show ?case
      using 1(2-4) w IH u' abandon_keeps by (auto split: waited.splits if_splits)
  qed
  with assms show "inv (snd y)" by blast
qed

lemma cancel_drain_keeps:
  assumes "inv u" "n > 0" "nu_max_packet_size nb BulkIn dvd n"
  shows "after (cancel_drain nb idle n u) (\<lambda>_. inv)"
proof (rule afterI)
  fix y assume run: "cancel_drain nb idle n u = Some y"
  have "nb = nb \<longrightarrow> n = n \<longrightarrow> inv u \<longrightarrow> inv (snd y)"
  proof (rule cancel_drain.raw_induct [where P = "\<lambda>nb' t m u y. nb' = nb \<longrightarrow> m = n \<longrightarrow> inv u \<longrightarrow> inv (snd y)", OF _ run],
      intro impI, goal_cases)
    case (1 loop nb' t m u y)
    note IH = 1(1) [rule_format, OF _ 1(3,4)]
    obtain w u' where w: "nu_select nb BulkIn t (submit_if_idle nb BulkIn n u) = (w, u')" by fastforce
    have u': "inv u'" using read_select(1) [OF 1(5) _ assms(2,3) w] by simp
    show ?case
      using 1(2-4) w u' by (auto split: waited.splits option.splits if_splits intro: IH abandon_keeps elim!: seq_opt_kept)
  qed
  with assms show "inv (snd y)" by blast
qed

lemma drain_loop_keeps:
  assumes "inv u" "n > 0" "nu_max_packet_size nb BulkIn dvd n"
  shows "after (drain_loop nb n idle deadline drained u) (\<lambda>_. inv)"
proof (rule afterI)
  fix y assume run: "drain_loop nb n idle deadline drained u = Some y"
  have "nb = nb \<longrightarrow> n = n \<longrightarrow> inv u \<longrightarrow> inv (snd y)"
  proof (rule drain_loop.raw_induct [where P = "\<lambda>nb' m t d k u y. nb' = nb \<longrightarrow> m = n \<longrightarrow> inv u \<longrightarrow> inv (snd y)", OF _ run],
      intro impI, goal_cases)
    case (1 loop nb' m t d k u y)
    note IH = 1(1) [rule_format, OF _ 1(3,4)]
    obtain time u0 where clock: "nu_now nb u = (time, u0)" by fastforce
    then have u0: "inv u0" using now [OF 1(5)] by simp
    obtain w u' where w: "nu_select nb BulkIn t (submit_if_idle nb BulkIn n u0) = (w, u')" by fastforce
    note rd = read_select [OF u0 _ assms(2,3) w]
    show ?case
      using 1(2-4) clock u0 w rd by (auto split: waited.splits option.splits if_splits intro: IH intro!: after_stall)
  qed
  with assms show "inv (snd y)" by blast
qed

lemma reset_device_keeps: "inv u \<Longrightarrow> after (nusb_reset_device nb nt u) (\<lambda>_. inv)"
  unfolding nusb_reset_device_def
  by (intro after_seq_inv after_then_inv resync_after reset_drain_keeps)
    (auto split: prod.split dest: control_out [of _ SIC_DEVICE_RESET_REQUEST "ucast (nt_interface_number nt)" "[]" 1000])

lemma cancel_interrupt_keeps: "inv u \<Longrightarrow> after (cancel_interrupt nb idle u) (\<lambda>_. inv)"
proof -
  assume u: "inv u"
  obtain w u' where w: "nu_select nb InterruptIn idle (submit_if_idle nb InterruptIn (interrupt_read_size nb) u) = (w, u')" by fastforce
  have u': "inv u'"
    using read_select(1) [OF u _ _ _ w] packets [OF u, of InterruptIn] aligned by (simp add: interrupt_read_size_def)
  show ?thesis using w u' abandon_keeps by (cases w) (auto simp: cancel_interrupt_def intro!: afterI)
qed

lemma request_cancel_keeps: "inv u \<Longrightarrow> inv (snd (request_cancel nb nt transaction u))"
  using control_out [of u SIC_CANCEL_REQUEST "ucast (nt_interface_number nt)" "cancel_payload transaction" 300]
  by (auto simp: request_cancel_def split: prod.splits)

lemma report_wedged_keeps: "inv u \<Longrightarrow> after (report_wedged nb nt u) (\<lambda>_. inv)"
  using reset_device_keeps [of u nt]
  by (cases "nusb_reset_device nb nt u"; cases "fst (the (nusb_reset_device nb nt u))")
    (auto simp: report_wedged_def split: prod.splits)

lemma settle_keeps: "inv u \<Longrightarrow> after (settle_polls nb nt polls u) (\<lambda>_. inv)"
  by (rule ends_after [OF ends_mono [OF settle_ends]]) auto

lemma cancel_size:
  assumes "inv u"
  shows "cancel_read_size refused (nu_max_packet_size nb BulkIn) > 0"
    "nu_max_packet_size nb BulkIn dvd cancel_read_size refused (nu_max_packet_size nb BulkIn)"
  using packets [OF assms, of BulkIn] aligned by (simp_all add: cancel_read_size_def)

lemma cancel_transfer_keeps: "inv u \<Longrightarrow> after (nusb_cancel_transfer nb nt transaction idle u) (\<lambda>_. inv)"
  unfolding nusb_cancel_transfer_def
  by (intro after_seq_inv after_then_inv request_cancel_keeps cancel_drain_keeps cancel_interrupt_keeps)
    (auto intro!: cancel_size report_wedged_keeps settle_keeps simp: settle_after_cancel_def)

lemma drain_bulk_in_keeps: "inv u \<Longrightarrow> after (nusb_drain_bulk_in nb idle duration u) (\<lambda>_. inv)"
  using packets [of u BulkIn] aligned now [of u]
  unfolding nusb_drain_bulk_in_def Let_def
  by (cases "nu_now nb u")
    (auto intro!: after_then_inv drain_loop_keeps intro: afterI abandon_keeps)

end

section \<open>The transport keeps to the library's rules\<close>

text \<open>
  The bus with a flag that falls at the first call made against the rules: a read whose size is not a positive multiple of
  the packet size or that joins another in flight, a wait with nothing in flight, the halt of a busy IN endpoint cleared.
\<close>

definition watched :: "'u nusb \<Rightarrow> ('u \<times> bool) nusb" where
  "watched nb = \<lparr>
     nu_macos = nu_macos nb, nu_error_text = nu_error_text nb, nu_address = nu_address nb,
     nu_max_packet_size = nu_max_packet_size nb,
     nu_pending = (\<lambda>p (u, ok). nu_pending nb p u),
     nu_allocate = (\<lambda>n (u, ok). nu_allocate nb n u),
     nu_submit_in = (\<lambda>p n (u, ok). (nu_submit_in nb p n u,
       ok \<and> p \<noteq> BulkOut \<and> n > 0 \<and> nu_max_packet_size nb p dvd n \<and> nu_pending nb p u = 0)),
     nu_submit_out = (\<lambda>bs (u, ok). (nu_submit_out nb bs u, ok)),
     nu_next_complete = (\<lambda>p (u, ok). map_prod id (\<lambda>u'. (u', ok \<and> nu_pending nb p u > 0)) (nu_next_complete nb p u)),
     nu_select = (\<lambda>p t (u, ok). map_prod id (\<lambda>u'. (u', ok \<and> nu_pending nb p u > 0)) (nu_select nb p t u)),
     nu_wait_next_complete = (\<lambda>t (u, ok). map_prod id (\<lambda>u'. (u', ok \<and> nu_pending nb BulkOut u > 0)) (nu_wait_next_complete nb t u)),
     nu_transfer_blocking = (\<lambda>bs t (u, ok). map_prod id (\<lambda>u'. (u', ok)) (nu_transfer_blocking nb bs t u)),
     nu_cancel_all = (\<lambda>p (u, ok). (nu_cancel_all nb p u, ok)),
     nu_clear_halt = (\<lambda>p (u, ok). (nu_clear_halt nb p u, ok \<and> (p = BulkOut \<or> nu_pending nb p u = 0))),
     nu_control_out = (\<lambda>r i bs t (u, ok). map_prod id (\<lambda>u'. (u', ok)) (nu_control_out nb r i bs t u)),
     nu_control_in = (\<lambda>r i n t (u, ok). map_prod id (\<lambda>u'. (u', ok)) (nu_control_in nb r i n t u)),
     nu_delay = (\<lambda>t (u, ok). map_prod id (\<lambda>u'. (u', ok)) (nu_delay nb t u)),
     nu_now = (\<lambda>(u, ok). map_prod id (\<lambda>u'. (u', ok)) (nu_now nb u))\<rparr>"

text \<open>The rules were kept so far and at most one read is in flight on each IN endpoint.\<close>

definition in_order :: "'u nusb \<Rightarrow> 'u \<times> bool \<Rightarrow> bool" where
  "in_order nb s \<longleftrightarrow> lawful nb \<and> (\<forall>p. p \<noteq> BulkOut \<longrightarrow> nu_max_packet_size nb p > 0) \<and> snd s \<and>
     (\<forall>p. p \<noteq> BulkOut \<longrightarrow> nu_pending nb p (fst s) \<le> 1)"

lemma watched_lawful: "lawful nb \<Longrightarrow> lawful (watched nb)"
  by (simp add: lawful_def watched_def split_beta)

lemma watched_pending [simp]:
  "nu_pending (watched nb) p s = nu_pending nb p (fst s)" "nu_max_packet_size (watched nb) = nu_max_packet_size nb"
  by (simp_all add: watched_def split_beta)

interpretation orderly: careful "watched nb" "in_order nb" for nb
proof
  fix u :: "'a \<times> bool"
  assume io: "in_order nb u"
  then have l: "lawful nb" by (simp add: in_order_def)
  show "lawful (watched nb)" using l by (rule watched_lawful)
  note lw = l [unfolded lawful_def]
  fix p q :: pipe and n t r i bs
  have le: "nu_pending nb q (fst u) - k \<le> 1" if "q \<noteq> BulkOut" for q k
    using io that by (metis diff_le_self in_order_def le_trans)
  show "p \<noteq> BulkOut \<Longrightarrow> nu_max_packet_size (watched nb) p > 0" "p \<noteq> BulkOut \<Longrightarrow> nu_pending (watched nb) p u \<le> 1"
    using io by (simp_all add: in_order_def)
  show "in_order nb (nu_submit_in (watched nb) p n u)"
    if "p \<noteq> BulkOut" "nu_pending (watched nb) p u = 0" "n > 0" "nu_max_packet_size (watched nb) p dvd n"
    using io that lawful_submit(1) [OF l] by (simp add: in_order_def watched_def split_beta)
  show "in_order nb (nu_submit_out (watched nb) bs u)"
    using io lawful_submit(2) [OF l] by (simp add: in_order_def watched_def split_beta)
  show "in_order nb (snd (nu_next_complete (watched nb) p u))" if "nu_pending (watched nb) p u > 0"
    using io that le lw by (simp add: in_order_def watched_def split_beta)
  show "in_order nb (snd (nu_select (watched nb) p t u))" if "nu_pending (watched nb) p u > 0"
    using io that le lw by (simp add: in_order_def watched_def split_beta)
  show "in_order nb (snd (nu_wait_next_complete (watched nb) t u))" if "nu_pending (watched nb) BulkOut u > 0"
    using io that le lw by (simp add: in_order_def watched_def split_beta)
  show "in_order nb (nu_clear_halt (watched nb) p u)" if "p = BulkOut \<or> nu_pending (watched nb) p u = 0"
    using io that lawful_other(3) [OF l] by (simp add: in_order_def watched_def split_beta)
  show "in_order nb (snd (nu_transfer_blocking (watched nb) bs t u))" "in_order nb (nu_cancel_all (watched nb) p u)"
    "in_order nb (snd (nu_delay (watched nb) t u))" "in_order nb (snd (nu_now (watched nb) u))"
    using io lawful_other [OF l] by (simp_all add: in_order_def watched_def split_beta)
  show "in_order nb (snd (nu_control_out (watched nb) r i bs t u))"
    using io lawful_other(4) [OF l] by (simp add: in_order_def watched_def split_beta)
  show "in_order nb (snd (nu_control_in (watched nb) r i n t u))" for r i n
    using io lawful_other(5) [OF l] by (simp add: in_order_def watched_def split_beta)
qed

end
