(* ===== verification/Usb_Runs.thy ===== *)
theory Usb_Runs
  imports Usb_Contract
begin

text \<open>
  Runs of the USB transport: its calls in any order, cancellations and resets against a device that falls silent, streamed
  uploads as they appear on the wire, and what a timed-out upload leaves behind.
\<close>

section \<open>Cancellation and reset end when the device falls silent\<close>

text \<open>
  A device that falls silent: a measure of the state that submitting a read does not raise and every successful bulk read
  lowers, such as the number of packets it still has to send.
\<close>

definition falls_silent :: "'u nusb \<Rightarrow> ('u \<Rightarrow> nat) \<Rightarrow> bool" where
  "falls_silent nb left \<longleftrightarrow>
     (\<forall>p n u. left (nu_submit_in nb p n u) \<le> left u) \<and>
     (\<forall>t u c u'. nu_select nb BulkIn t u = (Completed c, u') \<and> co_status c = None \<longrightarrow> left u' < left u)"

lemma silent_read:
  assumes "falls_silent nb left" "nu_select nb BulkIn t (submit_if_idle nb BulkIn n u) = (Completed c, u')" "co_status c = None"
  shows "left u' < left u"
proof -
  have "left (submit_if_idle nb BulkIn n u) \<le> left u" using assms(1) by (simp add: falls_silent_def submit_if_idle_def)
  moreover have "left u' < left (submit_if_idle nb BulkIn n u)" using assms unfolding falls_silent_def by blast
  ultimately show ?thesis by simp
qed

context careful
begin

lemma abandon_idle: "inv u \<Longrightarrow> ends (abandon_pending nb p u) (\<lambda>r s. inv s \<and> (r = Ok () \<longrightarrow> nu_pending nb p s = 0))"
  by (rule ends_mono [OF abandon_pending_ends]) auto

lemma cancel_drain_ends:
  assumes "falls_silent nb left" "n > 0" "nu_max_packet_size nb BulkIn dvd n"
  shows "inv u \<Longrightarrow> ends (cancel_drain nb idle n u) (\<lambda>r s. inv s \<and> (r = Ok () \<longrightarrow> nu_pending nb BulkIn s = 0))"
proof (induction "left u" arbitrary: u rule: less_induct)
  case less
  obtain w u' where w: "nu_select nb BulkIn idle (submit_if_idle nb BulkIn n u) = (w, u')" by fastforce
  have u': "inv u'" using read_select(1) [OF less.prems _ assms(2,3) w] by simp
  show ?case
  proof (cases w)
    case (Completed c)
    show ?thesis
    proof (cases "co_status c")
      case None
      have "ends (cancel_drain nb idle n u') (\<lambda>r s. inv s \<and> (r = Ok () \<longrightarrow> nu_pending nb BulkIn s = 0))"
        using silent_read [OF assms(1) w [unfolded Completed] None] u' by (rule less.hyps)
      with w u' Completed None abandon_idle [OF u'] show ?thesis
        by (subst cancel_drain.simps) (cases "completed_bytes c"; simp add: ends_seq)
    next
      case (Some e)
      with w u' Completed abandon_idle [OF u'] show ?thesis by (subst cancel_drain.simps) simp
    qed
  next
    case Elapsed
    with w abandon_idle [OF u'] show ?thesis by (subst cancel_drain.simps) simp
  next
    case Abandoned
    with w u' show ?thesis by (subst cancel_drain.simps) simp
  qed
qed

lemma reset_drain_ends:
  assumes "falls_silent nb left"
  shows "inv u \<Longrightarrow> ends (reset_drain nb (nu_max_packet_size nb BulkIn) u) (\<lambda>r s. inv s \<and> (r = Ok () \<longrightarrow> nu_pending nb BulkIn s = 0))"
proof (induction "left u" arbitrary: u rule: less_induct)
  case less
  let ?n = "align_to_packet_size (nu_max_packet_size nb BulkIn) (nu_max_packet_size nb BulkIn)"
  obtain w u' where w: "nu_select nb BulkIn 300 (submit_if_idle nb BulkIn ?n u) = (w, u')" by fastforce
  have u': "inv u'" using read_select(1) [OF less.prems _ _ _ w] packets [OF less.prems, of BulkIn] aligned by simp
  show ?case
  proof (cases w)
    case (Completed c)
    show ?thesis
    proof (cases "co_status c")
      case None
      have "ends (reset_drain nb (nu_max_packet_size nb BulkIn) u') (\<lambda>r s. inv s \<and> (r = Ok () \<longrightarrow> nu_pending nb BulkIn s = 0))"
        using silent_read [OF assms(1) w [unfolded Completed] None] u' by (rule less.hyps)
      with w Completed None show ?thesis by (subst reset_drain.simps) simp
    next
      case (Some e)
      with w Completed abandon_idle [OF u'] show ?thesis by (subst reset_drain.simps) simp
    qed
  next
    case Elapsed
    with w abandon_idle [OF u'] show ?thesis by (subst reset_drain.simps) simp
  next
    case Abandoned
    with w u' show ?thesis by (subst reset_drain.simps) simp
  qed
qed

lemma reset_device_ends:
  assumes "falls_silent nb left" "inv u"
  shows "ends (nusb_reset_device nb nt u) (\<lambda>r s. inv s \<and> (r = Ok () \<longrightarrow> nu_pending nb BulkIn s = 0))"
proof -
  let ?Q = "\<lambda>r s. inv s \<and> (r = Ok () \<longrightarrow> nu_pending nb BulkIn s = 0)"
  have rest: "ends (then_opt (resync nb BulkOut s) (\<lambda>_ u. then_opt (resync nb BulkIn u) (\<lambda>_ u. reset_drain nb (nu_max_packet_size nb BulkIn) u))) ?Q"
    if "inv s" for s
    unfolding ends_then
    by (rule ends_mono [OF resync_ends [OF that]])
      (auto intro!: ends_mono [OF resync_ends] reset_drain_ends [OF assms(1)])
  obtain r u' where r: "nu_control_out nb SIC_DEVICE_RESET_REQUEST (ucast (nt_interface_number nt)) [] 1000 u = (r, u')" by fastforce
  then have "inv u'" using control_out [OF assms(2)] by (metis snd_conv)
  with r rest show ?thesis by (cases r) (auto simp: nusb_reset_device_def ends_seq)
qed

lemma cancel_interrupt_ends:
  "inv u \<Longrightarrow> nu_pending nb BulkIn u = 0 \<Longrightarrow>
     ends (cancel_interrupt nb idle u) (\<lambda>r s. inv s \<and> (r = Ok () \<longrightarrow> nu_pending nb BulkIn s = 0 \<and> nu_pending nb InterruptIn s = 0))"
proof -
  assume u: "inv u" "nu_pending nb BulkIn u = 0"
  obtain w u' where w: "nu_select nb InterruptIn idle (submit_if_idle nb InterruptIn (interrupt_read_size nb) u) = (w, u')" by fastforce
  note al = aligned(1,2) [OF packets [OF u(1)], of InterruptIn INTERRUPT_BUFFER_SIZE, simplified, folded interrupt_read_size_def]
  note rd = read_select [OF u(1) _ al w]
  have bulk: "nu_pending nb BulkIn u' = 0"
    using lawful_select [OF laws [OF u(1)] w, of BulkIn] u(2) lawful_submit(1) [OF laws [OF u(1)]]
    by (simp add: submit_if_idle_def split: if_splits)
  have "ends (abandon_pending nb InterruptIn u') (\<lambda>r s. inv s \<and> (r = Ok () \<longrightarrow> nu_pending nb BulkIn s = 0 \<and> nu_pending nb InterruptIn s = 0))"
    by (rule ends_mono [OF abandon_pending_ends [OF rd(1)]]) (use bulk in auto)
  with w rd bulk show ?thesis by (cases w) (simp_all add: cancel_interrupt_def)
qed

lemma report_wedged_ends:
  assumes "falls_silent nb left" "inv u"
  shows "ends (report_wedged nb nt u) (\<lambda>r s. r \<noteq> Ok ())"
proof -
  obtain r s where "nusb_reset_device nb nt u = Some (r, s)"
    using reset_device_ends [OF assms, of nt] by (auto simp: ends_def)
  then show ?thesis by (cases r) (simp_all add: report_wedged_def)
qed

lemma no_more_zero: "no_more u s \<Longrightarrow> nu_pending nb q u = 0 \<Longrightarrow> nu_pending nb q s = 0"
  unfolding no_more_def by (metis le_0_eq)

lemma cancel_transfer_ends:
  assumes "falls_silent nb left" "inv u"
  shows "ends (nusb_cancel_transfer nb nt transaction idle u)
    (\<lambda>r s. r = Ok () \<longrightarrow> nu_pending nb BulkIn s = 0 \<and> nu_pending nb InterruptIn s = 0)"
    (is "ends _ ?Q")
proof -
  have settle: "ends (then_opt (settle_after_cancel nb nt s) (\<lambda>wedged u. if wedged then report_wedged nb nt u else Some (Ok (), u))) ?Q"
    if "inv s" "nu_pending nb BulkIn s = 0" "nu_pending nb InterruptIn s = 0" for s
    unfolding settle_after_cancel_def ends_then
  proof (rule ends_mono [OF settle_ends [OF that(1)]], goal_cases)
    case (1 r s')
    then show ?case
      using that report_wedged_ends [OF assms(1), of s' nt]
      by (cases r) (auto dest: no_more_zero elim!: ends_mono)
  qed
  have ints: "ends (then_opt (cancel_interrupt nb idle s) (\<lambda>_ u.
      then_opt (settle_after_cancel nb nt u) (\<lambda>wedged u. if wedged then report_wedged nb nt u else Some (Ok (), u)))) ?Q"
    if "inv s" "nu_pending nb BulkIn s = 0" for s
    by (subst ends_then, rule ends_mono [OF cancel_interrupt_ends [OF that]], rename_tac r t, case_tac r)
      (auto simp: settle)
  have drain: "ends (then_opt (cancel_drain nb idle (cancel_read_size refused (nu_max_packet_size nb BulkIn)) s) (\<lambda>_ u.
      then_opt (cancel_interrupt nb idle u) (\<lambda>_ u.
      then_opt (settle_after_cancel nb nt u) (\<lambda>wedged u. if wedged then report_wedged nb nt u else Some (Ok (), u))))) ?Q"
    if "inv s" for s refused
    by (subst ends_then, rule ends_mono [OF cancel_drain_ends [OF assms(1) cancel_size [OF that] that]], rename_tac r t, case_tac r)
      (auto simp: ints)
  show ?thesis
    using drain request_cancel_keeps [OF assms(2), of nt transaction]
    by (simp add: nusb_cancel_transfer_def ends_seq)
      (cases "fst (request_cancel nb nt transaction u)"; simp)
qed

end

text \<open>The same rules over the bus itself.\<close>

definition at_most_one_read :: "'u nusb \<Rightarrow> 'u \<Rightarrow> bool" where
  "at_most_one_read nb u \<longleftrightarrow> lawful nb \<and>
     nu_max_packet_size nb BulkIn > 0 \<and> nu_max_packet_size nb InterruptIn > 0 \<and>
     nu_pending nb BulkIn u \<le> 1 \<and> nu_pending nb InterruptIn u \<le> 1"

lemma at_most_one_read_iff:
  "at_most_one_read nb u \<longleftrightarrow> lawful nb \<and> (\<forall>p. p \<noteq> BulkOut \<longrightarrow> nu_max_packet_size nb p > 0 \<and> nu_pending nb p u \<le> 1)"
  unfolding at_most_one_read_def by (metis pipe.exhaust pipe.distinct(1,6))

interpretation plain: careful nb "at_most_one_read nb" for nb
proof
  fix u :: 'a
  assume io: "at_most_one_read nb u"
  then have l: "lawful nb" by (simp add: at_most_one_read_def)
  then show "lawful nb" .
  note lw = l [unfolded lawful_def]
  fix p q :: pipe and n t r i bs
  have le: "nu_pending nb q u - k \<le> 1" if "q \<noteq> BulkOut" for q k
    using io that by (metis diff_le_self at_most_one_read_iff le_trans)
  show "p \<noteq> BulkOut \<Longrightarrow> nu_max_packet_size nb p > 0" "p \<noteq> BulkOut \<Longrightarrow> nu_pending nb p u \<le> 1"
    using io by (simp_all add: at_most_one_read_iff)
  show "at_most_one_read nb (nu_submit_in nb p n u)" if "p \<noteq> BulkOut" "nu_pending nb p u = 0"
    using io that lawful_submit(1) [OF l] by (simp add: at_most_one_read_iff)
  show "at_most_one_read nb (nu_submit_out nb bs u)"
    using io lawful_submit(2) [OF l] by (simp add: at_most_one_read_iff)
  show "at_most_one_read nb (snd (nu_next_complete nb p u))" "at_most_one_read nb (snd (nu_select nb p t u))"
    "at_most_one_read nb (snd (nu_wait_next_complete nb t u))"
    using io le lw by (simp_all add: at_most_one_read_iff)
  show "at_most_one_read nb (snd (nu_transfer_blocking nb bs t u))" "at_most_one_read nb (nu_cancel_all nb p u)"
    "at_most_one_read nb (nu_clear_halt nb p u)" "at_most_one_read nb (snd (nu_delay nb t u))" "at_most_one_read nb (snd (nu_now nb u))"
    using io lawful_other [OF l] by (simp_all add: at_most_one_read_iff)
  show "at_most_one_read nb (snd (nu_control_out nb r i bs t u))"
    using io lawful_other(4) [OF l] by (simp add: at_most_one_read_iff)
  show "at_most_one_read nb (snd (nu_control_in nb r i n t u))" for r i n
    using io lawful_other(5) [OF l] by (simp add: at_most_one_read_iff)
qed

section \<open>The calls in any order\<close>

text \<open>A call of the transport that returns or is dropped, with the states around it.\<close>

inductive transport_call :: "'u nusb \<Rightarrow> 'u \<Rightarrow> 'u \<Rightarrow> bool" for nb :: "'u nusb" where
  send: "nusb_send_bulk nb nt bs u = (r, u') \<Longrightarrow> transport_call nb u u'"
| stream: "nusb_send_bulk_streaming nb nt chunks u = Some (r, u') \<Longrightarrow> transport_call nb u u'"
| receive: "nusb_receive_bulk nb nt n u = (r', u') \<Longrightarrow> transport_call nb u u'"
| event: "nusb_receive_interrupt nb u = (r', u') \<Longrightarrow> transport_call nb u u'"
| cancel: "nusb_cancel_transfer nb nt transaction_id idle_timeout u = Some (r, u') \<Longrightarrow> transport_call nb u u'"
| drain: "nusb_drain_bulk_in nb idle_timeout max_duration u = Some (k, u') \<Longrightarrow> transport_call nb u u'"
| reset: "nusb_reset_device nb nt u = Some (r, u') \<Longrightarrow> transport_call nb u u'"

context careful
begin

lemma call_keeps: "transport_call nb u u' \<Longrightarrow> inv u \<Longrightarrow> inv u'"
proof (induction rule: transport_call.induct)
  case (send nt bs u r u')
  then show ?case using send_bulk_keeps by (metis snd_conv)
next
  case (stream nt chunks u r u')
  then show ?case using afterD [OF send_bulk_streaming_keeps] by fastforce
next
  case (receive nt n u r' u')
  then show ?case using receive_bulk_keeps by (metis snd_conv)
next
  case (event u r' u')
  then show ?case using receive_interrupt_keeps by (metis snd_conv)
next
  case (cancel nt tx idle u r u')
  then show ?case using afterD [OF cancel_transfer_keeps] by fastforce
next
  case (drain idle dur u k u')
  then show ?case using afterD [OF drain_bulk_in_keeps] by fastforce
next
  case (reset nt u r u')
  then show ?case using afterD [OF reset_device_keeps] by fastforce
qed

lemma calls_keep: "(transport_call nb)\<^sup>*\<^sup>* u u' \<Longrightarrow> inv u \<Longrightarrow> inv u'"
  by (induction rule: rtranclp_induct) (auto intro: call_keeps)

end

section \<open>A bus to try the transport on\<close>

text \<open>
  A device that still has some bulk packets to send, answers no control request but refuses it, and accepts every transfer
  of the host unless \<open>db_deaf\<close>.
\<close>

record demo_bus =
  db_pending :: "pipe \<Rightarrow> nat"
  db_packets :: "bytes list"
  db_sent :: "bytes list"
  db_deaf :: bool

definition demo_count :: "pipe \<Rightarrow> (nat \<Rightarrow> nat) \<Rightarrow> demo_bus \<Rightarrow> demo_bus" where
  "demo_count p f u = u\<lparr>db_pending := (db_pending u)(p := f (db_pending u p))\<rparr>"

definition demo_select :: "pipe \<Rightarrow> demo_bus \<Rightarrow> waited \<times> demo_bus" where
  "demo_select p u =
     (if p \<noteq> BulkIn then (Elapsed, u)
      else case db_packets u of
          [] \<Rightarrow> (Elapsed, u)
        | x # rest \<Rightarrow> (Completed \<lparr>co_status = None, co_buffer = x, co_actual_len = length x\<rparr>,
            demo_count BulkIn (\<lambda>n. n - 1) (u\<lparr>db_packets := rest\<rparr>)))"

definition demo_done :: completion where
  "demo_done = \<lparr>co_status = None, co_buffer = [], co_actual_len = 0\<rparr>"

definition demo_nusb :: "demo_bus nusb" where
  "demo_nusb = \<lparr>nu_macos = False, nu_error_text = (\<lambda>e. ''refused''),
     nu_address = (\<lambda>p. case p of BulkIn \<Rightarrow> 0x81 | BulkOut \<Rightarrow> 0x02 | InterruptIn \<Rightarrow> 0x83),
     nu_max_packet_size = (\<lambda>p. 512), nu_pending = (\<lambda>p u. db_pending u p), nu_allocate = (\<lambda>n u. n),
     nu_submit_in = (\<lambda>p n u. demo_count p (\<lambda>n. n + 1) u),
     nu_submit_out = (\<lambda>bs u. demo_count BulkOut (\<lambda>n. n + 1) (u\<lparr>db_sent := db_sent u @ [bs]\<rparr>)),
     nu_next_complete = (\<lambda>p u. (Some demo_done, demo_count p (\<lambda>n. n - 1) u)),
     nu_select = (\<lambda>p t. demo_select p),
     nu_wait_next_complete = (\<lambda>t u. if db_deaf u then (None, u\<lparr>db_deaf := False\<rparr>) else (Some demo_done, demo_count BulkOut (\<lambda>n. n - 1) u)),
     nu_transfer_blocking = (\<lambda>bs t u. (demo_done, u\<lparr>db_sent := db_sent u @ [bs]\<rparr>)),
     nu_cancel_all = (\<lambda>p u. u), nu_clear_halt = (\<lambda>p u. u),
     nu_control_out = (\<lambda>r i bs t u. (Err Stall, u)), nu_control_in = (\<lambda>r i n t u. (Err Stall, u)),
     nu_delay = (\<lambda>t u. (Ok (), u)), nu_now = (\<lambda>u. (0, u))\<rparr>"

definition demo_start :: "bytes list \<Rightarrow> bool \<Rightarrow> demo_bus" where
  "demo_start packets deaf = \<lparr>db_pending = (\<lambda>p. 0), db_packets = packets, db_sent = [], db_deaf = deaf\<rparr>"

definition demo_transport :: NusbTransport where
  "demo_transport = \<lparr>nt_interface_number = 0, nt_timeout = DEFAULT_TIMEOUT, nt_drain_on_cancel = False\<rparr>"

lemma demo_lawful: "lawful demo_nusb"
  by (simp add: lawful_def demo_nusb_def demo_count_def demo_select_def split: list.split)

lemma demo_silent: "falls_silent demo_nusb (\<lambda>u. length (db_packets u))"
  by (auto simp: falls_silent_def demo_nusb_def demo_count_def demo_select_def split: list.splits if_splits)

lemma demo_size: "nu_max_packet_size demo_nusb p = 512"
  by (simp add: demo_nusb_def)

text \<open>A read that is given up on stays in flight, and the next read waits for it.\<close>

lemma given_up_read_picked_up:
  assumes "at_most_one_read nb u" "\<not> is_completed w"
    and "nu_select nb BulkIn (nt_timeout nt) (submit_if_idle nb BulkIn (align_to_packet_size n (nu_max_packet_size nb BulkIn)) u) = (w, u1)"
  shows "nusb_receive_bulk nb nt n u = (if w = Elapsed then Err PtpError.Timeout else Dropped, u1)" "nu_pending nb BulkIn u1 = 1"
    and "nu_select nb BulkIn (nt_timeout nt') u1 = (Completed c, u2) \<Longrightarrow> co_status c = None \<Longrightarrow>
      nusb_receive_bulk nb nt' n' u1 = (completed_bytes c, u2)"
proof -
  have l: "lawful nb" and le: "nu_pending nb BulkIn u \<le> 1" using assms(1) by (simp_all add: at_most_one_read_def)
  show "nusb_receive_bulk nb nt n u = (if w = Elapsed then Err PtpError.Timeout else Dropped, u1)"
    using assms(2,3) by (cases w) (simp_all add: nusb_receive_bulk_def Let_def)
  show one: "nu_pending nb BulkIn u1 = 1"
    using lawful_select [OF l assms(3), of BulkIn] assms(2) le lawful_submit(1) [OF l, of BulkIn BulkIn _ u]
    by (auto simp: submit_if_idle_def split: if_splits)
  show "nusb_receive_bulk nb nt' n' u1 = (completed_bytes c, u2)"
    if "nu_select nb BulkIn (nt_timeout nt') u1 = (Completed c, u2)" "co_status c = None"
    using that one by (simp add: nusb_receive_bulk_def submit_if_idle_def Let_def)
qed

text \<open>
  C18: The transport keeps to the rules of the USB library in every sequence of its calls, whichever of them fail, time out or are
  dropped half-way: a read is submitted only to an idle IN endpoint and with a positive multiple of its packet size, a
  completion is awaited only where a transfer is in flight, and the halt of an IN endpoint is cleared only when it is idle (of the
  OUT endpoint's halt nothing is claimed).
  So no IN endpoint ever has more than one transfer in flight. And wherever these calls lead, a bulk read that times out there, or whose caller drops it, stays in
  flight, and the bulk read after it, whatever size it asks for, returns the bytes that the endpoint completes next.
\<close>

theorem library_rules_kept:
  assumes "at_most_one_read nb u" "(transport_call (watched nb))\<^sup>*\<^sup>* (u, True) (u', ok)"
  shows "ok \<and> at_most_one_read nb u' \<and>
    (\<forall>nt n w u1. nu_select nb BulkIn (nt_timeout nt) (submit_if_idle nb BulkIn (align_to_packet_size n (nu_max_packet_size nb BulkIn)) u') = (w, u1)
        \<and> \<not> is_completed w \<longrightarrow>
      nusb_receive_bulk nb nt n u' = (if w = Elapsed then Err PtpError.Timeout else Dropped, u1) \<and> nu_pending nb BulkIn u1 = 1 \<and>
      (\<forall>nt' n' c u2. nu_select nb BulkIn (nt_timeout nt') u1 = (Completed c, u2) \<and> co_status c = None \<longrightarrow>
        nusb_receive_bulk nb nt' n' u1 = (completed_bytes c, u2)))"
proof -
  have "in_order nb (u, True)" using assms(1) by (simp add: at_most_one_read_iff in_order_def)
  with assms(2) have "in_order nb (u', ok)" by (rule orderly.calls_keep)
  then have "ok \<and> at_most_one_read nb u'" by (simp add: at_most_one_read_iff in_order_def)
  with given_up_read_picked_up [of nb u'] show ?thesis by blast
qed

lemma demo_at_rest: "at_most_one_read demo_nusb (demo_start packets deaf)"
  using demo_lawful by (simp add: at_most_one_read_def demo_size) (simp add: demo_nusb_def demo_start_def)

text \<open>A read that times out, and the one after it when the device has answered.\<close>

theorem library_rules_kept_witness:
  "\<exists>u1. snd (snd (nusb_receive_bulk (watched demo_nusb) demo_transport 512 (demo_start [] False, True))) \<and>
     nusb_receive_bulk demo_nusb demo_transport 512 (demo_start [] False) = (Err PtpError.Timeout, u1) \<and> nu_pending demo_nusb BulkIn u1 = 1"
proof -
  define s where "s = snd (nusb_receive_bulk (watched demo_nusb) demo_transport 512 (demo_start [] False, True))"
  have "transport_call (watched demo_nusb) (demo_start [] False, True) s"
    by (rule transport_call.receive [of _ demo_transport 512]) (simp add: s_def prod_eq_iff)
  then have "(transport_call (watched demo_nusb))\<^sup>*\<^sup>* (demo_start [] False, True) (fst s, snd s)" by simp
  from library_rules_kept [OF demo_at_rest this] have "snd s" by blast
  moreover have "nu_select demo_nusb BulkIn (nt_timeout demo_transport)
      (submit_if_idle demo_nusb BulkIn (align_to_packet_size 512 (nu_max_packet_size demo_nusb BulkIn)) (demo_start [] False)) =
      (Elapsed, demo_count BulkIn (\<lambda>n. n + 1) (demo_start [] False))"
    by (simp add: submit_if_idle_def demo_nusb_def demo_start_def demo_select_def demo_count_def)
  with library_rules_kept [OF demo_at_rest rtranclp.rtrancl_refl, of "[]" False] have
    "nusb_receive_bulk demo_nusb demo_transport 512 (demo_start [] False) = (Err PtpError.Timeout, demo_count BulkIn (\<lambda>n. n + 1) (demo_start [] False)) \<and>
      nu_pending demo_nusb BulkIn (demo_count BulkIn (\<lambda>n. n + 1) (demo_start [] False)) = 1"
    by fastforce
  ultimately show ?thesis unfolding s_def by blast
qed

text \<open>
  C20: A cancellation always ends: if the device falls silent at some point, \<open>cancel_transfer\<close> returns after finitely many reads,
  whatever the control requests answer; and when it reports success, nothing is left in flight on either IN endpoint, so
  the next operation reads only what it asked for.
\<close>

theorem cancel_ends_idle:
  assumes "at_most_one_read nb u" "falls_silent nb left"
  shows "\<exists>r u'. nusb_cancel_transfer nb nt transaction_id idle_timeout u = Some (r, u') \<and>
    (r = Ok () \<longrightarrow> nu_pending nb BulkIn u' = 0 \<and> nu_pending nb InterruptIn u' = 0)"
  using plain.cancel_transfer_ends [OF assms(2,1), of nt transaction_id idle_timeout] by (simp add: ends_def)

text \<open>Two packets on the way when the host cancels, and a device that refuses the cancellation request.\<close>

theorem cancel_ends_idle_witness:
  "\<exists>r u'. nusb_cancel_transfer demo_nusb demo_transport 7 300 (demo_start [[1, 2], [3]] False) = Some (r, u') \<and>
    (r = Ok () \<longrightarrow> nu_pending demo_nusb BulkIn u' = 0 \<and> nu_pending demo_nusb InterruptIn u' = 0)"
  by (rule cancel_ends_idle [OF demo_at_rest demo_silent])

section \<open>Streaming uploads\<close>

text \<open>
  A bus that accepts every OUT transfer, with a log of the transfers submitted; an allocated buffer has the size asked for.
\<close>

definition accepts_all :: "'u nusb \<Rightarrow> ('u \<Rightarrow> bytes list) \<Rightarrow> bool" where
  "accepts_all nb log \<longleftrightarrow>
     (\<forall>bs t u. \<exists>c u'. nu_wait_next_complete nb t (nu_submit_out nb bs u) = (Some c, u') \<and> co_status c = None \<and>
        log u' = log u @ [bs]) \<and>
     (\<forall>n u. nu_allocate nb n u = n)"

lemma accepted:
  assumes "accepts_all nb log"
  shows "\<exists>u'. submit_and_wait nb nt bs u = (Ok (), u') \<and> log u' = log u @ [bs]"
proof -
  obtain c u' where "nu_wait_next_complete nb (nt_timeout nt) (nu_submit_out nb bs u) = (Some c, u')" "co_status c = None"
    "log u' = log u @ [bs]"
    using assms unfolding accepts_all_def by blast
  then show ?thesis by (simp add: submit_and_wait_def)
qed

lemma push_chunk_fills:
  assumes "accepts_all nb log" "n > 0"
  shows "length cur < n \<Longrightarrow> \<exists>sent cur' u'. push_chunk nb nt n remaining (cur, n, k) u = Some (Ok (cur', n, k + length sent * n), u') \<and>
    log u' = log u @ sent \<and> concat sent @ cur' = cur @ remaining \<and> length cur' < n \<and> (\<forall>b\<in>set sent. length b = n)"
proof (induction "length remaining" arbitrary: remaining cur k u rule: less_induct)
  case less
  show ?case
  proof (cases "remaining = []")
    case True
    with less.prems show ?thesis by (subst push_chunk.simps) (auto intro!: exI [of _ "[]"])
  next
    case ne: False
    let ?m = "min (length remaining) (n - length cur)"
    have shorter: "length (drop ?m remaining) < length remaining" using ne less.prems by simp
    show ?thesis
    proof (cases "length remaining < n - length cur")
      case True
      have "push_chunk nb nt n remaining (cur, n, k) u = push_chunk nb nt n [] (cur @ remaining, n, k) u"
        using ne True by (subst push_chunk.simps) (auto simp: Let_def)
      also have "\<dots> = Some (Ok (cur @ remaining, n, k), u)" by (subst push_chunk.simps) simp
      finally show ?thesis using True less.prems by (auto intro!: exI [of _ "[]"])
    next
      case False
      then have m: "?m = n - length cur" by simp
      let ?b = "cur @ take (n - length cur) remaining"
      have len: "length ?b = n" using False less.prems by simp
      obtain u1 where u1: "submit_and_wait nb nt ?b u = (Ok (), u1)" "log u1 = log u @ [?b]"
        using accepted [OF assms(1)] by blast
      have al: "nu_allocate nb n u1 = n" using assms(1) by (simp add: accepts_all_def)
      have "push_chunk nb nt n remaining (cur, n, k) u = push_chunk nb nt n (drop (n - length cur) remaining) ([], n, k + n) u1"
        using ne m u1(1) len al by (subst push_chunk.simps) (simp add: Let_def del: append_take_drop_id)
      moreover obtain sent cur' u' where
        "push_chunk nb nt n (drop (n - length cur) remaining) ([], n, k + n) u1 = Some (Ok (cur', n, k + n + length sent * n), u')"
        "log u' = log u1 @ sent" "concat sent @ cur' = drop (n - length cur) remaining" "length cur' < n" "\<forall>b\<in>set sent. length b = n"
        using less.hyps [OF shorter [unfolded m], of "[]" "k + n" u1] assms(2) by (metis append_Nil list.size(3))
      ultimately show ?thesis using u1(2) len
        by (intro exI [of _ "?b # sent"] exI [of _ cur'] exI [of _ u']) (auto simp: algebra_simps)
    qed
  qed
qed

lemma push_chunks_fill:
  assumes "accepts_all nb log" "n > 0"
  shows "length cur < n \<Longrightarrow> \<exists>sent cur' u'. push_chunks nb nt n (map Ok chunks) (cur, n, k) u = Some (Ok (cur', n, k + length sent * n), u') \<and>
    log u' = log u @ sent \<and> concat sent @ cur' = cur @ concat chunks \<and> length cur' < n \<and> (\<forall>b\<in>set sent. length b = n)"
proof (induction chunks arbitrary: cur k u)
  case Nil
  then show ?case by (auto intro!: exI [of _ "[]"])
next
  case (Cons c chunks)
  obtain s1 c1 u1 where one: "push_chunk nb nt n c (cur, n, k) u = Some (Ok (c1, n, k + length s1 * n), u1)" "log u1 = log u @ s1"
    "concat s1 @ c1 = cur @ c" "length c1 < n" "\<forall>b\<in>set s1. length b = n"
    using push_chunk_fills [OF assms Cons.prems] by blast
  obtain s2 c2 u2 where two: "push_chunks nb nt n (map Ok chunks) (c1, n, k + length s1 * n) u1 =
      Some (Ok (c2, n, k + length s1 * n + length s2 * n), u2)" "log u2 = log u1 @ s2"
    "concat s2 @ c2 = c1 @ concat chunks" "length c2 < n" "\<forall>b\<in>set s2. length b = n"
    using Cons.IH [OF one(4)] by blast
  have "concat (s1 @ s2) @ c2 = cur @ concat (c # chunks)"
    using one(3) two(3) by (metis append.assoc concat.simps(2) concat_append)
  with one two show ?case
    by (intro exI [of _ "s1 @ s2"] exI [of _ c2] exI [of _ u2]) (auto simp: then_opt_def algebra_simps)
qed

text \<open>The packets that end an upload of data that many bytes long.\<close>

definition terminator :: "usize \<Rightarrow> usize \<Rightarrow> bytes list" where
  "terminator packet_size n = (if n > 0 \<and> packet_size dvd n then [[]] else [])"

lemma send_rest_ends:
  assumes "accepts_all nb log" "packet_size dvd n" "sent_bytes = k * n"
  shows "\<exists>u'. send_rest nb nt packet_size (cur, cap, sent_bytes) u = (Ok (), u') \<and>
    log u' = log u @ (if cur = [] then [] else [cur]) @ terminator packet_size (sent_bytes + length cur)"
proof (cases "cur = []")
  case True
  show ?thesis
    using accepted [OF assms(1), of nt "[]" u] True by (auto simp: send_rest_def terminator_def mod_eq_0_iff_dvd)
next
  case False
  obtain u1 where u1: "submit_and_wait nb nt cur u = (Ok (), u1)" "log u1 = log u @ [cur]" using accepted [OF assms(1)] by blast
  have "packet_size dvd sent_bytes + length cur \<longleftrightarrow> packet_size dvd length cur"
    using assms(2,3) by (simp add: dvd_add_right_iff)
  then show ?thesis
    using accepted [OF assms(1), of nt "[]" u1] u1 False by (auto simp: send_rest_def terminator_def mod_eq_0_iff_dvd)
qed

lemma transfer_size_ok:
  assumes "packet_size > 0"
  obtains n where "streaming_transfer_size packet_size = Ok n" "n > 0" "packet_size dvd n" "n \<ge> 262144"
proof -
  let ?q = "(262144 + packet_size - 1) div packet_size"
  have "262144 \<le> ?q * packet_size"
    using assms div_mult_mod_eq [of "262144 + packet_size - 1" packet_size] mod_less_divisor [OF assms, of "262144 + packet_size - 1"]
    by linarith
  also have "\<dots> \<le> max ?q 1 * packet_size" by (simp add: max.coboundedI1)
  finally show thesis using assms by (intro that [of "max ?q 1 * packet_size"]) (simp_all add: streaming_transfer_size_def)
qed

text \<open>
  C19: A streamed upload is one transfer on the wire. Over a bus that accepts every OUT transfer, a stream of chunks that does not
  fail, cut anywhere, is sent as the concatenation of the chunks in buffers that are all full, at least 256 KiB and whole packets
  long, except the last; and a zero-length packet follows exactly when the total length is a positive multiple of the packet
  size, where the device could not see the end of the data otherwise.
\<close>

theorem streamed_upload_on_the_wire:
  assumes "accepts_all nb log" "nu_max_packet_size nb BulkOut > 0"
  shows "\<exists>n full rest u'. nusb_send_bulk_streaming nb nt (map Ok chunks) u = Some (Ok (), u') \<and>
    log u' = log u @ full @ (if rest = [] then [] else [rest]) @ terminator (nu_max_packet_size nb BulkOut) (length (concat chunks)) \<and>
    concat full @ rest = concat chunks \<and> (\<forall>b\<in>set full. length b = n) \<and> length rest < n \<and>
    n \<ge> 262144 \<and> nu_max_packet_size nb BulkOut dvd n"
proof -
  let ?p = "nu_max_packet_size nb BulkOut"
  obtain n where n: "streaming_transfer_size ?p = Ok n" "n > 0" "?p dvd n" "n \<ge> 262144"
    using transfer_size_ok [OF assms(2)] by blast
  have al: "nu_allocate nb n u = n" using assms(1) by (simp add: accepts_all_def)
  obtain full rest u1 where run: "push_chunks nb nt n (map Ok chunks) ([], n, 0) u = Some (Ok (rest, n, length full * n), u1)"
    "log u1 = log u @ full" "concat full @ rest = concat chunks" "length rest < n" "\<forall>b\<in>set full. length b = n"
    using push_chunks_fill [OF assms(1) n(2), of "[]" nt chunks 0 u] n(2) by auto
  have "length (concat full) = length full * n"
    using run(5) by (induction full) simp_all
  then have total: "length full * n + length rest = length (concat chunks)"
    using arg_cong [OF run(3), of length] by simp
  obtain u' where "send_rest nb nt ?p (rest, n, length full * n) u1 = (Ok (), u')"
    "log u' = log u1 @ (if rest = [] then [] else [rest]) @ terminator ?p (length (concat chunks))"
    using send_rest_ends [OF assms(1) n(3) refl, where k = "length full" and nt = nt and cur = rest and cap = n and u = u1] total by auto
  with n al run show ?thesis
    by (intro exI [of _ n] exI [of _ full] exI [of _ rest] exI [of _ u'])
      (simp add: nusb_send_bulk_streaming_def then_opt_def)
qed

text \<open>The demonstration bus after it has accepted everything.\<close>

definition patient_nusb :: "demo_bus nusb" where
  "patient_nusb = demo_nusb\<lparr>nu_wait_next_complete := (\<lambda>t u. (Some demo_done, demo_count BulkOut (\<lambda>n. n - 1) u))\<rparr>"

lemma patient_accepts: "accepts_all patient_nusb db_sent"
  by (simp add: accepts_all_def patient_nusb_def demo_nusb_def demo_count_def demo_done_def)

theorem streamed_upload_on_the_wire_witness:
  "\<exists>n full rest u'. nusb_send_bulk_streaming patient_nusb demo_transport (map Ok [replicate 500 1, replicate 12 2]) (demo_start [] False) =
      Some (Ok (), u') \<and>
    db_sent u' = db_sent (demo_start [] False) @ full @ (if rest = [] then [] else [rest]) @
      terminator (nu_max_packet_size patient_nusb BulkOut) (length (concat [replicate 500 1, replicate 12 (2 :: u8)])) \<and>
    concat full @ rest = concat [replicate 500 1, replicate 12 2] \<and> (\<forall>b\<in>set full. length b = n) \<and> length rest < n \<and>
    n \<ge> 262144 \<and> nu_max_packet_size patient_nusb BulkOut dvd n"
  by (rule streamed_upload_on_the_wire [OF patient_accepts]) (simp add: patient_nusb_def demo_nusb_def)

section \<open>Transfers that time out on the OUT endpoint\<close>

lemma submit_ok_balance:
  assumes "lawful nb" "submit_and_wait nb nt bs u = (Ok (), u')"
  shows "nu_pending nb p u' = nu_pending nb p u"
  using assms lawful_submit(2) [OF assms(1)]
  by (auto simp: submit_and_wait_def split: prod.splits option.splits dest!: lawful_wait [OF assms(1), where q = p])

lemma push_chunk_balance:
  assumes "lawful nb" "push_chunk nb nt n remaining st u = Some (Ok st', u')"
  shows "nu_pending nb p u' = nu_pending nb p u"
proof -
  have "nb = nb \<longrightarrow> fst (Ok st' :: filling res, u') = Ok st' \<longrightarrow> nu_pending nb p (snd (Ok st' :: filling res, u')) = nu_pending nb p u"
  proof (rule push_chunk.raw_induct [where P = "\<lambda>nb' nt n remaining st u y. nb' = nb \<longrightarrow> fst y = Ok st' \<longrightarrow> nu_pending nb p (snd y) = nu_pending nb p u",
        OF _ assms(2)], intro impI, goal_cases)
    case (1 loop nb' nt n remaining st u y)
    note IH = 1(1) [rule_format, OF _ 1(3,4)]
    obtain cur cap sent where st: "st = (cur, cap, sent)" by (cases st)
    show ?case
      using 1(2-4) IH submit_ok_balance [OF assms(1)]
      by (cases y) (fastforce simp: st Let_def seq_opt_Ok split: if_splits)
  qed
  then show ?thesis by simp
qed

lemma push_chunks_balance:
  "lawful nb \<Longrightarrow> push_chunks nb nt n chunks st u = Some (Ok st', u') \<Longrightarrow> nu_pending nb p u' = nu_pending nb p u"
proof (induction chunks arbitrary: st u)
  case (Cons c chunks)
  show ?case
  proof (cases c)
    case (Ok chunk)
    with Cons.prems obtain st1 u1 where
      "push_chunk nb nt n chunk st u = Some (Ok st1, u1)" "push_chunks nb nt n chunks st1 u1 = Some (Ok st', u')"
      by (auto simp: then_opt_def bind_eq_Some_conv seq_opt_Ok)
    with Cons.IH Cons.prems(1) push_chunk_balance show ?thesis by metis
  next
    case (Err e)
    with Cons.prems show ?thesis by (cases e) simp
  qed (use Cons.prems in simp_all)
qed simp

lemma send_rest_balance:
  assumes "lawful nb" "send_rest nb nt packet_size st u = (Ok (), u')"
  shows "nu_pending nb p u' = nu_pending nb p u"
proof -
  obtain cur cap sent where st: "st = (cur, cap, sent)" by (cases st)
  show ?thesis
    using assms(2) submit_ok_balance [OF assms(1), of nt _ _ _ p]
    by (auto simp: st send_rest_def seq_ok_Ok split: if_splits)
qed

lemma streaming_balance:
  assumes "lawful nb" "nusb_send_bulk_streaming nb nt chunks u = Some (Ok (), u')"
  shows "nu_pending nb p u' = nu_pending nb p u"
proof -
  from assms(2) obtain n st u1 where
    "push_chunks nb nt n chunks ([], nu_allocate nb n u, 0) u = Some (Ok st, u1)"
    "send_rest nb nt (nu_max_packet_size nb BulkOut) st u1 = (Ok (), u')"
    by (auto simp: nusb_send_bulk_streaming_def then_opt_def bind_eq_Some_conv seq_opt_Ok Let_def)
  with push_chunks_balance [OF assms(1)] send_rest_balance [OF assms(1)] show ?thesis by metis
qed

text \<open>Whatever its outcome, a streamed upload takes no transfer back that was in flight before.\<close>

lemma submit_holds:
  assumes "lawful nb"
  shows "nu_pending nb p u \<le> nu_pending nb p (snd (submit_and_wait nb nt bs u))"
proof -
  obtain c u1 where w: "nu_wait_next_complete nb (nt_timeout nt) (nu_submit_out nb bs u) = (c, u1)" by fastforce
  have "nu_pending nb p u \<le> nu_pending nb p u1"
    using lawful_wait [OF assms w, of p] lawful_submit(2) [OF assms, of p bs u] by (simp split: if_splits)
  then show ?thesis
    using lawful_other(3) [OF assms]
    by (auto simp: submit_and_wait_def w clear_halt_if_stalled_def split: option.split)
qed

lemma push_chunk_holds:
  assumes "lawful nb" "push_chunk nb nt n remaining st u = Some (r, u')"
  shows "nu_pending nb p u \<le> nu_pending nb p u'"
proof -
  have "nb = nb \<longrightarrow> nu_pending nb p u \<le> nu_pending nb p (snd (r, u'))"
  proof (rule push_chunk.raw_induct [where P = "\<lambda>nb' nt n remaining st u y. nb' = nb \<longrightarrow> nu_pending nb p u \<le> nu_pending nb p (snd y)",
        OF _ assms(2)], intro impI, goal_cases)
    case (1 loop nb' nt n remaining st u y)
    note IH = 1(1) [rule_format, OF _ 1(3)]
    obtain cur cap sent where st: "st = (cur, cap, sent)" by (cases st)
    obtain r1 u1 where y: "y = (r1, u1)" by (cases y)
    have kept: "nu_pending nb p u \<le> nu_pending nb p u1"
      if "seq_opt m k = Some (r1, u1)" "nu_pending nb p u \<le> nu_pending nb p (snd m)"
        "\<And>x s. k x s = Some (r1, u1) \<Longrightarrow> nu_pending nb p u \<le> nu_pending nb p s \<Longrightarrow> nu_pending nb p u \<le> nu_pending nb p u1"
      for m :: "unit res \<times> 'a" and k
      using seq_opt_kept [of m k "(r1, u1)" "\<lambda>s. nu_pending nb p u \<le> nu_pending nb p s"] that by simp
    show ?case
      using 1(2,3) IH submit_holds [OF assms(1), of p u nt]
      by (auto simp: st y Let_def split: if_splits elim!: kept intro: le_trans)
  qed
  then show ?thesis by simp
qed

lemma push_chunks_holds:
  "lawful nb \<Longrightarrow> push_chunks nb nt n chunks st u = Some (r, u') \<Longrightarrow> nu_pending nb p u \<le> nu_pending nb p u'"
proof (induction chunks arbitrary: st u)
  case (Cons c chunks)
  show ?case
  proof (cases c)
    case (Ok chunk)
    with Cons.prems obtain q u1 where q: "push_chunk nb nt n chunk st u = Some (q, u1)"
      "seq_opt (q, u1) (\<lambda>st u. push_chunks nb nt n chunks st u) = Some (r, u')"
      by (auto simp: then_opt_def bind_eq_Some_conv)
    from push_chunk_holds [OF Cons.prems(1) q(1)] have "nu_pending nb p u \<le> nu_pending nb p u1" .
    with q(2) Cons.IH [OF Cons.prems(1)] show ?thesis by (cases q) (auto intro: le_trans)
  next
    case (Err e)
    with Cons.prems show ?thesis by (cases e) simp
  qed (use Cons.prems in simp_all)
qed simp

lemma send_rest_holds:
  assumes "lawful nb"
  shows "nu_pending nb p u \<le> nu_pending nb p (snd (send_rest nb nt packet_size st u))"
proof -
  obtain cur cap sent where st: "st = (cur, cap, sent)" by (cases st)
  have "nu_pending nb p u \<le> nu_pending nb p (snd (seq_ok (submit_and_wait nb nt cur u)
      (\<lambda>_ u. if length cur mod packet_size = 0 then submit_and_wait nb nt [] u else (Ok (), u))))"
    using submit_holds [OF assms, of p u nt cur] submit_holds [OF assms, of p _ nt "[]"]
    by (cases "submit_and_wait nb nt cur u"; cases "fst (submit_and_wait nb nt cur u)") (auto intro: le_trans)
  with submit_holds [OF assms] show ?thesis by (simp add: st send_rest_def)
qed

lemma streaming_holds:
  assumes "lawful nb" "nusb_send_bulk_streaming nb nt chunks u = Some (r, u')"
  shows "nu_pending nb p u \<le> nu_pending nb p u'"
proof (cases "streaming_transfer_size (nu_max_packet_size nb BulkOut)")
  case (Ok n)
  with assms(2) obtain q u1 where q: "push_chunks nb nt n chunks ([], nu_allocate nb n u, 0) u = Some (q, u1)"
    "seq_opt (q, u1) (\<lambda>st u. Some (send_rest nb nt (nu_max_packet_size nb BulkOut) st u)) = Some (r, u')"
    by (auto simp: nusb_send_bulk_streaming_def then_opt_def bind_eq_Some_conv Let_def)
  from push_chunks_holds [OF assms(1) q(1)] have "nu_pending nb p u \<le> nu_pending nb p u1" .
  moreover have "nu_pending nb p u1 \<le> nu_pending nb p u'"
    using q(2) send_rest_holds [OF assms(1), of p u1 nt "nu_max_packet_size nb BulkOut"] by (cases q) (auto, metis snd_conv)
  ultimately show ?thesis by simp
qed (use assms(2) in \<open>simp_all add: nusb_send_bulk_streaming_def Let_def\<close>)

text \<open>Chunks that do not fill the buffer are gathered in it.\<close>

lemma push_chunk_short:
  assumes "length cur + length chunk < cap"
  shows "push_chunk nb nt n chunk (cur, cap, sent) u = Some (Ok (cur @ chunk, cap, sent), u)"
proof (cases "chunk = []")
  case False
  have "min (length chunk) (cap - length cur) = length chunk" using assms by simp
  then have "push_chunk nb nt n chunk (cur, cap, sent) u = push_chunk nb nt n [] (cur @ chunk, cap, sent) u"
    using False assms by (subst push_chunk.simps) (simp add: Let_def)
  then show ?thesis by (subst (asm) (2) push_chunk.simps) simp
qed (subst push_chunk.simps, simp)

lemma push_chunks_short:
  "length cur + length (concat cs) < cap \<Longrightarrow>
     push_chunks nb nt n (map Ok cs) (cur, cap, sent) u = Some (Ok (cur @ concat cs, cap, sent), u)"
  by (induction cs arbitrary: cur) (simp_all add: push_chunk_short then_opt_def)

text \<open>
  C21: An OUT transfer that times out is never taken back. A streamed upload of some data that fit one transfer buffer, whose
  transfer is not confirmed in time, reports \<open>Timeout\<close> and leaves the transfer in flight; and no later streamed upload takes it back, whatever its
  outcome: one that reports success leaves exactly as many transfers in flight as it found, one more than before the timeout.
\<close>

theorem timed_out_transfer_stays:
  assumes "lawful nb" "streaming_transfer_size (nu_max_packet_size nb BulkOut) = Ok n"
    and "concat cs \<noteq> []" "length (concat cs) < nu_allocate nb n u"
    and "nu_wait_next_complete nb (nt_timeout nt) (nu_submit_out nb (concat cs) u) = (None, u1)"
  shows "nusb_send_bulk_streaming nb nt (map Ok cs) u = Some (Err PtpError.Timeout, u1) \<and>
    nu_pending nb BulkOut u1 = nu_pending nb BulkOut u + 1 \<and>
    (\<forall>chunks r u2. nusb_send_bulk_streaming nb nt chunks u1 = Some (r, u2) \<longrightarrow>
       nu_pending nb BulkOut u2 \<ge> nu_pending nb BulkOut u + 1 \<and>
       (r = Ok () \<longrightarrow> nu_pending nb BulkOut u2 = nu_pending nb BulkOut u + 1))"
proof -
  have p: "nu_pending nb BulkOut u1 = nu_pending nb BulkOut u + 1"
    using lawful_wait [OF assms(1,5), of BulkOut] lawful_submit(2) [OF assms(1), of BulkOut _ u] by simp
  have "push_chunks nb nt n (map Ok cs) ([], nu_allocate nb n u, 0) u = Some (Ok (concat cs, nu_allocate nb n u, 0), u)"
    using push_chunks_short [of "[]" cs] assms(4) by simp
  then have "nusb_send_bulk_streaming nb nt (map Ok cs) u = Some (Err PtpError.Timeout, u1)"
    using assms(2,3,5) by (simp add: nusb_send_bulk_streaming_def then_opt_def send_rest_def submit_and_wait_def Let_def)
  with p streaming_holds [OF assms(1), of nt _ u1 _ _ BulkOut] streaming_balance [OF assms(1), of nt _ u1 _ BulkOut]
  show ?thesis by fastforce
qed

theorem timed_out_transfer_stays_witness:
  "\<exists>u1. nusb_send_bulk_streaming demo_nusb demo_transport [Ok [1], Ok [2, 3]] (demo_start [] True) = Some (Err PtpError.Timeout, u1) \<and>
    nu_pending demo_nusb BulkOut u1 = nu_pending demo_nusb BulkOut (demo_start [] True) + 1"
proof -
  let ?u1 = "(nu_submit_out demo_nusb [1, 2, 3] (demo_start [] True))\<lparr>db_deaf := False\<rparr>"
  have "nu_wait_next_complete demo_nusb (nt_timeout demo_transport) (nu_submit_out demo_nusb (concat [[1], [2, 3]]) (demo_start [] True)) = (None, ?u1)"
    by (simp add: demo_nusb_def demo_count_def demo_start_def)
  moreover have "streaming_transfer_size (nu_max_packet_size demo_nusb BulkOut) = Ok 262144"
    by (simp add: streaming_transfer_size_def demo_nusb_def)
  moreover have "length (concat [[1], [2, 3 :: u8]]) < nu_allocate demo_nusb 262144 (demo_start [] True)" by (simp add: demo_nusb_def)
  ultimately show ?thesis
    using timed_out_transfer_stays [OF demo_lawful, of 262144 "[[1], [2, 3]]" "demo_start [] True" demo_transport ?u1] by auto
qed

end
