(* ===== verification/Cli_Paths.thy ===== *)
theory Cli_Paths
  imports Mtp_Device
begin

text \<open>
  The command line tool, first part (\<open>crates/mtp-rs-cli/src/cli\<close>): its errors and exit codes, remote paths and how they are resolved
  against a device, and the choice of device and storage. Messages keep their text but not the names put into them, which
  nothing depends on.
\<close>

section \<open>Errors\<close>

datatype CliErrorKind = Other | NoDevice | AmbiguousSelection | AccessDenied | RemotePath | Transfer | Verify

fun exit_code :: "CliErrorKind \<Rightarrow> u8" where
  "exit_code CliErrorKind.Other = 1"
| "exit_code CliErrorKind.NoDevice = 2"
| "exit_code CliErrorKind.AmbiguousSelection = 3"
| "exit_code CliErrorKind.AccessDenied = 4"
| "exit_code CliErrorKind.RemotePath = 5"
| "exit_code CliErrorKind.Transfer = 6"
| "exit_code CliErrorKind.Verify = 7"

record CliError =
  ce_kind :: CliErrorKind
  ce_message :: string
  ce_detail :: "MtpError option"
  ce_help :: "string option"

type_synonym 'a cli = "('a, CliError) outcome"

definition CliError_new :: "CliErrorKind \<Rightarrow> string \<Rightarrow> CliError" where
  "CliError_new kind message = \<lparr>ce_kind = kind, ce_message = message, ce_detail = None, ce_help = None\<rparr>"

definition with_detail :: "MtpError \<Rightarrow> CliError \<Rightarrow> CliError" where
  "with_detail detail e = e\<lparr>ce_detail := Some detail\<rparr>"

definition with_help :: "string \<Rightarrow> CliError \<Rightarrow> CliError" where
  "with_help help e = e\<lparr>ce_help := Some help\<rparr>"

fun string_contains :: "string \<Rightarrow> string \<Rightarrow> bool" where
  "string_contains [] pat \<longleftrightarrow> pat = []"
| "string_contains (c # s) pat \<longleftrightarrow> prefix pat (c # s) \<or> string_contains s pat"

fun is_macos_usb_user_client_denied :: "bool \<Rightarrow> MtpError \<Rightarrow> bool" where
  "is_macos_usb_user_client_denied macos (MtpError.Io message) \<longleftrightarrow>
     macos \<and> string_contains message ''failed to create IOKit PlugInInterface''"
| "is_macos_usb_user_client_denied macos e \<longleftrightarrow> False"

fun error_message :: "MtpError \<Rightarrow> CliErrorKind \<times> string" where
  "error_message MtpError.NoDevice = (CliErrorKind.NoDevice, ''no MTP device found'')"
| "error_message MtpError.Timeout = (CliErrorKind.Transfer, ''{context}: timed out'')"
| "error_message MtpError.Busy = (CliErrorKind.Transfer, ''{context}: device busy, try again'')"
| "error_message MtpError.Disconnected = (CliErrorKind.Transfer, ''{context}: device disconnected'')"
| "error_message MtpError.StaleHandle = (CliErrorKind.RemotePath, ''{context}: remote path not found'')"
| "error_message MtpError.NotFound = (CliErrorKind.RemotePath, ''{context}: remote path not found'')"
| "error_message (MtpError.NameTooLong units) =
     (CliErrorKind.RemotePath, ''{context}: name is too long for MTP ({units} UTF-16 units, max {})'')"
| "error_message MtpError.AlreadyExists =
     (CliErrorKind.RemotePath, ''{context}: the destination folder already holds an object with that name'')"
| "error_message MtpError.StorageFull = (CliErrorKind.Transfer, ''{context}: storage is full'')"
| "error_message MtpError.AccessDenied = (CliErrorKind.AccessDenied, ''{context}: storage is read-only or access denied'')"
| "error_message MtpError.Unsupported = (CliErrorKind.Other, ''{context}: operation not supported by this device'')"
| "error_message MtpError.Cancelled = (CliErrorKind.Transfer, ''{context}: cancelled'')"
| "error_message (MtpError.InvalidData message) = (CliErrorKind.Transfer, ''{context}: invalid data: {message}'')"
| "error_message (MtpError.Io message) = (CliErrorKind.Other, ''{context}: I/O error: {message}'')"
| "error_message e = (CliErrorKind.Other, ''{context}: {error}'')"

definition from_mtp :: "bool \<Rightarrow> bool \<Rightarrow> MtpError \<Rightarrow> CliError" where
  "from_mtp macos verbose e =
     (let cli_error =
        (if is_macos_usb_user_client_denied macos e
         then with_help ''macOS can deny USB user-client access'' (CliError_new CliErrorKind.AccessDenied ''{context}: macOS denied USB access for this process'')
         else if mtp_is_exclusive_access e
         then with_help ''Close other applications'' (CliError_new CliErrorKind.AccessDenied ''{context}: device is already in use'')
         else case error_message e of (kind, message) \<Rightarrow> CliError_new kind message)
      in if verbose then with_detail e cli_error else cli_error)"

text \<open>
  Whether the tool is built for macOS, and its flags. Those that shape the output only, \<open>--json\<close> and \<open>--trace\<close>, are left out.
\<close>

record cli_mode =
  cm_macos :: bool
  cm_verbose :: bool

record Cli = cli_mode +
  cl_device :: "rstr option"
  cl_location :: "u64 option"
  cl_storage :: "rstr option"
  cl_known :: "(u16 \<times> u16) list"
  cl_timeout :: u64
  cl_no_prop_list :: bool

abbreviation cli_err :: "'m cli_mode_scheme \<Rightarrow> 'a mres \<Rightarrow> 'a cli" where
  "cli_err mode \<equiv> map_err (from_mtp (cm_macos mode) (cm_verbose mode))"

definition on_cli :: "'m cli_mode_scheme \<Rightarrow> 'a mres \<times> 's \<Rightarrow> 'a cli \<times> 's" where
  "on_cli mode p = apfst (cli_err mode) p"

definition on_cli_opt :: "'m cli_mode_scheme \<Rightarrow> ('a mres \<times> 's) option \<Rightarrow> ('a cli \<times> 's) option" where
  "on_cli_opt mode m = map_option (on_cli mode) m"

abbreviation remote_error :: "string \<Rightarrow> CliError" where
  "remote_error \<equiv> CliError_new CliErrorKind.RemotePath"

section \<open>Remote paths\<close>

record RemotePath =
  rp_raw :: rstr
  rp_components :: "rstr list"
  rp_trailing_slash :: bool

definition validate_component :: "rstr \<Rightarrow> unit cli" where
  "validate_component component =
     (if component = [] \<or> component = str ''.'' \<or> component = str ''..''
      then Err (remote_error ''invalid remote path component'')
      else if 47 \<in> set component \<or> 92 \<in> set component \<or> 0 \<in> set component
      then Err (remote_error ''invalid remote filename'')
      else Ok ())"

fun validate_all :: "rstr list \<Rightarrow> rstr list cli" where
  "validate_all [] = Ok []"
| "validate_all (c # cs) = bind_ok (validate_component c) (\<lambda>_. map_ok ((#) c) (validate_all cs))"

definition RemotePath_parse :: "rstr \<Rightarrow> RemotePath cli" where
  "RemotePath_parse path =
     (if path = [] \<or> hd path \<noteq> 47
      then Err (remote_error ''remote path must be absolute, for example /Music/song.mp3'')
      else map_ok (\<lambda>cs. \<lparr>rp_raw = path, rp_components = cs, rp_trailing_slash = (path \<noteq> [47] \<and> last path = 47)\<rparr>)
        (validate_all (filter (\<lambda>part. part \<noteq> []) (split_on 47 path))))"

definition is_root :: "RemotePath \<Rightarrow> bool" where
  "is_root p \<longleftrightarrow> rp_components p = []"

fun join_slash :: "rstr list \<Rightarrow> rstr" where
  "join_slash [] = []"
| "join_slash [c] = c"
| "join_slash (c # cs) = c @ 47 # join_slash cs"

definition parent_raw_from_components :: "rstr list \<Rightarrow> rstr" where
  "parent_raw_from_components cs = 47 # join_slash cs"

definition parent_path_string :: "rstr list \<Rightarrow> rstr" where
  "parent_path_string cs = (if length cs \<le> 1 then str ''/'' else 47 # join_slash (butlast cs))"

datatype ExistingRemote = RemoteRoot | RemoteObject MtpObjectInfo

record UploadTarget =
  ut_parent :: "MtpObjectHandle option"
  ut_filename :: rstr
  ut_existing :: "MtpObjectInfo option"

section \<open>Resolving a path\<close>

text \<open>The loop over the components, from a parent; \<open>last_found\<close> is the object of the component before.\<close>

fun resolve_from ::
  "('s, 'b, 'l) MtpBackend \<Rightarrow> 'm cli_mode_scheme \<Rightarrow> Storage \<Rightarrow> MtpObjectHandle option \<Rightarrow> MtpObjectInfo option \<Rightarrow> rstr list \<Rightarrow> 's \<Rightarrow>
     (MtpObjectInfo option cli \<times> 's) option" where
  "resolve_from be mode sto parent last_found [] s = Some (Ok last_found, s)"
| "resolve_from be mode sto parent last_found (component # rest) s =
     then_opt (on_cli_opt mode (list_objects be sto parent s)) (\<lambda>objects s.
       case List.find (\<lambda>obj. mo_filename obj = component) objects of
         None \<Rightarrow> Some (Err (remote_error ''remote path not found''), s)
       | Some obj \<Rightarrow>
           if rest \<noteq> [] \<and> \<not> mtp_is_folder obj then Some (Err (remote_error ''remote parent is not a folder''), s)
           else resolve_from be mode sto (Some (mo_handle obj)) (Some obj) rest s)"

definition resolve_existing ::
  "('s, 'b, 'l) MtpBackend \<Rightarrow> 'm cli_mode_scheme \<Rightarrow> Storage \<Rightarrow> RemotePath \<Rightarrow> 's \<Rightarrow> (ExistingRemote cli \<times> 's) option" where
  "resolve_existing be mode sto path s =
     (if is_root path then Some (Ok RemoteRoot, s)
      else then_opt (resolve_from be mode sto None None (rp_components path) s) (\<lambda>found s.
        Some (case found of Some obj \<Rightarrow> Ok (RemoteObject obj) | None \<Rightarrow> Panic, s)))"

definition folder_of :: "string \<Rightarrow> ExistingRemote \<Rightarrow> MtpObjectHandle option cli" where
  "folder_of message e =
     (case e of
        RemoteRoot \<Rightarrow> Ok None
      | RemoteObject obj \<Rightarrow> if mtp_is_folder obj then Ok (Some (mo_handle obj)) else Err (remote_error message))"

definition resolve_upload_target ::
  "('s, 'b, 'l) MtpBackend \<Rightarrow> 'm cli_mode_scheme \<Rightarrow> Storage \<Rightarrow> RemotePath \<Rightarrow> rstr \<Rightarrow> 's \<Rightarrow> (UploadTarget cli \<times> 's) option" where
  "resolve_upload_target be mode sto remote_path local_filename s =
     (if is_root remote_path then Some (Ok \<lparr>ut_parent = None, ut_filename = local_filename, ut_existing = None\<rparr>, s)
      else
        let cs = rp_components remote_path;
            explicit_folder = rp_trailing_slash remote_path;
            final_name = (if explicit_folder then local_filename else last cs);
            cs = (if explicit_folder then cs else butlast cs);
            parent_path = \<lparr>rp_raw = parent_raw_from_components cs, rp_components = cs, rp_trailing_slash = False\<rparr>
        in
        seq_opt (validate_component final_name, s) (\<lambda>_ s.
        then_opt (resolve_existing be mode sto parent_path s) (\<lambda>e s.
        seq_opt (folder_of ''remote parent is not a folder'' e, s) (\<lambda>parent s.
        then_opt (on_cli_opt mode (list_objects be sto parent s)) (\<lambda>objects s.
          case List.find (\<lambda>obj. mo_filename obj = final_name \<and> mtp_is_folder obj) objects of
            Some existing_folder \<Rightarrow>
              Some (Ok \<lparr>ut_parent = Some (mo_handle existing_folder), ut_filename = local_filename, ut_existing = None\<rparr>, s)
          | None \<Rightarrow>
              Some (Ok \<lparr>ut_parent = parent, ut_filename = final_name,
                ut_existing = List.find (\<lambda>obj. mo_filename obj = final_name \<and> mtp_is_file obj) objects\<rparr>, s))))))"

section \<open>Helpers of the commands\<close>

definition folder_parent ::
  "('s, 'b, 'l) MtpBackend \<Rightarrow> 'm cli_mode_scheme \<Rightarrow> Storage \<Rightarrow> RemotePath \<Rightarrow> 's \<Rightarrow> ((MtpObjectHandle option \<times> rstr) cli \<times> 's) option" where
  "folder_parent be mode sto path s =
     then_opt (resolve_existing be mode sto path s) (\<lambda>e s.
       Some (case e of
           RemoteRoot \<Rightarrow> Ok (None, str ''/'')
         | RemoteObject obj \<Rightarrow> if mtp_is_folder obj then Ok (Some (mo_handle obj), rp_raw path)
             else Err (remote_error ''remote path is not a folder''), s))"

definition existing_object ::
  "('s, 'b, 'l) MtpBackend \<Rightarrow> 'm cli_mode_scheme \<Rightarrow> Storage \<Rightarrow> RemotePath \<Rightarrow> 's \<Rightarrow> (MtpObjectInfo cli \<times> 's) option" where
  "existing_object be mode sto path s =
     then_opt (resolve_existing be mode sto path s) (\<lambda>e s.
       Some (case e of RemoteRoot \<Rightarrow> Err (remote_error ''remote path cannot be the storage root'') | RemoteObject obj \<Rightarrow> Ok obj, s))"

definition resolve_object_destination ::
  "('s, 'b, 'l) MtpBackend \<Rightarrow> 'm cli_mode_scheme \<Rightarrow> Storage \<Rightarrow> RemotePath \<Rightarrow> rstr \<Rightarrow> 's \<Rightarrow> (UploadTarget cli \<times> 's) option" where
  "resolve_object_destination = resolve_upload_target"

definition ensure_rename_supported :: "('s, 'b, 'l) MtpBackend \<Rightarrow> 's \<Rightarrow> unit cli" where
  "ensure_rename_supported be s =
     (if device_supports_rename be s then Ok ()
      else Err (CliError_new CliErrorKind.Transfer ''device does not support rename; cannot change the destination filename''))"

definition parent_folder ::
  "('s, 'b, 'l) MtpBackend \<Rightarrow> 'm cli_mode_scheme \<Rightarrow> Storage \<Rightarrow> rstr list \<Rightarrow> 's \<Rightarrow> (MtpObjectHandle option cli \<times> 's) option" where
  "parent_folder be mode sto cs s =
     seq_opt (RemotePath_parse (parent_path_string cs), s) (\<lambda>parent_path s.
     then_opt (resolve_existing be mode sto parent_path s) (\<lambda>e s.
       Some (folder_of ''remote parent is not a folder'' e, s)))"

definition ensure_rename_target_available ::
  "('s, 'b, 'l) MtpBackend \<Rightarrow> 'm cli_mode_scheme \<Rightarrow> Storage \<Rightarrow> RemotePath \<Rightarrow> MtpObjectHandle \<Rightarrow> rstr \<Rightarrow> 's \<Rightarrow> (unit cli \<times> 's) option" where
  "ensure_rename_target_available be mode sto source_path source_handle new_name s =
     then_opt (parent_folder be mode sto (rp_components source_path) s) (\<lambda>parent s.
     then_opt (on_cli_opt mode (list_objects be sto parent s)) (\<lambda>siblings s.
       Some (if list_ex (\<lambda>obj. mo_filename obj = new_name \<and> mo_handle obj \<noteq> source_handle) siblings
             then Err (remote_error ''destination name already exists'') else Ok (), s)))"

definition ensure_not_same_object :: "MtpObjectHandle \<Rightarrow> MtpObjectHandle \<Rightarrow> unit cli" where
  "ensure_not_same_object source destination =
     (if source = destination then Err (remote_error ''source and destination are the same remote object'') else Ok ())"

section \<open>Numbers on the command line\<close>

text \<open>\<open>from_str_radix\<close> takes an optional plus sign and one or more digits, of either case, and checks the width.\<close>

definition digit_value :: "nat \<Rightarrow> nat option" where
  "digit_value c =
     (if 48 \<le> c \<and> c \<le> 57 then Some (c - 48)
      else if 97 \<le> c \<and> c \<le> 122 then Some (c - 87)
      else if 65 \<le> c \<and> c \<le> 90 then Some (c - 55)
      else None)"

fun digits_value :: "nat \<Rightarrow> nat \<Rightarrow> rstr \<Rightarrow> nat option" where
  "digits_value radix acc [] = Some acc"
| "digits_value radix acc (c # cs) =
     (case digit_value c of
        Some d \<Rightarrow> if d < radix then digits_value radix (acc * radix + d) cs else None
      | None \<Rightarrow> None)"

definition from_str_radix :: "nat \<Rightarrow> nat \<Rightarrow> rstr \<Rightarrow> nat option" where
  "from_str_radix width radix s =
     (let digits = (if s \<noteq> [] \<and> hd s = 43 then tl s else s) in
      if digits = [] then None
      else case digits_value radix 0 digits of
        Some n \<Rightarrow> if n < 2 ^ width then Some n else None
      | None \<Rightarrow> None)"

definition strip_hex_prefix :: "rstr \<Rightarrow> rstr option" where
  "strip_hex_prefix s = (if prefix (str ''0x'') s \<or> prefix (str ''0X'') s then Some (drop 2 s) else None)"

definition has_hex_letter :: "rstr \<Rightarrow> bool" where
  "has_hex_letter s \<longleftrightarrow> list_ex (\<lambda>c. 97 \<le> c \<and> c \<le> 102 \<or> 65 \<le> c \<and> c \<le> 70) s"

definition or_error :: "'e \<Rightarrow> nat option \<Rightarrow> ('a::len word, 'e) outcome" where
  "or_error e x = (case x of Some n \<Rightarrow> Ok (word_of_nat n) | None \<Rightarrow> Err e)"

definition parse_u64_hex_or_dec :: "rstr \<Rightarrow> (u64, string) outcome" where
  "parse_u64_hex_or_dec input =
     (case strip_hex_prefix input of
        Some digits \<Rightarrow> or_error ''invalid hex u64 value'' (from_str_radix 64 16 digits)
      | None \<Rightarrow>
          if has_hex_letter input then or_error ''invalid hex u64 value'' (from_str_radix 64 16 input)
          else or_error ''invalid decimal u64 value'' (from_str_radix 64 10 input))"

definition parse_u16_hex :: "rstr \<Rightarrow> (u16, string) outcome" where
  "parse_u16_hex input =
     or_error ''invalid hex u16 value'' (from_str_radix 16 16 (case strip_hex_prefix input of Some digits \<Rightarrow> digits | None \<Rightarrow> input))"

definition parse_vid_pid :: "rstr \<Rightarrow> (u16 \<times> u16, string) outcome" where
  "parse_vid_pid input =
     (if 58 \<notin> set input then Err ''expected VID:PID, for example 091e:0003''
      else
        bind_ok (parse_u16_hex (takeWhile (\<lambda>c. c \<noteq> 58) input)) (\<lambda>vid.
        map_ok (Pair vid) (parse_u16_hex (tl (dropWhile (\<lambda>c. c \<noteq> 58) input)))))"

definition parse_storage_id :: "rstr \<Rightarrow> u64 cli" where
  "parse_storage_id selection =
     (case strip_hex_prefix selection of
        Some digits \<Rightarrow> or_error (remote_error ''invalid storage ID'') (from_str_radix 64 16 digits)
      | None \<Rightarrow>
          if has_hex_letter selection then or_error (remote_error ''invalid storage ID'') (from_str_radix 64 16 selection)
          else or_error (remote_error ''invalid storage selection'') (from_str_radix 64 10 selection))"

section \<open>Choosing a storage and a device\<close>

text \<open>A storage is chosen by its index where the selection is one, else by its id. \<open>usize\<close> has 64 bits.\<close>

definition select_storage :: "Storage list \<Rightarrow> rstr \<Rightarrow> Storage cli" where
  "select_storage stores selection =
     (let by_id = bind_ok (parse_storage_id selection) (\<lambda>sid.
            case List.find (\<lambda>sto. sg_id sto = sid) stores of
              Some sto \<Rightarrow> Ok sto
            | None \<Rightarrow> Err (remote_error ''storage not found''))
      in case from_str_radix 64 10 selection of
           Some i \<Rightarrow> if i < length stores then Ok (stores ! i) else by_id
         | None \<Rightarrow> by_id)"

text \<open>\<open>open_storage\<close> once the device is open, on its backend.\<close>

definition open_storage ::
  "('s, 'b, 'l) MtpBackend \<Rightarrow> 'm Cli_scheme \<Rightarrow> bool \<Rightarrow> 's \<Rightarrow> (Storage cli \<times> 's) option" where
  "open_storage be cli mutating s =
     then_opt (on_cli_opt cli (storages be s)) (\<lambda>stores s.
       Some (if stores = [] then Err (remote_error ''device has no storages'')
             else case cl_storage cli of
               Some selection \<Rightarrow> select_storage stores selection
             | None \<Rightarrow>
                 if mutating \<and> 1 < length stores
                 then Err (CliError_new CliErrorKind.AmbiguousSelection ''multiple storages found; pass --storage'')
                 else Ok (hd stores), s))"

definition selected_builder :: "'m Cli_scheme \<Rightarrow> MtpDeviceBuilder" where
  "selected_builder cli =
     use_object_prop_list (\<not> cl_no_prop_list cli)
       (with_timeout (unat (cl_timeout cli) * 1000) (with_known_devices (cl_known cli) MtpDeviceBuilder_new))"

definition open_selected_device ::
  "('u, 'w) device_env \<Rightarrow> 'm Cli_scheme \<Rightarrow> 'u System \<Rightarrow> (('u, 'w) MtpDevice cli \<times> 'u System) option" where
  "open_selected_device env cli sys =
     (let b = selected_builder cli in
      case cl_device cli of
        Some serial \<Rightarrow> on_cli_opt cli (open_by_serial env b serial sys)
      | None \<Rightarrow>
          (case cl_location cli of
             Some location_id \<Rightarrow> on_cli_opt cli (open_by_location env b location_id sys)
           | None \<Rightarrow>
               seq_opt (on_cli cli (list_devices_with_known env (cl_known cli) sys)) (\<lambda>devices sys.
                 case devices of
                   [] \<Rightarrow> Some (Err (CliError_new CliErrorKind.NoDevice ''no MTP device found''), sys)
                 | [d] \<Rightarrow> on_cli_opt cli (open_by_location env b (md_location_id d) sys)
                 | _ \<Rightarrow> Some (Err (CliError_new CliErrorKind.AmbiguousSelection ''multiple MTP devices found; pass --device''), sys))))"

section \<open>What a destination path means\<close>

text \<open>A device whose listings do not change: what each folder holds.\<close>

definition lists_as :: "('s, 'b, 'l) MtpBackend \<Rightarrow> Storage \<Rightarrow> (MtpObjectHandle option \<Rightarrow> MtpObjectInfo list) \<Rightarrow> bool" where
  "lists_as be sto table \<longleftrightarrow> (\<forall>parent s. list_objects be sto parent s = Some (Ok (table parent), s))"

text \<open>The object a path names, by the first object of each name.\<close>

fun named :: "(MtpObjectHandle option \<Rightarrow> MtpObjectInfo list) \<Rightarrow> MtpObjectHandle option \<Rightarrow> rstr list \<Rightarrow> MtpObjectInfo option" where
  "named table parent [] = None"
| "named table parent [c] = List.find (\<lambda>obj. mo_filename obj = c) (table parent)"
| "named table parent (c # cs) =
     (case List.find (\<lambda>obj. mo_filename obj = c) (table parent) of
        Some obj \<Rightarrow> if mtp_is_folder obj then named table (Some (mo_handle obj)) cs else None
      | None \<Rightarrow> None)"

lemma resolve_from_named:
  assumes "lists_as be sto table"
  shows "cs \<noteq> [] \<Longrightarrow> named table parent cs = Some obj \<Longrightarrow> resolve_from be mode sto parent last_found cs s = Some (Ok (Some obj), s)"
proof (induction cs arbitrary: parent last_found)
  case (Cons c cs)
  have here: "on_cli_opt mode (list_objects be sto parent s) = Some (Ok (table parent), s)" for parent
    using assms by (simp add: lists_as_def on_cli_opt_def on_cli_def)
  show ?case
  proof (cases cs)
    case Nil
    then show ?thesis using Cons.prems here by (simp add: then_opt_def)
  next
    case (Cons d ds)
    then obtain o1 where o1: "List.find (\<lambda>obj. mo_filename obj = c) (table parent) = Some o1" "mtp_is_folder o1"
      "named table (Some (mo_handle o1)) cs = Some obj"
      using Cons.prems by (auto split: option.splits if_splits)
    show ?thesis using Cons.IH [of "Some (mo_handle o1)" "Some o1"] o1 Cons here [of parent] by (simp add: then_opt_def)
  qed
qed simp

lemma resolve_existing_named:
  assumes "lists_as be sto table" "rp_components path \<noteq> []" "named table None (rp_components path) = Some obj"
  shows "resolve_existing be mode sto path s = Some (Ok (RemoteObject obj), s)"
  using assms(2) by (simp add: resolve_existing_def is_root_def then_opt_def resolve_from_named [OF assms])

text \<open>The folder above a named object, and the object in it.\<close>

lemma named_above:
  assumes "named table parent (cs @ [c]) = Some obj"
  shows "cs = [] \<and> List.find (\<lambda>obj. mo_filename obj = c) (table parent) = Some obj \<or>
    (\<exists>above. cs \<noteq> [] \<and> named table parent cs = Some above \<and> mtp_is_folder above \<and>
       List.find (\<lambda>obj. mo_filename obj = c) (table (Some (mo_handle above))) = Some obj)"
  using assms
proof (induction cs arbitrary: parent)
  case (Cons d cs)
  obtain o1 where o1: "List.find (\<lambda>obj. mo_filename obj = d) (table parent) = Some o1" "mtp_is_folder o1"
    "named table (Some (mo_handle o1)) (cs @ [c]) = Some obj"
    using Cons.prems by (cases cs) (auto split: option.splits if_splits)
  then show ?case using Cons.IH [OF o1(3)] by (cases cs) auto
qed simp

lemma find_first: "List.find P xs = Some x \<Longrightarrow> Q x \<Longrightarrow> List.find (\<lambda>y. P y \<and> Q y) xs = Some x"
  by (induction xs) (auto split: if_splits)

text \<open>
  Whether \<open>put\<close>, \<open>mv\<close> and \<open>cp\<close> see the file they are about to write over depends on a trailing slash. For a path that names a folder
  holding a file of the name to be sent, the destination with a trailing slash is that folder with the file to be replaced, so
  that \<open>--replace\<close> is asked for and deletes it; without the slash, and for the root, it is the same folder with nothing to be
  replaced.
\<close>

theorem slash_decides:
  assumes "lists_as be sto table" "cs \<noteq> []" "named table None cs = Some d" "mtp_is_folder d" "validate_component name = Ok ()"
    "validate_component (last cs) = Ok ()"
    "List.find (\<lambda>obj. mo_filename obj = name \<and> mtp_is_folder obj) (table (Some (mo_handle d))) = None"
    "List.find (\<lambda>obj. mo_filename obj = name \<and> mtp_is_file obj) (table (Some (mo_handle d))) = Some f"
  shows "resolve_upload_target be mode sto \<lparr>rp_raw = raw, rp_components = cs, rp_trailing_slash = True\<rparr> name s =
      Some (Ok \<lparr>ut_parent = Some (mo_handle d), ut_filename = name, ut_existing = Some f\<rparr>, s) \<and>
    resolve_upload_target be mode sto \<lparr>rp_raw = raw, rp_components = cs, rp_trailing_slash = False\<rparr> name s =
      Some (Ok \<lparr>ut_parent = Some (mo_handle d), ut_filename = name, ut_existing = None\<rparr>, s) \<and>
    resolve_upload_target be mode sto \<lparr>rp_raw = raw, rp_components = [], rp_trailing_slash = False\<rparr> name s =
      Some (Ok \<lparr>ut_parent = None, ut_filename = name, ut_existing = None\<rparr>, s)"
proof -
  have here: "on_cli_opt mode (list_objects be sto parent s) = Some (Ok (table parent), s)" for parent
    using assms(1) by (simp add: lists_as_def on_cli_opt_def on_cli_def)
  let ?with = "\<lparr>rp_raw = parent_raw_from_components cs, rp_components = cs, rp_trailing_slash = False\<rparr>"
  let ?above = "\<lparr>rp_raw = parent_raw_from_components (butlast cs), rp_components = butlast cs, rp_trailing_slash = False\<rparr>"
  have "resolve_existing be mode sto ?with s = Some (Ok (RemoteObject d), s)"
    by (rule resolve_existing_named [OF assms(1)]) (use assms(2,3) in simp_all)
  then have slash: "resolve_upload_target be mode sto \<lparr>rp_raw = raw, rp_components = cs, rp_trailing_slash = True\<rparr> name s =
      Some (Ok \<lparr>ut_parent = Some (mo_handle d), ut_filename = name, ut_existing = Some f\<rparr>, s)"
    using assms(2,4,5,7,8) here by (simp add: resolve_upload_target_def is_root_def Let_def then_opt_def folder_of_def)
  have split: "named table None (butlast cs @ [last cs]) = Some d" using assms(2,3) by simp
  have "\<exists>e p. resolve_existing be mode sto ?above s = Some (Ok e, s) \<and> (\<forall>m. folder_of m e = Ok p)
      \<and> List.find (\<lambda>obj. mo_filename obj = last cs) (table p) = Some d"
    using named_above [OF split]
  proof (elim disjE exE conjE)
    assume "butlast cs = []" "List.find (\<lambda>obj. mo_filename obj = last cs) (table None) = Some d"
    then show ?thesis by (intro exI [of _ RemoteRoot] exI [of _ None]) (simp add: resolve_existing_def is_root_def folder_of_def)
  next
    fix above assume "butlast cs \<noteq> []" "named table None (butlast cs) = Some above" "mtp_is_folder above"
      "List.find (\<lambda>obj. mo_filename obj = last cs) (table (Some (mo_handle above))) = Some d"
    then show ?thesis
      by (intro exI [of _ "RemoteObject above"] exI [of _ "Some (mo_handle above)"])
        (simp add: resolve_existing_named [OF assms(1)] folder_of_def)
  qed
  then obtain e p where e: "resolve_existing be mode sto ?above s = Some (Ok e, s)" "\<forall>m. folder_of m e = Ok p"
    "List.find (\<lambda>obj. mo_filename obj = last cs) (table p) = Some d" by blast
  have "List.find (\<lambda>obj. mo_filename obj = last cs \<and> mtp_is_folder obj) (table p) = Some d"
    using e(3) assms(4) by (rule find_first)
  then have "resolve_upload_target be mode sto \<lparr>rp_raw = raw, rp_components = cs, rp_trailing_slash = False\<rparr> name s =
      Some (Ok \<lparr>ut_parent = Some (mo_handle d), ut_filename = name, ut_existing = None\<rparr>, s)"
    using assms(2,6) here e(1,2) by (simp add: resolve_upload_target_def is_root_def Let_def then_opt_def)
  then show ?thesis using slash by (simp add: resolve_upload_target_def is_root_def)
qed

definition demo_music :: "MtpObjectHandle option \<Rightarrow> MtpObjectInfo list" where
  "demo_music parent =
     (if parent = None then [(demo_object 1 True)\<lparr>mo_filename := str ''Music''\<rparr>]
      else if parent = Some 1 then [(demo_object 2 False)\<lparr>mo_filename := str ''song.mp3''\<rparr>] else [])"

lemma shelf_collect_items:
  "collect_items (shelf folder) objects [] \<lparr>ol_inner = \<lparr>bl_total = n, bl_items = map Ok xs\<rparr>, ol_fetched = k\<rparr> s =
     Some (Ok \<lparr>oc_objects = objects @ xs, oc_skipped = []\<rparr>, s)"
  by (induction xs arbitrary: objects k) (simp_all add: collect_round shelf_round)

lemma shelf_lists_as: "lists_as (shelf (\<lambda>parent. map Ok (table parent))) sto table"
  by (simp add: lists_as_def list_objects_def list_objects_with_cancel_def collect_objects_with_cancel_def collect_in_def then_opt_def
      ObjectListing_new_def shelf_list shelf_collect_items)

theorem slash_decides_witness:
  "resolve_upload_target (shelf (\<lambda>parent. map Ok (demo_music parent))) \<lparr>cm_macos = False, cm_verbose = False\<rparr> demo_storage_of
      \<lparr>rp_raw = str ''/Music'', rp_components = [str ''Music''], rp_trailing_slash = False\<rparr> (str ''song.mp3'') () =
    Some (Ok \<lparr>ut_parent = Some 1, ut_filename = str ''song.mp3'', ut_existing = None\<rparr>, ())"
proof -
  let ?d = "(demo_object 1 True)\<lparr>mo_filename := str ''Music''\<rparr>" and ?f = "(demo_object 2 False)\<lparr>mo_filename := str ''song.mp3''\<rparr>"
  have "named demo_music None [str ''Music''] = Some ?d" "mtp_is_folder ?d" "mo_handle ?d = 1"
    "List.find (\<lambda>obj. mo_filename obj = str ''song.mp3'' \<and> mtp_is_folder obj) (demo_music (Some (mo_handle ?d))) = None"
    "List.find (\<lambda>obj. mo_filename obj = str ''song.mp3'' \<and> mtp_is_file obj) (demo_music (Some (mo_handle ?d))) = Some ?f"
    by (simp_all add: demo_music_def demo_object_def mtp_is_folder_def mtp_is_file_def)
  moreover have "validate_component (str ''song.mp3'') = Ok ()" "validate_component (last [str ''Music'']) = Ok ()" by code_simp+
  ultimately show ?thesis
    using slash_decides [OF shelf_lists_as [of demo_music demo_storage_of], of "[str ''Music'']" ?d "str ''song.mp3''" ?f
        "\<lparr>cm_macos = False, cm_verbose = False\<rparr>" "str ''/Music''" "()"] by simp
qed

end
