(* ===== verification/Cli_Commands.thy ===== *)
theory Cli_Commands
  imports Cli_Paths
begin

text \<open>
  The commands of the command line tool that list and change a device (\<open>crates/mtp-rs-cli/src/cli/commands\<close>), each on the backend
  of the opened device, from the choice of the storage to the row it reports. The files of this machine, which \<open>put\<close> only reads,
  are an argument.
\<close>

section \<open>Listing and making folders\<close>

record LsRow =
  lr_path :: rstr
  lr_recursive :: bool
  lr_objects :: "MtpObjectInfo list"
  lr_skipped :: "SkippedObject list"

definition run_ls ::
  "('s, 'b, 'l) MtpBackend \<Rightarrow> 'm Cli_scheme \<Rightarrow> rstr \<Rightarrow> bool \<Rightarrow> 's \<Rightarrow> (LsRow cli \<times> 's) option" where
  "run_ls be cli remote_path recursive s =
     then_opt (open_storage be cli False s) (\<lambda>sto s.
     seq_opt (RemotePath_parse remote_path, s) (\<lambda>path s.
     then_opt (folder_parent be cli sto path s) (\<lambda>(parent, listed_path) s.
     then_opt (on_cli_opt cli
         (if recursive then collect_objects_recursive be sto parent s else collect_objects be sto parent s)) (\<lambda>collection s.
       Some (Ok \<lparr>lr_path = listed_path, lr_recursive = recursive,
         lr_objects = oc_objects collection, lr_skipped = oc_skipped collection\<rparr>, s)))))"

record MkdirRow =
  mk_remote_path :: rstr
  mk_filename :: rstr
  mk_handle :: MtpObjectHandle

definition run_mkdir ::
  "('s, 'b, 'l) MtpBackend \<Rightarrow> 'm Cli_scheme \<Rightarrow> rstr \<Rightarrow> 's \<Rightarrow> (MkdirRow cli \<times> 's) option" where
  "run_mkdir be cli remote_path s =
     then_opt (open_storage be cli True s) (\<lambda>sto s.
     seq_opt (RemotePath_parse remote_path, s) (\<lambda>path s.
       if is_root path then Some (Err (remote_error ''cannot create the storage root''), s)
       else
         let name = last (rp_components path) in
         then_opt (parent_folder be cli sto (rp_components path) s) (\<lambda>parent s.
         then_opt (on_cli_opt cli (list_objects be sto parent s)) (\<lambda>siblings s.
           if list_ex (\<lambda>obj. mo_filename obj = name) siblings then Some (Err (remote_error ''remote object already exists''), s)
           else Some (seq_ok (on_cli cli (storage_create_folder be sto parent name s)) (\<lambda>handle s.
             (Ok \<lparr>mk_remote_path = remote_path, mk_filename = name, mk_handle = handle\<rparr>, s)))))))"

section \<open>Deleting and renaming\<close>

record RmRow =
  rm_remote_path :: rstr
  rm_filename :: rstr
  rm_handle :: MtpObjectHandle
  rm_is_folder :: bool

definition run_rm ::
  "('s, 'b, 'l) MtpBackend \<Rightarrow> 'm Cli_scheme \<Rightarrow> rstr \<Rightarrow> bool \<Rightarrow> 's \<Rightarrow> (RmRow cli \<times> 's) option" where
  "run_rm be cli remote_path yes s =
     (if \<not> yes then Some (Err (remote_error ''refusing to delete without --yes''), s)
      else
        then_opt (open_storage be cli True s) (\<lambda>sto s.
        seq_opt (RemotePath_parse remote_path, s) (\<lambda>path s.
        then_opt (resolve_existing be cli sto path s) (\<lambda>e s.
          case e of
            RemoteRoot \<Rightarrow> Some (Err (remote_error ''refusing to delete the storage root''), s)
          | RemoteObject obj \<Rightarrow>
              Some (seq_ok (on_cli cli (storage_delete be (mo_handle obj) s)) (\<lambda>_ s.
                (Ok \<lparr>rm_remote_path = remote_path, rm_filename = mo_filename obj, rm_handle = mo_handle obj,
                   rm_is_folder = mtp_is_folder obj\<rparr>, s)))))))"

record RenameRow =
  rn_remote_path :: rstr
  rn_old_name :: rstr
  rn_new_name :: rstr
  rn_handle :: MtpObjectHandle
  rn_is_folder :: bool

definition run_rename ::
  "('s, 'b, 'l) MtpBackend \<Rightarrow> 'm Cli_scheme \<Rightarrow> rstr \<Rightarrow> rstr \<Rightarrow> 's \<Rightarrow> (RenameRow cli \<times> 's) option" where
  "run_rename be cli remote_path new_name s =
     seq_opt (validate_component new_name, s) (\<lambda>_ s.
     then_opt (open_storage be cli True s) (\<lambda>sto s.
     seq_opt (ensure_rename_supported be s, s) (\<lambda>_ s.
     seq_opt (RemotePath_parse remote_path, s) (\<lambda>path s.
     then_opt (existing_object be cli sto path s) (\<lambda>obj s.
     then_opt (ensure_rename_target_available be cli sto path (mo_handle obj) new_name s) (\<lambda>_ s.
       Some (seq_ok (on_cli cli (storage_rename be (mo_handle obj) new_name s)) (\<lambda>_ s.
         (Ok \<lparr>rn_remote_path = remote_path, rn_old_name = mo_filename obj, rn_new_name = new_name,
            rn_handle = mo_handle obj, rn_is_folder = mtp_is_folder obj\<rparr>, s)))))))))"

section \<open>Moving\<close>

text \<open>
  What \<open>mv\<close>, \<open>cp\<close> and \<open>put\<close> do with a file already at the destination: refuse it without \<open>--replace\<close>, else delete it.
\<close>

definition clear_existing ::
  "('s, 'b, 'l) MtpBackend \<Rightarrow> 'm cli_mode_scheme \<Rightarrow> string \<Rightarrow> bool \<Rightarrow> MtpObjectHandle option \<Rightarrow> MtpObjectInfo option \<Rightarrow> 's \<Rightarrow>
     unit cli \<times> 's" where
  "clear_existing be mode message replace source existing s =
     (case existing of
        None \<Rightarrow> (Ok (), s)
      | Some e \<Rightarrow>
          seq_ok (case source of Some h \<Rightarrow> ensure_not_same_object h (mo_handle e) | None \<Rightarrow> Ok (), s) (\<lambda>_ s.
            if \<not> replace then (Err (remote_error message), s)
            else on_cli mode (storage_delete be (mo_handle e) s)))"

record MoveRow =
  mv_source_path :: rstr
  mv_destination_path :: rstr
  mv_filename :: rstr
  mv_handle :: MtpObjectHandle
  mv_is_folder :: bool
  mv_replaced :: bool
  mv_renamed :: bool

definition or_root :: "MtpObjectHandle option \<Rightarrow> MtpObjectHandle" where
  "or_root parent = (case parent of Some p \<Rightarrow> p | None \<Rightarrow> MTP_ROOT)"

definition run_mv ::
  "('s, 'b, 'l) MtpBackend \<Rightarrow> 'm Cli_scheme \<Rightarrow> rstr \<Rightarrow> rstr \<Rightarrow> bool \<Rightarrow> 's \<Rightarrow> (MoveRow cli \<times> 's) option" where
  "run_mv be cli source_path destination_path replace s =
     then_opt (open_storage be cli True s) (\<lambda>sto s.
     seq_opt (RemotePath_parse source_path, s) (\<lambda>spath s.
     seq_opt (RemotePath_parse destination_path, s) (\<lambda>dpath s.
     then_opt (existing_object be cli sto spath s) (\<lambda>source s.
     then_opt (resolve_object_destination be cli sto dpath (mo_filename source) s) (\<lambda>target s.
       let renamed = (ut_filename target \<noteq> mo_filename source) in
       seq_opt (if renamed then ensure_rename_supported be s else Ok (), s) (\<lambda>_ s.
       seq_opt (clear_existing be cli ''destination already exists; pass --replace to delete it first'' replace
           (Some (mo_handle source)) (ut_existing target) s) (\<lambda>_ s.
       seq_opt (on_cli cli (storage_move_object be sto (mo_handle source) (or_root (ut_parent target)) None s)) (\<lambda>_ s.
       seq_opt (if renamed then on_cli cli (storage_rename be (mo_handle source) (ut_filename target) s) else (Ok (), s)) (\<lambda>_ s.
         Some (Ok \<lparr>mv_source_path = rp_raw spath, mv_destination_path = rp_raw dpath, mv_filename = ut_filename target,
           mv_handle = mo_handle source, mv_is_folder = mtp_is_folder source, mv_replaced = (ut_existing target \<noteq> None),
           mv_renamed = renamed\<rparr>, s))))))))))"

section \<open>Copying\<close>

text \<open>The files of a folder, then the folder itself.\<close>

fun delete_all :: "('s, 'b, 'l) MtpBackend \<Rightarrow> MtpObjectInfo list \<Rightarrow> 's \<Rightarrow> unit mres \<times> 's" where
  "delete_all be [] s = (Ok (), s)"
| "delete_all be (obj # objs) s = seq_ok (storage_delete be (mo_handle obj) s) (\<lambda>_. delete_all be objs)"

definition remove_staging_folder ::
  "('s, 'b, 'l) MtpBackend \<Rightarrow> Storage \<Rightarrow> MtpObjectHandle \<Rightarrow> 's \<Rightarrow> (unit mres \<times> 's) option" where
  "remove_staging_folder be sto stage s =
     then_opt (list_objects be sto (Some stage) s) (\<lambda>objects s.
       Some (seq_ok (delete_all be objects s) (\<lambda>_. storage_delete be stage)))"

text \<open>The process id and the clock's nanoseconds.\<close>

definition staging_folder_name :: "nat \<Rightarrow> nat \<Rightarrow> rstr" where
  "staging_folder_name pid nanos = str ''.mtp-rs-cp-'' @ decimal pid @ str ''-'' @ fmt_width 9 nanos"

text \<open>The steps inside the staging folder, and what becomes of their outcome when the folder is removed.\<close>

definition staged_steps ::
  "('s, 'b, 'l) MtpBackend \<Rightarrow> (rstr \<Rightarrow> rstr) \<Rightarrow> 'm cli_mode_scheme \<Rightarrow> Storage \<Rightarrow> MtpObjectHandle \<Rightarrow> MtpObjectHandle option \<Rightarrow> rstr \<Rightarrow>
     MtpObjectHandle \<Rightarrow> 's \<Rightarrow> (MtpObjectHandle cli \<times> 's) option" where
  "staged_steps be lower mode sto source parent filename stage s =
     then_opt (on_cli_opt mode (storage_copy_object be lower sto source stage None s)) (\<lambda>copy s.
     seq_opt (on_cli mode (storage_rename be copy filename s)) (\<lambda>_ s.
     seq_opt (on_cli mode (storage_move_object be sto copy (or_root parent) None s)) (\<lambda>_ s.
     then_opt (on_cli_opt mode (list_objects be sto parent s)) (\<lambda>objects s.
       Some (case List.find (\<lambda>obj. mo_filename obj = filename) objects of
           Some obj \<Rightarrow> Ok (mo_handle obj)
         | None \<Rightarrow> Err (remote_error ''the copy was moved but it is not in the destination''), s)))))"

fun after_cleanup :: "'a cli \<Rightarrow> unit mres \<Rightarrow> 'a cli" where
  "after_cleanup (Ok x) (Err e) = Err (remote_error ''could not remove the staging folder'')"
| "after_cleanup r (Ok _) = r"
| "after_cleanup r (Err e) = r"
| "after_cleanup r Panic = Panic"
| "after_cleanup r Dropped = Dropped"

definition staged_copy ::
  "('s, 'b, 'l) MtpBackend \<Rightarrow> (rstr \<Rightarrow> rstr) \<Rightarrow> 'm cli_mode_scheme \<Rightarrow> rstr \<Rightarrow> Storage \<Rightarrow> MtpObjectHandle \<Rightarrow> MtpObjectHandle option \<Rightarrow>
     rstr \<Rightarrow> 's \<Rightarrow> (MtpObjectHandle cli \<times> 's) option" where
  "staged_copy be lower mode stage_name sto source parent filename s =
     seq_opt (on_cli mode (storage_create_folder be sto parent stage_name s)) (\<lambda>stage s.
       Option.bind (staged_steps be lower mode sto source parent filename stage s) (\<lambda>(result, s).
         case result of
           Panic \<Rightarrow> Some (Panic, s)
         | Dropped \<Rightarrow> Some (Dropped, s)
         | _ \<Rightarrow> map_option (apfst (after_cleanup result)) (remove_staging_folder be sto stage s)))"

record CopyRow =
  cp_source_path :: rstr
  cp_destination_path :: rstr
  cp_filename :: rstr
  cp_source_handle :: MtpObjectHandle
  cp_handle :: MtpObjectHandle
  cp_is_folder :: bool
  cp_replaced :: bool
  cp_renamed :: bool

definition clashing :: "(rstr \<Rightarrow> rstr) \<Rightarrow> rstr \<Rightarrow> MtpObjectInfo option \<Rightarrow> MtpObjectInfo list \<Rightarrow> MtpObjectInfo option" where
  "clashing lower source_name existing siblings =
     List.find (\<lambda>obj. Some (mo_handle obj) \<noteq> map_option mo_handle existing \<and> lower (mo_filename obj) = lower source_name) siblings"

definition run_cp ::
  "('s, 'b, 'l) MtpBackend \<Rightarrow> (rstr \<Rightarrow> rstr) \<Rightarrow> 'm Cli_scheme \<Rightarrow> rstr \<Rightarrow> rstr \<Rightarrow> rstr \<Rightarrow> bool \<Rightarrow> 's \<Rightarrow> (CopyRow cli \<times> 's) option" where
  "run_cp be lower cli stage_name source_path destination_path replace s =
     then_opt (open_storage be cli True s) (\<lambda>sto s.
     seq_opt (RemotePath_parse source_path, s) (\<lambda>spath s.
     seq_opt (RemotePath_parse destination_path, s) (\<lambda>dpath s.
     then_opt (existing_object be cli sto spath s) (\<lambda>source s.
     then_opt (resolve_object_destination be cli sto dpath (mo_filename source) s) (\<lambda>target s.
       let renamed = (ut_filename target \<noteq> mo_filename source) in
       seq_opt (if renamed then ensure_rename_supported be s else Ok (), s) (\<lambda>_ s.
       then_opt (on_cli_opt cli (list_objects be sto (ut_parent target) s)) (\<lambda>siblings s.
         let clash = clashing lower (mo_filename source) (ut_existing target) siblings in
         if clash \<noteq> None \<and> \<not> renamed
         then Some (Err (remote_error ''the destination folder already holds that name''), s)
         else
           seq_opt (clear_existing be cli ''destination already exists; pass --replace to delete it first'' replace
               (Some (mo_handle source)) (ut_existing target) s) (\<lambda>_ s.
           then_opt
             (if clash \<noteq> None
              then staged_copy be lower cli stage_name sto (mo_handle source) (ut_parent target) (ut_filename target) s
              else
                then_opt (on_cli_opt cli
                    (storage_copy_object be lower sto (mo_handle source) (or_root (ut_parent target)) None s)) (\<lambda>new_handle s.
                  if renamed
                  then Some (seq_ok (on_cli cli (storage_rename be new_handle (ut_filename target) s)) (\<lambda>_ s. (Ok new_handle, s)))
                  else Some (Ok new_handle, s)))
             (\<lambda>new_handle s.
               Some (Ok \<lparr>cp_source_path = rp_raw spath, cp_destination_path = rp_raw dpath, cp_filename = ut_filename target,
                 cp_source_handle = mo_handle source, cp_handle = new_handle, cp_is_folder = mtp_is_folder source,
                 cp_replaced = (ut_existing target \<noteq> None), cp_renamed = renamed\<rparr>, s))))))))))"

section \<open>Uploading\<close>

definition CHUNK_SIZE :: usize where
  "CHUNK_SIZE = 256 * 1024"

text \<open>The whole buffer is filled by every read but the last.\<close>

function file_stream :: "bytes \<Rightarrow> chunk_result list" where
  "file_stream data = (if data = [] then [] else Ok (take CHUNK_SIZE data) # file_stream (drop CHUNK_SIZE data))"
  by pat_completeness auto
termination
  by (relation "measure length") (simp_all add: CHUNK_SIZE_def)

declare file_stream.simps [simp del]

text \<open>The downloaded chunks against the rest of the local file.\<close>

partial_function (option) verify_loop ::
  "('s, 'b, 'l) MtpBackend \<Rightarrow> ('s, 'f) surroundings \<Rightarrow> 'm cli_mode_scheme \<Rightarrow> ('b, 'f) FileDownload \<Rightarrow> bytes \<Rightarrow> u64 \<Rightarrow> u64 \<Rightarrow> 's \<Rightarrow>
     (unit cli \<times> 's) option" where
  "verify_loop be env mode remote loc compared total_size s =
     Option.bind (download_next_chunk be env remote s) (\<lambda>(item, remote, s).
       case item of
         Exhausted \<Rightarrow>
           Some (if compared \<noteq> total_size
             then Err (CliError_new CliErrorKind.Verify ''verification failed: uploaded size differs from local file'')
             else Ok (), drop_current be remote s)
       | Yielded r \<Rightarrow>
           (case r of
              Ok chunk \<Rightarrow>
                if length loc < length chunk
                then Some (Err (CliError_new CliErrorKind.Verify ''verify local file''), drop_current be remote s)
                else if chunk \<noteq> take (length chunk) loc
                then Some (Err (CliError_new CliErrorKind.Verify ''verification failed: uploaded bytes differ from local file''),
                       drop_current be remote s)
                else verify_loop be env mode remote (drop (length chunk) loc) (compared + word_of_nat (length chunk)) total_size s
            | Err e \<Rightarrow> Some (cli_err mode (Err e), drop_current be remote s)
            | Panic \<Rightarrow> Some (Panic, drop_current be remote s)
            | Dropped \<Rightarrow> Some (Dropped, drop_current be remote s)))"

fun io_cli :: "CliErrorKind \<Rightarrow> string \<Rightarrow> 'a io \<Rightarrow> 'a cli" where
  "io_cli kind message (Ok x) = Ok x"
| "io_cli kind message (Err e) = Err (CliError_new kind message)"
| "io_cli kind message Panic = Panic"
| "io_cli kind message Dropped = Dropped"

definition verify_remote_matches_local ::
  "('s, 'b, 'l) MtpBackend \<Rightarrow> ('s, 'f) surroundings \<Rightarrow> Host \<Rightarrow> 'm cli_mode_scheme \<Rightarrow> MtpObjectHandle \<Rightarrow> PathBuf \<Rightarrow> u64 \<Rightarrow> 's \<Rightarrow>
     (unit cli \<times> 's) option" where
  "verify_remote_matches_local be env h mode handle local_path total_size s =
     then_opt (on_cli_opt mode (storage_download be env handle ByteRange.Full s)) (\<lambda>remote s.
       case io_cli CliErrorKind.Verify ''verify local file'' (fs_read h local_path) of
         Ok loc \<Rightarrow> verify_loop be env mode remote loc 0 total_size s
       | Err e \<Rightarrow> Some (Err e, drop_current be remote s)
       | Panic \<Rightarrow> Some (Panic, drop_current be remote s)
       | Dropped \<Rightarrow> Some (Dropped, drop_current be remote s))"

record PutRow =
  pt_remote_path :: rstr
  pt_filename :: rstr
  pt_handle :: MtpObjectHandle
  pt_bytes :: u64
  pt_replaced :: bool
  pt_verified :: bool

record PutArgs =
  pa_local_path :: PathBuf
  pa_remote_path :: rstr
  pa_replace :: bool
  pa_verify :: bool

text \<open>The upload itself. The delete of a partial object is best effort; a call that is dropped drops the command with it.\<close>

definition put_upload ::
  "('s, 'b, 'l) MtpBackend \<Rightarrow> 'm cli_mode_scheme \<Rightarrow> Storage \<Rightarrow> UploadTarget \<Rightarrow> bytes \<Rightarrow> u64 \<Rightarrow> 's \<Rightarrow> MtpObjectHandle cli \<times> 's" where
  "put_upload be mode sto target data total_size s =
     (case upload_with_progress be sto (ut_parent target) (NewObjectInfo_file (ut_filename target) total_size)
             (file_stream data) (\<lambda>i progress. False) s of
        (Ok handle, s) \<Rightarrow> (Ok handle, s)
      | (Err e, s) \<Rightarrow>
          (case (case ue_partial e of Some partial \<Rightarrow> storage_delete be partial s | None \<Rightarrow> (Ok (), s)) of
             (Panic, s) \<Rightarrow> (Panic, s)
           | (Dropped, s) \<Rightarrow> (Dropped, s)
           | (_, s) \<Rightarrow> (cli_err mode (Err (ue_source e)), s))
      | (Panic, s) \<Rightarrow> (Panic, s)
      | (Dropped, s) \<Rightarrow> (Dropped, s))"

definition local_file_to_send :: "Host \<Rightarrow> PathBuf \<Rightarrow> (rstr \<times> u64) cli" where
  "local_file_to_send h local_path =
     bind_ok (io_cli CliErrorKind.Other ''read local file'' (metadata h local_path)) (\<lambda>n.
       if is_DirNode n then Err (CliError_new CliErrorKind.Other ''local path is not a regular file'')
       else case file_name local_path of
         None \<Rightarrow> Err (CliError_new CliErrorKind.Other ''local file has no valid filename'')
       | Some name \<Rightarrow> map_ok (\<lambda>_. (name, node_len h n)) (validate_component name))"

definition run_put ::
  "('s, 'b, 'l) MtpBackend \<Rightarrow> ('s, 'f) surroundings \<Rightarrow> Host \<Rightarrow> 'm Cli_scheme \<Rightarrow> PutArgs \<Rightarrow> 's \<Rightarrow> (PutRow cli \<times> 's) option" where
  "run_put be env h cli args s =
     seq_opt (local_file_to_send h (pa_local_path args), s) (\<lambda>(local_filename, total_size) s.
     then_opt (open_storage be cli True s) (\<lambda>sto s.
     seq_opt (RemotePath_parse (pa_remote_path args), s) (\<lambda>remote_path s.
     then_opt (resolve_upload_target be cli sto remote_path local_filename s) (\<lambda>target s.
     seq_opt (clear_existing be cli ''remote file already exists; pass --replace to delete it first'' (pa_replace args) None
         (ut_existing target) s) (\<lambda>_ s.
     seq_opt (io_cli CliErrorKind.Other ''open local file'' (fs_read h (pa_local_path args)), s) (\<lambda>data s.
     seq_opt (put_upload be cli sto target data total_size s) (\<lambda>handle s.
     then_opt (if pa_verify args then verify_remote_matches_local be env h cli handle (pa_local_path args) total_size s
               else Some (Ok (), s)) (\<lambda>_ s.
       Some (Ok \<lparr>pt_remote_path = rp_raw remote_path, pt_filename = ut_filename target, pt_handle = handle, pt_bytes = total_size,
         pt_replaced = (ut_existing target \<noteq> None), pt_verified = pa_verify args\<rparr>, s)))))))))"

end
