(* ===== verification/Cli_Get.thy ===== *)
theory Cli_Get
  imports Cli_Commands Host_Changes
begin

text \<open>
  \<open>mtp-rs get\<close> (\<open>commands/get.rs\<close>): the download of a file through a temporary sibling, and of a folder by a plan that is made and
  checked before anything is written. The state is the files of this machine and the device.
\<close>

section \<open>The surroundings\<close>

text \<open>
  Whether this is Windows; the case conversions of Unicode; the process id and the clock, as the nanoseconds it shows when asked for the
  \<open>i\<close>-th time; and whether the disk has room for a file of a length.
\<close>

record get_env =
  ge_windows :: bool
  ge_lower :: "rstr \<Rightarrow> rstr"
  ge_upper :: "rstr \<Rightarrow> rstr"
  ge_pid :: nat
  ge_nanos :: "nat \<Rightarrow> nat"
  ge_room :: "nat \<Rightarrow> bool"

definition beside :: "Host \<Rightarrow> ('a \<times> 's) option \<Rightarrow> ('a \<times> Host \<times> 's) option" where
  "beside h m = map_option (\<lambda>(r, s). (r, h, s)) m"

definition locally :: "CliErrorKind \<Rightarrow> string \<Rightarrow> 's \<Rightarrow> 'a io \<times> Host \<Rightarrow> 'a cli \<times> Host \<times> 's" where
  "locally kind message s = (\<lambda>(r, h). (io_cli kind message r, h, s))"

section \<open>More of the host's files\<close>

fun try_exists :: "node io \<Rightarrow> bool io" where
  "try_exists (Ok n) = Ok True"
| "try_exists (Err e) = (if e = io_error.NotFound then Ok False else Err e)"
| "try_exists Panic = Panic"
| "try_exists Dropped = Dropped"

definition fs_create_new :: "PathBuf \<Rightarrow> Host \<Rightarrow> unit io \<times> Host" where
  "fs_create_new p h = (if is_Ok (canonicalize h p) then (Err OtherError, h) else fs_write p [] h)"

definition fs_remove_dir :: "PathBuf \<Rightarrow> Host \<Rightarrow> unit io \<times> Host" where
  "fs_remove_dir p h =
     (case entry_of h p of
        Ok q \<Rightarrow>
          if node_at h q = None then (Err io_error.NotFound, h)
          else if dir_at h q \<and> empty_dir h q then (Ok (), touch (butlast q) (drop_tree q h))
          else (Err OtherError, h)
      | Err e \<Rightarrow> (Err e, h)
      | _ \<Rightarrow> (Err OtherError, h))"

section \<open>Names\<close>

definition ascii_upper :: "nat \<Rightarrow> nat" where
  "ascii_upper c = (if 97 \<le> c \<and> c \<le> 122 then c - 32 else c)"

definition strip_prefix :: "rstr \<Rightarrow> rstr \<Rightarrow> rstr option" where
  "strip_prefix pat s = (if prefix pat s then Some (drop (length pat) s) else None)"

definition reserved_on_windows :: "rstr \<Rightarrow> bool" where
  "reserved_on_windows name \<longleftrightarrow>
     (let stem = map ascii_upper (takeWhile (\<lambda>c. c \<noteq> 46) name);
          port = (case strip_prefix (str ''COM'') stem of Some n \<Rightarrow> Some n | None \<Rightarrow> strip_prefix (str ''LPT'') stem)
      in stem \<in> {str ''CON'', str ''PRN'', str ''AUX'', str ''NUL''}
         \<or> (case port of Some n \<Rightarrow> length (as_bytes n) = 1 \<and> 48 \<le> hd n \<and> hd n \<le> 57 \<or> n \<in> {[0xB9], [0xB2], [0xB3]} | None \<Rightarrow> False))"

definition local_name_problem :: "rstr \<Rightarrow> bool \<Rightarrow> string option" where
  "local_name_problem name windows =
     (if name = [] then Some ''empty''
      else if name = str ''.'' \<or> name = str ''..'' then Some ''. and .. are not names''
      else if 47 \<in> set name \<or> 92 \<in> set name then Some ''contains a path separator''
      else if 0 \<in> set name then Some ''contains a null byte''
      else if \<not> windows then None
      else if list_ex (\<lambda>c. c \<in> set (str ''<>:|?*'') \<or> c = 34 \<or> c < 0x20) name
      then Some ''contains a character Windows does not allow''
      else if last name = 46 \<or> last name = 32 then Some ''ends with a dot or space, which Windows drops''
      else if reserved_on_windows name then Some ''a reserved device name on Windows''
      else None)"

section \<open>The plan of a folder\<close>

record GetSkippedRow =
  gs_remote_folder :: rstr
  gs_handle :: MtpObjectHandle
  gs_error :: MtpError

record PlannedFolder =
  pd_remote_path :: rstr
  pd_local_path :: PathBuf

record PlannedFile =
  pf_handle :: MtpObjectHandle
  pf_remote_path :: rstr
  pf_local_path :: PathBuf

record FolderPlan =
  fp_folders :: "PlannedFolder list"
  fp_files :: "PlannedFile list"
  fp_skipped :: "GetSkippedRow list"

definition FolderPlan_default :: FolderPlan where
  "FolderPlan_default = \<lparr>fp_folders = [], fp_files = [], fp_skipped = []\<rparr>"

definition plan_entries :: "FolderPlan \<Rightarrow> (rstr \<times> PathBuf) list" where
  "plan_entries plan =
     map (\<lambda>d. (pd_remote_path d, pd_local_path d)) (fp_folders plan) @ map (\<lambda>f. (pf_remote_path f, pf_local_path f)) (fp_files plan)"

text \<open>A folder to visit, with its path there and here. The folders to visit are a stack with its top at the head.\<close>

type_synonym visit = "MtpObjectHandle option \<times> rstr \<times> PathBuf"

fun plan_objects ::
  "bool \<Rightarrow> rstr \<Rightarrow> PathBuf \<Rightarrow> MtpObjectInfo list \<Rightarrow> visit list \<Rightarrow> FolderPlan \<Rightarrow> (visit list \<times> FolderPlan) cli" where
  "plan_objects windows remote_folder local_folder [] to_visit plan = Ok (to_visit, plan)"
| "plan_objects windows remote_folder local_folder (obj # objs) to_visit plan =
     (if local_name_problem (mo_filename obj) windows \<noteq> None
      then Err (remote_error ''remote object has a name that cannot be used locally'')
      else
        let remote_path = (if remote_folder = str ''/'' then str ''/'' @ mo_filename obj
              else remote_folder @ str ''/'' @ mo_filename obj);
            local_path = path_join local_folder (components (mo_filename obj))
        in if mtp_is_folder obj
           then plan_objects windows remote_folder local_folder objs ((Some (mo_handle obj), remote_path, local_path) # to_visit)
                  (plan\<lparr>fp_folders := fp_folders plan @ [\<lparr>pd_remote_path = remote_path, pd_local_path = local_path\<rparr>]\<rparr>)
           else plan_objects windows remote_folder local_folder objs to_visit
                  (plan\<lparr>fp_files := fp_files plan @
                     [\<lparr>pf_handle = mo_handle obj, pf_remote_path = remote_path, pf_local_path = local_path\<rparr>]\<rparr>))"

definition skipped_row :: "rstr \<Rightarrow> SkippedObject \<Rightarrow> GetSkippedRow" where
  "skipped_row remote_folder sk = \<lparr>gs_remote_folder = remote_folder, gs_handle = sk_handle sk, gs_error = sk_error sk\<rparr>"

partial_function (option) walk_folder ::
  "('s, 'b, 'l) MtpBackend \<Rightarrow> 'm cli_mode_scheme \<Rightarrow> bool \<Rightarrow> Storage \<Rightarrow> visit list \<Rightarrow> FolderPlan \<Rightarrow> 's \<Rightarrow> (FolderPlan cli \<times> 's) option" where
  "walk_folder be mode windows sto to_visit plan s =
     (case to_visit of
        [] \<Rightarrow> Some (Ok plan, s)
      | (parent, remote_folder, local_folder) # rest \<Rightarrow>
          then_opt (on_cli_opt mode (collect_objects be sto parent s)) (\<lambda>collection s.
          seq_opt (plan_objects windows remote_folder local_folder (oc_objects collection) rest
              (plan\<lparr>fp_skipped := fp_skipped plan @ map (skipped_row remote_folder) (oc_skipped collection)\<rparr>), s) (\<lambda>(rest, plan) s.
            walk_folder be mode windows sto rest plan s)))"

definition plan_folder ::
  "('s, 'b, 'l) MtpBackend \<Rightarrow> 'm cli_mode_scheme \<Rightarrow> bool \<Rightarrow> Storage \<Rightarrow> MtpObjectHandle option \<Rightarrow> rstr \<Rightarrow> PathBuf \<Rightarrow> 's \<Rightarrow>
     (FolderPlan cli \<times> 's) option" where
  "plan_folder be mode windows sto root remote_root local_root =
     walk_folder be mode windows sto [(root, remote_root, local_root)] FolderPlan_default"

section \<open>Collisions\<close>

definition collision_key :: "(rstr \<Rightarrow> rstr) \<Rightarrow> bool \<Rightarrow> PathBuf \<Rightarrow> PathBuf option \<times> rstr" where
  "collision_key lower case_insensitive local_path =
     (let name = (case file_name local_path of Some n \<Rightarrow> n | None \<Rightarrow> []) in
      (path_parent local_path, if case_insensitive then lower name else name))"

fun collision_in ::
  "(rstr \<Rightarrow> rstr) \<Rightarrow> bool \<Rightarrow> (PathBuf option \<times> rstr \<Rightarrow> rstr option) \<Rightarrow> (rstr \<times> PathBuf) list \<Rightarrow> (rstr \<times> rstr) option" where
  "collision_in lower case_insensitive seen [] = None"
| "collision_in lower case_insensitive seen ((remote_path, local_path) # entries) =
     (let key = collision_key lower case_insensitive local_path in
      case seen key of
        Some first \<Rightarrow> Some (first, remote_path)
      | None \<Rightarrow> collision_in lower case_insensitive (seen(key \<mapsto> remote_path)) entries)"

definition find_collision :: "(rstr \<Rightarrow> rstr) \<Rightarrow> (rstr \<times> PathBuf) list \<Rightarrow> bool \<Rightarrow> (rstr \<times> rstr) option" where
  "find_collision lower entries case_insensitive = collision_in lower case_insensitive Map.empty entries"

text \<open>The probe for the case of names: a file is made under a name in small letters and looked for in capitals.\<close>

definition case_probe :: "get_env \<Rightarrow> nat \<Rightarrow> rstr" where
  "case_probe ge i = str ''.mtp-rs-case-probe-'' @ decimal (ge_nanos ge i) @ str ''-'' @ decimal (ge_pid ge)"

definition is_case_insensitive :: "get_env \<Rightarrow> nat \<Rightarrow> PathBuf \<Rightarrow> Host \<Rightarrow> bool io \<times> Host" where
  "is_case_insensitive ge i dir h =
     (let probe = case_probe ge i; lowered = path_join dir (components probe) in
      seq_ok (fs_create_new lowered h) (\<lambda>_ h.
        let upper_exists = try_exists (metadata h (path_join dir (components (ge_upper ge probe)))) in
        seq_ok (fs_remove_file lowered h) (\<lambda>_ h. (upper_exists, h))))"

definition check_no_collisions :: "get_env \<Rightarrow> nat \<Rightarrow> FolderPlan \<Rightarrow> PathBuf \<Rightarrow> Host \<times> 's \<Rightarrow> unit cli \<times> Host \<times> 's" where
  "check_no_collisions ge i plan local_root = (\<lambda>(h, s).
     seq_ok (locally CliErrorKind.Other ''check local folder'' s (is_case_insensitive ge i local_root h)) (\<lambda>case_insensitive hs.
       (case find_collision (ge_lower ge) (plan_entries plan) case_insensitive of
          Some _ \<Rightarrow> Err (remote_error ''{first} and {second} would be saved to the same local path; nothing was downloaded'')
        | None \<Rightarrow> Ok (), hs)))"

section \<open>Downloading a file\<close>

definition create_local_folder :: "PathBuf \<Rightarrow> Host \<times> 's \<Rightarrow> unit cli \<times> Host \<times> 's" where
  "create_local_folder path = (\<lambda>(h, s). locally CliErrorKind.Other ''create local folder'' s (create_dir_all path h))"

definition temp_download_path :: "get_env \<Rightarrow> nat \<Rightarrow> PathBuf \<Rightarrow> PathBuf" where
  "temp_download_path ge i destination =
     (let parent = (case path_parent destination of Some p \<Rightarrow> p | None \<Rightarrow> [CurDir]);
          name = (case file_name destination of Some n \<Rightarrow> n | None \<Rightarrow> str ''download'')
      in path_join parent (components
           (str ''.'' @ name @ str ''.mtp-rs-'' @ decimal (ge_nanos ge i) @ str ''-'' @ decimal (ge_pid ge) @ str ''.tmp'')))"

text \<open>The chunks go to the temporary file as they arrive; \<open>data\<close> is what it holds.\<close>

partial_function (option) download_chunks ::
  "('s, 'b, 'l) MtpBackend \<Rightarrow> ('s, 'f) surroundings \<Rightarrow> get_env \<Rightarrow> 'm cli_mode_scheme \<Rightarrow> PathBuf \<Rightarrow> bytes \<Rightarrow> ('b, 'f) FileDownload \<Rightarrow>
     Host \<Rightarrow> 's \<Rightarrow> (u64 cli \<times> Host \<times> 's) option" where
  "download_chunks be env ge mode temp_path data d h s =
     Option.bind (download_next_chunk be env d s) (\<lambda>(item, d, s).
       case item of
         Exhausted \<Rightarrow> Some (Ok (bytes_received d), h, drop_current be d s)
       | Yielded r \<Rightarrow>
           (case r of
              Ok chunk \<Rightarrow>
                if ge_room ge (length (data @ chunk))
                then
                  (case fs_write temp_path (data @ chunk) h of
                     (Ok u, h) \<Rightarrow> download_chunks be env ge mode temp_path (data @ chunk) d h s
                   | (_, h) \<Rightarrow> Some (Err (CliError_new CliErrorKind.Transfer ''write local file''), h, drop_current be d s))
                else Some (Err (CliError_new CliErrorKind.Transfer ''write local file''), h, drop_current be d s)
            | Err e \<Rightarrow> Some (cli_err mode (Err e), h, drop_current be d s)
            | Panic \<Rightarrow> Some (Panic, h, drop_current be d s)
            | Dropped \<Rightarrow> Some (Dropped, h, drop_current be d s)))"

text \<open>A failed transfer takes its temporary file with it; a finished one replaces the destination.\<close>

definition finish_download :: "PathBuf \<Rightarrow> PathBuf \<Rightarrow> bool \<Rightarrow> u64 cli \<Rightarrow> Host \<times> 's \<Rightarrow> u64 cli \<times> Host \<times> 's" where
  "finish_download temp_path local_path destination_exists result = (\<lambda>(h, s).
     case result of
       Ok received \<Rightarrow>
         seq_ok (if destination_exists then locally CliErrorKind.Other ''replace local file'' s (fs_remove_file local_path h)
                 else (Ok (), h, s)) (\<lambda>_ (h, s).
         seq_ok (locally CliErrorKind.Other ''replace local file'' s (fs_rename temp_path local_path h)) (\<lambda>_ hs.
           (Ok received, hs)))
     | Err e \<Rightarrow> (Err e, snd (fs_remove_file temp_path h), s)
     | Panic \<Rightarrow> (Panic, h, s)
     | Dropped \<Rightarrow> (Dropped, h, s))"

text \<open>Whether the destination exists; a directory is refused, and so is a file without \<open>--replace\<close>.\<close>

definition destination_state :: "bool \<Rightarrow> PathBuf \<Rightarrow> Host \<Rightarrow> bool cli" where
  "destination_state replace local_path h =
     bind_ok
       (case metadata h local_path of
          Ok n \<Rightarrow> if is_DirNode n then Err (CliError_new CliErrorKind.Other ''local path is a directory'') else Ok True
        | r \<Rightarrow> io_cli CliErrorKind.Other ''check local path'' (try_exists r))
       (\<lambda>destination_exists.
         if destination_exists \<and> \<not> replace then Err (CliError_new CliErrorKind.Other ''local file already exists; pass --replace'')
         else Ok destination_exists)"

definition download_file ::
  "('s, 'b, 'l) MtpBackend \<Rightarrow> ('s, 'f) surroundings \<Rightarrow> get_env \<Rightarrow> 'm cli_mode_scheme \<Rightarrow> nat \<Rightarrow> MtpObjectHandle \<Rightarrow> PathBuf \<Rightarrow> bool \<Rightarrow>
     Host \<times> 's \<Rightarrow> (u64 cli \<times> Host \<times> 's) option" where
  "download_file be env ge mode i handle local_path replace = (\<lambda>(h, s).
     seq_opt (destination_state replace local_path h, h, s) (\<lambda>destination_exists (h, s).
       let temp_path = temp_download_path ge i local_path in
       seq_opt (locally CliErrorKind.Other ''create local file'' s (fs_write temp_path [] h)) (\<lambda>_ (h, s).
         Option.bind
           (then_opt (beside h (on_cli_opt mode (storage_download be env handle ByteRange.Full s))) (\<lambda>d (h, s).
              download_chunks be env ge mode temp_path [] d h s))
           (\<lambda>(result, hs). Some (finish_download temp_path local_path destination_exists result hs)))))"

section \<open>The command\<close>

record GetRow =
  gr_remote_path :: rstr
  gr_local_path :: PathBuf
  gr_filename :: rstr
  gr_handle :: MtpObjectHandle
  gr_bytes :: u64

record GetFolderRow =
  gf_remote_path :: rstr
  gf_local_path :: PathBuf
  gf_handle :: "MtpObjectHandle option"
  gf_files :: usize
  gf_folders :: usize
  gf_bytes :: u64
  gf_skipped :: "GetSkippedRow list"

datatype GetReport = FileReport GetRow | FolderReport GetFolderRow

record GetArgs =
  ga_remote_path :: rstr
  ga_local_path :: PathBuf
  ga_replace :: bool

definition run_file ::
  "('s, 'b, 'l) MtpBackend \<Rightarrow> ('s, 'f) surroundings \<Rightarrow> get_env \<Rightarrow> 'm cli_mode_scheme \<Rightarrow> GetArgs \<Rightarrow> RemotePath \<Rightarrow> MtpObjectInfo \<Rightarrow>
     Host \<times> 's \<Rightarrow> (GetReport cli \<times> Host \<times> 's) option" where
  "run_file be env ge mode args path obj hs =
     then_opt (download_file be env ge mode 0 (mo_handle obj) (ga_local_path args) (ga_replace args) hs) (\<lambda>received hs.
       Some (Ok (FileReport \<lparr>gr_remote_path = rp_raw path, gr_local_path = ga_local_path args, gr_filename = mo_filename obj,
         gr_handle = mo_handle obj, gr_bytes = received\<rparr>), hs))"

fun create_folders :: "PlannedFolder list \<Rightarrow> Host \<times> 's \<Rightarrow> unit cli \<times> Host \<times> 's" where
  "create_folders [] hs = (Ok (), hs)"
| "create_folders (d # ds) hs = seq_ok (create_local_folder (pd_local_path d) hs) (\<lambda>_. create_folders ds)"

fun download_files ::
  "('s, 'b, 'l) MtpBackend \<Rightarrow> ('s, 'f) surroundings \<Rightarrow> get_env \<Rightarrow> 'm cli_mode_scheme \<Rightarrow> bool \<Rightarrow> nat \<Rightarrow> u64 \<Rightarrow> PlannedFile list \<Rightarrow>
     Host \<times> 's \<Rightarrow> (u64 cli \<times> Host \<times> 's) option" where
  "download_files be env ge mode replace i received [] hs = Some (Ok received, hs)"
| "download_files be env ge mode replace i received (f # fs) hs =
     then_opt (download_file be env ge mode i (pf_handle f) (pf_local_path f) replace hs) (\<lambda>n.
       download_files be env ge mode replace (Suc i) (received + n) fs)"

text \<open>Whether the root exists already; a file there is refused.\<close>

definition local_root_exists :: "PathBuf \<Rightarrow> Host \<Rightarrow> bool cli" where
  "local_root_exists local_path h =
     (case metadata h local_path of
        Ok n \<Rightarrow> if is_DirNode n then Ok True
          else Err (CliError_new CliErrorKind.Other ''remote path is a folder but the local path is not a directory'')
      | _ \<Rightarrow> Ok False)"

text \<open>A root folder made for the check goes again when the check fails.\<close>

fun undo_root :: "bool \<Rightarrow> PathBuf \<Rightarrow> unit cli \<times> Host \<times> 's \<Rightarrow> unit cli \<times> Host \<times> 's" where
  "undo_root root_existed local_path (Err e, h, s) =
     (Err e, if root_existed then h else snd (fs_remove_dir local_path h), s)"
| "undo_root root_existed local_path (r, h, s) = (r, h, s)"

definition remote_root_of :: "RemotePath \<Rightarrow> rstr" where
  "remote_root_of path = (if is_root path then str ''/'' else 47 # join_slash (rp_components path))"

definition run_directory ::
  "('s, 'b, 'l) MtpBackend \<Rightarrow> ('s, 'f) surroundings \<Rightarrow> get_env \<Rightarrow> 'm cli_mode_scheme \<Rightarrow> Storage \<Rightarrow> GetArgs \<Rightarrow> RemotePath \<Rightarrow>
     MtpObjectHandle option \<Rightarrow> Host \<times> 's \<Rightarrow> (GetReport cli \<times> Host \<times> 's) option" where
  "run_directory be env ge mode sto args path folder = (\<lambda>(h, s).
     let root = ga_local_path args in
     seq_opt (local_root_exists root h, h, s) (\<lambda>root_existed (h, s).
     then_opt (beside h (plan_folder be mode (ge_windows ge) sto folder (remote_root_of path) root s)) (\<lambda>plan hs.
     seq_opt (create_local_folder root hs) (\<lambda>_ hs.
     seq_opt (undo_root root_existed root (check_no_collisions ge 0 plan root hs)) (\<lambda>_ hs.
     seq_opt (create_folders (fp_folders plan) hs) (\<lambda>_ hs.
     then_opt (download_files be env ge mode (ga_replace args) 1 0 (fp_files plan) hs) (\<lambda>received hs.
       Some (Ok (FolderReport \<lparr>gf_remote_path = rp_raw path, gf_local_path = root, gf_handle = folder,
         gf_files = length (fp_files plan), gf_folders = length (fp_folders plan), gf_bytes = received,
         gf_skipped = fp_skipped plan\<rparr>), hs))))))))"

definition run_get ::
  "('s, 'b, 'l) MtpBackend \<Rightarrow> ('s, 'f) surroundings \<Rightarrow> get_env \<Rightarrow> 'm Cli_scheme \<Rightarrow> GetArgs \<Rightarrow> Host \<times> 's \<Rightarrow>
     (GetReport cli \<times> Host \<times> 's) option" where
  "run_get be env ge cli args = (\<lambda>(h, s).
     seq_opt (io_cli CliErrorKind.Other ''check local path'' (try_exists (metadata h (ga_local_path args))), h, s)
       (\<lambda>destination_exists (h, s).
       if destination_exists \<and> \<not> ga_replace args
       then Some (Err (CliError_new CliErrorKind.Other ''local path already exists; pass --replace to overwrite it''), h, s)
       else
         then_opt (beside h (open_storage be cli False s)) (\<lambda>sto (h, s).
         seq_opt (RemotePath_parse (ga_remote_path args), h, s) (\<lambda>path (h, s).
         then_opt (beside h (resolve_existing be cli sto path s)) (\<lambda>e hs.
           case e of
             RemoteRoot \<Rightarrow> run_directory be env ge cli sto args path None hs
           | RemoteObject obj \<Rightarrow>
               if mtp_is_folder obj then run_directory be env ge cli sto args path (Some (mo_handle obj)) hs
               else run_file be env ge cli args path obj hs)))))"

end
