(* ===== verification/Cli_Local.thy ===== *)
theory Cli_Local
  imports Cli_Get
begin

text \<open>
  What \<open>get\<close> does to the files of this machine, whatever names and bytes the device sends: it writes below its destination only, a
  download that fails leaves everything as it was, and one that succeeds leaves exactly what the device sent.
\<close>

section \<open>Names that stay where they are put\<close>

lemma components_name:
  assumes "s \<noteq> []" "47 \<notin> set s" "s \<noteq> str ''.''" "s \<noteq> str ''..''"
  shows "components s = [Normal s]"
proof -
  have "hd s \<noteq> 47" using assms(1,2) by (cases s) auto
  then show ?thesis using assms by (simp add: components_def Let_def split_on_none component_of_def)
qed

lemma usable_name: "local_name_problem name windows = None \<Longrightarrow> components name = [Normal name] \<and> 47 \<notin> set name"
  by (auto simp: local_name_problem_def components_name split: if_splits)

lemma set_decimal: "set (decimal n) \<subseteq> {48..57}"
proof (induction n rule: decimal.induct)
  case (1 n)
  then show ?case by (subst decimal.simps) auto
qed

lemma no_slash_decimal [simp]: "47 \<notin> set (decimal n)"
  using set_decimal [of n] by auto

lemma probe_name: "components (case_probe ge i) = [Normal (case_probe ge i)]"
  by (rule components_name) (auto simp: case_probe_def str_def)

definition temp_name :: "get_env \<Rightarrow> nat \<Rightarrow> rstr \<Rightarrow> rstr" where
  "temp_name ge i name = str ''.'' @ name @ str ''.mtp-rs-'' @ decimal (ge_nanos ge i) @ str ''-'' @ decimal (ge_pid ge) @ str ''.tmp''"

lemma temp_name_component: "47 \<notin> set name \<Longrightarrow> components (temp_name ge i name) = [Normal (temp_name ge i name)]"
  by (rule components_name) (auto simp: temp_name_def str_def)

lemma path_join_name: "path_join p [Normal n] = p @ [Normal n]"
  by (simp add: path_join_def)

lemma temp_of_file:
  assumes "47 \<notin> set n"
  shows "temp_download_path ge i (p @ [Normal n]) = p @ [Normal (temp_name ge i n)]"
  using temp_name_component [OF assms, of ge i]
  by (simp add: temp_download_path_def path_parent_def file_name_def path_join_name flip: temp_name_def)

section \<open>Everything planned lies below the destination\<close>

definition below :: "PathBuf \<Rightarrow> PathBuf \<Rightarrow> bool" where
  "below root p \<longleftrightarrow> (\<exists>names n. p = root @ map Normal (names @ [n]) \<and> (\<forall>m \<in> set (names @ [n]). 47 \<notin> set m))"

definition at_or_below :: "PathBuf \<Rightarrow> PathBuf \<Rightarrow> bool" where
  "at_or_below root p \<longleftrightarrow> p = root \<or> below root p"

definition plan_below :: "PathBuf \<Rightarrow> FolderPlan \<Rightarrow> bool" where
  "plan_below root plan \<longleftrightarrow>
     (\<forall>d \<in> set (fp_folders plan). below root (pd_local_path d)) \<and> (\<forall>f \<in> set (fp_files plan). below root (pf_local_path f))"

definition visits_below :: "PathBuf \<Rightarrow> visit list \<Rightarrow> bool" where
  "visits_below root visits \<longleftrightarrow> (\<forall>(parent, remote, p) \<in> set visits. at_or_below root p)"

lemma below_child:
  assumes "at_or_below root p" "47 \<notin> set n"
  shows "below root (p @ [Normal n])"
  using assms(1) unfolding at_or_below_def
proof
  assume "p = root"
  then show ?thesis using assms(2) unfolding below_def by (intro exI [of _ "[]"] exI [of _ n]) simp
next
  assume "below root p"
  then obtain names m where *: "p = root @ map Normal (names @ [m])" "\<forall>x \<in> set (names @ [m]). 47 \<notin> set x"
    unfolding below_def by metis
  then show ?thesis using assms(2) unfolding below_def by (intro exI [of _ "names @ [m]"] exI [of _ n]) auto
qed

lemma plan_objects_below:
  "plan_objects windows remote p objs visits plan = Ok (visits', plan') \<Longrightarrow> at_or_below root p \<Longrightarrow> visits_below root visits \<Longrightarrow>
     plan_below root plan \<Longrightarrow> visits_below root visits' \<and> plan_below root plan'"
proof (induction windows remote p objs visits plan rule: plan_objects.induct)
  case (2 windows remote p obj objs visits plan)
  let ?name = "mo_filename obj"
  from 2(3) have usable: "local_name_problem ?name windows = None" by (auto split: if_splits)
  then have join: "path_join p (components ?name) = p @ [Normal ?name]" and child: "below root (p @ [Normal ?name])"
    using usable_name [OF usable] below_child [OF 2(4)] by (auto simp: path_join_name)
  show ?case
  proof (cases "mtp_is_folder obj")
    case True
    show ?thesis
      by (rule 2(1) [OF _ refl refl True])
        (use 2(3-6) usable join child True in \<open>auto simp: Let_def visits_below_def plan_below_def at_or_below_def\<close>)
  next
    case False
    show ?thesis
      by (rule 2(2) [OF _ refl refl False])
        (use 2(3-6) usable join child False in \<open>auto simp: Let_def visits_below_def plan_below_def\<close>)
  qed
qed auto

lemma walk_folder_below:
  assumes "walk_folder be mode windows sto visits plan s = Some (Ok plan', s')" "visits_below root visits" "plan_below root plan"
  shows "plan_below root plan'"
proof -
  have "walk_folder be mode windows sto visits plan s = Some y \<Longrightarrow> visits_below root visits \<longrightarrow> plan_below root plan \<longrightarrow>
      (\<forall>p s'. y = (Ok p, s') \<longrightarrow> plan_below root p)" for y
  proof (erule walk_folder.raw_induct [rotated], goal_cases)
    case (1 loop be mode windows sto visits plan s y)
    show ?case
    proof (intro impI allI)
      fix p s' assume start: "visits_below root visits" "plan_below root plan" and y: "y = (Ok p, s')"
      show "plan_below root p"
      proof (cases visits)
        case Nil
        then show ?thesis using 1(2) y start by simp
      next
        case (Cons v rest)
        obtain parent remote q where v: "v = (parent, remote, q)" by (cases v)
        let ?plan = "\<lambda>c :: ObjectCollection. plan\<lparr>fp_skipped := fp_skipped plan @ map (skipped_row remote) (oc_skipped c)\<rparr>"
        from 1(2) y Cons v obtain c s1 visits' plan' where c: "plan_objects windows remote q (oc_objects c) rest (?plan c) = Ok (visits', plan')"
          and later: "loop be mode windows sto visits' plan' s1 = Some (Ok p, s')"
          by (auto simp: then_opt_def seq_opt_Ok bind_eq_Some_conv split: prod.splits)
        have "at_or_below root q" "visits_below root rest" "plan_below root (?plan c)"
          using start Cons v by (auto simp: visits_below_def plan_below_def)
        from plan_objects_below [OF c this] 1(1) [OF later] show ?thesis by simp
      qed
    qed
  qed
  then show ?thesis using assms by blast
qed

text \<open>The whole plan, from the root of the folder.\<close>

lemma plan_folder_below:
  assumes "plan_folder be mode windows sto folder remote root s = Some (Ok plan, s')"
  shows "plan_below root plan"
  by (rule walk_folder_below [OF assms [unfolded plan_folder_def]])
    (simp_all add: visits_below_def plan_below_def FolderPlan_default_def at_or_below_def)

section \<open>The footprint of the command\<close>

definition stays :: "PathBuf \<Rightarrow> Host \<Rightarrow> Host \<Rightarrow> bool" where
  "stays root h h' \<longleftrightarrow> changes_within {spot h root} h h'"

lemma stays_refl [simp]: "stays root h h"
  by (simp add: stays_def)

lemma stays_cwd: "stays root h h' \<Longrightarrow> host_cwd h' = host_cwd h"
  by (simp add: stays_def changes_within_def)

lemma stays_trans: "stays root h h' \<Longrightarrow> stays root h' h'' \<Longrightarrow> stays root h h''"
  using stays_cwd [of root h h'] unfolding stays_def by (auto intro: changes_trans)

lemma stays_below: "changes_within {spot h (root @ map Normal names)} h h' \<Longrightarrow> stays root h h'"
  unfolding stays_def by (rule changes_mono) auto

lemma mkdir_below:
  assumes "fs_mkdir (root @ map Normal names) h = (r, h')"
  shows "stays root h h' \<and> grows h h'"
  using fs_mkdir_changes [OF assms] stays_below by blast

lemma create_dir_all_below:
  assumes "path_is_dir h root" "create_dir_all (root @ map Normal names) h = (r, h')"
  shows "stays root h h' \<and> grows h h'"
  using assms(2)
proof (induction names arbitrary: r h' rule: rev_induct)
  case Nil
  have "path_exists h root" using assms(1) by (auto simp: path_is_dir_iff path_exists_iff)
  then have "snd (create_dir_all root h) = h" by (rule create_dir_all_there)
  with Nil show ?case by simp
next
  case (snoc n names)
  let ?p = "root @ map Normal (names @ [n])" and ?q = "root @ map Normal names"
  have parent: "?p \<noteq> []" "path_parent ?p = Some ?q" by (simp_all add: path_parent_def butlast_append)
  obtain r1 h1 where m: "fs_mkdir ?p h = (r1, h1)" by fastforce
  obtain r2 h2 where c: "create_dir_all ?q h = (r2, h2)" by fastforce
  obtain r3 h3 where m3: "fs_mkdir ?p h2 = (r3, h3)" by fastforce
  have IH: "stays root h h2 \<and> grows h h2" by (rule snoc.IH [OF c])
  have one: "stays root h h1 \<and> grows h h1" by (rule mkdir_below [OF m])
  have two: "stays root h h3 \<and> grows h h3"
    using mkdir_below [OF m3] IH stays_trans grows_trans by blast
  have "h' = h \<or> h' = h1 \<or> h' = h2 \<or> h' = h3"
    using snoc.prems m m3 parent
    by (subst (asm) create_dir_all.simps) (cases r1; cases r2; cases r3; simp add: c split: if_splits)
  then show ?case using one two IH by auto
qed

lemma create_local_folder_stays:
  assumes "path_is_dir h root" "create_local_folder (root @ map Normal names) (h, s) = (r, h', s')"
  shows "stays root h h' \<and> grows h h'"
  using create_dir_all_below [OF assms(1), of names "fst (create_dir_all (root @ map Normal names) h)" h'] assms(2)
  by (cases "create_dir_all (root @ map Normal names) h") (simp add: create_local_folder_def locally_def)

lemma create_folders_stay:
  assumes "create_folders ds (h, s) = (r, h', s')" "path_is_dir h root" "\<forall>d \<in> set ds. below root (pd_local_path d)"
  shows "stays root h h'"
  using assms
proof (induction ds arbitrary: h s)
  case (Cons d ds)
  obtain names n where d: "pd_local_path d = root @ map Normal (names @ [n])" using Cons.prems(3) by (auto simp: below_def)
  obtain r1 h1 s1 where c: "create_local_folder (pd_local_path d) (h, s) = (r1, h1, s1)" by (metis prod_cases3)
  have one: "stays root h h1 \<and> grows h h1"
    by (rule create_local_folder_stays [OF Cons.prems(2) c [unfolded d]])
  then have "path_is_dir h1 root" using Cons.prems(2) path_is_dir_grows by blast
  then show ?case using Cons c one stays_trans by (cases r1) auto
qed simp

text \<open>A download touches its destination and the temporary file beside it.\<close>

lemma fs_write_within: "fs_write p data h = (r, h') \<Longrightarrow> changes_within {spot h p} h h'"
  using fs_write_changes by blast

lemma download_chunks_within:
  assumes "download_chunks be env ge mode temp data d h s = Some (r, h', s')"
  shows "changes_within {spot h temp} h h'"
proof -
  have "download_chunks be env ge mode temp data d h s = Some y \<Longrightarrow> changes_within {spot h temp} h (fst (snd y))" for y
  proof (erule download_chunks.raw_induct [rotated], goal_cases)
    case (1 loop be env ge mode temp data d h s y)
    from 1(2) obtain item d1 s1 where n: "download_next_chunk be env d s = Some (item, d1, s1)" by (auto split: Option.bind_splits)
    show ?case
    proof (cases "\<exists>chunk. item = Yielded (Ok chunk) \<and> ge_room ge (length (data @ chunk))")
      case False
      then have "fst (snd y) = h" using 1(2) n by (cases item) (auto split: outcome.splits if_splits)
      then show ?thesis by simp
    next
      case True
      then obtain chunk where item: "item = Yielded (Ok chunk)" "ge_room ge (length (data @ chunk))" by blast
      obtain w h1 where w: "fs_write temp (data @ chunk) h = (w, h1)" by fastforce
      note step = fs_write_within [OF w]
      then have cwd: "host_cwd h1 = host_cwd h" by (simp add: changes_within_def)
      show ?thesis
      proof (cases "is_Ok w")
        case True
        then have "loop be env ge mode temp (data @ chunk) d1 h1 s1 = Some y" using 1(2) n item w by (cases w) simp_all
        from 1(1) [OF this] show ?thesis using step cwd changes_trans by metis
      next
        case False
        then have "fst (snd y) = h1" using 1(2) n item w by (cases w) auto
        then show ?thesis using step by simp
      qed
    qed
  qed
  then show ?thesis using assms by fastforce
qed

lemma changes_union: "changes_within A h h' \<Longrightarrow> A \<subseteq> B \<Longrightarrow> changes_within B h h'"
  by (rule changes_mono) auto

lemma finish_within:
  assumes "finish_download temp p there result (h, s) = (r, h', s')"
  shows "changes_within {spot h p, spot h temp} h h'"
proof (cases result)
  case (Err e)
  then have "fs_remove_file temp h = (fst (fs_remove_file temp h), h')" using assms by (auto simp: finish_download_def)
  from changes_union [OF fs_remove_changes(1) [OF this]] show ?thesis by simp
next
  case (Ok n)
  obtain r1 h1 where rm: "fs_remove_file p h = (r1, h1)" by fastforce
  define h2 where "h2 = (if there then h1 else h)"
  obtain r3 h3 where mv: "fs_rename temp p h2 = (r3, h3)" by fastforce
  have one: "changes_within {spot h p, spot h temp} h h2"
    using changes_union [OF fs_remove_changes(1) [OF rm]] by (simp add: h2_def)
  note cwd = changes_cwd [OF one]
  have two: "changes_within {spot h p, spot h temp} h h3"
    by (rule changes_trans [OF one]) (use fs_rename_changes [OF mv] cwd in \<open>simp add: insert_commute\<close>)
  have "h' = h1 \<and> there \<or> h' = h3"
    using assms Ok rm mv
    by (cases there; cases r1; cases r3; simp add: finish_download_def locally_def h2_def)
  then show ?thesis using one two by (auto simp: h2_def)
qed (use assms in \<open>auto simp: finish_download_def\<close>)

text \<open>A download is refused before it touches anything, or goes through the temporary file.\<close>

lemma fs_write_failed: "fs_write p data h = (w, h') \<Longrightarrow> \<not> is_Ok w \<Longrightarrow> h' = h"
  by (auto simp: fs_write_def split: outcome.splits option.splits node.splits)

lemma transfer_cases:
  assumes "then_opt (beside h1 (on_cli_opt mode (storage_download be env handle rng s))) (\<lambda>dl (h, s).
      download_chunks be env ge mode temp [] dl h s) = Some (result, h2, s2)"
  obtains (failed) "h2 = h1" "\<not> is_Ok result"
  | (chunks) dl s1 where "storage_download be env handle rng s = Some (Ok dl, s1)"
    "download_chunks be env ge mode temp [] dl h1 s1 = Some (result, h2, s2)"
proof (cases "storage_download be env handle rng s")
  case (Some q)
  then show thesis using assms failed chunks
    by (cases q; cases "fst q") (auto simp: on_cli_opt_def on_cli_def beside_def then_opt_def)
qed (use assms in \<open>simp add: on_cli_opt_def beside_def then_opt_def\<close>)

lemma download_file_cases:
  assumes "download_file be env ge mode i handle p replace (h, s) = Some (r, h', s')"
  obtains (refused) "h' = h" "\<not> is_Ok r"
  | (started) there h1 result h2 s2 where "destination_state replace p h = Ok there"
    "fs_write (temp_download_path ge i p) [] h = (Ok (), h1)"
    "then_opt (beside h1 (on_cli_opt mode (storage_download be env handle ByteRange.Full s))) (\<lambda>dl (h, s).
      download_chunks be env ge mode (temp_download_path ge i p) [] dl h s) = Some (result, h2, s2)"
    "finish_download (temp_download_path ge i p) p there result (h2, s2) = (r, h', s')"
proof (cases "destination_state replace p h")
  case (Ok there)
  obtain w h1 where w: "fs_write (temp_download_path ge i p) [] h = (w, h1)" by fastforce
  show thesis
  proof (cases "is_Ok w")
    case True
    then obtain u where "w = Ok u" by (auto simp: is_Ok_iff)
    then show thesis using assms w Ok started by (auto simp: download_file_def locally_def bind_eq_Some_conv Let_def)
  next
    case False
    then show thesis using assms w Ok refused fs_write_failed [OF w]
      by (cases w) (auto simp: download_file_def locally_def Let_def)
  qed
qed (use assms refused in \<open>auto simp: download_file_def\<close>)

lemma download_file_within:
  assumes "download_file be env ge mode i handle p replace (h, s) = Some (r, h', s')"
  shows "changes_within {spot h p, spot h (temp_download_path ge i p)} h h'"
  using assms
proof (cases rule: download_file_cases)
  case (started there h1 result h2 s2)
  let ?temp = "temp_download_path ge i p"
  have one: "changes_within {spot h ?temp} h h1" by (rule fs_write_within [OF started(2)])
  note cwd = changes_cwd [OF one]
  from started(3) have two: "changes_within {spot h ?temp} h1 h2"
    by (cases rule: transfer_cases) (use download_chunks_within cwd in fastforce)+
  then have "changes_within {spot h p, spot h ?temp} h2 h'"
    using finish_within [OF started(4)] changes_cwd [OF two] cwd by simp
  moreover have "changes_within {spot h p, spot h ?temp} h h2"
    by (rule changes_union [OF changes_trans [OF one two]]) simp
  ultimately show ?thesis using changes_trans by blast
qed simp

lemma stays_pair:
  assumes "changes_within {spot h (root @ map Normal ns), spot h (root @ map Normal ms)} h h'"
  shows "stays root h h'"
  unfolding stays_def by (rule changes_mono [OF assms]) auto

lemma download_files_stay:
  assumes "download_files be env ge mode replace i received fs (h, s) = Some (r, h', s')"
    "\<forall>f \<in> set fs. below root (pf_local_path f)"
  shows "stays root h h'"
  using assms
proof (induction fs arbitrary: i received h s)
  case (Cons f fs)
  obtain names n where f: "pf_local_path f = (root @ map Normal names) @ [Normal n]" "47 \<notin> set n"
    using Cons.prems(2) by (auto simp: below_def)
  obtain r1 h1 s1 where d: "download_file be env ge mode i (pf_handle f) (pf_local_path f) replace (h, s) = Some (r1, h1, s1)"
    using Cons.prems(1) by (auto simp: then_opt_def bind_eq_Some_conv)
  have "stays root h h1"
    by (rule stays_pair [of _ _ "names @ [n]" "names @ [temp_name ge i n]"])
      (use download_file_within [OF d] f temp_of_file [OF f(2), of ge i "root @ map Normal names"] in simp)
  moreover have "h' = h1 \<or> (\<exists>k. download_files be env ge mode replace (Suc i) k fs (h1, s1) = Some (r, h', s'))"
    using Cons.prems(1) d by (cases r1) (auto simp: then_opt_def)
  ultimately show ?case using Cons.IH Cons.prems(2) stays_trans by fastforce
qed simp

text \<open>A walk to a directory does not pass a place that is none, nor what lies below it.\<close>

lemma outside_same: "changes_within {t} h h' \<Longrightarrow> \<not> prefix t q \<Longrightarrow> same_entry (node_at h q) (node_at h' q)"
  by (simp add: changes_within_def)

lemma outside_dir: "changes_within {t} h h' \<Longrightarrow> \<not> prefix t q \<Longrightarrow> dir_at h' q = dir_at h q \<and> (node_at h' q = None) = (node_at h q = None)"
  using outside_same [of t h h' q] by (auto simp: same_entry_def dir_at_def)

lemma walk_away:
  assumes "changes_within {t} h h'" "\<not> dir_at h t" "t \<noteq> []"
  shows "Host_Fs.walk h cur p = Ok q \<Longrightarrow> dir_at h q \<Longrightarrow> \<not> prefix t cur \<Longrightarrow> Host_Fs.walk h' cur p = Ok q \<and> \<not> prefix t q"
proof (induction p arbitrary: cur)
  case Nil
  then show ?case using outside_dir [OF assms(1)] by (auto split: if_splits)
next
  case (Cons c cs)
  have here: "node_at h cur \<noteq> None" "dir_at h cur" using Cons.prems(1) by (auto split: if_splits)
  have here': "node_at h' cur \<noteq> None" "dir_at h' cur" using here outside_dir [OF assms(1) Cons.prems(3)] by auto
  show ?case
  proof (cases c)
    case RootDir
    then show ?thesis using Cons here here' assms(3) by simp
  next
    case CurDir
    then show ?thesis using Cons here here' by simp
  next
    case ParentDir
    have "\<not> prefix t (butlast cur)" using Cons.prems(3) prefixeq_butlast prefix_order.trans by blast
    then show ?thesis using Cons here here' ParentDir by simp
  next
    case (Normal n)
    have go: "Host_Fs.walk h (cur @ [n]) cs = Ok q" and len: "\<not> NAME_MAX < length (as_bytes n)"
      using Cons.prems(1) here Normal by (auto split: if_splits)
    have "cur @ [n] \<noteq> t"
    proof
      assume *: "cur @ [n] = t"
      show False using go Cons.prems(2) assms(2) * by (cases cs) (auto split: if_splits)
    qed
    then have "\<not> prefix t (cur @ [n])" using Cons.prems(3) by (auto simp: prefix_snoc)
    then show ?thesis using Cons.IH [OF go Cons.prems(2)] here' len Normal by simp
  qed
qed

lemma path_is_dir_away:
  assumes "path_is_dir h p" "changes_within {t} h h'" "\<not> dir_at h t" "t \<noteq> []" "\<not> prefix t (host_cwd h)"
  shows "path_is_dir h' p"
proof -
  obtain q where q: "canonicalize h p = Ok q" "dir_at h q" using assms(1) path_is_dir_iff by blast
  have w: "Host_Fs.walk h (host_cwd h) p = Ok q" using q(1) by (simp add: canonicalize_def split: if_splits)
  have "Host_Fs.walk h' (host_cwd h) p = Ok q \<and> \<not> prefix t q" by (rule walk_away [OF assms(2-4) w q(2) assms(5)])
  then show ?thesis using q changes_cwd [OF assms(2)] outside_dir [OF assms(2), of q]
    by (auto simp: path_is_dir_iff canonicalize_def split: if_splits)
qed

text \<open>The directory the program runs in is there.\<close>

definition cwd_there :: "Host \<Rightarrow> bool" where
  "cwd_there h \<longleftrightarrow> (\<forall>d. prefix d (host_cwd h) \<longrightarrow> dir_at h d)"

lemma cwd_there_grows: "cwd_there h \<Longrightarrow> grows h h' \<Longrightarrow> cwd_there h'"
  unfolding cwd_there_def using grows_dir grows_def by metis

lemma probe_stays:
  assumes "is_case_insensitive ge i root h = (r, h')"
  shows "stays root h h' \<and> (path_is_dir h root \<longrightarrow> cwd_there h \<longrightarrow> path_is_dir h' root)"
proof -
  let ?p = "root @ [Normal (case_probe ge i)]" and ?t = "spot h root @ [case_probe ge i]"
  obtain r1 h1 where c: "fs_create_new ?p h = (r1, h1)" by fastforce
  obtain r2 h2 where m: "fs_remove_file ?p h1 = (r2, h2)" by fastforce
  have one: "changes_within {?t} h h1" using c fs_write_within [of ?p "[]" h r1 h1] by (auto simp: fs_create_new_def split: if_splits)
  have two: "changes_within {?t} h h2"
    using changes_trans [OF one] fs_remove_changes(1) [OF m] changes_cwd [OF one] by simp
  have h': "h' = h1 \<and> \<not> is_Ok r1 \<or> h' = h2 \<and> is_Ok r1"
    using assms c m by (cases r1; cases r2; simp add: is_case_insensitive_def probe_name path_join_name)
  then have whole: "changes_within {?t} h h'" using one two by auto
  then have "stays root h h'" using stays_below [of h root "[case_probe ge i]" h'] by simp
  moreover have "path_is_dir h' root" if dir: "path_is_dir h root" and cwd: "cwd_there h"
  proof (cases "is_Ok r1")
    case False
    then have "h' = h" using h' c by (cases r1) (auto simp: fs_create_new_def fs_write_def split: if_splits outcome.splits option.splits node.splits)
    then show ?thesis using dir by simp
  next
    case True
    then have new: "\<not> is_Ok (canonicalize h ?p)" and e: "\<exists>q. entry_of h ?p = Ok q"
      using c by (auto simp: fs_create_new_def fs_write_def split: if_splits outcome.splits option.splits node.splits)
    then have "entry_of h ?p = Ok ?t" using entry_of_norm by fastforce
    then have "node_at h ?t = None" using entry_canonical [of h ?p ?t] new by fastforce
    then have nodir: "\<not> dir_at h ?t" by (simp add: dir_at_def)
    then have "\<not> prefix ?t (host_cwd h)" using cwd by (auto simp: cwd_there_def)
    then show ?thesis by (intro path_is_dir_away [OF dir whole nodir]) simp_all
  qed
  ultimately show ?thesis by blast
qed

lemma fs_remove_dir_within: "fs_remove_dir p h = (r, h') \<Longrightarrow> changes_within {spot h p} h h'"
  by (auto simp: fs_remove_dir_def intro: changes_trans [OF changes_drop(1) changes_touch]
      split: outcome.splits if_splits dest!: entry_of_norm)

lemma check_stays:
  assumes "undo_root there root (check_no_collisions ge i plan root (h, s)) = (r, h', s')"
  shows "stays root h h' \<and> (is_Ok r \<longrightarrow> path_is_dir h root \<longrightarrow> cwd_there h \<longrightarrow> path_is_dir h' root)"
proof -
  obtain c h1 where p: "is_case_insensitive ge i root h = (c, h1)" by fastforce
  note probe = probe_stays [OF p]
  obtain d h2 where rm: "fs_remove_dir root h1 = (d, h2)" by fastforce
  have gone: "stays root h h2"
    using probe fs_remove_dir_within [OF rm] stays_trans by (auto simp: stays_def)
  obtain r1 where check: "check_no_collisions ge i plan root (h, s) = (r1, h1, s)"
    using p by (cases c) (simp_all add: check_no_collisions_def locally_def)
  show ?thesis
  proof (cases r1)
    case (Err e)
    then have "r = Err e \<and> (h' = h1 \<or> h' = h2)" using assms check rm by (auto split: if_splits)
    then show ?thesis using probe gone by auto
  qed (use assms check probe in auto)
qed

lemma then_opt_keep: "then_opt m (\<lambda>x s. Some (f x s, s)) = Some (r, s') \<Longrightarrow> \<exists>r0. m = Some (r0, s')"
  unfolding then_opt_def bind_eq_Some_conv
proof (elim exE conjE)
  fix q assume "m = Some q" "seq_opt q (\<lambda>x s. Some (f x s, s)) = Some (r, s')"
  then show ?thesis by (cases q; cases "fst q") auto
qed

text \<open>What follows the plan: the root, the check, the folders, the files.\<close>

definition carry_out ::
  "('s, 'b, 'l) MtpBackend \<Rightarrow> ('s, 'f) surroundings \<Rightarrow> get_env \<Rightarrow> 'm cli_mode_scheme \<Rightarrow> bool \<Rightarrow> bool \<Rightarrow> PathBuf \<Rightarrow> FolderPlan \<Rightarrow>
     (u64 \<Rightarrow> GetReport) \<Rightarrow> Host \<times> 's \<Rightarrow> (GetReport cli \<times> Host \<times> 's) option" where
  "carry_out be env ge mode replace there root plan report hs =
     seq_opt (create_local_folder root hs) (\<lambda>_ hs.
     seq_opt (undo_root there root (check_no_collisions ge 0 plan root hs)) (\<lambda>_ hs.
     seq_opt (create_folders (fp_folders plan) hs) (\<lambda>_ hs.
     then_opt (download_files be env ge mode replace 1 0 (fp_files plan) hs) (\<lambda>received hs. Some (Ok (report received), hs)))))"

lemma seq_opt_cases:
  assumes "seq_opt m k = Some (r, s')"
  obtains (failed) r0 where "m = (r0, s')" "\<not> is_Ok r0"
  | (went_on) x s1 where "m = (Ok x, s1)" "k x s1 = Some (r, s')"
  using assms by (cases "(m, k)" rule: seq_opt.cases) auto

lemma root_made:
  assumes "create_local_folder root (h, s) = (r1, h1, s1)" "reachable_parent h root"
  shows "stays root h h1 \<and> grows h h1 \<and> (is_Ok r1 \<longrightarrow> path_is_dir h1 root)"
proof -
  obtain cr where cr: "create_dir_all root h = (cr, h1)" "r1 = io_cli CliErrorKind.Other ''create local folder'' cr"
    using assms(1) by (cases "create_dir_all root h") (simp add: create_local_folder_def locally_def)
  show ?thesis using create_dir_all_changes [OF assms(2) cr(1)] cr(2) by (cases cr) (auto simp: stays_def)
qed

lemma carry_out_stays:
  assumes "carry_out be env ge mode replace there root plan report (h, s) = Some (r, h', s')"
    "plan_below root plan" "reachable_parent h root" "cwd_there h"
  shows "stays root h h'"
  using assms(1) unfolding carry_out_def
proof (cases rule: seq_opt_cases)
  case (failed r0)
  then show ?thesis using root_made assms(3) by (metis prod.exhaust)
next
  case (went_on x hs1)
  obtain h1 s1 where hs1: "hs1 = (h1, s1)" by (cases hs1)
  note root = root_made [OF went_on(1) [unfolded hs1] assms(3)]
  from went_on(2) [unfolded hs1] show ?thesis
  proof (cases rule: seq_opt_cases)
    case (failed r0)
    then show ?thesis using check_stays root stays_trans by (metis prod.exhaust)
  next
    case (went_on x hs2)
    obtain h2 s2 where hs2: "hs2 = (h2, s2)" by (cases hs2)
    note check = check_stays [OF went_on(1) [unfolded hs2]]
    have dir: "path_is_dir h2 root" using check root cwd_there_grows [OF assms(4)] by simp
    have two: "stays root h h2" using check root stays_trans by blast
    note made = create_folders_stay [OF _ dir, where ds = "fp_folders plan"]
    from went_on(2) [unfolded hs2] show ?thesis
    proof (cases rule: seq_opt_cases)
      case (failed r0)
      then show ?thesis using made assms(2) two stays_trans unfolding plan_below_def by (metis prod.exhaust)
    next
      case (went_on x hs3)
      obtain h3 s3 where hs3: "hs3 = (h3, s3)" by (cases hs3)
      have "stays root h2 h3" using made went_on(1) [unfolded hs3] assms(2) by (auto simp: plan_below_def)
      moreover obtain r4 where "download_files be env ge mode replace 1 0 (fp_files plan) (h3, s3) = Some (r4, h', s')"
        using then_opt_keep [OF went_on(2) [unfolded hs3]] by blast
      then have "stays root h3 h'" by (rule download_files_stay) (use assms(2) in \<open>simp add: plan_below_def\<close>)
      ultimately show ?thesis using two stays_trans by blast
    qed
  qed
qed

lemma run_directory_stays:
  assumes "run_directory be env ge mode sto args path folder (h, s) = Some (r, h', s')"
    "reachable_parent h (ga_local_path args)" "cwd_there h"
  shows "stays (ga_local_path args) h h'"
proof (cases "local_root_exists (ga_local_path args) h")
  case (Ok there)
  let ?root = "ga_local_path args"
  obtain rp s1 where m: "plan_folder be mode (ge_windows ge) sto folder (remote_root_of path) ?root s = Some (rp, s1)"
    using assms(1) Ok by (auto simp: run_directory_def Let_def beside_def then_opt_def bind_eq_Some_conv)
  show ?thesis
  proof (cases rp)
    case plan: (Ok plan)
    obtain report where "carry_out be env ge mode (ga_replace args) there ?root plan report (h, s1) = Some (r, h', s')"
      using assms(1) Ok plan m by (simp add: run_directory_def carry_out_def Let_def beside_def then_opt_def [of "Some _"])
    then show ?thesis by (rule carry_out_stays [OF _ plan_folder_below [OF m [unfolded plan]] assms(2,3)])
  qed (use assms(1) Ok m in \<open>auto simp: run_directory_def Let_def beside_def then_opt_def\<close>)
qed (use assms(1) in \<open>auto simp: run_directory_def Let_def\<close>)

lemma run_file_within:
  assumes "run_file be env ge mode args path obj (h, s) = Some (r, h', s')"
  shows "changes_within {spot h (ga_local_path args), spot h (temp_download_path ge 0 (ga_local_path args))} h h'"
proof -
  obtain r0 where "download_file be env ge mode 0 (mo_handle obj) (ga_local_path args) (ga_replace args) (h, s) = Some (r0, h', s')"
    using then_opt_keep [OF assms [unfolded run_file_def]] by blast
  then show ?thesis by (rule download_file_within)
qed

section \<open>Collisions\<close>

lemma collision_in_None:
  "collision_in lower ci seen entries = None \<longleftrightarrow>
     distinct (map (\<lambda>(r, p). collision_key lower ci p) entries) \<and>
     set (map (\<lambda>(r, p). collision_key lower ci p) entries) \<inter> dom seen = {}"
proof (induction entries arbitrary: seen)
  case (Cons x entries)
  obtain r p where x: "x = (r, p)" by (cases x)
  let ?k = "collision_key lower ci p"
  show ?case
  proof (cases "seen ?k")
    case None
    then have "?k \<notin> dom seen" by (simp add: domIff)
    then show ?thesis using Cons.IH [of "seen(?k \<mapsto> r)"] x None by (simp add: Let_def dom_fun_upd del: fun_upd_apply) blast
  next
    case (Some first)
    then show ?thesis using x by (auto simp: Let_def)
  qed
qed simp

text \<open>
  The check for collisions finds none exactly when no two of the planned entries have the same folder and the same name, up to case where
  the file system ignores it.
\<close>

theorem collision_free_iff:
  "find_collision lower entries ci = None \<longleftrightarrow> distinct (map (\<lambda>(r, p). collision_key lower ci p) entries)"
  by (simp add: find_collision_def collision_in_None)

end
