(* ===== verification/Cli_Atomic.thy ===== *)
theory Cli_Atomic
  imports Cli_Local
begin

text \<open>
  A download replaces its destination or leaves it: the life of the temporary file, from its creation to the rename over the
  destination or to its removal.
\<close>

section \<open>Two names in one directory\<close>

definition vacant :: "Host \<Rightarrow> rstr list \<Rightarrow> bool" where
  "vacant h t \<longleftrightarrow> (\<forall>q. prefix t q \<longrightarrow> node_at h q = None)"

lemma entry_of_name:
  "entry_of h (d @ [Normal n]) = Ok q \<longleftrightarrow>
     \<not> too_long (d @ [Normal n]) \<and> length (as_bytes n) \<le> NAME_MAX \<and>
     (\<exists>e. Host_Fs.walk h (host_cwd h) d = Ok e \<and> dir_at h e \<and> q = e @ [n])"
  by (auto simp: entry_of_def)

lemma path_len_name: "length (as_bytes n) \<le> length (as_bytes m) \<Longrightarrow> path_len (d @ [Normal n]) \<le> path_len (d @ [Normal m])"
  by (cases d) (auto simp: path_len_def)

lemma entry_of_shorter:
  assumes "entry_of h (d @ [Normal m]) = Ok (e @ [m])" "length (as_bytes n) \<le> length (as_bytes m)"
  shows "entry_of h (d @ [Normal n]) = Ok (e @ [n])"
  using assms path_len_name [OF assms(2), of d] by (auto simp: entry_of_name too_long_def)

lemma entry_of_grows:
  assumes "entry_of h (d @ [Normal n]) = Ok q" "grows h h'"
  shows "entry_of h' (d @ [Normal n]) = Ok q"
proof -
  have "host_cwd h' = host_cwd h" using assms(2) by (simp add: grows_def)
  then show ?thesis using assms walk_grows [OF _ assms(2)] grows_dir [OF assms(2)] by (fastforce simp: entry_of_name)
qed

lemma entry_of_away:
  assumes "entry_of h (d @ [Normal n]) = Ok q" "changes_within {t} h h'" "\<not> dir_at h t" "t \<noteq> []" "cwd_there h"
  shows "entry_of h' (d @ [Normal n]) = Ok q"
proof -
  obtain e where e: "Host_Fs.walk h (host_cwd h) d = Ok e" "dir_at h e" "q = e @ [n]" using assms(1) by (auto simp: entry_of_name)
  have "\<not> prefix t (host_cwd h)" using assms(3,5) by (auto simp: cwd_there_def)
  from walk_away [OF assms(2-4) e(1,2) this] have "Host_Fs.walk h' (host_cwd h) d = Ok e \<and> \<not> prefix t e" .
  then show ?thesis using assms(1) e outside_dir [OF assms(2), of e] changes_cwd [OF assms(2)] by (auto simp: entry_of_name)
qed

section \<open>The temporary file\<close>

text \<open>It holds the data, nothing lies below it, and beyond it nothing has changed since \<open>h\<close>.\<close>

definition holding :: "Host \<Rightarrow> PathBuf \<Rightarrow> rstr list \<Rightarrow> bytes \<Rightarrow> Host \<Rightarrow> bool" where
  "holding h temp t data h' \<longleftrightarrow>
     changes_within {t} h h' \<and> grows h h' \<and> entry_of h' temp = Ok t \<and> (\<exists>c m. node_at h' t = Some (FileNode c m data))
     \<and> (\<forall>q. strict_prefix t q \<longrightarrow> node_at h' q = None)"

lemma node_at_add_file:
  "p \<noteq> [] \<Longrightarrow> node_at (add_entry p (FileNode c m data) h) p = Some (FileNode c m data)"
  by (simp add: add_entry_def node_at_touch node_at_set_node)

lemma touch_None: "node_at (touch d h) q = None \<longleftrightarrow> node_at h q = None"
  using touch_entry [of h q d] by (auto simp: same_entry_def)

lemma holding_created:
  assumes "fs_write (d @ [Normal n]) data h = (Ok u, h')" "vacant h (spot h (d @ [Normal n]))"
  shows "holding h (d @ [Normal n]) (spot h (d @ [Normal n])) data h'"
proof -
  let ?p = "d @ [Normal n]"
  obtain t where t: "entry_of h ?p = Ok t" using assms(1) by (cases "entry_of h ?p") (auto simp: fs_write_def)
  have spot: "spot h ?p = t" using entry_of_norm [OF t] by simp
  have free: "node_at h t = None" using assms(2) spot by (auto simp: vacant_def)
  then have h': "h' = add_entry t (FileNode (Some (host_now h)) (host_now h) data) h"
    using assms(1) t by (simp add: fs_write_def)
  have ne: "t \<noteq> []" using t by (auto simp: entry_of_name)
  have "grows h h'" unfolding h' by (rule grows_add_entry [OF free])
  moreover have "node_at h' q = None" if "strict_prefix t q" for q
  proof -
    have "q \<noteq> []" "q \<noteq> t" "node_at h q = None" using that assms(2) spot by (auto simp: vacant_def strict_prefix_def)
    then show ?thesis by (simp add: h' add_entry_def touch_None node_at_set_node)
  qed
  ultimately show ?thesis
    using changes_add_entry entry_of_grows [OF t] node_at_add_file [OF ne] unfolding holding_def spot h' by blast
qed

lemma holding_written:
  assumes "holding h (d @ [Normal n]) t data h1" "fs_write (d @ [Normal n]) data' h1 = (w, h2)"
  shows "w = Ok () \<and> holding h (d @ [Normal n]) t data' h2"
proof -
  let ?p = "d @ [Normal n]"
  obtain c m where old: "node_at h1 t = Some (FileNode c m data)" and e: "entry_of h1 ?p = Ok t"
    using assms(1) by (auto simp: holding_def)
  have w: "w = Ok ()" and h2: "h2 = set_node t (FileNode c (host_now h1) data') h1"
    using assms(2) old e by (simp_all add: fs_write_def)
  have ne: "t \<noteq> []" using e by (auto simp: entry_of_name)
  have g: "grows h1 h2" unfolding h2 by (rule grows_rewrite [OF old])
  have "changes_within {t} h1 h2" unfolding h2 by (rule changes_set_node)
  moreover have "node_at h2 q = None" if "strict_prefix t q" for q
  proof -
    have "q \<noteq> []" "q \<noteq> t" "node_at h1 q = None" using that ne assms(1) by (auto simp: holding_def)
    then show ?thesis by (simp add: h2 node_at_set_node)
  qed
  moreover have "\<exists>c m. node_at h2 t = Some (FileNode c m data')" using ne by (simp add: h2 node_at_set_node)
  ultimately show ?thesis
    using w assms(1) g entry_of_grows [OF e g] unfolding holding_def by (metis changes_trans grows_trans)
qed

text \<open>The bytes collected so far, as the loop of \<open>collect\<close> would hold them.\<close>

lemma download_chunks_hold:
  assumes "download_chunks be env ge mode (dir @ [Normal n]) data d h1 s = Some (r, h2, s')"
    "holding h (dir @ [Normal n]) t data h1"
  shows "\<exists>data'. holding h (dir @ [Normal n]) t data' h2 \<and> (\<forall>k. r = Ok k \<longrightarrow> collect_download be env data d s = Some (Ok data', s'))"
proof -
  have "download_chunks be env ge mode temp data d h1 s = Some y \<Longrightarrow> temp = dir @ [Normal n] \<longrightarrow> holding h temp t data h1 \<longrightarrow>
      (\<exists>data'. holding h temp t data' (fst (snd y)) \<and>
         (\<forall>k. fst y = Ok k \<longrightarrow> collect_download be env data d s = Some (Ok data', snd (snd y))))" for temp y
  proof (erule download_chunks.raw_induct [rotated], goal_cases)
    case (1 loop be env ge mode temp data d h1 s y)
    from 1(2) obtain item d1 s1 where n: "download_next_chunk be env d s = Some (item, d1, s1)" by (auto split: Option.bind_splits)
    show ?case
    proof (intro impI)
      assume temp: "temp = dir @ [Normal n]" and start: "holding h temp t data h1"
      show "\<exists>data'. holding h temp t data' (fst (snd y)) \<and>
         (\<forall>k. fst y = Ok k \<longrightarrow> collect_download be env data d s = Some (Ok data', snd (snd y)))"
      proof (cases "\<exists>chunk. item = Yielded (Ok chunk) \<and> ge_room ge (length (data @ chunk))")
        case False
        have "fst (snd y) = h1 \<and> (\<forall>k. fst y = Ok k \<longrightarrow> item = Exhausted \<and> snd (snd y) = drop_current be d1 s1)"
          using 1(2) n False by (cases item) (auto split: outcome.splits if_splits)
        moreover have "collect_download be env data d s = Some (Ok data, drop_current be d1 s1)" if "item = Exhausted"
          using n that by (subst collect_download.simps) simp
        ultimately show ?thesis using start by metis
      next
        case True
        then obtain chunk where item: "item = Yielded (Ok chunk)" "ge_room ge (length (data @ chunk))" by blast
        obtain w h3 where w: "fs_write temp (data @ chunk) h1 = (w, h3)" by fastforce
        have ok: "w = Ok ()" "holding h temp t (data @ chunk) h3" using holding_written start w unfolding temp by blast+
        have "loop be env ge mode temp (data @ chunk) d1 h3 s1 = Some y" using 1(2) n item w ok by simp
        from 1(1) [OF this] temp ok(2) show ?thesis
          using n item by (subst collect_download.simps) simp
      qed
    qed
  qed
  from this [OF assms(1)] show ?thesis using assms(2) by simp
qed

section \<open>Its removal\<close>

lemma node_at_dropped: "prefix t q \<Longrightarrow> t \<noteq> [] \<Longrightarrow> node_at (drop_tree t h) q = None"
  by (auto simp: node_at_def drop_tree_def map_of_eq_None_iff)

lemma changes_close:
  assumes "changes_within {t} h h'" "vacant h t" "vacant h' t"
  shows "changes_within {} h h'"
  using assms by (auto simp: changes_within_def vacant_def same_entry_def) metis

lemma holding_removed:
  assumes "holding h temp t data h1" "vacant h t" "t \<noteq> []" "fs_remove_file temp h1 = (r, h2)"
  shows "changes_within {} h h2"
proof -
  have h2: "h2 = touch (butlast t) (drop_tree t h1)" using assms(1,4) by (auto simp: holding_def fs_remove_file_def)
  have "changes_within {t} h h2"
    using assms(1) changes_trans changes_drop(1) changes_touch unfolding holding_def h2 by metis
  moreover have "vacant h2 t" using assms(3) by (simp add: vacant_def h2 touch_None node_at_dropped)
  ultimately show ?thesis using changes_close assms(2) by blast
qed

section \<open>Its rename over the destination\<close>

lemma map_of_moved:
  assumes "\<forall>k \<in> set xs. \<not> prefix q (fst k)" "\<forall>k \<in> set xs. strict_prefix t (fst k) \<longrightarrow> False"
  shows "map_of (map (\<lambda>(k, n). if prefix t k then (q @ drop (length t) k, n) else (k, n)) xs) q = map_of xs t"
  using assms
proof (induction xs)
  case (Cons x xs)
  obtain k n where x: "x = (k, n)" by (cases x)
  show ?case
  proof (cases "k = t")
    case False
    then have "\<not> prefix t k" "k \<noteq> q" using Cons.prems x by (auto simp: strict_prefix_def)
    then show ?thesis using Cons x False by auto
  qed (use x in simp)
qed simp

lemma node_at_map: "q \<noteq> [] \<Longrightarrow> node_at h q = map_of (host_files h) q"
  by (simp add: node_at_def)

lemma relocated_node:
  assumes "t \<noteq> []" "q \<noteq> []" "\<not> prefix q t" "\<forall>p. strict_prefix t p \<longrightarrow> node_at h p = None"
  shows "node_at (relocate t q (drop_tree q h)) q = node_at h t"
proof -
  let ?xs = "host_files (drop_tree q h)"
  have "\<forall>k \<in> set ?xs. \<not> prefix q (fst k)" by (auto simp: drop_tree_def)
  moreover have "\<forall>k \<in> set ?xs. strict_prefix t (fst k) \<longrightarrow> False"
  proof (intro ballI impI)
    fix k assume k: "k \<in> set ?xs" "strict_prefix t (fst k)"
    then have "fst k \<in> fst ` set (host_files h)" "fst k \<noteq> []" by (auto simp: drop_tree_def)
    then have "node_at h (fst k) \<noteq> None" by (simp add: node_at_map map_of_eq_None_iff)
    then show False using assms(4)[rule_format, OF k(2)] by simp
  qed
  ultimately have "node_at (relocate t q (drop_tree q h)) q = map_of ?xs t"
    using assms(2) by (simp add: node_at_map relocate_def map_of_moved)
  also have "\<dots> = node_at h t"
    using assms(1,3) by (simp add: node_at_map drop_tree_def map_of_filter_keys [of "\<lambda>p. \<not> prefix q p"])
  finally show ?thesis .
qed

lemma moved_away:
  assumes "prefix t p" "t \<noteq> []" "\<not> prefix q t" "\<not> prefix t q"
  shows "node_at (relocate t q h) p = None"
proof -
  have "\<not> prefix t (q @ drop (length t) k)" if "prefix t k" for k
    using assms(3,4) by (auto simp: prefix_append)
  moreover have "\<not> prefix q p" if "\<not> prefix q t" using assms that prefix_same_cases by blast
  ultimately have "p \<notin> fst ` set (host_files (relocate t q h))"
    using assms(1) by (auto simp: relocate_def split: if_splits)
  moreover have "p \<noteq> []" using assms(1,2) by auto
  ultimately show ?thesis by (simp add: node_at_map map_of_eq_None_iff)
qed

lemma changes_close_second:
  assumes "changes_within {q, t} h h'" "vacant h t" "vacant h' t"
  shows "changes_within {q} h h'"
  using assms by (auto simp: changes_within_def vacant_def same_entry_def)

lemma same_file: "same_entry (Some (FileNode c m data)) b \<longleftrightarrow> b = Some (FileNode c m data)"
  "same_entry None b \<longleftrightarrow> b = None"
  by (auto simp: same_entry_def)

lemma renamed:
  assumes "entry_of h2 temp = Ok (e @ [m])" "entry_of h2 p = Ok (e @ [n])" "n \<noteq> m"
    "node_at h2 (e @ [m]) = Some (FileNode c x data)" "\<forall>p. strict_prefix (e @ [m]) p \<longrightarrow> node_at h2 p = None"
    "node_at h2 (e @ [n]) = None" "changes_within {e @ [n], e @ [m]} h h2" "vacant h (e @ [m])"
    "fs_rename temp p h2 = (r, h3)"
  shows "r = Ok () \<and> node_at h3 (e @ [n]) = Some (FileNode c x data) \<and> changes_within {e @ [n]} h h3"
proof -
  let ?t = "e @ [m]" and ?q = "e @ [n]"
  let ?moved = "relocate ?t ?q (drop_tree ?q h2)"
  have apart: "\<not> prefix ?q ?t" "\<not> prefix ?t ?q" using assms(3) by auto
  have r: "r = Ok ()" and h3: "h3 = touch (butlast ?q) (touch (butlast ?t) ?moved)"
    using assms(1-4,6,9) by (auto simp: fs_rename_def)
  have "node_at ?moved ?q = Some (FileNode c x data)"
    using relocated_node [OF _ _ apart(1) assms(5)] assms(4) by simp
  then have at: "node_at h3 ?q = Some (FileNode c x data)" unfolding h3 by (intro node_at_touch)
  have "vacant h3 ?t" unfolding vacant_def h3 using moved_away [OF _ _ apart] by (auto simp: touch_None)
  moreover have "changes_within {?q, ?t} h h3"
  proof (rule changes_trans [OF assms(7)])
    have "changes_within {spot h2 temp, spot h2 p} h2 h3" by (rule fs_rename_changes [OF assms(9)])
    then show "changes_within {?q, ?t} h2 h3"
      using entry_of_norm [OF assms(1)] entry_of_norm [OF assms(2)] by (simp add: insert_commute)
  qed
  ultimately show ?thesis using r at changes_close_second [OF _ assms(8)] by blast
qed

lemma replaced:
  assumes "holding h (d @ [Normal m]) (e @ [m]) data h2" "vacant h (e @ [m])" "cwd_there h" "n \<noteq> m"
    "length (as_bytes n) \<le> length (as_bytes m)"
    "if there then \<exists>c x old. metadata h (d @ [Normal n]) = Ok (FileNode c x old) else \<not> is_Ok (canonicalize h (d @ [Normal n]))"
    "finish_download (d @ [Normal m]) (d @ [Normal n]) there (Ok k) (h2, s) = (r, h', s')"
    "entry_of h (d @ [Normal m]) = Ok (e @ [m])"
  shows "r = Ok k \<and> s' = s \<and> (\<exists>c x. node_at h' (spot h (d @ [Normal n])) = Some (FileNode c x data))
    \<and> changes_within {spot h (d @ [Normal n])} h h'"
proof -
  let ?p = "d @ [Normal n]" and ?temp = "d @ [Normal m]" and ?t = "e @ [m]" and ?q = "e @ [n]"
  obtain c x where at: "node_at h2 ?t = Some (FileNode c x data)" and et: "entry_of h2 ?temp = Ok ?t"
    and below: "\<forall>p. strict_prefix ?t p \<longrightarrow> node_at h2 p = None" and g: "grows h h2" and ch: "changes_within {?t} h h2"
    using assms(1) unfolding holding_def by metis
  have eq: "entry_of h2 ?p = Ok ?q" by (rule entry_of_shorter [OF et assms(5)])
  have spot: "spot h ?p = ?q" using entry_of_norm [OF eq] changes_cwd [OF ch] by simp
  have apart: "\<not> prefix ?q ?t" using assms(4) by auto
  have ch2: "changes_within {?q, ?t} h h2" by (rule changes_union [OF ch]) simp
  show ?thesis
  proof (cases there)
    case False
    have free: "node_at h2 ?q = None"
    proof (rule ccontr)
      assume there: "node_at h2 ?q \<noteq> None"
      have "\<not> prefix ?t ?q" using assms(4) by auto
      then have "node_at h ?q \<noteq> None" using outside_dir [OF ch] there by metis
      moreover have "entry_of h ?p = Ok ?q" by (rule entry_of_shorter [OF assms(8) assms(5)])
      ultimately have "canonicalize h ?p = Ok ?q" using entry_canonical by blast
      then show False using assms(6) False by simp
    qed
    obtain r3 h3 where mv: "fs_rename ?temp ?p h2 = (r3, h3)" by fastforce
    from renamed [OF et eq assms(4) at below free ch2 assms(2) mv] assms(7) False mv spot show ?thesis
      by (auto simp: finish_download_def locally_def)
  next
    case True
    then obtain c' x' old where "metadata h ?p = Ok (FileNode c' x' old)" using assms(6) by auto
    then obtain y where y: "canonicalize h ?p = Ok y" "node_at h y = Some (FileNode c' x' old)"
      by (auto simp: metadata_def split: option.splits)
    have "y = ?q" using canonicalize_norm [OF y(1)] spot by simp
    with y have "node_at h ?q = Some (FileNode c' x' old)" by simp
    then obtain old' where regular: "node_at h2 ?q = Some old'" "\<not> is_DirNode old'" using g by (fastforce simp: grows_def)
    then obtain h3 where rm: "fs_remove_file ?p h2 = (Ok (), h3)" "h3 = touch (butlast ?q) (drop_tree ?q h2)"
      using eq by (cases old') (auto simp: fs_remove_file_def)
    have ch3: "changes_within {?q} h2 h3" unfolding rm(2) by (rule changes_trans [OF changes_drop(1) changes_touch])
    have nodir: "\<not> dir_at h2 ?q" using regular by (simp add: dir_at_iff)
    have cwd: "cwd_there h2" by (rule cwd_there_grows [OF assms(3) g])
    note away = entry_of_away [OF _ ch3 nodir _ cwd]
    have et3: "entry_of h3 ?temp = Ok ?t" by (rule away [OF et]) simp
    have eq3: "entry_of h3 ?p = Ok ?q" by (rule away [OF eq]) simp
    have at3: "node_at h3 ?t = Some (FileNode c x data)" using outside_same [OF ch3 apart] at by (simp add: same_file)
    have below3: "\<forall>p. strict_prefix ?t p \<longrightarrow> node_at h3 p = None"
    proof (intro allI impI)
      fix y assume y: "strict_prefix ?t y"
      then have "\<not> prefix ?q y" using apart assms(4) by (auto simp: strict_prefix_def prefix_def)
      then show "node_at h3 y = None" using outside_same [OF ch3, of y] below y by (simp add: same_file)
    qed
    have free3: "node_at h3 ?q = None" by (simp add: rm(2) touch_None node_at_dropped)
    have "changes_within {?q, ?t} h2 h3" by (rule changes_union [OF ch3]) simp
    then have ch4: "changes_within {?q, ?t} h h3" using ch2 changes_trans by blast
    obtain r4 h4 where mv: "fs_rename ?temp ?p h3 = (r4, h4)" by fastforce
    from renamed [OF et3 eq3 assms(4) at3 below3 free3 ch4 assms(2) mv] assms(7) True rm mv spot show ?thesis
      by (auto simp: finish_download_def locally_def)
  qed
qed

section \<open>The whole download\<close>

lemma as_bytes_append: "as_bytes (a @ b) = as_bytes a @ as_bytes b"
  by (simp add: as_bytes_def)

lemma temp_name_longer: "n \<noteq> temp_name ge i n" "length (as_bytes n) \<le> length (as_bytes (temp_name ge i n))"
proof -
  have "length n < length (temp_name ge i n)" by (simp add: temp_name_def)
  then show "n \<noteq> temp_name ge i n" by auto
qed (simp add: temp_name_def as_bytes_append)

lemma destination_known:
  assumes "destination_state replace p h = Ok there"
  shows "if there then \<exists>c x old. metadata h p = Ok (FileNode c x old) else \<not> is_Ok (canonicalize h p)"
proof (cases "metadata h p")
  case (Ok n)
  then show ?thesis using assms by (cases n) (auto simp: destination_state_def split: if_splits)
next
  case (Err e)
  then have "\<not> there" using assms by (auto simp: destination_state_def split: if_splits)
  moreover have "\<not> is_Ok (canonicalize h p)"
    using Err canonicalize_norm by (cases "canonicalize h p") (fastforce simp: metadata_def)+
  ultimately show ?thesis by simp
qed (use assms in \<open>auto simp: destination_state_def\<close>)

end
