(* ===== verification/Cli_Runs.thy ===== *)
theory Cli_Runs
  imports Cli_Atomic
begin

text \<open>
  What \<open>mtp-rs get\<close> promises of the files of this machine, with a run of it from a small device: one file, fetched into a folder that
  is not there yet.
\<close>

section \<open>A device and a machine\<close>

definition demo_named :: "MtpObjectHandle \<Rightarrow> string \<Rightarrow> bool \<Rightarrow> MtpObjectInfo" where
  "demo_named obj name folder = (demo_object obj folder)\<lparr>mo_filename := str name, mo_size := 2\<rparr>"

definition demo_shelf :: "(unit, bytes list, (MtpObjectInfo, BackendListingError) outcome list) MtpBackend" where
  "demo_shelf = (shelf (\<lambda>parent. if parent = None then [Ok (demo_named 1 ''a'' False)] else []))
     \<lparr>be_storages := \<lambda>s. Some (Ok [sg_info demo_storage_of], s),
      be_object_info := \<lambda>obj s. Some (Ok (demo_named 1 ''a'' False), s), be_download := \<lambda>obj rng n s. (Ok [[1, 2]], s)\<rparr>"

definition demo_get_env :: get_env where
  "demo_get_env = \<lparr>ge_windows = False, ge_lower = (\<lambda>s. s), ge_upper = map ascii_upper, ge_pid = 1, ge_nanos = (\<lambda>i. i), ge_room = (\<lambda>n. True)\<rparr>"

definition demo_cli :: Cli where
  "demo_cli = \<lparr>cm_macos = False, cm_verbose = False, cl_device = None, cl_location = None, cl_storage = None, cl_known = [],
     cl_timeout = 30, cl_no_prop_list = False\<rparr>"

definition demo_here :: Host where
  "demo_here = \<lparr>host_files = [([str ''w''], DirNode None 0)], host_now = 5, host_dir_len = 64, host_cwd = [str ''w'']\<rparr>"

definition demo_dl :: "bytes list \<Rightarrow> u64 \<Rightarrow> nat \<Rightarrow> (bytes list, nat) FileDownload" where
  "demo_dl rest got time = \<lparr>fd_handle = 1, fd_size = 2, fd_start = 0, fd_end = 2, fd_offset = got, fd_modified = None, fd_created = None,
     fd_pacer = Pacer_new DownloadPacing.HeldOpen,
     fd_current = Some \<lparr>ar_body = rest, ar_held_open = True, ar_requested = 2, ar_received = got, ar_device_time = time\<rparr>,
     fd_started = True, fd_done = False\<rparr>"

lemma demo_start: "\<exists>time. storage_download demo_shelf (env :: (unit, nat) surroundings) 1 ByteRange.Full () = Some (Ok (demo_dl [[1, 2]] 0 time), ())"
  by (simp add: storage_download_def download_with_pacing_def demo_shelf_def shelf_def then_opt_def download_start_def Let_def
      start_next_read_def demo_named_def DownloadPacing_default_def demo_dl_def begin_read_def demo_object_def object_from_ptp_def ObjectInfo_default_def Pacer_new_def held_open_def)

lemma demo_chunk: "\<exists>time'. download_next_chunk demo_shelf (env :: (unit, nat) surroundings) (demo_dl [[1, 2]] 0 time) () =
    Some (Yielded (Ok [1, 2]), demo_dl [] 2 time', ())"
  by (simp add: download_next_chunk_def next_chunk_loop.simps demo_dl_def demo_shelf_def shelf_def take_chunk_def Let_def)

lemma demo_end: "\<exists>dl. download_next_chunk demo_shelf (env :: (unit, nat) surroundings) (demo_dl [] 2 time) () = Some (Exhausted, dl, ())
    \<and> bytes_received dl = 2"
  apply (simp add: download_next_chunk_def demo_dl_def)
  apply (subst next_chunk_loop.simps, simp add: demo_shelf_def shelf_def Let_def)
  apply (subst next_chunk_loop.simps, simp add: demo_shelf_def shelf_def Let_def bytes_received_def)
  done

lemma demo_chunks:
  assumes "fs_write temp [1, 2] h1 = (Ok (), h2)"
  shows "\<exists>dl. storage_download demo_shelf (env :: (unit, nat) surroundings) 1 ByteRange.Full () = Some (Ok dl, ()) \<and>
    download_chunks demo_shelf env demo_get_env demo_cli temp [] dl h1 () = Some (Ok 2, h2, ())"
proof -
  obtain time where start: "storage_download demo_shelf env 1 ByteRange.Full () = Some (Ok (demo_dl [[1, 2]] 0 time), ())"
    using demo_start by blast
  obtain time' where chunk: "download_next_chunk demo_shelf env (demo_dl [[1, 2]] 0 time) () = Some (Yielded (Ok [1, 2]), demo_dl [] 2 time', ())"
    using demo_chunk by blast
  obtain dl where over: "download_next_chunk demo_shelf env (demo_dl [] 2 time') () = Some (Exhausted, dl, ())" "bytes_received dl = 2"
    using demo_end by blast
  have "download_chunks demo_shelf env demo_get_env demo_cli temp [1, 2] (demo_dl [] 2 time') h2 () = Some (Ok 2, h2, ())"
    by (subst download_chunks.simps) (simp add: over)
  then have "download_chunks demo_shelf env demo_get_env demo_cli temp [] (demo_dl [[1, 2]] 0 time) h1 () = Some (Ok 2, h2, ())"
    by (subst download_chunks.simps) (simp add: chunk assms demo_get_env_def)
  then show ?thesis using start by blast
qed

lemma demo_download:
  assumes "destination_state replace p h = Ok False" "temp = temp_download_path demo_get_env i p"
    "fs_write temp [] h = (Ok (), h1)" "fs_write temp [1, 2] h1 = (Ok (), h2)" "fs_rename temp p h2 = (Ok (), h3)"
  shows "download_file demo_shelf (env :: (unit, nat) surroundings) demo_get_env demo_cli i 1 p replace (h, ()) = Some (Ok 2, h3, ())"
  using assms(1,3,5) demo_chunks [OF assms(4), of env]
  by (auto simp: download_file_def assms(2) [symmetric] locally_def on_cli_opt_def on_cli_def beside_def then_opt_def finish_download_def)

definition demo_args :: GetArgs where
  "demo_args = \<lparr>ga_remote_path = str ''/'', ga_local_path = [Normal (str ''out'')], ga_replace = False\<rparr>"

abbreviation demo_out :: PathBuf where "demo_out \<equiv> [Normal (str ''out''), Normal (str ''a'')]"
abbreviation demo_out_temp :: PathBuf where "demo_out_temp \<equiv> [Normal (str ''out''), Normal (temp_name demo_get_env 1 (str ''a''))]"

definition demo_h1 :: Host where "demo_h1 = snd (create_dir_all [Normal (str ''out'')] demo_here)"
definition demo_h2 :: Host where "demo_h2 = snd (is_case_insensitive demo_get_env 0 [Normal (str ''out'')] demo_h1)"
definition demo_h3 :: Host where "demo_h3 = snd (fs_write demo_out_temp [] demo_h2)"
definition demo_h4 :: Host where "demo_h4 = snd (fs_write demo_out_temp [1, 2] demo_h3)"
definition demo_h5 :: Host where "demo_h5 = snd (fs_rename demo_out_temp demo_out demo_h4)"

lemma demo_made: "create_dir_all [Normal (str ''out'')] demo_here = (Ok (), demo_h1)"
proof -
  have "fst (create_dir_all [Normal (str ''out'')] demo_here) = Ok ()" by code_simp
  then show ?thesis by (simp add: demo_h1_def prod_eq_iff)
qed

lemma demo_probed: "is_case_insensitive demo_get_env 0 [Normal (str ''out'')] demo_h1 = (Ok False, demo_h2)"
proof -
  have "fst (is_case_insensitive demo_get_env 0 [Normal (str ''out'')] demo_h1) = Ok False" by code_simp
  then show ?thesis by (simp add: demo_h2_def prod_eq_iff)
qed

lemma demo_saved:
  "destination_state False demo_out demo_h2 = Ok False" "temp_download_path demo_get_env 1 demo_out = demo_out_temp"
  "fst (fs_write demo_out_temp [] demo_h2) = Ok ()" "fst (fs_write demo_out_temp [1, 2] demo_h3) = Ok ()"
  "fst (fs_rename demo_out_temp demo_out demo_h4) = Ok ()"
  by code_simp+

lemma demo_downloaded: "download_file demo_shelf (env :: (unit, nat) surroundings) demo_get_env demo_cli 1 1 demo_out False (demo_h2, ()) =
    Some (Ok 2, demo_h5, ())"
  by (rule demo_download [where temp = demo_out_temp and ?h1.0 = demo_h3 and ?h2.0 = demo_h4])
    (use demo_saved in \<open>simp_all add: demo_h3_def demo_h4_def demo_h5_def prod_eq_iff\<close>)

lemma demo_round: "listing_next demo_shelf = listing_next (shelf (\<lambda>parent. if parent = None then [Ok (demo_named 1 ''a'' False)] else []))"
  by (intro ext) (simp add: listing_next_def next_classified_def demo_shelf_def shelf_def)

lemma demo_list: "be_list demo_shelf sid None cancel s = Some (Ok \<lparr>bl_total = 1, bl_items = [Ok (demo_named 1 ''a'' False)]\<rparr>, s)"
  by (simp add: demo_shelf_def shelf_def)

lemma demo_lists:
  "collect_objects demo_shelf sto None () = Some (Ok \<lparr>oc_objects = [demo_named 1 ''a'' False], oc_skipped = []\<rparr>, ())"
  by (simp add: collect_objects_def collect_objects_with_cancel_def collect_in_def then_opt_def ObjectListing_new_def demo_list
      collect_round demo_round shelf_round)

definition demo_plan :: FolderPlan where
  "demo_plan = \<lparr>fp_folders = [], fp_files = [\<lparr>pf_handle = 1, pf_remote_path = str ''/a'', pf_local_path = demo_out\<rparr>], fp_skipped = []\<rparr>"

lemma demo_objects:
  "plan_objects False (str ''/'') [Normal (str ''out'')] [demo_named 1 ''a'' False] [] FolderPlan_default = Ok ([], demo_plan)"
  by code_simp

lemma demo_planned:
  "plan_folder demo_shelf demo_cli False sto None (str ''/'') [Normal (str ''out'')] () = Some (Ok demo_plan, ())"
  unfolding plan_folder_def
  by (subst walk_folder.simps, simp add: demo_lists on_cli_opt_def on_cli_def then_opt_def demo_objects del: plan_objects.simps)
    (subst walk_folder.simps, simp add: FolderPlan_default_def)

section \<open>Below the local path\<close>

text \<open>
  C16: Whatever names, sizes and bytes a device answers, and however \<open>get\<close> ends (with a report, an error, a panic or a call that is dropped), no
  file and no directory of this machine is created, removed or changed but those at or below the local path the user gave, and the
  temporary file beside it; only modification times of directories may differ elsewhere. The local path is not empty and the directory it
  lies in is there, as is the current directory; the file system has no symbolic links.
\<close>

theorem get_stays_below:
  assumes "run_get be env ge cli args (h, s) = Some (r, h', s')"
    "reachable_parent h (ga_local_path args)" "cwd_there h"
  shows "changes_within {spot h (ga_local_path args), spot h (temp_download_path ge 0 (ga_local_path args))} h h'"
proof -
  let ?B = "{spot h (ga_local_path args), spot h (temp_download_path ge 0 (ga_local_path args))}"
  have folder: "changes_within ?B h h'" if "run_directory be env ge cli sto args path folder (h, s1) = Some (r, h', s')" for sto path folder s1
    using run_directory_stays [OF that assms(2,3)] unfolding stays_def by (rule changes_union) simp
  show ?thesis
    using assms(1) unfolding run_get_def
    by (auto simp: beside_def then_opt_def bind_eq_Some_conv on_cli_opt_def elim!: seq_opt_cases
        split: if_splits ExistingRemote.splits) (erule folder run_file_within)+
qed

theorem get_stays_below_witness:
  "\<forall>env :: (unit, nat) surroundings. \<exists>report h'.
     run_get demo_shelf env demo_get_env demo_cli demo_args (demo_here, ()) = Some (Ok report, h', ()) \<and>
     changes_within {[str ''w'', str ''out''], spot demo_here (temp_download_path demo_get_env 0 [Normal (str ''out'')])} demo_here h'"
proof
  fix env :: "(unit, nat) surroundings"
  have "open_storage demo_shelf demo_cli False () = Some (Ok demo_storage_of, ())"
    by (simp add: open_storage_def storages_def demo_shelf_def shelf_def demo_cli_def on_cli_opt_def on_cli_def then_opt_def demo_storage_of_def)
  moreover have "RemotePath_parse (str ''/'') = Ok \<lparr>rp_raw = str ''/'', rp_components = [], rp_trailing_slash = False\<rparr>" by code_simp
  moreover have "try_exists (metadata demo_here [Normal (str ''out'')]) = Ok False" "local_root_exists [Normal (str ''out'')] demo_here = Ok False"
    by code_simp+
  moreover have "find_collision (ge_lower demo_get_env) (plan_entries demo_plan) False = None" by code_simp
  moreover have "ge_windows demo_get_env = False" by (simp add: demo_get_env_def)
  moreover have "fp_folders demo_plan = []"
    "fp_files demo_plan = [\<lparr>pf_handle = 1, pf_remote_path = str ''/a'', pf_local_path = demo_out\<rparr>]"
    by (simp_all add: demo_plan_def)
  ultimately have "\<exists>report. run_get demo_shelf env demo_get_env demo_cli demo_args (demo_here, ()) = Some (Ok report, demo_h5, ())"
    using demo_planned demo_made demo_probed demo_downloaded [of env]
    by (simp add: run_get_def demo_args_def resolve_existing_def is_root_def run_directory_def Let_def beside_def then_opt_def
        remote_root_of_def create_local_folder_def check_no_collisions_def locally_def)
  then obtain report where run: "run_get demo_shelf env demo_get_env demo_cli demo_args (demo_here, ()) = Some (Ok report, demo_h5, ())"
    by blast
  have "reachable_parent demo_here (ga_local_path demo_args)" "cwd_there demo_here"
    by (code_simp, auto simp: cwd_there_def demo_here_def prefix_Cons dir_at_def node_at_def)
  from get_stays_below [OF run this] run show "\<exists>report h'.
     run_get demo_shelf env demo_get_env demo_cli demo_args (demo_here, ()) = Some (Ok report, h', ()) \<and>
     changes_within {[str ''w'', str ''out''], spot demo_here (temp_download_path demo_get_env 0 [Normal (str ''out'')])} demo_here h'"
    by (auto simp: demo_args_def demo_here_def)
qed

section \<open>All or nothing\<close>

text \<open>
  C17: A download that ends in an error, at whatever point and with whatever error, leaves the files of this machine as they were (modification
  times of directories apart), an existing destination included, and no temporary file; one that succeeds leaves in its destination exactly
  the bytes that collecting the same download gives, and nothing else changed. Assumed are a destination that ends in a name without a
  slash, nothing at the name of the temporary file, and a current directory that is there. The model of the file system lets creating a file and the
  writes fail (no such directory, name too long, disk full), but neither the removal nor the rename of a file that is there. A call that is dropped
  is not an error: it leaves the temporary file.
\<close>

theorem download_replaces_or_restores:
  assumes "download_file be env ge mode i handle (d @ [Normal n]) replace (h, s) = Some (r, h', s')"
    "47 \<notin> set n" "vacant h (spot h (temp_download_path ge i (d @ [Normal n])))" "cwd_there h"
  shows "(\<forall>e. r = Err e \<longrightarrow> changes_within {} h h') \<and>
    (\<forall>k. r = Ok k \<longrightarrow> changes_within {spot h (d @ [Normal n])} h h' \<and>
      (\<exists>dl s1 data c x. storage_download be env handle ByteRange.Full s = Some (Ok dl, s1) \<and>
        collect_download be env [] dl s1 = Some (Ok data, s') \<and> node_at h' (spot h (d @ [Normal n])) = Some (FileNode c x data)))"
  using assms(1)
proof (cases rule: download_file_cases)
  case (started there h1 result h2 s2)
  let ?m = "temp_name ge i n" and ?e = "spot h d"
  let ?temp = "d @ [Normal ?m]"
  let ?t = "spot h ?temp"
  have temp: "temp_download_path ge i (d @ [Normal n]) = ?temp" by (rule temp_of_file [OF assms(2)])
  note begun = started(1) started(2-4) [unfolded temp]
  have free: "vacant h ?t" using assms(3) temp by simp
  obtain t where t: "entry_of h ?temp = Ok t" using begun(2) by (cases "entry_of h ?temp") (auto simp: fs_write_def)
  have et: "entry_of h ?temp = Ok (?e @ [?m])" "?t = ?e @ [?m]" using t entry_of_norm [OF t] by simp_all
  have hold: "holding h ?temp ?t [] h1" by (rule holding_created [OF begun(2) free])
  obtain data where data: "holding h ?temp ?t data h2" and got: "\<forall>k. result = Ok k \<longrightarrow>
      (\<exists>dl s1. storage_download be env handle ByteRange.Full s = Some (Ok dl, s1) \<and> collect_download be env [] dl s1 = Some (Ok data, s2))"
    using begun(3)
  proof (cases rule: transfer_cases)
    case failed
    show ?thesis by (rule that [of "[]"]) (use failed hold in auto)
  next
    case (chunks dl s1)
    from download_chunks_hold [OF chunks(2) hold] obtain data where held: "holding h ?temp ?t data h2"
      and collect: "\<forall>k. result = Ok k \<longrightarrow> collect_download be env [] dl s1 = Some (Ok data, s2)" by metis
    show ?thesis by (rule that [OF held]) (use collect chunks(1) in simp)
  qed
  show ?thesis
  proof (cases result)
    case (Ok k)
    have "r = Ok k \<and> s' = s2 \<and> (\<exists>c x. node_at h' (spot h (d @ [Normal n])) = Some (FileNode c x data))
        \<and> changes_within {spot h (d @ [Normal n])} h h'"
      by (rule replaced [OF data [unfolded et(2)] _ assms(4) temp_name_longer(1) temp_name_longer(2) _ begun(4) [unfolded Ok] et(1)])
        (use free et(2) destination_known [OF begun(1)] in simp_all)
    then show ?thesis using got Ok by blast
  next
    case (Err err)
    then have removed: "fs_remove_file ?temp h2 = (fst (fs_remove_file ?temp h2), h')" and r: "r = Err err"
      using begun(4) by (auto simp: finish_download_def)
    have "changes_within {} h h'" by (rule holding_removed [OF data free _ removed]) (simp add: et(2))
    then show ?thesis using r by simp
  qed (use begun(4) in \<open>simp_all add: finish_download_def\<close>)
qed auto

text \<open>A destination that is there already, replaced by a machine with room, and kept by one whose disk is full.\<close>

definition demo_old :: Host where
  "demo_old = demo_here\<lparr>host_files := [([str ''w''], DirNode None 0), ([str ''w'', str ''a''], FileNode None 0 [9])]\<rparr>"

definition demo_full_env :: get_env where
  "demo_full_env = demo_get_env\<lparr>ge_room := (\<lambda>n. n = 0)\<rparr>"

abbreviation demo_temp :: PathBuf where "demo_temp \<equiv> [Normal (temp_name demo_get_env 1 (str ''a''))]"

definition demo_old1 :: Host where "demo_old1 = snd (fs_write demo_temp [] demo_old)"
definition demo_old2 :: Host where "demo_old2 = snd (fs_write demo_temp [1, 2] demo_old1)"
definition demo_old3 :: Host where "demo_old3 = snd (fs_remove_file [Normal (str ''a'')] demo_old2)"
definition demo_old4 :: Host where "demo_old4 = snd (fs_rename demo_temp [Normal (str ''a'')] demo_old3)"
definition demo_old5 :: Host where "demo_old5 = snd (fs_remove_file demo_temp demo_old1)"

lemma demo_replacing:
  "destination_state True [Normal (str ''a'')] demo_old = Ok True" "temp_download_path demo_get_env 1 [Normal (str ''a'')] = demo_temp"
  "temp_download_path demo_full_env 1 [Normal (str ''a'')] = demo_temp"
  "fst (fs_write demo_temp [] demo_old) = Ok ()" "fst (fs_write demo_temp [1, 2] demo_old1) = Ok ()"
  "fst (fs_remove_file [Normal (str ''a'')] demo_old2) = Ok ()" "fst (fs_rename demo_temp [Normal (str ''a'')] demo_old3) = Ok ()"
  by code_simp+

lemma demo_replaced: "download_file demo_shelf (env :: (unit, nat) surroundings) demo_get_env demo_cli 1 1 [Normal (str ''a'')] True (demo_old, ()) =
    Some (Ok 2, demo_old4, ())"
proof -
  have "fs_write demo_temp [] demo_old = (Ok (), demo_old1)" "fs_write demo_temp [1, 2] demo_old1 = (Ok (), demo_old2)"
    "fs_remove_file [Normal (str ''a'')] demo_old2 = (Ok (), demo_old3)" "fs_rename demo_temp [Normal (str ''a'')] demo_old3 = (Ok (), demo_old4)"
    using demo_replacing by (simp_all add: demo_old1_def demo_old2_def demo_old3_def demo_old4_def prod_eq_iff)
  then show ?thesis
    using demo_replacing demo_chunks [of demo_temp demo_old1 demo_old2 env]
    by (auto simp: download_file_def locally_def on_cli_opt_def on_cli_def beside_def then_opt_def finish_download_def)
qed

lemma demo_kept: "\<exists>e. download_file demo_shelf (env :: (unit, nat) surroundings) demo_full_env demo_cli 1 1 [Normal (str ''a'')] True (demo_old, ()) =
    Some (Err e, demo_old5, ())"
proof -
  obtain time where start: "storage_download demo_shelf env 1 ByteRange.Full () = Some (Ok (demo_dl [[1, 2]] 0 time), ())"
    using demo_start by blast
  obtain time' where chunk: "download_next_chunk demo_shelf env (demo_dl [[1, 2]] 0 time) () = Some (Yielded (Ok [1, 2]), demo_dl [] 2 time', ())"
    using demo_chunk by blast
  have full: "\<not> ge_room demo_full_env (length [1, 2 :: u8])" by (simp add: demo_full_env_def)
  have "download_chunks demo_shelf env demo_full_env demo_cli demo_temp [] (demo_dl [[1, 2]] 0 time) demo_old1 () =
      Some (Err (CliError_new CliErrorKind.Transfer ''write local file''), demo_old1, ())"
    by (subst download_chunks.simps) (use full in \<open>simp add: chunk\<close>)
  moreover have "fs_write demo_temp [] demo_old = (Ok (), demo_old1)" using demo_replacing by (simp add: demo_old1_def prod_eq_iff)
  ultimately show ?thesis
    using demo_replacing start
    by (simp add: download_file_def locally_def on_cli_opt_def on_cli_def beside_def then_opt_def finish_download_def demo_old5_def)
qed

theorem download_replaces_or_restores_witness:
  "\<forall>env :: (unit, nat) surroundings.
     (\<exists>c x. download_file demo_shelf env demo_get_env demo_cli 1 1 [Normal (str ''a'')] True (demo_old, ()) = Some (Ok 2, demo_old4, ()) \<and>
        changes_within {[str ''w'', str ''a'']} demo_old demo_old4 \<and> node_at demo_old4 [str ''w'', str ''a''] = Some (FileNode c x [1, 2])) \<and>
     (\<exists>e. download_file demo_shelf env demo_full_env demo_cli 1 1 [Normal (str ''a'')] True (demo_old, ()) = Some (Err e, demo_old5, ()) \<and>
        changes_within {} demo_old demo_old5)"
proof
  fix env :: "(unit, nat) surroundings"
  let ?t = "[str ''w'', temp_name demo_get_env 1 (str ''a'')]"
  have a: "47 \<notin> set (str ''a'')" by code_simp
  have cur: "host_cwd demo_old = [str ''w'']" by (simp add: demo_old_def demo_here_def)
  have "temp_name demo_get_env 1 (str ''a'') \<noteq> str ''a''" using temp_name_longer(1) by metis
  then have free: "vacant demo_old ?t"
    by (auto simp: vacant_def demo_old_def demo_here_def node_at_def prefix_def)
  have cwd: "cwd_there demo_old" by (auto simp: cwd_there_def demo_old_def demo_here_def prefix_Cons dir_at_def node_at_def)
  obtain e where e: "download_file demo_shelf env demo_full_env demo_cli 1 1 ([] @ [Normal (str ''a'')]) True (demo_old, ()) =
      Some (Err e, demo_old5, ())"
    using demo_kept [of env] by auto
  have ok: "download_file demo_shelf env demo_get_env demo_cli 1 1 ([] @ [Normal (str ''a'')]) True (demo_old, ()) = Some (Ok 2, demo_old4, ())"
    using demo_replaced [of env] by simp
  have "case node_at demo_old4 [str ''w'', str ''a''] of Some (FileNode c x data) \<Rightarrow> data = [1, 2] | _ \<Rightarrow> False" by code_simp
  then have bytes: "\<exists>c x. node_at demo_old4 [str ''w'', str ''a''] = Some (FileNode c x [1, 2])"
    by (auto split: option.splits node.splits)
  from download_replaces_or_restores [OF ok a _ cwd] download_replaces_or_restores [OF e a _ cwd] free bytes
  show "(\<exists>c x. download_file demo_shelf env demo_get_env demo_cli 1 1 [Normal (str ''a'')] True (demo_old, ()) = Some (Ok 2, demo_old4, ()) \<and>
        changes_within {[str ''w'', str ''a'']} demo_old demo_old4 \<and> node_at demo_old4 [str ''w'', str ''a''] = Some (FileNode c x [1, 2])) \<and>
     (\<exists>e. download_file demo_shelf env demo_full_env demo_cli 1 1 [Normal (str ''a'')] True (demo_old, ()) = Some (Err e, demo_old5, ()) \<and>
        changes_within {} demo_old demo_old5)"
    using ok e demo_replacing(2,3) by (simp add: cur)
qed

end
