(* ===== verification/Spec2Isabelle.thy ===== *)
theory Spec2Isabelle
  imports Mtp_On_Device Mtp_Device Mtp_Prop_List Usb_Runs Cli_Runs
begin

text \<open>
  A verification development for \<open>mtp-rs\<close>, a library that talks the Media Transfer Protocol to cameras,
  phones and players over USB. Paths below are relative to \<open>src/crates/mtp-rs/src/\<close>.

  \<^bold>\<open>The program.\<close> A PTP/MTP transaction is a command container on the bulk OUT pipe, an optional data phase,
  and a response container on the bulk IN pipe, tied together by a 32-bit transaction identifier. The library
  has a byte layer (\<open>ptp/pack\<close>, \<open>ptp/codes.rs\<close>, \<open>ptp/container.rs\<close>, \<open>ptp/types\<close>), a transport trait with its
  implementations (\<open>transport\<close>), a session that runs transactions over a transport and recovers from abandoned ones
  (\<open>ptp/session\<close>), and a high-level API over the session (\<open>mtp\<close>). A command line tool, \<open>crates/mtp-rs-cli\<close>, uses that API.

  \<^bold>\<open>Theories.\<close>
  \<^item> \<open>Prelude\<close>: Rust outcomes (a value, an error, a panic, or a future dropped while it waits), the \<open>?\<close> operator with
    and without state, slices and indexing with their panics, little-endian bytes.
  \<^item> \<open>Codes\<close>: the sixteen-bit code enumerations of \<open>ptp/codes.rs\<close> and \<open>ptp/types/storage.rs\<close>; the locale \<open>num_enum\<close>
    states what the conversions of such an enumeration promise and is interpreted on each of the twelve.
  \<^item> \<open>Errors\<close>: \<open>error.rs\<close>.
  \<^item> \<open>Pack\<close>: \<open>ptp/pack/mod.rs\<close>; the locales \<open>fixed_codec\<close> and \<open>var_codec\<close> are the contracts of encoders and decoders,
    interpreted on the eight integers, strings, arrays, dates, property values and ranges.
  \<^item> \<open>Civil_Time\<close>: \<open>ptp/pack/datetime.rs\<close>. The conversions are compared with the Gregorian calendar given by leap
    years, month lengths and the successor of a date.
  \<^item> \<open>Properties\<close>, \<open>Datasets\<close>: \<open>ptp/types\<close>; parsers against wire forms, including those the library itself never writes.
  \<^item> \<open>Container\<close>: \<open>ptp/container.rs\<close>.
  \<^item> \<open>Transport\<close>: the trait of \<open>transport/mod.rs\<close> as a record of operations over a transport state, and \<open>transport/mock.rs\<close>.
    The locale \<open>bulk_pipe\<close> is what the session relies on: reads take transfers in order, a successful cancel leaves the
    pipe empty. It is interpreted on the mock. \<open>traced\<close> records the calls made on any transport.
  \<^item> \<open>Session\<close>: \<open>ptp/session/mod.rs\<close>: identifiers, stale replies, recovery, the three ways an operation runs, opening.
  \<^item> \<open>Operations\<close>: \<open>ptp/session/operations.rs\<close>, \<open>ptp/session/properties.rs\<close>, the session-less part of \<open>ptp/device.rs\<close> and
    \<open>cancel.rs\<close>.
  \<^item> \<open>Streaming\<close>: \<open>ptp/session/streaming.rs\<close>: downloads as streams, their cancel and destructor, streamed uploads.
  \<^item> \<open>Host_Fs\<close>, \<open>Host_Changes\<close>: paths and the file system of the host as the virtual device uses them (\<open>std::path\<close>,
    \<open>std::fs\<close>), and what each operation on it leaves alone.
  \<^item> \<open>Virtual_State\<close>, \<open>Virtual_Builders\<close>, \<open>Virtual_Handlers\<close>, \<open>Virtual_Transport\<close>: the virtual device of
    \<open>transport/virtual_device\<close>, a responder over a host directory: its state and scans, the containers it builds, the handler of
    each operation, property lists, and its transport, which interprets \<open>bulk_pipe\<close> again.
  \<^item> \<open>Virtual_Contract\<close>, \<open>Virtual_Device\<close>: what every handler promises (\<open>serves\<close>: one answer, the invariant, and no change outside the
    writable backing directories), the locale \<open>responder\<close> that states it, interpreted on \<open>dispatch\<close>, and the runs of the
    device as a step relation.
  \<^item> \<open>Virtual_Session\<close>, \<open>Virtual_Transfers\<close>: a session over the virtual device: what is uploaded is downloaded.
  \<^item> \<open>Mtp_Types\<close>: the backend-neutral types of \<open>mtp/error.rs\<close>, \<open>mtp/types.rs\<close>, \<open>mtp/object.rs\<close> and \<open>mtp/event.rs\<close>.
  \<^item> \<open>Mtp_Download\<close>: the backend trait of \<open>mtp/backend/mod.rs\<close> as a record of operations, and the paced downloads of
    \<open>mtp/stream.rs\<close>. The locale \<open>file_reads\<close> states what a backend promises of the reads of one file; a download over it is exact.
  \<^item> \<open>Mtp_Usb\<close>, \<open>Mtp_Prop_List\<close>: the USB backend, \<open>mtp/backend/usb.rs\<close>, and its listing by property list against a specification.
  \<^item> \<open>Mtp_Storage\<close>: \<open>mtp/storage.rs\<close>: listings that stream, collect and walk a tree, and the operations on objects.
  \<^item> \<open>Usb_Transport\<close>, \<open>Usb_Devices\<close>: \<open>transport/nusb.rs\<close>: the calls of the USB transport, and listing and opening devices. The \<open>nusb\<close>
    library and the bus are a parameter, the record \<open>nusb\<close> of the library's calls over a bus state.
  \<^item> \<open>Usb_Contract\<close>, \<open>Usb_Runs\<close>: what the library promises of the transfers in flight (\<open>lawful\<close>) and asks of its callers; the locale \<open>careful\<close> is
    an invariant every call of the transport keeps, interpreted on the bus and on one that records breaches. Cancellation and
    reset end when the device falls silent; streamed uploads as they appear on the wire.
  \<^item> \<open>Virtual_Watcher\<close>, \<open>Virtual_Registry\<close>: \<open>watcher.rs\<close> and \<open>registry.rs\<close> of \<open>transport/virtual_device\<close>: notifications of the host's file
    system, devices that can be discovered, running devices by serial number, the guards that pause a watcher, test hooks. A shared
    state is a position in the list of all states.
  \<^item> \<open>Mtp_Hotplug\<close>: \<open>mtp/hotplug.rs\<close>: arrivals and departures from successive enumerations.
  \<^item> \<open>Mtp_Device\<close>: \<open>mtp/device.rs\<close> and the opening of \<open>ptp/device.rs\<close>: listing, opening and resetting devices.
  \<^item> \<open>Mtp_On_Device\<close>: the USB backend over a session over the virtual device interprets \<open>file_reads\<close>.
  \<^item> \<open>Cli_Paths\<close>, \<open>Cli_Commands\<close>, \<open>Cli_Get\<close>: the command line tool, \<open>crates/mtp-rs-cli/src/cli\<close>: errors and exit codes, remote paths and what
    they name, the choice of device and storage (\<open>error.rs\<close>, \<open>path.rs\<close>, \<open>helpers.rs\<close>, \<open>device.rs\<close>), the commands \<open>ls\<close>, \<open>mkdir\<close>, \<open>rm\<close>, \<open>rename\<close>, \<open>mv\<close>,
    \<open>cp\<close>, \<open>put\<close> and \<open>get\<close>, from the arguments to the row they report. \<open>slash_decides\<close> states what a trailing slash of a destination changes.
  \<^item> \<open>Cli_Local\<close>, \<open>Cli_Atomic\<close>, \<open>Cli_Runs\<close>: what \<open>get\<close> does to the files of this machine: where it writes, and that a download replaces its
    destination or leaves it.

  \<^bold>\<open>State and effects.\<close> A session is a record passed through every call; the transport is part of it. \<open>await\<close> points are
  calls on the transport, whose outcome may be that the caller's future is dropped there; destructors (the transaction
  scope, the lock guard, the stream) then run, which is what \<open>scoped\<close>, \<open>under_lock\<close> and \<open>stream_drop\<close> do. Operations of one
  session are serialized by its lock, so a run is a sequence of calls. Machine integers are words; byte
  counts that the source keeps in 64 bits and never lets approach the limit are natural numbers. Texts of error
  messages are kept as templates with their numeric arguments.

  \<^bold>\<open>Loops.\<close> Loops that end by a counter are total functions. The loops that read until the device answers
  (\<open>receive_loop\<close>, \<open>next_loop\<close>, \<open>collect_loop\<close>, \<open>next_chunk_loop\<close>, \<open>walk\<close>, \<open>cancel_drain\<close>) may run as long as the device sends, so they are partial functions into
  \<open>option\<close>; the liveness theorems show that they return when the device's containers and its response arrive. The recursions of the
  virtual device over directories carry a bound: a path shorter than \<open>PATH_MAX\<close> has fewer components than that,
  and the queue of a full scan takes every path of the host once.

  \<^bold>\<open>What the theorems show.\<close> A session survives failure: an operation that fails or is dropped leaves the lock
  free and its own transaction flagged, and the next one cancels it before it sends anything; late replies are
  recognised across the wrap of the identifiers; data phases and streams are reassembled from any split into transfers;
  every parser returns a value or an error on every byte string; encoders and decoders are inverse. The virtual device
  answers every command once and stays inside its writable directories, whatever it is sent, as long as
  uploads are named; client and device together store and return files unchanged, also through the high-level API, whatever the
  pacing, the range and the activity of other tasks between the windows. Listings lose nothing: streaming, collecting and walking agree, and the folding of
  a property list is its specification. Devices that come and go are reported once each; a virtual device that is registered can be
  listed and opened, and its watcher rests while a guard is alive. The USB transport keeps to the rules of its library in any order of calls.

  \<^bold>\<open>Not modelled.\<close> The Windows backend \<open>mtp/backend/wpd\<close>, which calls COM interfaces (opening a device through it is a parameter of \<open>Mtp_Device\<close>), and,
  of the command line tool, the parsing of arguments by clap, what is printed, and the commands \<open>devices\<close>, \<open>info\<close>, \<open>doctor\<close>
  and \<open>reset\<close>. Process-wide locks are taken for granted: every function of the registry is one step. The host of the virtual device has no symbolic links, no
  permissions and no full disk; times are those of its clock. Log messages have no effect and are left out.
\<close>

section \<open>Properties that span components\<close>

text \<open>
  C39: No bytes make a parser panic: every parser of containers, datasets, strings, dates, arrays, property values and ranges and integers
  returns a value or an error on every byte string, so no slice and no index of theirs is out of bounds.
\<close>

theorem parsers_never_panic:
  "returns (container_type buf) (\<lambda>_. True) \<and> returns (DataContainer_from_bytes buf) (\<lambda>_. True)
   \<and> returns (ResponseContainer_from_bytes buf) (\<lambda>_. True) \<and> returns (EventContainer_from_bytes buf) (\<lambda>_. True)
   \<and> returns (ObjectInfo_from_bytes buf) (\<lambda>_. True) \<and> returns (StorageInfo_from_bytes buf) (\<lambda>_. True)
   \<and> returns (DeviceInfo_from_bytes buf) (\<lambda>_. True) \<and> returns (list_from_bytes buf) (\<lambda>_. True)
   \<and> returns (DevicePropDesc_from_bytes buf) (\<lambda>_. True) \<and> returns (PropertyValue_from_bytes dtype buf) (\<lambda>_. True)
   \<and> returns (PropertyRange_from_bytes dtype buf) (\<lambda>_. True)
   \<and> returns (unpack_string buf) (\<lambda>_. True) \<and> returns (parse_bytes buf) (\<lambda>_. True) \<and> returns (unpack_datetime buf) (\<lambda>_. True)
   \<and> returns (unpack_u16_array buf) (\<lambda>_. True) \<and> returns (unpack_u32_array buf) (\<lambda>_. True)
   \<and> returns (unpack_u8 buf) (\<lambda>_. True) \<and> returns (unpack_u16 buf) (\<lambda>_. True)
   \<and> returns (unpack_u32 buf) (\<lambda>_. True) \<and> returns (unpack_u64 buf) (\<lambda>_. True)
   \<and> returns (unpack_i8 buf) (\<lambda>_. True) \<and> returns (unpack_i16 buf) (\<lambda>_. True)
   \<and> returns (unpack_i32 buf) (\<lambda>_. True) \<and> returns (unpack_i64 buf) (\<lambda>_. True)"
  by (intro conjI total parse_bytes_returns returns_mono [OF ObjectInfo_from_bytes_total] returns_mono [OF PropertyValue_from_bytes_total]
      returns_mono [OF prop_range.unpack_returns] returns_mono [OF string.unpack_returns] returns_mono [OF datetime.unpack_returns]
      returns_mono [OF u16_array.unpack_returns] returns_mono [OF u32_array.unpack_returns]
      returns_mono [OF u8.unpack_returns] returns_mono [OF u16.unpack_returns] returns_mono [OF u32.unpack_returns]
      returns_mono [OF u64.unpack_returns] returns_mono [OF i8.unpack_returns] returns_mono [OF i16.unpack_returns]
      returns_mono [OF i32.unpack_returns] returns_mono [OF i64.unpack_returns]) auto

end
